(* ===== verification/Prelude.thy ===== *)
theory Prelude
  imports Main "HOL-Library.Word" "HOL-Library.Sublist"
begin

text \<open>
  Shared vocabulary of the development: Java results and exceptions, references that may be
  null, the operations on \<open>String\<close> the code uses, wrap-around of \<open>int\<close> and \<open>long\<close>, and the
  generic lemmas on lists and maps the component theories build on.

  A Java \<open>String\<close> is a HOL \<open>string\<close>, a list of bytes: ASCII text is written as a literal, other
  text as its UTF-8 bytes (\<open>utf8\<close>). Equality, concatenation and containment agree with Java's
  on such strings.
\<close>

subsection \<open>Collections of the development\<close>

named_theorems cache_simps \<open>characteristic equations of the gateway caches\<close>
named_theorems string_simps \<open>evaluation of the string operations\<close>
named_theorems enum_simps \<open>tables of the enumerations\<close>
named_theorems res_simps \<open>results that may be exceptions\<close>

subsection \<open>Exceptions and results\<close>

text \<open>The exceptions the modelled code can raise, with the message where the code builds one.\<close>

datatype jexn =
    NullPointer
  | IndexOutOfBounds
  | NumberFormat
  | ConcurrentModification
  | IllegalArgument string
  | IllegalState string
  | SoulException string
  | RuntimeExn string
  | IOFailure string

text \<open>A call returns a value or throws.\<close>

type_synonym 'a jres = "jexn + 'a"

definition bindr :: "'a jres \<Rightarrow> ('a \<Rightarrow> 'b jres) \<Rightarrow> 'b jres" where
  "bindr m f = (case m of Inl e \<Rightarrow> Inl e | Inr x \<Rightarrow> f x)"

lemma bindr_simps [simp, res_simps]:
  "bindr (Inl e) f = Inl e"
  "bindr (Inr x) f = f x"
  by (simp_all add: bindr_def)

lemma bindr_eq_Inr: "bindr m f = Inr y \<longleftrightarrow> (\<exists>x. m = Inr x \<and> f x = Inr y)"
  by (cases m) simp_all

lemma bindr_eq_Inl: "bindr m f = Inl e \<longleftrightarrow> m = Inl e \<or> (\<exists>x. m = Inr x \<and> f x = Inl e)"
  by (cases m) simp_all

lemma bindr_assoc: "bindr (bindr m f) g = bindr m (\<lambda>x. bindr (f x) g)"
  by (cases m) simp_all

text \<open>Dereferencing: a method call or unboxing on \<open>null\<close> throws.\<close>

definition deref :: "'a option \<Rightarrow> 'a jres" where
  "deref r = (case r of None \<Rightarrow> Inl NullPointer | Some x \<Rightarrow> Inr x)"

lemma deref_simps [simp, res_simps]:
  "deref None = Inl NullPointer"
  "deref (Some x) = Inr x"
  by (simp_all add: deref_def)

lemma deref_eq_Inr [simp]: "deref r = Inr x \<longleftrightarrow> r = Some x"
  by (cases r) simp_all

text \<open>\<open>stream().map(f)\<close> or a loop body that may throw: the first exception wins.\<close>

fun mapr :: "('a \<Rightarrow> 'b jres) \<Rightarrow> 'a list \<Rightarrow> 'b list jres" where
  "mapr f [] = Inr []"
| "mapr f (x # xs) = bindr (f x) (\<lambda>y. bindr (mapr f xs) (\<lambda>ys. Inr (y # ys)))"

lemma mapr_total: "(\<And>x. x \<in> set xs \<Longrightarrow> f x = Inr (g x)) \<Longrightarrow> mapr f xs = Inr (map g xs)"
  by (induction xs) simp_all

text \<open>\<open>stream().anyMatch(p)\<close> and \<open>allMatch(p)\<close> with a predicate that may throw: both stop early.\<close>

fun any_match :: "('a \<Rightarrow> bool jres) \<Rightarrow> 'a list \<Rightarrow> bool jres" where
  "any_match p [] = Inr False"
| "any_match p (x # xs) = bindr (p x) (\<lambda>b. if b then Inr True else any_match p xs)"

fun all_match :: "('a \<Rightarrow> bool jres) \<Rightarrow> 'a list \<Rightarrow> bool jres" where
  "all_match p [] = Inr True"
| "all_match p (x # xs) = bindr (p x) (\<lambda>b. if b then all_match p xs else Inr False)"

text \<open>\<open>stream().filter(p).findFirst()\<close> with a predicate that may throw.\<close>

fun find_first :: "('a \<Rightarrow> bool jres) \<Rightarrow> 'a list \<Rightarrow> 'a option jres" where
  "find_first p [] = Inr None"
| "find_first p (x # xs) = bindr (p x) (\<lambda>b. if b then Inr (Some x) else find_first p xs)"

lemma any_match_total:
  "(\<And>x. x \<in> set xs \<Longrightarrow> p x = Inr (q x)) \<Longrightarrow> any_match p xs = Inr (\<exists>x\<in>set xs. q x)"
  by (induction xs) auto

lemma all_match_total:
  "(\<And>x. x \<in> set xs \<Longrightarrow> p x = Inr (q x)) \<Longrightarrow> all_match p xs = Inr (\<forall>x\<in>set xs. q x)"
  by (induction xs) auto

lemma all_match_True: "all_match p xs = Inr True \<longleftrightarrow> (\<forall>x\<in>set xs. p x = Inr True)"
  by (induction xs) (auto simp: bindr_eq_Inr split: if_splits)

lemma any_match_False: "any_match p xs = Inr False \<longleftrightarrow> (\<forall>x\<in>set xs. p x = Inr False)"
  by (induction xs) (auto simp: bindr_eq_Inr split: if_splits)

lemma find_first_total:
  "(\<And>x. x \<in> set xs \<Longrightarrow> p x = Inr (q x)) \<Longrightarrow> find_first p xs = Inr (find q xs)"
  by (induction xs) auto

lemma find_first_SomeD:
  "find_first p xs = Inr (Some x) \<Longrightarrow>
     \<exists>us vs. xs = us @ x # vs \<and> p x = Inr True \<and> (\<forall>u\<in>set us. p u = Inr False)"
proof (induction xs)
  case Nil
  then show ?case by simp
next
  case (Cons y ys)
  then obtain b where b: "p y = Inr b" by (auto simp: bindr_eq_Inr)
  show ?case
  proof (cases b)
    case True
    with Cons.prems b have "y # ys = [] @ x # ys \<and> p x = Inr True" by simp
    then show ?thesis by (intro exI [of _ "[]"] exI [of _ ys]) simp
  next
    case False
    with Cons b obtain us vs where
      "ys = us @ x # vs" "p x = Inr True" "\<forall>u\<in>set us. p u = Inr False" by auto
    with b False show ?thesis by (intro exI [of _ "y # us"] exI [of _ vs]) simp
  qed
qed

lemma find_first_SomeI:
  "p x = Inr True \<Longrightarrow> (\<And>u. u \<in> set us \<Longrightarrow> p u = Inr False) \<Longrightarrow>
     find_first p (us @ x # vs) = Inr (Some x)"
  by (induction us) auto

lemma find_first_None:
  "find_first p xs = Inr None \<longleftrightarrow> (\<forall>x\<in>set xs. p x = Inr False)"
  by (induction xs) (auto simp: bindr_eq_Inr split: if_splits)

subsection \<open>First match in a list\<close>

lemma find_Some_split:
  "find p xs = Some x \<longleftrightarrow>
     (\<exists>us vs. xs = us @ x # vs \<and> p x \<and> (\<forall>u\<in>set us. \<not> p u))"
proof
  assume "find p xs = Some x"
  then show "\<exists>us vs. xs = us @ x # vs \<and> p x \<and> (\<forall>u\<in>set us. \<not> p u)"
  proof (induction xs)
    case Nil
    then show ?case by simp
  next
    case (Cons y ys)
    show ?case
    proof (cases "p y")
      case True
      with Cons.prems show ?thesis by (intro exI [of _ "[]"] exI [of _ ys]) simp
    next
      case False
      with Cons obtain us vs where "ys = us @ x # vs" "p x" "\<forall>u\<in>set us. \<not> p u" by auto
      with False show ?thesis by (intro exI [of _ "y # us"] exI [of _ vs]) simp
    qed
  qed
next
  assume "\<exists>us vs. xs = us @ x # vs \<and> p x \<and> (\<forall>u\<in>set us. \<not> p u)"
  then obtain us vs where "xs = us @ x # vs" "p x" "\<forall>u\<in>set us. \<not> p u" by blast
  then show "find p xs = Some x" by (induction us arbitrary: xs) auto
qed

lemma find_SomeD: "find p xs = Some x \<Longrightarrow> x \<in> set xs \<and> p x"
  by (auto simp: find_Some_iff)

subsection \<open>Integers of a fixed width\<close>

text \<open>\<open>int\<close> and \<open>long\<close> arithmetic in Java keeps the low 32 or 64 bits as two's complement.\<close>

definition wrap32 :: "int \<Rightarrow> int" where
  "wrap32 x = signed_take_bit 31 x"

definition wrap64 :: "int \<Rightarrow> int" where
  "wrap64 x = signed_take_bit 63 x"

definition in_int32 :: "int \<Rightarrow> bool" where
  "in_int32 x \<longleftrightarrow> - (2 ^ 31) \<le> x \<and> x < 2 ^ 31"

definition in_int64 :: "int \<Rightarrow> bool" where
  "in_int64 x \<longleftrightarrow> - (2 ^ 63) \<le> x \<and> x < 2 ^ 63"

lemma wrap32_id: "in_int32 x \<Longrightarrow> wrap32 x = x"
  unfolding wrap32_def in_int32_def by (rule signed_take_bit_int_eq_self) auto

lemma wrap64_id: "in_int64 x \<Longrightarrow> wrap64 x = x"
  unfolding wrap64_def in_int64_def by (rule signed_take_bit_int_eq_self) auto

lemma wrap32_range: "in_int32 (wrap32 x)"
  unfolding wrap32_def in_int32_def
  using signed_take_bit_int_greater_eq_minus_exp [of 31 x] signed_take_bit_int_less_exp [of 31 x]
  by simp

lemma wrap64_range: "in_int64 (wrap64 x)"
  unfolding wrap64_def in_int64_def
  using signed_take_bit_int_greater_eq_minus_exp [of 63 x] signed_take_bit_int_less_exp [of 63 x]
  by simp

subsection \<open>Strings\<close>

definition utf8 :: "nat list \<Rightarrow> string" where
  "utf8 bs = map char_of bs"

text \<open>\<open>Character.isWhitespace\<close> on the first 128 code points.\<close>

definition is_whitespace :: "char \<Rightarrow> bool" where
  "is_whitespace c = (let n = (of_char c :: nat) in (9 \<le> n \<and> n \<le> 13) \<or> (28 \<le> n \<and> n \<le> 32))"

text \<open>The tests on characters, evaluated on the bits of the character.\<close>

lemma is_whitespace_bits [code]:
  "is_whitespace (Char b0 b1 b2 b3 b4 b5 b6 b7) \<longleftrightarrow>
     \<not> b7 \<and> \<not> b6 \<and>
     (if b5 then \<not> b4 \<and> \<not> b3 \<and> \<not> b2 \<and> \<not> b1 \<and> \<not> b0
      else b3 \<and> (if b4 then b2 else if b2 then \<not> b1 else b1 \<or> b0))"
  by (cases b0; cases b1; cases b2; cases b3; cases b4; cases b5; cases b6; cases b7;
      simp add: is_whitespace_def)

text \<open>commons-lang \<open>StringUtils.isBlank\<close>: null, empty or whitespace only.\<close>

definition is_blank :: "string option \<Rightarrow> bool" where
  "is_blank s = (case s of None \<Rightarrow> True | Some cs \<Rightarrow> list_all is_whitespace cs)"

lemma is_blank_simps [simp]:
  "is_blank None"
  "is_blank (Some [])"
  "is_blank (Some (c # cs)) \<longleftrightarrow> is_whitespace c \<and> is_blank (Some cs)"
  by (simp_all add: is_blank_def)

text \<open>\<open>String.trim\<close> drops the characters up to U+0020 at both ends.\<close>

definition le_space :: "char \<Rightarrow> bool" where
  "le_space c \<longleftrightarrow> (of_char c :: nat) \<le> 32"

lemma le_space_bits [code]:
  "le_space (Char b0 b1 b2 b3 b4 b5 b6 b7) \<longleftrightarrow>
     \<not> b7 \<and> \<not> b6 \<and> (b5 \<longrightarrow> \<not> b4 \<and> \<not> b3 \<and> \<not> b2 \<and> \<not> b1 \<and> \<not> b0)"
  by (cases b0; cases b1; cases b2; cases b3; cases b4; cases b5; cases b6; cases b7;
      simp add: le_space_def)

definition trim :: "string \<Rightarrow> string" where
  "trim s = rev (dropWhile le_space (rev (dropWhile le_space s)))"

text \<open>\<open>String.contains\<close>.\<close>

fun str_contains :: "string \<Rightarrow> string \<Rightarrow> bool" where
  "str_contains [] t = (t = [])"
| "str_contains (c # cs) t = (prefix t (c # cs) \<or> str_contains cs t)"

lemma str_contains_append: "str_contains s t \<Longrightarrow> str_contains (us @ s) t"
  by (induction us) auto

lemma str_contains_prefix: "str_contains (t @ vs) t"
proof (cases "t @ vs")
  case Nil
  then show ?thesis by simp
next
  case (Cons a list)
  then have "prefix t (a # list)" by (metis prefixI)
  with Cons show ?thesis by simp
qed

lemma str_contains_iff: "str_contains s t \<longleftrightarrow> (\<exists>us vs. s = us @ t @ vs)"
proof
  show "str_contains s t \<Longrightarrow> \<exists>us vs. s = us @ t @ vs"
  proof (induction s)
    case Nil
    then show ?case by simp
  next
    case (Cons c cs)
    show ?case
    proof (cases "prefix t (c # cs)")
      case True
      then obtain vs where "c # cs = [] @ t @ vs" by (auto elim: prefixE)
      then show ?thesis by blast
    next
      case False
      with Cons obtain us vs where "cs = us @ t @ vs" by auto
      then have "c # cs = (c # us) @ t @ vs" by simp
      then show ?thesis by blast
    qed
  qed
  show "\<exists>us vs. s = us @ t @ vs \<Longrightarrow> str_contains s t"
    using str_contains_append str_contains_prefix by blast
qed

text \<open>
  commons-lang \<open>StringUtils.split(s, sep)\<close> with one separator character: adjacent separators
  count as one and no empty part is returned. \<open>split_on\<close> is Guava's \<open>Splitter.on(sep)\<close>, which
  keeps the empty parts.
\<close>

fun split_on :: "char \<Rightarrow> string \<Rightarrow> string list" where
  "split_on sep [] = [[]]"
| "split_on sep (c # cs) =
     (if c = sep then [] # split_on sep cs
      else (case split_on sep cs of [] \<Rightarrow> [[c]] | p # ps \<Rightarrow> (c # p) # ps))"

definition split_parts :: "char \<Rightarrow> string \<Rightarrow> string list" where
  "split_parts sep s = filter (\<lambda>p. p \<noteq> []) (split_on sep s)"

fun join_with :: "string \<Rightarrow> string list \<Rightarrow> string" where
  "join_with sep [] = []"
| "join_with sep [x] = x"
| "join_with sep (x # y # ys) = x @ sep @ join_with sep (y # ys)"

lemma split_on_nonempty [simp]: "split_on sep s \<noteq> []"
  by (induction s) (auto split: list.splits)

lemma join_split_on: "join_with [sep] (split_on sep s) = s"
proof (induction s)
  case Nil
  then show ?case by simp
next
  case (Cons c cs)
  obtain p ps where sp: "split_on sep cs = p # ps"
    by (cases "split_on sep cs") auto
  with Cons.IH show ?case by (cases ps) auto
qed

lemma split_on_no_sep: "q \<in> set (split_on sep s) \<Longrightarrow> sep \<notin> set q"
proof (induction s arbitrary: q)
  case Nil
  then show ?case by simp
next
  case (Cons c cs)
  obtain p ps where sp: "split_on sep cs = p # ps"
    by (cases "split_on sep cs") auto
  from Cons.prems sp consider "c = sep" "q = []" | "c = sep" "q \<in> set (split_on sep cs)"
    | "c \<noteq> sep" "q = c # p" | "c \<noteq> sep" "q \<in> set ps"
    by (auto split: if_splits)
  then show ?case
    by cases (use Cons.IH sp in auto)
qed

lemma split_on_append:
  "sep \<notin> set x \<Longrightarrow> split_on sep (x @ sep # y) = x # split_on sep y"
  by (induction x) auto

lemma split_on_atom: "sep \<notin> set x \<Longrightarrow> split_on sep x = [x]"
  by (induction x) auto

lemma split_on_join:
  "xs \<noteq> [] \<Longrightarrow> (\<And>x. x \<in> set xs \<Longrightarrow> sep \<notin> set x) \<Longrightarrow> split_on sep (join_with [sep] xs) = xs"
proof (induction xs rule: induct_list012)
  case 1
  then show ?case by simp
next
  case (2 x)
  then show ?case by (simp add: split_on_atom)
next
  case (3 x y zs)
  then show ?case by (simp add: split_on_append)
qed

text \<open>\<open>String.indexOf(c)\<close> and \<open>lastIndexOf(c)\<close>, \<open>None\<close> where Java returns -1.\<close>

fun index_of :: "char \<Rightarrow> string \<Rightarrow> nat option" where
  "index_of c [] = None"
| "index_of c (d # ds) = (if d = c then Some 0 else map_option Suc (index_of c ds))"

definition last_index_of :: "char \<Rightarrow> string \<Rightarrow> nat option" where
  "last_index_of c s = map_option (\<lambda>i. length s - 1 - i) (index_of c (rev s))"

text \<open>\<open>String.substring(i)\<close> throws when the index is past the end.\<close>

definition substring_from :: "string \<Rightarrow> nat \<Rightarrow> string jres" where
  "substring_from s i = (if i \<le> length s then Inr (drop i s) else Inl IndexOutOfBounds)"

definition ends_with :: "string \<Rightarrow> string \<Rightarrow> bool" where
  "ends_with s t \<longleftrightarrow> suffix t s"

definition starts_with :: "string \<Rightarrow> string \<Rightarrow> bool" where
  "starts_with s t \<longleftrightarrow> prefix t s"

text \<open>\<open>String.valueOf\<close> of a number, in decimal.\<close>

fun show_nat :: "nat \<Rightarrow> string" where
  "show_nat n = (if n < 10 then [char_of (48 + n)] else show_nat (n div 10) @ [char_of (48 + n mod 10)])"

declare show_nat.simps [simp del]

definition show_int :: "int \<Rightarrow> string" where
  "show_int i = (if i < 0 then CHR ''-'' # show_nat (nat (- i)) else show_nat (nat i))"

definition is_digit :: "char \<Rightarrow> bool" where
  "is_digit c \<longleftrightarrow> 48 \<le> (of_char c :: nat) \<and> (of_char c :: nat) \<le> 57"

lemma is_digit_bits [code]:
  "is_digit (Char b0 b1 b2 b3 b4 b5 b6 b7) \<longleftrightarrow>
     \<not> b7 \<and> \<not> b6 \<and> b5 \<and> b4 \<and> (b3 \<longrightarrow> \<not> b2 \<and> \<not> b1)"
  by (cases b0; cases b1; cases b2; cases b3; cases b4; cases b5; cases b6; cases b7;
      simp add: is_digit_def)

text \<open>\<open>Long.parseLong\<close> and \<open>Integer.parseInt\<close>: an optional sign, then decimal digits in range.\<close>

definition digits_value :: "string \<Rightarrow> int" where
  "digits_value s = foldl (\<lambda>acc c. acc * 10 + (int (of_char c) - 48)) 0 s"

definition parse_digits :: "string \<Rightarrow> int option" where
  "parse_digits s = (if s \<noteq> [] \<and> list_all is_digit s then Some (digits_value s) else None)"

definition parse_signed :: "string \<Rightarrow> int option" where
  "parse_signed s = (case s of [] \<Rightarrow> None
     | c # cs \<Rightarrow> if c = CHR ''-'' then map_option uminus (parse_digits cs)
                 else if c = CHR ''+'' then parse_digits cs else parse_digits s)"

definition parse_long :: "string \<Rightarrow> int jres" where
  "parse_long s = (case parse_signed s of
      Some v \<Rightarrow> if in_int64 v then Inr v else Inl NumberFormat
    | None \<Rightarrow> Inl NumberFormat)"

definition parse_int :: "string \<Rightarrow> int jres" where
  "parse_int s = (case parse_signed s of
      Some v \<Rightarrow> if in_int32 v then Inr v else Inl NumberFormat
    | None \<Rightarrow> Inl NumberFormat)"

lemma of_char_digit: "n < 10 \<Longrightarrow> (of_char (char_of (48 + n) :: char) :: nat) = 48 + n"
  by simp

lemma show_nat_digits: "list_all is_digit (show_nat n) \<and> show_nat n \<noteq> []"
proof (induction n rule: show_nat.induct)
  case (1 n)
  show ?case
  proof (cases "n < 10")
    case True
    then show ?thesis by (simp add: show_nat.simps [of n] is_digit_def)
  next
    case False
    have "is_digit (char_of (48 + n mod 10))" by (simp add: is_digit_def)
    with 1 False show ?thesis by (simp add: show_nat.simps [of n])
  qed
qed

lemma digits_value_snoc:
  "digits_value (s @ [c]) = digits_value s * 10 + (int (of_char c) - 48)"
  by (simp add: digits_value_def)

lemma digits_value_show_nat: "digits_value (show_nat n) = int n"
proof (induction n rule: show_nat.induct)
  case (1 n)
  show ?case
  proof (cases "n < 10")
    case True
    then show ?thesis by (subst show_nat.simps) (simp add: digits_value_def)
  next
    case False
    then have "digits_value (show_nat n) = int (n div 10) * 10 + int (n mod 10)"
      using 1 by (subst show_nat.simps) (simp add: digits_value_snoc)
    also have "\<dots> = int n" by presburger
    finally show ?thesis .
  qed
qed

lemma show_nat_hd_digit: "is_digit (hd (show_nat n))"
  using show_nat_digits [of n] by (cases "show_nat n") auto

lemma parse_signed_show_int: "parse_signed (show_int i) = Some i"
proof (cases "i < 0")
  case True
  then show ?thesis
    using show_nat_digits [of "nat (- i)"]
    by (simp add: show_int_def parse_signed_def parse_digits_def digits_value_show_nat)
next
  case False
  obtain c cs where s: "show_nat (nat i) = c # cs"
    using show_nat_digits [of "nat i"] by (cases "show_nat (nat i)") auto
  have d: "is_digit c" using show_nat_hd_digit [of "nat i"] s by simp
  then have "c \<noteq> CHR ''-''" "c \<noteq> CHR ''+''" by (auto simp: is_digit_def)
  moreover have "parse_digits (c # cs) = Some i"
    using show_nat_digits [of "nat i"] digits_value_show_nat [of "nat i"] s False
    by (simp add: parse_digits_def)
  ultimately show ?thesis using False s by (simp add: show_int_def parse_signed_def)
qed

lemma parse_long_show_int: "in_int64 i \<Longrightarrow> parse_long (show_int i) = Inr i"
  by (simp add: parse_long_def parse_signed_show_int)

lemma show_int_inject: "show_int i = show_int j \<Longrightarrow> i = j"
  by (metis option.inject parse_signed_show_int)

subsection \<open>Maps with a key removed\<close>

definition remove_key :: "'k \<Rightarrow> ('k \<rightharpoonup> 'v) \<Rightarrow> ('k \<rightharpoonup> 'v)" where
  "remove_key k m = m(k := None)"

lemma remove_key_simps [simp, cache_simps]:
  "remove_key k m k = None"
  "k' \<noteq> k \<Longrightarrow> remove_key k m k' = m k'"
  by (simp_all add: remove_key_def)

lemma dom_remove_key [simp]: "dom (remove_key k m) = dom m - {k}"
  by (auto simp: remove_key_def split: if_splits)

subsection \<open>Lists kept sorted by a key\<close>

lemma sorted_sort_key_map: "sorted (map k (sort_key k xs))"
  by simp

lemma sort_key_filter_distinct:
  "distinct (map f xs) \<Longrightarrow> distinct (map f (sort_key k xs))"
  by (simp add: distinct_map)

end
