(* ===== verification/Enums.thy ===== *)
theory Enums
  imports Prelude
begin

text \<open>
  The enumerations of \<open>soul-common\<close> (\<open>common/enums\<close>) and \<open>SoulResultEnum\<close> of \<open>soul-plugin-api\<close>:
  one datatype per enum with the source's constants in order, \<open>values()\<close> as a list, one function
  per field, and the look-ups by name or code with their defaults and exceptions. The locale
  \<open>enum_lookup\<close> states once what every such look-up relies on and is interpreted on each table.
\<close>

subsection \<open>The tables\<close>

datatype config_group = G_APP_AUTH | G_PLUGIN | G_RULE | G_SELECTOR | G_META_DATA

definition config_group_values :: "config_group list" where
  "config_group_values = [G_APP_AUTH, G_PLUGIN, G_RULE, G_SELECTOR, G_META_DATA]"

fun config_group_name :: "config_group \<Rightarrow> string" where
  "config_group_name G_APP_AUTH = ''APP_AUTH''"
| "config_group_name G_PLUGIN = ''PLUGIN''"
| "config_group_name G_RULE = ''RULE''"
| "config_group_name G_SELECTOR = ''SELECTOR''"
| "config_group_name G_META_DATA = ''META_DATA''"

datatype data_event_type = EV_DELETE | EV_CREATE | EV_UPDATE | EV_REFRESH | EV_MYSELF

definition data_event_type_values :: "data_event_type list" where
  "data_event_type_values = [EV_DELETE, EV_CREATE, EV_UPDATE, EV_REFRESH, EV_MYSELF]"

fun data_event_type_name :: "data_event_type \<Rightarrow> string" where
  "data_event_type_name EV_DELETE = ''DELETE''"
| "data_event_type_name EV_CREATE = ''CREATE''"
| "data_event_type_name EV_UPDATE = ''UPDATE''"
| "data_event_type_name EV_REFRESH = ''REFRESH''"
| "data_event_type_name EV_MYSELF = ''MYSELF''"

datatype data_sync = DS_HTTP | DS_ZOOKEEPER | DS_WEBSOCKET

definition data_sync_values :: "data_sync list" where
  "data_sync_values = [DS_HTTP, DS_ZOOKEEPER, DS_WEBSOCKET]"

fun data_sync_name :: "data_sync \<Rightarrow> string" where
  "data_sync_name DS_HTTP = ''http''"
| "data_sync_name DS_ZOOKEEPER = ''zookeeper''"
| "data_sync_name DS_WEBSOCKET = ''websocket''"

datatype http_method = HM_GET | HM_POST | HM_PUT | HM_DELETE

definition http_method_values :: "http_method list" where
  "http_method_values = [HM_GET, HM_POST, HM_PUT, HM_DELETE]"

fun http_method_name :: "http_method \<Rightarrow> string" where
  "http_method_name HM_GET = ''get''"
| "http_method_name HM_POST = ''post''"
| "http_method_name HM_PUT = ''put''"
| "http_method_name HM_DELETE = ''delete''"

fun http_method_support :: "http_method \<Rightarrow> bool" where
  "http_method_support HM_GET = True"
| "http_method_support HM_POST = True"
| "http_method_support HM_PUT = True"
| "http_method_support HM_DELETE = True"

datatype hystrix_isolation = HI_THREAD_POOL | HI_SEMAPHORE

definition hystrix_isolation_values :: "hystrix_isolation list" where
  "hystrix_isolation_values = [HI_THREAD_POOL, HI_SEMAPHORE]"

fun hystrix_isolation_code :: "hystrix_isolation \<Rightarrow> int" where
  "hystrix_isolation_code HI_THREAD_POOL = 0"
| "hystrix_isolation_code HI_SEMAPHORE = 1"

fun hystrix_isolation_name :: "hystrix_isolation \<Rightarrow> string" where
  "hystrix_isolation_name HI_THREAD_POOL = ''thread''"
| "hystrix_isolation_name HI_SEMAPHORE = ''semaphore''"

datatype load_balance = LB_HASH | LB_RANDOM | LB_ROUND_ROBIN

definition load_balance_values :: "load_balance list" where
  "load_balance_values = [LB_HASH, LB_RANDOM, LB_ROUND_ROBIN]"

fun load_balance_code :: "load_balance \<Rightarrow> int" where
  "load_balance_code LB_HASH = 1"
| "load_balance_code LB_RANDOM = 2"
| "load_balance_code LB_ROUND_ROBIN = 3"

fun load_balance_name :: "load_balance \<Rightarrow> string" where
  "load_balance_name LB_HASH = ''hash''"
| "load_balance_name LB_RANDOM = ''random''"
| "load_balance_name LB_ROUND_ROBIN = ''roundRobin''"

fun load_balance_support :: "load_balance \<Rightarrow> bool" where
  "load_balance_support LB_HASH = True"
| "load_balance_support LB_RANDOM = True"
| "load_balance_support LB_ROUND_ROBIN = True"

datatype match_mode = MM_AND | MM_OR

definition match_mode_values :: "match_mode list" where
  "match_mode_values = [MM_AND, MM_OR]"

fun match_mode_code :: "match_mode \<Rightarrow> int" where
  "match_mode_code MM_AND = 0"
| "match_mode_code MM_OR = 1"

fun match_mode_name :: "match_mode \<Rightarrow> string" where
  "match_mode_name MM_AND = ''and''"
| "match_mode_name MM_OR = ''or''"

datatype operator_enum = OP_MATCH | OP_EQ | OP_REGEX | OP_GT | OP_LT | OP_LIKE

definition operator_enum_values :: "operator_enum list" where
  "operator_enum_values = [OP_MATCH, OP_EQ, OP_REGEX, OP_GT, OP_LT, OP_LIKE]"

fun operator_enum_alias :: "operator_enum \<Rightarrow> string" where
  "operator_enum_alias OP_MATCH = ''match''"
| "operator_enum_alias OP_EQ = ''=''"
| "operator_enum_alias OP_REGEX = ''regEx''"
| "operator_enum_alias OP_GT = ''>''"
| "operator_enum_alias OP_LT = ''<''"
| "operator_enum_alias OP_LIKE = ''like''"

fun operator_enum_support :: "operator_enum \<Rightarrow> bool" where
  "operator_enum_support OP_MATCH = True"
| "operator_enum_support OP_EQ = True"
| "operator_enum_support OP_REGEX = True"
| "operator_enum_support OP_GT = False"
| "operator_enum_support OP_LT = False"
| "operator_enum_support OP_LIKE = True"

datatype param_type_enum = PT_POST | PT_URI | PT_QUERY | PT_HOST | PT_IP | PT_HEADER

definition param_type_enum_values :: "param_type_enum list" where
  "param_type_enum_values = [PT_POST, PT_URI, PT_QUERY, PT_HOST, PT_IP, PT_HEADER]"

fun param_type_enum_name :: "param_type_enum \<Rightarrow> string" where
  "param_type_enum_name PT_POST = ''post''"
| "param_type_enum_name PT_URI = ''uri''"
| "param_type_enum_name PT_QUERY = ''query''"
| "param_type_enum_name PT_HOST = ''host''"
| "param_type_enum_name PT_IP = ''ip''"
| "param_type_enum_name PT_HEADER = ''header''"

fun param_type_enum_support :: "param_type_enum \<Rightarrow> bool" where
  "param_type_enum_support PT_POST = True"
| "param_type_enum_support PT_URI = True"
| "param_type_enum_support PT_QUERY = True"
| "param_type_enum_support PT_HOST = True"
| "param_type_enum_support PT_IP = True"
| "param_type_enum_support PT_HEADER = True"

datatype plugin_enum = PE_GLOBAL | PE_SIGN | PE_WAF | PE_RATE_LIMITER | PE_REWRITE | PE_REDIRECT |
    PE_HYSTRIX | PE_SENTINEL | PE_DIVIDE | PE_SPRING_CLOUD | PE_WEB_SOCKET | PE_DUBBO | PE_SOFA | PE_MONITOR
    | PE_RESPONSE

definition plugin_enum_values :: "plugin_enum list" where
  "plugin_enum_values = [PE_GLOBAL, PE_SIGN, PE_WAF, PE_RATE_LIMITER, PE_REWRITE, PE_REDIRECT, PE_HYSTRIX,
    PE_SENTINEL, PE_DIVIDE, PE_SPRING_CLOUD, PE_WEB_SOCKET, PE_DUBBO, PE_SOFA, PE_MONITOR, PE_RESPONSE]"

fun plugin_enum_code :: "plugin_enum \<Rightarrow> int" where
  "plugin_enum_code PE_GLOBAL = 1"
| "plugin_enum_code PE_SIGN = 2"
| "plugin_enum_code PE_WAF = 10"
| "plugin_enum_code PE_RATE_LIMITER = 20"
| "plugin_enum_code PE_REWRITE = 30"
| "plugin_enum_code PE_REDIRECT = 40"
| "plugin_enum_code PE_HYSTRIX = 45"
| "plugin_enum_code PE_SENTINEL = 45"
| "plugin_enum_code PE_DIVIDE = 50"
| "plugin_enum_code PE_SPRING_CLOUD = 50"
| "plugin_enum_code PE_WEB_SOCKET = 55"
| "plugin_enum_code PE_DUBBO = 60"
| "plugin_enum_code PE_SOFA = 60"
| "plugin_enum_code PE_MONITOR = 80"
| "plugin_enum_code PE_RESPONSE = 100"

fun plugin_enum_role :: "plugin_enum \<Rightarrow> int" where
  "plugin_enum_role PE_GLOBAL = 0"
| "plugin_enum_role PE_SIGN = 0"
| "plugin_enum_role PE_WAF = 0"
| "plugin_enum_role PE_RATE_LIMITER = 0"
| "plugin_enum_role PE_REWRITE = 0"
| "plugin_enum_role PE_REDIRECT = 0"
| "plugin_enum_role PE_HYSTRIX = 0"
| "plugin_enum_role PE_SENTINEL = 0"
| "plugin_enum_role PE_DIVIDE = 0"
| "plugin_enum_role PE_SPRING_CLOUD = 0"
| "plugin_enum_role PE_WEB_SOCKET = 0"
| "plugin_enum_role PE_DUBBO = 0"
| "plugin_enum_role PE_SOFA = 0"
| "plugin_enum_role PE_MONITOR = 0"
| "plugin_enum_role PE_RESPONSE = 0"

fun plugin_enum_name :: "plugin_enum \<Rightarrow> string" where
  "plugin_enum_name PE_GLOBAL = ''global''"
| "plugin_enum_name PE_SIGN = ''sign''"
| "plugin_enum_name PE_WAF = ''waf''"
| "plugin_enum_name PE_RATE_LIMITER = ''rate_limiter''"
| "plugin_enum_name PE_REWRITE = ''rewrite''"
| "plugin_enum_name PE_REDIRECT = ''redirect''"
| "plugin_enum_name PE_HYSTRIX = ''hystrix''"
| "plugin_enum_name PE_SENTINEL = ''sentinel''"
| "plugin_enum_name PE_DIVIDE = ''divide''"
| "plugin_enum_name PE_SPRING_CLOUD = ''springCloud''"
| "plugin_enum_name PE_WEB_SOCKET = ''webSocket''"
| "plugin_enum_name PE_DUBBO = ''dubbo''"
| "plugin_enum_name PE_SOFA = ''sofa''"
| "plugin_enum_name PE_MONITOR = ''monitor''"
| "plugin_enum_name PE_RESPONSE = ''response''"

datatype plugin_role = PR_SYS | PR_CUSTOM

definition plugin_role_values :: "plugin_role list" where
  "plugin_role_values = [PR_SYS, PR_CUSTOM]"

fun plugin_role_code :: "plugin_role \<Rightarrow> int" where
  "plugin_role_code PR_SYS = 0"
| "plugin_role_code PR_CUSTOM = 1"

fun plugin_role_name :: "plugin_role \<Rightarrow> string" where
  "plugin_role_name PR_SYS = ''sys''"
| "plugin_role_name PR_CUSTOM = ''custom''"

datatype plugin_type = PY_BEFORE | PY_FUNCTION | PY_LAST

definition plugin_type_values :: "plugin_type list" where
  "plugin_type_values = [PY_BEFORE, PY_FUNCTION, PY_LAST]"

fun plugin_type_name :: "plugin_type \<Rightarrow> string" where
  "plugin_type_name PY_BEFORE = ''before''"
| "plugin_type_name PY_FUNCTION = ''function''"
| "plugin_type_name PY_LAST = ''last''"

datatype redis_mode = RM_CLUSTER | RM_SENTINEL | RM_STANDALONE

definition redis_mode_values :: "redis_mode list" where
  "redis_mode_values = [RM_CLUSTER, RM_SENTINEL, RM_STANDALONE]"

fun redis_mode_name :: "redis_mode \<Rightarrow> string" where
  "redis_mode_name RM_CLUSTER = ''cluster''"
| "redis_mode_name RM_SENTINEL = ''sentinel''"
| "redis_mode_name RM_STANDALONE = ''Standalone''"

datatype result_enum = RS_SUCCESS | RS_TIME_OUT | RS_ERROR

definition result_enum_values :: "result_enum list" where
  "result_enum_values = [RS_SUCCESS, RS_TIME_OUT, RS_ERROR]"

fun result_enum_name :: "result_enum \<Rightarrow> string" where
  "result_enum_name RS_SUCCESS = ''success''"
| "result_enum_name RS_TIME_OUT = ''timeOut''"
| "result_enum_name RS_ERROR = ''error''"

datatype rpc_type = RPC_HTTP | RPC_DUBBO | RPC_SOFA | RPC_WEB_SOCKET | RPC_SPRING_CLOUD | RPC_MOTAN | RPC_GRPC

definition rpc_type_values :: "rpc_type list" where
  "rpc_type_values = [RPC_HTTP, RPC_DUBBO, RPC_SOFA, RPC_WEB_SOCKET, RPC_SPRING_CLOUD, RPC_MOTAN, RPC_GRPC]"

fun rpc_type_name :: "rpc_type \<Rightarrow> string" where
  "rpc_type_name RPC_HTTP = ''http''"
| "rpc_type_name RPC_DUBBO = ''dubbo''"
| "rpc_type_name RPC_SOFA = ''sofa''"
| "rpc_type_name RPC_WEB_SOCKET = ''websocket''"
| "rpc_type_name RPC_SPRING_CLOUD = ''springCloud''"
| "rpc_type_name RPC_MOTAN = ''motan''"
| "rpc_type_name RPC_GRPC = ''grpc''"

fun rpc_type_support :: "rpc_type \<Rightarrow> bool" where
  "rpc_type_support RPC_HTTP = True"
| "rpc_type_support RPC_DUBBO = True"
| "rpc_type_support RPC_SOFA = True"
| "rpc_type_support RPC_WEB_SOCKET = True"
| "rpc_type_support RPC_SPRING_CLOUD = True"
| "rpc_type_support RPC_MOTAN = False"
| "rpc_type_support RPC_GRPC = False"

datatype selector_type = ST_FULL_FLOW | ST_CUSTOM_FLOW

definition selector_type_values :: "selector_type list" where
  "selector_type_values = [ST_FULL_FLOW, ST_CUSTOM_FLOW]"

fun selector_type_code :: "selector_type \<Rightarrow> int" where
  "selector_type_code ST_FULL_FLOW = 0"
| "selector_type_code ST_CUSTOM_FLOW = 1"

fun selector_type_name :: "selector_type \<Rightarrow> string" where
  "selector_type_name ST_FULL_FLOW = utf8 [229, 133, 168, 230, 181, 129, 233, 135, 143]"
| "selector_type_name ST_CUSTOM_FLOW = utf8 [232, 135, 170, 229, 174, 154, 228, 185, 137, 230, 181, 129,
    233, 135, 143]"

datatype serialize_enum = SE_JDK | SE_KRYO | SE_HESSIAN | SE_FAST_JSON | SE_PROTOSTUFF

definition serialize_enum_values :: "serialize_enum list" where
  "serialize_enum_values = [SE_JDK, SE_KRYO, SE_HESSIAN, SE_FAST_JSON, SE_PROTOSTUFF]"

fun serialize_enum_serialize :: "serialize_enum \<Rightarrow> string" where
  "serialize_enum_serialize SE_JDK = ''jdk''"
| "serialize_enum_serialize SE_KRYO = ''kryo''"
| "serialize_enum_serialize SE_HESSIAN = ''hessian''"
| "serialize_enum_serialize SE_FAST_JSON = ''fastJson''"
| "serialize_enum_serialize SE_PROTOSTUFF = ''protostuff''"

datatype waf_enum = WE_REJECT | WE_ALLOW

definition waf_enum_values :: "waf_enum list" where
  "waf_enum_values = [WE_REJECT, WE_ALLOW]"

fun waf_enum_code :: "waf_enum \<Rightarrow> int" where
  "waf_enum_code WE_REJECT = 0"
| "waf_enum_code WE_ALLOW = 1"

fun waf_enum_name :: "waf_enum \<Rightarrow> string" where
  "waf_enum_name WE_REJECT = ''reject''"
| "waf_enum_name WE_ALLOW = ''allow''"

datatype waf_model = WM_BLACK | WM_MIXED

definition waf_model_values :: "waf_model list" where
  "waf_model_values = [WM_BLACK, WM_MIXED]"

fun waf_model_name :: "waf_model \<Rightarrow> string" where
  "waf_model_name WM_BLACK = ''black''"
| "waf_model_name WM_MIXED = ''mixed''"

datatype soul_result = SR_FAIL | SR_SUCCESS | SR_SIGN_IS_NOT_PASS | SR_PAYLOAD_TOO_LARGE |
    SR_TOO_MANY_REQUESTS | SR_META_DATA_ERROR | SR_DUBBO_HAVE_BODY_PARAM | SR_SOFA_HAVE_BODY_PARAM |
    SR_PARAM_ERROR | SR_TIME_ERROR | SR_RULE_NOT_FIND | SR_SERVICE_RESULT_ERROR | SR_SERVICE_TIMEOUT |
    SR_SING_TIME_IS_TIMEOUT | SR_CANNOT_FIND_URL | SR_CANNOT_FIND_SELECTOR |
    SR_CANNOT_CONFIG_SPRINGCLOUD_SERVICEID | SR_SPRINGCLOUD_SERVICEID_IS_ERROR

definition soul_result_values :: "soul_result list" where
  "soul_result_values = [SR_FAIL, SR_SUCCESS, SR_SIGN_IS_NOT_PASS, SR_PAYLOAD_TOO_LARGE,
    SR_TOO_MANY_REQUESTS, SR_META_DATA_ERROR, SR_DUBBO_HAVE_BODY_PARAM, SR_SOFA_HAVE_BODY_PARAM,
    SR_PARAM_ERROR, SR_TIME_ERROR, SR_RULE_NOT_FIND, SR_SERVICE_RESULT_ERROR, SR_SERVICE_TIMEOUT,
    SR_SING_TIME_IS_TIMEOUT, SR_CANNOT_FIND_URL, SR_CANNOT_FIND_SELECTOR,
    SR_CANNOT_CONFIG_SPRINGCLOUD_SERVICEID, SR_SPRINGCLOUD_SERVICEID_IS_ERROR]"

fun soul_result_code :: "soul_result \<Rightarrow> int" where
  "soul_result_code SR_FAIL = -1"
| "soul_result_code SR_SUCCESS = 200"
| "soul_result_code SR_SIGN_IS_NOT_PASS = 401"
| "soul_result_code SR_PAYLOAD_TOO_LARGE = 403"
| "soul_result_code SR_TOO_MANY_REQUESTS = 429"
| "soul_result_code SR_META_DATA_ERROR = 430"
| "soul_result_code SR_DUBBO_HAVE_BODY_PARAM = 431"
| "soul_result_code SR_SOFA_HAVE_BODY_PARAM = 432"
| "soul_result_code SR_PARAM_ERROR = -100"
| "soul_result_code SR_TIME_ERROR = -101"
| "soul_result_code SR_RULE_NOT_FIND = -102"
| "soul_result_code SR_SERVICE_RESULT_ERROR = -103"
| "soul_result_code SR_SERVICE_TIMEOUT = -104"
| "soul_result_code SR_SING_TIME_IS_TIMEOUT = -105"
| "soul_result_code SR_CANNOT_FIND_URL = -106"
| "soul_result_code SR_CANNOT_FIND_SELECTOR = -107"
| "soul_result_code SR_CANNOT_CONFIG_SPRINGCLOUD_SERVICEID = -108"
| "soul_result_code SR_SPRINGCLOUD_SERVICEID_IS_ERROR = -109"

fun soul_result_msg :: "soul_result \<Rightarrow> string" where
  "soul_result_msg SR_FAIL = utf8 [231, 189, 145, 229, 133, 179, 229, 134, 133, 233, 131, 168, 229, 188,
    130, 229, 184, 184, 44, 232, 175, 183, 230, 130, 168, 231, 168, 141, 229, 144, 142, 233, 135, 141, 232,
    175, 149, 33]"
| "soul_result_msg SR_SUCCESS = utf8 [232, 174, 191, 233, 151, 174, 230, 136, 144, 229, 138, 159, 33]"
| "soul_result_msg SR_SIGN_IS_NOT_PASS = utf8 [231, 173, 190, 229, 144, 141, 230, 156, 170, 233, 128, 154,
    232, 191, 135, 33]"
| "soul_result_msg SR_PAYLOAD_TOO_LARGE = utf8 [230, 130, 168, 231, 154, 132, 230, 150, 135, 228, 187, 182,
    232, 191, 135, 229, 164, 167]"
| "soul_result_msg SR_TOO_MANY_REQUESTS = utf8 [230, 130, 168, 229, 183, 178, 231, 187, 143, 232, 162, 171,
    233, 153, 144, 230, 181, 129, 239, 188, 140, 232, 175, 183, 231, 168, 141, 229, 144, 142, 233, 135, 141,
    232, 175, 149, 33]"
| "soul_result_msg SR_META_DATA_ERROR = utf8 [68, 85, 66, 66, 79, 229, 133, 131, 230, 149, 176, 230, 141,
    174, 228, 184, 141, 229, 174, 140, 230, 149, 180, 33]"
| "soul_result_msg SR_DUBBO_HAVE_BODY_PARAM = utf8 [100, 117, 98, 98, 111, 230, 142, 165, 229, 143, 163,
    229, 191, 133, 233, 161, 187, 232, 166, 129, 230, 156, 137, 229, 143, 130, 230, 149, 176, 239, 188, 140,
    232, 175, 183, 229, 156, 168, 98, 111, 100, 121, 233, 135, 140, 233, 157, 162, 232, 190, 147, 229, 133,
    165, 106, 115, 111, 110, 230, 160, 188, 229, 188, 143, 239, 188, 129]"
| "soul_result_msg SR_SOFA_HAVE_BODY_PARAM = utf8 [115, 111, 102, 97, 230, 142, 165, 229, 143, 163, 229,
    191, 133, 233, 161, 187, 232, 166, 129, 230, 156, 137, 229, 143, 130, 230, 149, 176, 239, 188, 140, 232,
    175, 183, 229, 156, 168, 98, 111, 100, 121, 233, 135, 140, 233, 157, 162, 232, 190, 147, 229, 133, 165,
    106, 115, 111, 110, 230, 160, 188, 229, 188, 143, 239, 188, 129]"
| "soul_result_msg SR_PARAM_ERROR = utf8 [230, 130, 168, 231, 154, 132, 229, 143, 130, 230, 149, 176, 233,
    148, 153, 232, 175, 175, 44, 232, 175, 183, 230, 163, 128, 230, 159, 165, 231, 155, 184, 229, 133, 179,
    230, 150, 135, 230, 161, 163, 33]"
| "soul_result_msg SR_TIME_ERROR = utf8 [230, 130, 168, 231, 154, 132, 230, 151, 182, 233, 151, 180, 229,
    143, 130, 230, 149, 176, 233, 148, 153, 232, 175, 175, 230, 136, 150, 232, 128, 133, 229, 183, 178, 231,
    187, 143, 232, 191, 135, 230, 156, 159, 33]"
| "soul_result_msg SR_RULE_NOT_FIND = utf8 [232, 167, 132, 229, 136, 153, 230, 156, 170, 229, 140, 185, 233,
    133, 141, 33]"
| "soul_result_msg SR_SERVICE_RESULT_ERROR = utf8 [230, 156, 141, 229, 138, 161, 232, 176, 131, 231, 148,
    168, 229, 188, 130, 229, 184, 184, 239, 188, 140, 230, 136, 150, 232, 128, 133, 230, 156, 170, 232, 191,
    148, 229, 155, 158, 231, 187, 147, 230, 158, 156]"
| "soul_result_msg SR_SERVICE_TIMEOUT = utf8 [230, 156, 141, 229, 138, 161, 232, 176, 131, 231, 148, 168,
    232, 182, 133, 230, 151, 182]"
| "soul_result_msg SR_SING_TIME_IS_TIMEOUT = utf8 [231, 173, 190, 229, 144, 141, 230, 151, 182, 233, 151,
    180, 230, 136, 179, 229, 183, 178, 231, 187, 143, 232, 182, 133, 232, 191, 135, 37, 115, 229, 136, 134,
    233, 146, 159, 33]"
| "soul_result_msg SR_CANNOT_FIND_URL = utf8 [230, 156, 170, 232, 131, 189, 230, 137, 190, 229, 136, 176,
    229, 144, 136, 233, 128, 130, 231, 154, 132, 232, 176, 131, 231, 148, 168, 117, 114, 108, 44, 232, 175,
    183, 230, 163, 128, 230, 159, 165, 228, 189, 160, 231, 154, 132, 233, 133, 141, 231, 189, 174, 33]"
| "soul_result_msg SR_CANNOT_FIND_SELECTOR = utf8 [230, 156, 170, 232, 131, 189, 229, 140, 185, 233, 133,
    141, 233, 128, 137, 230, 139, 169, 229, 153, 168, 44, 232, 175, 183, 230, 163, 128, 230, 159, 165, 228,
    189, 160, 231, 154, 132, 233, 128, 137, 230, 139, 169, 229, 153, 168, 233, 133, 141, 231, 189, 174, 239,
    188, 129]"
| "soul_result_msg SR_CANNOT_CONFIG_SPRINGCLOUD_SERVICEID = utf8 [230, 130, 168, 229, 185, 182, 230, 156,
    170, 233, 133, 141, 231, 189, 174, 230, 136, 150, 230, 156, 170, 229, 140, 185, 233, 133, 141, 115, 112,
    114, 105, 110, 103, 99, 108, 111, 117, 100, 32, 115, 101, 114, 118, 105, 99, 101, 73, 100]"
| "soul_result_msg SR_SPRINGCLOUD_SERVICEID_IS_ERROR = utf8 [115, 112, 114, 105, 110, 103, 67, 108, 111,
    117, 100, 32, 115, 101, 114, 118, 105, 99, 101, 73, 100, 32, 228, 184, 141, 229, 173, 152, 229, 156,
    168, 230, 136, 150, 232, 128, 133, 233, 133, 141, 231, 189, 174, 233, 148, 153, 232, 175, 175, 239, 188,
    129, 230, 136, 150, 232, 128, 133, 230, 179, 168, 229, 134, 140, 228, 184, 173, 229, 191, 131, 233, 133,
    141, 231, 189, 174, 233, 148, 153, 232, 175, 175, 33, 32]"

subsection \<open>Look-ups by name or code\<close>

text \<open>A look-up argument may be null; \<open>Objects.equals\<close> and \<open>equals\<close> on the constant's own name agree.\<close>

definition config_group_acquireByName :: "string option \<Rightarrow> config_group jres" where
  "config_group_acquireByName n =
     (case find (\<lambda>e. Some (config_group_name e) = n) config_group_values of
        Some e \<Rightarrow> Inr e
      | None \<Rightarrow> Inl (SoulException '' this ConfigGroupEnum can not support!''))"

definition data_event_type_acquireByName :: "string option \<Rightarrow> data_event_type jres" where
  "data_event_type_acquireByName n =
     (case find (\<lambda>e. Some (data_event_type_name e) = n) data_event_type_values of
        Some e \<Rightarrow> Inr e
      | None \<Rightarrow> Inl (SoulException '' this DataEventTypeEnum can not support!''))"

definition data_sync_acquireByName :: "string option \<Rightarrow> data_sync" where
  "data_sync_acquireByName n =
     (case find (\<lambda>e. Some (data_sync_name e) = n) data_sync_values of
        Some e \<Rightarrow> e | None \<Rightarrow> DS_HTTP)"

definition http_method_acquireByName :: "string option \<Rightarrow> http_method jres" where
  "http_method_acquireByName n =
     (case find (\<lambda>e. http_method_support e \<and> Some (http_method_name e) = n) http_method_values of
        Some e \<Rightarrow> Inr e
      | None \<Rightarrow> Inl (SoulException '' this http method can not support!''))"

definition getMatchModeByCode :: "int \<Rightarrow> string" where
  "getMatchModeByCode code =
     match_mode_name (case find (\<lambda>e. match_mode_code e = code) match_mode_values of
        Some e \<Rightarrow> e | None \<Rightarrow> MM_AND)"

definition operator_acquireSupport :: "operator_enum list" where
  "operator_acquireSupport = filter operator_enum_support operator_enum_values"

definition getOperatorEnumByAlias :: "string option \<Rightarrow> operator_enum jres" where
  "getOperatorEnumByAlias a =
     (case find (\<lambda>e. Some (operator_enum_alias e) = a \<and> operator_enum_support e) operator_enum_values of
        Some e \<Rightarrow> Inr e
      | None \<Rightarrow> Inl (SoulException '' this  operator can not support!''))"

definition param_type_acquireSupport :: "param_type_enum list" where
  "param_type_acquireSupport = filter param_type_enum_support param_type_enum_values"

definition getParamTypeEnumByName :: "string option \<Rightarrow> param_type_enum jres" where
  "getParamTypeEnumByName n =
     (case find (\<lambda>e. Some (param_type_enum_name e) = n \<and> param_type_enum_support e) param_type_enum_values of
        Some e \<Rightarrow> Inr e
      | None \<Rightarrow> Inl (SoulException '' this  param type can not support!''))"

definition getPluginEnumByName :: "string option \<Rightarrow> plugin_enum" where
  "getPluginEnumByName n =
     (case find (\<lambda>e. Some (plugin_enum_name e) = n) plugin_enum_values of
        Some e \<Rightarrow> e | None \<Rightarrow> PE_GLOBAL)"

definition rpc_type_acquireSupports :: "rpc_type list" where
  "rpc_type_acquireSupports = filter rpc_type_support rpc_type_values"

definition rpc_type_acquireByName :: "string option \<Rightarrow> rpc_type jres" where
  "rpc_type_acquireByName n =
     (case find (\<lambda>e. rpc_type_support e \<and> Some (rpc_type_name e) = n) rpc_type_values of
        Some e \<Rightarrow> Inr e
      | None \<Rightarrow> Inl (SoulException '' this rpc type can not support!''))"

definition getSelectorTypeByCode :: "int \<Rightarrow> string option" where
  "getSelectorTypeByCode code =
     map_option selector_type_name (find (\<lambda>e. selector_type_code e = code) selector_type_values)"

definition serialize_acquire :: "string option \<Rightarrow> serialize_enum" where
  "serialize_acquire s =
     (case find (\<lambda>e. Some (serialize_enum_serialize e) = s) serialize_enum_values of
        Some e \<Rightarrow> e | None \<Rightarrow> SE_JDK)"

subsection \<open>What a look-up by key promises\<close>

text \<open>
  A table lists every constant, and no two constants share the key: then a look-up that also
  asks for support finds exactly the supported constant with that key.
\<close>

locale enum_lookup =
  fixes vals :: "'e list" and key :: "'e \<Rightarrow> 'k" and ok :: "'e \<Rightarrow> bool"
  assumes complete: "e \<in> set vals"
    and distinct_keys: "distinct (map key vals)"
begin

lemma key_inject: "key e = key e' \<Longrightarrow> e = e'"
  using distinct_keys complete by (auto simp: distinct_map dest: inj_onD)

lemma lookup_Some: "find (\<lambda>e. ok e \<and> key e = k) vals = Some e \<longleftrightarrow> ok e \<and> key e = k"
proof
  assume "find (\<lambda>e. ok e \<and> key e = k) vals = Some e"
  then show "ok e \<and> key e = k" by (auto dest: find_SomeD)
next
  assume e: "ok e \<and> key e = k"
  then have "find (\<lambda>e. ok e \<and> key e = k) vals \<noteq> None"
    using complete by (auto simp: find_None_iff)
  then obtain e' where e': "find (\<lambda>e. ok e \<and> key e = k) vals = Some e'" by blast
  then have "key e' = k" by (auto dest: find_SomeD)
  with e e' key_inject show "find (\<lambda>e. ok e \<and> key e = k) vals = Some e" by blast
qed

lemma lookup_None: "find (\<lambda>e. ok e \<and> key e = k) vals = None \<longleftrightarrow> (\<forall>e. \<not> (ok e \<and> key e = k))"
  using complete by (auto simp: find_None_iff)

lemma find_key: "ok e \<Longrightarrow> find (\<lambda>e'. ok e' \<and> key e' = key e) vals = Some e"
  by (simp add: lookup_Some)

end

interpretation cg: enum_lookup config_group_values "\<lambda>e. Some (config_group_name e)" "\<lambda>_. True"
proof unfold_locales
  show "e \<in> set config_group_values" for e by (cases e) (simp_all add: config_group_values_def)
  show "distinct (map (\<lambda>e. Some (config_group_name e)) config_group_values)" by code_simp
qed

interpretation det: enum_lookup data_event_type_values "\<lambda>e. Some (data_event_type_name e)" "\<lambda>_. True"
proof unfold_locales
  show "e \<in> set data_event_type_values" for e by (cases e) (simp_all add: data_event_type_values_def)
  show "distinct (map (\<lambda>e. Some (data_event_type_name e)) data_event_type_values)" by code_simp
qed

interpretation dsy: enum_lookup data_sync_values "\<lambda>e. Some (data_sync_name e)" "\<lambda>_. True"
proof unfold_locales
  show "e \<in> set data_sync_values" for e by (cases e) (simp_all add: data_sync_values_def)
  show "distinct (map (\<lambda>e. Some (data_sync_name e)) data_sync_values)" by code_simp
qed

interpretation hme: enum_lookup http_method_values "\<lambda>e. Some (http_method_name e)" "http_method_support"
proof unfold_locales
  show "e \<in> set http_method_values" for e by (cases e) (simp_all add: http_method_values_def)
  show "distinct (map (\<lambda>e. Some (http_method_name e)) http_method_values)" by code_simp
qed

interpretation mme: enum_lookup match_mode_values "\<lambda>e. match_mode_code e" "\<lambda>_. True"
proof unfold_locales
  show "e \<in> set match_mode_values" for e by (cases e) (simp_all add: match_mode_values_def)
  show "distinct (map (\<lambda>e. match_mode_code e) match_mode_values)" by code_simp
qed

interpretation ope: enum_lookup operator_enum_values "\<lambda>e. Some (operator_enum_alias e)" "operator_enum_support"
proof unfold_locales
  show "e \<in> set operator_enum_values" for e by (cases e) (simp_all add: operator_enum_values_def)
  show "distinct (map (\<lambda>e. Some (operator_enum_alias e)) operator_enum_values)" by code_simp
qed

interpretation pte: enum_lookup param_type_enum_values "\<lambda>e. Some (param_type_enum_name e)" "param_type_enum_support"
proof unfold_locales
  show "e \<in> set param_type_enum_values" for e by (cases e) (simp_all add: param_type_enum_values_def)
  show "distinct (map (\<lambda>e. Some (param_type_enum_name e)) param_type_enum_values)" by code_simp
qed

interpretation ple: enum_lookup plugin_enum_values "\<lambda>e. Some (plugin_enum_name e)" "\<lambda>_. True"
proof unfold_locales
  show "e \<in> set plugin_enum_values" for e by (cases e) (simp_all add: plugin_enum_values_def)
  show "distinct (map (\<lambda>e. Some (plugin_enum_name e)) plugin_enum_values)" by code_simp
qed

interpretation rte: enum_lookup rpc_type_values "\<lambda>e. Some (rpc_type_name e)" "rpc_type_support"
proof unfold_locales
  show "e \<in> set rpc_type_values" for e by (cases e) (simp_all add: rpc_type_values_def)
  show "distinct (map (\<lambda>e. Some (rpc_type_name e)) rpc_type_values)" by code_simp
qed

interpretation ste: enum_lookup selector_type_values "\<lambda>e. selector_type_code e" "\<lambda>_. True"
proof unfold_locales
  show "e \<in> set selector_type_values" for e by (cases e) (simp_all add: selector_type_values_def)
  show "distinct (map (\<lambda>e. selector_type_code e) selector_type_values)" by code_simp
qed

interpretation see: enum_lookup serialize_enum_values "\<lambda>e. Some (serialize_enum_serialize e)" "\<lambda>_. True"
proof unfold_locales
  show "e \<in> set serialize_enum_values" for e by (cases e) (simp_all add: serialize_enum_values_def)
  show "distinct (map (\<lambda>e. Some (serialize_enum_serialize e)) serialize_enum_values)" by code_simp
qed

interpretation sre: enum_lookup soul_result_values "\<lambda>e. soul_result_code e" "\<lambda>_. True"
proof unfold_locales
  show "e \<in> set soul_result_values" for e by (cases e) (simp_all add: soul_result_values_def)
  show "distinct (map (\<lambda>e. soul_result_code e) soul_result_values)" by code_simp
qed

end
