(* ===== verification/SoulData.thy ===== *)
theory SoulData
  imports Enums Complex_Main
begin

text \<open>
  The data the gateway and the admin console exchange (\<open>common/dto\<close>, \<open>common/dto/convert\<close>), one
  record per class with the class's fields. A field the database declares \<open>NOT NULL\<close> and every
  synchronisation path fills is a plain value; a field that may be null is an \<open>option\<close>.
  The handle fields keep the JSON text; parsing it is Gson's, a parameter of the definitions
  that need it.
\<close>

subsection \<open>Configuration data\<close>

record condition_data =
  cd_paramType :: string
  cd_operator :: string
  cd_paramName :: string
  cd_paramValue :: string

record plugin_data =
  pd_id :: string
  pd_name :: string
  pd_config :: "string option"
  pd_role :: int
  pd_enabled :: bool

record selector_data =
  sd_id :: string
  sd_pluginId :: string
  sd_pluginName :: string
  sd_name :: string
  sd_matchMode :: int
  sd_type :: int
  sd_sort :: int
  sd_enabled :: bool
  sd_loged :: bool
  sd_continued :: bool
  sd_handle :: "string option"
  sd_conditionList :: "condition_data list option"

record rule_data =
  rd_id :: string
  rd_name :: string
  rd_pluginName :: string
  rd_selectorId :: string
  rd_matchMode :: int
  rd_sort :: int
  rd_enabled :: bool
  rd_loged :: bool
  rd_handle :: "string option"
  rd_conditionDataList :: "condition_data list option"

record meta_data =
  md_id :: "string option"
  md_appName :: string
  md_contextPath :: "string option"
  md_path :: string
  md_rpcType :: string
  md_serviceName :: "string option"
  md_methodName :: "string option"
  md_parameterTypes :: "string option"
  md_rpcExt :: "string option"
  md_enabled :: bool

record auth_param_data =
  ap_appName :: string
  ap_appParam :: "string option"

record auth_path_data =
  ah_appName :: string
  ah_path :: string
  ah_enabled :: bool

record app_auth_data =
  aa_appKey :: string
  aa_appSecret :: string
  aa_enabled :: bool
  aa_paramDataList :: "auth_param_data list option"
  aa_pathDataList :: "auth_path_data list option"

text \<open>What a fetch from the admin returns for one group, and one websocket message.\<close>

record 'a config_data =
  cfg_md5 :: string
  cfg_lastModifyTime :: int
  cfg_data :: "'a list option"

record 'a websocket_data =
  wd_groupType :: "string option"
  wd_eventType :: "string option"
  wd_data :: "'a list"

subsection \<open>Handles: the plugin specific part of selectors and rules\<close>

record divide_upstream =
  du_upstreamHost :: "string option"
  du_protocol :: "string option"
  du_upstreamUrl :: string
  du_weight :: int

record divide_rule_handle =
  dr_loadBalance :: "string option"
  dr_retry :: int
  dr_timeout :: int

record waf_handle =
  wh_permission :: "string option"
  wh_statusCode :: "string option"

record rewrite_handle =
  rw_rewriteURI :: "string option"

record rate_limiter_handle =
  rl_replenishRate :: rat
  rl_burstCapacity :: rat
  rl_loged :: bool

record spring_cloud_rule_handle =
  sc_path :: "string option"
  sc_timeout :: int

record spring_cloud_selector_handle =
  scs_serviceId :: "string option"

record dubbo_rule_handle =
  dub_version :: "string option"
  dub_group :: "string option"
  dub_retries :: "int option"
  dub_loadBalance :: "string option"
  dub_timeout :: int

record dubbo_selector_handle =
  dus_registry :: "string option"
  dus_appName :: "string option"
  dus_protocol :: "string option"
  dus_port :: int

record sofa_rule_handle =
  sof_retries :: "int option"
  sof_loadBalance :: "string option"
  sof_timeout :: int

record hystrix_thread_pool_config =
  htp_coreSize :: int
  htp_maximumSize :: int
  htp_keepAliveTimeMinutes :: int
  htp_maxQueueSize :: int

record hystrix_handle =
  hy_groupKey :: "string option"
  hy_commandKey :: "string option"
  hy_maxConcurrentRequests :: int
  hy_errorThresholdPercentage :: int
  hy_requestVolumeThreshold :: int
  hy_sleepWindowInMilliseconds :: int
  hy_timeout :: int
  hy_callBackUri :: "string option"
  hy_executionIsolationStrategy :: int
  hy_hystrixThreadPoolConfig :: "hystrix_thread_pool_config option"

record sentinel_handle =
  se_flowRuleEnable :: "int option"
  se_flowRuleGrade :: "int option"
  se_flowRuleCount :: "int option"
  se_flowRuleControlBehavior :: "int option"
  se_degradeRuleEnable :: "int option"
  se_degradeRuleGrade :: "int option"
  se_degradeRuleCount :: "int option"
  se_degradeRuleTimeWindow :: "int option"

subsection \<open>Default values the handle classes declare\<close>

definition MAX_CONCURRENT_REQUESTS :: int where "MAX_CONCURRENT_REQUESTS = 100"
definition ERROR_THRESHOLD_PERCENTAGE :: int where "ERROR_THRESHOLD_PERCENTAGE = 50"
definition REQUEST_VOLUME_THRESHOLD :: int where "REQUEST_VOLUME_THRESHOLD = 20"
definition SLEEP_WINDOW_INMILLISECONDS :: int where "SLEEP_WINDOW_INMILLISECONDS = 5000"
definition TIME_OUT :: int where "TIME_OUT = 3000"
definition HYSTRIX_THREAD_POOL_CORE_SIZE :: int where "HYSTRIX_THREAD_POOL_CORE_SIZE = 10"
definition HYSTRIX_THREAD_POOL_MAX_SIZE :: int where "HYSTRIX_THREAD_POOL_MAX_SIZE = 10"
definition HYSTRIX_THREAD_KEEP_ALIVE_TIME_MINUTE :: int where "HYSTRIX_THREAD_KEEP_ALIVE_TIME_MINUTE = 1"
definition HYSTRIX_THREAD_POOL_QUEUE_SIZE :: int where "HYSTRIX_THREAD_POOL_QUEUE_SIZE = 12"

definition default_divide_rule_handle :: divide_rule_handle where
  "default_divide_rule_handle = \<lparr>dr_loadBalance = None, dr_retry = 0, dr_timeout = TIME_OUT\<rparr>"

definition default_hystrix_thread_pool_config :: hystrix_thread_pool_config where
  "default_hystrix_thread_pool_config =
     \<lparr>htp_coreSize = HYSTRIX_THREAD_POOL_CORE_SIZE,
      htp_maximumSize = HYSTRIX_THREAD_POOL_MAX_SIZE,
      htp_keepAliveTimeMinutes = HYSTRIX_THREAD_KEEP_ALIVE_TIME_MINUTE,
      htp_maxQueueSize = HYSTRIX_THREAD_POOL_QUEUE_SIZE\<rparr>"

definition default_hystrix_handle :: hystrix_handle where
  "default_hystrix_handle =
     \<lparr>hy_groupKey = None, hy_commandKey = None,
      hy_maxConcurrentRequests = MAX_CONCURRENT_REQUESTS,
      hy_errorThresholdPercentage = ERROR_THRESHOLD_PERCENTAGE,
      hy_requestVolumeThreshold = REQUEST_VOLUME_THRESHOLD,
      hy_sleepWindowInMilliseconds = SLEEP_WINDOW_INMILLISECONDS,
      hy_timeout = TIME_OUT, hy_callBackUri = None,
      hy_executionIsolationStrategy = hystrix_isolation_code HI_SEMAPHORE,
      hy_hystrixThreadPoolConfig = None\<rparr>"

definition default_sentinel_handle :: sentinel_handle where
  "default_sentinel_handle =
     \<lparr>se_flowRuleEnable = Some 1, se_flowRuleGrade = Some 1, se_flowRuleCount = None,
      se_flowRuleControlBehavior = Some 0, se_degradeRuleEnable = Some 1,
      se_degradeRuleGrade = Some 1, se_degradeRuleCount = None, se_degradeRuleTimeWindow = None\<rparr>"

end
