(* ===== verification/Exchange.thy ===== *)
theory Exchange
  imports SoulData
begin

text \<open>
  What a plugin sees of a request: the HTTP request, the attributes the plugins leave on the
  exchange (\<open>SoulContext\<close>, meta data, target url, timeouts) and the response written so far; the
  resolution of the caller's address; the error answers of \<open>CheckUtils\<close>; and the actions a plugin
  can take on the chain.
\<close>

subsection \<open>Request\<close>

text \<open>
  Headers and query parameters keep the order they arrived in; a query parameter may have no value.
  The remote address is a host string and, when resolved, an IP text.
\<close>

record inet_address =
  ia_host :: string
  ia_ip :: "string option"

record http_request =
  rq_method :: string
  rq_path :: string
  rq_headers :: "(string \<times> string list) list"
  rq_query :: "(string \<times> string option list) list"
  rq_queryString :: "string option"
  rq_remote :: "inet_address option"

definition to_lower :: "char \<Rightarrow> char" where
  "to_lower c = (let n = (of_char c :: nat) in if 65 \<le> n \<and> n \<le> 90 then char_of (n + 32) else c)"

lemma to_lower_bits [code]:
  "to_lower (Char b0 b1 b2 b3 b4 b5 b6 b7) =
     (if \<not> b7 \<and> b6 \<and> \<not> b5 \<and>
         (if b4 then \<not> (b3 \<and> b2) \<and> \<not> (b3 \<and> b1 \<and> b0) else b3 \<or> b2 \<or> b1 \<or> b0)
      then Char b0 b1 b2 b3 b4 True b6 b7 else Char b0 b1 b2 b3 b4 b5 b6 b7)"
  by (cases b0; cases b1; cases b2; cases b3; cases b4; cases b5; cases b6; cases b7;
      simp add: to_lower_def char_of_def bit_simps)

definition same_header :: "string \<Rightarrow> string \<Rightarrow> bool" where
  "same_header a b \<longleftrightarrow> map to_lower a = map to_lower b"

text \<open>\<open>HttpHeaders.get\<close> ignores case; \<open>getFirst\<close> is null when the name is absent.\<close>

definition header_get :: "http_request \<Rightarrow> string \<Rightarrow> string list option" where
  "header_get rq n = map_option snd (find (\<lambda>(k, vs). same_header k n) (rq_headers rq))"

definition header_first :: "http_request \<Rightarrow> string \<Rightarrow> string option" where
  "header_first rq n = (case header_get rq n of Some (v # vs) \<Rightarrow> Some v | _ \<Rightarrow> None)"

definition query_first :: "http_request \<Rightarrow> string \<Rightarrow> string option" where
  "query_first rq n = (case map_of (rq_query rq) n of Some (v # vs) \<Rightarrow> v | _ \<Rightarrow> None)"

subsection \<open>Context and exchange\<close>

record soul_context =
  ctx_module :: "string option"
  ctx_method :: "string option"
  ctx_rpcType :: "string option"
  ctx_httpMethod :: "string option"
  ctx_sign :: "string option"
  ctx_timestamp :: "string option"
  ctx_appKey :: "string option"
  ctx_path :: "string option"
  ctx_contextPath :: "string option"
  ctx_realUrl :: "string option"
  ctx_dubboParams :: "string option"
  ctx_startDateTime :: "int option"

definition new_soul_context :: soul_context where
  "new_soul_context = \<lparr>ctx_module = None, ctx_method = None, ctx_rpcType = None, ctx_httpMethod = None,
     ctx_sign = None, ctx_timestamp = None, ctx_appKey = None, ctx_path = None, ctx_contextPath = None,
     ctx_realUrl = None, ctx_dubboParams = None, ctx_startDateTime = None\<rparr>"

text \<open>
  What a Dubbo service returns: maps, and values that are none. The body the default \<open>SoulResult\<close> bean builds, and the
  response: a status, headers and what was written.
\<close>

datatype rpc_value = RpcAtom string | RpcMap "(string \<times> rpc_value) list"

record default_soul_entity =
  code :: int
  message :: "string option"
  entity_data :: "rpc_value option"

definition entity_error :: "int \<Rightarrow> string \<Rightarrow> default_soul_entity" where
  "entity_error c m = \<lparr>code = c, message = Some m, entity_data = None\<rparr>"

definition entity_success :: "int \<Rightarrow> string \<Rightarrow> rpc_value \<Rightarrow> default_soul_entity" where
  "entity_success c m d = \<lparr>code = c, message = Some m, entity_data = Some d\<rparr>"

datatype body = Entity default_soul_entity | Upstream string

type_synonym http_headers = "(string \<times> string list) list"

record http_response =
  rs_status :: "int option"
  rs_headers :: http_headers
  rs_body :: "body option"

text \<open>What a service behind the gateway answers over http.\<close>

record client_response =
  cs_status :: int
  cs_headers :: http_headers
  cs_body :: string

record exchange =
  ex_request :: http_request
  ex_context :: "soul_context option"
  ex_metaData :: "meta_data option"
  ex_httpUrl :: "string option"
  ex_httpTimeOut :: "int option"
  ex_httpRetry :: "int option"
  ex_rewriteUri :: "string option"
  ex_dubboParams :: "string option"
  ex_clientResult :: "string option"
  ex_clientResponse :: "client_response option"
  ex_rpcResult :: "rpc_value option"
  ex_response :: http_response

definition new_exchange :: "http_request \<Rightarrow> exchange" where
  "new_exchange rq = \<lparr>ex_request = rq, ex_context = None, ex_metaData = None, ex_httpUrl = None,
     ex_httpTimeOut = None, ex_httpRetry = None, ex_rewriteUri = None, ex_dubboParams = None,
     ex_clientResult = None, ex_clientResponse = None, ex_rpcResult = None,
     ex_response = \<lparr>rs_status = None, rs_headers = [], rs_body = None\<rparr>\<rparr>"

definition write_body :: "body \<Rightarrow> exchange \<Rightarrow> exchange" where
  "write_body b ex = ex\<lparr>ex_response := (ex_response ex)\<lparr>rs_body := Some b\<rparr>\<rparr>"

definition set_status :: "int \<Rightarrow> exchange \<Rightarrow> exchange" where
  "set_status c ex = ex\<lparr>ex_response := (ex_response ex)\<lparr>rs_status := Some c\<rparr>\<rparr>"

definition put_header :: "string \<Rightarrow> string list \<Rightarrow> http_headers \<Rightarrow> http_headers" where
  "put_header n vs hs = filter (\<lambda>(k, _). \<not> same_header k n) hs @ [(n, vs)]"

definition set_header :: "string \<Rightarrow> string list \<Rightarrow> exchange \<Rightarrow> exchange" where
  "set_header n vs ex = ex\<lparr>ex_response := (ex_response ex)\<lparr>rs_headers := put_header n vs (rs_headers (ex_response ex))\<rparr>\<rparr>"

text \<open>\<open>WebFluxResultUtils.result\<close>, and \<open>result(exchange, SoulResultWrap.error(code, msg, null))\<close>.\<close>

definition result_entity :: "default_soul_entity \<Rightarrow> exchange \<Rightarrow> exchange" where
  "result_entity e ex = write_body (Entity e) (set_header ''Content-Type'' [''application/json''] ex)"

definition result_error :: "int \<Rightarrow> string \<Rightarrow> exchange \<Rightarrow> exchange" where
  "result_error c m ex = result_entity (entity_error c m) ex"

definition result_of :: "soul_result \<Rightarrow> exchange \<Rightarrow> exchange" where
  "result_of r ex = result_error (soul_result_code r) (soul_result_msg r) ex"

subsection \<open>What a plugin does with the chain\<close>

text \<open>
  A plugin ends the exchange, fails, hands on to the rest of the chain (\<open>chain.execute(exchange)\<close>),
  or hands on and continues when the rest has completed.
\<close>

datatype 'x action =
    Finish 'x
  | Fail jexn 'x
  | Next 'x
  | NextThen 'x "'x \<Rightarrow> jexn option \<times> 'x"

definition act_of :: "'x \<Rightarrow> 'a jres \<Rightarrow> ('a \<Rightarrow> 'x action) \<Rightarrow> 'x action" where
  "act_of ex m k = (case m of Inl e \<Rightarrow> Fail e ex | Inr a \<Rightarrow> k a)"

lemma act_of_simps [simp]:
  "act_of ex (Inl e) k = Fail e ex"
  "act_of ex (Inr a) k = k a"
  by (simp_all add: act_of_def)

subsection \<open>\<open>CheckUtils\<close>\<close>

definition must_match :: "string \<Rightarrow> bool" where
  "must_match pluginName \<longleftrightarrow> plugin_enum_name PE_DIVIDE = pluginName
     \<or> plugin_enum_name PE_DUBBO = pluginName \<or> plugin_enum_name PE_SPRING_CLOUD = pluginName"

definition checkSelector :: "string \<Rightarrow> exchange \<Rightarrow> exchange action" where
  "checkSelector pluginName ex =
     (if must_match pluginName then Finish (result_of SR_CANNOT_FIND_SELECTOR ex) else Next ex)"

definition checkRule :: "string \<Rightarrow> exchange \<Rightarrow> exchange action" where
  "checkRule pluginName ex =
     (if must_match pluginName then Finish (result_of SR_RULE_NOT_FIND ex) else Next ex)"

text \<open>The variants without a chain always answer the error.\<close>

definition checkSelector2 :: "string \<Rightarrow> exchange \<Rightarrow> exchange action" where
  "checkSelector2 pluginName ex = Finish (result_of SR_CANNOT_FIND_SELECTOR ex)"

definition checkRule2 :: "string \<Rightarrow> exchange \<Rightarrow> exchange action" where
  "checkRule2 pluginName ex = Finish (result_of SR_RULE_NOT_FIND ex)"

subsection \<open>The caller's address\<close>

text \<open>
  Java's \<open>split\<close> on the two characters comma and space: trailing empty parts are dropped, and a string without
  the separator is its own single part.
\<close>

fun split_comma_space :: "string \<Rightarrow> string list" where
  "split_comma_space [] = [[]]"
| "split_comma_space [c] = [[c]]"
| "split_comma_space (c # d # cs) =
     (if c = CHR '','' \<and> d = CHR '' '' then [] # split_comma_space cs
      else (case split_comma_space (d # cs) of [] \<Rightarrow> [[c]] | p # ps \<Rightarrow> (c # p) # ps))"

definition drop_trailing_empty :: "string list \<Rightarrow> string list" where
  "drop_trailing_empty ps = rev (dropWhile (\<lambda>p. p = []) (rev ps))"

definition java_split_comma_space :: "string \<Rightarrow> string list" where
  "java_split_comma_space s =
     (let ps = split_comma_space s in if length ps = 1 then ps else drop_trailing_empty ps)"

definition X_FORWARDED_FOR :: string where "X_FORWARDED_FOR = ''X-Forwarded-For''"

definition has_text :: "string \<Rightarrow> bool" where
  "has_text s \<longleftrightarrow> \<not> list_all is_whitespace s"

definition extractXForwardedValues :: "http_request \<Rightarrow> string list" where
  "extractXForwardedValues rq =
     (case header_get rq X_FORWARDED_FOR of
        None \<Rightarrow> []
      | Some [] \<Rightarrow> []
      | Some [v] \<Rightarrow>
          (let values = java_split_comma_space v
           in if length values = 1 \<and> \<not> has_text (hd values) then [] else values)
      | Some _ \<Rightarrow> [])"

text \<open>\<open>dns\<close> resolves a host name to the text of an IP address.\<close>

definition forwarded_resolve ::
  "(string \<Rightarrow> string option) \<Rightarrow> int \<Rightarrow> http_request \<Rightarrow> inet_address jres" where
  "forwarded_resolve dns maxTrustedIndex rq =
     (let xs = rev (extractXForwardedValues rq)
      in if xs \<noteq> [] then
           (let index = min (int (length xs)) maxTrustedIndex - 1
            in if 0 \<le> index \<and> index < int (length xs)
               then Inr \<lparr>ia_host = xs ! nat index, ia_ip = dns (xs ! nat index)\<rparr>
               else Inl IndexOutOfBounds)
         else deref (rq_remote rq))"

text \<open>\<open>maxTrustedIndex(n)\<close> asserts a positive index; \<open>trustAll()\<close> uses the largest \<open>int\<close>.\<close>

definition max_trusted_index :: "int \<Rightarrow> int jres" where
  "max_trusted_index n = (if n > 0 then Inr n
     else Inl (IllegalArgument ''An index greater than 0 is required''))"

definition trust_all :: int where "trust_all = 2 ^ 31 - 1"

definition acquireHost :: "(http_request \<Rightarrow> inet_address jres) \<Rightarrow> http_request \<Rightarrow> string jres" where
  "acquireHost resolve rq = bindr (resolve rq) (\<lambda>a. Inr (ia_host a))"

definition acquireIp :: "(http_request \<Rightarrow> inet_address jres) \<Rightarrow> http_request \<Rightarrow> string jres" where
  "acquireIp resolve rq = bindr (resolve rq) (\<lambda>a. deref (ia_ip a))"

lemma split_comma_space_nonempty [simp]: "split_comma_space s \<noteq> []"
  by (induction s rule: split_comma_space.induct) (auto split: list.splits)

lemma split_comma_space_append:
  "split_comma_space (s @ '', '' @ t) = split_comma_space s @ split_comma_space t"
proof (induction s rule: split_comma_space.induct)
  case 1
  then show ?case by simp
next
  case (2 c)
  then show ?case by (cases "c = CHR '',''") simp_all
next
  case (3 c d cs)
  show ?case
  proof (cases "c = CHR '','' \<and> d = CHR '' ''")
    case True
    with 3 show ?thesis by simp
  next
    case False
    have "split_comma_space ((d # cs) @ '', '' @ t) = split_comma_space (d # cs) @ split_comma_space t"
      by (rule 3(2) [OF False])
    moreover have "split_comma_space (d # cs) \<noteq> []" by simp
    ultimately show ?thesis using False by (cases "split_comma_space (d # cs)") auto
  qed
qed

lemma split_comma_space_atom: "CHR '','' \<notin> set t \<Longrightarrow> split_comma_space t = [t]"
  by (induction t rule: split_comma_space.induct) auto

lemma split_comma_space_join:
  "ips \<noteq> [] \<Longrightarrow> (\<forall>ip\<in>set ips. CHR '','' \<notin> set ip) \<Longrightarrow>
     split_comma_space (join_with '', '' ips) = ips"
proof (induction ips rule: induct_list012)
  case (3 x y zs)
  have "split_comma_space (join_with '', '' (x # y # zs))
      = split_comma_space x @ split_comma_space (join_with '', '' (y # zs))"
    using split_comma_space_append [of x] by simp
  with 3 show ?case by (simp add: split_comma_space_atom)
qed (simp_all add: split_comma_space_atom)

lemma drop_trailing_empty_keep: "ps \<noteq> [] \<Longrightarrow> last ps \<noteq> [] \<Longrightarrow> drop_trailing_empty ps = ps"
  by (cases ps rule: rev_cases) (simp_all add: drop_trailing_empty_def)

text \<open>
  C21: The caller's address cannot be spoofed past the trusted proxies. With \<open>maxTrustedIndex\<close> n, when the one
  \<open>X-Forwarded-For\<close> value ends with the n addresses the trusted proxies appended, the resolved
  host is the first of those n, whatever text the client put in front of them.
\<close>

theorem forwarded_not_spoofable:
  assumes "header_get rq X_FORWARDED_FOR = Some [spoofed @ '', '' @ join_with '', '' ips]"
    and "ips \<noteq> []" and "\<forall>ip\<in>set ips. ip \<noteq> [] \<and> CHR '','' \<notin> set ip"
  shows "forwarded_resolve dns (int (length ips)) rq = Inr \<lparr>ia_host = hd ips, ia_ip = dns (hd ips)\<rparr>"
proof -
  let ?v = "spoofed @ '', '' @ join_with '', '' ips"
  have sp: "split_comma_space ?v = split_comma_space spoofed @ ips"
    unfolding split_comma_space_append using assms(2,3) by (simp add: split_comma_space_join)
  have "length (split_comma_space ?v) \<noteq> 1"
    using assms(2) unfolding sp by (cases "split_comma_space spoofed"; cases ips) auto
  moreover have "drop_trailing_empty (split_comma_space ?v) = split_comma_space ?v"
    using assms(2,3) unfolding sp by (intro drop_trailing_empty_keep) auto
  ultimately have x: "extractXForwardedValues rq = split_comma_space spoofed @ ips"
    using assms(1) sp by (simp add: extractXForwardedValues_def java_split_comma_space_def Let_def)
  have n: "length ips - 1 < length ips" using assms(2) by (cases ips) auto
  have "(rev ips @ rev (split_comma_space spoofed)) ! (length ips - 1) = rev ips ! (length ips - 1)"
    using n by (simp add: nth_append)
  also have "\<dots> = hd ips" using assms(2) n by (simp add: rev_nth hd_conv_nth)
  finally have "(rev ips @ rev (split_comma_space spoofed)) ! (length ips - 1) = hd ips" .
  moreover have "nat (int (length ips) - 1) = length ips - 1" by simp
  ultimately show ?thesis
    using assms(2) n by (simp add: forwarded_resolve_def Let_def x)
qed

definition sample_request :: http_request where
  "sample_request = \<lparr>rq_method = ''GET'', rq_path = ''/http/order/findById'',
     rq_headers = [(''X-Forwarded-For'', [''6.6.6.6, 10.0.0.7''])], rq_query = [(''id'', [Some ''1''])], rq_queryString = Some ''id=1'',
     rq_remote = Some \<lparr>ia_host = ''127.0.0.1'', ia_ip = Some ''127.0.0.1''\<rparr>\<rparr>"

lemma forwarded_not_spoofable_witness:
  "forwarded_resolve Some 1 sample_request = Inr \<lparr>ia_host = ''10.0.0.7'', ia_ip = Some ''10.0.0.7''\<rparr>"
proof -
  have "header_get sample_request X_FORWARDED_FOR = Some [''6.6.6.6'' @ '', '' @ join_with '', '' [''10.0.0.7'']]"
    by (simp add: header_get_def sample_request_def X_FORWARDED_FOR_def same_header_def)
  from forwarded_not_spoofable [OF this, of Some] show ?thesis by simp
qed

end
