(* ===== verification/Conditions.thy ===== *)
theory Conditions
  imports Exchange
begin

text \<open>
  Matching a request against the conditions of a selector or rule: \<open>PathMatchUtils\<close>, the operator
  judges and their factory, the real data of a condition, and the match strategies. The regular
  expression engine, Spring's \<open>AntPathMatcher\<close> and name resolution are the fields of \<open>match_env\<close>.
\<close>

record match_env =
  me_ant :: "string \<Rightarrow> string \<Rightarrow> bool"
  me_regex :: "string \<Rightarrow> string \<Rightarrow> bool jres"
  me_resolve :: "http_request \<Rightarrow> inet_address jres"

subsection \<open>\<open>PathMatchUtils\<close>\<close>

definition match_urls :: "string \<Rightarrow> string list" where
  "match_urls urls = filter (\<lambda>p. p \<noteq> []) (map trim (split_on (CHR '','') urls))"

definition path_match :: "match_env \<Rightarrow> string \<Rightarrow> string \<Rightarrow> bool" where
  "path_match env matchUrls path = list_ex (\<lambda>url. me_ant env url path) (match_urls matchUrls)"

subsection \<open>Operator judges\<close>

definition eq_judge :: "condition_data \<Rightarrow> string \<Rightarrow> bool jres" where
  "eq_judge cd realData = Inr (realData = trim (cd_paramValue cd))"

definition like_judge :: "condition_data \<Rightarrow> string \<Rightarrow> bool jres" where
  "like_judge cd realData = Inr (str_contains realData (trim (cd_paramValue cd)))"

definition match_judge :: "match_env \<Rightarrow> condition_data \<Rightarrow> string \<Rightarrow> bool jres" where
  "match_judge env cd realData =
     (if param_type_enum_name PT_URI = cd_paramType cd
      then Inr (path_match env (trim (cd_paramValue cd)) realData)
      else Inr (str_contains realData (trim (cd_paramValue cd))))"

definition regex_judge :: "match_env \<Rightarrow> condition_data \<Rightarrow> string \<Rightarrow> bool jres" where
  "regex_judge env cd realData = me_regex env (cd_paramValue cd) realData"

definition OPERATOR_JUDGE_MAP :: "match_env \<Rightarrow> (string \<times> (condition_data \<Rightarrow> string \<Rightarrow> bool jres)) list" where
  "OPERATOR_JUDGE_MAP env =
     [(operator_enum_alias OP_EQ, eq_judge), (operator_enum_alias OP_MATCH, match_judge env),
      (operator_enum_alias OP_LIKE, like_judge), (operator_enum_alias OP_REGEX, regex_judge env)]"

text \<open>A blank value matches nothing; an operator without a judge reads null from the map.\<close>

definition operator_judge :: "match_env \<Rightarrow> condition_data \<Rightarrow> string option \<Rightarrow> bool jres" where
  "operator_judge env cd realData =
     (if is_blank realData then Inr False
      else bindr (deref (map_of (OPERATOR_JUDGE_MAP env) (cd_operator cd)))
             (\<lambda>j. bindr (deref realData) (j cd)))"

subsection \<open>The real data of a condition\<close>

text \<open>\<open>ReflectUtils.getFieldValue(soulContext, name)\<close> cast to a string.\<close>

definition context_field :: "soul_context option \<Rightarrow> string \<Rightarrow> string option jres" where
  "context_field ctx fieldName =
     (case ctx of None \<Rightarrow> Inr None | Some c \<Rightarrow>
        if is_blank (Some fieldName) then Inr None
        else if fieldName = ''module'' then Inr (ctx_module c)
        else if fieldName = ''method'' then Inr (ctx_method c)
        else if fieldName = ''rpcType'' then Inr (ctx_rpcType c)
        else if fieldName = ''httpMethod'' then Inr (ctx_httpMethod c)
        else if fieldName = ''sign'' then Inr (ctx_sign c)
        else if fieldName = ''timestamp'' then Inr (ctx_timestamp c)
        else if fieldName = ''appKey'' then Inr (ctx_appKey c)
        else if fieldName = ''path'' then Inr (ctx_path c)
        else if fieldName = ''contextPath'' then Inr (ctx_contextPath c)
        else if fieldName = ''realUrl'' then Inr (ctx_realUrl c)
        else if fieldName = ''dubboParams'' then Inr (ctx_dubboParams c)
        else if fieldName = ''startDateTime'' then
          (case ctx_startDateTime c of None \<Rightarrow> Inr None | Some _ \<Rightarrow> Inl (RuntimeExn ''ClassCastException''))
        else Inr None)"

definition buildRealData :: "match_env \<Rightarrow> condition_data \<Rightarrow> exchange \<Rightarrow> string option jres" where
  "buildRealData env cd ex =
     bindr (getParamTypeEnumByName (Some (cd_paramType cd))) (\<lambda>p. case p of
        PT_HEADER \<Rightarrow>
          (case header_get (ex_request ex) (cd_paramName cd) of
             None \<Rightarrow> Inr (Some []) | Some [] \<Rightarrow> Inr (Some []) | Some (v # vs) \<Rightarrow> Inr (Some v))
      | PT_URI \<Rightarrow> Inr (Some (rq_path (ex_request ex)))
      | PT_QUERY \<Rightarrow> Inr (query_first (ex_request ex) (cd_paramName cd))
      | PT_HOST \<Rightarrow> bindr (acquireHost (me_resolve env) (ex_request ex)) (\<lambda>h. Inr (Some h))
      | PT_IP \<Rightarrow> bindr (acquireIp (me_resolve env) (ex_request ex)) (\<lambda>h. Inr (Some h))
      | PT_POST \<Rightarrow> context_field (ex_context ex) (cd_paramName cd))"

definition judge_condition :: "match_env \<Rightarrow> exchange \<Rightarrow> condition_data \<Rightarrow> bool jres" where
  "judge_condition env ex cd = bindr (buildRealData env cd ex) (operator_judge env cd)"

subsection \<open>Strategies\<close>

definition and_strategy :: "match_env \<Rightarrow> condition_data list \<Rightarrow> exchange \<Rightarrow> bool jres" where
  "and_strategy env cds ex = all_match (judge_condition env ex) cds"

definition or_strategy :: "match_env \<Rightarrow> condition_data list \<Rightarrow> exchange \<Rightarrow> bool jres" where
  "or_strategy env cds ex = any_match (judge_condition env ex) cds"

text \<open>
  The extension file binds \<open>and\<close> and \<open>or\<close>; the look-up by code falls back to \<open>and\<close>. The
  condition list is dereferenced by the strategy.
\<close>

definition match_strategies ::
  "(string \<times> (match_env \<Rightarrow> condition_data list \<Rightarrow> exchange \<Rightarrow> bool jres)) list" where
  "match_strategies = [(''and'', and_strategy), (''or'', or_strategy)]"

definition match_conditions :: "match_env \<Rightarrow> int \<Rightarrow> condition_data list option \<Rightarrow> exchange \<Rightarrow> bool jres" where
  "match_conditions env strategy cds ex =
     bindr (deref (map_of match_strategies (getMatchModeByCode strategy)))
       (\<lambda>s. bindr (deref cds) (\<lambda>xs. s env xs ex))"

subsection \<open>What matching means\<close>

text \<open>A condition a request can be judged by: a supported operator, and data that can be read.\<close>

definition judgeable :: "match_env \<Rightarrow> exchange \<Rightarrow> condition_data \<Rightarrow> bool" where
  "judgeable env ex cd \<longleftrightarrow> (\<exists>b. judge_condition env ex cd = Inr b)"

definition holds :: "match_env \<Rightarrow> exchange \<Rightarrow> condition_data \<Rightarrow> bool" where
  "holds env ex cd \<longleftrightarrow> judge_condition env ex cd = Inr True"

lemma judgeable_eq: "judgeable env ex cd \<Longrightarrow> judge_condition env ex cd = Inr (holds env ex cd)"
  by (auto simp: judgeable_def holds_def)

lemma match_mode_by_code:
  "getMatchModeByCode c = (if c = 1 then ''or'' else ''and'')"
  by (simp add: getMatchModeByCode_def match_mode_values_def)

lemma match_conditions_simps:
  "match_conditions env c None ex = Inl NullPointer"
  "match_conditions env c (Some cds) ex = (if c = 1 then or_strategy env cds ex else and_strategy env cds ex)"
  by (simp_all add: match_conditions_def match_strategies_def match_mode_by_code)

text \<open>
  C20: Matching follows the match mode. When every condition of the list can be judged, a selector or rule
  in mode \<open>or\<close> (code 1) matches exactly when some condition holds and in every other mode exactly
  when all hold, and matching throws nothing; in particular an empty list matches in mode \<open>and\<close> and
  does not match in mode \<open>or\<close>.
\<close>

theorem match_conditions_correct:
  assumes "\<forall>cd\<in>set cds. judgeable env ex cd"
  shows "match_conditions env mode (Some cds) ex =
     Inr (if mode = match_mode_code MM_OR then \<exists>cd\<in>set cds. holds env ex cd
          else \<forall>cd\<in>set cds. holds env ex cd)"
proof -
  have "any_match (judge_condition env ex) cds = Inr (\<exists>cd\<in>set cds. holds env ex cd)"
    by (rule any_match_total) (use assms judgeable_eq in blast)
  moreover have "all_match (judge_condition env ex) cds = Inr (\<forall>cd\<in>set cds. holds env ex cd)"
    by (rule all_match_total) (use assms judgeable_eq in blast)
  ultimately show ?thesis
    by (simp add: match_conditions_simps and_strategy_def or_strategy_def)
qed

definition sample_env :: match_env where
  "sample_env = \<lparr>me_ant = (\<lambda>p s. p = s \<or> p = ''/**''), me_regex = (\<lambda>p s. Inr (p = s)),
     me_resolve = forwarded_resolve Some 1\<rparr>"

definition sample_condition :: condition_data where
  "sample_condition = \<lparr>cd_paramType = ''uri'', cd_operator = ''match'', cd_paramName = ''/'', cd_paramValue = ''/**''\<rparr>"

lemma sample_condition_holds: "judge_condition sample_env (new_exchange sample_request) sample_condition = Inr True"
  by code_simp

lemma match_conditions_correct_witness:
  "match_conditions sample_env 1 (Some [sample_condition]) (new_exchange sample_request) = Inr True"
proof -
  have "judgeable sample_env (new_exchange sample_request) sample_condition"
    unfolding judgeable_def using sample_condition_holds by (rule exI)
  then show ?thesis
    using match_conditions_correct [of "[sample_condition]" sample_env "new_exchange sample_request" 1]
      sample_condition_holds by (simp add: holds_def)
qed

text \<open>
  Which operators work. A condition on a request value that is not blank is judged without
  exception for \<open>=\<close>, \<open>like\<close> and \<open>match\<close>, a blank value never matches, and exactly the operators the
  enumeration declares unsupported (or unknown ones) end in a null pointer exception.
\<close>

theorem operator_judge_cases:
  "operator_judge env cd realData =
     (if is_blank realData then Inr False
      else if cd_operator cd = ''='' then Inr (the realData = trim (cd_paramValue cd))
      else if cd_operator cd = ''like'' then Inr (str_contains (the realData) (trim (cd_paramValue cd)))
      else if cd_operator cd = ''match'' then
        Inr (if cd_paramType cd = ''uri'' then path_match env (trim (cd_paramValue cd)) (the realData)
             else str_contains (the realData) (trim (cd_paramValue cd)))
      else if cd_operator cd = ''regEx'' then me_regex env (cd_paramValue cd) (the realData)
      else Inl NullPointer)"
  by (cases realData)
    (auto simp: operator_judge_def OPERATOR_JUDGE_MAP_def eq_judge_def like_judge_def match_judge_def regex_judge_def)

end
