(* ===== verification/Caches.thy ===== *)
theory Caches
  imports Prelude "HOL-Library.Multiset"
begin

text \<open>
  The two interfaces of the gateway's configuration caches. \<open>keyed_cache\<close> is a map from a key
  of the data to the last data put; \<open>grouped_cache\<close> keeps, per group key, a list without
  repeated identifiers, ordered by a sort number. The laws are the characteristic equations of
  the look-up after each operation; everything the clients need (invariant, last writer wins,
  a full refresh equals the snapshot, republication is idempotent) is derived here once.
\<close>

subsection \<open>Replacing an entry of a sorted list\<close>

text \<open>
  What the code does with an existing list: drop the entry with the new identifier, add the new
  entry at the end, sort stably by the sort number.
\<close>

definition replace_sorted :: "('d \<Rightarrow> 'i) \<Rightarrow> ('d \<Rightarrow> int) \<Rightarrow> 'd \<Rightarrow> 'd list \<Rightarrow> 'd list" where
  "replace_sorted ident srt d xs =
     sort_key srt (filter (\<lambda>r. ident r \<noteq> ident d) xs @ [d])"

lemma set_replace_sorted:
  "set (replace_sorted ident srt d xs) = insert d {x \<in> set xs. ident x \<noteq> ident d}"
  by (auto simp: replace_sorted_def)

lemma sorted_replace_sorted: "sorted (map srt (replace_sorted ident srt d xs))"
  by (simp add: replace_sorted_def)

lemma distinct_map_sort_key:
  "distinct (map f (sort_key g xs)) \<longleftrightarrow> distinct (map f xs)"
  by (simp add: distinct_map)

lemma distinct_replace_sorted:
  "distinct (map ident xs) \<Longrightarrow> distinct (map ident (replace_sorted ident srt d xs))"
  by (auto simp: replace_sorted_def distinct_map_sort_key distinct_map_filter)

lemma sort_key_cong_stable:
  assumes "mset xs = mset ys"
    and "\<And>k. filter (\<lambda>x. f x = k) xs = filter (\<lambda>x. f x = k) ys"
  shows "sort_key f xs = sort_key f ys"
proof (rule properties_for_sort_key)
  show "mset (sort_key f ys) = mset xs" using assms by simp
  show "filter (\<lambda>x. f k = f x) (sort_key f ys) = filter (\<lambda>x. f k = f x) xs" for k
    using assms(2) [of "f k"] by (simp add: sort_key_stable eq_commute [of "f k"])
  show "sorted (map f (sort_key f ys))" by simp
qed

lemma filter_sort_key: "filter P (sort_key f xs) = sort_key f (filter P xs)"
  by (rule filter_sort)

lemma sort_key_snoc_sorted: "sort_key f (sort_key f xs @ [d]) = sort_key f (xs @ [d])"
  by (rule sort_key_cong_stable) (simp_all add: sort_key_stable)

lemma replace_sorted_new:
  "ident d \<notin> ident ` set xs \<Longrightarrow>
     replace_sorted ident srt d (sort_key srt xs) = sort_key srt (xs @ [d])"
proof -
  assume "ident d \<notin> ident ` set xs"
  then have "filter (\<lambda>r. ident r \<noteq> ident d) (sort_key srt xs) = sort_key srt xs"
    by (auto simp: filter_id_conv) (metis imageI)
  then show ?thesis by (simp add: replace_sorted_def sort_key_snoc_sorted)
qed

lemma replace_sorted_twice:
  "replace_sorted ident srt d (replace_sorted ident srt d xs) = replace_sorted ident srt d xs"
proof -
  have "filter (\<lambda>r. ident r \<noteq> ident d) (replace_sorted ident srt d xs)
      = sort_key srt (filter (\<lambda>r. ident r \<noteq> ident d) xs)"
    by (simp add: replace_sorted_def filter_sort_key)
  then show ?thesis
    by (subst replace_sorted_def) (simp add: sort_key_snoc_sorted replace_sorted_def)
qed

lemma replace_sorted_commute:
  assumes "ident d \<noteq> ident e" and "srt d \<noteq> srt e"
  shows "replace_sorted ident srt d (replace_sorted ident srt e xs)
       = replace_sorted ident srt e (replace_sorted ident srt d xs)"
proof -
  let ?z = "filter (\<lambda>r. ident r \<noteq> ident d \<and> ident r \<noteq> ident e) xs"
  have l: "replace_sorted ident srt d (replace_sorted ident srt e xs) = sort_key srt ((?z @ [e]) @ [d])"
    using assms(1) by (simp add: replace_sorted_def filter_sort_key sort_key_snoc_sorted
        del: append_assoc) (simp add: conj_commute)
  have r: "replace_sorted ident srt e (replace_sorted ident srt d xs) = sort_key srt ((?z @ [d]) @ [e])"
    using assms(1) by (simp add: replace_sorted_def filter_sort_key sort_key_snoc_sorted
        del: append_assoc)
  have "sort_key srt ((?z @ [e]) @ [d]) = sort_key srt ((?z @ [d]) @ [e])"
    by (rule sort_key_cong_stable) (use assms(2) in auto)
  with l r show ?thesis by simp
qed

subsection \<open>A map from a key of the data\<close>

locale keyed_cache =
  fixes put :: "'d \<Rightarrow> 's \<Rightarrow> 's"
    and del :: "'d \<Rightarrow> 's \<Rightarrow> 's"
    and get :: "'s \<Rightarrow> 'k \<Rightarrow> 'd option"
    and keyof :: "'d \<Rightarrow> 'k"
  assumes get_put: "get (put d s) k = (if k = keyof d then Some d else get s k)"
    and get_del: "get (del d s) k = (if k = keyof d then None else get s k)"
begin

text \<open>Every entry is filed under its own key.\<close>

definition filed :: "'s \<Rightarrow> bool" where
  "filed s \<longleftrightarrow> (\<forall>k d. get s k = Some d \<longrightarrow> keyof d = k)"

lemma filed_put: "filed s \<Longrightarrow> filed (put d s)"
  by (auto simp: filed_def get_put)

lemma filed_del: "filed s \<Longrightarrow> filed (del d s)"
  by (auto simp: filed_def get_del split: if_splits)

text \<open>A sequence of updates, \<open>True\<close> for a put and \<open>False\<close> for a removal: the last one wins.\<close>

definition apply_all :: "(bool \<times> 'd) list \<Rightarrow> 's \<Rightarrow> 's" where
  "apply_all evs s = fold (\<lambda>(p, d). if p then put d else del d) evs s"

lemma apply_all_simps:
  "apply_all [] s = s"
  "apply_all ((p, d) # evs) s = apply_all evs (if p then put d s else del d s)"
  by (simp_all add: apply_all_def)

lemma last_writer_wins:
  "get (apply_all evs s) k =
     (case find (\<lambda>(p, d). keyof d = k) (rev evs) of
        None \<Rightarrow> get s k
      | Some (p, d) \<Rightarrow> if p then Some d else None)"
proof (induction evs rule: rev_induct)
  case Nil
  then show ?case by (simp add: apply_all_def)
next
  case (snoc ev evs)
  obtain p d where ev: "ev = (p, d)" by (cases ev)
  have "apply_all (evs @ [ev]) s = (if p then put d else del d) (apply_all evs s)"
    by (simp add: apply_all_def ev)
  with snoc ev show ?case by (auto simp: get_put get_del)
qed

lemma get_fold_put:
  assumes "distinct (map keyof ds)"
  shows "get (fold put ds s) k =
     (case find (\<lambda>d. keyof d = k) ds of None \<Rightarrow> get s k | Some d \<Rightarrow> Some d)"
  using assms
proof (induction ds arbitrary: s)
  case Nil
  then show ?case by simp
next
  case (Cons d ds)
  show ?case
  proof (cases "keyof d = k")
    case True
    with Cons.prems have "find (\<lambda>d. keyof d = k) ds = None"
      by (auto simp: find_None_iff) (metis imageI)
    with Cons True show ?thesis by (simp add: get_put)
  next
    case False
    with Cons show ?thesis by (auto simp: get_put split: option.splits)
  qed
qed

end

subsection \<open>Sorted groups\<close>

text \<open>A group that was never filled reads as null; callers treat it as empty.\<close>

definition the_group :: "'d list option \<Rightarrow> 'd list" where
  "the_group g = (case g of None \<Rightarrow> [] | Some xs \<Rightarrow> xs)"

lemma the_group_simps [simp, cache_simps]:
  "the_group None = []"
  "the_group (Some xs) = xs"
  by (simp_all add: the_group_def)

locale grouped_cache =
  fixes add :: "'d \<Rightarrow> 's \<Rightarrow> 's"
    and del :: "'d \<Rightarrow> 's \<Rightarrow> 's"
    and look :: "'s \<Rightarrow> 'k \<Rightarrow> 'd list option"
    and group :: "'d \<Rightarrow> 'k"
    and ident :: "'d \<Rightarrow> 'i"
    and srt :: "'d \<Rightarrow> int"
  assumes look_add: "look (add d s) k =
      (if k = group d then Some (replace_sorted ident srt d (the_group (look s k)))
       else look s k)"
    and look_del: "look (del d s) k =
      (if k = group d then map_option (filter (\<lambda>r. ident r \<noteq> ident d)) (look s k) else look s k)"
begin

definition members :: "'s \<Rightarrow> 'k \<Rightarrow> 'd list" where
  "members s k = the_group (look s k)"

definition wf :: "'s \<Rightarrow> bool" where
  "wf s \<longleftrightarrow> (\<forall>k. sorted (map srt (members s k)) \<and> distinct (map ident (members s k))
                 \<and> (\<forall>x\<in>set (members s k). group x = k))"

lemma members_add:
  "members (add d s) k = (if k = group d then replace_sorted ident srt d (members s k) else members s k)"
  by (simp add: members_def look_add)

lemma members_del:
  "members (del d s) k =
     (if k = group d then filter (\<lambda>r. ident r \<noteq> ident d) (members s k) else members s k)"
  by (auto simp: members_def look_del the_group_def split: option.splits)

lemma wf_add: "wf s \<Longrightarrow> wf (add d s)"
  by (auto simp: wf_def members_add sorted_replace_sorted distinct_replace_sorted set_replace_sorted)

lemma wf_del: "wf s \<Longrightarrow> wf (del d s)"
  by (auto simp: wf_def members_del sorted_filter distinct_map_filter)

lemma wf_fold_add: "wf s \<Longrightarrow> wf (fold add ds s)"
  by (induction ds arbitrary: s) (simp_all add: wf_add)

lemma wf_fold_del: "wf s \<Longrightarrow> wf (fold del ds s)"
  by (induction ds arbitrary: s) (simp_all add: wf_del)

lemma republish: "look (add d (add d s)) k = look (add d s) k"
  by (simp add: look_add replace_sorted_twice)

lemma publish_commute:
  "ident d \<noteq> ident e \<Longrightarrow> srt d \<noteq> srt e \<Longrightarrow> look (add d (add e s)) k = look (add e (add d s)) k"
  using replace_sorted_commute [of ident d e srt]
  by (auto simp: look_add split: option.splits)

lemma members_fold_add:
  assumes "distinct (map ident ds)" and "members s k = sort_key srt xs"
    and "ident ` set xs \<inter> ident ` set ds = {}"
  shows "members (fold add ds s) k = sort_key srt (xs @ filter (\<lambda>d. group d = k) ds)"
  using assms
proof (induction ds arbitrary: s xs)
  case Nil
  then show ?case by simp
next
  case (Cons d ds)
  show ?case
  proof (cases "group d = k")
    case True
    have "members (add d s) k = sort_key srt (xs @ [d])"
      using Cons.prems True by (simp add: members_add replace_sorted_new)
    with Cons.prems Cons.IH [of "add d s" "xs @ [d]"] True show ?thesis by auto
  next
    case False
    with Cons.prems Cons.IH [of "add d s" xs] show ?thesis by (auto simp: members_add)
  qed
qed

text \<open>Publishing a snapshot into an empty group leaves exactly the snapshot, in sort order.\<close>

lemma snapshot:
  "distinct (map ident ds) \<Longrightarrow> members s k = [] \<Longrightarrow>
     members (fold add ds s) k = sort_key srt (filter (\<lambda>d. group d = k) ds)"
  using members_fold_add [of ds s k "[]"] by simp

lemma members_fold_del:
  "members (fold del ds s) k =
     filter (\<lambda>r. \<forall>d\<in>set ds. group d = k \<longrightarrow> ident r \<noteq> ident d) (members s k)"
  by (induction ds arbitrary: s) (auto simp: members_del intro!: filter_cong)

end

end
