(* ===== verification/DataCache.thy ===== *)
theory DataCache
  imports SoulData Caches
begin

text \<open>
  \<open>BaseDataCache\<close>: the gateway's copy of plugins, selectors and rules, and
  \<open>CommonPluginDataSubscriber\<close>, which applies the updates of the synchronisation services to it
  and hands them to the plugin's \<open>PluginDataHandler\<close>. \<open>SignAuthDataCache\<close> with its subscriber
  is the same for application keys.
\<close>

subsection \<open>State\<close>

record base_data_cache =
  PLUGIN_MAP :: "string \<rightharpoonup> plugin_data"
  SELECTOR_MAP :: "string \<rightharpoonup> selector_data list"
  RULE_MAP :: "string \<rightharpoonup> rule_data list"

definition empty_base_data_cache :: base_data_cache where
  "empty_base_data_cache = \<lparr>PLUGIN_MAP = Map.empty, SELECTOR_MAP = Map.empty, RULE_MAP = Map.empty\<rparr>"

subsection \<open>Plugins\<close>

definition cachePluginData :: "plugin_data \<Rightarrow> base_data_cache \<Rightarrow> base_data_cache" where
  "cachePluginData data c = c\<lparr>PLUGIN_MAP := (PLUGIN_MAP c)(pd_name data \<mapsto> data)\<rparr>"

definition removePluginData :: "plugin_data \<Rightarrow> base_data_cache \<Rightarrow> base_data_cache" where
  "removePluginData data c = c\<lparr>PLUGIN_MAP := remove_key (pd_name data) (PLUGIN_MAP c)\<rparr>"

definition cleanPluginData :: "base_data_cache \<Rightarrow> base_data_cache" where
  "cleanPluginData c = c\<lparr>PLUGIN_MAP := Map.empty\<rparr>"

definition cleanPluginDataSelf :: "plugin_data list \<Rightarrow> base_data_cache \<Rightarrow> base_data_cache" where
  "cleanPluginDataSelf ds c = fold removePluginData ds c"

definition obtainPluginData :: "base_data_cache \<Rightarrow> string \<Rightarrow> plugin_data option" where
  "obtainPluginData c pluginName = PLUGIN_MAP c pluginName"

subsection \<open>Selectors\<close>

definition cacheSelectData :: "selector_data \<Rightarrow> base_data_cache \<Rightarrow> base_data_cache" where
  "cacheSelectData data c =
     (let key = sd_pluginName data in
      case SELECTOR_MAP c key of
        Some existList \<Rightarrow>
          (let resultList = filter (\<lambda>r. sd_id r \<noteq> sd_id data) existList @ [data];
               collect = sort_key sd_sort resultList
           in c\<lparr>SELECTOR_MAP := (SELECTOR_MAP c)(key \<mapsto> collect)\<rparr>)
      | None \<Rightarrow> c\<lparr>SELECTOR_MAP := (SELECTOR_MAP c)(key \<mapsto> [data])\<rparr>)"

definition removeSelectData :: "selector_data \<Rightarrow> base_data_cache \<Rightarrow> base_data_cache" where
  "removeSelectData data c =
     (case SELECTOR_MAP c (sd_pluginName data) of
        None \<Rightarrow> c
      | Some xs \<Rightarrow> c\<lparr>SELECTOR_MAP :=
          (SELECTOR_MAP c)(sd_pluginName data \<mapsto> filter (\<lambda>e. sd_id e \<noteq> sd_id data) xs)\<rparr>)"

definition cleanSelectorData :: "base_data_cache \<Rightarrow> base_data_cache" where
  "cleanSelectorData c = c\<lparr>SELECTOR_MAP := Map.empty\<rparr>"

definition cleanSelectorDataSelf :: "selector_data list \<Rightarrow> base_data_cache \<Rightarrow> base_data_cache" where
  "cleanSelectorDataSelf ds c = fold removeSelectData ds c"

definition obtainSelectorData :: "base_data_cache \<Rightarrow> string \<Rightarrow> selector_data list option" where
  "obtainSelectorData c pluginName = SELECTOR_MAP c pluginName"

subsection \<open>Rules\<close>

definition cacheRuleData :: "rule_data \<Rightarrow> base_data_cache \<Rightarrow> base_data_cache" where
  "cacheRuleData ruleData c =
     (let selectorId = rd_selectorId ruleData in
      case RULE_MAP c selectorId of
        Some existList \<Rightarrow>
          (let resultList = filter (\<lambda>r. rd_id r \<noteq> rd_id ruleData) existList @ [ruleData];
               collect = sort_key rd_sort resultList
           in c\<lparr>RULE_MAP := (RULE_MAP c)(selectorId \<mapsto> collect)\<rparr>)
      | None \<Rightarrow> c\<lparr>RULE_MAP := (RULE_MAP c)(selectorId \<mapsto> [ruleData])\<rparr>)"

definition removeRuleData :: "rule_data \<Rightarrow> base_data_cache \<Rightarrow> base_data_cache" where
  "removeRuleData ruleData c =
     (case RULE_MAP c (rd_selectorId ruleData) of
        None \<Rightarrow> c
      | Some xs \<Rightarrow> c\<lparr>RULE_MAP :=
          (RULE_MAP c)(rd_selectorId ruleData \<mapsto> filter (\<lambda>rule. rd_id rule \<noteq> rd_id ruleData) xs)\<rparr>)"

definition cleanRuleData :: "base_data_cache \<Rightarrow> base_data_cache" where
  "cleanRuleData c = c\<lparr>RULE_MAP := Map.empty\<rparr>"

definition cleanRuleDataSelf :: "rule_data list \<Rightarrow> base_data_cache \<Rightarrow> base_data_cache" where
  "cleanRuleDataSelf ds c = fold removeRuleData ds c"

definition obtainRuleData :: "base_data_cache \<Rightarrow> string \<Rightarrow> rule_data list option" where
  "obtainRuleData c selectorId = RULE_MAP c selectorId"

subsection \<open>The caches implement their interfaces\<close>

interpretation plc: keyed_cache cachePluginData removePluginData obtainPluginData pd_name
  by unfold_locales (auto simp: cachePluginData_def removePluginData_def obtainPluginData_def)

interpretation slc: grouped_cache cacheSelectData removeSelectData obtainSelectorData
    sd_pluginName sd_id sd_sort
  by unfold_locales
    (auto simp: cacheSelectData_def removeSelectData_def obtainSelectorData_def replace_sorted_def
          Let_def split: option.splits)

interpretation rlc: grouped_cache cacheRuleData removeRuleData obtainRuleData
    rd_selectorId rd_id rd_sort
  by unfold_locales
    (auto simp: cacheRuleData_def removeRuleData_def obtainRuleData_def replace_sorted_def
          Let_def split: option.splits)

text \<open>The three maps are independent: an operation on one leaves the others as they are.\<close>

lemma cache_frames [cache_simps]:
  "SELECTOR_MAP (cachePluginData p c) = SELECTOR_MAP c" "RULE_MAP (cachePluginData p c) = RULE_MAP c"
  "SELECTOR_MAP (removePluginData p c) = SELECTOR_MAP c" "RULE_MAP (removePluginData p c) = RULE_MAP c"
  "PLUGIN_MAP (cacheSelectData sd c) = PLUGIN_MAP c" "RULE_MAP (cacheSelectData sd c) = RULE_MAP c"
  "PLUGIN_MAP (removeSelectData sd c) = PLUGIN_MAP c" "RULE_MAP (removeSelectData sd c) = RULE_MAP c"
  "PLUGIN_MAP (cacheRuleData rd c) = PLUGIN_MAP c" "SELECTOR_MAP (cacheRuleData rd c) = SELECTOR_MAP c"
  "PLUGIN_MAP (removeRuleData rd c) = PLUGIN_MAP c" "SELECTOR_MAP (removeRuleData rd c) = SELECTOR_MAP c"
  by (auto simp: cachePluginData_def removePluginData_def cacheSelectData_def removeSelectData_def
        cacheRuleData_def removeRuleData_def Let_def split: option.splits)

subsection \<open>The subscriber and the plugins' handlers\<close>

text \<open>
  A \<open>PluginDataHandler\<close> acts on the state of its own plugin, of type \<open>'h\<close>; each call returns the
  new state, or the state it left and the exception. The interface's default methods do nothing.
\<close>

type_synonym ('a, 'h) handler_call = "'a \<Rightarrow> 'h \<Rightarrow> 'h \<times> jexn option"

record 'h plugin_data_handler =
  ph_pluginNamed :: string
  ph_handlerPlugin :: "(plugin_data, 'h) handler_call"
  ph_removePlugin :: "(plugin_data, 'h) handler_call"
  ph_handlerSelector :: "(selector_data, 'h) handler_call"
  ph_removeSelector :: "(selector_data, 'h) handler_call"
  ph_handlerRule :: "(rule_data, 'h) handler_call"
  ph_removeRule :: "(rule_data, 'h) handler_call"

definition default_call :: "('a, 'h) handler_call" where
  "default_call data h = (h, None)"

definition default_handler :: "string \<Rightarrow> 'h plugin_data_handler" where
  "default_handler n =
     \<lparr>ph_pluginNamed = n, ph_handlerPlugin = default_call, ph_removePlugin = default_call,
      ph_handlerSelector = default_call, ph_removeSelector = default_call,
      ph_handlerRule = default_call, ph_removeRule = default_call\<rparr>"

text \<open>\<open>Collectors.toConcurrentMap\<close> throws on two handlers for one plugin.\<close>

fun handler_map :: "'h plugin_data_handler list \<Rightarrow> (string \<rightharpoonup> 'h plugin_data_handler) jres" where
  "handler_map [] = Inr Map.empty"
| "handler_map (h # hs) =
     bindr (handler_map hs) (\<lambda>m. if m (ph_pluginNamed h) = None
        then Inr (m(ph_pluginNamed h \<mapsto> h)) else Inl (IllegalState ''Duplicate key''))"

record 'h subscriber_state =
  ss_cache :: base_data_cache
  ss_handlers :: 'h

definition with_handler ::
  "(string \<rightharpoonup> 'h plugin_data_handler) \<Rightarrow> string \<Rightarrow> ('h plugin_data_handler \<Rightarrow> ('a, 'h) handler_call) \<Rightarrow> 'a \<Rightarrow>
     'h subscriber_state \<Rightarrow> 'h subscriber_state \<times> jexn option" where
  "with_handler hm n sel data s =
     (case hm n of
        None \<Rightarrow> (s, None)
      | Some ph \<Rightarrow> (case sel ph data (ss_handlers s) of (h', e) \<Rightarrow> (s\<lparr>ss_handlers := h'\<rparr>, e)))"

type_synonym ('a, 'h) subscriber_op =
  "(string \<rightharpoonup> 'h plugin_data_handler) \<Rightarrow> 'a \<Rightarrow> 'h subscriber_state \<Rightarrow> 'h subscriber_state \<times> jexn option"

definition onSubscribe :: "(plugin_data, 'h) subscriber_op" where
  "onSubscribe hm d s =
     with_handler hm (pd_name d) ph_handlerPlugin d (s\<lparr>ss_cache := cachePluginData d (ss_cache s)\<rparr>)"

definition unSubscribe :: "(plugin_data, 'h) subscriber_op" where
  "unSubscribe hm d s =
     with_handler hm (pd_name d) ph_removePlugin d (s\<lparr>ss_cache := removePluginData d (ss_cache s)\<rparr>)"

definition refreshPluginDataAll :: "'h subscriber_state \<Rightarrow> 'h subscriber_state" where
  "refreshPluginDataAll s = s\<lparr>ss_cache := cleanPluginData (ss_cache s)\<rparr>"

definition refreshPluginDataSelf :: "plugin_data list option \<Rightarrow> 'h subscriber_state \<Rightarrow> 'h subscriber_state" where
  "refreshPluginDataSelf ds s =
     (case ds of None \<Rightarrow> s | Some [] \<Rightarrow> s
      | Some xs \<Rightarrow> s\<lparr>ss_cache := cleanPluginDataSelf xs (ss_cache s)\<rparr>)"

definition onSelectorSubscribe :: "(selector_data, 'h) subscriber_op" where
  "onSelectorSubscribe hm d s =
     with_handler hm (sd_pluginName d) ph_handlerSelector d (s\<lparr>ss_cache := cacheSelectData d (ss_cache s)\<rparr>)"

definition unSelectorSubscribe :: "(selector_data, 'h) subscriber_op" where
  "unSelectorSubscribe hm d s =
     with_handler hm (sd_pluginName d) ph_removeSelector d (s\<lparr>ss_cache := removeSelectData d (ss_cache s)\<rparr>)"

definition refreshSelectorDataAll :: "'h subscriber_state \<Rightarrow> 'h subscriber_state" where
  "refreshSelectorDataAll s = s\<lparr>ss_cache := cleanSelectorData (ss_cache s)\<rparr>"

definition refreshSelectorDataSelf :: "selector_data list option \<Rightarrow> 'h subscriber_state \<Rightarrow> 'h subscriber_state" where
  "refreshSelectorDataSelf ds s =
     (case ds of None \<Rightarrow> s | Some [] \<Rightarrow> s
      | Some xs \<Rightarrow> s\<lparr>ss_cache := cleanSelectorDataSelf xs (ss_cache s)\<rparr>)"

definition onRuleSubscribe :: "(rule_data, 'h) subscriber_op" where
  "onRuleSubscribe hm d s =
     with_handler hm (rd_pluginName d) ph_handlerRule d (s\<lparr>ss_cache := cacheRuleData d (ss_cache s)\<rparr>)"

definition unRuleSubscribe :: "(rule_data, 'h) subscriber_op" where
  "unRuleSubscribe hm d s =
     with_handler hm (rd_pluginName d) ph_removeRule d (s\<lparr>ss_cache := removeRuleData d (ss_cache s)\<rparr>)"

definition refreshRuleDataAll :: "'h subscriber_state \<Rightarrow> 'h subscriber_state" where
  "refreshRuleDataAll s = s\<lparr>ss_cache := cleanRuleData (ss_cache s)\<rparr>"

definition refreshRuleDataSelf :: "rule_data list option \<Rightarrow> 'h subscriber_state \<Rightarrow> 'h subscriber_state" where
  "refreshRuleDataSelf ds s =
     (case ds of None \<Rightarrow> s | Some [] \<Rightarrow> s
      | Some xs \<Rightarrow> s\<lparr>ss_cache := cleanRuleDataSelf xs (ss_cache s)\<rparr>)"

lemma with_handler_cache [cache_simps]: "ss_cache (fst (with_handler hm n sel d s)) = ss_cache s"
  by (simp add: with_handler_def split: option.splits prod.splits)

lemma subscriber_cache [cache_simps]:
  "ss_cache (fst (onSubscribe hm p s)) = cachePluginData p (ss_cache s)"
  "ss_cache (fst (unSubscribe hm p s)) = removePluginData p (ss_cache s)"
  "ss_cache (fst (onSelectorSubscribe hm sd s)) = cacheSelectData sd (ss_cache s)"
  "ss_cache (fst (unSelectorSubscribe hm sd s)) = removeSelectData sd (ss_cache s)"
  "ss_cache (fst (onRuleSubscribe hm rd s)) = cacheRuleData rd (ss_cache s)"
  "ss_cache (fst (unRuleSubscribe hm rd s)) = removeRuleData rd (ss_cache s)"
  by (simp_all add: onSubscribe_def unSubscribe_def onSelectorSubscribe_def unSelectorSubscribe_def
        onRuleSubscribe_def unRuleSubscribe_def with_handler_cache)

subsection \<open>Sequences of updates\<close>

text \<open>The calls a synchronisation service can make on the subscriber.\<close>

datatype sub_event =
    OnPlugin plugin_data | UnPlugin plugin_data
  | RefreshPluginAll | RefreshPluginSelf "plugin_data list option"
  | OnSelector selector_data | UnSelector selector_data
  | RefreshSelectorAll | RefreshSelectorSelf "selector_data list option"
  | OnRule rule_data | UnRule rule_data
  | RefreshRuleAll | RefreshRuleSelf "rule_data list option"

fun apply_event ::
  "(string \<rightharpoonup> 'h plugin_data_handler) \<Rightarrow> sub_event \<Rightarrow> 'h subscriber_state \<Rightarrow> 'h subscriber_state \<times> jexn option" where
  "apply_event hm (OnPlugin d) s = onSubscribe hm d s"
| "apply_event hm (UnPlugin d) s = unSubscribe hm d s"
| "apply_event hm RefreshPluginAll s = (refreshPluginDataAll s, None)"
| "apply_event hm (RefreshPluginSelf ds) s = (refreshPluginDataSelf ds s, None)"
| "apply_event hm (OnSelector d) s = onSelectorSubscribe hm d s"
| "apply_event hm (UnSelector d) s = unSelectorSubscribe hm d s"
| "apply_event hm RefreshSelectorAll s = (refreshSelectorDataAll s, None)"
| "apply_event hm (RefreshSelectorSelf ds) s = (refreshSelectorDataSelf ds s, None)"
| "apply_event hm (OnRule d) s = onRuleSubscribe hm d s"
| "apply_event hm (UnRule d) s = unRuleSubscribe hm d s"
| "apply_event hm RefreshRuleAll s = (refreshRuleDataAll s, None)"
| "apply_event hm (RefreshRuleSelf ds) s = (refreshRuleDataSelf ds s, None)"

definition run_events ::
  "(string \<rightharpoonup> 'h plugin_data_handler) \<Rightarrow> sub_event list \<Rightarrow> 'h subscriber_state \<Rightarrow> 'h subscriber_state" where
  "run_events hm evs s = fold (\<lambda>ev s. fst (apply_event hm ev s)) evs s"

definition start_state :: "'h \<Rightarrow> 'h subscriber_state" where
  "start_state h = \<lparr>ss_cache = empty_base_data_cache, ss_handlers = h\<rparr>"

text \<open>
  Well-formed caches: each entry is filed under its own key, the lists are ordered by the sort
  number and hold an identifier once.
\<close>

definition cache_wf :: "base_data_cache \<Rightarrow> bool" where
  "cache_wf c \<longleftrightarrow>
     (\<forall>k p. PLUGIN_MAP c k = Some p \<longrightarrow> pd_name p = k) \<and>
     (\<forall>k xs. SELECTOR_MAP c k = Some xs \<longrightarrow> sorted (map sd_sort xs) \<and> distinct (map sd_id xs)
               \<and> (\<forall>x\<in>set xs. sd_pluginName x = k)) \<and>
     (\<forall>k xs. RULE_MAP c k = Some xs \<longrightarrow> sorted (map rd_sort xs) \<and> distinct (map rd_id xs)
               \<and> (\<forall>x\<in>set xs. rd_selectorId x = k))"

lemma cache_wf_iff: "cache_wf c \<longleftrightarrow> plc.filed c \<and> slc.wf c \<and> rlc.wf c"
  unfolding cache_wf_def plc.filed_def slc.wf_def rlc.wf_def slc.members_def rlc.members_def
    obtainPluginData_def obtainSelectorData_def obtainRuleData_def the_group_def
  by (auto split: option.splits)

lemma cache_wf_cong:
  "PLUGIN_MAP c = PLUGIN_MAP c' \<Longrightarrow> plc.filed c = plc.filed c'"
  "SELECTOR_MAP c = SELECTOR_MAP c' \<Longrightarrow> slc.wf c = slc.wf c'"
  "RULE_MAP c = RULE_MAP c' \<Longrightarrow> rlc.wf c = rlc.wf c'"
  by (simp_all add: plc.filed_def slc.wf_def rlc.wf_def slc.members_def rlc.members_def
      obtainPluginData_def obtainSelectorData_def obtainRuleData_def)

lemma cache_wf_ops:
  assumes "cache_wf c"
  shows "cache_wf (cachePluginData p c)" "cache_wf (removePluginData p c)" "cache_wf (cleanPluginData c)"
    "cache_wf (cacheSelectData sd c)" "cache_wf (removeSelectData sd c)" "cache_wf (cleanSelectorData c)"
    "cache_wf (cacheRuleData rd c)" "cache_wf (removeRuleData rd c)" "cache_wf (cleanRuleData c)"
proof -
  note w = assms [unfolded cache_wf_iff]
  note f = cache_wf_cong [OF refl] cache_frames
  show "cache_wf (cachePluginData p c)" "cache_wf (removePluginData p c)"
    using w by (simp_all add: cache_wf_iff plc.filed_put plc.filed_del
        slc.wf_def rlc.wf_def slc.members_def rlc.members_def obtainSelectorData_def obtainRuleData_def
        cache_frames)
  show "cache_wf (cacheSelectData sd c)" "cache_wf (removeSelectData sd c)"
    using w slc.wf_add [of c sd] slc.wf_del [of c sd]
    by (simp_all add: cache_wf_iff plc.filed_def rlc.wf_def rlc.members_def obtainPluginData_def
        obtainRuleData_def cache_frames)
  show "cache_wf (cacheRuleData rd c)" "cache_wf (removeRuleData rd c)"
    using w rlc.wf_add [of c rd] rlc.wf_del [of c rd]
    by (simp_all add: cache_wf_iff plc.filed_def slc.wf_def slc.members_def obtainPluginData_def
        obtainSelectorData_def cache_frames)
  show "cache_wf (cleanPluginData c)" "cache_wf (cleanSelectorData c)" "cache_wf (cleanRuleData c)"
    using assms by (simp_all add: cache_wf_def cleanPluginData_def cleanSelectorData_def cleanRuleData_def)
qed

lemma cache_wf_fold:
  "(\<And>d c. cache_wf c \<Longrightarrow> cache_wf (f d c)) \<Longrightarrow> cache_wf c \<Longrightarrow> cache_wf (fold f ds c)"
  by (induction ds arbitrary: c) simp_all

lemma cache_wf_event: "cache_wf (ss_cache s) \<Longrightarrow> cache_wf (ss_cache (fst (apply_event hm ev s)))"
  by (cases ev)
    (auto simp: subscriber_cache cache_wf_ops refreshPluginDataAll_def refreshPluginDataSelf_def
      refreshSelectorDataAll_def refreshSelectorDataSelf_def refreshRuleDataAll_def refreshRuleDataSelf_def
      cleanPluginDataSelf_def cleanSelectorDataSelf_def cleanRuleDataSelf_def
      intro!: cache_wf_fold split: option.splits list.splits)

lemma cache_wf_run_events:
  "cache_wf (ss_cache s) \<Longrightarrow> cache_wf (ss_cache (run_events hm evs s))"
  by (induction evs arbitrary: s) (simp_all add: run_events_def cache_wf_event)

text \<open>
  C17: Whatever sequence of subscribe, unsubscribe and refresh calls the synchronisation services
  make, with whatever plugin handlers (which may throw), the gateway's caches stay well formed:
  every plugin is stored under its own name, and each selector list (per plugin) and rule list
  (per selector) is ordered by sort number, holds each id once and only entries of its own key.
\<close>

theorem cache_wf_reachable: "cache_wf (ss_cache (run_events hm evs (start_state h)))"
proof (rule cache_wf_run_events)
  show "cache_wf (ss_cache (start_state h))"
    by (simp add: cache_wf_def start_state_def empty_base_data_cache_def)
qed

text \<open>A snapshot published after a full refresh.\<close>

definition publish_selectors :: "selector_data list \<Rightarrow> sub_event list" where
  "publish_selectors ds = RefreshSelectorAll # map OnSelector ds"

definition publish_rules :: "rule_data list \<Rightarrow> sub_event list" where
  "publish_rules ds = RefreshRuleAll # map OnRule ds"

lemma run_events_cache_fold:
  "ss_cache (run_events hm (map OnSelector ds) s) = fold cacheSelectData ds (ss_cache s)"
  "ss_cache (run_events hm (map OnRule rs) s) = fold cacheRuleData rs (ss_cache s)"
proof -
  show "ss_cache (run_events hm (map OnSelector ds) s) = fold cacheSelectData ds (ss_cache s)"
    by (induction ds arbitrary: s) (simp_all add: run_events_def subscriber_cache)
  show "ss_cache (run_events hm (map OnRule rs) s) = fold cacheRuleData rs (ss_cache s)"
    by (induction rs arbitrary: s) (simp_all add: run_events_def subscriber_cache)
qed

text \<open>
  A full refresh followed by the publication of a snapshot leaves, for every selector, exactly
  the snapshot's rules of that selector in the (stable) order of their sort numbers, whatever
  the cache held before; likewise for the selectors of every plugin.
\<close>

theorem full_refresh_is_snapshot:
  assumes "distinct (map rd_id rs)" and "distinct (map sd_id ds)"
  shows "the_group (obtainRuleData (ss_cache (run_events hm (publish_rules rs) s)) sel)
           = sort_key rd_sort (filter (\<lambda>r. rd_selectorId r = sel) rs)
       \<and> the_group (obtainSelectorData (ss_cache (run_events hm (publish_selectors ds) s)) plug)
           = sort_key sd_sort (filter (\<lambda>d. sd_pluginName d = plug) ds)"
proof
  have "run_events hm (publish_rules rs) s = run_events hm (map OnRule rs) (refreshRuleDataAll s)"
    by (simp add: run_events_def publish_rules_def)
  moreover have "rlc.members (ss_cache (refreshRuleDataAll s)) sel = []"
    by (simp add: refreshRuleDataAll_def cleanRuleData_def rlc.members_def obtainRuleData_def)
  ultimately show "the_group (obtainRuleData (ss_cache (run_events hm (publish_rules rs) s)) sel)
           = sort_key rd_sort (filter (\<lambda>r. rd_selectorId r = sel) rs)"
    using assms(1) rlc.snapshot by (simp add: run_events_cache_fold rlc.members_def)
next
  have "run_events hm (publish_selectors ds) s = run_events hm (map OnSelector ds) (refreshSelectorDataAll s)"
    by (simp add: run_events_def publish_selectors_def)
  moreover have "slc.members (ss_cache (refreshSelectorDataAll s)) plug = []"
    by (simp add: refreshSelectorDataAll_def cleanSelectorData_def slc.members_def obtainSelectorData_def)
  ultimately show "the_group (obtainSelectorData (ss_cache (run_events hm (publish_selectors ds) s)) plug)
           = sort_key sd_sort (filter (\<lambda>d. sd_pluginName d = plug) ds)"
    using assms(2) slc.snapshot by (simp add: run_events_cache_fold slc.members_def)
qed

definition sample_rule :: "string \<Rightarrow> int \<Rightarrow> rule_data" where
  "sample_rule i n = \<lparr>rd_id = i, rd_name = ''r'', rd_pluginName = ''divide'', rd_selectorId = ''s'',
     rd_matchMode = 0, rd_sort = n, rd_enabled = True, rd_loged = True, rd_handle = None,
     rd_conditionDataList = None\<rparr>"

lemma full_refresh_is_snapshot_witness:
  "the_group (obtainRuleData (ss_cache (run_events Map.empty
      (publish_rules [sample_rule ''a'' 2, sample_rule ''b'' 1]) (start_state ()))) ''s'') = [sample_rule ''b'' 1, sample_rule ''a'' 2]"
proof -
  have "distinct (map rd_id [sample_rule ''a'' 2, sample_rule ''b'' 1])" by (simp add: sample_rule_def)
  moreover have "distinct (map sd_id [])" by simp
  ultimately show ?thesis
    using full_refresh_is_snapshot [of "[sample_rule ''a'' 2, sample_rule ''b'' 1]" "[]" Map.empty "start_state ()" "''s''" "''p''"]
    by (simp add: sample_rule_def)
qed

subsection \<open>Application keys: \<open>SignAuthDataCache\<close>\<close>

type_synonym auth_cache = "string \<rightharpoonup> app_auth_data"

definition cacheAuthData :: "app_auth_data \<Rightarrow> auth_cache \<Rightarrow> auth_cache" where
  "cacheAuthData d m = m(aa_appKey d \<mapsto> d)"

definition removeAuthData :: "app_auth_data \<Rightarrow> auth_cache \<Rightarrow> auth_cache" where
  "removeAuthData d m = remove_key (aa_appKey d) m"

definition obtainAuthData :: "auth_cache \<Rightarrow> string \<Rightarrow> app_auth_data option" where
  "obtainAuthData m appKey = m appKey"

definition auth_onSubscribe :: "app_auth_data \<Rightarrow> auth_cache \<Rightarrow> auth_cache" where
  "auth_onSubscribe = cacheAuthData"

definition auth_unSubscribe :: "app_auth_data \<Rightarrow> auth_cache \<Rightarrow> auth_cache" where
  "auth_unSubscribe = removeAuthData"

interpretation sac: keyed_cache auth_onSubscribe auth_unSubscribe obtainAuthData aa_appKey
  by unfold_locales
    (auto simp: cacheAuthData_def removeAuthData_def obtainAuthData_def auth_onSubscribe_def
       auth_unSubscribe_def)

end
