(* ===== verification/PluginChain.thy ===== *)
theory PluginChain
  imports Conditions DataCache
begin

text \<open>
  The plugin chain of \<open>SoulWebHandler\<close>, the ordering of the plugins in \<open>SoulConfiguration\<close>, and
  \<open>AbstractSoulPlugin.execute\<close>: look up the plugin, its selectors and rules, pick the first match,
  let the plugin visit them and run it. The plugins keep what they visited in fields of the
  (shared) plugin object; the two steps of a request are therefore also modelled separately, to
  state what an interleaving of two requests does.
\<close>

subsection \<open>The chain\<close>

text \<open>The state \<open>'x\<close> a plugin acts on: the exchange, with whatever mutable state the plugin has.\<close>

record 'x soul_plugin =
  sp_named :: string
  sp_order :: int
  sp_skip :: "'x \<Rightarrow> bool jres"
  sp_execute :: "'x \<Rightarrow> 'x action"

text \<open>\<open>soulWebHandler\<close>: plugins in the order of \<open>getOrder\<close>, stably.\<close>

definition soul_plugins :: "'x soul_plugin list \<Rightarrow> 'x soul_plugin list" where
  "soul_plugins pluginList = sort_key sp_order pluginList"

text \<open>What a run of the chain leaves: the exception if one ended it, the state, the plugins executed.\<close>

record 'x chain_result =
  cr_error :: "jexn option"
  cr_state :: 'x
  cr_executed :: "string list"

definition did_run :: "string \<Rightarrow> 'x chain_result \<Rightarrow> 'x chain_result" where
  "did_run n r = r\<lparr>cr_executed := n # cr_executed r\<rparr>"

text \<open>\<open>DefaultSoulPluginChain.execute\<close>, \<open>index\<close> being the field of the chain object.\<close>

function chain_execute :: "'x soul_plugin list \<Rightarrow> nat \<Rightarrow> 'x \<Rightarrow> 'x chain_result" where
  "chain_execute plugins index ex =
     (if index < length plugins then
        (let plugin = plugins ! index in
         case sp_skip plugin ex of
           Inl e \<Rightarrow> \<lparr>cr_error = Some e, cr_state = ex, cr_executed = []\<rparr>
         | Inr skip \<Rightarrow>
             if skip then chain_execute plugins (index + 1) ex
             else did_run (sp_named plugin) (case sp_execute plugin ex of
                 Finish ex' \<Rightarrow> \<lparr>cr_error = None, cr_state = ex', cr_executed = []\<rparr>
               | Fail e ex' \<Rightarrow> \<lparr>cr_error = Some e, cr_state = ex', cr_executed = []\<rparr>
               | Next ex' \<Rightarrow> chain_execute plugins (index + 1) ex'
               | NextThen ex' post \<Rightarrow>
                   (let r = chain_execute plugins (index + 1) ex' in
                    case cr_error r of
                      Some e \<Rightarrow> r
                    | None \<Rightarrow> (case post (cr_state r) of
                        (e, ex'') \<Rightarrow> r\<lparr>cr_error := e, cr_state := ex''\<rparr>))))
      else \<lparr>cr_error = None, cr_state = ex, cr_executed = []\<rparr>)"
  by pat_completeness auto

termination
  by (relation "measure (\<lambda>(ps, i, _). length ps - i)") auto

declare chain_execute.simps [simp del]

definition web_handle :: "'x soul_plugin list \<Rightarrow> 'x \<Rightarrow> 'x chain_result" where
  "web_handle pluginList ex = chain_execute (soul_plugins pluginList) 0 ex"

subsection \<open>\<open>AbstractSoulPlugin\<close>\<close>

definition filterSelector :: "match_env \<Rightarrow> exchange \<Rightarrow> selector_data \<Rightarrow> bool jres" where
  "filterSelector env ex sd =
     (if sd_type sd = selector_type_code ST_CUSTOM_FLOW then
        (if the_group (sd_conditionList sd) = [] then Inr False
         else match_conditions env (sd_matchMode sd) (sd_conditionList sd) ex)
      else Inr True)"

definition matchSelector :: "match_env \<Rightarrow> exchange \<Rightarrow> selector_data list \<Rightarrow> selector_data option jres" where
  "matchSelector env ex sds =
     find_first (\<lambda>sd. if sd_enabled sd then filterSelector env ex sd else Inr False) sds"

definition filterRule :: "match_env \<Rightarrow> exchange \<Rightarrow> rule_data \<Rightarrow> bool jres" where
  "filterRule env ex rd =
     (if rd_enabled rd then match_conditions env (rd_matchMode rd) (rd_conditionDataList rd) ex else Inr False)"

definition matchRule :: "match_env \<Rightarrow> exchange \<Rightarrow> rule_data list \<Rightarrow> rule_data option jres" where
  "matchRule env ex rds = find_first (filterRule env ex) rds"

text \<open>
  What a concrete plugin supplies: its name, what it keeps of a visited selector and rule in its
  fields \<open>'f\<close>, and \<open>doExecute\<close> over the exchange and those fields. A visit may throw, leaving the
  fields as far as it got.
\<close>

record 'f plugin_impl =
  pi_named :: string
  pi_visitSelector :: "selector_data \<Rightarrow> 'f \<Rightarrow> 'f \<times> jexn option"
  pi_visitRule :: "rule_data \<Rightarrow> 'f \<Rightarrow> 'f \<times> jexn option"
  pi_doExecute :: "exchange \<times> 'f \<Rightarrow> (exchange \<times> 'f) action"

fun lift_action :: "'f \<Rightarrow> exchange action \<Rightarrow> (exchange \<times> 'f) action" where
  "lift_action f (Finish ex) = Finish (ex, f)"
| "lift_action f (Fail e ex) = Fail e (ex, f)"
| "lift_action f (Next ex) = Next (ex, f)"
| "lift_action f (NextThen ex post) =
     NextThen (ex, f) (\<lambda>(ex', f'). case post ex' of (e, ex'') \<Rightarrow> (e, (ex'', f')))"

text \<open>The rule: for a full-flow selector the last one, otherwise the first that matches.\<close>

definition choose_rule ::
  "match_env \<Rightarrow> exchange \<Rightarrow> selector_data \<Rightarrow> rule_data list \<Rightarrow> rule_data option jres" where
  "choose_rule env ex sd rules =
     (if sd_type sd = selector_type_code ST_FULL_FLOW then Inr (Some (last rules))
      else matchRule env ex rules)"

text \<open>
  The part of \<open>execute\<close> before \<open>doExecute\<close>: it ends the exchange, hands on, fails, or has visited a
  selector and a rule and is ready to run.
\<close>

datatype 'f prepared = Ready exchange 'f | Ended "(exchange \<times> 'f) action"

definition abstract_prepare ::
  "match_env \<Rightarrow> base_data_cache \<Rightarrow> 'f plugin_impl \<Rightarrow> exchange \<times> 'f \<Rightarrow> 'f prepared" where
  "abstract_prepare env cache impl exf =
     (case exf of (ex, f) \<Rightarrow>
      let pluginName = pi_named impl in
      case obtainPluginData cache pluginName of
        None \<Rightarrow> Ended (Next (ex, f))
      | Some pluginData \<Rightarrow>
          if \<not> pd_enabled pluginData then Ended (Next (ex, f))
          else (let selectors = the_group (obtainSelectorData cache pluginName) in
            if selectors = [] then Ended (lift_action f (checkSelector pluginName ex))
            else (case bindr (matchSelector env ex selectors) deref of
                Inl e \<Rightarrow> Ended (Fail e (ex, f))
              | Inr selectorData \<Rightarrow>
                 (case pi_visitSelector impl selectorData f of
                    (f1, Some e) \<Rightarrow> Ended (Fail e (ex, f1))
                  | (f1, None) \<Rightarrow>
                     (let rules = the_group (obtainRuleData cache (sd_id selectorData)) in
                      if rules = [] then Ended (lift_action f1 (checkRule pluginName ex))
                      else (case bindr (choose_rule env ex selectorData rules) deref of
                          Inl e \<Rightarrow> Ended (Fail e (ex, f1))
                        | Inr rule \<Rightarrow>
                           (case pi_visitRule impl rule f1 of
                              (f2, Some e) \<Rightarrow> Ended (Fail e (ex, f2))
                            | (f2, None) \<Rightarrow> Ready ex f2)))))))"

definition abstract_execute ::
  "match_env \<Rightarrow> base_data_cache \<Rightarrow> 'f plugin_impl \<Rightarrow> exchange \<times> 'f \<Rightarrow> (exchange \<times> 'f) action" where
  "abstract_execute env cache impl exf =
     (case abstract_prepare env cache impl exf of
        Ended a \<Rightarrow> a
      | Ready ex f \<Rightarrow> pi_doExecute impl (ex, f))"

subsection \<open>The chain: a reference semantics\<close>

text \<open>The chain as a recursion on the plugins that are left.\<close>

fun run_plugins :: "'x soul_plugin list \<Rightarrow> 'x \<Rightarrow> 'x chain_result" where
  "run_plugins [] ex = \<lparr>cr_error = None, cr_state = ex, cr_executed = []\<rparr>"
| "run_plugins (p # ps) ex =
     (case sp_skip p ex of
        Inl e \<Rightarrow> \<lparr>cr_error = Some e, cr_state = ex, cr_executed = []\<rparr>
      | Inr True \<Rightarrow> run_plugins ps ex
      | Inr False \<Rightarrow> did_run (sp_named p) (case sp_execute p ex of
            Finish ex' \<Rightarrow> \<lparr>cr_error = None, cr_state = ex', cr_executed = []\<rparr>
          | Fail e ex' \<Rightarrow> \<lparr>cr_error = Some e, cr_state = ex', cr_executed = []\<rparr>
          | Next ex' \<Rightarrow> run_plugins ps ex'
          | NextThen ex' post \<Rightarrow>
              (let r = run_plugins ps ex' in
               if cr_error r = None then
                 r\<lparr>cr_error := fst (post (cr_state r)), cr_state := snd (post (cr_state r))\<rparr>
               else r)))"

lemma chain_execute_run: "chain_execute ps i ex = run_plugins (drop i ps) ex"
proof (induction ps i ex rule: chain_execute.induct)
  case (1 ps i ex)
  show ?case
  proof (cases "i < length ps")
    case False
    then show ?thesis by (simp add: chain_execute.simps [of ps i])
  next
    case True
    have d: "drop i ps = ps ! i # drop (i + 1) ps" using True by (simp add: Cons_nth_drop_Suc)
    show ?thesis
    proof (cases "sp_skip (ps ! i) ex")
      case (Inl e)
      then show ?thesis using True by (simp add: chain_execute.simps [of ps i] d)
    next
      case (Inr sk)
      show ?thesis
      proof (cases sk)
        case True
        note sk = this
        have "chain_execute ps (i + 1) ex = run_plugins (drop (i + 1) ps) ex"
          by (rule 1(1) [OF \<open>i < length ps\<close> refl Inr sk])
        then show ?thesis using \<open>i < length ps\<close> Inr sk
          by (simp add: chain_execute.simps [of ps i] d)
      next
        case False
        note IH = 1(2,3) [OF \<open>i < length ps\<close> refl Inr False]
        show ?thesis using \<open>i < length ps\<close> Inr False IH
          by (subst chain_execute.simps, subst d)
            (auto simp: Let_def split: action.splits option.splits prod.splits)
      qed
    qed
  qed
qed

lemma sorted_of_subseq: "subseq xs ys \<Longrightarrow> sorted ys \<Longrightarrow> sorted xs"
  by (auto simp: subseq_conv_nths intro: sorted_nths)

lemma mset_of_subseq: "subseq xs ys \<Longrightarrow> mset xs \<subseteq># mset ys"
  by (induction rule: list_emb.induct) (auto intro: subset_mset.order_trans)

lemma run_plugins_subseq:
  "\<exists>qs. subseq qs ps \<and> cr_executed (run_plugins ps ex) = map sp_named qs"
proof (induction ps arbitrary: ex)
  case Nil
  then show ?case by simp
next
  case (Cons p ps)
  show ?case
  proof (cases "sp_skip p ex")
    case (Inl e)
    then show ?thesis by (intro exI [of _ "[]"]) simp
  next
    case (Inr sk)
    have rest: "\<exists>qs. subseq qs (p # ps) \<and> cr_executed (run_plugins (p # ps) ex) = map sp_named qs"
      if "cr_executed (run_plugins (p # ps) ex) = sp_named p # cr_executed (run_plugins ps x)" for x
    proof -
      obtain qs where "subseq qs ps" "cr_executed (run_plugins ps x) = map sp_named qs"
        using Cons.IH [of x] by blast
      with that show ?thesis by (intro exI [of _ "p # qs"]) simp
    qed
    show ?thesis
    proof (cases sk)
      case True
      obtain qs where "subseq qs ps" "cr_executed (run_plugins ps ex) = map sp_named qs"
        using Cons.IH [of ex] by blast
      with Inr True show ?thesis by (intro exI [of _ qs]) auto
    next
      case False
      show ?thesis
      proof (cases "sp_execute p ex")
        case (Next x)
        with Inr False show ?thesis by (intro rest [of x]) (simp add: did_run_def)
      next
        case (NextThen x post)
        with Inr False show ?thesis by (intro rest [of x]) (simp add: did_run_def Let_def)
      next
        case (Finish x)
        with Inr False have "cr_executed (run_plugins (p # ps) ex) = map sp_named [p]" by (simp add: did_run_def)
        then show ?thesis by (intro exI [of _ "[p]"]) simp
      next
        case (Fail e x)
        with Inr False have "cr_executed (run_plugins (p # ps) ex) = map sp_named [p]" by (simp add: did_run_def)
        then show ?thesis by (intro exI [of _ "[p]"]) simp
      qed
    qed
  qed
qed

text \<open>
  C19: The plugins that run for a request are a selection of the registered plugins in ascending
  \<open>getOrder\<close>, each at most once per registration: the chain never goes back, never repeats and,
  for every list of plugins whatever they do, comes to an end.
\<close>

theorem chain_runs_in_order:
  "\<exists>qs. subseq qs (soul_plugins ps) \<and> cr_executed (web_handle ps ex) = map sp_named qs
      \<and> sorted (map sp_order qs) \<and> mset qs \<subseteq># mset ps"
proof -
  obtain qs where qs: "subseq qs (soul_plugins ps)"
    "cr_executed (run_plugins (soul_plugins ps) ex) = map sp_named qs"
    using run_plugins_subseq [of "soul_plugins ps" ex] by blast
  have "subseq (map sp_order qs) (map sp_order (soul_plugins ps))" using qs(1) by (rule subseq_map)
  moreover have "sorted (map sp_order (soul_plugins ps))" by (simp add: soul_plugins_def)
  ultimately have "sorted (map sp_order qs)" by (rule sorted_of_subseq)
  moreover have "mset qs \<subseteq># mset ps"
    using mset_of_subseq [OF qs(1)] by (simp add: soul_plugins_def)
  ultimately show ?thesis using qs by (auto simp: web_handle_def chain_execute_run)
qed

lemma run_plugins_append_cut:
  assumes "\<forall>x. sp_skip p x = Inr False \<and> (\<exists>y. sp_execute p x = Finish y \<or> (\<exists>e. sp_execute p x = Fail e y))"
  shows "run_plugins (us @ p # vs) ex = run_plugins (us @ [p]) ex"
proof (induction us arbitrary: ex)
  case Nil
  from assms obtain y where "sp_skip p ex = Inr False"
    "sp_execute p ex = Finish y \<or> (\<exists>e. sp_execute p ex = Fail e y)" by blast
  then show ?case by auto
next
  case (Cons u us)
  then show ?case by (auto split: sum.splits bool.splits action.splits)
qed

text \<open>
  A plugin that ends the exchange ends the chain. If a plugin in the list does not skip and
  finishes (or fails) the exchange, the plugins after it are irrelevant: the result is the same
  as if they were not installed.
\<close>

theorem chain_cut:
  assumes "\<forall>x. sp_skip p x = Inr False \<and> (\<exists>y. sp_execute p x = Finish y \<or> (\<exists>e. sp_execute p x = Fail e y))"
  shows "chain_execute (us @ p # vs) 0 ex = chain_execute (us @ [p]) 0 ex"
  using run_plugins_append_cut [OF assms] by (simp add: chain_execute_run)

definition stop_plugin :: "string \<Rightarrow> exchange soul_plugin" where
  "stop_plugin n = \<lparr>sp_named = n, sp_order = 10, sp_skip = (\<lambda>_. Inr False),
     sp_execute = (\<lambda>ex. Finish (result_of SR_SIGN_IS_NOT_PASS ex))\<rparr>"

definition pass_plugin :: "string \<Rightarrow> exchange soul_plugin" where
  "pass_plugin n = \<lparr>sp_named = n, sp_order = 0, sp_skip = (\<lambda>_. Inr False), sp_execute = Next\<rparr>"

lemma chain_cut_witness:
  "chain_execute ([pass_plugin ''global''] @ stop_plugin ''sign'' # [pass_plugin ''divide'']) 0 (new_exchange sample_request)
     = chain_execute ([pass_plugin ''global''] @ [stop_plugin ''sign'']) 0 (new_exchange sample_request)"
  by (rule chain_cut) (simp add: stop_plugin_def)

subsection \<open>First match\<close>

definition selector_matches :: "match_env \<Rightarrow> exchange \<Rightarrow> selector_data \<Rightarrow> bool jres" where
  "selector_matches env ex sd = (if sd_enabled sd then filterSelector env ex sd else Inr False)"

lemma matchSelector_eq: "matchSelector env ex sds = find_first (selector_matches env ex) sds"
  by (simp add: matchSelector_def selector_matches_def [abs_def])

text \<open>
  Selector and rule choice respect the priorities. In every cache the synchronisation can
  produce, the selector a request is matched to has the smallest sort number among the enabled
  selectors of the plugin that match it, and the rule chosen for a custom-flow selector the
  smallest among its matching rules.
\<close>

theorem match_has_priority:
  assumes "cache_wf c" and "obtainSelectorData c p = Some sds" and "obtainRuleData c s = Some rds"
    and "matchSelector env ex sds = Inr (Some sd)" and "matchRule env ex rds = Inr (Some rd)"
  shows "selector_matches env ex sd = Inr True \<and> sd_pluginName sd = p \<and>
     (\<forall>x\<in>set sds. selector_matches env ex x = Inr True \<longrightarrow> sd_sort sd \<le> sd_sort x) \<and>
     filterRule env ex rd = Inr True \<and> rd_selectorId rd = s \<and>
     (\<forall>x\<in>set rds. filterRule env ex x = Inr True \<longrightarrow> rd_sort rd \<le> rd_sort x)"
proof -
  from assms(1-3) have so: "sorted (map sd_sort sds)" "sorted (map rd_sort rds)"
    and key: "\<forall>x\<in>set sds. sd_pluginName x = p" "\<forall>x\<in>set rds. rd_selectorId x = s"
    by (simp_all add: cache_wf_def obtainSelectorData_def obtainRuleData_def)
  from find_first_SomeD [OF assms(4) [unfolded matchSelector_eq]] obtain us vs where
    s: "sds = us @ sd # vs" "selector_matches env ex sd = Inr True"
      "\<forall>u\<in>set us. selector_matches env ex u = Inr False" by blast
  from find_first_SomeD [OF assms(5) [unfolded matchRule_def]] obtain us' vs' where
    r: "rds = us' @ rd # vs'" "filterRule env ex rd = Inr True"
      "\<forall>u\<in>set us'. filterRule env ex u = Inr False" by blast
  have "sd_sort sd \<le> sd_sort x" if "x \<in> set sds" "selector_matches env ex x = Inr True" for x
  proof -
    have "x \<notin> set us" using that(2) s(3) by auto
    with that(1) s(1) so(1) show ?thesis by (auto simp: sorted_append)
  qed
  moreover have "rd_sort rd \<le> rd_sort x" if "x \<in> set rds" "filterRule env ex x = Inr True" for x
  proof -
    have "x \<notin> set us'" using that(2) r(3) by auto
    with that(1) r(1) so(2) show ?thesis by (auto simp: sorted_append)
  qed
  ultimately show ?thesis using s r key by auto
qed

definition sample_selector :: "string \<Rightarrow> int \<Rightarrow> int \<Rightarrow> selector_data" where
  "sample_selector i n t = \<lparr>sd_id = i, sd_pluginId = ''5'', sd_pluginName = ''divide'', sd_name = i,
     sd_matchMode = 0, sd_type = t, sd_sort = n, sd_enabled = True, sd_loged = True, sd_continued = True,
     sd_handle = None, sd_conditionList = Some [sample_condition]\<rparr>"

definition sample_plugin_data :: plugin_data where
  "sample_plugin_data = \<lparr>pd_id = ''5'', pd_name = ''divide'', pd_config = None, pd_role = 0, pd_enabled = True\<rparr>"

definition sample_rule_on :: "string \<Rightarrow> string \<Rightarrow> rule_data" where
  "sample_rule_on i s = \<lparr>rd_id = i, rd_name = i, rd_pluginName = ''divide'', rd_selectorId = s,
     rd_matchMode = 0, rd_sort = 1, rd_enabled = True, rd_loged = True, rd_handle = Some i,
     rd_conditionDataList = Some [sample_condition]\<rparr>"

definition sample_cache :: base_data_cache where
  "sample_cache = \<lparr>PLUGIN_MAP = [''divide'' \<mapsto> sample_plugin_data],
     SELECTOR_MAP = [''divide'' \<mapsto> [sample_selector ''s1'' 1 1, sample_selector ''s2'' 2 1]],
     RULE_MAP = [''s1'' \<mapsto> [sample_rule_on ''r1'' ''s1''], ''s2'' \<mapsto> [sample_rule_on ''r2'' ''s2'']]\<rparr>"

lemma sample_cache_wf: "cache_wf sample_cache"
  by (simp add: cache_wf_def sample_cache_def sample_plugin_data_def sample_selector_def sample_rule_on_def)

lemma match_has_priority_witness:
  "sd_sort (sample_selector ''s1'' 1 1) \<le> sd_sort (sample_selector ''s2'' 2 1)"
proof -
  let ?ex = "new_exchange sample_request"
  let ?sds = "[sample_selector ''s1'' 1 1, sample_selector ''s2'' 2 1]"
  have "obtainSelectorData sample_cache ''divide'' = Some ?sds"
    "obtainRuleData sample_cache ''s1'' = Some [sample_rule_on ''r1'' ''s1'']"
    by (simp_all add: sample_cache_def obtainSelectorData_def obtainRuleData_def)
  moreover have "matchSelector sample_env ?ex ?sds = Inr (Some (sample_selector ''s1'' 1 1))" by code_simp
  moreover have "matchRule sample_env ?ex [sample_rule_on ''r1'' ''s1''] = Inr (Some (sample_rule_on ''r1'' ''s1''))"
    by code_simp
  moreover have "selector_matches sample_env ?ex (sample_selector ''s2'' 2 1) = Inr True" by code_simp
  ultimately show ?thesis
    using match_has_priority [OF sample_cache_wf, of "''divide''" ?sds "''s1''"] by auto
qed

subsection \<open>What \<open>AbstractSoulPlugin.execute\<close> does\<close>

text \<open>
  C18: The template runs the plugin on the first match. If the plugin is enabled, the selector \<open>sd\<close> is
  the first of its list that matches, and \<open>rd\<close> is the rule chosen for it, then \<open>execute\<close> is
  \<open>doExecute\<close> on fields that have visited exactly \<open>sd\<close> and then \<open>rd\<close>.
\<close>

theorem execute_on_match:
  assumes "obtainPluginData c (pi_named impl) = Some pd" and "pd_enabled pd"
    and "obtainSelectorData c (pi_named impl) = Some (us @ sd # vs)"
    and "\<forall>u\<in>set us. selector_matches env ex u = Inr False" and "selector_matches env ex sd = Inr True"
    and "obtainRuleData c (sd_id sd) = Some rules" and "rules \<noteq> []"
    and "choose_rule env ex sd rules = Inr (Some rd)"
    and "pi_visitSelector impl sd f = (f1, None)" and "pi_visitRule impl rd f1 = (f2, None)"
  shows "abstract_execute env c impl (ex, f) = pi_doExecute impl (ex, f2)"
proof -
  have "matchSelector env ex (us @ sd # vs) = Inr (Some sd)"
    unfolding matchSelector_eq using assms(4,5) by (intro find_first_SomeI) auto
  with assms show ?thesis by (simp add: abstract_execute_def abstract_prepare_def Let_def)
qed

definition sample_impl :: "string plugin_impl" where
  "sample_impl = \<lparr>pi_named = ''divide'', pi_visitSelector = (\<lambda>sd f. (sd_id sd, None)),
     pi_visitRule = (\<lambda>rd f. (f @ ''/'' @ rd_id rd, None)),
     pi_doExecute = (\<lambda>(ex, f). Finish (ex\<lparr>ex_httpUrl := Some f\<rparr>, f))\<rparr>"

lemma execute_on_match_witness:
  "abstract_execute sample_env sample_cache sample_impl (new_exchange sample_request, [])
     = Finish ((new_exchange sample_request)\<lparr>ex_httpUrl := Some ''s1/r1''\<rparr>, ''s1/r1'')"
proof -
  let ?ex = "new_exchange sample_request"
  have o1: "obtainPluginData sample_cache (pi_named sample_impl) = Some sample_plugin_data"
    "obtainSelectorData sample_cache (pi_named sample_impl) =
      Some ([] @ sample_selector ''s1'' 1 1 # [sample_selector ''s2'' 2 1])"
    "obtainRuleData sample_cache (sd_id (sample_selector ''s1'' 1 1)) = Some [sample_rule_on ''r1'' ''s1'']"
    by (simp_all add: sample_cache_def sample_impl_def obtainPluginData_def obtainSelectorData_def
        obtainRuleData_def sample_selector_def)
  have m: "selector_matches sample_env ?ex (sample_selector ''s1'' 1 1) = Inr True" by code_simp
  have r: "choose_rule sample_env ?ex (sample_selector ''s1'' 1 1) [sample_rule_on ''r1'' ''s1'']
      = Inr (Some (sample_rule_on ''r1'' ''s1''))" by code_simp
  have v: "pi_visitSelector sample_impl (sample_selector ''s1'' 1 1) [] = (''s1'', None)"
    "pi_visitRule sample_impl (sample_rule_on ''r1'' ''s1'') ''s1'' = (''s1/r1'', None)"
    by (simp_all add: sample_impl_def sample_selector_def sample_rule_on_def)
  have "abstract_execute sample_env sample_cache sample_impl (?ex, []) = pi_doExecute sample_impl (?ex, ''s1/r1'')"
    by (rule execute_on_match [OF o1(1) _ o1(2) _ m o1(3) _ r v]) (simp_all add: sample_plugin_data_def)
  then show ?thesis by (simp add: sample_impl_def)
qed

text \<open>
  A request that matches no selector fails. When the plugin is enabled and has selectors but none of
  them matches the request, \<open>execute\<close> ends in a null pointer exception instead of the answer of
  \<open>CheckUtils.checkSelector\<close> or the rest of the chain; and likewise when the selector has rules but
  none of them matches.
\<close>

theorem no_match_is_null_pointer:
  assumes "obtainPluginData c (pi_named impl) = Some pd" and "pd_enabled pd"
    and "obtainSelectorData c (pi_named impl) = Some sds" and "sds \<noteq> []"
  shows "((\<forall>sd\<in>set sds. selector_matches env ex sd = Inr False) \<longrightarrow>
            abstract_execute env c impl (ex, f) = Fail NullPointer (ex, f))
       \<and> (\<forall>sd rules f1. matchSelector env ex sds = Inr (Some sd) \<and> pi_visitSelector impl sd f = (f1, None)
            \<and> obtainRuleData c (sd_id sd) = Some rules \<and> rules \<noteq> []
            \<and> sd_type sd \<noteq> selector_type_code ST_FULL_FLOW
            \<and> (\<forall>rd\<in>set rules. filterRule env ex rd = Inr False) \<longrightarrow>
            abstract_execute env c impl (ex, f) = Fail NullPointer (ex, f1))"
proof (intro conjI impI allI)
  assume "\<forall>sd\<in>set sds. selector_matches env ex sd = Inr False"
  then have "matchSelector env ex sds = Inr None"
    by (simp add: matchSelector_eq find_first_None)
  with assms show "abstract_execute env c impl (ex, f) = Fail NullPointer (ex, f)"
    by (simp add: abstract_execute_def abstract_prepare_def Let_def)
next
  fix sd rules f1
  assume a: "matchSelector env ex sds = Inr (Some sd) \<and> pi_visitSelector impl sd f = (f1, None)
            \<and> obtainRuleData c (sd_id sd) = Some rules \<and> rules \<noteq> []
            \<and> sd_type sd \<noteq> selector_type_code ST_FULL_FLOW
            \<and> (\<forall>rd\<in>set rules. filterRule env ex rd = Inr False)"
  then have "matchRule env ex rules = Inr None" by (simp add: matchRule_def find_first_None)
  with a assms show "abstract_execute env c impl (ex, f) = Fail NullPointer (ex, f1)"
    by (simp add: abstract_execute_def abstract_prepare_def Let_def choose_rule_def)
qed

lemma no_match_is_null_pointer_witness:
  "abstract_execute sample_env
     (sample_cache\<lparr>SELECTOR_MAP := [''divide'' \<mapsto> [(sample_selector ''s1'' 1 1)\<lparr>sd_enabled := False\<rparr>]]\<rparr>)
     sample_impl (new_exchange sample_request, []) = Fail NullPointer (new_exchange sample_request, [])"
proof -
  let ?c = "sample_cache\<lparr>SELECTOR_MAP := [''divide'' \<mapsto> [(sample_selector ''s1'' 1 1)\<lparr>sd_enabled := False\<rparr>]]\<rparr>"
  have o: "obtainPluginData ?c (pi_named sample_impl) = Some sample_plugin_data"
    "obtainSelectorData ?c (pi_named sample_impl) = Some [(sample_selector ''s1'' 1 1)\<lparr>sd_enabled := False\<rparr>]"
    by (simp_all add: sample_cache_def sample_impl_def obtainPluginData_def obtainSelectorData_def)
  have "\<forall>sd\<in>set [(sample_selector ''s1'' 1 1)\<lparr>sd_enabled := False\<rparr>].
      selector_matches sample_env (new_exchange sample_request) sd = Inr False"
    by (simp add: selector_matches_def)
  with no_match_is_null_pointer [OF o(1) _ o(2), of sample_env "new_exchange sample_request" "[]"]
  show ?thesis by (simp add: sample_plugin_data_def)
qed

end
