(* ===== verification/LoadBalance.thy ===== *)
theory LoadBalance
  imports SoulData "HOL-Library.AList"
begin

text \<open>
  The load balancers of the divide plugin (\<open>plugin/divide/balance/spi\<close>): weighted random, smooth
  weighted round robin and consistent hashing. The random generator, the clock and MD5 are
  parameters; \<open>int\<close> and \<open>long\<close> sums wrap as they do in Java. A definition models one call that
  runs alone; the state of the round robin is passed explicitly.
\<close>

subsection \<open>\<open>AbstractLoadBalance.select\<close>\<close>

definition lb_select ::
  "(divide_upstream list \<Rightarrow> 'a \<Rightarrow> divide_upstream jres \<times> 'a) \<Rightarrow> divide_upstream list option \<Rightarrow> 'a \<Rightarrow>
     divide_upstream option jres \<times> 'a" where
  "lb_select doSelect upstreamList st =
     (case upstreamList of
        None \<Rightarrow> (Inr None, st)
      | Some [] \<Rightarrow> (Inr None, st)
      | Some [u] \<Rightarrow> (Inr (Some u), st)
      | Some us \<Rightarrow> (case doSelect us st of (r, st') \<Rightarrow> (bindr r (\<lambda>u. Inr (Some u)), st')))"

subsection \<open>Weighted random\<close>

text \<open>The first loop: total weight and whether all weights are the same.\<close>

fun weight_scan :: "int option \<Rightarrow> int \<Rightarrow> bool \<Rightarrow> divide_upstream list \<Rightarrow> int \<times> bool" where
  "weight_scan prev totalWeight sameWeight [] = (totalWeight, sameWeight)"
| "weight_scan prev totalWeight sameWeight (u # us) =
     (let weight = du_weight u;
          same = (if sameWeight then (case prev of Some p \<Rightarrow> weight = p | None \<Rightarrow> True) else False)
      in weight_scan (Some weight) (wrap32 (totalWeight + weight)) same us)"

text \<open>The second loop: the segment the offset falls into.\<close>

fun pick_segment :: "int \<Rightarrow> divide_upstream list \<Rightarrow> divide_upstream option" where
  "pick_segment offset [] = None"
| "pick_segment offset (u # us) =
     (let offset' = wrap32 (offset - du_weight u)
      in if offset' < 0 then Some u else pick_segment offset' us)"

text \<open>
  \<open>rnd k n\<close> is the answer of the \<open>k\<close>-th call \<open>RANDOM.nextInt(n)\<close>, which throws for a bound that
  is not positive.
\<close>

definition nextInt :: "(nat \<Rightarrow> int \<Rightarrow> int) \<Rightarrow> nat \<Rightarrow> int \<Rightarrow> int jres" where
  "nextInt rnd k n = (if n \<le> 0 then Inl (IllegalArgument ''bound must be positive'') else Inr (rnd k n))"

definition list_get :: "'a list \<Rightarrow> int \<Rightarrow> 'a jres" where
  "list_get xs i = (if 0 \<le> i \<and> i < int (length xs) then Inr (xs ! nat i) else Inl IndexOutOfBounds)"

definition random_doSelect :: "(nat \<Rightarrow> int \<Rightarrow> int) \<Rightarrow> divide_upstream list \<Rightarrow> divide_upstream jres" where
  "random_doSelect rnd upstreamList =
     (case weight_scan None 0 True upstreamList of
        (totalWeight, sameWeight) \<Rightarrow>
          if 0 < totalWeight \<and> \<not> sameWeight then
            bindr (nextInt rnd 0 totalWeight) (\<lambda>offset.
              case pick_segment offset upstreamList of
                Some u \<Rightarrow> Inr u
              | None \<Rightarrow> bindr (nextInt rnd 1 (int (length upstreamList))) (list_get upstreamList))
          else bindr (nextInt rnd 0 (int (length upstreamList))) (list_get upstreamList))"

definition random_select ::
  "(nat \<Rightarrow> int \<Rightarrow> int) \<Rightarrow> divide_upstream list option \<Rightarrow> divide_upstream option jres" where
  "random_select rnd us = fst (lb_select (\<lambda>xs s. (random_doSelect rnd xs, s)) us ())"

subsection \<open>Smooth weighted round robin\<close>

record weighted_round_robin =
  wrr_weight :: int
  wrr_current :: int
  wrr_lastUpdate :: int

definition new_wrr :: weighted_round_robin where
  "new_wrr = \<lparr>wrr_weight = 0, wrr_current = 0, wrr_lastUpdate = 0\<rparr>"

definition setWeight :: "int \<Rightarrow> weighted_round_robin \<Rightarrow> weighted_round_robin" where
  "setWeight w r = r\<lparr>wrr_weight := w, wrr_current := 0\<rparr>"

definition increaseCurrent :: "weighted_round_robin \<Rightarrow> weighted_round_robin" where
  "increaseCurrent r = r\<lparr>wrr_current := wrap64 (wrr_current r + wrr_weight r)\<rparr>"

definition wrr_sel :: "int \<Rightarrow> weighted_round_robin \<Rightarrow> weighted_round_robin" where
  "wrr_sel tot r = r\<lparr>wrr_current := wrap64 (wrr_current r + wrap32 (-1 * tot))\<rparr>"

definition recyclePeriod :: int where "recyclePeriod = 60000"

definition long_min :: int where "long_min = - (2 ^ 63)"

type_synonym wrr_map = "(string \<times> weighted_round_robin) list"

text \<open>One turn of the loop over the upstreams: the entry is created or reset when its weight is new.\<close>

definition rr_entry :: "divide_upstream \<Rightarrow> wrr_map \<Rightarrow> weighted_round_robin" where
  "rr_entry u m =
     (let r = (case map_of m (du_upstreamUrl u) of
                 None \<Rightarrow> setWeight (du_weight u) new_wrr | Some r \<Rightarrow> r)
      in if du_weight u \<noteq> wrr_weight r then setWeight (du_weight u) r else r)"

fun rr_scan ::
  "int \<Rightarrow> divide_upstream list \<Rightarrow> wrr_map \<Rightarrow> int \<Rightarrow> int \<Rightarrow> divide_upstream option \<Rightarrow>
     wrr_map \<times> int \<times> int \<times> divide_upstream option" where
  "rr_scan now [] m totalWeight maxCurrent selected = (m, totalWeight, maxCurrent, selected)"
| "rr_scan now (u # us) m totalWeight maxCurrent selected =
     (let r = increaseCurrent (rr_entry u m);
          cur = wrr_current r;
          m' = AList.update (du_upstreamUrl u) (r\<lparr>wrr_lastUpdate := now\<rparr>) m;
          total' = wrap32 (totalWeight + du_weight u)
      in if cur > maxCurrent then rr_scan now us m' total' cur (Some u)
         else rr_scan now us m' total' maxCurrent selected)"

definition rr_recycle :: "int \<Rightarrow> nat \<Rightarrow> wrr_map \<Rightarrow> wrr_map" where
  "rr_recycle now n m =
     (if n \<noteq> length m
      then filter (\<lambda>(k, r). \<not> (wrap64 (now - wrr_lastUpdate r) > recyclePeriod)) m else m)"

type_synonym method_weight_map = "string \<Rightarrow> wrr_map option"

definition roundRobin_doSelect ::
  "int \<Rightarrow> divide_upstream list \<Rightarrow> method_weight_map \<Rightarrow> divide_upstream jres \<times> method_weight_map" where
  "roundRobin_doSelect now upstreamList methodWeightMap =
     (case upstreamList of
        [] \<Rightarrow> (Inl IndexOutOfBounds, methodWeightMap)
      | u0 # _ \<Rightarrow>
          (let key = du_upstreamUrl u0;
               m = (case methodWeightMap key of None \<Rightarrow> [] | Some m \<Rightarrow> m)
           in case rr_scan now upstreamList m 0 long_min None of
                (m1, totalWeight, maxCurrent, selected) \<Rightarrow>
                  (let m2 = rr_recycle now (length upstreamList) m1
                   in case selected of
                        Some u \<Rightarrow>
                          (Inr u, methodWeightMap(key \<mapsto>
                             AList.map_entry (du_upstreamUrl u) (wrr_sel totalWeight) m2))
                      | None \<Rightarrow> (Inr u0, methodWeightMap(key \<mapsto> m2)))))"

definition roundRobin_select ::
  "int \<Rightarrow> divide_upstream list option \<Rightarrow> method_weight_map \<Rightarrow> divide_upstream option jres \<times> method_weight_map" where
  "roundRobin_select now us mwm = lb_select (roundRobin_doSelect now) us mwm"

subsection \<open>Consistent hashing\<close>

definition VIRTUAL_NODE_NUM :: nat where "VIRTUAL_NODE_NUM = 5"

text \<open>\<open>md5\<close> is the digest function, 16 bytes; the hash is its first four bytes, little endian.\<close>

unbundle bit_operations_syntax

definition lb_hash :: "(string \<Rightarrow> 8 word list) \<Rightarrow> string \<Rightarrow> 64 word" where
  "lb_hash md5 key =
     (let digest = md5 key;
          b = (\<lambda>i. (ucast (digest ! i) :: 64 word) AND 0xFF);
          hashCode = (((push_bit 24 (b 3) OR push_bit 16 (b 2)) OR push_bit 8 (b 1)) OR b 0)
      in hashCode AND 0xffffffff)"


text \<open>A sorted map from long to upstream (\<open>ConcurrentSkipListMap\<close>), keys increasing.\<close>

fun tree_put :: "int \<Rightarrow> 'v \<Rightarrow> (int \<times> 'v) list \<Rightarrow> (int \<times> 'v) list" where
  "tree_put k v [] = [(k, v)]"
| "tree_put k v ((k', v') # t) =
     (if k < k' then (k, v) # (k', v') # t
      else if k = k' then (k, v) # t
      else (k', v') # tree_put k v t)"

definition node_keys :: "divide_upstream \<Rightarrow> string list" where
  "node_keys u = map (\<lambda>i. ''SOUL-'' @ du_upstreamUrl u @ ''-HASH-'' @ show_nat i) [0..<VIRTUAL_NODE_NUM]"

definition hash_nodes :: "(string \<Rightarrow> 8 word list) \<Rightarrow> divide_upstream list \<Rightarrow> (int \<times> divide_upstream) list" where
  "hash_nodes md5 us = concat (map (\<lambda>u. map (\<lambda>k. (sint (lb_hash md5 k), u)) (node_keys u)) us)"

definition build_ring :: "(int \<times> 'v) list \<Rightarrow> (int \<times> 'v) list" where
  "build_ring nodes = fold (\<lambda>(k, v) t. tree_put k v t) nodes []"

definition ring_find :: "int \<Rightarrow> (int \<times> 'v) list \<Rightarrow> 'v jres" where
  "ring_find h t =
     (case filter (\<lambda>(k, v). h \<le> k) t of
        (k, v) # _ \<Rightarrow> Inr v
      | [] \<Rightarrow> (case t of (k, v) # _ \<Rightarrow> Inr v | [] \<Rightarrow> Inl NullPointer))"

definition hash_doSelect ::
  "(string \<Rightarrow> 8 word list) \<Rightarrow> divide_upstream list \<Rightarrow> string \<Rightarrow> divide_upstream jres" where
  "hash_doSelect md5 upstreamList ip =
     ring_find (sint (lb_hash md5 ip)) (build_ring (hash_nodes md5 upstreamList))"

definition hash_select ::
  "(string \<Rightarrow> 8 word list) \<Rightarrow> divide_upstream list option \<Rightarrow> string \<Rightarrow> divide_upstream option jres" where
  "hash_select md5 us ip = fst (lb_select (\<lambda>xs s. (hash_doSelect md5 xs ip, s)) us ())"

subsection \<open>Round robin: one call\<close>

text \<open>The counter a call starts from: zero for an upstream that is new or whose weight changed.\<close>

definition wrr_view :: "wrr_map \<Rightarrow> divide_upstream \<Rightarrow> int" where
  "wrr_view m u =
     (case map_of m (du_upstreamUrl u) of
        None \<Rightarrow> 0
      | Some r \<Rightarrow> if wrr_weight r = du_weight u then wrr_current r else 0)"

lemma rr_entry_simps:
  "wrr_weight (rr_entry u m) = du_weight u"
  "wrr_current (rr_entry u m) = wrr_view m u"
  by (auto simp: rr_entry_def wrr_view_def setWeight_def new_wrr_def Let_def split: option.splits)

definition wrr_bumped :: "wrr_map \<Rightarrow> divide_upstream \<Rightarrow> int" where
  "wrr_bumped m u = wrap64 (wrr_view m u + du_weight u)"

lemma wrr_view_update_other:
  "du_upstreamUrl u \<noteq> k \<Longrightarrow> wrr_view (AList.update k r m) u = wrr_view m u"
  by (simp add: wrr_view_def update_conv')

lemma rr_scan_map:
  assumes "rr_scan now us m tw mc s = (m', tw', mc', s')"
    and "distinct (map du_upstreamUrl us)"
  shows "map_of m' k =
     (case find (\<lambda>u. du_upstreamUrl u = k) us of
        None \<Rightarrow> map_of m k
      | Some u \<Rightarrow> Some \<lparr>wrr_weight = du_weight u, wrr_current = wrr_bumped m u, wrr_lastUpdate = now\<rparr>)"
  using assms
proof (induction us arbitrary: m tw mc s)
  case Nil
  then show ?case by simp
next
  case (Cons u us)
  let ?r = "increaseCurrent (rr_entry u m)"
  let ?m = "AList.update (du_upstreamUrl u) (?r\<lparr>wrr_lastUpdate := now\<rparr>) m"
  have r: "?r\<lparr>wrr_lastUpdate := now\<rparr> = \<lparr>wrr_weight = du_weight u, wrr_current = wrr_bumped m u, wrr_lastUpdate = now\<rparr>"
    by (simp add: increaseCurrent_def rr_entry_simps wrr_bumped_def)
  obtain mc2 s2 where sc: "rr_scan now us ?m (wrap32 (tw + du_weight u)) mc2 s2 = (m', tw', mc', s')"
    using Cons.prems(1) by (auto simp: Let_def split: if_splits)
  have IH: "map_of m' k = (case find (\<lambda>u. du_upstreamUrl u = k) us of
        None \<Rightarrow> map_of ?m k
      | Some u \<Rightarrow> Some \<lparr>wrr_weight = du_weight u, wrr_current = wrr_bumped ?m u, wrr_lastUpdate = now\<rparr>)"
    using Cons.IH [OF sc] Cons.prems(2) by simp
  show ?case
  proof (cases "du_upstreamUrl u = k")
    case True
    with Cons.prems(2) have "find (\<lambda>u. du_upstreamUrl u = k) us = None"
      by (auto simp: find_None_iff) (metis imageI)
    with IH True r show ?thesis by (simp add: update_conv')
  next
    case False
    have "wrr_bumped ?m v = wrr_bumped m v" if "find (\<lambda>u. du_upstreamUrl u = k) us = Some v" for v
      using False find_SomeD [OF that] by (simp add: wrr_bumped_def wrr_view_update_other)
    with IH False show ?thesis by (auto simp: update_conv' split: option.splits)
  qed
qed

lemma wrap32_add_left: "wrap32 (wrap32 a + b) = wrap32 (a + b)"
  unfolding wrap32_def by (metis min.idem signed_take_bit_add signed_take_bit_signed_take_bit)

lemma rr_scan_total:
  "rr_scan now us m tw mc s = (m', tw', mc', s') \<Longrightarrow> in_int32 tw \<Longrightarrow>
     tw' = wrap32 (tw + sum_list (map du_weight us))"
proof (induction us arbitrary: m tw mc s)
  case Nil
  then show ?case by (simp add: wrap32_id)
next
  case (Cons u us)
  obtain m2 mc2 s2 where "rr_scan now us m2 (wrap32 (tw + du_weight u)) mc2 s2 = (m', tw', mc', s')"
    using Cons.prems(1) by (auto simp: Let_def split: if_splits)
  then have "tw' = wrap32 (wrap32 (tw + du_weight u) + sum_list (map du_weight us))"
    by (rule Cons.IH) (rule wrap32_range)
  also have "\<dots> = wrap32 (tw + du_weight u + sum_list (map du_weight us))"
    by (rule wrap32_add_left)
  finally show ?case by (simp add: add.assoc)
qed

lemma rr_scan_selected:
  assumes "rr_scan now us m tw mc s = (m', tw', mc', s')"
    and "distinct (map du_upstreamUrl us)"
  shows "mc \<le> mc' \<and> (\<forall>u\<in>set us. wrr_bumped m u \<le> mc') \<and>
     (s' = s \<and> mc' = mc \<or> (\<exists>u\<in>set us. s' = Some u \<and> mc' = wrr_bumped m u \<and> mc < mc'))"
  using assms
proof (induction us arbitrary: m tw mc s)
  case Nil
  then show ?case by simp
next
  case (Cons u us)
  let ?r = "increaseCurrent (rr_entry u m)"
  let ?m = "AList.update (du_upstreamUrl u) (?r\<lparr>wrr_lastUpdate := now\<rparr>) m"
  have b: "wrr_bumped ?m v = wrr_bumped m v" if "v \<in> set us" for v
    using that Cons.prems(2) by (auto simp: wrr_bumped_def wrr_view_update_other image_iff)
  have cur: "wrr_current ?r = wrr_bumped m u"
    by (simp add: increaseCurrent_def rr_entry_simps wrr_bumped_def)
  show ?case
  proof (cases "wrr_current ?r > mc")
    case True
    then have sc: "rr_scan now us ?m (wrap32 (tw + du_weight u)) (wrr_current ?r) (Some u) = (m', tw', mc', s')"
      using Cons.prems(1) by (simp add: Let_def)
    show ?thesis using Cons.IH [OF sc] Cons.prems(2) b True by (auto simp: cur)
  next
    case False
    then have sc: "rr_scan now us ?m (wrap32 (tw + du_weight u)) mc s = (m', tw', mc', s')"
      using Cons.prems(1) by (simp add: Let_def)
    show ?thesis using Cons.IH [OF sc] Cons.prems(2) b False by (auto simp: cur)
  qed
qed

text \<open>Recycling never drops an entry the call has just updated.\<close>

lemma map_of_filter_keep:
  "map_of m k = Some r \<Longrightarrow> P (k, r) \<Longrightarrow> map_of (filter P m) k = Some r"
  by (induction m) (auto split: if_splits)

lemma rr_recycle_keep:
  "map_of m k = Some r \<Longrightarrow> wrr_lastUpdate r = now \<Longrightarrow> map_of (rr_recycle now n m) k = Some r"
  by (auto simp: rr_recycle_def recyclePeriod_def wrap64_def intro: map_of_filter_keep)


lemma map_of_map_entry:
  "map_of (AList.map_entry k f m) j = (if j = k then map_option f (map_of m j) else map_of m j)"
  by (induction m) auto

definition wrr_table :: "divide_upstream list \<Rightarrow> method_weight_map \<Rightarrow> wrr_map" where
  "wrr_table us mwm = (case mwm (du_upstreamUrl (hd us)) of None \<Rightarrow> [] | Some m \<Rightarrow> m)"

lemma roundRobin_call:
  assumes "us \<noteq> []" and "distinct (map du_upstreamUrl us)"
    and big: "\<forall>u\<in>set us. long_min < wrr_bumped (wrr_table us mwm) u"
  obtains u mwm' where "roundRobin_doSelect now us mwm = (Inr u, mwm')" "u \<in> set us"
    "\<forall>v\<in>set us. wrr_bumped (wrr_table us mwm) v \<le> wrr_bumped (wrr_table us mwm) u"
    "\<forall>v\<in>set us. wrr_view (wrr_table us mwm') v =
       (if v = u then wrap64 (wrr_bumped (wrr_table us mwm) v + wrap32 (- sum_list (map du_weight us)))
        else wrr_bumped (wrr_table us mwm) v)"
proof -
  let ?m = "wrr_table us mwm"
  obtain m1 tw mc s where sc: "rr_scan now us ?m 0 long_min None = (m1, tw, mc, s)"
    by (metis prod_cases4)
  have tot: "tw = wrap32 (sum_list (map du_weight us))"
    using rr_scan_total [OF sc] by (simp add: in_int32_def)
  note sel = rr_scan_selected [OF sc assms(2)]
  have "\<exists>u\<in>set us. s = Some u \<and> mc = wrr_bumped ?m u"
    using sel big assms(1) by (cases us) force+
  then obtain u where u: "u \<in> set us" "s = Some u" "mc = wrr_bumped ?m u" by blast
  let ?m2 = "rr_recycle now (length us) m1"
  let ?m3 = "AList.map_entry (du_upstreamUrl u) (wrr_sel tw) ?m2"
  obtain u0 ur where us: "us = u0 # ur" using assms(1) by (cases us) auto
  have eq: "roundRobin_doSelect now us mwm = (Inr u, mwm(du_upstreamUrl u0 \<mapsto> ?m3))"
    using sc u(2) by (simp add: roundRobin_doSelect_def us wrr_table_def split: option.splits)
  have ent: "map_of ?m2 (du_upstreamUrl v) =
      Some \<lparr>wrr_weight = du_weight v, wrr_current = wrr_bumped ?m v, wrr_lastUpdate = now\<rparr>"
    if "v \<in> set us" for v
  proof -
    have "find (\<lambda>w. du_upstreamUrl w = du_upstreamUrl v) us = Some v"
    proof -
      from that obtain w where w: "find (\<lambda>w. du_upstreamUrl w = du_upstreamUrl v) us = Some w"
        using that find_None_iff [of "\<lambda>w. du_upstreamUrl w = du_upstreamUrl v" us]
        by (metis not_None_eq)
      from find_SomeD [OF this] that assms(2) have "w = v"
        by (auto simp: distinct_map dest: inj_onD)
      with w show ?thesis by simp
    qed
    then have "map_of m1 (du_upstreamUrl v) =
      Some \<lparr>wrr_weight = du_weight v, wrr_current = wrr_bumped ?m v, wrr_lastUpdate = now\<rparr>"
      using rr_scan_map [OF sc assms(2), of "du_upstreamUrl v"] by simp
    then show ?thesis by (intro rr_recycle_keep) simp_all
  qed
  have inj: "du_upstreamUrl v = du_upstreamUrl u \<longleftrightarrow> v = u" if "v \<in> set us" for v
    using that u(1) assms(2) by (auto simp: distinct_map dest: inj_onD)
  have neg: "wrap32 (-1 * tw) = wrap32 (- sum_list (map du_weight us))"
    by (simp add: tot wrap32_def signed_take_bit_minus)
  have "wrr_view ?m3 v = (if v = u then wrap64 (wrr_bumped ?m v + wrap32 (- sum_list (map du_weight us)))
        else wrr_bumped ?m v)" if "v \<in> set us" for v
    using ent [OF that] ent [OF u(1)] inj [OF that] neg
    by (simp add: wrr_view_def map_of_map_entry wrr_sel_def)
  moreover have "wrr_table us (mwm(du_upstreamUrl u0 \<mapsto> ?m3)) = ?m3" by (simp add: wrr_table_def us)
  ultimately show thesis using that [OF eq u(1)] sel u(3) by simp
qed

subsection \<open>Round robin: a sequence of calls\<close>

fun roundRobin_run ::
  "divide_upstream list \<Rightarrow> int list \<Rightarrow> method_weight_map \<Rightarrow> divide_upstream jres list \<times> method_weight_map" where
  "roundRobin_run us [] st = ([], st)"
| "roundRobin_run us (now # nows) st =
     (case roundRobin_doSelect now us st of
        (r, st') \<Rightarrow> (case roundRobin_run us nows st' of (rs, st'') \<Rightarrow> (r # rs, st'')))"

text \<open>The counters between two calls: they sum to zero and none is as low as minus the total weight.\<close>

definition balanced :: "divide_upstream list \<Rightarrow> (divide_upstream \<Rightarrow> int) \<Rightarrow> bool" where
  "balanced us v \<longleftrightarrow>
     sum_list (map v us) = 0 \<and> (\<forall>u\<in>set us. - sum_list (map du_weight us) < v u)"

lemma sum_list_lower:
  "(\<forall>u\<in>set us. - W < f u) \<Longrightarrow> sum_list (map f us) \<ge> int (length us) * (1 - (W::int))"
  by (induction us) (auto simp: algebra_simps)

lemma balanced_upper:
  assumes "balanced us v" and "u \<in> set us" and "0 < sum_list (map du_weight us)"
  shows "v u \<le> int (length us) * sum_list (map du_weight us)"
proof -
  let ?W = "sum_list (map du_weight us)"
  obtain as bs where us: "us = as @ u # bs" using assms(2) split_list by metis
  have "sum_list (map v (as @ bs)) \<ge> int (length (as @ bs)) * (1 - ?W)"
    by (rule sum_list_lower) (use assms(1) us in \<open>auto simp: balanced_def\<close>)
  moreover have "sum_list (map v us) = v u + sum_list (map v (as @ bs))" by (simp add: us)
  ultimately have "v u \<le> int (length (as @ bs)) * (?W - 1)"
    using assms(1) by (simp add: balanced_def algebra_simps)
  also have "\<dots> \<le> int (length us) * ?W" using assms(3) by (intro mult_mono) (auto simp: us)
  finally show ?thesis .
qed

lemma exists_pos:
  "0 < sum_list (map (f :: 'a \<Rightarrow> int) us) \<Longrightarrow> \<exists>u\<in>set us. 0 < f u"
  by (rule ccontr) (use sum_list_nonpos [of "map f us"] in \<open>auto simp: not_less\<close>)

lemma sum_list_pick_none:
  "u \<notin> set us \<Longrightarrow> sum_list (map (\<lambda>v. if v = u then (W::int) else 0) us) = 0"
  by (induction us) auto

lemma sum_list_pick:
  "distinct us \<Longrightarrow> u \<in> set us \<Longrightarrow> sum_list (map (\<lambda>v. if v = u then (W::int) else 0) us) = W"
  by (induction us) (auto simp: sum_list_pick_none)

text \<open>What the fairness results ask of the upstream list.\<close>

definition lb_ok :: "divide_upstream list \<Rightarrow> bool" where
  "lb_ok us \<longleftrightarrow> distinct (map du_upstreamUrl us) \<and> (\<forall>u\<in>set us. 0 \<le> du_weight u)
     \<and> 0 < sum_list (map du_weight us) \<and> sum_list (map du_weight us) < 2 ^ 31
     \<and> int (length us) < 2 ^ 31"

lemma lb_ok_weight: "lb_ok us \<Longrightarrow> u \<in> set us \<Longrightarrow> du_weight u \<le> sum_list (map du_weight us)"
  unfolding lb_ok_def by (intro member_le_sum_list) auto

lemma roundRobin_step:
  assumes ok: "lb_ok us" and bal: "balanced us (wrr_view (wrr_table us mwm))"
  obtains u mwm' where "roundRobin_doSelect now us mwm = (Inr u, mwm')" "u \<in> set us"
    "\<forall>v\<in>set us. wrr_view (wrr_table us mwm') v =
       wrr_view (wrr_table us mwm) v + du_weight v - (if v = u then sum_list (map du_weight us) else 0)"
    "balanced us (wrr_view (wrr_table us mwm'))"
proof -
  let ?m = "wrr_table us mwm" and ?W = "sum_list (map du_weight us)"
  have W: "0 < ?W" "?W < 2 ^ 31" and d: "distinct (map du_upstreamUrl us)" and ne: "us \<noteq> []"
    and w0: "\<forall>u\<in>set us. 0 \<le> du_weight u"
    using ok by (auto simp: lb_ok_def)
  have du: "distinct us" using d by (simp add: distinct_map)
  have up: "wrr_view ?m v \<le> 2 ^ 62" if "v \<in> set us" for v
  proof -
    have "wrr_view ?m v \<le> int (length us) * ?W" by (rule balanced_upper [OF bal that W(1)])
    also have "\<dots> \<le> 2 ^ 31 * 2 ^ 31" using ok W by (intro mult_mono) (auto simp: lb_ok_def)
    finally show ?thesis by simp
  qed
  have low: "- ?W < wrr_view ?m v" "0 \<le> du_weight v" if "v \<in> set us" for v
    using bal that w0 by (auto simp: balanced_def)
  have rng: "in_int64 (wrr_view ?m v + du_weight v)" "- ?W < wrr_view ?m v" if "v \<in> set us" for v
    using up [OF that] low [OF that] W lb_ok_weight [OF ok that] by (auto simp: in_int64_def)
  have b: "wrr_bumped ?m v = wrr_view ?m v + du_weight v" if "v \<in> set us" for v
    using rng(1) [OF that] by (simp add: wrr_bumped_def wrap64_id)
  have "\<forall>v\<in>set us. long_min < wrr_bumped ?m v"
    using rng(2) W w0 by (force simp: b long_min_def)
  from roundRobin_call [OF ne d this, of now] obtain u mwm' where c:
    "roundRobin_doSelect now us mwm = (Inr u, mwm')" "u \<in> set us"
    "\<forall>v\<in>set us. wrr_bumped ?m v \<le> wrr_bumped ?m u"
    "\<forall>v\<in>set us. wrr_view (wrr_table us mwm') v =
       (if v = u then wrap64 (wrr_bumped ?m v + wrap32 (- ?W)) else wrr_bumped ?m v)"
    by blast
  have "sum_list (map (\<lambda>v. wrr_view ?m v + du_weight v) us) = ?W"
    using bal by (simp add: balanced_def sum_list_addf)
  then obtain p where p: "p \<in> set us" "0 < wrr_view ?m p + du_weight p"
    using exists_pos [of "\<lambda>v. wrr_view ?m v + du_weight v" us] W(1) by auto
  have pos: "0 < wrr_view ?m u + du_weight u"
    using c(3) p b [OF c(2)] b [OF p(1)] by force
  have neg: "wrap32 (- ?W) = - ?W" using W by (intro wrap32_id) (simp add: in_int32_def)
  have "in_int64 (wrr_view ?m u + du_weight u - ?W)"
    using pos W up [OF c(2)] lb_ok_weight [OF ok c(2)] by (simp add: in_int64_def)
  then have eq: "wrr_view (wrr_table us mwm') v = wrr_view ?m v + du_weight v - (if v = u then ?W else 0)"
    if "v \<in> set us" for v
    using c(4) that b [OF that] neg by (auto simp: wrap64_id)
  have "sum_list (map (wrr_view (wrr_table us mwm')) us) =
      sum_list (map (\<lambda>v. wrr_view ?m v + du_weight v - (if v = u then ?W else 0)) us)"
    using eq by (intro arg_cong [where f = sum_list] map_cong) auto
  also have "\<dots> = 0"
    using bal sum_list_pick [OF du c(2), of ?W] by (simp add: balanced_def sum_list_addf sum_list_subtractf)
  finally have "balanced us (wrr_view (wrr_table us mwm'))"
    using eq pos rng(2) W w0 by (force simp: balanced_def)
  with that [OF c(1,2)] eq show thesis by blast
qed

lemma roundRobin_run_view:
  assumes "lb_ok us" and "balanced us (wrr_view (wrr_table us mwm))"
    and "roundRobin_run us nows mwm = (rs, mwm')"
  shows "\<exists>sel. rs = map Inr sel \<and> set sel \<subseteq> set us \<and> length sel = length nows
     \<and> balanced us (wrr_view (wrr_table us mwm'))
     \<and> (\<forall>v\<in>set us. wrr_view (wrr_table us mwm') v = wrr_view (wrr_table us mwm) v
           + int (length nows) * du_weight v - sum_list (map du_weight us) * int (count_list sel v))"
  using assms(2,3)
proof (induction nows arbitrary: mwm rs)
  case Nil
  then show ?case by simp
next
  case (Cons now nows)
  from roundRobin_step [OF assms(1) Cons.prems(1), of now] obtain u m1 where s:
    "roundRobin_doSelect now us mwm = (Inr u, m1)" "u \<in> set us"
    "\<forall>v\<in>set us. wrr_view (wrr_table us m1) v =
       wrr_view (wrr_table us mwm) v + du_weight v - (if v = u then sum_list (map du_weight us) else 0)"
    "balanced us (wrr_view (wrr_table us m1))" by blast
  obtain rs1 where r: "roundRobin_run us nows m1 = (rs1, mwm')" "rs = Inr u # rs1"
    using Cons.prems(2) s(1) by (auto split: prod.splits)
  from Cons.IH [OF s(4) r(1)] obtain sel where sel: "rs1 = map Inr sel" "set sel \<subseteq> set us"
    "length sel = length nows" "balanced us (wrr_view (wrr_table us mwm'))"
    "\<forall>v\<in>set us. wrr_view (wrr_table us mwm') v = wrr_view (wrr_table us m1) v
           + int (length nows) * du_weight v - sum_list (map du_weight us) * int (count_list sel v)"
    by blast
  show ?case
    by (rule exI [of _ "u # sel"]) (use sel s r in \<open>auto simp: algebra_simps\<close>)
qed


lemma sum_list_count:
  "distinct us \<Longrightarrow> set xs \<subseteq> set us \<Longrightarrow> sum_list (map (\<lambda>u. int (count_list xs u)) us) = int (length xs)"
proof (induction xs)
  case Nil
  then show ?case by (simp add: sum_list_0)
next
  case (Cons x xs)
  have "(\<lambda>u. int (count_list (x # xs) u)) = (\<lambda>u. int (count_list xs u) + (if u = x then 1 else 0))"
    by (auto simp: fun_eq_iff)
  with Cons sum_list_pick [of us x 1] show ?case by (simp add: sum_list_addf)
qed

lemma sum_list_eq_pointwise:
  "(\<forall>u\<in>set us. (f u :: int) \<le> g u) \<Longrightarrow> sum_list (map f us) = sum_list (map g us) \<Longrightarrow>
     \<forall>u\<in>set us. f u = g u"
proof (induction us)
  case Nil
  then show ?case by simp
next
  case (Cons u us)
  have "sum_list (map f us) \<le> sum_list (map g us)"
    using Cons.prems(1) by (intro sum_list_mono) auto
  with Cons show ?case by auto
qed

lemma wrr_view_fresh:
  "us \<noteq> [] \<Longrightarrow> mwm (du_upstreamUrl (hd us)) = None \<Longrightarrow> wrr_view (wrr_table us mwm) = (\<lambda>_. 0)"
  by (simp add: wrr_view_def wrr_table_def fun_eq_iff)

lemma lb_ok_nonempty: "lb_ok us \<Longrightarrow> us \<noteq> []"
  by (auto simp: lb_ok_def)

lemma roundRobin_fresh_counts:
  assumes ok: "lb_ok us" and fresh: "mwm (du_upstreamUrl (hd us)) = None"
  obtains sel where "fst (roundRobin_run us nows mwm) = map Inr sel" "set sel \<subseteq> set us"
    "length sel = length nows"
    "\<forall>u\<in>set us. - sum_list (map du_weight us)
       < int (length nows) * du_weight u - sum_list (map du_weight us) * int (count_list sel u)"
proof -
  have v0: "wrr_view (wrr_table us mwm) = (\<lambda>_. 0)"
    by (rule wrr_view_fresh) (use lb_ok_nonempty [OF ok] fresh in auto)
  have "balanced us (wrr_view (wrr_table us mwm))"
    using ok by (simp add: v0 balanced_def lb_ok_def sum_list_0)
  moreover obtain rs m1 where r: "roundRobin_run us nows mwm = (rs, m1)" by fastforce
  ultimately obtain sel where sel: "rs = map Inr sel" "set sel \<subseteq> set us" "length sel = length nows"
    "balanced us (wrr_view (wrr_table us m1))"
    "\<forall>v\<in>set us. wrr_view (wrr_table us m1) v = wrr_view (wrr_table us mwm) v
           + int (length nows) * du_weight v - sum_list (map du_weight us) * int (count_list sel v)"
    using roundRobin_run_view [OF ok] by blast
  show thesis
    by (rule that [of sel]) (use sel r v0 in \<open>auto simp: balanced_def\<close>)
qed

text \<open>
  C14: Smooth weighted round robin is exactly fair. For upstreams with distinct urls, weights that are not
  negative and a positive total weight W below 2^31, starting with no counters stored, any
  k*W consecutive calls (at any clock readings) return, without error, each upstream exactly k
  times its weight.
\<close>

theorem roundRobin_fair:
  assumes ok: "lb_ok us" and fresh: "mwm (du_upstreamUrl (hd us)) = None"
    and len: "int (length nows) = int k * sum_list (map du_weight us)"
  shows "\<exists>sel. fst (roundRobin_run us nows mwm) = map Inr sel \<and> set sel \<subseteq> set us
     \<and> (\<forall>u\<in>set us. int (count_list sel u) = int k * du_weight u)"
proof -
  let ?W = "sum_list (map du_weight us)"
  obtain sel where sel: "fst (roundRobin_run us nows mwm) = map Inr sel" "set sel \<subseteq> set us"
    "length sel = length nows"
    "\<forall>u\<in>set us. - ?W < int (length nows) * du_weight u - ?W * int (count_list sel u)"
    using roundRobin_fresh_counts [of us mwm nows, OF ok fresh] by blast
  have W: "0 < ?W" using ok by (simp add: lb_ok_def)
  have du: "distinct us" using ok by (simp add: lb_ok_def distinct_map)
  have le: "\<forall>u\<in>set us. int (count_list sel u) \<le> int k * du_weight u"
  proof
    fix u assume "u \<in> set us"
    then have "?W * (-1) < ?W * (int k * du_weight u - int (count_list sel u))"
      using sel(4) len by (simp add: algebra_simps)
    then have "-1 < int k * du_weight u - int (count_list sel u)"
      using W by (simp only: mult_less_cancel_left_pos)
    then show "int (count_list sel u) \<le> int k * du_weight u" by simp
  qed
  have "sum_list (map (\<lambda>u. int (count_list sel u)) us) = int (length sel)"
    by (rule sum_list_count [OF du sel(2)])
  also have "\<dots> = sum_list (map (\<lambda>u. int k * du_weight u) us)"
    by (simp add: sel(3) len sum_list_const_mult)
  finally have "\<forall>u\<in>set us. int (count_list sel u) = int k * du_weight u"
    by (rule sum_list_eq_pointwise [OF le])
  with sel show ?thesis by blast
qed

definition sample_upstream :: "string \<Rightarrow> int \<Rightarrow> divide_upstream" where
  "sample_upstream url w = \<lparr>du_upstreamHost = None, du_protocol = None, du_upstreamUrl = url, du_weight = w\<rparr>"

lemma roundRobin_fair_witness:
  "\<exists>sel. fst (roundRobin_run [sample_upstream ''a'' 2, sample_upstream ''b'' 1] [0, 0, 9] Map.empty)
            = map Inr sel
     \<and> count_list sel (sample_upstream ''a'' 2) = 2 \<and> count_list sel (sample_upstream ''b'' 1) = 1"
proof -
  have "lb_ok [sample_upstream ''a'' 2, sample_upstream ''b'' 1]"
    by (simp add: lb_ok_def sample_upstream_def)
  from roundRobin_fair [OF this, of Map.empty "[0, 0, 9]" 1] show ?thesis
    by (auto simp: sample_upstream_def)
qed

text \<open>
  Smooth weighted round robin never runs ahead: after any number n of calls from fresh counters, an
  upstream of weight w has been chosen fewer than n*w/W + 1 times, so no upstream is called in a
  burst beyond its share.
\<close>

theorem roundRobin_smooth:
  assumes "lb_ok us" and "mwm (du_upstreamUrl (hd us)) = None" and "u \<in> set us"
  shows "\<exists>sel. fst (roundRobin_run us nows mwm) = map Inr sel \<and> length sel = length nows \<and>
     sum_list (map du_weight us) * (int (count_list sel u) - 1) < int (length nows) * du_weight u"
proof -
  obtain sel where sel: "fst (roundRobin_run us nows mwm) = map Inr sel" "set sel \<subseteq> set us"
    "length sel = length nows"
    "\<forall>u\<in>set us. - sum_list (map du_weight us)
       < int (length nows) * du_weight u - sum_list (map du_weight us) * int (count_list sel u)"
    using roundRobin_fresh_counts [of us mwm nows, OF assms(1,2)] by blast
  from sel(4) assms(3) have "- sum_list (map du_weight us)
       < int (length nows) * du_weight u - sum_list (map du_weight us) * int (count_list sel u)" by blast
  then have "sum_list (map du_weight us) * (int (count_list sel u) - 1) < int (length nows) * du_weight u"
    unfolding right_diff_distrib by linarith
  with sel(1,3) show ?thesis by blast
qed

lemma roundRobin_smooth_witness:
  "\<exists>sel. fst (roundRobin_run [sample_upstream ''a'' 2, sample_upstream ''b'' 1] [7] Map.empty)
     = map Inr sel \<and> length sel = 1 \<and> 3 * (int (count_list sel (sample_upstream ''b'' 1)) - 1) < 1"
proof -
  have "lb_ok [sample_upstream ''a'' 2, sample_upstream ''b'' 1]"
    by (simp add: lb_ok_def sample_upstream_def)
  from roundRobin_smooth [OF this, of Map.empty "sample_upstream ''b'' 1" "[7]"] show ?thesis
    by (simp add: sample_upstream_def)
qed

subsection \<open>Random: shares of the draws\<close>

lemma weight_scan_total:
  "in_int32 tw \<Longrightarrow> fst (weight_scan p tw b us) = wrap32 (tw + sum_list (map du_weight us))"
proof (induction us arbitrary: p tw b)
  case Nil
  then show ?case by (simp add: wrap32_id)
next
  case (Cons u us)
  show ?case
    by (simp add: Let_def Cons.IH [OF wrap32_range] wrap32_add_left add.assoc)
qed

lemma weight_scan_same_acc:
  "\<not> snd (weight_scan p tw False us)"
  "snd (weight_scan (Some w) tw True us) \<longleftrightarrow> (\<forall>u\<in>set us. du_weight u = w)"
proof -
  show f: "\<not> snd (weight_scan p tw False us)" for p tw us
    by (induction us arbitrary: p tw) (simp_all add: Let_def)
  show "snd (weight_scan (Some w) tw True us) \<longleftrightarrow> (\<forall>u\<in>set us. du_weight u = w)"
  proof (induction us arbitrary: tw)
    case Nil
    then show ?case by simp
  next
    case (Cons u us)
    then show ?case by (cases "du_weight u = w") (simp_all add: Let_def f)
  qed
qed

lemma weight_scan_same:
  "snd (weight_scan None tw True us) \<longleftrightarrow> (\<forall>u\<in>set us. \<forall>v\<in>set us. du_weight u = du_weight v)"
  by (cases us) (auto simp: Let_def weight_scan_same_acc)

lemma pick_segment_in: "pick_segment o1 us = Some u \<Longrightarrow> u \<in> set us"
  by (induction us arbitrary: o1) (auto simp: Let_def split: if_splits)

lemma pick_segment_card:
  assumes "distinct us" "\<forall>v\<in>set us. 0 \<le> du_weight v" "sum_list (map du_weight us) < 2 ^ 31"
    and "u \<in> set us"
  shows "card {i. 0 \<le> i \<and> i < sum_list (map du_weight us) \<and> pick_segment i us = Some u} = nat (du_weight u)"
  using assms
proof (induction us)
  case Nil
  then show ?case by simp
next
  case (Cons v us)
  let ?S = "sum_list (map du_weight us)" and ?w = "du_weight v"
  have S: "0 \<le> ?S" using Cons.prems(2) by (intro sum_list_nonneg) auto
  have w: "0 \<le> ?w" using Cons.prems(2) by simp
  have pick: "pick_segment i (v # us) = (if i < ?w then Some v else pick_segment (i - ?w) us)"
    if "0 \<le> i" "i < ?w + ?S" for i
  proof -
    have "in_int32 (i - ?w)" using that Cons.prems w S by (simp add: in_int32_def)
    then show ?thesis by (simp add: Let_def wrap32_id)
  qed
  show ?case
  proof (cases "u = v")
    case True
    with Cons.prems(1) have "pick_segment j us \<noteq> Some u" for j using pick_segment_in by fastforce
    with pick True have "{i. 0 \<le> i \<and> i < sum_list (map du_weight (v # us)) \<and> pick_segment i (v # us) = Some u}
        = {0..<?w}"
      using S by (auto simp del: pick_segment.simps split: if_splits)
    then show ?thesis by (simp add: True)
  next
    case False
    have "{i. 0 \<le> i \<and> i < sum_list (map du_weight (v # us)) \<and> pick_segment i (v # us) = Some u}
        = (\<lambda>j. j + ?w) ` {j. 0 \<le> j \<and> j < ?S \<and> pick_segment j us = Some u}" (is "?L = ?f ` ?R")
    proof
      show "?L \<subseteq> ?f ` ?R"
      proof
        fix i assume i: "i \<in> ?L"
        then have "\<not> i < ?w" "pick_segment (i - ?w) us = Some u"
          using pick [of i] False by (auto simp del: pick_segment.simps split: if_splits)
        with i show "i \<in> ?f ` ?R" by (intro image_eqI [of _ _ "i - ?w"]) auto
      qed
      show "?f ` ?R \<subseteq> ?L"
        using w pick False by (auto simp del: pick_segment.simps)
    qed
    moreover have "inj_on ?f ?R" by (simp add: inj_on_def)
    ultimately have "card ?L = card ?R" by (simp add: card_image)
    then show ?thesis using Cons False w by simp
  qed
qed



subsection \<open>Consistent hashing: the ring\<close>

definition ring_wf :: "(int \<times> 'v) list \<Rightarrow> bool" where
  "ring_wf t \<longleftrightarrow> sorted_wrt (<) (map fst t)"

lemma tree_put_keys: "set (map fst (tree_put k v t)) = insert k (set (map fst t))"
proof (induction t)
  case Nil
  then show ?case by simp
next
  case (Cons a t)
  then show ?case by (cases a) auto
qed

lemma tree_put_wf: "ring_wf t \<Longrightarrow> ring_wf (tree_put k v t)"
proof (induction t)
  case Nil
  then show ?case by (simp add: ring_wf_def)
next
  case (Cons a t)
  obtain k' v' where a: "a = (k', v')" by (cases a)
  have keys: "\<forall>x\<in>set (map fst t). k' < x" and wf: "ring_wf t"
    using Cons.prems by (auto simp: ring_wf_def a)
  have "ring_wf (tree_put k v t)" by (rule Cons.IH [OF wf])
  moreover have "\<forall>x\<in>set (map fst (tree_put k v t)). k' < x" if "k' < k"
    using keys that unfolding tree_put_keys by simp
  ultimately show ?case
    using Cons.prems by (auto simp: ring_wf_def a)
qed

lemma map_of_tree_put: "ring_wf t \<Longrightarrow> map_of (tree_put k v t) = (map_of t)(k \<mapsto> v)"
proof (induction t)
  case Nil
  then show ?case by simp
next
  case (Cons a t)
  have wf: "ring_wf t" using Cons.prems by (auto simp: ring_wf_def)
  show ?case using Cons.IH [OF wf] by (cases a) (auto simp: fun_eq_iff)
qed

lemma build_ring_snoc: "build_ring (ns @ [(k, v)]) = tree_put k v (build_ring ns)"
  by (simp add: build_ring_def)

lemma build_ring_spec: "ring_wf (build_ring ns) \<and> map_of (build_ring ns) = map_of (rev ns)"
proof (induction ns rule: rev_induct)
  case Nil
  then show ?case by (simp add: build_ring_def ring_wf_def)
next
  case (snoc n ns)
  then show ?case by (cases n) (auto simp: build_ring_snoc tree_put_wf map_of_tree_put)
qed


text \<open>The key that owns a hash: the next one on the ring, or the smallest.\<close>

definition ring_owner :: "(int \<Rightarrow> 'v option) \<Rightarrow> int \<Rightarrow> int \<Rightarrow> bool" where
  "ring_owner m h k \<longleftrightarrow> k \<in> dom m \<and>
     (if h \<le> k then \<forall>j\<in>dom m. h \<le> j \<longrightarrow> k \<le> j else (\<forall>j\<in>dom m. j < h \<and> k \<le> j))"

lemma ring_owner_unique: "ring_owner m h k \<Longrightarrow> ring_owner m h j \<Longrightarrow> k = j"
  unfolding ring_owner_def by (auto split: if_splits) (meson domI eq_iff leD)+

lemma ring_wf_hd:
  "ring_wf ((k, v) # t) \<Longrightarrow> j \<in> set (map fst ((k, v) # t)) \<Longrightarrow> k \<le> j"
  by (auto simp: ring_wf_def)

lemma ring_wf_filter: "ring_wf t \<Longrightarrow> ring_wf (filter P t)"
  by (induction t) (auto simp: ring_wf_def)

lemma ring_wf_map_of: "ring_wf t \<Longrightarrow> (k, v) \<in> set t \<Longrightarrow> map_of t k = Some v"
  by (rule map_of_is_SomeI) (auto simp: ring_wf_def strict_sorted_iff)

lemma dom_map_of_keys: "dom (map_of t) = set (map fst t)"
  by (simp add: dom_map_of_conv_image_fst)

lemma ring_find_owner:
  assumes wf: "ring_wf t" and ne: "t \<noteq> []"
  shows "\<exists>k v. ring_find h t = Inr v \<and> map_of t k = Some v \<and> ring_owner (map_of t) h k"
proof (cases "filter (\<lambda>(k, v). h \<le> k) t")
  case Nil
  obtain k v r where t: "t = (k, v) # r" using ne by (cases t) auto
  have all: "\<forall>j\<in>set (map fst t). j < h"
    using Nil by (auto simp: filter_empty_conv not_le)
  have "ring_owner (map_of t) h k"
    unfolding ring_owner_def dom_map_of_keys using all ring_wf_hd [of k v r] wf t by auto
  with Nil t show ?thesis by (intro exI [of _ k] exI [of _ v]) (simp add: ring_find_def)
next
  case (Cons p r)
  obtain k v where p: "p = (k, v)" by (cases p)
  have f: "filter (\<lambda>(k, v). h \<le> k) t = (k, v) # r" using Cons p by simp
  then have "(k, v) \<in> set (filter (\<lambda>(k, v). h \<le> k) t)" by (simp del: set_filter)
  then have kv: "(k, v) \<in> set t" "h \<le> k" by simp_all
  have "k \<le> j" if "j \<in> set (map fst t)" "h \<le> j" for j
  proof (rule ring_wf_hd [of k v r])
    show "ring_wf ((k, v) # r)" using ring_wf_filter [OF wf] f by metis
    from that obtain w where "(j, w) \<in> set t" by auto
    with that(2) have "(j, w) \<in> set (filter (\<lambda>(k, v). h \<le> k) t)" by simp
    then show "j \<in> set (map fst ((k, v) # r))" unfolding f by (force simp del: set_filter)
  qed
  then have "ring_owner (map_of t) h k"
    unfolding ring_owner_def dom_map_of_keys using kv by (auto simp: image_iff) (metis fst_conv)
  with f kv wf show ?thesis
    by (intro exI [of _ k] exI [of _ v]) (simp add: ring_find_def ring_wf_map_of)
qed

lemma ring_owner_restrict:
  assumes "ring_owner m h k" and "dom m' \<subseteq> dom m" and "k \<in> dom m'"
  shows "ring_owner m' h k"
  using assms unfolding ring_owner_def by (auto split: if_splits)

lemma hash_nodes_remove:
  "hash_nodes md5 (removeAll x us) = filter (\<lambda>(k, v). v \<noteq> x) (hash_nodes md5 us)"
  by (induction us) (auto simp: hash_nodes_def filter_map comp_def)

lemma hash_nodes_snd: "(k, v) \<in> set (hash_nodes md5 us) \<Longrightarrow> v \<in> set us"
  by (auto simp: hash_nodes_def)

lemma hash_nodes_nonempty: "us \<noteq> [] \<Longrightarrow> hash_nodes md5 us \<noteq> []"
  by (cases us) (auto simp: hash_nodes_def node_keys_def VIRTUAL_NODE_NUM_def)

lemma build_ring_nonempty: "ns \<noteq> [] \<Longrightarrow> build_ring ns \<noteq> []"
proof
  assume "ns \<noteq> []" and e: "build_ring ns = []"
  then have "map_of (rev ns) = Map.empty" using build_ring_spec [of ns] by simp
  with \<open>ns \<noteq> []\<close> show False by simp
qed

lemma removeAll_nonempty: "u \<in> set us \<Longrightarrow> u \<noteq> x \<Longrightarrow> removeAll x us \<noteq> []"
  by (metis Diff_iff empty_iff insert_iff list.set(1) set_removeAll)

lemma hash_doSelect_owner:
  assumes "us \<noteq> []"
  shows "\<exists>k v. hash_doSelect md5 us ip = Inr v \<and> map_of (rev (hash_nodes md5 us)) k = Some v
     \<and> ring_owner (map_of (rev (hash_nodes md5 us))) (sint (lb_hash md5 ip)) k"
  unfolding hash_doSelect_def
  using ring_find_owner [of "build_ring (hash_nodes md5 us)" "sint (lb_hash md5 ip)"]
    build_ring_nonempty [OF hash_nodes_nonempty [OF assms, of md5]]
    build_ring_spec [of "hash_nodes md5 us"] by simp

lemma hash_doSelect_member:
  assumes "us \<noteq> []"
  shows "\<exists>u\<in>set us. hash_doSelect md5 us ip = Inr u"
  using hash_doSelect_owner [OF assms, of md5 ip] hash_nodes_snd by (metis map_of_SomeD set_rev)

lemma hash_doSelect_remove:
  assumes "hash_doSelect md5 us ip = Inr u" and "u \<noteq> x" and ne: "us \<noteq> []"
  shows "hash_doSelect md5 (removeAll x us) ip = Inr u"
proof -
  let ?ns = "hash_nodes md5 us" and ?h = "sint (lb_hash md5 ip)"
  let ?m = "map_of (rev ?ns)" and ?m' = "map_of (rev (hash_nodes md5 (removeAll x us)))"
  obtain k where k: "?m k = Some u" "ring_owner ?m ?h k"
    using hash_doSelect_owner [OF ne, of md5 ip] assms(1) by auto
  have "u \<in> set us" using k(1) by (metis hash_nodes_snd map_of_SomeD set_rev)
  then have ne': "removeAll x us \<noteq> []" using assms(2) by (rule removeAll_nonempty)
  have sub: "dom ?m' \<subseteq> dom ?m"
    by (auto simp: hash_nodes_remove dom_map_of_conv_image_fst)
  have k': "?m' k = Some u"
    unfolding hash_nodes_remove rev_filter using k(1) assms(2) by (intro map_of_filter_keep) auto
  have own: "ring_owner ?m' ?h k" using ring_owner_restrict [OF k(2) sub] k' by blast
  obtain j v where j: "hash_doSelect md5 (removeAll x us) ip = Inr v" "?m' j = Some v" "ring_owner ?m' ?h j"
    using hash_doSelect_owner [OF ne', of md5 ip] by blast
  have "j = k" using ring_owner_unique [OF j(3) own] .
  with j k' show ?thesis by simp
qed

lemma hash_select_doSelect:
  "us \<noteq> [] \<Longrightarrow> hash_select md5 (Some us) ip = bindr (hash_doSelect md5 us ip) (\<lambda>u. Inr (Some u))"
proof -
  assume "us \<noteq> []"
  then consider u where "us = [u]" | u v r where "us = u # v # r"
    by (metis neq_Nil_conv)
  then show ?thesis
  proof cases
    case (1 u)
    with hash_doSelect_member [of "[u]" md5 ip] show ?thesis by (auto simp: hash_select_def lb_select_def)
  qed (simp add: hash_select_def lb_select_def)
qed

text \<open>
  C15: Consistent hashing is consistent. Whatever the digest function, for a list with at least one
  upstream the hash balancer returns one of them without error, and taking another upstream x out
  of the list (all its virtual nodes with it) changes the choice for no client that was not
  served by x: only the clients of x move.
\<close>

theorem hash_minimal_disruption:
  assumes "us \<noteq> []"
  shows "\<exists>u\<in>set us. hash_select md5 (Some us) ip = Inr (Some u) \<and>
     (x = u \<or> hash_select md5 (Some (removeAll x us)) ip = Inr (Some u))"
proof -
  obtain u where u: "u \<in> set us" "hash_doSelect md5 us ip = Inr u"
    using hash_doSelect_member [OF assms] by blast
  have "hash_select md5 (Some (removeAll x us)) ip = Inr (Some u)" if "x \<noteq> u"
  proof -
    have "removeAll x us \<noteq> []" using removeAll_nonempty [OF u(1)] that by metis
    then show ?thesis using hash_doSelect_remove [OF u(2) _ assms] that
      by (simp add: hash_select_doSelect)
  qed
  with u assms show ?thesis by (auto simp: hash_select_doSelect)
qed

definition sample_md5 :: "string \<Rightarrow> 8 word list" where
  "sample_md5 s = map (\<lambda>i. of_nat (sum_list (map of_char s) + i)) [0..<16]"

lemma hash_minimal_disruption_witness:
  "\<exists>u\<in>{sample_upstream ''a'' 1, sample_upstream ''b'' 1}.
     hash_select sample_md5 (Some [sample_upstream ''a'' 1, sample_upstream ''b'' 1]) ''10.0.0.1'' = Inr (Some u)"
  using hash_minimal_disruption [of "[sample_upstream ''a'' 1, sample_upstream ''b'' 1]" sample_md5 "''10.0.0.1''"]
  by (auto simp: sample_upstream_def)

text \<open>
  The ring positions are the 32 bit values of the digest prefix: for every key, the hash the code
  keeps in a long is at least 0 and below 2^32, so no virtual node gets a negative position.
\<close>

theorem lb_hash_range: "0 \<le> sint (lb_hash md5 key) \<and> sint (lb_hash md5 key) < 2 ^ 32"
proof -
  obtain c :: "64 word" where c: "lb_hash md5 key = c AND 0xffffffff"
    unfolding lb_hash_def Let_def by blast
  have "(0xffffffff :: 64 word) = mask 32" by (simp add: mask_eq_exp_minus_1)
  then have h: "lb_hash md5 key = take_bit 32 c" by (simp add: c take_bit_eq_mask)
  have u: "uint (take_bit 32 c) = take_bit 32 (uint c)" by (simp add: unsigned_take_bit_eq)
  have r: "0 \<le> uint (take_bit 32 c)" "uint (take_bit 32 c) < 2 ^ 32"
    unfolding u using take_bit_int_less_exp [of 32 "uint c"] by simp_all
  have "signed_take_bit 63 (uint (take_bit 32 c)) = uint (take_bit 32 c)"
  proof (rule signed_take_bit_int_eq_self)
    show "- (2 ^ 63) \<le> uint (take_bit 32 c)" by (rule order_trans [of _ 0]) simp_all
    show "uint (take_bit 32 c) < 2 ^ 63" using r(2) by simp
  qed
  then have "sint (take_bit 32 c) = uint (take_bit 32 c)" by (simp add: sint_uint)
  with r show ?thesis by (simp only: h)
qed

end
