(* ===== verification/Spi.thy ===== *)
theory Spi
  imports Prelude
begin

text \<open>
  \<open>ExtensionLoader\<close>: the extension classes of one interface are read from the
  \<open>META-INF/soul\<close> files, and \<open>getJoin\<close> creates one instance per class. Class loading is the
  parameter \<open>forName\<close>; an instance is an object identity, counted up by each \<open>newInstance\<close>. The
  locks make the calls atomic, so a call is a function on the loader's state.
\<close>

text \<open>What reflection tells of a class: implements the interface, carries \<open>@Join\<close>, can be instantiated.\<close>

record class_info =
  ci_assignable :: bool
  ci_join :: bool
  ci_instantiable :: bool

record extension_config =
  ec_clazz :: string
  ec_spiValue :: "string option"
  ec_files :: "(string \<times> string) list list"
  ec_forName :: "string \<Rightarrow> class_info option"

record extension_loader =
  el_cachedClasses :: "(string \<rightharpoonup> string) option"
  el_cachedInstances :: "string \<rightharpoonup> nat option"
  el_joinInstances :: "string \<rightharpoonup> nat"
  el_cachedDefaultName :: "string option"
  el_created :: nat

definition new_extension_loader :: extension_loader where
  "new_extension_loader = \<lparr>el_cachedClasses = None, el_cachedInstances = Map.empty,
     el_joinInstances = Map.empty, el_cachedDefaultName = None, el_created = 0\<rparr>"

subsection \<open>Loading the classes\<close>

definition loadClass :: "extension_config \<Rightarrow> string \<Rightarrow> string \<Rightarrow> (string \<rightharpoonup> string) \<Rightarrow> (string \<rightharpoonup> string) jres" where
  "loadClass cfg name classPath classes =
     (case ec_forName cfg classPath of
        None \<Rightarrow> Inl (IllegalState ''load extension resources error'')
      | Some ci \<Rightarrow>
          if \<not> ci_assignable ci then
            Inl (IllegalState (''load extension resources error,class '' @ classPath
                 @ '' subtype is not of interface '' @ ec_clazz cfg))
          else if \<not> ci_join ci then
            Inl (IllegalState (''load extension resources error,class '' @ classPath @ ''with Join annotation''))
          else (case classes name of
              None \<Rightarrow> Inr (classes(name \<mapsto> classPath))
            | Some oldClass \<Rightarrow>
                if oldClass \<noteq> classPath then
                  Inl (IllegalState (''load extension resources error,Duplicate class '' @ ec_clazz cfg
                    @ ''name '' @ name @ '' on '' @ oldClass @ '' or'' @ classPath))
                else Inr classes))"

fun loadResources :: "extension_config \<Rightarrow> (string \<times> string) list \<Rightarrow> (string \<rightharpoonup> string) \<Rightarrow> (string \<rightharpoonup> string) jres" where
  "loadResources cfg [] classes = Inr classes"
| "loadResources cfg ((k, v) # ps) classes =
     (if \<not> is_blank (Some k) \<and> \<not> is_blank (Some v)
      then bindr (loadClass cfg k v classes) (loadResources cfg ps)
      else loadResources cfg ps classes)"

fun loadDirectory :: "extension_config \<Rightarrow> (string \<times> string) list list \<Rightarrow> (string \<rightharpoonup> string) \<Rightarrow> (string \<rightharpoonup> string) jres" where
  "loadDirectory cfg [] classes = Inr classes"
| "loadDirectory cfg (f # fs) classes = bindr (loadResources cfg f classes) (loadDirectory cfg fs)"

definition loadExtensionClass ::
  "extension_config \<Rightarrow> extension_loader \<Rightarrow> (string \<rightharpoonup> string) jres \<times> extension_loader" where
  "loadExtensionClass cfg el =
     (let el' = (if is_blank (ec_spiValue cfg) then el else el\<lparr>el_cachedDefaultName := ec_spiValue cfg\<rparr>)
      in (loadDirectory cfg (ec_files cfg) Map.empty, el'))"

definition getExtensionClasses ::
  "extension_config \<Rightarrow> extension_loader \<Rightarrow> (string \<rightharpoonup> string) jres \<times> extension_loader" where
  "getExtensionClasses cfg el =
     (case el_cachedClasses el of
        Some classes \<Rightarrow> (Inr classes, el)
      | None \<Rightarrow> (case loadExtensionClass cfg el of
            (Inl e, el') \<Rightarrow> (Inl e, el')
          | (Inr classes, el') \<Rightarrow> (Inr classes, el'\<lparr>el_cachedClasses := Some classes\<rparr>)))"

subsection \<open>Instances\<close>

definition createExtension :: "extension_config \<Rightarrow> string \<Rightarrow> extension_loader \<Rightarrow> nat jres \<times> extension_loader" where
  "createExtension cfg name el =
     (case getExtensionClasses cfg el of
        (Inl e, el1) \<Rightarrow> (Inl e, el1)
      | (Inr classes, el1) \<Rightarrow>
          (case classes name of
             None \<Rightarrow> (Inl (IllegalArgument ''name is error''), el1)
           | Some aClass \<Rightarrow>
               (case el_joinInstances el1 aClass of
                  Some ob \<Rightarrow> (Inr ob, el1)
                | None \<Rightarrow>
                    (case ec_forName cfg aClass of
                       Some ci \<Rightarrow>
                         if ci_instantiable ci then
                           (Inr (el_created el1),
                            el1\<lparr>el_joinInstances := (el_joinInstances el1)(aClass \<mapsto> el_created el1),
                                el_created := Suc (el_created el1)\<rparr>)
                         else (Inl (IllegalState (''Extension instance(name: '' @ name @ '', class: class ''
                                 @ aClass @ '')  could not be instantiated: '')), el1)
                     | None \<Rightarrow> (Inl (IllegalState ''load extension resources error''), el1)))))"

definition getJoin :: "extension_config \<Rightarrow> string option \<Rightarrow> extension_loader \<Rightarrow> nat jres \<times> extension_loader" where
  "getJoin cfg nameOpt el =
     (case nameOpt of
        None \<Rightarrow> (Inl NullPointer, el)
      | Some name \<Rightarrow>
          if is_blank (Some name) then (Inl NullPointer, el)
          else
            (let el1 = (case el_cachedInstances el name of
                          None \<Rightarrow> el\<lparr>el_cachedInstances := (el_cachedInstances el)(name \<mapsto> None)\<rparr>
                        | Some _ \<Rightarrow> el)
             in case el_cachedInstances el1 name of
                  Some (Some ob) \<Rightarrow> (Inr ob, el1)
                | _ \<Rightarrow> (case createExtension cfg name el1 of
                      (Inl e, el2) \<Rightarrow> (Inl e, el2)
                    | (Inr ob, el2) \<Rightarrow>
                        (Inr ob, el2\<lparr>el_cachedInstances := (el_cachedInstances el2)(name \<mapsto> Some ob)\<rparr>))))"

definition getDefaultJoin :: "extension_config \<Rightarrow> extension_loader \<Rightarrow> nat option jres \<times> extension_loader" where
  "getDefaultJoin cfg el =
     (case getExtensionClasses cfg el of
        (Inl e, el1) \<Rightarrow> (Inl e, el1)
      | (Inr _, el1) \<Rightarrow>
          if is_blank (el_cachedDefaultName el1) then (Inr None, el1)
          else (case getJoin cfg (el_cachedDefaultName el1) el1 of
              (Inl e, el2) \<Rightarrow> (Inl e, el2)
            | (Inr ob, el2) \<Rightarrow> (Inr (Some ob), el2)))"

subsection \<open>One instance per class\<close>

text \<open>
  The invariant of a loader: the classes are those of the files, each class has its own object, and
  a filled holder has the object of the class its name is bound to.
\<close>

definition loader_ok :: "extension_config \<Rightarrow> extension_loader \<Rightarrow> bool" where
  "loader_ok cfg el \<longleftrightarrow>
     (\<forall>classes. el_cachedClasses el = Some classes \<longrightarrow> loadDirectory cfg (ec_files cfg) Map.empty = Inr classes) \<and>
     inj_on (el_joinInstances el) (dom (el_joinInstances el)) \<and>
     (\<forall>c ob. el_joinInstances el c = Some ob \<longrightarrow> ob < el_created el) \<and>
     (\<forall>n ob. el_cachedInstances el n = Some (Some ob) \<longrightarrow>
        (\<exists>classes c. el_cachedClasses el = Some classes \<and> classes n = Some c \<and> el_joinInstances el c = Some ob))"

lemma loader_ok_new: "loader_ok cfg new_extension_loader"
  by (simp add: loader_ok_def new_extension_loader_def)

lemma getExtensionClasses_ok:
  assumes "loader_ok cfg el" and "getExtensionClasses cfg el = (r, el1)"
  shows "loader_ok cfg el1 \<and> r = loadDirectory cfg (ec_files cfg) Map.empty
     \<and> el_joinInstances el1 = el_joinInstances el \<and> el_cachedInstances el1 = el_cachedInstances el
     \<and> (\<forall>classes. r = Inr classes \<longrightarrow> el_cachedClasses el1 = Some classes)"
  using assms
  by (auto simp: getExtensionClasses_def loadExtensionClass_def Let_def loader_ok_def
      split: option.splits sum.splits if_splits)

lemma createExtension_ok:
  assumes "loader_ok cfg el" and "createExtension cfg n el = (r, el1)"
  shows "loader_ok cfg el1 \<and> el_cachedInstances el1 = el_cachedInstances el
     \<and> (\<forall>ob. r = Inr ob \<longrightarrow> (\<exists>classes c. el_cachedClasses el1 = Some classes
            \<and> loadDirectory cfg (ec_files cfg) Map.empty = Inr classes
            \<and> classes n = Some c \<and> el_joinInstances el1 c = Some ob))
     \<and> (\<forall>c ob. el_joinInstances el c = Some ob \<longrightarrow> el_joinInstances el1 c = Some ob)"
proof -
  obtain r0 el0 where g: "getExtensionClasses cfg el = (r0, el0)" by fastforce
  have l: "loader_ok cfg el0" and ld: "r0 = loadDirectory cfg (ec_files cfg) Map.empty"
    and ji: "el_joinInstances el0 = el_joinInstances el"
    and hs: "el_cachedInstances el0 = el_cachedInstances el"
    and cc: "\<forall>classes. r0 = Inr classes \<longrightarrow> el_cachedClasses el0 = Some classes"
    using getExtensionClasses_ok [OF assms(1) g] by simp_all
  have same: ?thesis if "el1 = el0" "\<forall>ob. r \<noteq> Inr ob"
    using that l ji hs by simp
  show ?thesis
  proof (cases r0)
    case (Inl e)
    with assms(2) g show ?thesis by (intro same) (auto simp: createExtension_def)
  next
    case (Inr classes)
    note cl = cc [rule_format, OF Inr] ld [unfolded Inr, symmetric]
    show ?thesis
    proof (cases "classes n")
      case None
      with Inr assms(2) g show ?thesis by (intro same) (auto simp: createExtension_def)
    next
      case (Some c)
      note n = Some
      show ?thesis
      proof (cases "el_joinInstances el0 c")
        case (Some ob)
        with n Inr assms(2) g have "r = Inr ob" "el1 = el0" by (auto simp: createExtension_def)
        with Some n cl l ji hs show ?thesis by auto
      next
        case None
        show ?thesis
        proof (cases "\<exists>ci. ec_forName cfg c = Some ci \<and> ci_instantiable ci")
          case False
          with None n Inr assms(2) g show ?thesis
            by (intro same) (auto simp: createExtension_def split: option.splits if_splits)
        next
          case True
          let ?el1 = "el0\<lparr>el_joinInstances := (el_joinInstances el0)(c \<mapsto> el_created el0),
                          el_created := Suc (el_created el0)\<rparr>"
          have e: "r = Inr (el_created el0)" "el1 = ?el1"
            using True None n Inr assms(2) g by (auto simp: createExtension_def)
          have lt: "\<forall>d ob. el_joinInstances el0 d = Some ob \<longrightarrow> ob < el_created el0"
            and inj: "inj_on (el_joinInstances el0) (dom (el_joinInstances el0))"
            using l by (simp_all add: loader_ok_def)
          have "inj_on (el_joinInstances ?el1) (dom (el_joinInstances ?el1))"
            using inj lt by (fastforce simp: inj_on_def)
          moreover have "\<forall>d ob. el_joinInstances ?el1 d = Some ob \<longrightarrow> ob < el_created ?el1"
            using lt by (auto simp: less_SucI)
          moreover have "\<forall>m ob. el_cachedInstances ?el1 m = Some (Some ob) \<longrightarrow>
            (\<exists>classes d. el_cachedClasses ?el1 = Some classes \<and> classes m = Some d
               \<and> el_joinInstances ?el1 d = Some ob)"
            using l None unfolding loader_ok_def by fastforce
          ultimately have "loader_ok cfg ?el1"
            using l unfolding loader_ok_def by simp
          with e n cl None ji hs show ?thesis by auto
        qed
      qed
    qed
  qed
qed

lemma loader_ok_holder:
  "loader_ok cfg el \<Longrightarrow> el_cachedInstances el n = None \<Longrightarrow>
     loader_ok cfg (el\<lparr>el_cachedInstances := (el_cachedInstances el)(n \<mapsto> None)\<rparr>)"
  by (auto simp: loader_ok_def)

lemma getJoin_ok:
  assumes "loader_ok cfg el" and "getJoin cfg (Some n) el = (r, el1)"
  shows "loader_ok cfg el1
     \<and> (\<forall>ob. r = Inr ob \<longrightarrow> (\<exists>classes c. loadDirectory cfg (ec_files cfg) Map.empty = Inr classes
            \<and> classes n = Some c \<and> el_joinInstances el1 c = Some ob))
     \<and> (\<forall>c ob. el_joinInstances el c = Some ob \<longrightarrow> el_joinInstances el1 c = Some ob)"
proof (cases "is_blank (Some n)")
  case True
  with assms show ?thesis by (auto simp: getJoin_def)
next
  case False
  let ?el0 = "case el_cachedInstances el n of
                None \<Rightarrow> el\<lparr>el_cachedInstances := (el_cachedInstances el)(n \<mapsto> None)\<rparr> | Some _ \<Rightarrow> el"
  have ok0: "loader_ok cfg ?el0" using assms(1) loader_ok_holder by (auto split: option.splits)
  have ji: "el_joinInstances ?el0 = el_joinInstances el" by (simp split: option.splits)
  show ?thesis
  proof (cases "\<exists>ob. el_cachedInstances ?el0 n = Some (Some ob)")
    case True
    then obtain ob where h: "el_cachedInstances ?el0 n = Some (Some ob)" by blast
    with False assms(2) have e: "r = Inr ob" "el1 = ?el0" by (auto simp: getJoin_def Let_def)
    from ok0 h obtain classes c where "el_cachedClasses ?el0 = Some classes" "classes n = Some c"
      "el_joinInstances ?el0 c = Some ob" "loadDirectory cfg (ec_files cfg) Map.empty = Inr classes"
      unfolding loader_ok_def by blast
    with e ok0 ji show ?thesis by auto
  next
    case nh: False
    obtain r2 el2 where c: "createExtension cfg n ?el0 = (r2, el2)" by fastforce
    note ok2 = createExtension_ok [OF ok0 c]
    have e: "r = r2" "el1 = (case r2 of Inl _ \<Rightarrow> el2
        | Inr ob \<Rightarrow> el2\<lparr>el_cachedInstances := (el_cachedInstances el2)(n \<mapsto> Some ob)\<rparr>)"
      using False nh assms(2) c
      by (auto simp: getJoin_def Let_def split: option.splits sum.splits prod.splits)
    show ?thesis
    proof (cases r2)
      case (Inl x)
      with e ok2 ji show ?thesis by auto
    next
      case (Inr ob)
      then obtain classes k where k: "el_cachedClasses el2 = Some classes"
        "loadDirectory cfg (ec_files cfg) Map.empty = Inr classes" "classes n = Some k"
        "el_joinInstances el2 k = Some ob" using ok2 by blast
      have "loader_ok cfg (el2\<lparr>el_cachedInstances := (el_cachedInstances el2)(n \<mapsto> Some ob)\<rparr>)"
        using ok2 k by (auto simp: loader_ok_def)
      with Inr e k ok2 ji show ?thesis by auto
    qed
  qed
qed

fun getJoins :: "extension_config \<Rightarrow> string list \<Rightarrow> extension_loader \<Rightarrow> nat jres list \<times> extension_loader" where
  "getJoins cfg [] el = ([], el)"
| "getJoins cfg (n # ns) el =
     (case getJoin cfg (Some n) el of (r, el1) \<Rightarrow> (case getJoins cfg ns el1 of (rs, el2) \<Rightarrow> (r # rs, el2)))"

lemma getJoins_objects:
  assumes "loader_ok cfg el" and "getJoins cfg ns el = (rs, el1)"
  shows "loader_ok cfg el1 \<and> length rs = length ns \<and>
     (\<forall>i ob. i < length ns \<and> rs ! i = Inr ob \<longrightarrow> (\<exists>classes c. loadDirectory cfg (ec_files cfg) Map.empty = Inr classes
            \<and> classes (ns ! i) = Some c \<and> el_joinInstances el1 c = Some ob))
     \<and> (\<forall>c ob. el_joinInstances el c = Some ob \<longrightarrow> el_joinInstances el1 c = Some ob)"
  using assms
proof (induction ns arbitrary: el rs)
  case Nil
  then show ?case by simp
next
  case (Cons n ns)
  obtain r el0 where g: "getJoin cfg (Some n) el = (r, el0)" by fastforce
  obtain rs' where gs: "getJoins cfg ns el0 = (rs', el1)" "rs = r # rs'"
    using Cons.prems(2) g by (auto split: prod.splits)
  note a = getJoin_ok [OF Cons.prems(1) g]
  note b = Cons.IH [OF _ gs(1)]
  have "\<exists>classes c. loadDirectory cfg (ec_files cfg) Map.empty = Inr classes
            \<and> classes ((n # ns) ! i) = Some c \<and> el_joinInstances el1 c = Some ob"
    if "i < length (n # ns)" "rs ! i = Inr ob" for i ob
  proof (cases i)
    case 0
    with that gs(2) a b show ?thesis by (metis nth_Cons_0)
  next
    case (Suc j)
    with that gs(2) a b show ?thesis by auto
  qed
  with a b gs show ?case by auto
qed

text \<open>
  C22: Extensions are singletons per class. In any sequence of \<open>getJoin\<close> calls on a fresh loader, two
  calls that return an object return the same object exactly when their names are bound to the
  same class in the extension files.
\<close>

theorem extension_singletons:
  assumes "getJoins cfg ns new_extension_loader = (rs, el)"
    and "i < length ns" and "j < length ns" and "rs ! i = Inr a" and "rs ! j = Inr b"
  shows "\<exists>classes. loadDirectory cfg (ec_files cfg) Map.empty = Inr classes
     \<and> (a = b \<longleftrightarrow> classes (ns ! i) = classes (ns ! j))"
proof -
  note o = getJoins_objects [OF loader_ok_new assms(1)]
  obtain classes c where c: "loadDirectory cfg (ec_files cfg) Map.empty = Inr classes"
    "classes (ns ! i) = Some c" "el_joinInstances el c = Some a" using o assms(2,4) by blast
  obtain classes' d where d: "loadDirectory cfg (ec_files cfg) Map.empty = Inr classes'"
    "classes' (ns ! j) = Some d" "el_joinInstances el d = Some b" using o assms(3,5) by blast
  have inj: "inj_on (el_joinInstances el) (dom (el_joinInstances el))"
    using o by (simp add: loader_ok_def)
  have "c = d" if "a = b"
    by (rule inj_onD [OF inj]) (use c(3) d(3) that in auto)
  then have "a = b \<longleftrightarrow> c = d" using c(3) d(3) by auto
  with c d show ?thesis by auto
qed

definition strategy_config :: extension_config where
  "strategy_config = \<lparr>ec_clazz = ''MatchStrategy'', ec_spiValue = None,
     ec_files = [[(''and'', ''AndMatchStrategy''), (''or'', ''OrMatchStrategy'')]],
     ec_forName = (\<lambda>_. Some \<lparr>ci_assignable = True, ci_join = True, ci_instantiable = True\<rparr>)\<rparr>"

lemma extension_singletons_witness:
  "\<exists>classes. loadDirectory strategy_config (ec_files strategy_config) Map.empty = Inr classes
     \<and> ((0::nat) = 0 \<longleftrightarrow> classes ''or'' = classes ''or'')"
proof -
  have "fst (getJoins strategy_config [''or'', ''and'', ''or''] new_extension_loader) = [Inr 0, Inr 1, Inr 0]"
    by code_simp
  then obtain el where "getJoins strategy_config [''or'', ''and'', ''or''] new_extension_loader = ([Inr 0, Inr 1, Inr 0], el)"
    by (metis prod.collapse)
  from extension_singletons [OF this, of 0 2 0 0] show ?thesis by simp
qed

end
