(* ===== verification/Divide.thy ===== *)
theory Divide
  imports PluginChain LoadBalance Spi
begin

text \<open>
  The divide plugin: \<open>UpstreamCacheManager\<close> with its health check (\<open>UpstreamCheckUtils\<close>), the data
  handler that feeds it, \<open>LoadBalanceUtils\<close> and the plugin itself, which turns the chosen upstream
  into the target url. Gson, sockets, the random generator, the clock and MD5 are the fields of
  \<open>divide_env\<close>.
\<close>

record divide_env =
  de_fromUpstreamList :: "string option \<Rightarrow> divide_upstream list option jres"
  de_fromRuleHandle :: "string option \<Rightarrow> divide_rule_handle option jres"
  de_rnd :: "nat \<Rightarrow> int \<Rightarrow> int"
  de_now :: int
  de_md5 :: "string \<Rightarrow> 8 word list"
  de_connect :: "string \<Rightarrow> int \<Rightarrow> bool"
  de_reachable :: "string \<Rightarrow> bool"

subsection \<open>\<open>UpstreamCheckUtils\<close>\<close>

text \<open>One number of the address pattern: \<open>[0,1]?\d?\d\<close>, \<open>2[0-4]\d\<close> or \<open>25[0-5]\<close>.\<close>

definition octet :: "string \<Rightarrow> bool" where
  "octet s =
     (case s of
        [a] \<Rightarrow> is_digit a
      | [a, b] \<Rightarrow> (is_digit a \<or> a = CHR '','') \<and> is_digit b
      | [a, b, c] \<Rightarrow>
          ((a = CHR ''0'' \<or> a = CHR '','' \<or> a = CHR ''1'') \<and> is_digit b \<and> is_digit c)
          \<or> (a = CHR ''2'' \<and> b \<in> set ''01234'' \<and> is_digit c)
          \<or> (a = CHR ''2'' \<and> b = CHR ''5'' \<and> c \<in> set ''012345'')
      | _ \<Rightarrow> False)"

definition strip_scheme :: "string \<Rightarrow> string" where
  "strip_scheme url =
     (if starts_with url ''http://'' then drop 7 url
      else if starts_with url ''https://'' then drop 8 url else url)"

definition address_port :: "string \<Rightarrow> bool" where
  "address_port s =
     (case split_on (CHR ''.'') s of
        [a, b, c, d] \<Rightarrow> octet a \<and> octet b \<and> octet c \<and>
          (case split_on (CHR '':'') d of
             [o4, port] \<Rightarrow> octet o4 \<and> length port \<le> 5 \<and> list_all is_digit port
           | _ \<Rightarrow> False)
      | _ \<Rightarrow> False)"

definition checkIP :: "string \<Rightarrow> bool" where
  "checkIP url = address_port (strip_scheme url)"

text \<open>\<open>StringUtils.split(url, "\\/\\/")\<close> splits at each slash or backslash.\<close>

definition split_slashes :: "string \<Rightarrow> string list" where
  "split_slashes s =
     split_parts (CHR ''/'') (map (\<lambda>c. if c = CHR 0x5C then CHR ''/'' else c) s)"

definition array_get :: "'a list \<Rightarrow> nat \<Rightarrow> 'a jres" where
  "array_get xs i = (if i < length xs then Inr (xs ! i) else Inl IndexOutOfBounds)"

definition checkUrl :: "divide_env \<Rightarrow> string \<Rightarrow> bool jres" where
  "checkUrl de url =
     (if is_blank (Some url) then Inr False
      else if checkIP url then
        bindr (if starts_with url ''http''
               then bindr (array_get (split_slashes url) 1) (\<lambda>h. Inr (split_parts (CHR '':'') h))
               else Inr (split_parts (CHR '':'') url))
          (\<lambda>hostPort. bindr (array_get hostPort 0) (\<lambda>host.
             bindr (array_get hostPort 1) (\<lambda>p. bindr (parse_int p) (\<lambda>port.
               Inr (de_connect de host port)))))
      else Inr (de_reachable de url))"

subsection \<open>\<open>UpstreamCacheManager\<close>\<close>

type_synonym upstream_map = "string \<rightharpoonup> divide_upstream list"

definition findUpstreamListBySelectorId :: "upstream_map \<Rightarrow> string \<Rightarrow> divide_upstream list option" where
  "findUpstreamListBySelectorId m selectorId = m selectorId"

definition removeByKey :: "string \<Rightarrow> upstream_map \<Rightarrow> upstream_map" where
  "removeByKey key m = remove_key key m"

definition submit :: "divide_env \<Rightarrow> selector_data \<Rightarrow> upstream_map \<Rightarrow> upstream_map \<times> jexn option" where
  "submit de sd m =
     (case de_fromUpstreamList de (sd_handle sd) of
        Inl e \<Rightarrow> (m, Some e)
      | Inr ul \<Rightarrow>
          if the_group ul \<noteq> [] then (m(sd_id sd \<mapsto> the_group ul), None)
          else (remove_key (sd_id sd) m, None))"

definition check_upstreams :: "divide_env \<Rightarrow> divide_upstream list \<Rightarrow> divide_upstream list jres" where
  "check_upstreams de us =
     bindr (mapr (\<lambda>u. bindr (checkUrl de (du_upstreamUrl u)) (\<lambda>b. Inr (u, b))) us)
       (\<lambda>ps. Inr (map fst (filter snd ps)))"

text \<open>What \<open>scheduled\<close> writes back for one entry, from the list it has read.\<close>

definition write_checked :: "string \<Rightarrow> divide_upstream list \<Rightarrow> upstream_map \<Rightarrow> upstream_map" where
  "write_checked k result m = (if result \<noteq> [] then m(k \<mapsto> result) else remove_key k m)"

text \<open>One run of \<open>scheduled\<close> over the keys in iteration order; an exception ends it (and the task).\<close>

fun scheduled :: "divide_env \<Rightarrow> string list \<Rightarrow> upstream_map \<Rightarrow> upstream_map \<times> jexn option" where
  "scheduled de [] m = (m, None)"
| "scheduled de (k # ks) m =
     (case m k of
        None \<Rightarrow> scheduled de ks m
      | Some v \<Rightarrow> (case check_upstreams de v of
            Inl e \<Rightarrow> (m, Some e)
          | Inr result \<Rightarrow> scheduled de ks (write_checked k result m)))"

text \<open>The plugin's data handler.\<close>

definition divide_handlerSelector :: "divide_env \<Rightarrow> selector_data \<Rightarrow> upstream_map \<Rightarrow> upstream_map \<times> jexn option" where
  "divide_handlerSelector de sd m = submit de sd m"

definition divide_removeSelector :: "selector_data \<Rightarrow> upstream_map \<Rightarrow> upstream_map \<times> jexn option" where
  "divide_removeSelector sd m = (removeByKey (sd_id sd) m, None)"

definition divide_handler :: "divide_env \<Rightarrow> upstream_map plugin_data_handler" where
  "divide_handler de = (default_handler (plugin_enum_name PE_DIVIDE))
     \<lparr>ph_handlerSelector := divide_handlerSelector de, ph_removeSelector := divide_removeSelector\<rparr>"

subsection \<open>\<open>LoadBalanceUtils\<close>\<close>

definition RANDOM_CLASS :: string where "RANDOM_CLASS = ''org.dromara.soul.plugin.divide.balance.spi.RandomLoadBalance''"
definition ROUND_ROBIN_CLASS :: string where "ROUND_ROBIN_CLASS = ''org.dromara.soul.plugin.divide.balance.spi.RoundRobinLoadBalance''"
definition HASH_CLASS :: string where "HASH_CLASS = ''org.dromara.soul.plugin.divide.balance.spi.HashLoadBalance''"

text \<open>The extension file of \<open>LoadBalance\<close>; the interface's \<open>@SPI\<close> names no default.\<close>

definition load_balance_config :: extension_config where
  "load_balance_config =
     \<lparr>ec_clazz = ''org.dromara.soul.plugin.divide.balance.LoadBalance'', ec_spiValue = None,
      ec_files = [[(''random'', RANDOM_CLASS), (''roundRobin'', ROUND_ROBIN_CLASS), (''hash'', HASH_CLASS)]],
      ec_forName = (\<lambda>_. Some \<lparr>ci_assignable = True, ci_join = True, ci_instantiable = True\<rparr>)\<rparr>"

record lb_state =
  lbs_loader :: extension_loader
  lbs_roundRobin :: method_weight_map

text \<open>Dynamic dispatch on the object \<open>getJoin\<close> returned.\<close>

definition lb_dispatch ::
  "divide_env \<Rightarrow> nat \<Rightarrow> divide_upstream list option \<Rightarrow> string \<Rightarrow> lb_state \<Rightarrow>
     divide_upstream option jres \<times> lb_state" where
  "lb_dispatch de ob us ip st =
     (let cls = el_joinInstances (lbs_loader st) in
      if cls RANDOM_CLASS = Some ob then (random_select (de_rnd de) us, st)
      else if cls ROUND_ROBIN_CLASS = Some ob then
        (case roundRobin_select (de_now de) us (lbs_roundRobin st) of
           (r, m) \<Rightarrow> (r, st\<lparr>lbs_roundRobin := m\<rparr>))
      else (hash_select (de_md5 de) us ip, st))"

definition lb_selector ::
  "divide_env \<Rightarrow> divide_upstream list option \<Rightarrow> string option \<Rightarrow> string \<Rightarrow> lb_state \<Rightarrow>
     divide_upstream option jres \<times> lb_state" where
  "lb_selector de us algorithm ip st =
     (case getJoin load_balance_config algorithm (lbs_loader st) of
        (Inl e, el) \<Rightarrow> (Inl e, st\<lparr>lbs_loader := el\<rparr>)
      | (Inr ob, el) \<Rightarrow> lb_dispatch de ob us ip (st\<lparr>lbs_loader := el\<rparr>))"

subsection \<open>\<open>DividePlugin\<close>\<close>

text \<open>The fields of the plugin object, and the caches it reaches, shared by all requests.\<close>

record divide_state =
  dv_upstreamList :: "divide_upstream list option"
  dv_ruleHandle :: "divide_rule_handle option"
  dv_selectorIsNull :: bool
  dv_ruleIsNull :: bool
  dv_lb :: lb_state
  dv_upstreams :: upstream_map

definition divide_visitSelector :: "selector_data \<Rightarrow> divide_state \<Rightarrow> divide_state \<times> jexn option" where
  "divide_visitSelector sd f =
     (f\<lparr>dv_selectorIsNull := False,
        dv_upstreamList := findUpstreamListBySelectorId (dv_upstreams f) (sd_id sd)\<rparr>, None)"

definition divide_visitRule :: "divide_env \<Rightarrow> rule_data \<Rightarrow> divide_state \<Rightarrow> divide_state \<times> jexn option" where
  "divide_visitRule de rd f =
     (let f' = f\<lparr>dv_ruleIsNull := False\<rparr> in
      case de_fromRuleHandle de (rd_handle rd) of
        Inl e \<Rightarrow> (f', Some e)
      | Inr h \<Rightarrow> (f'\<lparr>dv_ruleHandle := h\<rparr>, None))"

definition buildDomain :: "divide_upstream \<Rightarrow> string" where
  "buildDomain u =
     (let protocol = (if is_blank (du_protocol u) then ''http://'' else the (du_protocol u))
      in protocol @ trim (du_upstreamUrl u))"

definition buildRealURL :: "string \<Rightarrow> soul_context option \<Rightarrow> exchange \<Rightarrow> string jres" where
  "buildRealURL domain ctx ex =
     bindr (if \<not> is_blank (ex_rewriteUri ex) then Inr (domain @ the (ex_rewriteUri ex))
            else bindr (deref ctx) (\<lambda>c.
              if \<not> is_blank (ctx_realUrl c) then Inr (domain @ the (ctx_realUrl c)) else Inr domain))
       (\<lambda>path. case rq_queryString (ex_request ex) of
          Some q \<Rightarrow> if \<not> is_blank (Some q) then Inr (path @ ''?'' @ q) else Inr path
        | None \<Rightarrow> Inr path)"

definition remote_ip :: "exchange \<Rightarrow> string jres" where
  "remote_ip ex = bindr (deref (rq_remote (ex_request ex))) (\<lambda>a. deref (ia_ip a))"

definition divide_doExecute :: "divide_env \<Rightarrow> exchange \<times> divide_state \<Rightarrow> (exchange \<times> divide_state) action" where
  "divide_doExecute de exf =
     (case exf of (ex, f) \<Rightarrow>
      let soulContext = ex_context ex; pname = plugin_enum_name PE_DIVIDE in
      if dv_selectorIsNull f then lift_action f (checkSelector2 pname ex)
      else if dv_ruleIsNull f then lift_action f (checkRule2 pname ex)
      else if the_group (dv_upstreamList f) = [] then Finish (result_of SR_CANNOT_FIND_URL ex, f)
      else act_of (ex, f) (remote_ip ex) (\<lambda>ip.
        act_of (ex, f) (deref (dv_ruleHandle f)) (\<lambda>rh.
          case lb_selector de (dv_upstreamList f) (dr_loadBalance rh) ip (dv_lb f) of
            (r, lb') \<Rightarrow>
              (let f' = f\<lparr>dv_lb := lb'\<rparr> in
               act_of (ex, f') r (\<lambda>uo. case uo of
                 None \<Rightarrow> Finish (result_of SR_CANNOT_FIND_URL ex, f')
               | Some u \<Rightarrow>
                   act_of (ex, f') (buildRealURL (buildDomain u) soulContext ex) (\<lambda>realURL.
                     Next (ex\<lparr>ex_httpUrl := Some realURL, ex_httpTimeOut := Some (dr_timeout rh)\<rparr>, f')))))))"

definition divide_skip :: "exchange \<Rightarrow> bool jres" where
  "divide_skip ex = bindr (deref (ex_context ex)) (\<lambda>c. Inr (ctx_rpcType c \<noteq> Some (rpc_type_name RPC_HTTP)))"

definition divide_plugin :: "divide_env \<Rightarrow> divide_state plugin_impl" where
  "divide_plugin de = \<lparr>pi_named = plugin_enum_name PE_DIVIDE, pi_visitSelector = divide_visitSelector,
     pi_visitRule = divide_visitRule de, pi_doExecute = divide_doExecute de\<rparr>"

definition divide_getOrder :: int where
  "divide_getOrder = plugin_enum_code PE_DIVIDE"

subsection \<open>The health check\<close>

definition reachable :: "divide_env \<Rightarrow> divide_upstream \<Rightarrow> bool" where
  "reachable de u \<longleftrightarrow> checkUrl de (du_upstreamUrl u) = Inr True"

lemma check_upstreams_total:
  assumes "\<And>u. u \<in> set us \<Longrightarrow> \<exists>b. checkUrl de (du_upstreamUrl u) = Inr b"
  shows "check_upstreams de us = Inr (filter (reachable de) us)"
proof -
  have "mapr (\<lambda>u. bindr (checkUrl de (du_upstreamUrl u)) (\<lambda>b. Inr (u, b))) us
      = Inr (map (\<lambda>u. (u, reachable de u)) us)"
  proof (rule mapr_total)
    fix u assume "u \<in> set us"
    with assms obtain b where "checkUrl de (du_upstreamUrl u) = Inr b" by blast
    then show "bindr (checkUrl de (du_upstreamUrl u)) (\<lambda>b. Inr (u, b)) = Inr (u, reachable de u)"
      by (simp add: reachable_def)
  qed
  then show ?thesis by (simp add: check_upstreams_def filter_map comp_def)
qed

text \<open>
  What the health check leaves. If every configured url can be checked, one run over all keys
  keeps for each selector exactly its reachable upstreams in their order, drops a selector whose
  upstreams are all down, and raises nothing.
\<close>

theorem scheduled_keeps_reachable:
  assumes "distinct ks" and "dom m \<subseteq> set ks"
    and "\<forall>v\<in>ran m. \<forall>u\<in>set v. \<exists>b. checkUrl de (du_upstreamUrl u) = Inr b"
  shows "scheduled de ks m =
     ((\<lambda>k. case m k of None \<Rightarrow> None
        | Some v \<Rightarrow> if filter (reachable de) v = [] then None else Some (filter (reachable de) v)), None)"
proof -
  have gen: "scheduled de ks m =
     ((\<lambda>k. if k \<in> set ks then (case m k of None \<Rightarrow> None
        | Some v \<Rightarrow> if filter (reachable de) v = [] then None else Some (filter (reachable de) v))
        else m k), None)"
    if "distinct ks" "\<forall>k\<in>set ks. \<forall>v. m k = Some v \<longrightarrow> (\<forall>u\<in>set v. \<exists>b. checkUrl de (du_upstreamUrl u) = Inr b)"
    for ks m using that
  proof (induction ks arbitrary: m)
    case Nil
    then show ?case by simp
  next
    case (Cons k ks)
    show ?case
    proof (cases "m k")
      case None
      then show ?thesis using Cons by (auto simp: fun_eq_iff)
    next
      case (Some v)
      have c: "check_upstreams de v = Inr (filter (reachable de) v)"
        by (rule check_upstreams_total) (use Cons.prems Some in auto)
      let ?m = "write_checked k (filter (reachable de) v) m"
      have m: "?m j = m j" if "j \<noteq> k" for j using that by (simp add: write_checked_def)
      have mk: "?m k = (if filter (reachable de) v = [] then None else Some (filter (reachable de) v))"
        by (simp add: write_checked_def)
      have "scheduled de ks ?m = ((\<lambda>j. if j \<in> set ks then (case ?m j of None \<Rightarrow> None
        | Some v \<Rightarrow> if filter (reachable de) v = [] then None else Some (filter (reachable de) v))
        else ?m j), None)"
      proof (rule Cons.IH)
        show "distinct ks" using Cons.prems(1) by simp
        show "\<forall>j\<in>set ks. \<forall>w. ?m j = Some w \<longrightarrow> (\<forall>u\<in>set w. \<exists>b. checkUrl de (du_upstreamUrl u) = Inr b)"
        proof
          fix j assume j: "j \<in> set ks"
          with Cons.prems(1) have "j \<noteq> k" by auto
          with m [OF this] j Cons.prems(2)
          show "\<forall>w. ?m j = Some w \<longrightarrow> (\<forall>u\<in>set w. \<exists>b. checkUrl de (du_upstreamUrl u) = Inr b)" by simp
        qed
      qed
      moreover have "\<forall>j\<in>set ks. ?m j = m j" using m Cons.prems(1) by (metis distinct.simps(2))
      ultimately show ?thesis using Some c m mk Cons.prems(1) by (auto simp: fun_eq_iff)
    qed
  qed
  have "\<forall>k\<in>set ks. \<forall>v. m k = Some v \<longrightarrow> (\<forall>u\<in>set v. \<exists>b. checkUrl de (du_upstreamUrl u) = Inr b)"
    using assms(3) by (auto simp: ran_def)
  from gen [OF assms(1) this] assms(2) show ?thesis by (auto simp: fun_eq_iff domIff split: option.splits)
qed

definition sample_divide_env :: divide_env where
  "sample_divide_env = \<lparr>de_fromUpstreamList = (\<lambda>_. Inr None),
     de_fromRuleHandle = (\<lambda>h. Inr (Some (default_divide_rule_handle\<lparr>dr_loadBalance := Some ''hash''\<rparr>))),
     de_rnd = (\<lambda>_ _. 0), de_now = 0, de_md5 = sample_md5,
     de_connect = (\<lambda>h p. h = ''10.0.0.1''), de_reachable = (\<lambda>_. False)\<rparr>"

lemma scheduled_keeps_reachable_witness:
  "fst (scheduled sample_divide_env [''s'']
     [''s'' \<mapsto> [sample_upstream ''10.0.0.1:80'' 1, sample_upstream ''10.0.0.2:80'' 1]]) ''s''
     = Some [sample_upstream ''10.0.0.1:80'' 1]"
proof -
  let ?u1 = "sample_upstream ''10.0.0.1:80'' 1" and ?u2 = "sample_upstream ''10.0.0.2:80'' 1"
  have c: "checkUrl sample_divide_env (du_upstreamUrl ?u1) = Inr True"
    "checkUrl sample_divide_env (du_upstreamUrl ?u2) = Inr False" by code_simp+
  have "\<forall>v\<in>ran [''s'' \<mapsto> [?u1, ?u2]]. \<forall>u\<in>set v. \<exists>b. checkUrl sample_divide_env (du_upstreamUrl u) = Inr b"
    using c by auto
  from scheduled_keeps_reachable [OF _ _ this, of "[''s'']"] c show ?thesis
    by (simp add: reachable_def)
qed

text \<open>
  A url without a port number stops the health check. The address pattern accepts an empty port
  (\<open>10.0.0.1:\<close>), the split then has no second part, and the array access throws: the run ends
  with an index exception at that entry, whatever the state of the network.
\<close>

theorem scheduled_empty_port:
  "checkIP ''10.0.0.1:'' \<and> checkUrl de ''10.0.0.1:'' = Inl IndexOutOfBounds
   \<and> scheduled de (k # ks) [k \<mapsto> sample_upstream ''10.0.0.1:'' w # us]
       = ([k \<mapsto> sample_upstream ''10.0.0.1:'' w # us], Some IndexOutOfBounds)"
proof -
  have ip: "checkIP ''10.0.0.1:''" by code_simp
  have nb: "\<not> is_blank (Some ''10.0.0.1:'')" by code_simp
  have st: "starts_with ''10.0.0.1:'' ''http'' = False" by code_simp
  have sp: "split_parts (CHR '':'') ''10.0.0.1:'' = [''10.0.0.1'']" by code_simp
  have c: "checkUrl de ''10.0.0.1:'' = Inl IndexOutOfBounds"
    by (simp only: checkUrl_def ip nb st sp if_True if_False bindr_simps array_get_def) simp
  then have "scheduled de (k # ks) [k \<mapsto> sample_upstream ''10.0.0.1:'' w # us]
       = ([k \<mapsto> sample_upstream ''10.0.0.1:'' w # us], Some IndexOutOfBounds)"
    by (simp add: check_upstreams_def sample_upstream_def)
  with ip c show ?thesis by blast
qed

text \<open>
  The health check can undo a configuration change. If a selector is republished between the moment
  \<open>scheduled\<close> reads its upstreams and the moment it writes the checked list back, the written value is
  the old list's survivors: the new upstreams are lost until the next publication.
\<close>

theorem scheduled_lost_update:
  assumes "check_upstreams de old = Inr result" and "result \<noteq> []" and "sd_id sd = k"
  shows "write_checked k result (fst (submit de sd m)) k = Some result
     \<and> (\<forall>new. de_fromUpstreamList de (sd_handle sd) = Inr (Some new) \<and> new \<noteq> [] \<longrightarrow>
          fst (submit de sd (write_checked k result m)) k = Some new)"
  using assms by (auto simp: write_checked_def submit_def)

lemma scheduled_lost_update_witness:
  "write_checked ''s1'' [sample_upstream ''10.0.0.1:80'' 1]
     (fst (submit (sample_divide_env\<lparr>de_fromUpstreamList := (\<lambda>_. Inr (Some [sample_upstream ''10.0.0.9:80'' 1]))\<rparr>)
        (sample_selector ''s1'' 1 1) Map.empty)) ''s1'' = Some [sample_upstream ''10.0.0.1:80'' 1]"
proof -
  let ?de = "sample_divide_env\<lparr>de_fromUpstreamList := (\<lambda>_. Inr (Some [sample_upstream ''10.0.0.9:80'' 1]))\<rparr>"
  have "check_upstreams ?de [sample_upstream ''10.0.0.1:80'' 1] = Inr [sample_upstream ''10.0.0.1:80'' 1]"
    by code_simp
  from scheduled_lost_update [OF this, of "sample_selector ''s1'' 1 1" "''s1''" Map.empty] show ?thesis
    by (simp add: sample_selector_def)
qed

subsection \<open>Choosing the balancer\<close>

lemma load_balance_classes:
  "loadDirectory load_balance_config (ec_files load_balance_config) Map.empty =
     Inr [''random'' \<mapsto> RANDOM_CLASS, ''roundRobin'' \<mapsto> ROUND_ROBIN_CLASS, ''hash'' \<mapsto> HASH_CLASS]"
  by (simp add: load_balance_config_def loadClass_def is_blank_def is_whitespace_def RANDOM_CLASS_def
      ROUND_ROBIN_CLASS_def HASH_CLASS_def)

lemma lb_classes_distinct:
  "RANDOM_CLASS \<noteq> ROUND_ROBIN_CLASS" "RANDOM_CLASS \<noteq> HASH_CLASS" "ROUND_ROBIN_CLASS \<noteq> HASH_CLASS"
  by (simp_all add: RANDOM_CLASS_def ROUND_ROBIN_CLASS_def HASH_CLASS_def)

lemma getJoin_ok_total:
  assumes "loader_ok load_balance_config el" and "n \<in> {''random'', ''roundRobin'', ''hash''}"
  shows "\<exists>ob el1. getJoin load_balance_config (Some n) el = (Inr ob, el1)"
proof -
  have nb: "\<not> is_blank (Some n)" using assms(2) by (auto simp: is_blank_def is_whitespace_def)
  have cr: "\<exists>ob e1. createExtension load_balance_config n e = (Inr ob, e1)"
    if "loader_ok load_balance_config e" for e
  proof -
    obtain r0 e0 where g: "getExtensionClasses load_balance_config e = (r0, e0)" by fastforce
    from getExtensionClasses_ok [OF that g] load_balance_classes
    have "r0 = Inr [''random'' \<mapsto> RANDOM_CLASS, ''roundRobin'' \<mapsto> ROUND_ROBIN_CLASS, ''hash'' \<mapsto> HASH_CLASS]"
      by simp
    with assms(2) g show ?thesis
      by (auto simp: createExtension_def load_balance_config_def split: option.splits)
  qed
  let ?e = "case el_cachedInstances el n of
                None \<Rightarrow> el\<lparr>el_cachedInstances := (el_cachedInstances el)(n \<mapsto> None)\<rparr> | Some _ \<Rightarrow> el"
  have "loader_ok load_balance_config ?e" using assms(1) loader_ok_holder by (auto split: option.splits)
  from cr [OF this] nb show ?thesis
    by (auto simp: getJoin_def Let_def split: option.splits)
qed

text \<open>
  The rule's algorithm selects its balancer. Whatever was loaded before, the names \<open>random\<close>,
  \<open>roundRobin\<close> and \<open>hash\<close> run exactly the balancer of that name, and a rule handle without an
  algorithm is a null pointer exception.
\<close>

theorem lb_selector_dispatch:
  assumes ok: "loader_ok load_balance_config (lbs_loader st)"
  shows "fst (lb_selector de us (Some ''random'') ip st) = random_select (de_rnd de) us
     \<and> fst (lb_selector de us (Some ''roundRobin'') ip st)
         = fst (roundRobin_select (de_now de) us (lbs_roundRobin st))
     \<and> fst (lb_selector de us (Some ''hash'') ip st) = hash_select (de_md5 de) us ip
     \<and> fst (lb_selector de us None ip st) = Inl NullPointer"
proof -
  have join: "\<exists>ob el1 c. getJoin load_balance_config (Some n) (lbs_loader st) = (Inr ob, el1)
      \<and> inj_on (el_joinInstances el1) (dom (el_joinInstances el1)) \<and> el_joinInstances el1 c = Some ob
      \<and> [''random'' \<mapsto> RANDOM_CLASS, ''roundRobin'' \<mapsto> ROUND_ROBIN_CLASS, ''hash'' \<mapsto> HASH_CLASS] n = Some c"
    if n: "n \<in> {''random'', ''roundRobin'', ''hash''}" for n
  proof -
    obtain ob el1 where g: "getJoin load_balance_config (Some n) (lbs_loader st) = (Inr ob, el1)"
      using getJoin_ok_total [OF ok n] by blast
    from getJoin_ok [OF ok g] obtain classes c where
      c: "loadDirectory load_balance_config (ec_files load_balance_config) Map.empty = Inr classes"
        "classes n = Some c" "el_joinInstances el1 c = Some ob" and l: "loader_ok load_balance_config el1"
      by blast
    from c(1) load_balance_classes have
      "classes = [''random'' \<mapsto> RANDOM_CLASS, ''roundRobin'' \<mapsto> ROUND_ROBIN_CLASS, ''hash'' \<mapsto> HASH_CLASS]"
      by simp
    moreover have "inj_on (el_joinInstances el1) (dom (el_joinInstances el1))"
      using l unfolding loader_ok_def by blast
    ultimately show ?thesis using g c(2,3) by blast
  qed
  have other: "el_joinInstances el1 d \<noteq> Some ob"
    if "inj_on (el_joinInstances el1) (dom (el_joinInstances el1))" "el_joinInstances el1 c = Some ob" "c \<noteq> d"
    for el1 c d ob
  proof
    assume "el_joinInstances el1 d = Some ob"
    with that(1,2) have "c = d" by (intro inj_onD [OF that(1)]) auto
    with that(3) show False by simp
  qed
  have "fst (lb_selector de us (Some ''random'') ip st) = random_select (de_rnd de) us"
    using join [of "''random''"] by (auto simp: lb_selector_def lb_dispatch_def)
  moreover have "fst (lb_selector de us (Some ''roundRobin'') ip st)
         = fst (roundRobin_select (de_now de) us (lbs_roundRobin st))"
  proof -
    obtain ob el1 where j: "getJoin load_balance_config (Some ''roundRobin'') (lbs_loader st) = (Inr ob, el1)"
      "inj_on (el_joinInstances el1) (dom (el_joinInstances el1))" "el_joinInstances el1 ROUND_ROBIN_CLASS = Some ob"
      using join [of "''roundRobin''"] by auto
    from other [OF j(2,3)] lb_classes_distinct j show ?thesis
      by (auto simp: lb_selector_def lb_dispatch_def split: prod.splits)
  qed
  moreover have "fst (lb_selector de us (Some ''hash'') ip st) = hash_select (de_md5 de) us ip"
  proof -
    obtain ob el1 where j: "getJoin load_balance_config (Some ''hash'') (lbs_loader st) = (Inr ob, el1)"
      "inj_on (el_joinInstances el1) (dom (el_joinInstances el1))" "el_joinInstances el1 HASH_CLASS = Some ob"
      using join [of "''hash''"] by auto
    from other [OF j(2,3)] lb_classes_distinct j show ?thesis
      by (auto simp: lb_selector_def lb_dispatch_def)
  qed
  moreover have "fst (lb_selector de us None ip st) = Inl NullPointer"
    by (simp add: lb_selector_def getJoin_def)
  ultimately show ?thesis by blast
qed

definition new_lb_state :: lb_state where
  "new_lb_state = \<lparr>lbs_loader = new_extension_loader, lbs_roundRobin = Map.empty\<rparr>"

lemma lb_selector_dispatch_witness:
  "fst (lb_selector sample_divide_env (Some [sample_upstream ''a'' 1]) (Some ''hash'') ''10.0.0.1'' new_lb_state)
     = Inr (Some (sample_upstream ''a'' 1))"
proof -
  have "loader_ok load_balance_config (lbs_loader new_lb_state)"
    by (simp add: new_lb_state_def loader_ok_new)
  from lb_selector_dispatch [OF this, of sample_divide_env "Some [sample_upstream ''a'' 1]" "''10.0.0.1''"]
  show ?thesis by (simp add: hash_select_def lb_select_def)
qed

subsection \<open>The balancers return an upstream of the list\<close>

lemma rr_scan_in:
  "rr_scan now us m tw mc s = (m', tw', mc', Some u) \<Longrightarrow> s = Some u \<or> u \<in> set us"
  by (induction us arbitrary: m tw mc s) (auto simp: Let_def split: if_splits)

lemma roundRobin_doSelect_in: "fst (roundRobin_doSelect now us st) = Inr u \<Longrightarrow> u \<in> set us"
  by (auto simp: roundRobin_doSelect_def Let_def simp del: rr_scan.simps
      split: list.splits prod.splits option.splits dest!: rr_scan_in)

lemma list_get_in: "list_get xs i = Inr x \<Longrightarrow> x \<in> set xs"
  by (auto simp: list_get_def nat_less_iff split: if_splits)

lemma random_doSelect_in:
  assumes "random_doSelect rnd us = Inr u"
  shows "u \<in> set us"
proof -
  obtain tw sw where w: "weight_scan None 0 True us = (tw, sw)" by fastforce
  from assms w consider i where "list_get us i = Inr u" | i where "pick_segment i us = Some u"
    by (cases "0 < tw \<and> \<not> sw") (auto simp: random_doSelect_def bindr_eq_Inr split: option.splits)
  then show ?thesis by cases (auto dest: list_get_in pick_segment_in)
qed

lemma hash_doSelect_in: "hash_doSelect md5 us ip = Inr u \<Longrightarrow> u \<in> set us"
  using hash_doSelect_member [of us md5 ip]
  by (cases "us = []") (auto simp: hash_doSelect_def build_ring_def hash_nodes_def ring_find_def)

lemma lb_select_in:
  assumes "\<And>st u. fst (doSelect (the_group us) st) = Inr u \<Longrightarrow> u \<in> set (the_group us)"
    and "fst (lb_select doSelect us st) = Inr (Some u)"
  shows "u \<in> set (the_group us)"
proof (cases us)
  case None
  with assms(2) show ?thesis by (simp add: lb_select_def)
next
  case (Some xs)
  consider "xs = []" | x where "xs = [x]" | x y zs where "xs = x # y # zs"
    by (metis neq_Nil_conv)
  then show ?thesis
  proof cases
    case (3 x y zs)
    with Some assms(2) have "fst (doSelect (the_group us) st) = Inr u"
      by (auto simp: lb_select_def bindr_eq_Inr split: prod.splits)
    then show ?thesis by (rule assms(1))
  qed (use Some assms(2) in \<open>auto simp: lb_select_def\<close>)
qed

lemma lb_selector_in:
  assumes "fst (lb_selector de us alg ip st) = Inr (Some u)"
  shows "u \<in> set (the_group us)"
proof -
  obtain r el where g: "getJoin load_balance_config alg (lbs_loader st) = (r, el)" by fastforce
  then obtain ob where "r = Inr ob" using assms by (cases r) (auto simp: lb_selector_def)
  with g assms have d: "fst (lb_dispatch de ob us ip (st\<lparr>lbs_loader := el\<rparr>)) = Inr (Some u)"
    by (simp add: lb_selector_def)
  consider "random_select (de_rnd de) us = Inr (Some u)"
    | "fst (roundRobin_select (de_now de) us (lbs_roundRobin st)) = Inr (Some u)"
    | "hash_select (de_md5 de) us ip = Inr (Some u)"
    using d by (auto simp: lb_dispatch_def Let_def split: if_splits prod.splits)
  then show ?thesis
  proof cases
    case 1
    then show ?thesis unfolding random_select_def
      by (rule lb_select_in [rotated]) (simp add: random_doSelect_in)
  next
    case 2
    then show ?thesis unfolding roundRobin_select_def
      by (rule lb_select_in [rotated]) (rule roundRobin_doSelect_in)
  next
    case 3
    then show ?thesis unfolding hash_select_def
      by (rule lb_select_in [rotated]) (simp add: hash_doSelect_in)
  qed
qed

subsection \<open>Where a request is sent\<close>

lemma lift_action_Next: "lift_action f a = Next (ex', f') \<longleftrightarrow> a = Next ex' \<and> f' = f"
  by (cases a) auto

lemma act_of_Next: "act_of x m k = Next y \<longleftrightarrow> (\<exists>a. m = Inr a \<and> k a = Next y)"
  by (cases m) simp_all

lemma abstract_prepare_Ready:
  assumes "abstract_prepare env c impl (ex, f) = Ready ex1 f2"
  obtains sd rd f1 where "ex1 = ex"
    "sd \<in> set (the_group (obtainSelectorData c (pi_named impl)))" "selector_matches env ex sd = Inr True"
    "rd \<in> set (the_group (obtainRuleData c (sd_id sd)))"
    "choose_rule env ex sd (the_group (obtainRuleData c (sd_id sd))) = Inr (Some rd)"
    "pi_visitSelector impl sd f = (f1, None)" "pi_visitRule impl rd f1 = (f2, None)"
proof -
  let ?sds = "the_group (obtainSelectorData c (pi_named impl))"
  obtain pd where pd: "obtainPluginData c (pi_named impl) = Some pd" "pd_enabled pd"
    using assms by (auto simp: abstract_prepare_def Let_def split: option.splits if_splits)
  have ne: "?sds \<noteq> []" using assms pd by (auto simp: abstract_prepare_def Let_def)
  obtain sd where m: "matchSelector env ex ?sds = Inr (Some sd)"
    using assms pd ne
    by (auto simp: abstract_prepare_def Let_def bindr_eq_Inr split: sum.splits)
  obtain f1 where v: "pi_visitSelector impl sd f = (f1, None)"
    using assms pd ne m by (auto simp: abstract_prepare_def Let_def split: prod.splits option.splits)
  let ?rules = "the_group (obtainRuleData c (sd_id sd))"
  have ner: "?rules \<noteq> []"
    using assms pd ne m v by (auto simp: abstract_prepare_def Let_def)
  obtain rd where r: "choose_rule env ex sd ?rules = Inr (Some rd)"
    using assms pd ne m v ner
    by (auto simp: abstract_prepare_def Let_def bindr_eq_Inr split: sum.splits)
  have w: "pi_visitRule impl rd f1 = (f2, None)" and e: "ex1 = ex"
    using assms pd ne m v ner r by (auto simp: abstract_prepare_def Let_def split: prod.splits option.splits)
  from find_first_SomeD [OF m [unfolded matchSelector_eq]]
  have "sd \<in> set ?sds" "selector_matches env ex sd = Inr True" by auto
  moreover have "rd \<in> set ?rules"
    using r ner by (auto simp: choose_rule_def matchRule_def split: if_splits dest!: find_first_SomeD)
  ultimately show thesis using that e r v w by blast
qed

lemma abstract_prepare_Ended_Next:
  assumes "abstract_prepare env c impl (ex, f) = Ended (Next y)" and "must_match (pi_named impl)"
  shows "\<forall>pd. obtainPluginData c (pi_named impl) = Some pd \<longrightarrow> \<not> pd_enabled pd"
  using assms
  by (auto simp: abstract_prepare_def Let_def checkSelector_def checkRule_def
      split: option.splits if_splits sum.splits prod.splits)

lemma divide_doExecute_Next:
  assumes "divide_doExecute de (ex, f) = Next (ex', f')"
  obtains u rh path where "u \<in> set (the_group (dv_upstreamList f))" "dv_ruleHandle f = Some rh"
    "ex_httpUrl ex' = Some (buildDomain u @ path)" "ex_httpTimeOut ex' = Some (dr_timeout rh)"
    "ex_request ex' = ex_request ex"
proof -
  from assms obtain ip rh where rh: "dv_ruleHandle f = Some rh"
    and n: "(case lb_selector de (dv_upstreamList f) (dr_loadBalance rh) ip (dv_lb f) of
            (r, lb') \<Rightarrow>
              (let f' = f\<lparr>dv_lb := lb'\<rparr> in
               act_of (ex, f') r (\<lambda>uo. case uo of
                 None \<Rightarrow> Finish (result_of SR_CANNOT_FIND_URL ex, f')
               | Some u \<Rightarrow>
                   act_of (ex, f') (buildRealURL (buildDomain u) (ex_context ex) ex) (\<lambda>realURL.
                     Next (ex\<lparr>ex_httpUrl := Some realURL, ex_httpTimeOut := Some (dr_timeout rh)\<rparr>, f'))))) = Next (ex', f')"
    by (auto simp: divide_doExecute_def Let_def lift_action_Next act_of_Next checkSelector2_def
        checkRule2_def split: if_splits)
  obtain r lb' where lb: "lb_selector de (dv_upstreamList f) (dr_loadBalance rh) ip (dv_lb f) = (r, lb')"
    by fastforce
  with n obtain u realURL where u: "r = Inr (Some u)"
    "buildRealURL (buildDomain u) (ex_context ex) ex = Inr realURL"
    "ex' = ex\<lparr>ex_httpUrl := Some realURL, ex_httpTimeOut := Some (dr_timeout rh)\<rparr>"
    by (auto simp: Let_def act_of_Next split: option.splits)
  have "u \<in> set (the_group (dv_upstreamList f))"
    by (rule lb_selector_in [of de _ "dr_loadBalance rh" ip "dv_lb f"]) (use lb u(1) in simp)
  moreover have "\<exists>path. realURL = buildDomain u @ path"
    using u(2) by (auto simp: buildRealURL_def bindr_eq_Inr split: if_splits option.splits)
  ultimately show thesis using that rh u(3) by auto
qed


definition sample_context :: soul_context where
  "sample_context = new_soul_context\<lparr>ctx_module := Some ''/http'', ctx_method := Some ''/order/findById'',
     ctx_rpcType := Some ''http'', ctx_httpMethod := Some ''GET'', ctx_path := Some ''/http/order/findById'',
     ctx_contextPath := Some ''/http'', ctx_realUrl := Some ''/order/findById''\<rparr>"

definition sample_exchange :: exchange where
  "sample_exchange = (new_exchange sample_request)\<lparr>ex_context := Some sample_context\<rparr>"

text \<open>The balancers after the hash balancer was first used.\<close>

definition warm_lb_state :: lb_state where
  "warm_lb_state = \<lparr>lbs_loader = new_extension_loader
      \<lparr>el_cachedInstances := [''hash'' \<mapsto> Some 0], el_joinInstances := [HASH_CLASS \<mapsto> 0], el_created := 1\<rparr>,
     lbs_roundRobin = Map.empty\<rparr>"

definition sample_divide_state :: divide_state where
  "sample_divide_state = \<lparr>dv_upstreamList = None, dv_ruleHandle = None, dv_selectorIsNull = False,
     dv_ruleIsNull = False, dv_lb = warm_lb_state,
     dv_upstreams = [''s1'' \<mapsto> [sample_upstream ''10.0.0.1:8080'' 1], ''s2'' \<mapsto> [sample_upstream ''10.0.0.2:8080'' 1]]\<rparr>"

lemma lb_selector_warm:
  "lb_selector de (Some [u]) (Some ''hash'') ip warm_lb_state = (Inr (Some u), warm_lb_state)"
  using lb_classes_distinct
  by (simp add: lb_selector_def getJoin_def warm_lb_state_def new_extension_loader_def is_blank_def
      is_whitespace_def lb_dispatch_def hash_select_def lb_select_def Let_def)

lemma divide_doExecute_warm:
  assumes "dv_upstreamList f = Some [u]" "dv_ruleHandle f = Some rh" "dr_loadBalance rh = Some ''hash''"
    "\<not> dv_selectorIsNull f" "\<not> dv_ruleIsNull f" "dv_lb f = warm_lb_state" "remote_ip ex = Inr ip"
    "buildRealURL (buildDomain u) (ex_context ex) ex = Inr url"
  shows "divide_doExecute de (ex, f)
     = Next (ex\<lparr>ex_httpUrl := Some url, ex_httpTimeOut := Some (dr_timeout rh)\<rparr>, f)"
proof -
  have "f\<lparr>dv_lb := warm_lb_state\<rparr> = f" using assms(6) by (cases f) simp
  with assms show ?thesis by (simp add: divide_doExecute_def lb_selector_warm)
qed

text \<open>The fields after visiting a selector and a rule.\<close>

definition sample_visited :: "string \<Rightarrow> divide_state \<Rightarrow> divide_state" where
  "sample_visited s f = f\<lparr>dv_selectorIsNull := False, dv_upstreamList := dv_upstreams f s,
     dv_ruleIsNull := False,
     dv_ruleHandle := Some (default_divide_rule_handle\<lparr>dr_loadBalance := Some ''hash''\<rparr>)\<rparr>"

lemma sample_visits:
  "divide_visitSelector sd f = (f\<lparr>dv_selectorIsNull := False, dv_upstreamList := dv_upstreams f (sd_id sd)\<rparr>, None)"
  "divide_visitRule sample_divide_env rd f = (f\<lparr>dv_ruleIsNull := False,
     dv_ruleHandle := Some (default_divide_rule_handle\<lparr>dr_loadBalance := Some ''hash''\<rparr>)\<rparr>, None)"
  by (simp_all add: divide_visitSelector_def findUpstreamListBySelectorId_def divide_visitRule_def
      sample_divide_env_def Let_def)

lemma sample_prepare:
  assumes "obtainPluginData c ''divide'' = Some pd" "pd_enabled pd" "obtainSelectorData c ''divide'' = Some sds"
    "matchSelector sample_env ex sds = Inr (Some sd)" "obtainRuleData c (sd_id sd) = Some rds"
    "choose_rule sample_env ex sd rds = Inr (Some rd)" "sds \<noteq> []" "rds \<noteq> []"
  shows "abstract_prepare sample_env c (divide_plugin sample_divide_env) (ex, f)
     = Ready ex (sample_visited (sd_id sd) f)"
  using assms
  by (simp add: abstract_prepare_def divide_plugin_def Let_def sample_visits sample_visited_def)

lemma sample_divide_run:
  "abstract_execute sample_env sample_cache (divide_plugin sample_divide_env) (sample_exchange, sample_divide_state)
   = Next (sample_exchange\<lparr>ex_httpUrl := Some ''http://10.0.0.1:8080/order/findById?id=1'', ex_httpTimeOut := Some 3000\<rparr>,
       sample_visited ''s1'' sample_divide_state)"
proof -
  have m: "matchSelector sample_env sample_exchange [sample_selector ''s1'' 1 1, sample_selector ''s2'' 2 1]
      = Inr (Some (sample_selector ''s1'' 1 1))" by code_simp
  have r: "choose_rule sample_env sample_exchange (sample_selector ''s1'' 1 1) [sample_rule_on ''r1'' ''s1'']
      = Inr (Some (sample_rule_on ''r1'' ''s1''))" by code_simp
  have p: "abstract_prepare sample_env sample_cache (divide_plugin sample_divide_env) (sample_exchange, sample_divide_state)
     = Ready sample_exchange (sample_visited (sd_id (sample_selector ''s1'' 1 1)) sample_divide_state)"
    by (rule sample_prepare [where pd = sample_plugin_data, OF _ _ _ m _ r])
      (simp_all add: sample_cache_def obtainPluginData_def obtainSelectorData_def obtainRuleData_def
        sample_plugin_data_def sample_selector_def)
  have url: "buildRealURL (buildDomain (sample_upstream ''10.0.0.1:8080'' 1)) (ex_context sample_exchange) sample_exchange
      = Inr ''http://10.0.0.1:8080/order/findById?id=1''" by code_simp
  have ip: "remote_ip sample_exchange = Inr ''127.0.0.1''" by code_simp
  show ?thesis
    by (simp add: abstract_execute_def p, simp add: divide_plugin_def,
        subst divide_doExecute_warm [OF _ _ _ _ _ _ ip url, where rh = "default_divide_rule_handle\<lparr>dr_loadBalance := Some ''hash''\<rparr>"])
      (simp_all add: sample_visited_def sample_divide_state_def sample_selector_def default_divide_rule_handle_def TIME_OUT_def)
qed


subsection \<open>Two requests on one plugin object\<close>

text \<open>
  The plugin is a singleton bean, so its fields are shared by the requests that are in flight. A
  request first goes through \<open>accept\<close> (the visits) and then runs \<open>doExecute\<close>; a schedule
  interleaves these two steps of several requests.
\<close>

datatype request_step = Visit nat | Run nat

record 'f race_state =
  rc_fields :: 'f
  rc_ready :: "nat \<rightharpoonup> exchange"
  rc_result :: "nat \<rightharpoonup> exchange action"

fun drop_fields :: "(exchange \<times> 'f) action \<Rightarrow> exchange action" where
  "drop_fields (Finish (ex, f)) = Finish ex"
| "drop_fields (Fail e (ex, f)) = Fail e ex"
| "drop_fields (Next (ex, f)) = Next ex"
| "drop_fields (NextThen (ex, f) post) =
     NextThen ex (\<lambda>ex'. case post (ex', f) of (e, (ex'', _)) \<Rightarrow> (e, ex''))"

fun action_fields :: "(exchange \<times> 'f) action \<Rightarrow> 'f" where
  "action_fields (Finish (ex, f)) = f"
| "action_fields (Fail e (ex, f)) = f"
| "action_fields (Next (ex, f)) = f"
| "action_fields (NextThen (ex, f) post) = f"

fun race_step :: "match_env \<Rightarrow> base_data_cache \<Rightarrow> 'f plugin_impl \<Rightarrow> (nat \<Rightarrow> exchange) \<Rightarrow> request_step \<Rightarrow>
    'f race_state \<Rightarrow> 'f race_state" where
  "race_step env c impl exs (Visit i) s =
     (case abstract_prepare env c impl (exs i, rc_fields s) of
        Ready ex f \<Rightarrow> s\<lparr>rc_fields := f, rc_ready := (rc_ready s)(i \<mapsto> ex)\<rparr>
      | Ended a \<Rightarrow> s\<lparr>rc_fields := action_fields a, rc_result := (rc_result s)(i \<mapsto> drop_fields a)\<rparr>)"
| "race_step env c impl exs (Run i) s =
     (case rc_ready s i of
        None \<Rightarrow> s
      | Some ex \<Rightarrow>
         (let a = pi_doExecute impl (ex, rc_fields s)
          in s\<lparr>rc_fields := action_fields a, rc_ready := (rc_ready s)(i := None),
               rc_result := (rc_result s)(i \<mapsto> drop_fields a)\<rparr>))"

definition race_run :: "match_env \<Rightarrow> base_data_cache \<Rightarrow> 'f plugin_impl \<Rightarrow> (nat \<Rightarrow> exchange) \<Rightarrow> request_step list \<Rightarrow>
    'f race_state \<Rightarrow> 'f race_state" where
  "race_run env c impl exs sched s = fold (race_step env c impl exs) sched s"

definition race_start :: "'f \<Rightarrow> 'f race_state" where
  "race_start f = \<lparr>rc_fields = f, rc_ready = Map.empty, rc_result = Map.empty\<rparr>"

definition path_condition :: "string \<Rightarrow> condition_data" where
  "path_condition p = \<lparr>cd_paramType = ''uri'', cd_operator = ''='', cd_paramName = ''/'', cd_paramValue = p\<rparr>"

text \<open>Two selectors on disjoint paths, each with its own upstream.\<close>

definition two_service_cache :: base_data_cache where
  "two_service_cache = \<lparr>PLUGIN_MAP = [''divide'' \<mapsto> sample_plugin_data],
     SELECTOR_MAP = [''divide'' \<mapsto>
        [(sample_selector ''s1'' 1 1)\<lparr>sd_conditionList := Some [path_condition ''/a'']\<rparr>,
         (sample_selector ''s2'' 2 1)\<lparr>sd_conditionList := Some [path_condition ''/b'']\<rparr>]],
     RULE_MAP = [''s1'' \<mapsto> [(sample_rule_on ''r1'' ''s1'')\<lparr>rd_conditionDataList := Some []\<rparr>],
                 ''s2'' \<mapsto> [(sample_rule_on ''r2'' ''s2'')\<lparr>rd_conditionDataList := Some []\<rparr>]]\<rparr>"

definition two_requests :: "nat \<Rightarrow> exchange" where
  "two_requests i = sample_exchange\<lparr>ex_request := sample_request\<lparr>rq_path := (if i = 0 then ''/a'' else ''/b''),
      rq_queryString := None\<rparr>\<rparr>"

fun result_url :: "exchange action option \<Rightarrow> string option" where
  "result_url (Some (Next ex)) = ex_httpUrl ex"
| "result_url _ = None"

lemma two_requests_prepare:
  "abstract_prepare sample_env two_service_cache (divide_plugin sample_divide_env) (two_requests 0, f)
     = Ready (two_requests 0) (sample_visited ''s1'' f)"
  "abstract_prepare sample_env two_service_cache (divide_plugin sample_divide_env) (two_requests 1, f)
     = Ready (two_requests 1) (sample_visited ''s2'' f)"
proof -
  let ?s1 = "(sample_selector ''s1'' 1 1)\<lparr>sd_conditionList := Some [path_condition ''/a'']\<rparr>"
  let ?s2 = "(sample_selector ''s2'' 2 1)\<lparr>sd_conditionList := Some [path_condition ''/b'']\<rparr>"
  let ?r1 = "(sample_rule_on ''r1'' ''s1'')\<lparr>rd_conditionDataList := Some []\<rparr>"
  let ?r2 = "(sample_rule_on ''r2'' ''s2'')\<lparr>rd_conditionDataList := Some []\<rparr>"
  have m: "matchSelector sample_env (two_requests 0) [?s1, ?s2] = Inr (Some ?s1)"
    "matchSelector sample_env (two_requests 1) [?s1, ?s2] = Inr (Some ?s2)" by code_simp+
  have r: "choose_rule sample_env (two_requests 0) ?s1 [?r1] = Inr (Some ?r1)"
    "choose_rule sample_env (two_requests 1) ?s2 [?r2] = Inr (Some ?r2)" by code_simp+
  note defs = two_service_cache_def obtainPluginData_def obtainSelectorData_def obtainRuleData_def
    sample_plugin_data_def sample_selector_def
  have "abstract_prepare sample_env two_service_cache (divide_plugin sample_divide_env) (two_requests 0, f)
     = Ready (two_requests 0) (sample_visited (sd_id ?s1) f)"
    by (rule sample_prepare [where pd = sample_plugin_data, OF _ _ _ m(1) _ r(1)]) (simp_all add: defs)
  then show "abstract_prepare sample_env two_service_cache (divide_plugin sample_divide_env) (two_requests 0, f)
     = Ready (two_requests 0) (sample_visited ''s1'' f)" by (simp add: sample_selector_def)
  have "abstract_prepare sample_env two_service_cache (divide_plugin sample_divide_env) (two_requests 1, f)
     = Ready (two_requests 1) (sample_visited (sd_id ?s2) f)"
    by (rule sample_prepare [where pd = sample_plugin_data, OF _ _ _ m(2) _ r(2)]) (simp_all add: defs)
  then show "abstract_prepare sample_env two_service_cache (divide_plugin sample_divide_env) (two_requests 1, f)
     = Ready (two_requests 1) (sample_visited ''s2'' f)" by (simp add: sample_selector_def)
qed

lemma two_requests_run:
  assumes "dv_upstreams f = dv_upstreams sample_divide_state" "dv_lb f = warm_lb_state" "s = ''s1'' \<or> s = ''s2''"
  shows "divide_doExecute sample_divide_env (two_requests i, sample_visited s f) =
     Next ((two_requests i)\<lparr>ex_httpUrl := Some ((if s = ''s1'' then ''http://10.0.0.1:8080'' else ''http://10.0.0.2:8080'')
        @ ''/order/findById''), ex_httpTimeOut := Some 3000\<rparr>, sample_visited s f)"
proof -
  let ?u = "sample_upstream (if s = ''s1'' then ''10.0.0.1:8080'' else ''10.0.0.2:8080'') 1"
  have ip: "remote_ip (two_requests i) = Inr ''127.0.0.1''"
    by (simp add: two_requests_def remote_ip_def sample_request_def)
  have c: "ex_context (two_requests i) = Some sample_context" "ex_rewriteUri (two_requests i) = None"
    "rq_queryString (ex_request (two_requests i)) = None"
    by (simp_all add: two_requests_def sample_exchange_def new_exchange_def)
  have "ctx_realUrl sample_context = Some ''/order/findById''" by (simp add: sample_context_def)
  moreover have "\<not> is_blank (Some ''/order/findById'')" by code_simp
  moreover have "buildDomain ?u = (if s = ''s1'' then ''http://10.0.0.1:8080'' else ''http://10.0.0.2:8080'')"
  proof -
    have "buildDomain (sample_upstream ''10.0.0.1:8080'' 1) = ''http://10.0.0.1:8080''"
      "buildDomain (sample_upstream ''10.0.0.2:8080'' 1) = ''http://10.0.0.2:8080''" by code_simp+
    then show ?thesis by simp
  qed
  ultimately have url: "buildRealURL (buildDomain ?u) (ex_context (two_requests i)) (two_requests i)
      = Inr ((if s = ''s1'' then ''http://10.0.0.1:8080'' else ''http://10.0.0.2:8080'') @ ''/order/findById'')"
    by (simp add: buildRealURL_def c)
  show ?thesis
    by (subst divide_doExecute_warm [OF _ _ _ _ _ _ ip url, where rh = "default_divide_rule_handle\<lparr>dr_loadBalance := Some ''hash''\<rparr>"])
      (use assms in \<open>auto simp: sample_visited_def sample_divide_state_def default_divide_rule_handle_def TIME_OUT_def\<close>)
qed


end
