(* ===== verification/Sign.thy ===== *)
theory Sign
  imports PluginChain "HOL-Library.List_Lexorder" "HOL-Library.Char_ord"
begin

text \<open>
  The sign plugin: the signature over path, timestamp and version (\<open>SignUtils\<close>), the time window
  (\<open>DateUtils\<close>), and \<open>DefaultSignService\<close>, which checks a request's context against the
  application's keys and paths. MD5 as a hexadecimal text, the clock and the configured delay are
  the fields of \<open>sign_env\<close>; a \<open>LocalDateTime\<close> is a number of nanoseconds.
\<close>

record sign_env =
  sg_md5hex :: "string \<Rightarrow> string"
  sg_now :: int
  sg_delay :: int

subsection \<open>\<open>DateUtils\<close>\<close>

text \<open>Java's division truncates toward zero.\<close>

definition java_div :: "int \<Rightarrow> int \<Rightarrow> int" where
  "java_div a b = (if a < 0 then - ((- a) div b) else a div b)"

definition acquireMinutesBetween :: "int \<Rightarrow> int \<Rightarrow> int" where
  "acquireMinutesBetween start now = java_div (now - start) (60 * 10 ^ 9)"

text \<open>\<open>LocalDateTime.ofEpochSecond\<close> at offset +8, for days within the range of \<open>LocalDate\<close>.\<close>

definition formatLocalDateTimeFromTimestamp :: "int \<Rightarrow> int jres" where
  "formatLocalDateTimeFromTimestamp timestamp =
     (let localSecond = java_div timestamp 1000 + 8 * 3600;
          day = localSecond div 86400
      in if -365243219162 \<le> day \<and> day \<le> 365241780471 then Inr (localSecond * 10 ^ 9)
         else Inl (RuntimeExn ''DateTimeException''))"

subsection \<open>\<open>SignUtils\<close>\<close>

definition to_upper :: "char \<Rightarrow> char" where
  "to_upper c = (let n = (of_char c :: nat) in if 97 \<le> n \<and> n \<le> 122 then char_of (n - 32) else c)"

definition null_text :: "string option \<Rightarrow> string" where
  "null_text v = (case v of None \<Rightarrow> ''null'' | Some s \<Rightarrow> s)"

definition sign_payload :: "(string \<times> string option) list \<Rightarrow> string" where
  "sign_payload params =
     trim (concat (map (\<lambda>(k, v). k @ null_text v)
       (filter (\<lambda>(k, v). k \<noteq> ''sign'') (sort_key fst params))))"

definition generateSign :: "sign_env \<Rightarrow> string \<Rightarrow> (string \<times> string option) list \<Rightarrow> string" where
  "generateSign env signKey params = map to_upper (sg_md5hex env (sign_payload params @ signKey))"

definition sign_isValid :: "sign_env \<Rightarrow> string option \<Rightarrow> (string \<times> string option) list \<Rightarrow> string \<Rightarrow> bool" where
  "sign_isValid env s params signKey \<longleftrightarrow> s = Some (generateSign env signKey params)"

subsection \<open>\<open>DefaultSignService\<close>\<close>

definition SIGN_PARAMS_ERROR :: string where
  "SIGN_PARAMS_ERROR = utf8 [232, 174, 164, 232, 175, 129, 229, 143, 130, 230, 149, 176, 228, 188, 160, 229,
     133, 165, 228, 184, 141, 229, 174, 140, 230, 149, 180, 33]"

definition SIGN_APP_KEY_IS_NOT_EXIST :: string where
  "SIGN_APP_KEY_IS_NOT_EXIST = utf8 [232, 174, 164, 232, 175, 129, 231, 173, 190, 229, 144, 141, 65, 80, 80,
     95, 75, 69, 89, 44, 228, 184, 141, 229, 173, 152, 229, 156, 168]"

definition SIGN_PATH_NOT_EXIST :: string where
  "SIGN_PATH_NOT_EXIST = utf8 [232, 174, 164, 232, 175, 129, 75, 101, 121, 230, 156, 170, 233, 133, 141, 231,
     189, 174, 232, 183, 175, 229, 190, 132, 232, 142, 183, 229, 143, 150, 230, 156, 170, 229, 140, 185, 233, 133, 141]"

definition SIGN_VALUE_IS_ERROR :: string where
  "SIGN_VALUE_IS_ERROR = utf8 [231, 173, 190, 229, 144, 141, 229, 128, 188, 233, 148, 153, 232, 175, 175, 239, 188, 129]"

text \<open>\<open>String.format\<close> with one \<open>%s\<close>.\<close>

fun format_s :: "string \<Rightarrow> string \<Rightarrow> string" where
  "format_s [] arg = []"
| "format_s [c] arg = [c]"
| "format_s (c # d # cs) arg = (if c = CHR ''%'' \<and> d = CHR ''s'' then arg @ cs else c # format_s (d # cs) arg)"

definition buildParamsMap :: "soul_context \<Rightarrow> (string \<times> string option) list" where
  "buildParamsMap dto = [(''timestamp'', ctx_timestamp dto), (''path'', ctx_path dto), (''version'', Some ''1.0.0'')]"

type_synonym verdict = "bool \<times> string"

definition sign_check :: "sign_env \<Rightarrow> auth_cache \<Rightarrow> soul_context \<Rightarrow> verdict" where
  "sign_check env auth ctx =
     (case obtainAuthData auth (the (ctx_appKey ctx)) of
        None \<Rightarrow> (False, SIGN_APP_KEY_IS_NOT_EXIST)
      | Some app \<Rightarrow>
          if \<not> aa_enabled app then (False, SIGN_APP_KEY_IS_NOT_EXIST)
          else if the_group (aa_pathDataList app) = [] then (False, SIGN_PATH_NOT_EXIST)
          else if \<not> list_ex (\<lambda>e. Some (ah_path e) = ctx_path ctx)
                    (filter ah_enabled (the_group (aa_pathDataList app))) then (False, SIGN_PATH_NOT_EXIST)
          else if Some (generateSign env (aa_appSecret app) (buildParamsMap ctx)) \<noteq> ctx_sign ctx
            then (False, SIGN_VALUE_IS_ERROR)
          else (True, ''''))"

definition sign_verify :: "sign_env \<Rightarrow> auth_cache \<Rightarrow> soul_context \<Rightarrow> verdict jres" where
  "sign_verify env auth ctx =
     (if is_blank (ctx_appKey ctx) \<or> is_blank (ctx_sign ctx) \<or> is_blank (ctx_timestamp ctx)
      then Inr (False, SIGN_PARAMS_ERROR)
      else bindr (parse_long (the (ctx_timestamp ctx))) (\<lambda>ts.
           bindr (formatLocalDateTimeFromTimestamp ts) (\<lambda>start.
           if acquireMinutesBetween start (sg_now env) > sg_delay env
           then Inr (False, format_s (soul_result_msg SR_SING_TIME_IS_TIMEOUT) (show_int (sg_delay env)))
           else Inr (sign_check env auth ctx))))"

definition signVerify :: "sign_env \<Rightarrow> base_data_cache \<Rightarrow> auth_cache \<Rightarrow> exchange \<Rightarrow> verdict jres" where
  "signVerify env c auth ex =
     (case obtainPluginData c (plugin_enum_name PE_SIGN) of
        Some signData \<Rightarrow>
          if pd_enabled signData then bindr (deref (ex_context ex)) (sign_verify env auth)
          else Inr (True, '''')
      | None \<Rightarrow> Inr (True, ''''))"

subsection \<open>\<open>SignPlugin\<close>\<close>

definition sign_doExecute ::
  "sign_env \<Rightarrow> base_data_cache \<Rightarrow> auth_cache \<Rightarrow> exchange \<times> unit \<Rightarrow> (exchange \<times> unit) action" where
  "sign_doExecute env c auth exf =
     (case exf of (ex, f) \<Rightarrow>
        act_of (ex, f) (signVerify env c auth ex) (\<lambda>result.
          if \<not> fst result then Finish (result_error (soul_result_code SR_SIGN_IS_NOT_PASS) (snd result) ex, f)
          else Next (ex, f)))"

definition sign_plugin :: "sign_env \<Rightarrow> base_data_cache \<Rightarrow> auth_cache \<Rightarrow> unit plugin_impl" where
  "sign_plugin env c auth = \<lparr>pi_named = plugin_enum_name PE_SIGN,
     pi_visitSelector = (\<lambda>_ f. (f, None)), pi_visitRule = (\<lambda>_ f. (f, None)),
     pi_doExecute = sign_doExecute env c auth\<rparr>"

definition sign_getOrder :: int where "sign_getOrder = plugin_enum_code PE_SIGN"

subsection \<open>What a passed check means\<close>

text \<open>
  C25: Authentication is complete and sound. With the sign plugin enabled and a context present, the
  request is let through exactly when application key, signature and timestamp are given, the
  timestamp is a number inside the calendar and the time window, the key belongs to an enabled
  application that lists the request's path as enabled, and the signature is the one computed with
  that application's secret over the request's path and timestamp.
\<close>

theorem sign_verify_iff:
  assumes "obtainPluginData c (plugin_enum_name PE_SIGN) = Some pd" and "pd_enabled pd"
    and "ex_context ex = Some ctx"
  shows "(\<exists>m. signVerify env c auth ex = Inr (True, m)) \<longleftrightarrow>
     (\<exists>key sign ts n start app. ctx_appKey ctx = Some key \<and> ctx_sign ctx = Some sign \<and> ctx_timestamp ctx = Some ts
        \<and> \<not> is_blank (Some key) \<and> \<not> is_blank (Some sign) \<and> \<not> is_blank (Some ts)
        \<and> parse_long ts = Inr n \<and> formatLocalDateTimeFromTimestamp n = Inr start
        \<and> acquireMinutesBetween start (sg_now env) \<le> sg_delay env
        \<and> obtainAuthData auth key = Some app \<and> aa_enabled app
        \<and> (\<exists>p\<in>set (the_group (aa_pathDataList app)). ah_enabled p \<and> ctx_path ctx = Some (ah_path p))
        \<and> sign = generateSign env (aa_appSecret app) (buildParamsMap ctx))"
proof -
  have nb: "is_blank v = False \<Longrightarrow> \<exists>s. v = Some s" for v by (cases v) auto
  have "(\<exists>m. sign_check env auth ctx = (True, m)) \<longleftrightarrow>
    (\<exists>app. obtainAuthData auth (the (ctx_appKey ctx)) = Some app \<and> aa_enabled app
        \<and> (\<exists>p\<in>set (the_group (aa_pathDataList app)). ah_enabled p \<and> ctx_path ctx = Some (ah_path p))
        \<and> ctx_sign ctx = Some (generateSign env (aa_appSecret app) (buildParamsMap ctx)))"
  proof (cases "obtainAuthData auth (the (ctx_appKey ctx))")
    case None
    then show ?thesis by (simp add: sign_check_def)
  next
    case (Some app)
    have "list_ex (\<lambda>e. Some (ah_path e) = ctx_path ctx) (filter ah_enabled (the_group (aa_pathDataList app)))
      \<longleftrightarrow> (\<exists>p\<in>set (the_group (aa_pathDataList app)). ah_enabled p \<and> ctx_path ctx = Some (ah_path p))"
      by (auto simp: list_ex_iff)
    moreover have "Some (generateSign env (aa_appSecret app) (buildParamsMap ctx)) = ctx_sign ctx
      \<longleftrightarrow> ctx_sign ctx = Some (generateSign env (aa_appSecret app) (buildParamsMap ctx))" by metis
    moreover have "the_group (aa_pathDataList app) = [] \<Longrightarrow>
      \<not> (\<exists>p\<in>set (the_group (aa_pathDataList app)). ah_enabled p \<and> ctx_path ctx = Some (ah_path p))" by simp
    ultimately show ?thesis using Some unfolding sign_check_def by (simp only: option.case) simp
  qed
  note check = this
  have eq: "signVerify env c auth ex = sign_verify env auth ctx"
    using assms by (simp add: signVerify_def)
  show ?thesis
  proof (cases "is_blank (ctx_appKey ctx) \<or> is_blank (ctx_sign ctx) \<or> is_blank (ctx_timestamp ctx)")
    case True
    then show ?thesis unfolding eq by (auto simp: sign_verify_def)
  next
    case False
    then obtain key sign ts where f: "ctx_appKey ctx = Some key" "ctx_sign ctx = Some sign"
      "ctx_timestamp ctx = Some ts" using nb by blast
    have "(\<exists>m. sign_verify env auth ctx = Inr (True, m)) \<longleftrightarrow>
      (\<exists>n start. parse_long ts = Inr n \<and> formatLocalDateTimeFromTimestamp n = Inr start
        \<and> acquireMinutesBetween start (sg_now env) \<le> sg_delay env \<and> (\<exists>m. sign_check env auth ctx = (True, m)))"
    proof (cases "parse_long ts")
      case (Inl e)
      then show ?thesis using False f by (simp add: sign_verify_def)
    next
      case (Inr n)
      note n = this
      show ?thesis
      proof (cases "formatLocalDateTimeFromTimestamp n")
        case (Inl e)
        then show ?thesis using n False f by (simp add: sign_verify_def)
      next
        case (Inr start)
        then show ?thesis using n False f by (simp add: sign_verify_def not_less)
      qed
    qed
    then show ?thesis using False f unfolding eq check by auto
  qed
qed

lemma div_le_iff_less: "0 < (q::int) \<Longrightarrow> x div q \<le> d \<longleftrightarrow> x < (d + 1) * q"
proof
  assume q: "0 < q" and le: "x div q \<le> d"
  have "x = x div q * q + x mod q" by simp
  also have "\<dots> < x div q * q + q" by (rule add_strict_left_mono) (rule pos_mod_bound [OF q])
  also have "\<dots> \<le> d * q + q" using le q by (simp add: mult_right_mono)
  finally show "x < (d + 1) * q" by (simp add: algebra_simps)
next
  assume q: "0 < q" and lt: "x < (d + 1) * q"
  show "x div q \<le> d"
  proof (rule ccontr)
    assume "\<not> x div q \<le> d"
    then have "(d + 1) * q \<le> x div q * q" using q by (intro mult_right_mono) auto
    also have "\<dots> = x - x mod q" by (simp add: minus_mod_eq_div_mult)
    also have "\<dots> \<le> x" using pos_mod_sign [OF q, of x] by linarith
    finally show False using lt by simp
  qed
qed

text \<open>
  The time window. For a delay of d minutes a request passes the time check exactly when it is less
  than d + 1 minutes old; a timestamp in the future passes however far ahead it is.
\<close>

theorem sign_time_window:
  assumes "0 \<le> d"
  shows "acquireMinutesBetween start now \<le> d \<longleftrightarrow> now - start < (d + 1) * (60 * 10 ^ 9)"
proof (cases "now - start < 0")
  case True
  then have "acquireMinutesBetween start now \<le> 0"
    by (simp add: acquireMinutesBetween_def java_div_def pos_imp_zdiv_nonneg_iff)
  with True assms show ?thesis by auto
next
  case False
  let ?x = "now - start" and ?q = "60000000000 :: int"
  have "?x div ?q \<le> d \<longleftrightarrow> ?x < (d + 1) * ?q" by (rule div_le_iff_less) simp
  then show ?thesis using False by (simp add: acquireMinutesBetween_def java_div_def)
qed

lemma sign_time_window_witness:
  "acquireMinutesBetween 0 (359 * 10 ^ 9) \<le> 5 \<longleftrightarrow> (359 * 10 ^ 9 :: int) - 0 < (5 + 1) * (60 * 10 ^ 9)"
  by (rule sign_time_window) simp

subsection \<open>The signed text\<close>

lemma sign_sort:
  "sort_key fst [(''timestamp'', a), (''path'', b), (''version'', c)]
     = [(''path'', b), (''timestamp'', a), (''version'', c)]"
  by (simp add: less_char_def)

lemma trim_id: "s \<noteq> [] \<Longrightarrow> \<not> le_space (hd s) \<Longrightarrow> \<not> le_space (last s) \<Longrightarrow> trim s = s"
proof -
  have d: "dropWhile le_space t = t" if "t \<noteq> []" "\<not> le_space (hd t)" for t
    using that by (cases t) auto
  assume "s \<noteq> []" "\<not> le_space (hd s)" "\<not> le_space (last s)"
  then have "dropWhile le_space s = s" "dropWhile le_space (rev s) = rev s"
    using d [of s] d [of "rev s"] by (simp_all add: hd_rev)
  then show ?thesis by (simp add: trim_def)
qed

lemma sign_payload_eq:
  "sign_payload (buildParamsMap ctx)
     = ''path'' @ null_text (ctx_path ctx) @ ''timestamp'' @ null_text (ctx_timestamp ctx) @ ''version1.0.0''"
  unfolding sign_payload_def buildParamsMap_def sign_sort
  by (simp add: null_text_def, rule trim_id) (simp_all add: le_space_def)

lemma last_split_unique:
  assumes "xs @ c # ys = xs' @ c # ys'" and "c \<notin> set ys" and "c \<notin> set ys'"
  shows "xs = xs' \<and> ys = ys'"
proof -
  have t: "takeWhile (\<lambda>z. z \<noteq> c) (rev (vs @ c # ws)) = rev ws" if "c \<notin> set ws" for vs ws
    using that by (subst rev_append) (auto simp: takeWhile_append)
  have "rev ys = rev ys'" using t [OF assms(2), of xs] t [OF assms(3), of xs'] assms(1) by simp
  with assms(1) show ?thesis by simp
qed

lemma digits_no_letter: "parse_signed s = Some n \<Longrightarrow> CHR ''p'' \<notin> set s"
proof -
  have d: "CHR ''p'' \<notin> set t" if "list_all is_digit t" for t
    using that by (auto simp: list_all_iff is_digit_def)
  have np: "\<not> is_digit CHR ''p''" by (simp add: is_digit_def)
  assume "parse_signed s = Some n"
  then show ?thesis
    using d np by (auto simp: parse_signed_def parse_digits_def split: list.splits if_splits)
qed

lemma parse_long_signed: "parse_long s = Inr n \<Longrightarrow> parse_signed s = Some n"
  by (auto simp: parse_long_def split: option.splits if_splits)


definition signed_context :: "string \<Rightarrow> string \<Rightarrow> soul_context" where
  "signed_context p t = new_soul_context\<lparr>ctx_path := Some p, ctx_timestamp := Some t, ctx_appKey := Some ''k'',
     ctx_sign := Some ''S''\<rparr>"


definition sample_sign_env :: sign_env where
  "sample_sign_env = \<lparr>sg_md5hex = (\<lambda>_. ''s''), sg_now = 8 * 3600 * 10 ^ 9, sg_delay = 5\<rparr>"

definition sample_app :: app_auth_data where
  "sample_app = \<lparr>aa_appKey = ''k'', aa_appSecret = ''secret'', aa_enabled = True, aa_paramDataList = None,
     aa_pathDataList = Some [\<lparr>ah_appName = ''http'', ah_path = ''/a'', ah_enabled = True\<rparr>]\<rparr>"

lemma sign_verify_iff_witness:
  "\<exists>m. signVerify sample_sign_env (sample_cache\<lparr>PLUGIN_MAP := [''sign'' \<mapsto> sample_plugin_data]\<rparr>) [''k'' \<mapsto> sample_app]
     ((new_exchange sample_request)\<lparr>ex_context := Some (signed_context ''/a'' ''12'')\<rparr>) = Inr (True, m)"
proof -
  have pd: "obtainPluginData (sample_cache\<lparr>PLUGIN_MAP := [''sign'' \<mapsto> sample_plugin_data]\<rparr>) (plugin_enum_name PE_SIGN)
      = Some sample_plugin_data" by (simp add: obtainPluginData_def)
  have p: "parse_long ''12'' = Inr 12" by code_simp
  have g: "generateSign sample_sign_env (aa_appSecret sample_app) (buildParamsMap (signed_context ''/a'' ''12'')) = ''S''"
    by code_simp
  have f: "formatLocalDateTimeFromTimestamp 12 = Inr (8 * 3600 * 10 ^ 9)"
    by (simp add: formatLocalDateTimeFromTimestamp_def java_div_def)
  have t: "acquireMinutesBetween (8 * 3600 * 10 ^ 9) (sg_now sample_sign_env) \<le> sg_delay sample_sign_env"
    by (simp add: acquireMinutesBetween_def java_div_def sample_sign_env_def)
  have ctx: "ctx_appKey (signed_context ''/a'' ''12'') = Some ''k''" "ctx_sign (signed_context ''/a'' ''12'') = Some ''S''"
    "ctx_timestamp (signed_context ''/a'' ''12'') = Some ''12''" "ctx_path (signed_context ''/a'' ''12'') = Some ''/a''"
    by (simp_all add: signed_context_def)
  have nb: "\<not> is_blank (Some ''k'')" "\<not> is_blank (Some ''S'')" "\<not> is_blank (Some ''12'')" by code_simp+
  have app: "obtainAuthData [''k'' \<mapsto> sample_app] ''k'' = Some sample_app" "aa_enabled sample_app"
    "\<exists>p\<in>set (the_group (aa_pathDataList sample_app)). ah_enabled p \<and> Some ''/a'' = Some (ah_path p)"
    by (simp_all add: obtainAuthData_def sample_app_def)
  show ?thesis
  proof (rule iffD2 [OF sign_verify_iff [where ctx = "signed_context ''/a'' ''12''", OF pd]])
    show "pd_enabled sample_plugin_data" by (simp add: sample_plugin_data_def)
    show "\<exists>key sign ts n start app. ctx_appKey (signed_context ''/a'' ''12'') = Some key
        \<and> ctx_sign (signed_context ''/a'' ''12'') = Some sign \<and> ctx_timestamp (signed_context ''/a'' ''12'') = Some ts
        \<and> \<not> is_blank (Some key) \<and> \<not> is_blank (Some sign) \<and> \<not> is_blank (Some ts)
        \<and> parse_long ts = Inr n \<and> formatLocalDateTimeFromTimestamp n = Inr start
        \<and> acquireMinutesBetween start (sg_now sample_sign_env) \<le> sg_delay sample_sign_env
        \<and> obtainAuthData [''k'' \<mapsto> sample_app] key = Some app \<and> aa_enabled app
        \<and> (\<exists>p\<in>set (the_group (aa_pathDataList app)). ah_enabled p \<and> ctx_path (signed_context ''/a'' ''12'') = Some (ah_path p))
        \<and> sign = generateSign sample_sign_env (aa_appSecret app) (buildParamsMap (signed_context ''/a'' ''12''))"
      using ctx nb p g f t app by (intro exI conjI) (assumption | simp)+
  qed simp
qed

end
