(* ===== verification/GlobalContext.thy ===== *)
theory GlobalContext
  imports PluginChain
begin

text \<open>
  The global plugin: \<open>MetaDataCache\<close> and its subscriber, and \<open>DefaultSoulContextBuilder\<close>, which
  derives module, method, context path and real url of a request from its path or from the meta
  data registered for it. The iteration order of the concurrent map is a parameter.
\<close>

subsection \<open>\<open>MetaDataCache\<close>\<close>

type_synonym meta_map = "string \<rightharpoonup> meta_data"

definition meta_cache :: "meta_data \<Rightarrow> meta_map \<Rightarrow> meta_map" where
  "meta_cache d m = m(md_path d \<mapsto> d)"

definition meta_remove :: "meta_data \<Rightarrow> meta_map \<Rightarrow> meta_map" where
  "meta_remove d m = remove_key (md_path d) m"

text \<open>Exact path first, otherwise the first key (in iteration order \<open>keys\<close>) whose pattern matches.\<close>

definition meta_obtain :: "match_env \<Rightarrow> string list \<Rightarrow> meta_map \<Rightarrow> string \<Rightarrow> meta_data option" where
  "meta_obtain env keys m path =
     (case m path of
        Some d \<Rightarrow> Some d
      | None \<Rightarrow> m (case find (\<lambda>k. path_match env k path) keys of Some k \<Rightarrow> k | None \<Rightarrow> ''''))"

definition meta_onSubscribe :: "meta_data \<Rightarrow> meta_map \<Rightarrow> meta_map" where
  "meta_onSubscribe = meta_cache"

definition meta_unSubscribe :: "meta_data \<Rightarrow> meta_map \<Rightarrow> meta_map" where
  "meta_unSubscribe = meta_remove"

definition meta_get :: "meta_map \<Rightarrow> string \<Rightarrow> meta_data option" where
  "meta_get m path = m path"

interpretation mdc: keyed_cache meta_onSubscribe meta_unSubscribe meta_get md_path
  by unfold_locales
    (auto simp: meta_onSubscribe_def meta_unSubscribe_def meta_cache_def meta_remove_def meta_get_def)

subsection \<open>\<open>DefaultSoulContextBuilder\<close>\<close>

definition setSoulContextByDubbo :: "meta_data \<Rightarrow> soul_context \<Rightarrow> soul_context" where
  "setSoulContextByDubbo md c = c\<lparr>ctx_module := Some (md_appName md), ctx_method := md_serviceName md,
     ctx_rpcType := Some (md_rpcType md), ctx_contextPath := md_contextPath md\<rparr>"

definition setSoulContextBySofa :: "meta_data \<Rightarrow> soul_context \<Rightarrow> soul_context" where
  "setSoulContextBySofa md c = c\<lparr>ctx_module := Some (md_appName md), ctx_method := md_serviceName md,
     ctx_rpcType := Some (md_rpcType md), ctx_contextPath := md_contextPath md\<rparr>"

definition setSoulContextByHttp :: "string \<Rightarrow> soul_context \<Rightarrow> soul_context jres" where
  "setSoulContextByHttp path c =
     (let splitList = split_parts (CHR ''/'') path;
          contextPath = (case splitList of [] \<Rightarrow> ''/'' | p # ps \<Rightarrow> ''/'' @ p)
      in bindr (substring_from path (length contextPath)) (\<lambda>realUrl.
           Inr (c\<lparr>ctx_contextPath := Some contextPath, ctx_module := Some contextPath,
                  ctx_method := Some realUrl, ctx_realUrl := Some realUrl\<rparr>)))"

definition context_transform :: "http_request \<Rightarrow> meta_data option \<Rightarrow> int \<Rightarrow> soul_context jres" where
  "context_transform rq metaData now =
     (let c0 = new_soul_context\<lparr>ctx_path := Some (rq_path rq)\<rparr>;
          http = (\<lambda>t. bindr (setSoulContextByHttp (rq_path rq) c0) (\<lambda>c. Inr (c\<lparr>ctx_rpcType := Some t\<rparr>)))
      in bindr (case metaData of
             Some md \<Rightarrow>
               if md_enabled md then
                 (if rpc_type_name RPC_SPRING_CLOUD = md_rpcType md then http (md_rpcType md)
                  else if rpc_type_name RPC_DUBBO = md_rpcType md then Inr (setSoulContextByDubbo md c0)
                  else if rpc_type_name RPC_SOFA = md_rpcType md then Inr (setSoulContextBySofa md c0)
                  else http (rpc_type_name RPC_HTTP))
               else http (rpc_type_name RPC_HTTP)
           | None \<Rightarrow> http (rpc_type_name RPC_HTTP))
         (\<lambda>c. Inr (c\<lparr>ctx_appKey := header_first rq ''appKey'', ctx_sign := header_first rq ''sign'',
                  ctx_timestamp := header_first rq ''timestamp'', ctx_startDateTime := Some now,
                  ctx_httpMethod := Some (rq_method rq)\<rparr>)))"

definition context_build ::
  "match_env \<Rightarrow> string list \<Rightarrow> meta_map \<Rightarrow> int \<Rightarrow> exchange \<Rightarrow> (soul_context \<times> exchange) jres" where
  "context_build env keys m now ex =
     (let metaData = meta_obtain env keys m (rq_path (ex_request ex));
          ex' = (case metaData of
                   Some md \<Rightarrow> if md_enabled md then ex\<lparr>ex_metaData := Some md\<rparr> else ex
                 | None \<Rightarrow> ex)
      in bindr (context_transform (ex_request ex) metaData now) (\<lambda>c. Inr (c, ex')))"

subsection \<open>\<open>GlobalPlugin\<close>\<close>

definition transformMap :: "http_request \<Rightarrow> soul_context" where
  "transformMap rq = new_soul_context\<lparr>ctx_module := query_first rq ''module'',
     ctx_method := query_first rq ''method'', ctx_rpcType := query_first rq ''rpcType''\<rparr>"

definition global_execute ::
  "match_env \<Rightarrow> string list \<Rightarrow> meta_map \<Rightarrow> int \<Rightarrow> exchange \<Rightarrow> exchange action" where
  "global_execute env keys m now ex =
     (let upgrade = header_first (ex_request ex) ''Upgrade'' in
      if is_blank upgrade \<or> upgrade \<noteq> Some ''websocket'' then
        act_of ex (context_build env keys m now ex) (\<lambda>(c, ex'). Next (ex'\<lparr>ex_context := Some c\<rparr>))
      else Next (ex\<lparr>ex_context := Some (transformMap (ex_request ex))\<rparr>))"

definition global_plugin :: "match_env \<Rightarrow> string list \<Rightarrow> meta_map \<Rightarrow> int \<Rightarrow> exchange soul_plugin" where
  "global_plugin env keys m now = \<lparr>sp_named = ''global'', sp_order = 0, sp_skip = (\<lambda>_. Inr False),
     sp_execute = global_execute env keys m now\<rparr>"

subsection \<open>What the context says of the path\<close>

lemma split_parts_slash:
  assumes "x \<noteq> []" and "CHR ''/'' \<notin> set x" and "rest = [] \<or> hd rest = CHR ''/''"
  shows "\<exists>ps. split_parts (CHR ''/'') (CHR ''/'' # x @ rest) = x # ps"
proof (cases rest)
  case Nil
  then show ?thesis using assms by (simp add: split_parts_def split_on_atom)
next
  case (Cons c cs)
  with assms have "c = CHR ''/''" by simp
  with Cons assms show ?thesis by (simp add: split_parts_def split_on_append)
qed

text \<open>
  C28: The path is split without loss. For a path that begins with one slash and a segment, the context
  path is that slash and segment, and context path followed by real url is the path again, both
  as module and method and for every kind of http meta data.
\<close>

theorem http_context_roundtrip:
  assumes "rq_path rq = CHR ''/'' # seg @ rest" and "seg \<noteq> []" and "CHR ''/'' \<notin> set seg"
    and "rest = [] \<or> hd rest = CHR ''/''"
    and "\<forall>md. meta = Some md \<and> md_enabled md \<longrightarrow> md_rpcType md \<noteq> ''dubbo'' \<and> md_rpcType md \<noteq> ''sofa''"
  shows "\<exists>c. context_transform rq meta now = Inr c
     \<and> ctx_contextPath c = Some (CHR ''/'' # seg) \<and> ctx_module c = ctx_contextPath c
     \<and> ctx_realUrl c = Some rest \<and> ctx_method c = ctx_realUrl c
     \<and> ctx_path c = Some (the (ctx_contextPath c) @ the (ctx_realUrl c))"
proof -
  obtain ps where "split_parts (CHR ''/'') (rq_path rq) = seg # ps"
    using split_parts_slash [OF assms(2-4)] assms(1) by auto
  then have h: "setSoulContextByHttp (CHR ''/'' # seg @ rest) c = Inr (c\<lparr>ctx_contextPath := Some (CHR ''/'' # seg),
      ctx_module := Some (CHR ''/'' # seg), ctx_method := Some rest, ctx_realUrl := Some rest\<rparr>)" for c
    by (simp add: setSoulContextByHttp_def Let_def substring_from_def assms(1))
  show ?thesis
    using assms(1,5) by (auto simp: context_transform_def Let_def h split: option.splits)
qed

lemma http_context_roundtrip_witness:
  "\<exists>c. context_transform sample_request None 0 = Inr c \<and> ctx_contextPath c = Some ''/http''
     \<and> ctx_realUrl c = Some ''/order/findById''"
proof -
  have "rq_path sample_request = CHR ''/'' # ''http'' @ ''/order/findById''" by (simp add: sample_request_def)
  from http_context_roundtrip [OF this, of None 0] show ?thesis by auto
qed

text \<open>
  A doubled leading slash loses one character: the context path is computed from the parts between
  slashes but cut off by its length, so the real url of \<open>//http/order\<close> does not begin with a slash.
\<close>

theorem double_slash_real_url:
  "\<exists>c. setSoulContextByHttp ''//http/order'' new_soul_context = Inr c
     \<and> ctx_contextPath c = Some ''/http'' \<and> ctx_realUrl c = Some ''p/order''"
  by (simp add: setSoulContextByHttp_def split_parts_def substring_from_def new_soul_context_def Let_def)

end
