(* ===== verification/Uuid.thy ===== *)
theory Uuid
  imports Prelude
begin

text \<open>
  \<open>UUIDUtils\<close>: snowflake identifiers of 41 bits of milliseconds, 5 of data center, 5 of worker and
  12 of sequence, in a \<open>long\<close>. The clock is the list of its readings: one call consumes as many
  as it reads. All arithmetic on \<open>long\<close> is on 64 bit words.
\<close>

unbundle bit_operations_syntax

definition WORKER_ID_BITS :: nat where "WORKER_ID_BITS = 5"
definition DATACENTERIDBITS :: nat where "DATACENTERIDBITS = 5"
definition SEQUENCE_BITS :: nat where "SEQUENCE_BITS = 12"
definition MAX_WORKER_ID :: "64 word" where "MAX_WORKER_ID = NOT (push_bit WORKER_ID_BITS (- 1))"
definition MAX_DATACENTER_ID :: "64 word" where "MAX_DATACENTER_ID = NOT (push_bit DATACENTERIDBITS (- 1))"
definition WORKER_ID_SHIFT :: nat where "WORKER_ID_SHIFT = SEQUENCE_BITS"
definition DATACENTER_ID_SHIFT :: nat where "DATACENTER_ID_SHIFT = SEQUENCE_BITS + WORKER_ID_BITS"
definition TIMESTAMP_LEFT_SHIFT :: nat where
  "TIMESTAMP_LEFT_SHIFT = SEQUENCE_BITS + WORKER_ID_BITS + DATACENTERIDBITS"
definition SEQUENCE_MASK :: "64 word" where "SEQUENCE_MASK = NOT (push_bit SEQUENCE_BITS (- 1))"
definition ID_EPOCH :: "64 word" where "ID_EPOCH = 1288834974657"

record uuid_utils =
  uu_workerId :: "64 word"
  uu_datacenterId :: "64 word"
  uu_idepoch :: "64 word"
  uu_sequence :: "64 word"
  uu_lastTimestamp :: "64 word"

text \<open>The constructor checks its arguments; the initial sequence is the code of the character zero.\<close>

definition new_uuid_utils :: "64 word \<Rightarrow> 64 word \<Rightarrow> 64 word \<Rightarrow> uuid_utils jres" where
  "new_uuid_utils workerId datacenterId idepoch =
     (if sint MAX_WORKER_ID < sint workerId \<or> sint workerId < 0 then
        Inl (IllegalArgument ''worker Id can't be greater than 31 or less than 0'')
      else if sint MAX_DATACENTER_ID < sint datacenterId \<or> sint datacenterId < 0 then
        Inl (IllegalArgument ''datacenter Id can't be greater than 31 or less than 0'')
      else Inr \<lparr>uu_workerId = workerId, uu_datacenterId = datacenterId, uu_idepoch = idepoch,
                uu_sequence = 48, uu_lastTimestamp = - 1\<rparr>)"

text \<open>The busy loop: drop readings until one is past the last timestamp; \<open>None\<close> while there is none.\<close>

fun tilNextMillis :: "64 word \<Rightarrow> 64 word list \<Rightarrow> (64 word \<times> 64 word list) option" where
  "tilNextMillis lastT [] = None"
| "tilNextMillis lastT (t # ts) = (if sint t \<le> sint lastT then tilNextMillis lastT ts else Some (t, ts))"

text \<open>\<open>nextId\<close>; \<open>None\<close> stands for a call that is still waiting for the clock.\<close>

definition nextId :: "uuid_utils \<Rightarrow> 64 word list \<Rightarrow> (64 word jres \<times> uuid_utils \<times> 64 word list) option" where
  "nextId u clock =
     (case clock of
        [] \<Rightarrow> None
      | timestamp # ts \<Rightarrow>
          if sint timestamp < sint (uu_lastTimestamp u) then
            Some (Inl (RuntimeExn (''Clock moved backwards.  Refusing to generate id for ''
                   @ show_int (sint (uu_lastTimestamp u - timestamp)) @ '' milliseconds'')), u, ts)
          else
            (let next = (if uu_lastTimestamp u = timestamp then
                   (let s = (uu_sequence u + 1) AND SEQUENCE_MASK
                    in if s = 0 then map_option (\<lambda>(t, ts'). (s, t, ts')) (tilNextMillis (uu_lastTimestamp u) ts)
                       else Some (s, timestamp, ts))
                 else Some (0, timestamp, ts))
             in case next of
                  None \<Rightarrow> None
                | Some (s, t, ts') \<Rightarrow>
                    Some (Inr (((push_bit TIMESTAMP_LEFT_SHIFT (t - uu_idepoch u)
                                OR push_bit DATACENTER_ID_SHIFT (uu_datacenterId u))
                               OR push_bit WORKER_ID_SHIFT (uu_workerId u)) OR s),
                          u\<lparr>uu_sequence := s, uu_lastTimestamp := t\<rparr>, ts')))"

definition generateShortUuid :: "uuid_utils \<Rightarrow> 64 word list \<Rightarrow> (string jres \<times> uuid_utils \<times> 64 word list) option" where
  "generateShortUuid u clock =
     map_option (\<lambda>(r, rest). (bindr r (\<lambda>i. Inr (show_int (sint i))), rest)) (nextId u clock)"

subsection \<open>The value of an identifier\<close>

lemma uint_of_sint: "0 \<le> sint (x :: 64 word) \<Longrightarrow> sint x < 2 ^ 63 \<Longrightarrow> uint x = sint x"
  unfolding uint_sint by (simp add: take_bit_int_eq_self)

lemma push_or_value:
  fixes a b :: "64 word"
  assumes "uint b < 2 ^ n" and "uint a * 2 ^ n < 2 ^ 64"
  shows "uint (push_bit n a OR b) = uint a * 2 ^ n + uint b"
proof -
  have "uint (push_bit n a) = take_bit 64 (push_bit n (uint a))" by (simp add: unsigned_push_bit_eq)
  also have "\<dots> = uint a * 2 ^ n"
    using assms(2) by (simp add: push_bit_eq_mult take_bit_int_eq_self)
  finally have p: "uint (push_bit n a) = push_bit n (uint a)" by (simp add: push_bit_eq_mult)
  have t: "take_bit n (uint b) = uint b" using assms(1) by (simp add: take_bit_int_eq_self)
  have "push_bit n (uint a) + uint b = push_bit n (uint a) OR uint b"
  proof (rule disjunctive_add)
    fix k
    have "bit (uint b) k \<Longrightarrow> k < n" using t by (metis bit_take_bit_iff)
    then show "\<not> bit (push_bit n (uint a)) k \<or> \<not> bit (uint b) k"
      by (auto simp: bit_push_bit_iff)
  qed
  then show ?thesis unfolding unsigned_or_eq p by (simp only: push_bit_eq_mult)
qed

text \<open>The word the code assembles, from the milliseconds since the epoch and the sequence.\<close>

definition assemble :: "uuid_utils \<Rightarrow> 64 word \<Rightarrow> 64 word \<Rightarrow> 64 word" where
  "assemble u ms s = ((push_bit TIMESTAMP_LEFT_SHIFT ms OR push_bit DATACENTER_ID_SHIFT (uu_datacenterId u))
       OR push_bit WORKER_ID_SHIFT (uu_workerId u)) OR s"

lemmas uuid_shifts = TIMESTAMP_LEFT_SHIFT_def DATACENTER_ID_SHIFT_def WORKER_ID_SHIFT_def
  SEQUENCE_BITS_def WORKER_ID_BITS_def DATACENTERIDBITS_def

definition uuid_ok :: "uuid_utils \<Rightarrow> bool" where
  "uuid_ok u \<longleftrightarrow> uint (uu_workerId u) < 32 \<and> uint (uu_datacenterId u) < 32 \<and> uint (uu_sequence u) < 4096
     \<and> uu_idepoch u = ID_EPOCH"

lemma assemble_value:
  assumes "uuid_ok u" and "uint ms < 2 ^ 41" and "uint s < 4096"
  shows "uint (assemble u ms s)
     = uint ms * 2 ^ 22 + uint (uu_datacenterId u) * 2 ^ 17 + uint (uu_workerId u) * 2 ^ 12 + uint s"
proof -
  have a: "assemble u ms s = push_bit 22 ms OR (push_bit 17 (uu_datacenterId u) OR (push_bit 12 (uu_workerId u) OR s))"
    by (simp add: assemble_def uuid_shifts or.assoc)
  have w: "uint (push_bit 12 (uu_workerId u) OR s) = uint (uu_workerId u) * 2 ^ 12 + uint s"
    by (rule push_or_value) (use assms in \<open>auto simp: uuid_ok_def\<close>)
  have d: "uint (push_bit 17 (uu_datacenterId u) OR (push_bit 12 (uu_workerId u) OR s))
      = uint (uu_datacenterId u) * 2 ^ 17 + (uint (uu_workerId u) * 2 ^ 12 + uint s)"
    unfolding w [symmetric] by (rule push_or_value) (use assms in \<open>auto simp: uuid_ok_def w\<close>)
  have "uint (push_bit 22 ms OR (push_bit 17 (uu_datacenterId u) OR (push_bit 12 (uu_workerId u) OR s)))
      = uint ms * 2 ^ 22 + (uint (uu_datacenterId u) * 2 ^ 17 + (uint (uu_workerId u) * 2 ^ 12 + uint s))"
    unfolding d [symmetric] by (rule push_or_value) (use assms in \<open>auto simp: uuid_ok_def d\<close>)
  then show ?thesis by (simp add: a)
qed

subsection \<open>One call\<close>

lemma sequence_mask: "SEQUENCE_MASK = mask 12"
  by (simp add: SEQUENCE_MASK_def SEQUENCE_BITS_def mask_eq_exp_minus_1)

lemma sequence_step:
  assumes "uint (s :: 64 word) < 4096"
  shows "uint ((s + 1) AND SEQUENCE_MASK) < 4096"
    and "(s + 1) AND SEQUENCE_MASK \<noteq> 0 \<Longrightarrow> uint ((s + 1) AND SEQUENCE_MASK) = uint s + 1"
proof -
  have t: "uint ((s + 1) AND SEQUENCE_MASK) = take_bit 12 (uint (s + 1))"
    by (simp add: sequence_mask take_bit_eq_mask [symmetric] unsigned_take_bit_eq)
  then show "uint ((s + 1) AND SEQUENCE_MASK) < 4096"
    using take_bit_int_less_exp [of 12 "uint (s + 1)"] by simp
  have s1: "uint (s + 1) = uint s + 1"
    using assms by (subst uint_plus_simple_iff [THEN iffD1]) (auto simp: word_le_def uint_word_ariths)
  assume nz: "(s + 1) AND SEQUENCE_MASK \<noteq> 0"
  then have "uint s + 1 \<noteq> 4096" using t s1 by (auto simp: uint_0_iff)
  with assms have "uint s + 1 < 2 ^ 12" by simp
  then show "uint ((s + 1) AND SEQUENCE_MASK) = uint s + 1"
    unfolding t s1 by (simp add: take_bit_int_eq_self)
qed

lemma tilNextMillis_after:
  "tilNextMillis l ts = Some (t, ts') \<Longrightarrow> sint l < sint t \<and> t \<in> set ts \<and> set ts' \<subseteq> set ts"
  by (induction ts) (auto split: if_splits)

text \<open>Position of an identifier in the order of issue.\<close>

definition issue_key :: "uuid_utils \<Rightarrow> int" where
  "issue_key u = sint (uu_lastTimestamp u) * 4096 + uint (uu_sequence u)"

lemma nextId_step:
  assumes ok: "uuid_ok u" and "nextId u clock = Some (Inr i, u', clock')"
  shows "uuid_ok u' \<and> uu_workerId u' = uu_workerId u \<and> uu_datacenterId u' = uu_datacenterId u
     \<and> i = assemble u' (uu_lastTimestamp u' - ID_EPOCH) (uu_sequence u')
     \<and> issue_key u < issue_key u' \<and> uu_lastTimestamp u' \<in> set clock \<and> set clock' \<subseteq> set clock"
proof -
  obtain t ts where c: "clock = t # ts" using assms(2) by (cases clock) (auto simp: nextId_def)
  have ge: "\<not> sint t < sint (uu_lastTimestamp u)" using assms(2) c by (auto simp: nextId_def)
  let ?s = "(uu_sequence u + 1) AND SEQUENCE_MASK"
  let ?next = "if uu_lastTimestamp u = t then
                   (if ?s = 0 then map_option (\<lambda>(t, ts'). (?s, t, ts')) (tilNextMillis (uu_lastTimestamp u) ts)
                       else Some (?s, t, ts))
                 else Some (0, t, ts)"
  obtain s t' ts' where n: "?next = Some (s, t', ts')"
    and r: "i = assemble u (t' - uu_idepoch u) s" "u' = u\<lparr>uu_sequence := s, uu_lastTimestamp := t'\<rparr>" "clock' = ts'"
  proof (cases ?next)
    case None
    then have "nextId u clock = None" using ge by (simp only: nextId_def c list.case Let_def) simp
    with assms(2) show ?thesis by simp
  next
    case (Some r)
    obtain s t' ts' where r: "r = (s, t', ts')" by (cases r)
    have "nextId u clock = Some (Inr (assemble u (t' - uu_idepoch u) s),
        u\<lparr>uu_sequence := s, uu_lastTimestamp := t'\<rparr>, ts')"
      using ge Some r by (simp only: nextId_def c list.case Let_def assemble_def) simp
    with assms(2) that Some r show ?thesis by simp
  qed
  have sq: "uint (uu_sequence u) < 4096" using ok by (simp add: uuid_ok_def)
  have key: "uint s < 4096 \<and> t' \<in> set clock \<and> set ts' \<subseteq> set clock
      \<and> sint (uu_lastTimestamp u) * 4096 + uint (uu_sequence u) < sint t' * 4096 + uint s"
  proof (cases "uu_lastTimestamp u = t")
    case False
    then have "sint t \<noteq> sint (uu_lastTimestamp u)" using signed_word_eqI by blast
    with False ge n c sq show ?thesis by auto
  next
    case same: True
    show ?thesis
    proof (cases "?s = 0")
      case True
      with n same obtain "s = 0" and tl: "tilNextMillis (uu_lastTimestamp u) ts = Some (t', ts')" by auto
      from tilNextMillis_after [OF tl] \<open>s = 0\<close> c sq show ?thesis by auto
    next
      case False
      with n same have e: "s = ?s" "t' = t" "ts' = ts" by auto
      from sequence_step [OF sq] False e(1) have "uint s < 4096" "uint s = uint (uu_sequence u) + 1" by auto
      then show ?thesis using e same c by auto
    qed
  qed
  have "assemble u' ms x = assemble u ms x" for ms x by (simp add: assemble_def r(2))
  with key r ok show ?thesis by (simp add: uuid_ok_def issue_key_def)
qed

lemma nextId_refused:
  "nextId u clock = Some (Inl e, u', clock') \<Longrightarrow> u' = u \<and> set clock' \<subseteq> set clock"
  by (auto simp: nextId_def Let_def split: list.splits if_splits option.splits)

text \<open>The identifiers a sequence of \<open>n\<close> calls returns; a refused call returns none.\<close>

fun uuid_run :: "nat \<Rightarrow> uuid_utils \<Rightarrow> 64 word list \<Rightarrow> 64 word list" where
  "uuid_run 0 u clock = []"
| "uuid_run (Suc n) u clock =
     (case nextId u clock of
        None \<Rightarrow> []
      | Some (Inl e, u', clock') \<Rightarrow> uuid_run n u' clock'
      | Some (Inr i, u', clock') \<Rightarrow> i # uuid_run n u' clock')"

definition in_range :: "64 word \<Rightarrow> bool" where
  "in_range t \<longleftrightarrow> sint ID_EPOCH \<le> sint t \<and> sint t < sint ID_EPOCH + 2 ^ 41"

lemma sint_epoch: "sint ID_EPOCH = 1288834974657"
  by (simp add: ID_EPOCH_def)

lemma in_range_ms: "in_range t \<Longrightarrow> uint (t - ID_EPOCH) = sint t - sint ID_EPOCH"
proof -
  assume r: "in_range t"
  have t: "uint t = sint t" by (rule uint_of_sint) (use r in \<open>auto simp: in_range_def sint_epoch\<close>)
  have e: "uint ID_EPOCH = sint ID_EPOCH" by (rule uint_of_sint) (simp_all add: sint_epoch)
  have "uint (t - ID_EPOCH) = (sint t - sint ID_EPOCH) mod 2 ^ 64"
    by (simp add: uint_word_ariths t e)
  also have "\<dots> = sint t - sint ID_EPOCH"
    using r by (intro mod_pos_pos_trivial) (auto simp: in_range_def)
  finally show ?thesis .
qed

text \<open>The value of an issued identifier, in terms of the issue key.\<close>

lemma issued_value:
  assumes "uuid_ok u" and "in_range (uu_lastTimestamp u)"
  shows "sint (assemble u (uu_lastTimestamp u - ID_EPOCH) (uu_sequence u))
     = (sint (uu_lastTimestamp u) - sint ID_EPOCH) * 2 ^ 22 + uint (uu_datacenterId u) * 2 ^ 17
       + uint (uu_workerId u) * 2 ^ 12 + uint (uu_sequence u)"
proof -
  let ?ms = "uu_lastTimestamp u - ID_EPOCH" and ?i = "assemble u (uu_lastTimestamp u - ID_EPOCH) (uu_sequence u)"
  have ms: "uint ?ms = sint (uu_lastTimestamp u) - sint ID_EPOCH" by (rule in_range_ms [OF assms(2)])
  have lt: "uint ?ms < 2 ^ 41" using assms(2) unfolding ms by (simp add: in_range_def)
  have v: "uint ?i = uint ?ms * 2 ^ 22 + uint (uu_datacenterId u) * 2 ^ 17 + uint (uu_workerId u) * 2 ^ 12
      + uint (uu_sequence u)"
    by (rule assemble_value) (use assms(1) lt in \<open>auto simp: uuid_ok_def\<close>)
  have "uint ?i < 2 ^ 63" unfolding v using assms(1) lt by (simp add: uuid_ok_def)
  then have "signed_take_bit 63 (uint ?i) = uint ?i"
    by (intro signed_take_bit_int_eq_self) (auto intro: order_trans [of _ 0])
  then have "sint ?i = uint ?i" by (simp add: sint_uint)
  with v ms show ?thesis by simp
qed

lemma key_scale:
  fixes a b s t :: int
  assumes "0 \<le> s" "0 \<le> t" "s < 4096" "t < 4096" and "a * 4096 + s < b * 4096 + t"
  shows "a * 4194304 + s < b * 4194304 + t"
proof (cases "a < b")
  case True
  then have "a + 1 \<le> b" by simp
  with assms(1-4) show ?thesis by linarith
next
  case False
  with assms have "a = b" by linarith
  with assms(5) show ?thesis by simp
qed

lemma uuid_run_above:
  assumes "uuid_ok u" and "\<forall>t\<in>set clock. in_range t"
  shows "sorted_wrt (\<lambda>a b. sint a < sint b) (uuid_run n u clock)
     \<and> (\<forall>i\<in>set (uuid_run n u clock). \<exists>v. uuid_ok v \<and> in_range (uu_lastTimestamp v)
          \<and> uu_workerId v = uu_workerId u \<and> uu_datacenterId v = uu_datacenterId u \<and> issue_key u < issue_key v
          \<and> i = assemble v (uu_lastTimestamp v - ID_EPOCH) (uu_sequence v))"
  using assms
proof (induction n arbitrary: u clock)
  case 0
  then show ?case by simp
next
  case (Suc n)
  show ?case
  proof (cases "nextId u clock")
    case None
    then show ?thesis by simp
  next
    case (Some r)
    then obtain x u' clock' where n: "nextId u clock = Some (x, u', clock')" by (cases r) auto
    show ?thesis
    proof (cases x)
      case (Inl e)
      from nextId_refused [OF n [unfolded Inl]] have u: "u' = u" "set clock' \<subseteq> set clock" by simp_all
      then have "\<forall>t\<in>set clock'. in_range t" using Suc.prems(2) by blast
      from Suc.IH [OF Suc.prems(1) this] n Inl u show ?thesis by simp
    next
      case (Inr i)
      note st = nextId_step [OF Suc.prems(1) n [unfolded Inr]]
      have rng: "in_range (uu_lastTimestamp u')" using st Suc.prems(2) by blast
      have ok': "uuid_ok u'" and sub: "set clock' \<subseteq> set clock" using st by simp_all
      have "\<forall>t\<in>set clock'. in_range t" using sub Suc.prems(2) by blast
      note ih = Suc.IH [OF ok' this]
      have IH: "sorted_wrt (\<lambda>a b. sint a < sint b) (uuid_run n u' clock')"
        "\<forall>j\<in>set (uuid_run n u' clock'). \<exists>v. uuid_ok v \<and> in_range (uu_lastTimestamp v)
          \<and> uu_workerId v = uu_workerId u' \<and> uu_datacenterId v = uu_datacenterId u' \<and> issue_key u' < issue_key v
          \<and> j = assemble v (uu_lastTimestamp v - ID_EPOCH) (uu_sequence v)"
        by (rule ih [THEN conjunct1], rule ih [THEN conjunct2])
      have "sint i < sint j" if jin: "j \<in> set (uuid_run n u' clock')" for j
      proof -
        obtain v where v: "uuid_ok v" "in_range (uu_lastTimestamp v)" "uu_workerId v = uu_workerId u'"
          "uu_datacenterId v = uu_datacenterId u'" "issue_key u' < issue_key v"
          "j = assemble v (uu_lastTimestamp v - ID_EPOCH) (uu_sequence v)"
          using bspec [OF IH(2) jin] by (elim exE conjE) rule
        have "uint (uu_sequence u') < 4096" "uint (uu_sequence v) < 4096"
          using st v(1) by (auto simp: uuid_ok_def)
        moreover have "0 \<le> uint (uu_sequence u')" "0 \<le> uint (uu_sequence v)" by simp_all
        ultimately have "(sint (uu_lastTimestamp u') - sint ID_EPOCH) * 2 ^ 22 + uint (uu_sequence u')
            < (sint (uu_lastTimestamp v) - sint ID_EPOCH) * 2 ^ 22 + uint (uu_sequence v)"
          using v(5) key_scale [of "uint (uu_sequence u')" "uint (uu_sequence v)"] unfolding issue_key_def
          by (simp add: left_diff_distrib)
        then show ?thesis
          using issued_value [OF v(1,2)] issued_value [of u'] rng st v(3,4,6) by simp
      qed
      moreover have run: "uuid_run (Suc n) u clock = i # uuid_run n u' clock'" using n Inr by simp
      moreover have "\<exists>v. uuid_ok v \<and> in_range (uu_lastTimestamp v)
          \<and> uu_workerId v = uu_workerId u \<and> uu_datacenterId v = uu_datacenterId u \<and> issue_key u < issue_key v
          \<and> j = assemble v (uu_lastTimestamp v - ID_EPOCH) (uu_sequence v)"
        if "j \<in> set (i # uuid_run n u' clock')" for j
      proof (cases "j = i")
        case True
        with st rng show ?thesis by (intro exI [of _ u']) simp
      next
        case False
        with that have "j \<in> set (uuid_run n u' clock')" by simp
        from bspec [OF IH(2) this] obtain v where "uuid_ok v" "in_range (uu_lastTimestamp v)" "uu_workerId v = uu_workerId u'"
          "uu_datacenterId v = uu_datacenterId u'" "issue_key u' < issue_key v"
          "j = assemble v (uu_lastTimestamp v - ID_EPOCH) (uu_sequence v)" by blast
        with st show ?thesis by (intro exI [of _ v]) simp
      qed
      ultimately show ?thesis unfolding run using IH(1) by simp
    qed
  qed
qed

lemma max_ids: "sint MAX_WORKER_ID = 31" "sint MAX_DATACENTER_ID = 31"
  by code_simp+

lemma new_uuid_ok: "new_uuid_utils w d ID_EPOCH = Inr u \<Longrightarrow> uuid_ok u"
proof -
  assume "new_uuid_utils w d ID_EPOCH = Inr u"
  then have u: "u = \<lparr>uu_workerId = w, uu_datacenterId = d, uu_idepoch = ID_EPOCH, uu_sequence = 48, uu_lastTimestamp = - 1\<rparr>"
    and r: "0 \<le> sint w" "sint w \<le> 31" "0 \<le> sint d" "sint d \<le> 31"
    by (auto simp: new_uuid_utils_def max_ids split: if_splits)
  have nn: "uint x = sint x" if "0 \<le> sint x" "sint x \<le> 31" for x :: "64 word"
    by (rule uint_of_sint) (use that in auto)
  show ?thesis using r by (simp add: u uuid_ok_def nn)
qed

text \<open>
  C27: Identifiers never repeat and grow. For any worker and data center the constructor accepts and
  any clock readings in the 41 bit range after the epoch (69 years from 2010), however the clock
  stalls or jumps back and however often a call is refused, the identifiers returned by
  consecutive calls are strictly increasing as Java longs.
\<close>

theorem uuid_strictly_increasing:
  assumes "new_uuid_utils w d ID_EPOCH = Inr u" and "\<forall>t\<in>set clock. in_range t"
  shows "sorted_wrt (\<lambda>a b. sint a < sint b) (uuid_run n u clock)"
  using uuid_run_above [OF new_uuid_ok [OF assms(1)] assms(2)] by blast

lemma uuid_strictly_increasing_witness:
  "sorted_wrt (\<lambda>a b. sint a < sint b)
     (uuid_run 3 \<lparr>uu_workerId = 1, uu_datacenterId = 2, uu_idepoch = ID_EPOCH, uu_sequence = 48,
        uu_lastTimestamp = - 1\<rparr> [1288834974700, 1288834974700, 1288834974690, 1288834974701])"
proof -
  let ?u = "\<lparr>uu_workerId = 1, uu_datacenterId = 2, uu_idepoch = ID_EPOCH, uu_sequence = 48, uu_lastTimestamp = - 1\<rparr> :: uuid_utils"
  have "new_uuid_utils 1 2 ID_EPOCH = Inr ?u" by (simp add: new_uuid_utils_def max_ids)
  then show ?thesis
    by (rule uuid_strictly_increasing) (simp add: in_range_def ID_EPOCH_def)
qed

text \<open>
  The fields can be read back. An identifier holds the worker in bits 12 to 16, the data center in
  bits 17 to 21 and the sequence in the low 12 bits.
\<close>

theorem uuid_fields:
  assumes "uuid_ok u" and "nextId u clock = Some (Inr i, u', clock')"
  shows "take_bit 5 (drop_bit 12 i) = uu_workerId u \<and> take_bit 5 (drop_bit 17 i) = uu_datacenterId u
     \<and> take_bit 12 i = uu_sequence u'"
proof -
  note st = nextId_step [OF assms]
  have small: "take_bit k x = x" if "uint x < 2 ^ k" for k and x :: "64 word"
  proof -
    have "uint (take_bit k x) = uint x" using that by (simp add: unsigned_take_bit_eq take_bit_int_eq_self)
    then show ?thesis by (simp add: word_uint_eq_iff)
  qed
  have w: "take_bit 5 (uu_workerId u) = uu_workerId u" and d: "take_bit 5 (uu_datacenterId u) = uu_datacenterId u"
    and s: "take_bit 12 (uu_sequence u') = uu_sequence u'"
    using assms(1) st by (auto simp: uuid_ok_def intro!: small)
  have bw: "bit (uu_workerId u) k \<Longrightarrow> k < 5" for k using w by (metis bit_take_bit_iff)
  have bd: "bit (uu_datacenterId u) k \<Longrightarrow> k < 5" for k using d by (metis bit_take_bit_iff)
  have bs: "bit (uu_sequence u') k \<Longrightarrow> k < 12" for k using s by (metis bit_take_bit_iff)
  have i: "i = ((push_bit 22 (uu_lastTimestamp u' - ID_EPOCH) OR push_bit 17 (uu_datacenterId u))
      OR push_bit 12 (uu_workerId u)) OR uu_sequence u'"
    using st by (simp add: assemble_def uuid_shifts)
  show ?thesis
    by (intro conjI bit_eqI)
      (auto simp: i bit_simps bit_take_bit_iff dest: bw bd bs)
qed

lemma uuid_fields_witness:
  "take_bit 5 (drop_bit 12 (push_bit 22 43 OR push_bit 17 2 OR push_bit 12 1 :: 64 word)) = (1 :: 64 word)"
proof -
  let ?u = "\<lparr>uu_workerId = 1, uu_datacenterId = 2, uu_idepoch = ID_EPOCH, uu_sequence = 48, uu_lastTimestamp = - 1\<rparr> :: uuid_utils"
  have "uuid_ok ?u" by (simp add: uuid_ok_def)
  moreover have "nextId ?u [1288834974700] = Some (Inr (push_bit 22 43 OR push_bit 17 2 OR push_bit 12 1),
      ?u\<lparr>uu_sequence := 0, uu_lastTimestamp := 1288834974700\<rparr>, [])"
    by (simp add: nextId_def uuid_shifts ID_EPOCH_def)
  ultimately show ?thesis using uuid_fields by fastforce
qed

end
