(* ===== verification/RateLimiter.thy ===== *)
theory RateLimiter
  imports PluginChain
begin

text \<open>
  The rate limiter: the token bucket script \<open>request_rate_limiter.lua\<close> with the keys of Redis that
  expire, \<open>RedisRateLimiter\<close>, the plugin's answer and the Redis topology its data handler builds.
  Numbers of the script are rationals: the rounding of Lua's doubles and of their decimal text is
  not modelled.
\<close>

subsection \<open>Redis\<close>

text \<open>Number values with the second from which they have expired; \<open>get\<close> and \<open>setex\<close> at a second \<open>t\<close>.\<close>

type_synonym redis = "string \<rightharpoonup> rat \<times> int"

definition redis_get :: "int \<Rightarrow> redis \<Rightarrow> string \<Rightarrow> rat option" where
  "redis_get t db k = (case db k of Some (v, expiry) \<Rightarrow> if t < expiry then Some v else None | None \<Rightarrow> None)"

text \<open>\<open>setex\<close> refuses a time to live that is not positive.\<close>

definition redis_setex :: "int \<Rightarrow> string \<Rightarrow> int \<Rightarrow> rat \<Rightarrow> redis \<Rightarrow> redis option" where
  "redis_setex t k ttl v db = (if 0 < ttl then Some (db(k \<mapsto> (v, t + ttl))) else None)"

subsection \<open>The script\<close>

text \<open>
  \<open>t\<close> is the clock of Redis, \<open>now\<close> the second the gateway sends. \<open>None\<close> is an error of the script;
  then no key has been written, for the first write has the same time to live as the second.
\<close>

definition rate_script ::
  "int \<Rightarrow> string \<Rightarrow> string \<Rightarrow> rat \<Rightarrow> rat \<Rightarrow> int \<Rightarrow> rat \<Rightarrow> redis \<Rightarrow> ((int \<times> rat) \<times> redis) option" where
  "rate_script t tokens_key timestamp_key rate capacity now requested db =
     (let fill_time = capacity / rate;
          ttl = floor (fill_time * 2);
          last_tokens = (case redis_get t db tokens_key of Some v \<Rightarrow> v | None \<Rightarrow> capacity);
          last_refreshed = (case redis_get t db timestamp_key of Some v \<Rightarrow> v | None \<Rightarrow> 0);
          delta = max 0 (of_int now - last_refreshed);
          filled_tokens = min capacity (last_tokens + delta * rate);
          allowed = (requested \<le> filled_tokens);
          new_tokens = (if allowed then filled_tokens - requested else filled_tokens);
          allowed_num = (if allowed then 1 else 0)
      in Option.bind (redis_setex t tokens_key ttl new_tokens db) (\<lambda>db1.
           map_option (\<lambda>db2. ((allowed_num, new_tokens), db2)) (redis_setex t timestamp_key ttl (of_int now) db1)))"

subsection \<open>\<open>RedisRateLimiter\<close>\<close>

record rate_limiter_response =
  rr_allowed :: bool
  rr_tokensRemaining :: int

definition getKeys :: "string \<Rightarrow> string \<times> string" where
  "getKeys i = (let pre = ''request_rate_limiter.{'' @ i in (pre @ ''}.tokens'', pre @ ''}.timestamp''))"

text \<open>
  \<open>isAllowed\<close>: an error of the script or of the connection (\<open>up\<close> is false) becomes the answer
  \<open>[1, -1]\<close>. The tokens come back truncated to a \<open>long\<close>.
\<close>

definition isAllowed :: "bool \<Rightarrow> int \<Rightarrow> int \<Rightarrow> string \<Rightarrow> rat \<Rightarrow> rat \<Rightarrow> redis \<Rightarrow> rate_limiter_response \<times> redis" where
  "isAllowed up t now i replenishRate burstCapacity db =
     (let (tokenKey, timestampKey) = getKeys i in
      case (if up then rate_script t tokenKey timestampKey replenishRate burstCapacity now 1 db else None) of
        Some ((a, n), db') \<Rightarrow> (\<lparr>rr_allowed = (a = 1), rr_tokensRemaining = (if n < 0 then - floor (- n) else floor n)\<rparr>, db')
      | None \<Rightarrow> (\<lparr>rr_allowed = True, rr_tokensRemaining = - 1\<rparr>, db))"

subsection \<open>\<open>RateLimiterPlugin\<close>\<close>

text \<open>
  The method \<open>doExecute\<close> as written, with the selector and rule as arguments. (The base class calls a
  method of two arguments, which this class does not define.) \<open>parse\<close> is Gson on the handle.
\<close>

definition limiter_doExecute ::
  "(string option \<Rightarrow> rate_limiter_handle option jres) \<Rightarrow> bool \<Rightarrow> int \<Rightarrow> int \<Rightarrow> rule_data \<Rightarrow> exchange \<times> redis
    \<Rightarrow> (exchange \<times> redis) action" where
  "limiter_doExecute parse up t now rule exdb =
     (case exdb of (ex, db) \<Rightarrow>
      act_of (ex, db) (bindr (parse (rd_handle rule)) deref) (\<lambda>h.
        case isAllowed up t now (rd_id rule) (rl_replenishRate h) (rl_burstCapacity h) db of
          (response, db') \<Rightarrow>
            if \<not> rr_allowed response
            then Finish (result_of SR_TOO_MANY_REQUESTS (set_status 429 ex), db')
            else Next (ex, db')))"

subsection \<open>\<open>RateLimiterPluginDataHandler\<close>\<close>

text \<open>\<open>Integer\<close> and text fields may be null; \<open>maxWait\<close> is in milliseconds.\<close>

record rate_limiter_config =
  rc_database :: "int option"
  rc_master :: "string option"
  rc_mode :: "string option"
  rc_url :: "string option"
  rc_password :: "string option"
  rc_maxIdle :: int
  rc_minIdle :: int
  rc_maxActive :: int
  rc_maxWait :: "int option"

definition new_rate_limiter_config :: rate_limiter_config where
  "new_rate_limiter_config =
     \<lparr>rc_database = Some 0, rc_master = None, rc_mode = Some (redis_mode_name RM_STANDALONE), rc_url = None,
      rc_password = None, rc_maxIdle = 8, rc_minIdle = 0, rc_maxActive = 8, rc_maxWait = Some (- 1)\<rparr>"

datatype redis_topology =
    Standalone string int int "string option"
  | Sentinel "string option" "(string \<times> int) list" int "string option"
  | Cluster "(string \<times> int) list" "string option"

text \<open>\<open>getPoolConfig\<close>: total, idle at most, idle at least, and the wait where it is given.\<close>

definition getPoolConfig :: "rate_limiter_config \<Rightarrow> int \<times> int \<times> int \<times> int option" where
  "getPoolConfig c = (rc_maxActive c, rc_maxIdle c, rc_minIdle c, rc_maxWait c)"

definition part :: "nat \<Rightarrow> string list \<Rightarrow> string jres" where
  "part i ps = (if i < length ps then Inr (ps ! i) else Inl IndexOutOfBounds)"

definition redisStandaloneConfiguration :: "rate_limiter_config \<Rightarrow> redis_topology jres" where
  "redisStandaloneConfiguration c =
     bindr (deref (rc_url c)) (\<lambda>url.
       let parts = split_parts (CHR '':'') url
       in bindr (part 0 parts) (\<lambda>h. bindr (part 1 parts) (\<lambda>p. bindr (parse_int p) (\<lambda>n.
            bindr (deref (rc_database c)) (\<lambda>d. Inr (Standalone h n d (rc_password c)))))))"

definition redis_node :: "string \<Rightarrow> (string \<times> int) jres" where
  "redis_node node =
     (let parts = split_parts (CHR '':'') node
      in if length parts \<noteq> 2 then Inl (IllegalState (''Must be defined as '' @ [CHR 0x27] @ ''host:port'' @ [CHR 0x27]))
         else bindr (parse_int (parts ! 1)) (\<lambda>n. Inr (parts ! 0, n)))"

definition createRedisNode :: "string option \<Rightarrow> (string \<times> int) list jres" where
  "createRedisNode url = bindr (deref url) (\<lambda>u. mapr redis_node (split_on (CHR '';'') u))"

definition redisClusterConfiguration :: "rate_limiter_config \<Rightarrow> redis_topology jres" where
  "redisClusterConfiguration c = bindr (createRedisNode (rc_url c)) (\<lambda>ns. Inr (Cluster ns (rc_password c)))"

definition redisSentinelConfiguration :: "rate_limiter_config \<Rightarrow> redis_topology jres" where
  "redisSentinelConfiguration c =
     bindr (createRedisNode (rc_url c)) (\<lambda>ns. bindr (deref (rc_database c)) (\<lambda>d.
       Inr (Sentinel (rc_master c) ns d (rc_password c))))"

type_synonym connection_factory = "redis_topology \<times> int \<times> int \<times> int \<times> int option"

definition createLettuceConnectionFactory :: "rate_limiter_config \<Rightarrow> connection_factory jres" where
  "createLettuceConnectionFactory c =
     bindr (if rc_mode c = Some (redis_mode_name RM_SENTINEL) then redisSentinelConfiguration c
        else if rc_mode c = Some (redis_mode_name RM_CLUSTER) then redisClusterConfiguration c
        else redisStandaloneConfiguration c) (\<lambda>topology. Inr (topology, getPoolConfig c))"

text \<open>The singletons: the template (here its connection factory) and the configuration it was built from.\<close>

type_synonym limiter_singletons = "connection_factory option \<times> rate_limiter_config option"

definition limiter_handlerPlugin ::
  "(string option \<Rightarrow> rate_limiter_config option jres) \<Rightarrow> plugin_data option \<Rightarrow> limiter_singletons \<Rightarrow> limiter_singletons jres" where
  "limiter_handlerPlugin parse pd s =
     (case pd of
        None \<Rightarrow> Inr s
      | Some p \<Rightarrow>
          if \<not> pd_enabled p then Inr s
          else bindr (parse (pd_config p)) (\<lambda>co.
            if fst s = None \<or> snd s = None then
              bindr (deref co) (\<lambda>c. bindr (createLettuceConnectionFactory c) (\<lambda>r. Inr (Some r, Some c)))
            else bindr (deref co) (\<lambda>c.
              if snd s \<noteq> Some c then bindr (createLettuceConnectionFactory c) (\<lambda>r. Inr (Some r, Some c)) else Inr s)))"

subsection \<open>The token bucket\<close>

text \<open>The reference: tokens and the second of the last call, without any expiry.\<close>

definition bucket_step :: "rat \<Rightarrow> rat \<Rightarrow> int \<Rightarrow> rat \<times> int \<Rightarrow> bool \<times> rat \<times> int" where
  "bucket_step rate capacity now b =
     (let filled = min capacity (fst b + max 0 (of_int (now - snd b)) * rate)
      in if 1 \<le> filled then (True, filled - 1, now) else (False, filled, now))"

fun bucket_run :: "rat \<Rightarrow> rat \<Rightarrow> int list \<Rightarrow> rat \<times> int \<Rightarrow> bool list" where
  "bucket_run rate capacity [] b = []"
| "bucket_run rate capacity (t # ts) b =
     (case bucket_step rate capacity t b of (a, b') \<Rightarrow> a # bucket_run rate capacity ts b')"

text \<open>Calls of the limiter for one rule at the seconds \<open>ts\<close>, the clocks of Redis and gateway agreeing.\<close>

fun limiter_run :: "string \<Rightarrow> rat \<Rightarrow> rat \<Rightarrow> int list \<Rightarrow> redis \<Rightarrow> bool list" where
  "limiter_run i rate capacity [] db = []"
| "limiter_run i rate capacity (t # ts) db =
     (case isAllowed True t t i rate capacity db of
        (response, db') \<Rightarrow> rr_allowed response # limiter_run i rate capacity ts db')"

lemma keys_differ: "getKeys i = (a, b) \<Longrightarrow> a \<noteq> b"
  by (auto simp: getKeys_def Let_def)

text \<open>What the two keys of a rule hold after a call at \<open>snd b\<close>.\<close>

definition holds_bucket :: "string \<Rightarrow> int \<Rightarrow> rat \<times> int \<Rightarrow> redis \<Rightarrow> bool" where
  "holds_bucket i ttl b db \<longleftrightarrow> db (fst (getKeys i)) = Some (fst b, snd b + ttl)
     \<and> db (snd (getKeys i)) = Some (of_int (snd b), snd b + ttl)"

lemma script_step:
  assumes ttl: "0 < ttl" "ttl = floor (capacity / rate * 2)"
    and last: "(case redis_get t db (fst (getKeys i)) of Some v \<Rightarrow> v | None \<Rightarrow> capacity) = l"
      "(case redis_get t db (snd (getKeys i)) of Some v \<Rightarrow> v | None \<Rightarrow> 0) = s"
    and same: "min capacity (l + max 0 (of_int t - s) * rate)
      = min capacity (fst b + max 0 (of_int (t - snd b)) * rate)"
  shows "\<exists>response db'. isAllowed True t t i rate capacity db = (response, db')
     \<and> rr_allowed response = fst (bucket_step rate capacity t b)
     \<and> holds_bucket i ttl (snd (bucket_step rate capacity t b)) db'"
proof -
  obtain k1 k2 where k: "getKeys i = (k1, k2)" by (cases "getKeys i")
  note ne = keys_differ [OF k]
  let ?f = "min capacity (l + max 0 (of_int t - s) * rate)"
  have l1: "(case redis_get t db k1 of Some v \<Rightarrow> v | None \<Rightarrow> capacity) = l"
    and l2: "(case redis_get t db k2 of Some v \<Rightarrow> v | None \<Rightarrow> 0) = s" using last k by simp_all
  have r: "rate_script t k1 k2 rate capacity t 1 db
    = Some ((if 1 \<le> ?f then 1 else 0, if 1 \<le> ?f then ?f - 1 else ?f),
        db(k1 \<mapsto> (if 1 \<le> ?f then ?f - 1 else ?f, t + ttl), k2 \<mapsto> (of_int t, t + ttl)))"
    unfolding rate_script_def Let_def l1 l2 ttl(2) [symmetric] using ttl(1) by (simp add: redis_setex_def)
  show ?thesis
    by (auto simp: isAllowed_def k r holds_bucket_def bucket_step_def same Let_def ne)
qed

lemma ttl_refills:
  fixes rate capacity :: rat
  assumes "0 < rate" and "rate \<le> 2 * capacity" and "ttl = floor (capacity / rate * 2)"
  shows "0 < ttl" and "capacity \<le> of_int ttl * rate"
proof -
  define x where "x = capacity / rate"
  have x: "1 \<le> x * 2" unfolding x_def using assms(1,2) by (simp add: field_simps)
  have ttl: "ttl = floor (x * 2)" using assms(3) by (simp add: x_def)
  show pos: "0 < ttl" unfolding ttl using x by (simp add: zero_less_floor)
  have "x * 2 < of_int ttl + 1" unfolding ttl by linarith
  moreover have "(1 :: rat) \<le> of_int ttl" using pos by simp
  ultimately have "x \<le> of_int ttl" by (cases "1 \<le> x"; linarith)
  then show "capacity \<le> of_int ttl * rate" unfolding x_def using assms(1) by (simp add: field_simps)
qed

lemma limiter_run_bucket:
  assumes rate: "0 < rate" and fit: "rate \<le> 2 * capacity" and ttl: "ttl = floor (capacity / rate * 2)"
  shows "holds_bucket i ttl b db \<Longrightarrow> 0 \<le> fst b \<Longrightarrow> sorted (snd b # ts)
    \<Longrightarrow> limiter_run i rate capacity ts db = bucket_run rate capacity ts b"
proof (induction ts arbitrary: b db)
  case (Cons t ts)
  note pos = ttl_refills [OF rate fit ttl]
  have cap: "0 < capacity" using rate fit by linarith
  have le: "snd b \<le> t" using Cons.prems(3) by simp
  have step: "\<exists>response db'. isAllowed True t t i rate capacity db = (response, db')
     \<and> rr_allowed response = fst (bucket_step rate capacity t b)
     \<and> holds_bucket i ttl (snd (bucket_step rate capacity t b)) db'"
  proof (cases "t < snd b + ttl")
    case True
    with Cons.prems(1) have "redis_get t db (fst (getKeys i)) = Some (fst b)"
      "redis_get t db (snd (getKeys i)) = Some (of_int (snd b))"
      by (simp_all add: holds_bucket_def redis_get_def)
    then show ?thesis by (intro script_step [OF pos(1) ttl, where l = "fst b" and s = "of_int (snd b)"]) simp_all
  next
    case False
    with Cons.prems(1) have g: "redis_get t db (fst (getKeys i)) = None" "redis_get t db (snd (getKeys i)) = None"
      by (simp_all add: holds_bucket_def redis_get_def)
    have "of_int ttl \<le> (of_int (t - snd b) :: rat)" using False by linarith
    then have "of_int ttl * rate \<le> of_int (t - snd b) * rate" using rate by (intro mult_right_mono) simp_all
    with pos(2) have full: "capacity \<le> of_int (t - snd b) * rate" by linarith
    have "min capacity (fst b + max 0 (of_int (t - snd b)) * rate) = capacity"
      using full Cons.prems(2) le by simp
    moreover have "min capacity (capacity + max 0 (of_int t - 0) * rate) = capacity"
      using rate by simp
    ultimately show ?thesis
      using g by (intro script_step [OF pos(1) ttl, where l = capacity and s = 0]) simp_all
  qed
  then obtain response db' where s: "isAllowed True t t i rate capacity db = (response, db')"
     "rr_allowed response = fst (bucket_step rate capacity t b)"
     "holds_bucket i ttl (snd (bucket_step rate capacity t b)) db'" by blast
  have "0 \<le> fst (snd (bucket_step rate capacity t b))" "snd (snd (bucket_step rate capacity t b)) = t"
    using Cons.prems(2) rate cap by (auto simp: bucket_step_def Let_def)
  then show ?case using Cons.IH [OF s(3)] Cons.prems(3) s(1,2)
    by (simp split: prod.split)
qed simp

lemma limiter_bucket_run:
  assumes "0 < rate" and "rate \<le> 2 * capacity" and "sorted ts" and "\<forall>t\<in>set ts. 0 \<le> t"
  shows "limiter_run i rate capacity ts Map.empty = bucket_run rate capacity ts (capacity, 0)"
proof (cases ts)
  case (Cons t ts')
  let ?ttl = "floor (capacity / rate * 2)" and ?b = "(capacity, 0 :: int)"
  note pos = ttl_refills [OF assms(1,2) refl]
  have cap: "0 < capacity" using assms(1,2) by linarith
  have "\<exists>response db'. isAllowed True t t i rate capacity Map.empty = (response, db')
     \<and> rr_allowed response = fst (bucket_step rate capacity t ?b)
     \<and> holds_bucket i ?ttl (snd (bucket_step rate capacity t ?b)) db'"
    by (intro script_step [OF pos(1) refl, where l = capacity and s = 0]) (simp_all add: redis_get_def)
  then obtain response db' where s: "isAllowed True t t i rate capacity Map.empty = (response, db')"
     "rr_allowed response = fst (bucket_step rate capacity t ?b)"
     "holds_bucket i ?ttl (snd (bucket_step rate capacity t ?b)) db'" by blast
  have n: "0 \<le> fst (snd (bucket_step rate capacity t ?b))" "snd (snd (bucket_step rate capacity t ?b)) = t"
    using assms(1) cap by (auto simp: bucket_step_def Let_def)
  have "limiter_run i rate capacity ts' db' = bucket_run rate capacity ts' (snd (bucket_step rate capacity t ?b))"
    by (rule limiter_run_bucket [OF assms(1,2) refl s(3) n(1)]) (use assms(3) Cons n(2) in simp)
  then show ?thesis using Cons s(1,2) by (simp split: prod.split)
qed simp



subsection \<open>How much gets through\<close>

definition allowed_count :: "bool list \<Rightarrow> nat" where
  "allowed_count as = length (filter id as)"

lemma bucket_bound:
  assumes "0 < rate"
  shows "0 \<le> fst b \<Longrightarrow> sorted (snd b # ts) \<Longrightarrow> 0 \<le> capacity
    \<Longrightarrow> of_nat (allowed_count (bucket_run rate capacity ts b)) \<le> fst b + of_int (last (snd b # ts) - snd b) * rate"
proof (induction ts arbitrary: b)
  case Nil
  then show ?case by (simp add: allowed_count_def)
next
  case (Cons t ts)
  have le: "snd b \<le> t" using Cons.prems(2) by simp
  obtain a b' where st: "bucket_step rate capacity t b = (a, b')" by (cases "bucket_step rate capacity t b")
  have step: "(if a then 1 else 0) + fst b' \<le> fst b + of_int (t - snd b) * rate" "snd b' = t" "0 \<le> fst b'"
    using st le Cons.prems(1,3) assms by (auto simp: bucket_step_def Let_def split: if_splits)
  have "of_nat (allowed_count (bucket_run rate capacity ts b')) \<le> fst b' + of_int (last (t # ts) - t) * rate"
    using Cons.IH [of b'] step(2,3) Cons.prems(2,3) by simp
  then have "(if a then 1 else 0) + of_nat (allowed_count (bucket_run rate capacity ts b'))
      \<le> fst b + of_int (t - snd b) * rate + of_int (last (t # ts) - t) * rate"
    using step(1) by linarith
  also have "\<dots> = fst b + of_int (last (t # ts) - snd b) * rate" by (simp add: algebra_simps)
  finally have "(if a then 1 else 0) + of_nat (allowed_count (bucket_run rate capacity ts b'))
      \<le> fst b + of_int (last (snd b # t # ts) - snd b) * rate" by simp
  then show ?case using st by (cases a) (simp_all add: allowed_count_def)
qed

text \<open>
  The rate limiter limits. For a positive rate of at most twice the capacity, calls in the order of
  time between the seconds \<open>hd ts\<close> and \<open>last ts\<close> get at most the capacity plus the rate times the
  seconds elapsed through, however they are spread. For a rate above twice the capacity the time to live
  is zero, the script fails, and every call is let through.
\<close>

theorem limiter_bound:
  assumes "0 < rate" and "0 < capacity" and "ts \<noteq> []" and "sorted ts" and "\<forall>t\<in>set ts. 0 \<le> t"
  shows "if rate \<le> 2 * capacity
    then of_nat (allowed_count (limiter_run i rate capacity ts Map.empty)) \<le> capacity + of_int (last ts - hd ts) * rate
    else list_all id (limiter_run i rate capacity ts Map.empty)"
proof (cases "rate \<le> 2 * capacity")
  case True
  obtain t ts' where ts: "ts = t # ts'" using assms(3) by (cases ts) auto
  have "0 \<le> t" using assms(5) ts by simp
  then have "bucket_step rate capacity t (capacity, 0) = bucket_step rate capacity t (capacity, t)"
    using assms(1) by (simp add: bucket_step_def Let_def)
  then have "bucket_run rate capacity ts (capacity, 0) = bucket_run rate capacity ts (capacity, t)"
    by (simp add: ts)
  then show ?thesis
    using bucket_bound [OF assms(1), of "(capacity, t)" ts capacity] limiter_bucket_run [OF assms(1) True assms(4,5)]
      assms(2,4) ts True by simp
next
  case False
  let ?ttl = "floor (capacity / rate * 2)"
  have "capacity / rate * 2 < 1" using False assms(1) by (simp add: field_simps)
  then have "?ttl < 1" by linarith
  then have no: "\<not> 0 < ?ttl" by simp
  have "isAllowed True t t i rate capacity db = (\<lparr>rr_allowed = True, rr_tokensRemaining = - 1\<rparr>, db)" for t db
    using no by (cases "getKeys i") (simp add: isAllowed_def rate_script_def Let_def redis_setex_def)
  then have "list_all id (limiter_run i rate capacity ts db)" for db
    by (induction ts) simp_all
  with False show ?thesis by simp
qed

lemma limiter_bound_witness:
  "of_nat (allowed_count (limiter_run ''r'' 1 2 [10, 10, 10, 11] Map.empty)) \<le> (3 :: rat)
   \<and> list_all id (limiter_run ''r'' 5 2 [10, 10, 10, 11] Map.empty)"
  using limiter_bound [of 1 2 "[10, 10, 10, 11]" "''r''"] limiter_bound [of 5 2 "[10, 10, 10, 11]" "''r''"] by simp

end
