(* ===== verification/DashForms.thy ===== *)
theory DashForms
  imports Prelude
begin

text \<open>
  The dialogs of the dashboard that edit the conditions of a selector or rule and the upstreams of a
  divide selector (bundle \<open>static/index.a62f1466.js\<close>, the components with \<open>checkConditions\<close>):
  their state, the handlers that edit it, the checks and what is submitted.
\<close>

subsection \<open>Conditions\<close>

record cond_row =
  cr_paramType :: string
  cr_operator :: string
  cr_paramName :: string
  cr_paramValue :: string

text \<open>
  The state: the rows, the flags \<open>paramTypeValueEn<n>\<close> (set: the name field of row \<open>n\<close> is hidden; a
  flag never set is undefined) and the last error shown (each error closes the one before).
\<close>

datatype form_error = RowIncomplete nat | ConditionsMissing | NeedOneCondition | UpstreamIncomplete nat
  | UpstreamsMissing | NeedOneUpstream

record cond_form =
  cf_conditions :: "cond_row list"
  cf_hidden :: "nat \<Rightarrow> bool"
  cf_error :: "form_error option"

definition default_row :: cond_row where
  "default_row = \<lparr>cr_paramType = ''uri'', cr_operator = ''='', cr_paramName = ''/'', cr_paramValue = ''''\<rparr>"

definition nameless :: "string \<Rightarrow> bool" where
  "nameless t \<longleftrightarrow> t = ''uri'' \<or> t = ''host'' \<or> t = ''ip''"

text \<open>The constructor: the rows given or one default row; rows without a name get the name \<open>/\<close>.\<close>

definition open_form :: "cond_row list option \<Rightarrow> cond_form" where
  "open_form given =
     (let rows = (case given of Some rs \<Rightarrow> rs | None \<Rightarrow> [default_row])
      in \<lparr>cf_conditions = map (\<lambda>r. if nameless (cr_paramType r) then r\<lparr>cr_paramName := ''/''\<rparr> else r) rows,
          cf_hidden = (\<lambda>n. n < length rows \<and> nameless (cr_paramType (rows ! n))), cf_error = None\<rparr>)"

definition row_given :: "cond_row \<Rightarrow> bool" where
  "row_given r \<longleftrightarrow> cr_paramType r \<noteq> '''' \<and> cr_operator r \<noteq> '''' \<and> cr_paramValue r \<noteq> ''''"

definition row_named :: "cond_row \<Rightarrow> bool" where
  "row_named r \<longleftrightarrow> nameless (cr_paramType r) \<or> cr_paramName r \<noteq> ''''"

text \<open>\<open>checkConditions\<close>: every row is looked at; the result and the error shown last.\<close>

fun check_rows :: "nat \<Rightarrow> cond_row list \<Rightarrow> bool \<times> form_error option \<Rightarrow> bool \<times> form_error option" where
  "check_rows n [] acc = acc"
| "check_rows n (r # rs) acc =
     (let acc1 = (if row_given r then acc else (False, Some (RowIncomplete (n + 1))));
          acc2 = (if row_named r then acc1 else (False, Some (RowIncomplete (n + 1))))
      in check_rows (n + 1) rs acc2)"

definition checkConditions :: "cond_form \<Rightarrow> bool \<times> cond_form" where
  "checkConditions f =
     (case check_rows 0 (cf_conditions f) (True, cf_error f) of (ok, err) \<Rightarrow> (ok, f\<lparr>cf_error := err\<rparr>))"

definition handleAdd :: "cond_form \<Rightarrow> cond_form" where
  "handleAdd f =
     (let rows = cf_conditions f @ [default_row]
      in f\<lparr>cf_conditions := rows, cf_hidden := (cf_hidden f)(length rows - 1 := True)\<rparr>)"

text \<open>\<open>splice(n, 1)\<close> on the rows; the flags stay where they are.\<close>

definition handleDelete :: "nat \<Rightarrow> cond_form \<Rightarrow> cond_form" where
  "handleDelete n f =
     (if 1 < length (cf_conditions f)
      then f\<lparr>cf_conditions := take n (cf_conditions f) @ drop (n + 1) (cf_conditions f)\<rparr>
      else f\<lparr>cf_error := Some NeedOneCondition\<rparr>)"

datatype cond_field = ParamType | Operator | ParamName | ParamValue

fun set_field :: "cond_field \<Rightarrow> string \<Rightarrow> cond_row \<Rightarrow> cond_row" where
  "set_field ParamType v r = r\<lparr>cr_paramType := v\<rparr>"
| "set_field Operator v r = r\<lparr>cr_operator := v\<rparr>"
| "set_field ParamName v r = r\<lparr>cr_paramName := v\<rparr>"
| "set_field ParamValue v r = r\<lparr>cr_paramValue := v\<rparr>"

text \<open>\<open>conditionChange\<close>; \<open>None\<close> is the exception for a row that does not exist.\<close>

definition conditionChange :: "nat \<Rightarrow> cond_field \<Rightarrow> string \<Rightarrow> cond_form \<Rightarrow> cond_form option" where
  "conditionChange n fld v f =
     (if n < length (cf_conditions f) then
        (let r = set_field fld v (cf_conditions f ! n)
         in Some (if fld = ParamType then
                    (if nameless v
                     then f\<lparr>cf_conditions := (cf_conditions f)[n := r\<lparr>cr_paramName := ''/''\<rparr>],
                            cf_hidden := (cf_hidden f)(n := True)\<rparr>
                     else f\<lparr>cf_conditions := (cf_conditions f)[n := r], cf_hidden := (cf_hidden f)(n := False)\<rparr>)
                  else f\<lparr>cf_conditions := (cf_conditions f)[n := r]\<rparr>))
      else None)"

subsection \<open>Upstreams of a divide selector\<close>

record up_row =
  up_host :: string
  up_protocol :: string
  up_url :: string
  up_weight :: string

record divide_form =
  df_cond :: cond_form
  df_upstreams :: "up_row list option"
  df_selectValue :: string

definition default_upstream :: up_row where
  "default_upstream = \<lparr>up_host = '''', up_protocol = '''', up_url = '''', up_weight = ''50''\<rparr>"

fun check_upstream_rows :: "nat \<Rightarrow> up_row list \<Rightarrow> bool \<times> form_error option \<Rightarrow> bool \<times> form_error option" where
  "check_upstream_rows n [] acc = acc"
| "check_upstream_rows n (u # us) acc =
     check_upstream_rows (n + 1) us
       (if up_host u \<noteq> '''' \<and> up_url u \<noteq> '''' \<and> up_weight u \<noteq> '''' then acc
        else (False, Some (UpstreamIncomplete (n + 1))))"

definition checkUpstream :: "up_row list option \<Rightarrow> form_error option \<Rightarrow> bool \<times> form_error option" where
  "checkUpstream ups err =
     (case ups of None \<Rightarrow> (False, Some UpstreamsMissing) | Some us \<Rightarrow> check_upstream_rows 0 us (True, err))"

definition divideHandleAdd :: "divide_form \<Rightarrow> divide_form" where
  "divideHandleAdd f = f\<lparr>df_upstreams :=
     (case df_upstreams f of Some us \<Rightarrow> Some (us @ [default_upstream]) | None \<Rightarrow> Some [])\<rparr>"

definition divideHandleDelete :: "nat \<Rightarrow> divide_form \<Rightarrow> divide_form" where
  "divideHandleDelete n f =
     (case df_upstreams f of
        Some us \<Rightarrow> if 1 < length us then f\<lparr>df_upstreams := Some (take n us @ drop (n + 1) us)\<rparr>
                 else f\<lparr>df_cond := (df_cond f)\<lparr>cf_error := Some NeedOneUpstream\<rparr>\<rparr>
      | None \<Rightarrow> f\<lparr>df_cond := (df_cond f)\<lparr>cf_error := Some NeedOneUpstream\<rparr>\<rparr>)"

subsection \<open>Submitting\<close>

text \<open>
  The order field must match \<open>/^([1-9][0-9]{0,1}|100)$/\<close>; the other rules of the dialog are required
  fields, whose outcome is the parameter \<open>fields_ok\<close>.
\<close>

definition sort_pattern :: "string \<Rightarrow> bool" where
  "sort_pattern s \<longleftrightarrow> s = ''100'' \<or> list_all is_digit s \<and> (length s = 1 \<or> length s = 2) \<and> hd s \<noteq> CHR ''0''"

record divide_payload =
  dp_handle :: "up_row list"
  dp_sort :: int
  dp_conditions :: "cond_row list"

definition divide_handleSubmit :: "bool \<Rightarrow> string \<Rightarrow> divide_form \<Rightarrow> divide_form \<times> divide_payload option" where
  "divide_handleSubmit fields_ok srt f =
     (if \<not> (fields_ok \<and> sort_pattern srt) then (f, None)
      else
        (let (a, c) = (if df_selectValue f \<noteq> ''0'' then checkConditions (df_cond f) else (False, df_cond f));
             (l, err) = checkUpstream (df_upstreams f) (cf_error c);
             f' = f\<lparr>df_cond := c\<lparr>cf_error := err\<rparr>\<rparr>
         in if (a \<or> df_selectValue f = ''0'') \<and> l
            then (f', map_option (\<lambda>us. \<lparr>dp_handle = us, dp_sort = digits_value srt, dp_conditions = cf_conditions c\<rparr>)
                        (df_upstreams f))
            else (f', None)))"

subsection \<open>What is checked\<close>

lemma check_rows_ok: "fst (check_rows n rs acc) \<longleftrightarrow> fst acc \<and> (\<forall>r\<in>set rs. row_given r \<and> row_named r)"
  by (induction n rs acc rule: check_rows.induct) (auto simp: Let_def)

lemma check_rows_error:
  "snd (check_rows n rs acc) =
     (case find (\<lambda>(i, r). \<not> (row_given r \<and> row_named r)) (rev (zip [n..<n + length rs] rs)) of
        None \<Rightarrow> snd acc
      | Some (i, r) \<Rightarrow> Some (RowIncomplete (i + 1)))"
proof (induction n rs acc rule: check_rows.induct)
  case (2 n r rs acc)
  have z: "rev (zip [n..<n + length (r # rs)] (r # rs)) = rev (zip [n + 1..<n + 1 + length rs] rs) @ [(n, r)]"
    using upt_conv_Cons [of n "n + length (r # rs)"] by (simp del: upt_Suc)
  have fa: "find P (xs @ [x]) = (case find P xs of Some y \<Rightarrow> Some y | None \<Rightarrow> if P x then Some x else None)" for P xs and x :: "nat \<times> cond_row"
    by (induction xs) auto
  show ?case
    unfolding z fa using 2 [OF refl refl] by (auto simp: Let_def split: option.splits if_splits)
qed simp

lemma checkConditions_iff: "fst (checkConditions f) \<longleftrightarrow> (\<forall>r\<in>set (cf_conditions f). row_given r \<and> row_named r)"
  using check_rows_ok [of 0 "cf_conditions f" "(True, cf_error f)"]
  by (cases "check_rows 0 (cf_conditions f) (True, cf_error f)") (simp add: checkConditions_def)

lemma checkConditions_rows: "cf_conditions (snd (checkConditions f)) = cf_conditions f"
  by (simp add: checkConditions_def split: prod.splits)

lemma checkUpstream_iff:
  "fst (checkUpstream ups err) \<longleftrightarrow> (\<exists>us. ups = Some us \<and> (\<forall>u\<in>set us. up_host u \<noteq> '''' \<and> up_url u \<noteq> '''' \<and> up_weight u \<noteq> ''''))"
proof -
  have "fst (check_upstream_rows n us acc) \<longleftrightarrow> fst acc \<and> (\<forall>u\<in>set us. up_host u \<noteq> '''' \<and> up_url u \<noteq> '''' \<and> up_weight u \<noteq> '''')" for n us acc
    by (induction n us acc rule: check_upstream_rows.induct) auto
  then show ?thesis by (auto simp: checkUpstream_def split: option.splits)
qed

lemma sort_range: "sort_pattern s \<Longrightarrow> 1 \<le> digits_value s \<and> digits_value s \<le> 100"
proof -
  assume s: "sort_pattern s"
  have dig: "48 \<le> int (of_char c)" "int (of_char c) \<le> 57" if "is_digit c" for c
    using that by (simp_all add: is_digit_def)
  have nz: "(of_char c :: nat) \<noteq> 48" if "c \<noteq> CHR ''0''" for c
  proof
    assume "(of_char c :: nat) = 48"
    then have "c = char_of (48 :: nat)" by (metis char_of_char)
    moreover have "char_of (48 :: nat) = CHR ''0''" by (simp add: char_of_def bit_simps)
    ultimately show False using that by simp
  qed
  show ?thesis
  proof (cases "s = ''100''")
    case True
    then show ?thesis by (simp add: digits_value_def)
  next
    case False
    with s consider c where "s = [c]" "is_digit c" "c \<noteq> CHR ''0''"
      | c d where "s = [c, d]" "is_digit c" "is_digit d" "c \<noteq> CHR ''0''"
      by (auto simp: sort_pattern_def numeral_2_eq_2 length_Suc_conv)
    then show ?thesis
    proof cases
      case 1
      then show ?thesis using dig [of c] nz [of c] by (simp add: digits_value_def)
    next
      case 2
      then show ?thesis using dig [of c] dig [of d] nz [of c] by (simp add: digits_value_def)
    qed
  qed
qed



subsection \<open>Editing\<close>

datatype edit = Add | Delete nat | Change nat cond_field string

definition edit_form :: "edit \<Rightarrow> cond_form \<Rightarrow> cond_form" where
  "edit_form e f = (case e of Add \<Rightarrow> handleAdd f | Delete n \<Rightarrow> handleDelete n f
     | Change n fld v \<Rightarrow> (case conditionChange n fld v f of Some f' \<Rightarrow> f' | None \<Rightarrow> f))"

text \<open>The name field of a row is hidden exactly when its type needs no name.\<close>

definition flags_match :: "cond_form \<Rightarrow> bool" where
  "flags_match f \<longleftrightarrow> (\<forall>n<length (cf_conditions f). cf_hidden f n \<longleftrightarrow> nameless (cr_paramType (cf_conditions f ! n)))"

lemma open_form_match: "flags_match (open_form given)"
  by (auto simp: flags_match_def open_form_def Let_def)

lemma default_row_nameless: "nameless (cr_paramType default_row)"
  by (simp add: nameless_def default_row_def)

lemma flags_match_add: "flags_match f \<Longrightarrow> flags_match (handleAdd f)"
  by (auto simp: flags_match_def handleAdd_def Let_def nth_append less_Suc_eq default_row_nameless)

lemma flags_match_change: "flags_match f \<Longrightarrow> conditionChange n fld v f = Some f' \<Longrightarrow> flags_match f'"
  by (cases fld) (auto simp: flags_match_def conditionChange_def Let_def nth_list_update split: if_splits)

lemma flags_match_delete_last:
  "flags_match f \<Longrightarrow> length (cf_conditions f) - 1 \<le> n \<Longrightarrow> flags_match (handleDelete n f)"
  by (auto simp: flags_match_def handleDelete_def)

lemma edits_match:
  "flags_match f \<Longrightarrow> list_all (\<lambda>e. \<forall>n. e \<noteq> Delete n) es \<Longrightarrow> flags_match (fold edit_form es f)"
proof (induction es arbitrary: f)
  case (Cons e es)
  have "flags_match (edit_form e f)"
    using Cons.prems flags_match_add flags_match_change
    by (auto simp: edit_form_def split: edit.splits option.splits)
  with Cons show ?case by simp
qed simp

definition uri_row :: cond_row where
  "uri_row = \<lparr>cr_paramType = ''uri'', cr_operator = ''='', cr_paramName = ''/'', cr_paramValue = ''/a''\<rparr>"

definition header_row :: cond_row where
  "header_row = \<lparr>cr_paramType = ''header'', cr_operator = ''='', cr_paramName = ''id'', cr_paramValue = ''1''\<rparr>"

text \<open>
  Deleting a condition misplaces the name fields. Without deletions every sequence of edits hides
  the name field of exactly the rows whose type needs no name. The flags that hide it are kept by
  position and not moved when a row is deleted: with a uri and a header condition, deleting the
  first one leaves the header condition with its name field hidden.
\<close>

theorem name_field_flags:
  "(\<forall>es. list_all (\<lambda>e. \<forall>n. e \<noteq> Delete n) es \<longrightarrow> flags_match (fold edit_form es (open_form given)))
   \<and> (let f = edit_form (Delete 0) (open_form (Some [uri_row, header_row]))
      in cf_conditions f = [header_row] \<and> cf_hidden f 0 \<and> \<not> flags_match f)"
  using edits_match open_form_match
  by (auto simp: edit_form_def handleDelete_def open_form_def uri_row_def header_row_def nameless_def flags_match_def Let_def)

lemma name_field_flags_witness:
  "flags_match (fold edit_form [Add, Change 0 ParamType ''header''] (open_form None))"
proof -
  have "list_all (\<lambda>e. \<forall>n. e \<noteq> Delete n) [Add, Change 0 ParamType ''header'']" by simp
  then show ?thesis using name_field_flags [of None] by blast
qed

end
