(* ===== verification/DashStore.thy ===== *)
theory DashStore
  imports Prelude
begin

text \<open>
  The runtime of the admin dashboard (the dva models of the bundle \<open>static/index.a62f1466.js\<close>):
  JavaScript values, an effect as a coroutine that calls services, puts actions and notifies, and the
  store with the effects under way. Each dispatch forks the effect of its type; an effect runs
  without interruption up to its next call, and calls are answered in any order.
\<close>

subsection \<open>JavaScript values\<close>

text \<open>
  Values as the models see them: what a JSON answer can hold, \<open>undefined\<close>, and generator objects.
  Reading a property of \<open>undefined\<close> or \<open>null\<close> throws (\<open>None\<close>); a missing property is \<open>undefined\<close>.
\<close>

datatype js = JUndef | JNull | JBool bool | JNum int | JStr string | JArr "js list" | JObj "(string \<times> js) list"
  | JGen

fun js_get :: "js \<Rightarrow> string \<Rightarrow> js option" where
  "js_get JUndef k = None"
| "js_get JNull k = None"
| "js_get (JObj kvs) k = Some (case map_of kvs k of Some v \<Rightarrow> v | None \<Rightarrow> JUndef)"
| "js_get _ k = Some JUndef"

fun js_true :: "js \<Rightarrow> bool" where
  "js_true JUndef = False"
| "js_true JNull = False"
| "js_true (JBool b) = b"
| "js_true (JNum n) = (n \<noteq> 0)"
| "js_true (JStr s) = (s \<noteq> '''')"
| "js_true _ = True"

fun put_key :: "string \<Rightarrow> 'v \<Rightarrow> (string \<times> 'v) list \<Rightarrow> (string \<times> 'v) list" where
  "put_key k v [] = [(k, v)]"
| "put_key k v ((k', v') # kvs) = (if k = k' then (k, v) # kvs else (k', v') # put_key k v kvs)"

lemma map_of_put_key [simp]: "map_of (put_key k v kvs) = (map_of kvs)(k \<mapsto> v)"
  by (induction k v kvs rule: put_key.induct) (auto simp: fun_eq_iff)

text \<open>\<open>e.k = v\<close>, which throws in strict mode unless \<open>e\<close> is an object; the object spread \<open>{...e, ...kvs}\<close>.\<close>

fun js_set :: "js \<Rightarrow> string \<Rightarrow> js \<Rightarrow> js option" where
  "js_set (JObj kvs) k v = Some (JObj (put_key k v kvs))"
| "js_set _ k v = None"

fun js_entries :: "js \<Rightarrow> (string \<times> js) list" where
  "js_entries (JObj kvs) = kvs"
| "js_entries _ = []"

definition js_assign :: "js \<Rightarrow> (string \<times> js) list \<Rightarrow> js" where
  "js_assign e kvs = JObj (fold (\<lambda>(k, v). put_key k v) kvs (js_entries e))"

fun opt_map :: "('a \<Rightarrow> 'b option) \<Rightarrow> 'a list \<Rightarrow> 'b list option" where
  "opt_map f [] = Some []"
| "opt_map f (x # xs) = (case f x of None \<Rightarrow> None | Some y \<Rightarrow> map_option (Cons y) (opt_map f xs))"

text \<open>\<open>d.map(f)\<close>: throws unless \<open>d\<close> is an array.\<close>

fun js_map :: "(js \<Rightarrow> js option) \<Rightarrow> js \<Rightarrow> js list option" where
  "js_map f (JArr xs) = opt_map f xs"
| "js_map f _ = None"

text \<open>\<open>e.key = e.id, e\<close>.\<close>

definition with_key :: "js \<Rightarrow> js option" where
  "with_key e = Option.bind (js_get e ''id'') (js_set e ''key'')"

subsection \<open>Effects\<close>

datatype notice = Added | Removed | Changed | Synced | LoginFailed | Warn js

text \<open>
  An effect: finished; an exception; \<open>call(service, argument)\<close> and its continuation on the answer;
  \<open>put({type, ...fields})\<close>; a message; the caller's callback; a navigation; \<open>setAuthority(a)\<close>, which
  writes the session storage, and \<open>reloadAuthorized()\<close>, which reads it.
\<close>

datatype eff =
    Done
  | Throw
  | Call string js "js \<Rightarrow> eff"
  | Put string js eff
  | Notify notice eff
  | Callback js eff
  | Push string eff
  | SetAuthority string eff
  | ReloadAuthorized eff

definition reading :: "js option \<Rightarrow> (js \<Rightarrow> eff) \<Rightarrow> eff" where
  "reading r k = (case r of None \<Rightarrow> Throw | Some v \<Rightarrow> k v)"

lemma reading_simps [simp]: "reading None k = Throw" "reading (Some v) k = k v"
  by (simp_all add: reading_def)

text \<open>The test \<open>200 === u.code\<close> on an answer; it throws on \<open>undefined\<close>, the answer of a failed request.\<close>

definition if_ok :: "js \<Rightarrow> eff \<Rightarrow> eff \<Rightarrow> eff" where
  "if_ok r a b = reading (js_get r ''code'') (\<lambda>c. if c = JNum 200 then a else b)"

definition answer_ok :: "js \<Rightarrow> bool" where
  "answer_ok r \<longleftrightarrow> js_get r ''code'' = Some (JNum 200)"

lemma if_ok_simps:
  "answer_ok r \<Longrightarrow> if_ok r a b = a"
  "\<not> answer_ok r \<Longrightarrow> if_ok r a b = Throw \<or> if_ok r a b = b"
  by (cases "js_get r ''code''"; auto simp: if_ok_def answer_ok_def)+

subsection \<open>Models and the store\<close>

text \<open>A reducer may write the session storage too: \<open>dm_authority\<close> has the types that do and what they write.\<close>

record dva_model =
  dm_state :: js
  dm_effects :: "(string \<times> (js \<Rightarrow> eff)) list"
  dm_reducers :: "(string \<times> (js \<Rightarrow> js \<Rightarrow> js option)) list"
  dm_authority :: "(string \<times> string) list"

datatype shown = Message notice | Called js | Went string

text \<open>
  The store, the effects under way, what was shown; the authority in the session storage and the
  one the permission checks use (\<open>CURRENT\<close>, the text \<open>NULL\<close> when there is none).
\<close>

record dash =
  ds_store :: "string \<rightharpoonup> js"
  ds_tasks :: "(string \<times> eff) list"
  ds_shown :: "shown list"
  ds_authority :: string
  ds_current :: string

definition renderAuthorize :: "string \<Rightarrow> string" where
  "renderAuthorize a = (if a = '''' then ''NULL'' else a)"

type_synonym dva_models = "string \<rightharpoonup> dva_model"

text \<open>
  An action of a namespace: first the reducer of its type, whose result becomes the state of the
  namespace, then the effect of its type, which is forked. \<open>None\<close> is an exception of the reducer.
\<close>

definition dva_dispatch :: "dva_models \<Rightarrow> string \<Rightarrow> string \<Rightarrow> js \<Rightarrow> dash \<Rightarrow> dash option" where
  "dva_dispatch ms ns ty act st =
     (case ms ns of
        None \<Rightarrow> Some st
      | Some m \<Rightarrow>
          let reduced = (case map_of (dm_reducers m) ty of
                 None \<Rightarrow> Some st
               | Some f \<Rightarrow> (case ds_store st ns of
                     None \<Rightarrow> Some st
                   | Some s \<Rightarrow> map_option (\<lambda>s'. st\<lparr>ds_store := (ds_store st)(ns \<mapsto> s'),
                         ds_authority := (case map_of (dm_authority m) ty of Some a \<Rightarrow> a | None \<Rightarrow> ds_authority st)\<rparr>) (f s act)))
          in map_option (\<lambda>st'. case map_of (dm_effects m) ty of
                 None \<Rightarrow> st'
               | Some e \<Rightarrow> st'\<lparr>ds_tasks := ds_tasks st' @ [(ns, e act)]\<rparr>) reduced)"

text \<open>Run an effect of namespace \<open>ns\<close> up to its next call; what remains of it is returned.\<close>

primrec run_eff :: "dva_models \<Rightarrow> string \<Rightarrow> eff \<Rightarrow> dash \<Rightarrow> dash \<times> eff" where
  "run_eff ms ns Done st = (st, Done)"
| "run_eff ms ns Throw st = (st, Done)"
| "run_eff ms ns (Call s a k) st = (st, Call s a k)"
| "run_eff ms ns (Put ty act e) st =
     (case dva_dispatch ms ns ty act st of
        None \<Rightarrow> (st, Done)
      | Some st' \<Rightarrow> run_eff ms ns e st')"
| "run_eff ms ns (Notify n e) st = run_eff ms ns e (st\<lparr>ds_shown := ds_shown st @ [Message n]\<rparr>)"
| "run_eff ms ns (Callback v e) st = run_eff ms ns e (st\<lparr>ds_shown := ds_shown st @ [Called v]\<rparr>)"
| "run_eff ms ns (Push r e) st = run_eff ms ns e (st\<lparr>ds_shown := ds_shown st @ [Went r]\<rparr>)"
| "run_eff ms ns (SetAuthority a e) st = run_eff ms ns e (st\<lparr>ds_authority := a\<rparr>)"
| "run_eff ms ns (ReloadAuthorized e) st = run_eff ms ns e (st\<lparr>ds_current := renderAuthorize (ds_authority st)\<rparr>)"

text \<open>What can happen: the user dispatches an action; a task is resumed, with the answer to its call.\<close>

datatype event = Dispatch string string js | Resume nat js

definition resume :: "dva_models \<Rightarrow> nat \<Rightarrow> js \<Rightarrow> dash \<Rightarrow> dash" where
  "resume ms i r st =
     (if i < length (ds_tasks st) then
        (case ds_tasks st ! i of (ns, e) \<Rightarrow>
          (case run_eff ms ns (case e of Call s a k \<Rightarrow> k r | _ \<Rightarrow> e) st of
             (st', e') \<Rightarrow> st'\<lparr>ds_tasks := (ds_tasks st')[i := (ns, e')]\<rparr>))
      else st)"

definition happen :: "dva_models \<Rightarrow> event \<Rightarrow> dash \<Rightarrow> dash" where
  "happen ms ev st =
     (case ev of
        Dispatch ns ty act \<Rightarrow> (case dva_dispatch ms ns ty act st of Some st' \<Rightarrow> st' | None \<Rightarrow> st)
      | Resume i r \<Rightarrow> resume ms i r st)"

definition happenings :: "dva_models \<Rightarrow> event list \<Rightarrow> dash \<Rightarrow> dash" where
  "happenings ms evs st = fold (happen ms) evs st"

definition dash_init :: "dva_models \<Rightarrow> dash" where
  "dash_init ms = \<lparr>ds_store = (\<lambda>ns. map_option dm_state (ms ns)), ds_tasks = [], ds_shown = [],
     ds_authority = '''', ds_current = renderAuthorize ''''\<rparr>"

end
