(* ===== verification/DashModels.thy ===== *)
theory DashModels
  imports DashStore
begin

text \<open>
  The models of the dashboard bundle \<open>static/index.a62f1466.js\<close>: for each namespace its initial state,
  effects and reducers, with the services (module \<open>H/Zg\<close>) named as the bundle exports them.
\<close>

subsection \<open>Shapes the models share\<close>

definition js_obj :: "(string \<times> js) list \<Rightarrow> js" where
  "js_obj kvs = JObj kvs"

text \<open>\<open>fetch\<close>: one page of a list, each row with its key, saved with the total of the page.\<close>

definition fetch_page :: "string \<Rightarrow> string \<Rightarrow> js \<Rightarrow> eff" where
  "fetch_page service save t =
     reading (js_get t ''payload'') (\<lambda>a. Call service a (\<lambda>l.
       if_ok l
         (reading (js_get l ''data'') (\<lambda>u. reading (js_get u ''page'') (\<lambda>s. reading (js_get u ''dataList'') (\<lambda>f.
            case js_map with_key f of
              None \<Rightarrow> Throw
            | Some rows \<Rightarrow>
                reading (js_get s ''totalCount'') (\<lambda>n.
                  Put save (js_obj [(''payload'', js_obj [(''total'', n), (''dataList'', JArr rows)])]) Done)))))
         Done))"

text \<open>\<open>fetchItem\<close>: hand the answer's data to the caller.\<close>

definition fetch_item :: "string \<Rightarrow> js \<Rightarrow> eff" where
  "fetch_item service t =
     reading (js_get t ''payload'') (\<lambda>o'. Call service o' (\<lambda>l.
       if_ok l (reading (js_get l ''data'') (\<lambda>u. Callback u Done)) Done))"

text \<open>
  \<open>add\<close>, \<open>update\<close>, \<open>updateEn\<close>: on success a message, the caller's callback and an action \<open>next\<close> with
  the values to fetch again; otherwise the answer's message as a warning.
\<close>

definition change_then :: "notice \<Rightarrow> string \<Rightarrow> string \<Rightarrow> js \<Rightarrow> js \<Rightarrow> eff" where
  "change_then ok service next arg t =
     reading (js_get t ''fetchValue'') (\<lambda>s. Call service arg (\<lambda>f.
       if_ok f
         (Notify ok (Callback JUndef (Put next (js_obj [(''fetchValue'', s)]) Done)))
         (reading (js_get f ''message'') (\<lambda>m. Notify (Warn m) Done))))"

definition change :: "notice \<Rightarrow> string \<Rightarrow> string \<Rightarrow> js \<Rightarrow> eff" where
  "change ok service next t = reading (js_get t ''payload'') (\<lambda>l. change_then ok service next l t)"

text \<open>\<open>delete\<close>: the same with \<open>{list: payload.list}\<close> as the argument of the service.\<close>

definition delete_list :: "string \<Rightarrow> js \<Rightarrow> eff" where
  "delete_list service t =
     reading (js_get t ''payload'') (\<lambda>l. reading (js_get l ''list'') (\<lambda>xs.
       change_then Removed service ''reload'' (js_obj [(''list'', xs)]) t))"

text \<open>\<open>reload\<close>: put \<open>target\<close> with the named fields of the fetch value.\<close>

fun pick :: "string list \<Rightarrow> js \<Rightarrow> (string \<times> js) list option" where
  "pick [] v = Some []"
| "pick (k # ks) v = (case js_get v k of None \<Rightarrow> None | Some x \<Rightarrow> map_option (Cons (k, x)) (pick ks v))"

definition reload_with :: "string \<Rightarrow> string list \<Rightarrow> js \<Rightarrow> eff" where
  "reload_with target keys t =
     reading (js_get t ''fetchValue'') (\<lambda>o'.
       case pick keys o' of
         None \<Rightarrow> Throw
       | Some u \<Rightarrow> Put target (js_obj [(''payload'', js_obj u)]) Done)"

text \<open>A reducer \<open>{...e, k1: n.p1, ...}\<close> over the fields of the payload.\<close>

definition save_fields :: "(string \<times> string) list \<Rightarrow> js \<Rightarrow> js \<Rightarrow> js option" where
  "save_fields kps e t =
     Option.bind (js_get t ''payload'') (\<lambda>n.
       map_option (js_assign e) (opt_map (\<lambda>(k, p). map_option (Pair k) (js_get n p)) kps))"

subsection \<open>The selector and rule models (\<open>divide\<close>, \<open>spring\<close>, \<open>rewrite\<close>, \<open>hystrix\<close>, \<open>common\<close>)\<close>

definition view_state :: js where
  "view_state = JObj [(''selectorList'', JArr []), (''ruleList'', JArr []), (''selectorTotal'', JNum 0),
     (''ruleTotal'', JNum 0), (''currentSelector'', JStr '''')]"

definition fetchSelector :: "js \<Rightarrow> eff" where
  "fetchSelector t =
     reading (js_get t ''payload'') (\<lambda>r. Call ''getAllSelectors'' (js_assign r []) (\<lambda>u.
       if_ok u
         (reading (js_get u ''data'') (\<lambda>s. reading (js_get s ''page'') (\<lambda>f. reading (js_get s ''dataList'') (\<lambda>d.
            case js_map with_key d of
              None \<Rightarrow> Throw
            | Some rows \<Rightarrow>
                reading (js_get f ''totalCount'') (\<lambda>n.
                  Put ''saveSelector'' (js_obj [(''payload'',
                      js_obj [(''selectorTotal'', n), (''selectorList'', JArr rows)])])
                    (Put ''saveCurrentSelector'' (js_obj [(''payload'',
                        js_obj [(''currentSelector'', if rows \<noteq> [] then hd rows else JStr '''')])])
                      (if rows \<noteq> [] then
                         reading (js_get (hd rows) ''id'') (\<lambda>i.
                           Put ''fetchRule'' (js_obj [(''payload'', js_obj [(''currentPage'', JNum 1),
                               (''pageSize'', JNum 12), (''selectorId'', i)])]) Done)
                       else Done)))))))
         Done))"

definition fetchRule :: "js \<Rightarrow> eff" where
  "fetchRule t =
     reading (js_get t ''payload'') (\<lambda>r. Call ''getAllRules'' r (\<lambda>l.
       if_ok l
         (reading (js_get l ''data'') (\<lambda>u. reading (js_get u ''page'') (\<lambda>s. reading (js_get u ''dataList'') (\<lambda>f.
            case js_map with_key f of
              None \<Rightarrow> Throw
            | Some rows \<Rightarrow>
                reading (js_get s ''totalCount'') (\<lambda>n.
                  Put ''saveRule'' (js_obj [(''payload'',
                      js_obj [(''ruleTotal'', n), (''ruleList'', JArr rows)])]) Done)))))
         Done))"

definition deleteSelector :: "js \<Rightarrow> eff" where
  "deleteSelector t =
     reading (js_get t ''payload'') (\<lambda>l. reading (js_get t ''fetchValue'') (\<lambda>u. reading (js_get l ''list'') (\<lambda>s.
       Call ''deleteSelector'' (js_obj [(''list'', s)]) (\<lambda>f.
         if_ok f
           (Notify Removed
             (Put ''saveRule'' (js_obj [(''payload'', js_obj [(''ruleTotal'', JNum 0), (''ruleList'', JArr [])])])
               (Put ''reload'' (js_obj [(''fetchValue'', u)]) Done)))
           (reading (js_get f ''message'') (\<lambda>m. Notify (Warn m) Done))))))"

definition deleteRule :: "js \<Rightarrow> eff" where
  "deleteRule t =
     reading (js_get t ''payload'') (\<lambda>l. reading (js_get t ''fetchValue'') (\<lambda>u. reading (js_get l ''list'') (\<lambda>s.
       Call ''deleteRule'' (js_obj [(''list'', s)]) (\<lambda>f.
         if_ok f
           (Notify Removed (Put ''reloadRule'' (js_obj [(''fetchValue'', u)]) Done))
           (reading (js_get f ''message'') (\<lambda>m. Notify (Warn m) Done))))))"

definition view_effects :: "(string \<times> (js \<Rightarrow> eff)) list" where
  "view_effects =
     [(''fetchSelector'', fetchSelector),
      (''fetchRule'', fetchRule),
      (''addSelector'', change Added ''addSelector'' ''reload''),
      (''addRule'', change Added ''addRule'' ''reloadRule''),
      (''fetchSeItem'', fetch_item ''findSelector''),
      (''deleteSelector'', deleteSelector),
      (''updateSelector'', change Changed ''updateSelector'' ''reload''),
      (''deleteRule'', deleteRule),
      (''fetchRuleItem'', fetch_item ''findRule''),
      (''updateRule'', change Changed ''updateRule'' ''reloadRule''),
      (''reload'', reload_with ''fetchSelector'' [''pluginId'', ''currentPage'', ''pageSize'']),
      (''reloadRule'', reload_with ''fetchRule'' [''selectorId'', ''currentPage'', ''pageSize''])]"

definition view_reducers :: "(string \<times> (js \<Rightarrow> js \<Rightarrow> js option)) list" where
  "view_reducers =
     [(''saveSelector'', save_fields [(''selectorList'', ''selectorList''), (''selectorTotal'', ''selectorTotal'')]),
      (''saveRule'', save_fields [(''ruleList'', ''ruleList''), (''ruleTotal'', ''ruleTotal'')]),
      (''saveCurrentSelector'', save_fields [(''currentSelector'', ''currentSelector'')])]"

text \<open>\<open>divide\<close>, \<open>spring\<close>, \<open>rewrite\<close> and \<open>hystrix\<close> are the same text; \<open>common\<close> adds a reducer.\<close>

definition view_model :: dva_model where
  "view_model = \<lparr>dm_state = view_state, dm_effects = view_effects, dm_reducers = view_reducers, dm_authority = []\<rparr>"

definition common_model :: dva_model where
  "common_model = \<lparr>dm_state = view_state, dm_effects = view_effects,
     dm_reducers = view_reducers @ [(''resetData'', \<lambda>e t. Some view_state)], dm_authority = []\<rparr>"

subsection \<open>The list models\<close>

text \<open>\<open>manage\<close>: users; \<open>metadata\<close> keeps its rows under the same names.\<close>

definition users_state :: js where
  "users_state = JObj [(''userList'', JArr []), (''total'', JNum 0)]"

definition saveUsers :: "js \<Rightarrow> js \<Rightarrow> js option" where
  "saveUsers = save_fields [(''userList'', ''dataList''), (''total'', ''total'')]"

definition manage_model :: dva_model where
  "manage_model = \<lparr>dm_state = users_state, dm_effects =
     [(''fetch'', fetch_page ''getAllUsers'' ''saveUsers''),
      (''fetchItem'', fetch_item ''findUser''),
      (''add'', change Added ''addUser'' ''reload''),
      (''delete'', delete_list ''deleteUser''),
      (''update'', change Changed ''updateUser'' ''reload''),
      (''reload'', reload_with ''fetch'' [''userName'', ''currentPage'', ''pageSize''])],
     dm_reducers = [(''saveUsers'', saveUsers)], dm_authority = []\<rparr>"

text \<open>A call whose answer is not looked at.\<close>

definition call_only :: "string \<Rightarrow> js \<Rightarrow> eff" where
  "call_only service t = reading (js_get t ''payload'') (\<lambda>o'. Call service o' (\<lambda>_. Done))"

definition metadata_model :: dva_model where
  "metadata_model = \<lparr>dm_state = users_state, dm_effects =
     [(''fetch'', fetch_page ''getAllMetadata'' ''saveUsers''),
      (''fetchItem'', fetch_item ''findMetadata''),
      (''add'', change Added ''addMetadata'' ''reload''),
      (''delete'', delete_list ''deleteMetadata''),
      (''update'', change Changed ''updateMetadata'' ''reload''),
      (''updateEn'', change Changed ''updateEnabled'' ''reload''),
      (''syncDa'', call_only ''syncData''),
      (''reload'', reload_with ''fetch'' [''appName'', ''currentPage'', ''pageSize''])],
     dm_reducers = [(''saveUsers'', saveUsers)], dm_authority = []\<rparr>"

text \<open>\<open>auth\<close>.\<close>

definition fetchItemDel :: "js \<Rightarrow> eff" where
  "fetchItemDel t =
     reading (js_get t ''payload'') (\<lambda>o'. Call ''findAuthDataDel'' o' (\<lambda>l.
       if_ok l (reading (js_get l ''data'') (\<lambda>u. Callback (js_obj [(''auth'', u)]) Done)) Done))"

definition meta_row :: "js \<Rightarrow> js option" where
  "meta_row e = map_option js_obj (pick [''id'', ''path'', ''appName'', ''enabled''] e)"

definition fetchMeta :: "js \<Rightarrow> eff" where
  "fetchMeta t =
     reading (js_get t ''payload'') (\<lambda>o'. Call ''getAllMetadatas'' o' (\<lambda>l.
       if_ok l
         (reading (js_get l ''data'') (\<lambda>d.
            case js_map meta_row d of
              None \<Rightarrow> Throw
            | Some rows \<Rightarrow> Callback (js_obj [(''dataList'', JArr rows)]) Done))
         Done))"

definition auth_model :: dva_model where
  "auth_model = \<lparr>dm_state = JObj [(''authList'', JArr []), (''total'', JNum 0)], dm_effects =
     [(''fetch'', fetch_page ''getAllAuths'' ''saveAuths''),
      (''fetchItem'', fetch_item ''findAuthData''),
      (''fetchItemDel'', fetchItemDel),
      (''fetchMeta'', fetchMeta),
      (''fetchMetaGroup'', fetch_item ''getfetchMetaGroup''),
      (''add'', change Added ''addAuthData'' ''reload''),
      (''delete'', change Removed ''deleteAuths'' ''reload''),
      (''update'', change Changed ''updateAuthData'' ''reload''),
      (''updateDel'', change Changed ''updateAuthDel'' ''reload''),
      (''reload'', reload_with ''fetch'' [''name'', ''currentPage'', ''pageSize'']),
      (''updateEn'', change Changed ''updateAuthEnabled'' ''reload''),
      (''syncDa'', call_only ''syncAuthsData''),
      (''getDatas'', call_only ''getAllMetadata'')],
     dm_reducers = [(''saveAuths'', save_fields [(''authList'', ''dataList''), (''total'', ''total'')])], dm_authority = []\<rparr>"

text \<open>\<open>plugin\<close>: \<open>changeStatus\<close> updates the row of the saved list in place.\<close>

definition changeStatus :: "js \<Rightarrow> eff" where
  "changeStatus t =
     reading (js_get t ''payload'') (\<lambda>r. Call ''updatePlugin'' r (\<lambda>u.
       if_ok u
         (Notify Changed (Put ''updataPlugins'' (js_obj [(''payload'', r)]) Done))
         (reading (js_get u ''message'') (\<lambda>m. Notify (Warn m) Done))))"

definition asyncAll :: "js \<Rightarrow> eff" where
  "asyncAll t = Call ''asyncPlugin'' JUndef (\<lambda>o'.
     if_ok o' (Notify Synced Done) (reading (js_get o' ''message'') (\<lambda>m. Notify (Warn m) Done)))"

definition updata_row :: "js \<Rightarrow> js \<Rightarrow> js option" where
  "updata_row n e =
     Option.bind (js_get e ''id'') (\<lambda>i. Option.bind (js_get n ''id'') (\<lambda>i'.
       if i = i' then Option.bind (js_get n ''enabled'') (js_set e ''enabled'') else Some e))"

definition updataPlugins :: "js \<Rightarrow> js \<Rightarrow> js option" where
  "updataPlugins e t =
     Option.bind (js_get t ''payload'') (\<lambda>n. Option.bind (js_get e ''pluginList'') (\<lambda>r.
       map_option (\<lambda>rows. js_assign e [(''pluginList'', JArr rows)]) (js_map (updata_row n) r)))"

definition plugin_model :: dva_model where
  "plugin_model = \<lparr>dm_state = JObj [(''pluginList'', JArr []), (''total'', JNum 0)], dm_effects =
     [(''fetch'', fetch_page ''getAllPlugins'' ''savePlugins''),
      (''fetchItem'', fetch_item ''findPlugin''),
      (''add'', change Added ''addPlugin'' ''reload''),
      (''changeStatus'', changeStatus),
      (''delete'', delete_list ''deletePlugin''),
      (''update'', change Changed ''updatePlugin'' ''reload''),
      (''updateEn'', change Changed ''updatepluginEnabled'' ''reload''),
      (''reload'', reload_with ''fetch'' [''name'', ''currentPage'', ''pageSize'']),
      (''asyncAll'', asyncAll)],
     dm_reducers = [(''savePlugins'', save_fields [(''pluginList'', ''dataList''), (''total'', ''total'')]),
       (''updataPlugins'', updataPlugins)], dm_authority = []\<rparr>"

text \<open>
  \<open>pluginHandle\<close> and \<open>soulDict\<close>: the generator function \<open>reload\<close> stands among the reducers, so its
  result, a generator object that nobody runs, becomes the state. The handles of a rule are the
  rows of the answer with the value the handle text has for their field.
\<close>

definition reload_reducer :: "js \<Rightarrow> js \<Rightarrow> js option" where
  "reload_reducer e t = Some JGen"

definition handle_row :: "js \<Rightarrow> js \<Rightarrow> js option" where
  "handle_row u e =
     Option.bind (with_key e) (\<lambda>e'.
       Option.bind (if u = JUndef then Some (JStr '''')
          else Option.bind (js_get e' ''field'') (\<lambda>f. case f of JStr s \<Rightarrow> js_get u s | _ \<Rightarrow> Some JUndef))
         (js_set e' ''value''))"

definition fetchByPluginId :: "(js \<Rightarrow> js option) \<Rightarrow> js \<Rightarrow> eff" where
  "fetchByPluginId json_parse t =
     reading (js_get t ''payload'') (\<lambda>o'. reading (js_get o' ''handle'') (\<lambda>a.
       reading (if a = JUndef then Some JUndef else json_parse a) (\<lambda>u.
         Call ''fetchPluginHandleByPluginId'' o' (\<lambda>s.
           if_ok s
             (reading (js_get s ''data'') (\<lambda>d.
                case js_map (handle_row u) d of
                  None \<Rightarrow> Throw
                | Some rows \<Rightarrow> Callback (JArr rows) Done))
             Done))))"

definition pluginHandle_model :: "(js \<Rightarrow> js option) \<Rightarrow> dva_model" where
  "pluginHandle_model json_parse = \<lparr>dm_state = JObj [(''pluginHandleList'', JArr []), (''total'', JNum 0)], dm_effects =
     [(''fetch'', fetch_page ''fetchPluginHandles'' ''savePluginHandles''),
      (''add'', change Added ''addPluginHandle'' ''reload''),
      (''fetchItem'', fetch_item ''findPluginHandle''),
      (''update'', change Changed ''updatePluginHandle'' ''reload''),
      (''delete'', delete_list ''batchDeletePluginHandle''),
      (''fetchByPluginId'', fetchByPluginId json_parse)],
     dm_reducers = [(''savePluginHandles'', save_fields [(''pluginHandleList'', ''dataList''), (''total'', ''total'')]),
       (''reload'', reload_reducer)], dm_authority = []\<rparr>"

definition fetchByType :: "js \<Rightarrow> eff" where
  "fetchByType t =
     reading (js_get t ''payload'') (\<lambda>o'. reading (js_get o' ''callBack'') (\<lambda>_.
       Call ''fetchSoulDictByType'' o' (\<lambda>l.
         if_ok l
           (reading (js_get l ''data'') (\<lambda>d.
              case js_map with_key d of None \<Rightarrow> Throw | Some rows \<Rightarrow> Callback (JArr rows) Done))
           Done)))"

definition soulDict_model :: dva_model where
  "soulDict_model = \<lparr>dm_state = JObj [(''soulDictList'', JArr []), (''total'', JNum 0)], dm_effects =
     [(''fetch'', fetch_page ''fetchSoulDicts'' ''saveSoulDicts''),
      (''add'', change Added ''addSoulDict'' ''reload''),
      (''fetchItem'', fetch_item ''findSoulDict''),
      (''update'', change Changed ''updateSoulDict'' ''reload''),
      (''delete'', delete_list ''batchDeleteSoulDict''),
      (''updateEn'', change Changed ''updateSoulDictEnabled'' ''reload''),
      (''fetchByType'', fetchByType)],
     dm_reducers = [(''saveSoulDicts'', save_fields [(''soulDictList'', ''dataList''), (''total'', ''total'')]),
       (''reload'', reload_reducer)], dm_authority = []\<rparr>"

subsection \<open>\<open>global\<close>\<close>

definition fetchPlatform :: "js \<Rightarrow> eff" where
  "fetchPlatform t = Call ''queryPlatform'' JUndef (\<lambda>a.
     if_ok a (reading (js_get a ''data'') (\<lambda>d. Put ''savePlatform'' (js_obj [(''payload'', d)]) Done)) Done)"

definition fetchPlugins :: "js \<Rightarrow> eff" where
  "fetchPlugins t =
     reading (js_get t ''payload'') (\<lambda>r. reading (js_get r ''callback'') (\<lambda>_.
       Call ''getAllPlugins'' (js_obj [(''currentPage'', JNum 1), (''pageSize'', JNum 50)]) (\<lambda>s.
         if_ok s
           (reading (js_get s ''data'') (\<lambda>d. reading (js_get d ''dataList'') (\<lambda>f.
              Callback f (Put ''savePlugins'' (js_obj [(''payload'', js_obj [(''dataList'', f)])]) Done))))
           Done)))"

definition asyncPlugin :: "js \<Rightarrow> eff" where
  "asyncPlugin t =
     reading (js_get t ''payload'') (\<lambda>o'. Call ''asyncOnePlugin'' o' (\<lambda>l.
       if_ok l (Notify Synced Done) (reading (js_get l ''message'') (\<lambda>m. Notify (Warn m) Done))))"

text \<open>A reducer that saves the payload itself.\<close>

definition save_payload :: "string \<Rightarrow> js \<Rightarrow> js \<Rightarrow> js option" where
  "save_payload k e t = map_option (\<lambda>n. js_assign e [(k, n)]) (js_get t ''payload'')"

definition global_model :: dva_model where
  "global_model = \<lparr>dm_state = JObj [(''collapsed'', JBool False), (''platform'', JObj []), (''plugins'', JArr []),
       (''currentRouter'', JObj [])], dm_effects =
     [(''fetchPlatform'', fetchPlatform), (''fetchPlugins'', fetchPlugins), (''asyncPlugin'', asyncPlugin)],
     dm_reducers =
       [(''changeLayoutCollapsed'', save_payload ''collapsed''),
        (''savePlatform'', save_payload ''platform''),
        (''savePlugins'', save_fields [(''plugins'', ''dataList'')]),
        (''saveCurrentRoutr'', save_fields [(''currentRouter'', ''currentRouter'')])], dm_authority = []\<rparr>"

subsection \<open>\<open>login\<close>, \<open>error\<close> and \<open>user\<close>\<close>

text \<open>
  \<open>login\<close>: the reducer writes \<open>admin\<close> into the session storage whatever the payload says; \<open>logout\<close>
  clears it afterwards. The query string of the navigation to the login page is left out.
\<close>

definition login :: "js \<Rightarrow> eff" where
  "login t =
     reading (js_get t ''payload'') (\<lambda>r. Call ''queryLogin'' r (\<lambda>s.
       reading (js_get s ''data'') (\<lambda>d.
         if js_true d then
           Put ''changeLoginStatus'' (js_obj [(''payload'',
               js_obj [(''state'', JBool True), (''currentAuthority'', JStr ''admin'')])])
             (ReloadAuthorized (Push ''/home'' Done))
         else Notify LoginFailed Done)))"

definition logout :: "js \<Rightarrow> eff" where
  "logout t =
     Put ''changeLoginStatus'' (js_obj [(''payload'',
         js_obj [(''status'', JBool False), (''currentAuthority'', JStr '''')])])
       (SetAuthority '''' (ReloadAuthorized (Push ''/user/login'' Done)))"

definition login_model :: dva_model where
  "login_model = \<lparr>dm_state = JObj [(''status'', JUndef)],
     dm_effects = [(''login'', login), (''logout'', logout)],
     dm_reducers = [(''changeLoginStatus'', save_fields [(''status'', ''status'')])],
     dm_authority = [(''changeLoginStatus'', ''admin'')]\<rparr>"

text \<open>A value as \<open>concat\<close> writes it; the elements of an array are joined by commas.\<close>

fun js_text :: "js \<Rightarrow> string" where
  "js_text JUndef = ''undefined''"
| "js_text JNull = ''null''"
| "js_text (JBool b) = (if b then ''true'' else ''false'')"
| "js_text (JNum n) = show_int n"
| "js_text (JStr s) = s"
| "js_text (JArr xs) = join_with '','' (map (\<lambda>x. if x = JUndef \<or> x = JNull then '''' else js_text x) xs)"
| "js_text (JObj kvs) = ''[object Object]''"
| "js_text JGen = ''[object Generator]''"

definition error_query :: "js \<Rightarrow> eff" where
  "error_query t =
     reading (js_get t ''payload'') (\<lambda>r. reading (js_get r ''code'') (\<lambda>c. Call ''error/query'' c (\<lambda>_.
       Push (''/exception/'' @ js_text c) (Put ''trigger'' (js_obj [(''payload'', c)]) Done))))"

definition error_model :: dva_model where
  "error_model = \<lparr>dm_state = JObj [(''error'', JStr ''''), (''isloading'', JBool False)],
     dm_effects = [(''query'', error_query)],
     dm_reducers = [(''trigger'', \<lambda>e t. map_option (\<lambda>p. JObj [(''error'', p)]) (js_get t ''payload''))],
     dm_authority = []\<rparr>"

definition user_fetch :: "js \<Rightarrow> eff" where
  "user_fetch t = Call ''user/query'' JUndef (\<lambda>c. Put ''save'' (js_obj [(''payload'', c)]) Done)"

definition user_model :: dva_model where
  "user_model = \<lparr>dm_state = JObj [(''list'', JArr []), (''currentUser'', JObj [])],
     dm_effects = [(''fetch'', user_fetch)],
     dm_reducers = [(''save'', save_payload ''list'')],
     dm_authority = []\<rparr>"

subsection \<open>The whole store\<close>

definition dashboard :: "(js \<Rightarrow> js option) \<Rightarrow> dva_models" where
  "dashboard json_parse = map_of
     [(''divide'', view_model), (''spring'', view_model), (''rewrite'', view_model), (''hystrix'', view_model),
      (''common'', common_model), (''manage'', manage_model), (''metadata'', metadata_model),
      (''auth'', auth_model), (''plugin'', plugin_model), (''pluginHandle'', pluginHandle_model json_parse),
      (''soulDict'', soulDict_model), (''global'', global_model)]"

text \<open>The list and selector pages above, and all namespaces of the application.\<close>

definition dva_app :: "(js \<Rightarrow> js option) \<Rightarrow> dva_models" where
  "dva_app json_parse =
     dashboard json_parse ++ map_of [(''login'', login_model), (''error'', error_model), (''user'', user_model)]"

end
