(* ===== verification/DashSafety.thy ===== *)
theory DashSafety
  imports DashModels
begin

text \<open>
  Invariants of the dashboard's store under any interleaving of effects and answers: a weakest
  precondition for effects, the invariance argument in a locale, and what it gives for failed
  answers and for the selector views; then the places where interleaving shows.
\<close>

subsection \<open>Invariants of the store\<close>

text \<open>
  \<open>eff_wp\<close>: from the store \<open>s\<close> the effect runs to its next call in a store satisfying \<open>I\<close>, and does so
  again after every answer in \<open>R\<close> from every store satisfying \<open>I\<close>.
\<close>

primrec eff_wp :: "dva_models \<Rightarrow> ((string \<rightharpoonup> js) \<Rightarrow> bool) \<Rightarrow> (js \<Rightarrow> bool) \<Rightarrow> string \<Rightarrow> eff \<Rightarrow> (string \<rightharpoonup> js) \<Rightarrow> bool" where
  "eff_wp ms I R ns Done s = I s"
| "eff_wp ms I R ns Throw s = I s"
| "eff_wp ms I R ns (Call v a k) s = (I s \<and> (\<forall>r. R r \<longrightarrow> (\<forall>s'. I s' \<longrightarrow> eff_wp ms I R ns (k r) s')))"
| "eff_wp ms I R ns (Put ty act e) s =
     (case ms ns of
        None \<Rightarrow> eff_wp ms I R ns e s
      | Some m \<Rightarrow> (case map_of (dm_reducers m) ty of
            None \<Rightarrow> eff_wp ms I R ns e s
          | Some f \<Rightarrow> (case s ns of
                None \<Rightarrow> eff_wp ms I R ns e s
              | Some x \<Rightarrow> (case f x act of None \<Rightarrow> I s | Some x' \<Rightarrow> eff_wp ms I R ns e (s(ns \<mapsto> x'))))))"
| "eff_wp ms I R ns (Notify n e) s = eff_wp ms I R ns e s"
| "eff_wp ms I R ns (Callback v e) s = eff_wp ms I R ns e s"
| "eff_wp ms I R ns (Push p e) s = eff_wp ms I R ns e s"
| "eff_wp ms I R ns (SetAuthority a e) s = eff_wp ms I R ns e s"
| "eff_wp ms I R ns (ReloadAuthorized e) s = eff_wp ms I R ns e s"

lemma eff_wp_reading: "(r = None \<Longrightarrow> I s) \<Longrightarrow> (\<And>v. r = Some v \<Longrightarrow> eff_wp ms I R ns (k v) s) \<Longrightarrow> eff_wp ms I R ns (reading r k) s"
  by (cases r) simp_all

text \<open>The tasks under way are safe from every good store.\<close>

definition tasks_safe :: "dva_models \<Rightarrow> ((string \<rightharpoonup> js) \<Rightarrow> bool) \<Rightarrow> (js \<Rightarrow> bool) \<Rightarrow> (string \<times> eff) list \<Rightarrow> bool" where
  "tasks_safe ms I R ts \<longleftrightarrow> (\<forall>(ns, e)\<in>set ts. \<forall>s. I s \<longrightarrow> eff_wp ms I R ns e s)"

lemma tasks_safe_simps [simp]:
  "tasks_safe ms I R []"
  "tasks_safe ms I R ((ns, e) # ts) \<longleftrightarrow> (\<forall>s. I s \<longrightarrow> eff_wp ms I R ns e s) \<and> tasks_safe ms I R ts"
  "tasks_safe ms I R (ts @ us) \<longleftrightarrow> tasks_safe ms I R ts \<and> tasks_safe ms I R us"
  by (auto simp: tasks_safe_def)

lemma dispatch_tasks:
  assumes "dva_dispatch ms ns ty act st = Some st'"
  shows "ds_tasks st' = ds_tasks st
     \<or> (\<exists>m e. ms ns = Some m \<and> map_of (dm_effects m) ty = Some e \<and> ds_tasks st' = ds_tasks st @ [(ns, e act)])"
  using assms by (auto simp: dva_dispatch_def Let_def split: option.splits)

lemma run_eff_tasks: "\<exists>new. ds_tasks (fst (run_eff ms ns e st)) = ds_tasks st @ new"
proof (induction e arbitrary: st)
  case (Put ty act e)
  show ?case
  proof (cases "dva_dispatch ms ns ty act st")
    case (Some s2)
    from Put [of s2] obtain new where "ds_tasks (fst (run_eff ms ns e s2)) = ds_tasks s2 @ new" by blast
    with dispatch_tasks [OF Some] Some show ?thesis by auto
  qed simp
next
  case (Notify n e)
  from this [of "st\<lparr>ds_shown := ds_shown st @ [Message n]\<rparr>"] show ?case by simp
next
  case (Callback v e)
  from this [of "st\<lparr>ds_shown := ds_shown st @ [Called v]\<rparr>"] show ?case by simp
next
  case (Push p e)
  from this [of "st\<lparr>ds_shown := ds_shown st @ [Went p]\<rparr>"] show ?case by simp
next
  case (SetAuthority a e)
  from this [of "st\<lparr>ds_authority := a\<rparr>"] show ?case by simp
next
  case (ReloadAuthorized e)
  from this [of "st\<lparr>ds_current := renderAuthorize (ds_authority st)\<rparr>"] show ?case by simp
qed simp_all

text \<open>An event the argument covers: a dispatch of an effect no reducer listens to, an answer in \<open>R\<close>.\<close>

definition event_in :: "dva_models \<Rightarrow> (js \<Rightarrow> bool) \<Rightarrow> event \<Rightarrow> bool" where
  "event_in ms R ev =
     (case ev of
        Dispatch ns ty act \<Rightarrow> (case ms ns of None \<Rightarrow> True | Some m \<Rightarrow> map_of (dm_reducers m) ty = None)
      | Resume i r \<Rightarrow> R r)"

locale dva_invariant =
  fixes ms :: dva_models and I :: "(string \<rightharpoonup> js) \<Rightarrow> bool" and R :: "js \<Rightarrow> bool"
  assumes effects_safe: "ms ns = Some m \<Longrightarrow> map_of (dm_effects m) ty = Some e \<Longrightarrow> I s \<Longrightarrow> eff_wp ms I R ns (e act) s"
begin

lemma run_eff_safe:
  assumes "eff_wp ms I R ns e (ds_store st)" and "tasks_safe ms I R (ds_tasks st)"
  shows "I (ds_store (fst (run_eff ms ns e st))) \<and> tasks_safe ms I R (ds_tasks (fst (run_eff ms ns e st)))
     \<and> tasks_safe ms I R [(ns, snd (run_eff ms ns e st))]"
  using assms
proof (induction e arbitrary: st)
  case (Put ty act e)
  show ?case
  proof (cases "dva_dispatch ms ns ty act st")
    case None
    then show ?thesis using Put.prems
      by (auto simp: dva_dispatch_def tasks_safe_def Let_def split: option.splits)
  next
    case (Some st')
    have "eff_wp ms I R ns e (ds_store st')" using Some Put.prems(1)
      by (auto simp: dva_dispatch_def Let_def split: option.splits)
    moreover have "tasks_safe ms I R (ds_tasks st')" using dispatch_tasks [OF Some] Put.prems(2) effects_safe by auto
    ultimately show ?thesis using Put.IH Some by simp
  qed
qed simp_all

lemma resume_safe:
  assumes "I (ds_store st)" and "tasks_safe ms I R (ds_tasks st)" and "R r"
  shows "I (ds_store (resume ms i r st)) \<and> tasks_safe ms I R (ds_tasks (resume ms i r st))"
proof (cases "i < length (ds_tasks st)")
  case True
  obtain ns e where t: "ds_tasks st ! i = (ns, e)" by (cases "ds_tasks st ! i")
  then have mem: "(ns, e) \<in> set (ds_tasks st)" using True by (metis nth_mem)
  let ?e = "case e of Call s a k \<Rightarrow> k r | _ \<Rightarrow> e"
  obtain st' e' where run: "run_eff ms ns ?e st = (st', e')" by (cases "run_eff ms ns ?e st")
  have "eff_wp ms I R ns e (ds_store st)" using mem assms(1,2) by (auto simp: tasks_safe_def)
  then have "eff_wp ms I R ns ?e (ds_store st)" using assms(1,3) by (auto split: eff.splits)
  from run_eff_safe [OF this assms(2)] run
  have "I (ds_store st') \<and> tasks_safe ms I R (ds_tasks st') \<and> tasks_safe ms I R [(ns, e')]" by simp
  moreover from this have "tasks_safe ms I R ((ds_tasks st')[i := (ns, e')])"
    unfolding tasks_safe_def by (auto dest!: subsetD [OF set_update_subset_insert])
  ultimately show ?thesis using True t run by (simp add: resume_def)
qed (use assms in \<open>simp add: resume_def\<close>)

lemma happenings_safe:
  assumes "I (ds_store st)" and "tasks_safe ms I R (ds_tasks st)" and "list_all (event_in ms R) evs"
  shows "I (ds_store (happenings ms evs st)) \<and> tasks_safe ms I R (ds_tasks (happenings ms evs st))"
  using assms
proof (induction evs arbitrary: st)
  case (Cons ev evs)
  have "I (ds_store (happen ms ev st)) \<and> tasks_safe ms I R (ds_tasks (happen ms ev st))"
  proof (cases ev)
    case (Dispatch ns ty act)
    show ?thesis
    proof (cases "dva_dispatch ms ns ty act st")
      case None
      with Dispatch Cons.prems show ?thesis by (simp add: happen_def)
    next
      case (Some st')
      have "ds_store st' = ds_store st" using Some Cons.prems(3) Dispatch
        by (auto simp: dva_dispatch_def event_in_def Let_def split: option.splits)
      moreover have "tasks_safe ms I R (ds_tasks st')"
        using dispatch_tasks [OF Some] Cons.prems(2) effects_safe by auto
      ultimately show ?thesis using Dispatch Some Cons.prems(1) by (simp add: happen_def)
    qed
  next
    case (Resume i r)
    with Cons.prems resume_safe show ?thesis by (simp add: happen_def event_in_def)
  qed
  with Cons.IH [of "happen ms ev st"] Cons.prems(3) show ?case by (simp add: happenings_def)
qed (simp add: happenings_def)

end

subsection \<open>Failed answers\<close>

lemma eff_wp_if_ok_bad:
  "\<not> answer_ok r \<Longrightarrow> I s \<Longrightarrow> eff_wp ms I R ns b s \<Longrightarrow> eff_wp ms I R ns (if_ok r a b) s"
  using if_ok_simps(2) [of r a b] by auto

lemma eff_wp_warn: "I s \<Longrightarrow> eff_wp ms I R ns (reading (js_get f ''message'') (\<lambda>m. Notify (Warn m) Done)) s"
  by (rule eff_wp_reading) simp_all

lemma eff_wp_reload:
  assumes "ms ns = Some m" and "map_of (dm_reducers m) target = None" and "I s"
  shows "eff_wp ms I R ns (reload_with target keys t) s"
  unfolding reload_with_def
  by (rule eff_wp_reading) (use assms in \<open>auto split: option.splits\<close>)

text \<open>Whatever the invariant, an effect that waits for an answer and gets a bad one puts nothing.\<close>

definition bad_answer :: "js \<Rightarrow> bool" where
  "bad_answer r \<longleftrightarrow> \<not> answer_ok r"

lemma quiet_if_ok: "bad_answer r \<Longrightarrow> I s \<Longrightarrow> eff_wp ms I R ns b s \<Longrightarrow> eff_wp ms I R ns (if_ok r a b) s"
  unfolding bad_answer_def by (rule eff_wp_if_ok_bad)

lemma quiet_change_then: "I s \<Longrightarrow> eff_wp ms I bad_answer ns (change_then ok v next a t) s"
  by (auto simp: change_then_def intro!: eff_wp_reading quiet_if_ok)

lemma quiet_fetches:
  assumes "I s"
  shows "eff_wp ms I bad_answer ns (fetch_page v save t) s" "eff_wp ms I bad_answer ns (fetch_item v t) s"
    "eff_wp ms I bad_answer ns (fetchSelector t) s" "eff_wp ms I bad_answer ns (fetchRule t) s"
    "eff_wp ms I bad_answer ns (fetchItemDel t) s" "eff_wp ms I bad_answer ns (fetchMeta t) s"
    "eff_wp ms I bad_answer ns (fetchByPluginId jp t) s" "eff_wp ms I bad_answer ns (fetchByType t) s"
    "eff_wp ms I bad_answer ns (fetchPlatform t) s" "eff_wp ms I bad_answer ns (fetchPlugins t) s"
  by (auto simp: fetch_page_def fetch_item_def fetchSelector_def fetchRule_def fetchItemDel_def fetchMeta_def
      fetchByPluginId_def fetchByType_def fetchPlatform_def fetchPlugins_def assms intro!: eff_wp_reading quiet_if_ok)

lemma quiet_changes:
  assumes "I s"
  shows "eff_wp ms I bad_answer ns (change ok v next t) s" "eff_wp ms I bad_answer ns (delete_list v t) s"
    "eff_wp ms I bad_answer ns (deleteSelector t) s" "eff_wp ms I bad_answer ns (deleteRule t) s"
    "eff_wp ms I bad_answer ns (call_only v t) s" "eff_wp ms I bad_answer ns (changeStatus t) s"
    "eff_wp ms I bad_answer ns (asyncAll t) s" "eff_wp ms I bad_answer ns (asyncPlugin t) s"
  by (auto simp: change_def delete_list_def deleteSelector_def deleteRule_def call_only_def changeStatus_def
      asyncAll_def asyncPlugin_def assms intro!: eff_wp_reading quiet_if_ok quiet_change_then)

lemmas model_defs = view_model_def common_model_def manage_model_def metadata_model_def auth_model_def
  plugin_model_def pluginHandle_model_def soulDict_model_def global_model_def view_effects_def view_reducers_def

lemma dashboard_cases:
  assumes "dashboard jp ns = Some m"
  shows "m = view_model \<or> m = common_model
     \<or> m \<in> {manage_model, metadata_model, auth_model, plugin_model, pluginHandle_model jp, soulDict_model, global_model}"
proof -
  have "(ns, m) \<in> set [(''divide'', view_model), (''spring'', view_model), (''rewrite'', view_model), (''hystrix'', view_model),
      (''common'', common_model), (''manage'', manage_model), (''metadata'', metadata_model),
      (''auth'', auth_model), (''plugin'', plugin_model), (''pluginHandle'', pluginHandle_model jp),
      (''soulDict'', soulDict_model), (''global'', global_model)]"
    using assms unfolding dashboard_def by (rule map_of_SomeD)
  then show ?thesis by auto
qed

text \<open>An effect is quiet, or a \<open>reload\<close> whose target no reducer listens to.\<close>

definition quiet_entry :: "dva_model \<Rightarrow> string \<times> (js \<Rightarrow> eff) \<Rightarrow> bool" where
  "quiet_entry m p \<longleftrightarrow> (\<forall>ms I ns s act. I s \<longrightarrow> eff_wp ms I bad_answer ns (snd p act) s)
     \<or> (\<exists>target keys. snd p = reload_with target keys \<and> map_of (dm_reducers m) target = None)"

lemma quiet_entryI: "(\<And>ms I ns s act. I s \<Longrightarrow> eff_wp ms I bad_answer ns (e act) s) \<Longrightarrow> quiet_entry m (ty, e)"
  by (simp add: quiet_entry_def)

lemma quiet_entry_reload: "map_of (dm_reducers m) target = None \<Longrightarrow> quiet_entry m (ty, reload_with target keys)"
  by (auto simp: quiet_entry_def)

lemma quiet_view:
  "list_all (quiet_entry view_model) (dm_effects view_model)"
  "list_all (quiet_entry common_model) (dm_effects common_model)"
  unfolding model_defs
  by (simp; intro conjI; (rule quiet_entry_reload, simp | rule quiet_entryI, simp add: quiet_fetches quiet_changes))+

lemma quiet_lists:
  "list_all (quiet_entry manage_model) (dm_effects manage_model)"
  "list_all (quiet_entry metadata_model) (dm_effects metadata_model)"
  "list_all (quiet_entry auth_model) (dm_effects auth_model)"
  "list_all (quiet_entry plugin_model) (dm_effects plugin_model)"
  "list_all (quiet_entry (pluginHandle_model jp)) (dm_effects (pluginHandle_model jp))"
  "list_all (quiet_entry soulDict_model) (dm_effects soulDict_model)"
  "list_all (quiet_entry global_model) (dm_effects global_model)"
  unfolding model_defs
  by (simp; intro conjI; (rule quiet_entry_reload, simp | rule quiet_entryI, simp add: quiet_fetches quiet_changes))+

lemma quiet_model:
  assumes "dashboard jp ns = Some m" and "map_of (dm_effects m) ty = Some e"
  shows "quiet_entry m (ty, e)"
proof -
  have "list_all (quiet_entry m) (dm_effects m)"
    using dashboard_cases [OF assms(1)] quiet_view quiet_lists by auto
  then show ?thesis using map_of_SomeD [OF assms(2)] by (auto simp: list_all_iff)
qed

interpretation failing: dva_invariant "dashboard jp" "\<lambda>s. s = s0" bad_answer for jp s0
proof
  fix ns m ty e s act
  assume m: "dashboard jp ns = Some m" and e: "map_of (dm_effects m) ty = Some e" and s: "s = s0"
  show "eff_wp (dashboard jp) (\<lambda>s. s = s0) bad_answer ns (e act) s"
    using quiet_model [OF m e] s eff_wp_reload [where ms = "dashboard jp" and ns = ns and m = m and I = "\<lambda>s. s = s0" and s = s] m
    by (auto simp: quiet_entry_def)
qed

text \<open>
  A failing server changes nothing on the dashboard. Whatever effects the user starts, in whatever
  order they are resumed, if every answer is an error (a code other than 200) or a failed request
  (\<open>undefined\<close>), the store of every list and selector namespace stays what it was.
\<close>

theorem failed_answers_change_nothing:
  assumes "list_all (event_in (dashboard jp) bad_answer) evs" and "ds_tasks st = []"
  shows "ds_store (happenings (dashboard jp) evs st) = ds_store st"
  using failing.happenings_safe [where ?s0.0 = "ds_store st" and st = st and jp = jp and evs = evs] assms by simp

definition error_answer :: js where
  "error_answer = JObj [(''code'', JNum 500), (''message'', JStr ''error'')]"

lemma failed_answers_change_nothing_witness:
  "ds_store (happenings (dashboard Some)
     [Dispatch ''divide'' ''fetchSelector'' (JObj [(''payload'', JObj [(''currentPage'', JNum 1)])]),
      Dispatch ''divide'' ''deleteRule'' (JObj [(''payload'', JObj [(''list'', JArr [])]), (''fetchValue'', JObj [])]),
      Resume 1 error_answer, Resume 0 JUndef] (dash_init (dashboard Some)))
   = ds_store (dash_init (dashboard Some))"
  by (rule failed_answers_change_nothing)
    (simp_all add: event_in_def dashboard_def model_defs bad_answer_def answer_ok_def error_answer_def dash_init_def)

subsection \<open>The selector views\<close>

lemma js_get_array: "js_get e k = Some (JArr xs) \<Longrightarrow> \<exists>kvs. e = JObj kvs"
  by (cases e) auto

lemma js_get_assign: "js_get (js_assign e kvs) k
    = Some (case map_of (rev kvs) k of Some v \<Rightarrow> v | None \<Rightarrow> (case map_of (js_entries e) k of Some v \<Rightarrow> v | None \<Rightarrow> JUndef))"
proof -
  have "map_of (fold (\<lambda>(k, v). put_key k v) kvs es) = map_of es ++ map_of (rev kvs)" for es
    by (induction kvs arbitrary: es) (auto simp: map_add_def fun_eq_iff split: option.splits)
  then show ?thesis by (auto simp: js_assign_def map_add_def split: option.splits)
qed

text \<open>
  What a selector page shows: the rows have their keys, the marked selector is the first one (or the
  empty text when there is none).
\<close>

definition view_ok :: "js \<Rightarrow> bool" where
  "view_ok x \<longleftrightarrow> (\<exists>rows. js_get x ''selectorList'' = Some (JArr rows)
     \<and> js_get x ''currentSelector'' = Some (if rows \<noteq> [] then hd rows else JStr '''')
     \<and> (\<forall>e\<in>set rows. js_get e ''key'' = js_get e ''id''))
     \<and> (\<exists>rules. js_get x ''ruleList'' = Some (JArr rules) \<and> (\<forall>e\<in>set rules. js_get e ''key'' = js_get e ''id''))"

definition view_namespaces :: "string set" where
  "view_namespaces = {''divide'', ''spring'', ''rewrite'', ''hystrix'', ''common''}"

definition views_ok :: "(string \<rightharpoonup> js) \<Rightarrow> bool" where
  "views_ok s \<longleftrightarrow> (\<forall>ns\<in>view_namespaces. \<exists>x. s ns = Some x \<and> view_ok x)"

lemma eff_wp_other: "ns \<notin> view_namespaces \<Longrightarrow> views_ok s \<Longrightarrow> eff_wp ms views_ok (\<lambda>_. True) ns e s"
  by (induction e arbitrary: s) (auto simp: views_ok_def split: option.splits)

lemma with_key_key: "with_key e = Some e' \<Longrightarrow> js_get e' ''key'' = js_get e' ''id''"
  by (cases e) (auto simp: with_key_def split: option.splits)

lemma opt_map_all: "opt_map f xs = Some ys \<Longrightarrow> (\<And>x y. f x = Some y \<Longrightarrow> P y) \<Longrightarrow> y \<in> set ys \<Longrightarrow> P y"
  by (induction xs arbitrary: ys) (auto split: option.splits)

lemma keyed_rows: "js_map with_key d = Some rows \<Longrightarrow> \<forall>e\<in>set rows. js_get e ''key'' = js_get e ''id''"
  using opt_map_all [where f = with_key and P = "\<lambda>e. js_get e ''key'' = js_get e ''id''"] with_key_key
  by (cases d) auto

text \<open>The two puts of \<open>fetchSelector\<close> together restore the invariant; so does \<open>saveRule\<close>.\<close>

lemma view_reducer_lookup:
  assumes "dashboard jp ns = Some m" and "ns \<in> view_namespaces"
  shows "dm_effects m = view_effects"
    "map_of (dm_reducers m) ''saveSelector'' = Some (save_fields [(''selectorList'', ''selectorList''), (''selectorTotal'', ''selectorTotal'')])"
    "map_of (dm_reducers m) ''saveRule'' = Some (save_fields [(''ruleList'', ''ruleList''), (''ruleTotal'', ''ruleTotal'')])"
    "map_of (dm_reducers m) ''saveCurrentSelector'' = Some (save_fields [(''currentSelector'', ''currentSelector'')])"
    "map_of (dm_reducers m) ''fetchRule'' = None" "map_of (dm_reducers m) ''fetchSelector'' = None"
    "map_of (dm_reducers m) ''reload'' = None" "map_of (dm_reducers m) ''reloadRule'' = None"
proof -
  have m: "m = view_model \<or> m = common_model"
    using assms unfolding view_namespaces_def dashboard_def
    by (elim insertE emptyE) simp_all
  show "dm_effects m = view_effects" using m by (auto simp: view_model_def common_model_def)
  have r: "dm_reducers m = view_reducers \<or> dm_reducers m = view_reducers @ [(''resetData'', \<lambda>e t. Some view_state)]"
    using m by (auto simp: view_model_def common_model_def)
  have v: "map_of (view_reducers @ xs) ''saveSelector'' = Some (save_fields [(''selectorList'', ''selectorList''), (''selectorTotal'', ''selectorTotal'')])"
    "map_of (view_reducers @ xs) ''saveRule'' = Some (save_fields [(''ruleList'', ''ruleList''), (''ruleTotal'', ''ruleTotal'')])"
    "map_of (view_reducers @ xs) ''saveCurrentSelector'' = Some (save_fields [(''currentSelector'', ''currentSelector'')])" for xs
    by (simp_all add: view_reducers_def)
  have w: "map_of (view_reducers @ [(''resetData'', f)]) k = None" "map_of view_reducers k = None"
    if "k \<in> {''fetchRule'', ''fetchSelector'', ''reload'', ''reloadRule''}" for k f
    using that by (auto simp: view_reducers_def)
  show "map_of (dm_reducers m) ''saveSelector'' = Some (save_fields [(''selectorList'', ''selectorList''), (''selectorTotal'', ''selectorTotal'')])"
    using r v(1) [of "[]"] v(1) by auto
  show "map_of (dm_reducers m) ''saveRule'' = Some (save_fields [(''ruleList'', ''ruleList''), (''ruleTotal'', ''ruleTotal'')])"
    using r v(2) [of "[]"] v(2) by auto
  show "map_of (dm_reducers m) ''saveCurrentSelector'' = Some (save_fields [(''currentSelector'', ''currentSelector'')])"
    using r v(3) [of "[]"] v(3) by auto
  show "map_of (dm_reducers m) ''fetchRule'' = None" "map_of (dm_reducers m) ''fetchSelector'' = None"
    "map_of (dm_reducers m) ''reload'' = None" "map_of (dm_reducers m) ''reloadRule'' = None"
    using r w by (elim disjE; simp)+
qed

definition save_selectors :: "js list \<Rightarrow> js \<Rightarrow> js \<Rightarrow> js" where
  "save_selectors rows n x = js_assign (js_assign x [(''selectorList'', JArr rows), (''selectorTotal'', n)])
     [(''currentSelector'', if rows \<noteq> [] then hd rows else JStr '''')]"

lemma view_ok_object: "view_ok x \<Longrightarrow> \<exists>kvs. x = JObj kvs"
  unfolding view_ok_def by (blast dest: js_get_array)

lemma save_selectors_get:
  "js_get (save_selectors rows n x) ''selectorList'' = Some (JArr rows)"
  "js_get (save_selectors rows n x) ''currentSelector'' = Some (if rows \<noteq> [] then hd rows else JStr '''')"
  "js_get (save_selectors rows n (JObj kvs)) ''ruleList'' = js_get (JObj kvs) ''ruleList''"
  by (simp_all add: save_selectors_def js_assign_def)

lemma save_rules_get:
  "js_get (js_assign x [(''ruleList'', JArr rows), (''ruleTotal'', n)]) ''ruleList'' = Some (JArr rows)"
  "js_get (js_assign (JObj kvs) [(''ruleList'', JArr rows), (''ruleTotal'', n)]) ''selectorList'' = js_get (JObj kvs) ''selectorList''"
  "js_get (js_assign (JObj kvs) [(''ruleList'', JArr rows), (''ruleTotal'', n)]) ''currentSelector'' = js_get (JObj kvs) ''currentSelector''"
  by (simp_all add: js_assign_def)

lemma view_ok_selectors:
  assumes "view_ok x" and rows: "\<forall>e\<in>set rows. js_get e ''key'' = js_get e ''id''"
  shows "view_ok (save_selectors rows n x)"
proof -
  obtain kvs where x: "x = JObj kvs" using view_ok_object [OF assms(1)] by blast
  have "\<exists>rules. js_get x ''ruleList'' = Some (JArr rules) \<and> (\<forall>e\<in>set rules. js_get e ''key'' = js_get e ''id'')"
    using assms(1) unfolding view_ok_def by blast
  with rows show ?thesis unfolding view_ok_def x save_selectors_get by blast
qed

lemma view_ok_rules:
  assumes "view_ok x" and rows: "\<forall>e\<in>set rows. js_get e ''key'' = js_get e ''id''"
  shows "view_ok (js_assign x [(''ruleList'', JArr rows), (''ruleTotal'', n)])"
proof -
  obtain kvs where x: "x = JObj kvs" using view_ok_object [OF assms(1)] by blast
  from assms(1) rows show ?thesis unfolding view_ok_def x save_rules_get by blast
qed

lemma views_okD: "views_ok s \<Longrightarrow> ns \<in> view_namespaces \<Longrightarrow> \<exists>x. s ns = Some x \<and> view_ok x"
  by (simp add: views_ok_def)

lemma views_ok_upd: "views_ok s \<Longrightarrow> view_ok x \<Longrightarrow> views_ok (s(ns \<mapsto> x))"
  by (simp add: views_ok_def)

lemma saved_rules: "save_fields [(''ruleList'', ''ruleList''), (''ruleTotal'', ''ruleTotal'')] x
    (js_obj [(''payload'', js_obj [(''ruleTotal'', n), (''ruleList'', v)])])
  = Some (js_assign x [(''ruleList'', v), (''ruleTotal'', n)])"
  by (simp add: save_fields_def js_obj_def)

lemma saved_selectors: "save_fields [(''selectorList'', ''selectorList''), (''selectorTotal'', ''selectorTotal'')] x
    (js_obj [(''payload'', js_obj [(''selectorTotal'', n), (''selectorList'', v)])])
  = Some (js_assign x [(''selectorList'', v), (''selectorTotal'', n)])"
  by (simp add: save_fields_def js_obj_def)

lemma saved_current: "save_fields [(''currentSelector'', ''currentSelector'')] x
    (js_obj [(''payload'', js_obj [(''currentSelector'', v)])]) = Some (js_assign x [(''currentSelector'', v)])"
  by (simp add: save_fields_def js_obj_def)

abbreviation view_wp :: "(js \<Rightarrow> js option) \<Rightarrow> string \<Rightarrow> eff \<Rightarrow> (string \<rightharpoonup> js) \<Rightarrow> bool" where
  "view_wp jp \<equiv> eff_wp (dashboard jp) views_ok (\<lambda>_. True)"

lemma view_put_rules:
  assumes "dashboard jp ns = Some m" and "ns \<in> view_namespaces" and "views_ok s"
    and "\<forall>e\<in>set rows. js_get e ''key'' = js_get e ''id''" and "\<And>s'. views_ok s' \<Longrightarrow> view_wp jp ns e s'"
  shows "view_wp jp ns (Put ''saveRule'' (js_obj [(''payload'', js_obj [(''ruleTotal'', n), (''ruleList'', JArr rows)])]) e) s"
proof -
  obtain x where x: "s ns = Some x" "view_ok x" using views_okD [OF assms(3,2)] by blast
  show ?thesis
    using assms(5) [OF views_ok_upd [OF assms(3) view_ok_rules [OF x(2) assms(4)]]]
    by (simp only: eff_wp.simps assms(1) option.simps view_reducer_lookup [OF assms(1,2)] x(1) saved_rules)
qed

lemma view_put_selectors:
  assumes "dashboard jp ns = Some m" and "ns \<in> view_namespaces" and "views_ok s"
    and "\<forall>e\<in>set rows. js_get e ''key'' = js_get e ''id''" and "\<And>s'. views_ok s' \<Longrightarrow> view_wp jp ns e s'"
  shows "view_wp jp ns (Put ''saveSelector'' (js_obj [(''payload'', js_obj [(''selectorTotal'', n), (''selectorList'', JArr rows)])])
     (Put ''saveCurrentSelector'' (js_obj [(''payload'', js_obj [(''currentSelector'', if rows \<noteq> [] then hd rows else JStr '''')])]) e)) s"
proof -
  obtain x where x: "s ns = Some x" "view_ok x" using views_okD [OF assms(3,2)] by blast
  show ?thesis
    using assms(5) [OF views_ok_upd [OF assms(3) view_ok_selectors [OF x(2) assms(4), unfolded save_selectors_def]]]
    by (simp only: eff_wp.simps assms(1) option.simps view_reducer_lookup [OF assms(1,2)] x(1) saved_selectors saved_current
        fun_upd_same fun_upd_upd)
qed

lemma view_put_plain:
  assumes "dashboard jp ns = Some m" and "ns \<in> view_namespaces"
    and "ty \<in> {''fetchRule'', ''fetchSelector'', ''reload'', ''reloadRule''}" and "view_wp jp ns e s"
  shows "view_wp jp ns (Put ty act e) s"
  using assms(3,4) view_reducer_lookup(5-8) [OF assms(1,2)] by (auto simp: assms(1))

lemma eff_wp_if_ok: "I s \<Longrightarrow> eff_wp ms I R ns a s \<Longrightarrow> eff_wp ms I R ns b s \<Longrightarrow> eff_wp ms I R ns (if_ok r a b) s"
  using if_ok_simps [of r a b] by (cases "answer_ok r") auto

lemma eff_wp_call:
  "I s \<Longrightarrow> (\<And>r s'. R r \<Longrightarrow> I s' \<Longrightarrow> eff_wp ms I R ns (k r) s') \<Longrightarrow> eff_wp ms I R ns (Call v a k) s"
  by simp

lemma eff_wp_stop: "I s \<Longrightarrow> eff_wp ms I R ns Done s" "I s \<Longrightarrow> eff_wp ms I R ns Throw s"
  "I s \<Longrightarrow> eff_wp ms I R ns (Notify (Warn v) Done) s" "I s \<Longrightarrow> eff_wp ms I R ns (Callback v Done) s"
  by simp_all

lemma eff_wp_case:
  "(r = None \<Longrightarrow> eff_wp ms I R ns a s) \<Longrightarrow> (\<And>v. r = Some v \<Longrightarrow> eff_wp ms I R ns (k v) s)
    \<Longrightarrow> eff_wp ms I R ns (case r of None \<Rightarrow> a | Some v \<Rightarrow> k v) s"
  by (cases r) simp_all

lemma eff_wp_show:
  "eff_wp ms I R ns e s \<Longrightarrow> eff_wp ms I R ns (Notify n e) s" "eff_wp ms I R ns e s \<Longrightarrow> eff_wp ms I R ns (Callback v e) s"
  by simp_all

lemma eff_wp_if: "eff_wp ms I R ns a s \<Longrightarrow> eff_wp ms I R ns b s \<Longrightarrow> eff_wp ms I R ns (if c then a else b) s"
  by simp

lemmas eff_wp_intros = eff_wp_reading eff_wp_call eff_wp_if_ok eff_wp_case eff_wp_if eff_wp_show eff_wp_stop(1,2)

lemma view_effects_wp:
  assumes m: "dashboard jp ns = Some m" and ns: "ns \<in> view_namespaces" and s: "views_ok s"
  shows "view_wp jp ns (fetchSelector t) s" "view_wp jp ns (fetchRule t) s" "view_wp jp ns (deleteSelector t) s"
    "view_wp jp ns (deleteRule t) s" "view_wp jp ns (fetch_item v t) s"
    "next \<in> {''reload'', ''reloadRule''} \<Longrightarrow> view_wp jp ns (change ok v next t) s"
    "target \<in> {''fetchSelector'', ''fetchRule''} \<Longrightarrow> view_wp jp ns (reload_with target keys t) s"
proof -
  note puts = view_put_selectors [OF m ns] view_put_rules [OF m ns]
  show "view_wp jp ns (fetchSelector t) s" unfolding fetchSelector_def
    by (intro eff_wp_intros puts; (rule s | assumption | erule keyed_rows | (rule view_put_plain [OF m ns], simp, rule eff_wp_stop))?)
      (assumption | rule s)+
  show "view_wp jp ns (fetchRule t) s" unfolding fetchRule_def
    by (intro eff_wp_intros puts; (rule s | assumption | erule keyed_rows))
  show "view_wp jp ns (deleteSelector t) s" unfolding deleteSelector_def
    by (intro eff_wp_intros puts; (rule s | assumption | (rule view_put_plain [OF m ns], simp, rule eff_wp_stop, assumption) | simp))
  show "view_wp jp ns (deleteRule t) s" unfolding deleteRule_def
    by (intro eff_wp_intros; (rule s | assumption | (rule view_put_plain [OF m ns], simp, rule eff_wp_stop, assumption)))
  show "view_wp jp ns (fetch_item v t) s" unfolding fetch_item_def
    by (intro eff_wp_intros; (rule s | assumption))
  show "view_wp jp ns (change ok v next t) s" if "next \<in> {''reload'', ''reloadRule''}"
    unfolding change_def change_then_def
    by (intro eff_wp_intros; (rule s | assumption | (rule view_put_plain [OF m ns], use that in blast, rule eff_wp_stop, assumption)))
  show "view_wp jp ns (reload_with target keys t) s" if "target \<in> {''fetchSelector'', ''fetchRule''}"
    unfolding reload_with_def
    by (intro eff_wp_intros; (rule s | assumption | (rule view_put_plain [OF m ns], use that in blast, rule eff_wp_stop, rule s)))
qed

interpretation views: dva_invariant "dashboard jp" views_ok "\<lambda>_. True" for jp
proof
  fix ns m ty e s act
  assume m: "dashboard jp ns = Some m" and e: "map_of (dm_effects m) ty = Some e" and s: "views_ok s"
  show "eff_wp (dashboard jp) views_ok (\<lambda>_. True) ns (e act) s"
  proof (cases "ns \<in> view_namespaces")
    case True
    have "(ty, e) \<in> set view_effects" using e map_of_SomeD view_reducer_lookup(1) [OF m True] by metis
    then show ?thesis
      using view_effects_wp [OF m True s] unfolding view_effects_def by auto
  next
    case False
    then show ?thesis using s by (rule eff_wp_other)
  qed
qed


text \<open>The answers of the list services.\<close>

definition page_answer :: "int \<Rightarrow> js list \<Rightarrow> js" where
  "page_answer n rows = JObj [(''code'', JNum 200), (''data'', JObj [(''page'', JObj [(''totalCount'', JNum n)]),
     (''dataList'', JArr rows)])]"


subsection \<open>Where the order of answers shows\<close>

lemma divide_view: "dashboard jp ''divide'' = Some view_model"
  by (simp add: dashboard_def)

lemma view_lookup:
  "map_of (dm_reducers view_model) ''fetchRule'' = None" "map_of (dm_effects view_model) ''fetchRule'' = Some fetchRule"
  "map_of (dm_effects view_model) ''saveRule'' = None"
  "map_of (dm_reducers view_model) ''saveRule'' = Some (save_fields [(''ruleList'', ''ruleList''), (''ruleTotal'', ''ruleTotal'')])"
  by (simp_all add: view_model_def view_effects_def view_reducers_def)

definition ask_rules :: "js \<Rightarrow> event" where
  "ask_rules i = Dispatch ''divide'' ''fetchRule'' (JObj [(''payload'', JObj [(''selectorId'', i)])])"

lemma fetchRule_call: "\<exists>k. fetchRule (JObj [(''payload'', a)]) = Call ''getAllRules'' a k
    \<and> (\<forall>n rows keyed. opt_map with_key rows = Some keyed \<longrightarrow> k (page_answer n rows)
        = Put ''saveRule'' (js_obj [(''payload'', js_obj [(''ruleTotal'', JNum n), (''ruleList'', JArr keyed)])]) Done)"
  by (simp add: fetchRule_def page_answer_def if_ok_def)

lemma resume_rules:
  assumes "i < length (ds_tasks st)" and "ds_tasks st ! i = (''divide'', fetchRule (JObj [(''payload'', a)]))"
    and "opt_map with_key rows = Some keyed" and "ds_store st ''divide'' = Some x"
  shows "resume (dashboard jp) i (page_answer n rows) st
    = st\<lparr>ds_store := (ds_store st)(''divide'' \<mapsto> js_assign x [(''ruleList'', JArr keyed), (''ruleTotal'', JNum n)]),
         ds_tasks := (ds_tasks st)[i := (''divide'', Done)]\<rparr>"
proof -
  obtain k where k: "fetchRule (JObj [(''payload'', a)]) = Call ''getAllRules'' a k"
    "k (page_answer n rows) = Put ''saveRule'' (js_obj [(''payload'', js_obj [(''ruleTotal'', JNum n), (''ruleList'', JArr keyed)])]) Done"
    using fetchRule_call [of a] assms(3) by blast
  show ?thesis
    by (simp only: resume_def assms(1,2) k if_True prod.case eff.simps run_eff.simps dva_dispatch_def divide_view option.simps
        view_lookup assms(4) saved_rules Let_def) (simp add: view_model_def)
qed

lemma happen_resume: "happen ms (Resume i r) st = resume ms i r st"
  by (simp add: happen_def)

lemma ask_rules_happen: "happen (dashboard jp) (ask_rules i) st
    = st\<lparr>ds_tasks := ds_tasks st @ [(''divide'', fetchRule (JObj [(''payload'', JObj [(''selectorId'', i)])]))]\<rparr>"
  by (simp add: happen_def ask_rules_def dva_dispatch_def divide_view view_lookup)

text \<open>
  The last answer wins, not the last request. Rules of selector \<open>A\<close> and then of selector \<open>B\<close> are
  asked for; when the answer for \<open>A\<close> arrives after the one for \<open>B\<close>, the divide page ends with the
  rules and the total of \<open>A\<close>, although \<open>B\<close> was chosen last.
\<close>

theorem divide_rule_race:
  assumes "opt_map with_key rowsA = Some keyedA" and "opt_map with_key rowsB = Some keyedB"
  shows "\<exists>x. ds_store (happenings (dashboard jp) [ask_rules A, ask_rules B, Resume 1 (page_answer nB rowsB),
          Resume 0 (page_answer nA rowsA)] (dash_init (dashboard jp))) ''divide'' = Some x
     \<and> js_get x ''ruleList'' = Some (JArr keyedA) \<and> js_get x ''ruleTotal'' = Some (JNum nA)"
proof -
  let ?st = "happen (dashboard jp) (ask_rules B) (happen (dashboard jp) (ask_rules A) (dash_init (dashboard jp)))"
  have t: "ds_tasks ?st = [(''divide'', fetchRule (JObj [(''payload'', JObj [(''selectorId'', A)])])),
      (''divide'', fetchRule (JObj [(''payload'', JObj [(''selectorId'', B)])]))]"
    and d: "ds_store ?st ''divide'' = Some view_state"
    by (simp_all add: ask_rules_happen dash_init_def divide_view) (simp add: view_model_def)
  let ?st1 = "resume (dashboard jp) 1 (page_answer nB rowsB) ?st"
  have st1: "?st1 = ?st\<lparr>ds_store := (ds_store ?st)(''divide'' \<mapsto> js_assign view_state [(''ruleList'', JArr keyedB), (''ruleTotal'', JNum nB)]),
         ds_tasks := (ds_tasks ?st)[1 := (''divide'', Done)]\<rparr>"
    by (rule resume_rules [OF _ _ assms(2) d]) (simp_all add: t)
  have t1: "ds_tasks ?st1 = [(''divide'', fetchRule (JObj [(''payload'', JObj [(''selectorId'', A)])])), (''divide'', Done)]"
    and d1: "ds_store ?st1 ''divide'' = Some (js_assign view_state [(''ruleList'', JArr keyedB), (''ruleTotal'', JNum nB)])"
    unfolding st1 by (simp_all add: t)
  have l: "0 < length (ds_tasks ?st1)" unfolding t1 by simp
  have n: "ds_tasks ?st1 ! 0 = (''divide'', fetchRule (JObj [(''payload'', JObj [(''selectorId'', A)])]))"
    unfolding t1 by simp
  have st2: "ds_store (resume (dashboard jp) 0 (page_answer nA rowsA) ?st1) ''divide''
      = Some (js_assign (js_assign view_state [(''ruleList'', JArr keyedB), (''ruleTotal'', JNum nB)])
          [(''ruleList'', JArr keyedA), (''ruleTotal'', JNum nA)])"
    unfolding resume_rules [OF l n assms(1) d1] by simp
  show ?thesis
    unfolding happenings_def fold_simps happen_resume st2 by (simp add: js_get_assign)
qed

lemma divide_rule_race_witness:
  "\<exists>x. ds_store (happenings (dashboard Some) [ask_rules (JStr ''1''), ask_rules (JStr ''2''), Resume 1 (page_answer 0 []),
          Resume 0 (page_answer 1 [JObj [(''id'', JStr ''r'')]])] (dash_init (dashboard Some))) ''divide'' = Some x
     \<and> js_get x ''ruleList'' = Some (JArr [JObj [(''id'', JStr ''r''), (''key'', JStr ''r'')]]) \<and> js_get x ''ruleTotal'' = Some (JNum 1)"
  by (rule divide_rule_race) (simp_all add: with_key_def)

text \<open>
  Adding a plugin handle breaks its page. When the service accepts a new plugin handle, the action
  \<open>reload\<close> reaches the generator function that stands among the reducers: the state of the namespace
  becomes a generator object without list and total, and no effect that would fetch the list runs.
\<close>

theorem plugin_handle_add_loses_state:
  assumes "answer_ok r"
  shows "let st = happenings (dashboard jp)
        [Dispatch ''pluginHandle'' ''add'' (JObj [(''payload'', p), (''fetchValue'', v)]), Resume 0 r] (dash_init (dashboard jp))
     in ds_store st ''pluginHandle'' = Some JGen \<and> js_get JGen ''pluginHandleList'' = Some JUndef
        \<and> ds_tasks st = [(''pluginHandle'', Done)]"
proof -
  have h: "dashboard jp ''pluginHandle'' = Some (pluginHandle_model jp)" by (simp add: dashboard_def)
  have e: "map_of (dm_effects (pluginHandle_model jp)) ''add'' = Some (change Added ''addPluginHandle'' ''reload'')"
    "map_of (dm_reducers (pluginHandle_model jp)) ''add'' = None"
    "map_of (dm_effects (pluginHandle_model jp)) ''reload'' = None"
    "map_of (dm_reducers (pluginHandle_model jp)) ''reload'' = Some reload_reducer"
    by (simp_all add: pluginHandle_model_def)
  have c: "change Added ''addPluginHandle'' ''reload'' (JObj [(''payload'', p), (''fetchValue'', v)])
    = Call ''addPluginHandle'' p (\<lambda>f. if_ok f
         (Notify Added (Callback JUndef (Put ''reload'' (js_obj [(''fetchValue'', v)]) Done)))
         (reading (js_get f ''message'') (\<lambda>m. Notify (Warn m) Done)))"
    by (simp add: change_def change_then_def)
  have s: "ds_store (dash_init (dashboard jp)) ''pluginHandle'' = Some (dm_state (pluginHandle_model jp))"
    "ds_tasks (dash_init (dashboard jp)) = []"
    by (simp_all add: dash_init_def h)
  show ?thesis
    by (simp add: happenings_def happen_def dva_dispatch_def h e s c resume_def if_ok_simps(1) [OF assms] reload_reducer_def)
qed

lemma plugin_handle_add_loses_state_witness:
  "let st = happenings (dashboard Some)
        [Dispatch ''pluginHandle'' ''add'' (JObj [(''payload'', JNull), (''fetchValue'', JNull)]),
         Resume 0 (JObj [(''code'', JNum 200)])] (dash_init (dashboard Some))
     in ds_store st ''pluginHandle'' = Some JGen \<and> js_get JGen ''pluginHandleList'' = Some JUndef
        \<and> ds_tasks st = [(''pluginHandle'', Done)]"
  by (rule plugin_handle_add_loses_state) (simp add: answer_ok_def)

end
