(* ===== verification/DashAuth.thy ===== *)
theory DashAuth
  imports DashSafety
begin

text \<open>
  Who may see the dashboard: the request function and its reactions to failures (module \<open>vLgD\<close>), the
  permission check of routes and menu entries (\<open>r5uz\<close>, \<open>yr2K\<close>), login and logout, the menu
  (\<open>hbqV\<close>) and the table of routes (\<open>+qAU\<close>).
\<close>

subsection \<open>Requests\<close>

text \<open>
  What the server and the network do with a request: a status and a JSON body, a body that is not
  JSON, or no response. The promise of the request gives the body or, after its own \<open>catch\<close>,
  \<open>undefined\<close>, and may dispatch a logout or a navigation.
\<close>

datatype http_outcome = Response int js | BadBody int | NoResponse

datatype reaction = NoReaction | LogOut | GoTo string

definition checkStatus :: "int \<Rightarrow> bool" where
  "checkStatus status \<longleftrightarrow> 200 \<le> status \<and> status < 300"

definition error_reaction :: "int \<Rightarrow> reaction" where
  "error_reaction n =
     (if n = 401 then LogOut
      else if n = 403 then GoTo ''/exception/403''
      else if n \<le> 504 \<and> 500 \<le> n then GoTo ''/exception/500''
      else if 404 \<le> n \<and> n < 422 then GoTo ''/exception/404''
      else NoReaction)"

text \<open>The name of the error is the status; the other errors have a text as name, for which no test holds.\<close>

definition request :: "http_outcome \<Rightarrow> js \<times> reaction" where
  "request out =
     (case out of
        Response status body \<Rightarrow> if checkStatus status then (body, NoReaction) else (JUndef, error_reaction status)
      | BadBody status \<Rightarrow> if checkStatus status then (JUndef, NoReaction) else (JUndef, error_reaction status)
      | NoResponse \<Rightarrow> (JUndef, NoReaction))"

text \<open>What the answer means to the store: the task is resumed and a reaction is dispatched.\<close>

definition answer_events :: "nat \<Rightarrow> http_outcome \<Rightarrow> event list" where
  "answer_events i out =
     (case request out of
        (r, LogOut) \<Rightarrow> [Dispatch ''login'' ''logout'' (JObj []), Resume i r]
      | (r, _) \<Rightarrow> [Resume i r])"

subsection \<open>Permissions\<close>

text \<open>
  The authority a route asks for: none, a list, a text, or a function of the current one. The current
  authority is a text or a list. Promises are not modelled.
\<close>

datatype authority = Anyone | OneOf "string list" | Authority string | Decided "string list \<Rightarrow> bool"

datatype current = Cur string | Curs "string list"

fun cur_list :: "current \<Rightarrow> string list" where
  "cur_list (Cur c) = [c]"
| "cur_list (Curs cs) = cs"

text \<open>\<open>checkPermissions\<close>: true for the target, false for the exception. \<open>indexOf\<close> of a text finds substrings.\<close>

fun checkPermissions :: "authority \<Rightarrow> current \<Rightarrow> bool" where
  "checkPermissions Anyone cur = True"
| "checkPermissions (OneOf e) (Cur t) = (t \<in> set e)"
| "checkPermissions (OneOf e) (Curs ts) = (\<exists>l\<in>set ts. l \<in> set e)"
| "checkPermissions (Authority e) (Cur t) = (e = '''' \<or> e = t)"
| "checkPermissions (Authority e) (Curs ts) = (e = '''' \<or> (\<exists>s\<in>set ts. str_contains e s))"
| "checkPermissions (Decided f) cur = f (cur_list cur)"

text \<open>The route \<open>/\<close>, which holds every page but the login.\<close>

definition root_route :: authority where
  "root_route = OneOf [''admin'', ''user'']"

definition signed_in :: "dash \<Rightarrow> bool" where
  "signed_in st \<longleftrightarrow> checkPermissions root_route (Cur (ds_current st))"

subsection \<open>Menu and routes\<close>

datatype menu = Menu (m_name: string) (m_path: string) (m_authority: "string option") (m_children: "menu list option")

text \<open>
  \<open>formatter\<close>: paths relative to the parent, the authority of the parent where there is none. The
  children are given the authority as written, not the inherited one.
\<close>

fun format_item :: "(string \<Rightarrow> bool) \<Rightarrow> string \<Rightarrow> string option \<Rightarrow> menu \<Rightarrow> menu" where
  "format_item isUrl parentPath parentAuthority (Menu name p a cs) =
     Menu name (if isUrl p then p else parentPath @ p) (case a of Some x \<Rightarrow> if x = '''' then parentAuthority else a | None \<Rightarrow> parentAuthority)
       (map_option (map (format_item isUrl (parentPath @ p @ ''/'') a)) cs)"

definition menuData :: "menu list" where
  "menuData =
     [Menu ''plugins'' ''plug'' None (Some
        [Menu ''rewrite'' ''rewrite'' None None, Menu ''divide'' ''divide'' None None,
         Menu ''springCloud'' ''springCloud'' None None, Menu ''hystrix'' ''hystrix'' None None]),
      Menu ''system'' ''system'' None (Some
        [Menu ''users'' ''manage'' None None, Menu ''plugins'' ''plugin'' None None, Menu ''auth'' ''auth'' None None,
         Menu ''metadata'' ''metadata'' None None, Menu ''dict'' ''dict'' None None])]"

definition getMenuData :: "(string \<Rightarrow> bool) \<Rightarrow> menu list" where
  "getMenuData isUrl = map (format_item isUrl ''/'' None) menuData"

text \<open>The other plugins of the server are added below the first entry, under \<open>/plug/\<close>.\<close>

definition plugin_entries :: "string list \<Rightarrow> menu list" where
  "plugin_entries names =
     map (\<lambda>n. Menu n (''/plug/'' @ n) None None)
       (filter (\<lambda>n. n \<notin> set [''rewrite'', ''divide'', ''springCloud'', ''hystrix'']) names)"

text \<open>The table of routes with the models each page registers.\<close>

definition routerConfig :: "(string \<times> string list) list" where
  "routerConfig =
     [(''/'', [''user'', ''login'']), (''/home'', []), (''/plug/hystrix'', [''hystrix'']), (''/plug/rewrite'', [''rewrite'']),
      (''/plug/divide'', [''divide'']), (''/plug/springCloud'', [''spring'']), (''/plug/:id'', [''common'']),
      (''/system/manage'', [''manage'']), (''/system/metadata'', [''metadata'']), (''/system/plugin'', [''plugin'']),
      (''/system/auth'', [''auth'']), (''/system/dict'', [''soulDict'']), (''/exception/403'', []), (''/exception/404'', []),
      (''/exception/500'', []), (''/exception/trigger'', [''error'']), (''/user'', []), (''/user/login'', [''login'']),
      (''/plugin/handle/:pluginId'', [''pluginHandle''])]"

fun menu_leaves :: "menu \<Rightarrow> string list" where
  "menu_leaves (Menu n p a None) = [p]"
| "menu_leaves (Menu n p a (Some cs)) = concat (map menu_leaves cs)"

subsection \<open>Login and logout\<close>

lemma app_login: "dva_app jp ''login'' = Some login_model"
  by (simp add: dva_app_def)

lemma app_page: "dashboard jp ns = Some m \<Longrightarrow> dva_app jp ns = Some m"
proof -
  assume d: "dashboard jp ns = Some m"
  then have "ns \<notin> {''login'', ''error'', ''user''}" unfolding dashboard_def by auto
  with d show ?thesis by (auto simp: dva_app_def map_add_def)
qed

lemma login_lookup:
  "map_of (dm_reducers login_model) ''login'' = None" "map_of (dm_effects login_model) ''login'' = Some login"
  "map_of (dm_reducers login_model) ''logout'' = None" "map_of (dm_effects login_model) ''logout'' = Some logout"
  "map_of (dm_effects login_model) ''changeLoginStatus'' = None"
  "map_of (dm_reducers login_model) ''changeLoginStatus'' = Some (save_fields [(''status'', ''status'')])"
  "map_of (dm_authority login_model) ''changeLoginStatus'' = Some ''admin''"
  by (simp_all add: login_model_def)

lemma login_dispatch:
  "happen (dva_app jp) (Dispatch ''login'' ''login'' act) st = st\<lparr>ds_tasks := ds_tasks st @ [(''login'', login act)]\<rparr>"
  "happen (dva_app jp) (Dispatch ''login'' ''logout'' act) st = st\<lparr>ds_tasks := ds_tasks st @ [(''login'', logout act)]\<rparr>"
  by (simp_all add: happen_def dva_dispatch_def app_login login_lookup)

lemma change_status:
  assumes "ds_store st ''login'' = Some x" and "js_get n ''status'' = Some v"
  shows "dva_dispatch (dva_app jp) ''login'' ''changeLoginStatus'' (js_obj [(''payload'', n)]) st
    = Some (st\<lparr>ds_store := (ds_store st)(''login'' \<mapsto> js_assign x [(''status'', v)]), ds_authority := ''admin''\<rparr>)"
  using assms(2) by (simp add: dva_dispatch_def app_login login_lookup assms(1) save_fields_def js_obj_def)

lemma run_logout:
  assumes "ds_store st ''login'' = Some x"
  shows "run_eff (dva_app jp) ''login'' (logout act) st =
    (st\<lparr>ds_store := (ds_store st)(''login'' \<mapsto> js_assign x [(''status'', JBool False)]), ds_authority := '''',
        ds_current := ''NULL'', ds_shown := ds_shown st @ [Went ''/user/login'']\<rparr>, Done)"
proof -
  have n: "js_get (js_obj [(''status'', JBool False), (''currentAuthority'', JStr '''')]) ''status'' = Some (JBool False)"
    by (simp add: js_obj_def)
  show ?thesis by (simp add: logout_def change_status [OF assms n] renderAuthorize_def)
qed

lemma run_login:
  assumes "ds_store st ''login'' = Some x"
  shows "run_eff (dva_app jp) ''login'' (Put ''changeLoginStatus'' (js_obj [(''payload'',
        js_obj [(''state'', JBool True), (''currentAuthority'', JStr ''admin'')])]) (ReloadAuthorized (Push ''/home'' Done))) st =
    (st\<lparr>ds_store := (ds_store st)(''login'' \<mapsto> js_assign x [(''status'', JUndef)]), ds_authority := ''admin'',
        ds_current := ''admin'', ds_shown := ds_shown st @ [Went ''/home'']\<rparr>, Done)"
proof -
  have n: "js_get (js_obj [(''state'', JBool True), (''currentAuthority'', JStr ''admin'')]) ''status'' = Some JUndef"
    by (simp add: js_obj_def)
  show ?thesis by (simp add: change_status [OF assms n] renderAuthorize_def)
qed

lemma resume_last:
  "resume ms (length ts) r (st\<lparr>ds_tasks := ts @ [(ns, e)]\<rparr>) =
     (case run_eff ms ns (case e of Call s a k \<Rightarrow> k r | _ \<Rightarrow> e) (st\<lparr>ds_tasks := ts @ [(ns, e)]\<rparr>) of
        (st', e') \<Rightarrow> st'\<lparr>ds_tasks := (ds_tasks st')[length ts := (ns, e')]\<rparr>)"
  by (simp add: resume_def)

definition login_events :: "js \<Rightarrow> js \<Rightarrow> dash \<Rightarrow> event list" where
  "login_events p r st = [Dispatch ''login'' ''login'' (JObj [(''payload'', p)]), Resume (length (ds_tasks st)) r]"

text \<open>
  Signing in and out. When the server answers a login with data, whatever the role of the user, the
  session is that of \<open>admin\<close>, the pages are open and the recorded login status is undefined (the effect
  sends \<open>state\<close>, the reducer reads \<open>status\<close>); without data nothing of the session changes and the failure
  is shown. After a logout the session is empty and every page but the login is closed.
\<close>

theorem login_session:
  assumes x: "ds_store st ''login'' = Some x" and d: "js_get r ''data'' = Some d"
  shows "let st1 = happenings (dva_app jp) (login_events p r st) st;
             st2 = happenings (dva_app jp) [Dispatch ''login'' ''logout'' a, Resume (length (ds_tasks st1)) q] st1
     in (if js_true d
         then signed_in st1 \<and> ds_authority st1 = ''admin''
           \<and> (\<exists>y. ds_store st1 ''login'' = Some y \<and> js_get y ''status'' = Some JUndef)
         else ds_current st1 = ds_current st \<and> ds_authority st1 = ds_authority st \<and> ds_store st1 = ds_store st
           \<and> ds_shown st1 = ds_shown st @ [Message LoginFailed])
        \<and> \<not> signed_in st2 \<and> ds_authority st2 = ''''"
proof -
  let ?ms = "dva_app jp"
  let ?ok = "Put ''changeLoginStatus'' (js_obj [(''payload'',
        js_obj [(''state'', JBool True), (''currentAuthority'', JStr ''admin'')])]) (ReloadAuthorized (Push ''/home'' Done))"
  let ?st0 = "st\<lparr>ds_tasks := ds_tasks st @ [(''login'', login (JObj [(''payload'', p)]))]\<rparr>"
  define ok where "ok = ?ok"
  note run_ok = run_login [folded ok_def]
  obtain k where k: "login (JObj [(''payload'', p)]) = Call ''queryLogin'' p k"
    "k r = (if js_true d then ok else Notify LoginFailed Done)"
    using d by (simp add: login_def ok_def)
  have x0: "ds_store ?st0 ''login'' = Some x" using x by simp
  define st1 where "st1 = happenings ?ms (login_events p r st) st"
  have st1: "st1 = (case run_eff ?ms ''login'' (k r) ?st0 of
      (st', e') \<Rightarrow> st'\<lparr>ds_tasks := (ds_tasks st')[length (ds_tasks st) := (''login'', e')]\<rparr>)"
    by (simp add: st1_def happenings_def login_events_def login_dispatch happen_resume resume_last k(1))
  have x1: "\<exists>y. ds_store st1 ''login'' = Some y" using x
    by (simp add: st1 k(2) run_ok [OF x0])
  then obtain y where y: "ds_store st1 ''login'' = Some y" by blast
  define st2 where "st2 = happenings ?ms [Dispatch ''login'' ''logout'' a, Resume (length (ds_tasks st1)) q] st1"
  let ?st1 = "st1\<lparr>ds_tasks := ds_tasks st1 @ [(''login'', logout a)]\<rparr>"
  have y0: "ds_store ?st1 ''login'' = Some y" using y by simp
  have lo: "(case logout a of Call s b k \<Rightarrow> k q | _ \<Rightarrow> logout a) = logout a" by (simp add: logout_def)
  have st2: "st2 = (case run_eff ?ms ''login'' (logout a) ?st1 of
      (st', e') \<Rightarrow> st'\<lparr>ds_tasks := (ds_tasks st')[length (ds_tasks st1) := (''login'', e')]\<rparr>)"
    by (simp add: st2_def happenings_def login_dispatch happen_resume resume_last lo)
  have out: "\<not> signed_in st2 \<and> ds_authority st2 = ''''"
    by (simp add: st2 run_logout [OF y0] signed_in_def root_route_def)
  have inn: "if js_true d
         then signed_in st1 \<and> ds_authority st1 = ''admin''
           \<and> (\<exists>y. ds_store st1 ''login'' = Some y \<and> js_get y ''status'' = Some JUndef)
         else ds_current st1 = ds_current st \<and> ds_authority st1 = ds_authority st \<and> ds_store st1 = ds_store st
           \<and> ds_shown st1 = ds_shown st @ [Message LoginFailed]"
    by (simp add: st1 k(2) run_ok [OF x0] signed_in_def root_route_def js_get_assign)
  show ?thesis using inn out unfolding st1_def [symmetric] Let_def st2_def [symmetric] by blast
qed

lemma login_session_witness:
  "let st1 = happenings (dva_app Some) (login_events JNull (JObj [(''data'', JObj [])]) (dash_init (dva_app Some))) (dash_init (dva_app Some))
   in ds_authority st1 = ''admin''"
proof -
  have x: "ds_store (dash_init (dva_app Some)) ''login'' = Some (dm_state login_model)"
    by (simp add: dash_init_def app_login)
  have d: "js_get (JObj [(''data'', JObj [])]) ''data'' = Some (JObj [])" by simp
  show ?thesis using login_session [OF x d, of Some JNull JNull JNull] by (simp add: Let_def)
qed

subsection \<open>An expired session\<close>

lemma run_eff_store:
  "eff_wp ms I R ns e (ds_store st) \<Longrightarrow> I (ds_store (fst (run_eff ms ns e st)))"
proof (induction e arbitrary: st)
  case (Put ty act e)
  then show ?case
    by (auto simp: dva_dispatch_def Let_def split: option.splits)
qed simp_all

lemma page_after_failure:
  assumes m: "dashboard jp ns = Some m" and e: "map_of (dm_effects m) ty = Some e" and r: "bad_answer r"
  shows "eff_wp (dva_app jp) (\<lambda>s. s = s0) bad_answer ns (case e act of Call v a k \<Rightarrow> k r | _ \<Rightarrow> e act) s0"
proof -
  have "eff_wp (dva_app jp) (\<lambda>s. s = s0) bad_answer ns (e act) s0"
    using quiet_model [OF m e] eff_wp_reload [where ms = "dva_app jp" and ns = ns and m = m and I = "\<lambda>s. s = s0" and s = s0]
      app_page [OF m] by (auto simp: quiet_entry_def)
  then show ?thesis using r by (auto split: eff.splits)
qed

text \<open>
  What a failed request does. The answer is one the pages act on only if the status is 2xx and the
  body carries code 200. On every other outcome the waiting effect of a page leaves the store as it
  is, and a 401 queues the logout that closes the pages.
\<close>

theorem failed_request:
  assumes m: "dashboard jp ns = Some m" and e: "map_of (dm_effects m) ty = Some e"
    and t: "i < length (ds_tasks st)" "ds_tasks st ! i = (ns, e act)"
    and out: "\<not> (\<exists>s b. out = Response s b \<and> checkStatus s \<and> js_get b ''code'' = Some (JNum 200))"
  shows "ds_store (happenings (dva_app jp) (answer_events i out) st) = ds_store st
     \<and> (\<forall>b. out = Response 401 b \<longrightarrow>
          (''login'', logout (JObj [])) \<in> set (ds_tasks (happenings (dva_app jp) (answer_events i out) st)))"
proof -
  have bad: "bad_answer (fst (request out))"
    using out by (auto simp: request_def bad_answer_def answer_ok_def split: http_outcome.splits)
  have res: "ds_store (resume (dva_app jp) i (fst (request out)) st') = ds_store st'"
    if "i < length (ds_tasks st')" "ds_tasks st' ! i = (ns, e act)" for st'
    using run_eff_store [OF page_after_failure [OF m e bad, of "ds_store st'" act]] that
    by (auto simp: resume_def split: prod.splits)
  let ?st' = "st\<lparr>ds_tasks := ds_tasks st @ [(''login'', logout (JObj []))]\<rparr>"
  have t': "i < length (ds_tasks ?st')" "ds_tasks ?st' ! i = (ns, e act)" using t by (simp_all add: nth_append)
  have kept: "(''login'', logout (JObj [])) \<in> set (ds_tasks (resume (dva_app jp) i r ?st'))" for r
  proof -
    let ?f = "case e act of Call s a k \<Rightarrow> k r | _ \<Rightarrow> e act"
    obtain new where "ds_tasks (fst (run_eff (dva_app jp) ns ?f ?st')) = ds_tasks ?st' @ new"
      using run_eff_tasks by blast
    then show ?thesis using t t' by (auto simp: resume_def list_update_append nth_append split: prod.splits)
  qed
  show ?thesis
  proof (cases "\<exists>b. out = Response 401 b")
    case True
    then have "answer_events i out = [Dispatch ''login'' ''logout'' (JObj []), Resume i (fst (request out))]"
      by (auto simp: answer_events_def request_def checkStatus_def error_reaction_def)
    then have h: "happenings (dva_app jp) (answer_events i out) st = resume (dva_app jp) i (fst (request out)) ?st'"
      by (simp add: happenings_def login_dispatch happen_resume)
    show ?thesis unfolding h using res [OF t'] kept by simp
  next
    case False
    show ?thesis
    proof (cases "snd (request out) = LogOut")
      case True
      then have "answer_events i out = [Dispatch ''login'' ''logout'' (JObj []), Resume i (fst (request out))]"
        by (auto simp: answer_events_def split: prod.splits reaction.splits)
      then have h: "happenings (dva_app jp) (answer_events i out) st = resume (dva_app jp) i (fst (request out)) ?st'"
      by (simp add: happenings_def login_dispatch happen_resume)
    show ?thesis unfolding h using res [OF t'] kept by simp
    next
      case no: False
      then have "answer_events i out = [Resume i (fst (request out))]"
        by (auto simp: answer_events_def split: prod.splits reaction.splits)
      then show ?thesis using res [OF t] False by (simp add: happenings_def happen_resume)
    qed
  qed
qed

lemma failed_request_witness:
  "ds_store (happenings (dva_app Some) (answer_events 0 (Response 401 JNull))
      ((dash_init (dva_app Some))\<lparr>ds_tasks := [(''divide'', fetchRule (JObj []))]\<rparr>))
    = ds_store (dash_init (dva_app Some))"
proof -
  have e: "map_of (dm_effects view_model) ''fetchRule'' = Some fetchRule" by (simp add: view_model_def view_effects_def)
  let ?st = "(dash_init (dva_app Some))\<lparr>ds_tasks := [(''divide'', fetchRule (JObj []))]\<rparr>"
  show ?thesis
    using failed_request [OF divide_view [of Some] e, of 0 ?st "JObj []" "Response 401 JNull"] by (simp add: checkStatus_def)
qed

subsection \<open>Menu and routes\<close>

text \<open>The paths written in the menu.\<close>

definition menu_words :: "string list" where
  "menu_words = [''plug'', ''system'', ''rewrite'', ''divide'', ''springCloud'', ''hystrix'', ''manage'', ''plugin'',
     ''auth'', ''metadata'', ''dict'']"

text \<open>
  C0: Every menu entry leads to a page and every page finds its models. When no path written in the
  menu is a full url, every leaf of the formatted menu is a path of the table of routes, and each
  model a route registers is a model of the application.
\<close>

theorem menu_routes_exist:
  assumes "list_all (\<lambda>p. \<not> isUrl p) menu_words"
  shows "list_all (\<lambda>p. map_of routerConfig p \<noteq> None) (concat (map menu_leaves (getMenuData isUrl)))
     \<and> list_all (\<lambda>(p, ms). list_all (\<lambda>ns. dva_app jp ns \<noteq> None) ms) routerConfig"
proof
  show "list_all (\<lambda>p. map_of routerConfig p \<noteq> None) (concat (map menu_leaves (getMenuData isUrl)))"
    using assms by (simp add: getMenuData_def menuData_def routerConfig_def menu_words_def)
  show "list_all (\<lambda>(p, ms). list_all (\<lambda>ns. dva_app jp ns \<noteq> None) ms) routerConfig"
    by (simp add: routerConfig_def dva_app_def dashboard_def map_add_def)
qed

lemma menu_routes_exist_witness:
  "list_all (\<lambda>p. map_of routerConfig p \<noteq> None) (concat (map menu_leaves (getMenuData (\<lambda>p. p = ''http://''))))"
proof -
  have "list_all (\<lambda>p. \<not> p = ''http://'') menu_words" by (simp add: menu_words_def)
  from menu_routes_exist [OF this, of Some] show ?thesis by blast
qed

end
