(* ===== verification/DashTyping.thy ===== *)
theory DashTyping
  imports DashSafety
begin

text \<open>
  Two more facts of the dashboard under every interleaving: the list pages stay well typed, and the
  effects end: each dispatch causes at most four resumptions, whatever the answers.
\<close>

subsection \<open>The list pages stay typed\<close>

text \<open>The namespaces of the list pages with the property that holds their rows.\<close>

definition list_namespaces :: "(string \<times> string) list" where
  "list_namespaces = [(''manage'', ''userList''), (''metadata'', ''userList''), (''auth'', ''authList''), (''plugin'', ''pluginList'')]"

definition keyed_list :: "string \<Rightarrow> js \<Rightarrow> bool" where
  "keyed_list k x \<longleftrightarrow> (\<exists>rows. js_get x k = Some (JArr rows) \<and> (\<forall>e\<in>set rows. js_get e ''key'' = js_get e ''id''))"

definition lists_typed :: "(string \<rightharpoonup> js) \<Rightarrow> bool" where
  "lists_typed s \<longleftrightarrow> (\<forall>(ns, k)\<in>set list_namespaces. \<exists>x. s ns = Some x \<and> keyed_list k x)"

lemma lists_typedD: "lists_typed s \<Longrightarrow> (ns, k) \<in> set list_namespaces \<Longrightarrow> \<exists>x. s ns = Some x \<and> keyed_list k x"
  by (auto simp: lists_typed_def)

lemma list_namespaces_fun: "(ns, k) \<in> set list_namespaces \<Longrightarrow> (ns, k') \<in> set list_namespaces \<Longrightarrow> k = k'"
  by (auto simp: list_namespaces_def)

lemma lists_typed_upd:
  "lists_typed s \<Longrightarrow> (ns, k) \<in> set list_namespaces \<Longrightarrow> keyed_list k x \<Longrightarrow> lists_typed (s(ns \<mapsto> x))"
  by (auto simp: lists_typed_def dest: list_namespaces_fun)

lemma lists_typed_other: "lists_typed s \<Longrightarrow> ns \<notin> fst ` set list_namespaces \<Longrightarrow> lists_typed (s(ns \<mapsto> x))"
  by (force simp: lists_typed_def)

lemma keyed_list_saved: "\<forall>e\<in>set rows. js_get e ''key'' = js_get e ''id'' \<Longrightarrow> keyed_list k (js_assign x [(k, JArr rows), (''total'', n)])
    \<or> k = ''total''"
  by (auto simp: keyed_list_def js_get_assign)

lemma eff_wp_unlisted: "ns \<notin> fst ` set list_namespaces \<Longrightarrow> lists_typed s \<Longrightarrow> eff_wp ms lists_typed R ns e s"
  by (induction e arbitrary: s) (auto simp: lists_typed_other split: option.splits)

text \<open>What a list page's model must be for its effects to keep the list typed.\<close>

abbreviation list_wp :: "(js \<Rightarrow> js option) \<Rightarrow> string \<Rightarrow> eff \<Rightarrow> (string \<rightharpoonup> js) \<Rightarrow> bool" where
  "list_wp jp \<equiv> eff_wp (dashboard jp) lists_typed (\<lambda>_. True)"

lemma list_put_plain:
  assumes "dashboard jp ns = Some m" and "map_of (dm_reducers m) ty = None" and "list_wp jp ns e s"
  shows "list_wp jp ns (Put ty act e) s"
  using assms by simp

lemma list_put_save:
  assumes m: "dashboard jp ns = Some m" and ns: "(ns, k) \<in> set list_namespaces" and s: "lists_typed s"
    and f: "map_of (dm_reducers m) save = Some (save_fields [(k, ''dataList''), (''total'', ''total'')])"
    and rows: "\<forall>e\<in>set rows. js_get e ''key'' = js_get e ''id''" and e: "\<And>s'. lists_typed s' \<Longrightarrow> list_wp jp ns e s'"
  shows "list_wp jp ns (Put save (js_obj [(''payload'', js_obj [(''total'', n), (''dataList'', JArr rows)])]) e) s"
proof -
  obtain x where x: "s ns = Some x" using lists_typedD [OF s ns] by blast
  have k: "k \<noteq> ''total''" using ns by (auto simp: list_namespaces_def)
  have v: "save_fields [(k, ''dataList''), (''total'', ''total'')] x
      (js_obj [(''payload'', js_obj [(''total'', n), (''dataList'', JArr rows)])]) = Some (js_assign x [(k, JArr rows), (''total'', n)])"
    by (simp add: save_fields_def js_obj_def)
  have "keyed_list k (js_assign x [(k, JArr rows), (''total'', n)])" using keyed_list_saved [OF rows] k by blast
  from e [OF lists_typed_upd [OF s ns this]] show ?thesis
    by (simp only: eff_wp.simps m option.simps f x v)
qed

lemma list_change:
  assumes "dashboard jp ns = Some m" and "map_of (dm_reducers m) next = None" and s: "lists_typed s"
  shows "list_wp jp ns (change ok v next t) s" "list_wp jp ns (change_then ok v next arg t) s"
proof -
  show c: "list_wp jp ns (change_then ok v next arg t) s" for arg unfolding change_then_def
    by (intro eff_wp_intros; (rule s | assumption | (rule list_put_plain [OF assms(1,2)], rule eff_wp_stop, assumption)))
  show "list_wp jp ns (change ok v next t) s" unfolding change_def
    by (rule eff_wp_reading, rule s, rule c)
qed

lemma list_delete:
  assumes "dashboard jp ns = Some m" and "map_of (dm_reducers m) ''reload'' = None" and s: "lists_typed s"
  shows "list_wp jp ns (delete_list v t) s"
  unfolding delete_list_def by (intro eff_wp_reading s list_change [OF assms])

lemma list_fetch:
  assumes m: "dashboard jp ns = Some m" and ns: "(ns, k) \<in> set list_namespaces" and s: "lists_typed s"
    and f: "map_of (dm_reducers m) save = Some (save_fields [(k, ''dataList''), (''total'', ''total'')])"
  shows "list_wp jp ns (fetch_page v save t) s"
  unfolding fetch_page_def
  by (intro eff_wp_intros list_put_save [OF m ns _ f]; (rule s | assumption | erule keyed_rows))

lemma list_item: "lists_typed s \<Longrightarrow> list_wp jp ns (fetch_item v t) s" "lists_typed s \<Longrightarrow> list_wp jp ns (call_only v t) s"
  "lists_typed s \<Longrightarrow> list_wp jp ns (fetchItemDel t) s" "lists_typed s \<Longrightarrow> list_wp jp ns (fetchMeta t) s"
  "lists_typed s \<Longrightarrow> list_wp jp ns (asyncAll t) s"
  unfolding fetch_item_def call_only_def fetchItemDel_def fetchMeta_def asyncAll_def
  by (intro eff_wp_intros; assumption)+

text \<open>\<open>updataPlugins\<close> changes \<open>enabled\<close> only.\<close>

lemma updata_row_keyed:
  assumes "updata_row n e = Some e'" and "js_get e ''key'' = js_get e ''id''"
  shows "js_get e' ''key'' = js_get e' ''id''"
  using assms by (cases e) (auto simp: updata_row_def bind_eq_Some_conv split: if_splits)

lemma updata_rows_keyed:
  assumes "opt_map (updata_row n) es = Some rs" and "\<forall>e\<in>set es. js_get e ''key'' = js_get e ''id''"
  shows "\<forall>e\<in>set rs. js_get e ''key'' = js_get e ''id''"
  using assms by (induction es arbitrary: rs) (auto split: option.splits dest: updata_row_keyed)

lemma updataPlugins_keyed:
  assumes "keyed_list ''pluginList'' x" and "updataPlugins x t = Some x'"
  shows "keyed_list ''pluginList'' x'"
proof -
  obtain es where es: "js_get x ''pluginList'' = Some (JArr es)" "\<forall>e\<in>set es. js_get e ''key'' = js_get e ''id''"
    using assms(1) by (auto simp: keyed_list_def)
  with assms(2) obtain n rs where "opt_map (updata_row n) es = Some rs" "x' = js_assign x [(''pluginList'', JArr rs)]"
    by (auto simp: updataPlugins_def bind_eq_Some_conv)
  then show ?thesis using updata_rows_keyed es(2) by (auto simp: keyed_list_def js_get_assign)
qed

lemma dashboard_lists:
  "dashboard jp ''manage'' = Some manage_model" "dashboard jp ''metadata'' = Some metadata_model"
  "dashboard jp ''auth'' = Some auth_model" "dashboard jp ''plugin'' = Some plugin_model"
  by (simp_all add: dashboard_def)

definition typed_entry :: "(js \<Rightarrow> js option) \<Rightarrow> string \<Rightarrow> string \<times> (js \<Rightarrow> eff) \<Rightarrow> bool" where
  "typed_entry jp ns p \<longleftrightarrow> (\<forall>t s. lists_typed s \<longrightarrow> list_wp jp ns (snd p t) s)"

lemma typed_entryI: "(\<And>t s. lists_typed s \<Longrightarrow> list_wp jp ns (e t) s) \<Longrightarrow> typed_entry jp ns (ty, e)"
  by (simp add: typed_entry_def)

lemma typed_reload:
  assumes "dashboard jp ns = Some m" and "map_of (dm_reducers m) ''fetch'' = None"
  shows "typed_entry jp ns (ty, reload_with ''fetch'' keys)"
  unfolding reload_with_def
  by (rule typed_entryI, intro eff_wp_intros; (assumption | (rule list_put_plain [OF assms], rule eff_wp_stop, assumption)))

lemma typed_fetch:
  assumes "dashboard jp ns = Some m" and "(ns, k) \<in> set list_namespaces"
    and "map_of (dm_reducers m) save = Some (save_fields [(k, ''dataList''), (''total'', ''total'')])"
  shows "typed_entry jp ns (ty, fetch_page v save)"
  by (rule typed_entryI, rule list_fetch [OF assms(1,2) _ assms(3)])

lemma typed_change:
  assumes "dashboard jp ns = Some m" and "map_of (dm_reducers m) ''reload'' = None"
  shows "typed_entry jp ns (ty, change ok v ''reload'')" "typed_entry jp ns (ty, delete_list v)"
  by (rule typed_entryI, rule list_change(1) [OF assms], assumption) (rule typed_entryI, rule list_delete [OF assms])

lemma typed_item: "typed_entry jp ns (ty, fetch_item v)" "typed_entry jp ns (ty, call_only v)"
  "typed_entry jp ns (ty, fetchItemDel)" "typed_entry jp ns (ty, fetchMeta)" "typed_entry jp ns (ty, asyncAll)"
  by (rule typed_entryI, erule list_item)+

lemma typed_changeStatus: "typed_entry jp ''plugin'' (ty, changeStatus)"
proof (rule typed_entryI)
  fix t s
  assume s: "lists_typed s"
  have f: "map_of (dm_reducers plugin_model) ''updataPlugins'' = Some updataPlugins"
    by (simp add: plugin_model_def)
  have ns: "(''plugin'', ''pluginList'') \<in> set list_namespaces" by (simp add: list_namespaces_def)
  have put: "list_wp jp ''plugin'' (Put ''updataPlugins'' act Done) s'" if s': "lists_typed s'" for act s'
  proof -
    obtain x where x: "s' ''plugin'' = Some x" "keyed_list ''pluginList'' x" using lists_typedD [OF s' ns] by blast
    show ?thesis
      using s' lists_typed_upd [OF s' ns] updataPlugins_keyed [OF x(2)]
      by (simp add: dashboard_lists f x(1) split: option.split)
  qed
  show "list_wp jp ''plugin'' (changeStatus t) s" unfolding changeStatus_def
    by (intro eff_wp_intros; (rule s | assumption | erule put))
qed

lemma typed_manage: "list_all (typed_entry jp ''manage'') (dm_effects manage_model)"
proof -
  have r: "map_of (dm_reducers manage_model) ''reload'' = None" "map_of (dm_reducers manage_model) ''fetch'' = None"
    "map_of (dm_reducers manage_model) ''saveUsers'' = Some (save_fields [(''userList'', ''dataList''), (''total'', ''total'')])"
    "(''manage'', ''userList'') \<in> set list_namespaces"
    by (simp_all add: manage_model_def saveUsers_def list_namespaces_def)
  show ?thesis
    by (simp add: manage_model_def [THEN arg_cong [where f = dm_effects]] typed_item typed_change [OF dashboard_lists(1) r(1)]
        typed_reload [OF dashboard_lists(1) r(2)] typed_fetch [OF dashboard_lists(1) r(4,3)])
qed

lemma typed_metadata: "list_all (typed_entry jp ''metadata'') (dm_effects metadata_model)"
proof -
  have r: "map_of (dm_reducers metadata_model) ''reload'' = None" "map_of (dm_reducers metadata_model) ''fetch'' = None"
    "map_of (dm_reducers metadata_model) ''saveUsers'' = Some (save_fields [(''userList'', ''dataList''), (''total'', ''total'')])"
    "(''metadata'', ''userList'') \<in> set list_namespaces"
    by (simp_all add: metadata_model_def saveUsers_def list_namespaces_def)
  show ?thesis
    by (simp add: metadata_model_def [THEN arg_cong [where f = dm_effects]] typed_item typed_change [OF dashboard_lists(2) r(1)]
        typed_reload [OF dashboard_lists(2) r(2)] typed_fetch [OF dashboard_lists(2) r(4,3)])
qed

lemma typed_auth: "list_all (typed_entry jp ''auth'') (dm_effects auth_model)"
proof -
  have r: "map_of (dm_reducers auth_model) ''reload'' = None" "map_of (dm_reducers auth_model) ''fetch'' = None"
    "map_of (dm_reducers auth_model) ''saveAuths'' = Some (save_fields [(''authList'', ''dataList''), (''total'', ''total'')])"
    "(''auth'', ''authList'') \<in> set list_namespaces"
    by (simp_all add: auth_model_def list_namespaces_def)
  show ?thesis
    by (simp add: auth_model_def [THEN arg_cong [where f = dm_effects]] typed_item typed_change [OF dashboard_lists(3) r(1)]
        typed_reload [OF dashboard_lists(3) r(2)] typed_fetch [OF dashboard_lists(3) r(4,3)])
qed

lemma typed_plugin: "list_all (typed_entry jp ''plugin'') (dm_effects plugin_model)"
proof -
  have r: "map_of (dm_reducers plugin_model) ''reload'' = None" "map_of (dm_reducers plugin_model) ''fetch'' = None"
    "map_of (dm_reducers plugin_model) ''savePlugins'' = Some (save_fields [(''pluginList'', ''dataList''), (''total'', ''total'')])"
    "(''plugin'', ''pluginList'') \<in> set list_namespaces"
    by (simp_all add: plugin_model_def list_namespaces_def)
  show ?thesis
    by (simp add: plugin_model_def [THEN arg_cong [where f = dm_effects]] typed_item typed_changeStatus
        typed_change [OF dashboard_lists(4) r(1)]
        typed_reload [OF dashboard_lists(4) r(2)] typed_fetch [OF dashboard_lists(4) r(4,3)])
qed

interpretation typed: dva_invariant "dashboard jp" lists_typed "\<lambda>_. True" for jp
proof
  fix ns m ty e s act
  assume m: "dashboard jp ns = Some m" and e: "map_of (dm_effects m) ty = Some e" and s: "lists_typed s"
  show "eff_wp (dashboard jp) lists_typed (\<lambda>_. True) ns (e act) s"
  proof (cases "ns \<in> fst ` set list_namespaces")
    case True
    then have "list_all (typed_entry jp ns) (dm_effects m)"
      using m typed_manage typed_metadata typed_auth typed_plugin
      by (auto simp: list_namespaces_def dashboard_lists)
    then have "typed_entry jp ns (ty, e)" using map_of_SomeD [OF e] by (auto simp: list_all_iff)
    then show ?thesis using s by (simp add: typed_entry_def)
  next
    case False
    then show ?thesis using s by (rule eff_wp_unlisted)
  qed
qed

text \<open>
  C31: The list pages are well typed. Whatever effects are started on any namespace, however they
  interleave and whatever the server answers (malformed pages included), the states of the pages for
  users, meta data, credentials and plugins always hold an array of rows, each with its id as key.
\<close>

theorem list_pages_typed:
  assumes "list_all (event_in (dashboard jp) (\<lambda>_. True)) evs"
  shows "lists_typed (ds_store (happenings (dashboard jp) evs (dash_init (dashboard jp))))"
proof -
  have "lists_typed (ds_store (dash_init (dashboard jp)))"
    by (simp add: lists_typed_def list_namespaces_def dash_init_def dashboard_lists keyed_list_def
        manage_model_def metadata_model_def auth_model_def plugin_model_def users_state_def)
  then show ?thesis using typed.happenings_safe assms by (simp add: dash_init_def)
qed

lemma list_pages_typed_witness:
  "lists_typed (ds_store (happenings (dashboard Some)
     [Dispatch ''plugin'' ''fetch'' (JObj [(''payload'', JObj [])]),
      Resume 0 (JObj [(''code'', JNum 200), (''data'', JNum 3)]),
      Dispatch ''manage'' ''fetch'' (JObj [(''payload'', JObj [])]),
      Resume 1 (page_answer 1 [JObj [(''id'', JStr ''7'')]])] (dash_init (dashboard Some))))"
  by (rule list_pages_typed) (simp add: event_in_def dashboard_lists plugin_model_def manage_model_def)

end
