(* ===== verification/DashEnding.thy ===== *)
theory DashEnding
  imports DashTyping
begin

text \<open>
  The effects of the dashboard end: an effect makes at most one call, and what it puts starts effects of
  smaller weight. The argument is made once in a locale over the weights of action types and then
  interpreted on the models.
\<close>

text \<open>\<open>spend\<close>: the effect runs to its end without a call, starting effects of total weight at most \<open>n\<close>.\<close>

definition started_weight :: "dva_models \<Rightarrow> (string \<Rightarrow> nat) \<Rightarrow> string \<Rightarrow> string \<Rightarrow> nat" where
  "started_weight ms W ns ty =
     (case ms ns of None \<Rightarrow> 0 | Some m \<Rightarrow> (case map_of (dm_effects m) ty of None \<Rightarrow> 0 | Some e \<Rightarrow> W ty))"

primrec spend :: "dva_models \<Rightarrow> (string \<Rightarrow> nat) \<Rightarrow> string \<Rightarrow> eff \<Rightarrow> nat \<Rightarrow> bool" where
  "spend ms W ns Done n = True"
| "spend ms W ns Throw n = True"
| "spend ms W ns (Call s a k) n = False"
| "spend ms W ns (Put ty act e) n =
     (started_weight ms W ns ty \<le> n \<and> spend ms W ns e (n - started_weight ms W ns ty))"
| "spend ms W ns (Notify x e) n = spend ms W ns e n"
| "spend ms W ns (Callback v e) n = spend ms W ns e n"
| "spend ms W ns (Push p e) n = spend ms W ns e n"
| "spend ms W ns (SetAuthority a e) n = spend ms W ns e n"
| "spend ms W ns (ReloadAuthorized e) n = spend ms W ns e n"

definition resumed :: "eff \<Rightarrow> js \<Rightarrow> eff" where
  "resumed e r = (case e of Call s a k \<Rightarrow> k r | _ \<Rightarrow> e)"

text \<open>\<open>affords\<close>: with \<open>n\<close> resumptions in hand, one for itself, the task and all it starts can end.\<close>

definition affords :: "dva_models \<Rightarrow> (string \<Rightarrow> nat) \<Rightarrow> nat \<Rightarrow> string \<times> eff \<Rightarrow> bool" where
  "affords ms W n t \<longleftrightarrow> snd t = Done \<or> (1 \<le> n \<and> (\<forall>r. spend ms W (fst t) (resumed (snd t) r) (n - 1)))"

text \<open>The resumptions of a schedule that find their task unfinished.\<close>

fun productive :: "dva_models \<Rightarrow> event list \<Rightarrow> dash \<Rightarrow> nat" where
  "productive ms [] st = 0"
| "productive ms (ev # evs) st =
     (case ev of
        Dispatch ns ty act \<Rightarrow> 0
      | Resume i r \<Rightarrow> if i < length (ds_tasks st) \<and> snd (ds_tasks st ! i) \<noteq> Done then 1 else 0)
     + productive ms evs (happen ms ev st)"

fun dispatches :: "event list \<Rightarrow> nat" where
  "dispatches [] = 0"
| "dispatches (Dispatch ns ty act # evs) = 1 + dispatches evs"
| "dispatches (Resume i r # evs) = dispatches evs"

locale dva_bounded =
  fixes ms :: dva_models and W :: "string \<Rightarrow> nat" and B :: nat
  assumes bound: "W ty \<le> B"
    and fresh: "ms ns = Some m \<Longrightarrow> map_of (dm_effects m) ty = Some e \<Longrightarrow> affords ms W (W ty) (ns, e act)"
begin

lemma dispatch_affords:
  assumes "dva_dispatch ms ns ty act st = Some st'"
  shows "\<exists>new ws. ds_tasks st' = ds_tasks st @ new \<and> list_all2 (affords ms W) ws new
     \<and> sum_list ws = started_weight ms W ns ty"
proof -
  consider (same) "ds_tasks st' = ds_tasks st" "started_weight ms W ns ty = 0"
    | (more) m e where "ms ns = Some m" "map_of (dm_effects m) ty = Some e" "ds_tasks st' = ds_tasks st @ [(ns, e act)]"
  proof (cases "ms ns")
    case None
    with assms show ?thesis by (intro same) (simp_all add: dva_dispatch_def started_weight_def)
  next
    case m: (Some m)
    show ?thesis
    proof (cases "map_of (dm_effects m) ty")
      case None
      with assms m show ?thesis
        by (intro same) (auto simp: dva_dispatch_def started_weight_def Let_def split: option.splits)
    next
      case (Some e)
      with assms m show ?thesis
        by (intro more [OF m Some]) (auto simp: dva_dispatch_def Let_def split: option.splits)
    qed
  qed
  then show ?thesis
  proof cases
    case same
    then show ?thesis by (intro exI [of _ "[]"]) simp
  next
    case more
    then show ?thesis using fresh [OF more(1,2)]
      by (intro exI [of _ "[(ns, e act)]"] exI [of _ "[W ty]"]) (simp add: started_weight_def)
  qed
qed

lemma run_eff_affords:
  "spend ms W ns e n \<Longrightarrow> snd (run_eff ms ns e st) = Done
     \<and> (\<exists>new ws. ds_tasks (fst (run_eff ms ns e st)) = ds_tasks st @ new \<and> list_all2 (affords ms W) ws new \<and> sum_list ws \<le> n)"
proof (induction e arbitrary: st n)
  case (Put ty act e)
  show ?case
  proof (cases "dva_dispatch ms ns ty act st")
    case None
    then show ?thesis by (simp add: exI [of _ "[]"])
  next
    case (Some st')
    let ?w = "started_weight ms W ns ty"
    obtain new ws where n: "ds_tasks st' = ds_tasks st @ new" "list_all2 (affords ms W) ws new" "sum_list ws = ?w"
      using dispatch_affords [OF Some] by blast
    have sp: "spend ms W ns e (n - ?w)" and le: "?w \<le> n" using Put.prems by simp_all
    from Put.IH [OF sp, of st'] obtain new' ws' where
      r: "snd (run_eff ms ns e st') = Done" "ds_tasks (fst (run_eff ms ns e st')) = ds_tasks st' @ new'"
        "list_all2 (affords ms W) ws' new'" "sum_list ws' \<le> n - ?w" by blast
    have "list_all2 (affords ms W) (ws @ ws') (new @ new')" using n(2) r(3) by (rule list_all2_appendI)
    moreover have "sum_list (ws @ ws') \<le> n" using n(3) r(4) le by simp
    ultimately show ?thesis using Some r(1,2) n(1) by auto
  qed
next
  case (Notify x e)
  from this(1) [of n "st\<lparr>ds_shown := ds_shown st @ [Message x]\<rparr>"] this(2) show ?case by simp
next
  case (Callback v e)
  from this(1) [of n "st\<lparr>ds_shown := ds_shown st @ [Called v]\<rparr>"] this(2) show ?case by simp
next
  case (Push p e)
  from this(1) [of n "st\<lparr>ds_shown := ds_shown st @ [Went p]\<rparr>"] this(2) show ?case by simp
next
  case (SetAuthority a e)
  from this(1) [of n "st\<lparr>ds_authority := a\<rparr>"] this(2) show ?case by simp
next
  case (ReloadAuthorized e)
  from this(1) [of n "st\<lparr>ds_current := renderAuthorize (ds_authority st)\<rparr>"] this(2) show ?case by simp
qed (simp_all add: exI [of _ "[]"])

lemma resume_affords:
  assumes "list_all2 (affords ms W) ws (ds_tasks st)"
  shows "\<exists>ws'. list_all2 (affords ms W) ws' (ds_tasks (resume ms i r st))
     \<and> (if i < length (ds_tasks st) \<and> snd (ds_tasks st ! i) \<noteq> Done then 1 else 0) + sum_list ws' \<le> sum_list ws"
proof (cases "i < length (ds_tasks st)")
  case True
  obtain ns e where t: "ds_tasks st ! i = (ns, e)" by (cases "ds_tasks st ! i")
  have i: "i < length ws" using True assms by (simp add: list_all2_lengthD)
  have a: "affords ms W (ws ! i) (ns, e)" using list_all2_nthD2 [OF assms True] t by simp
  show ?thesis
  proof (cases "e = Done")
    case fin: True
    have "ds_tasks (resume ms i r st) = ds_tasks st"
      using True t fin by (simp add: resume_def list_update_same_conv)
    then show ?thesis using assms t fin by (intro exI [of _ ws]) simp
  next
    case False
    then have w: "1 \<le> ws ! i" and sp: "spend ms W ns (resumed e r) (ws ! i - 1)" using a by (simp_all add: affords_def)
    obtain new vs where n: "snd (run_eff ms ns (resumed e r) st) = Done"
      "ds_tasks (fst (run_eff ms ns (resumed e r) st)) = ds_tasks st @ new" "list_all2 (affords ms W) vs new"
      "sum_list vs \<le> ws ! i - 1" using run_eff_affords [OF sp, of st] by blast
    have tasks: "ds_tasks (resume ms i r st) = (ds_tasks st)[i := (ns, Done)] @ new"
      using True t n(1,2) by (auto simp: resume_def resumed_def list_update_append split: prod.splits)
    have "list_all2 (affords ms W) (ws[i := 0]) ((ds_tasks st)[i := (ns, Done)])"
      using assms by (rule list_all2_update_cong) (simp add: affords_def)
    then have "list_all2 (affords ms W) (ws[i := 0] @ vs) (ds_tasks (resume ms i r st))"
      unfolding tasks using n(3) by (rule list_all2_appendI)
    moreover have "1 + sum_list (ws[i := 0] @ vs) \<le> sum_list ws"
    proof -
      have "ws ! i \<le> sum_list ws" using i by (simp add: elem_le_sum_list)
      then have "sum_list (ws[i := 0]) + ws ! i = sum_list ws"
        using i by (simp add: sum_list_update)
      with n(4) w show ?thesis by simp
    qed
    ultimately show ?thesis by (intro exI [of _ "ws[i := 0] @ vs"]) auto
  qed
next
  case False
  then show ?thesis using assms by (intro exI [of _ ws]) (simp add: resume_def)
qed

lemma productive_bound:
  "list_all2 (affords ms W) ws (ds_tasks st) \<Longrightarrow> productive ms evs st \<le> sum_list ws + B * dispatches evs"
proof (induction evs arbitrary: st ws)
  case (Cons ev evs)
  show ?case
  proof (cases ev)
    case (Dispatch ns ty act)
    have "\<exists>vs. list_all2 (affords ms W) vs (ds_tasks (happen ms ev st)) \<and> sum_list vs \<le> sum_list ws + B"
    proof (cases "dva_dispatch ms ns ty act st")
      case None
      with Cons.prems Dispatch show ?thesis by (intro exI [of _ ws]) (simp add: happen_def)
    next
      case (Some st')
      obtain new vs where n: "ds_tasks st' = ds_tasks st @ new" "list_all2 (affords ms W) vs new"
        "sum_list vs = started_weight ms W ns ty" using dispatch_affords [OF Some] by blast
      have "started_weight ms W ns ty \<le> B" using bound by (auto simp: started_weight_def split: option.split)
      then show ?thesis using n list_all2_appendI [OF Cons.prems n(2)] Some Dispatch
        by (intro exI [of _ "ws @ vs"]) (simp add: happen_def)
    qed
    then obtain vs where v: "list_all2 (affords ms W) vs (ds_tasks (happen ms ev st))" "sum_list vs \<le> sum_list ws + B" by blast
    show ?thesis using Cons.IH [OF v(1)] v(2) Dispatch by simp
  next
    case (Resume i r)
    obtain vs where v: "list_all2 (affords ms W) vs (ds_tasks (resume ms i r st))"
      "(if i < length (ds_tasks st) \<and> snd (ds_tasks st ! i) \<noteq> Done then 1 else 0) + sum_list vs \<le> sum_list ws"
      using resume_affords [OF Cons.prems] by blast
    have h: "happen ms ev st = resume ms i r st" using Resume by (simp add: happen_def)
    show ?thesis using Cons.IH [OF v(1)] v(2) Resume h by simp
  qed
qed simp

end

subsection \<open>The models of the pages\<close>

definition page_weight :: "string \<Rightarrow> nat" where
  "page_weight ty =
     (if ty = ''fetchRule'' \<or> ty = ''fetch'' then 1
      else if ty = ''fetchSelector'' \<or> ty = ''reloadRule'' then 2
      else if ty = ''reload'' then 3 else 4)"

lemma page_weight_pos: "1 \<le> page_weight ty" "page_weight ty \<le> 4"
  by (simp_all add: page_weight_def)

lemma spend_reading: "(\<And>v. spend ms W ns (k v) n) \<Longrightarrow> spend ms W ns (reading r k) n"
  by (cases r) simp_all

lemma spend_if_ok: "spend ms W ns a n \<Longrightarrow> spend ms W ns b n \<Longrightarrow> spend ms W ns (if_ok r a b) n"
  using if_ok_simps [of r a b] by (cases "answer_ok r") auto

lemma spend_case:
  "spend ms W ns a n \<Longrightarrow> (\<And>v. spend ms W ns (k v) n) \<Longrightarrow> spend ms W ns (case r of None \<Rightarrow> a | Some v \<Rightarrow> k v) n"
  by (cases r) simp_all

lemma spend_if: "spend ms W ns a n \<Longrightarrow> spend ms W ns b n \<Longrightarrow> spend ms W ns (if c then a else b) n"
  by simp

lemma spend_stop: "spend ms W ns Done n" "spend ms W ns Throw n"
  by simp_all

lemma spend_show: "spend ms W ns e n \<Longrightarrow> spend ms W ns (Notify x e) n" "spend ms W ns e n \<Longrightarrow> spend ms W ns (Callback v e) n"
  by simp_all

lemma resumed_reading: "(\<And>v. r = Some v \<Longrightarrow> spend ms W ns (resumed (k v) q) n) \<Longrightarrow> spend ms W ns (resumed (reading r k) q) n"
  by (cases r) (simp_all add: resumed_def)

lemma resumed_call: "spend ms W ns (k q) n \<Longrightarrow> spend ms W ns (resumed (Call v a k) q) n"
  by (simp add: resumed_def)

lemma started_le: "page_weight ty \<le> n \<Longrightarrow> started_weight ms page_weight ns ty \<le> n"
  by (simp add: started_weight_def split: option.split)

lemma spend_put_last: "page_weight ty \<le> n \<Longrightarrow> spend ms page_weight ns (Put ty act Done) n"
  using started_le by simp

lemma spend_put_plain:
  assumes "started_weight ms page_weight ns ty = 0" and "spend ms page_weight ns e n"
  shows "spend ms page_weight ns (Put ty act e) n"
  using assms by simp

lemmas spend_intros = resumed_reading resumed_call spend_reading spend_if_ok spend_case spend_if spend_show spend_stop

text \<open>The actions of the reducers start nothing.\<close>

definition save_types :: "string list" where
  "save_types = [''saveSelector'', ''saveCurrentSelector'', ''saveRule'', ''saveUsers'', ''saveAuths'', ''savePlugins'',
     ''updataPlugins'', ''savePluginHandles'', ''saveSoulDicts'', ''savePlatform'']"

definition no_save_effect :: "dva_model \<Rightarrow> bool" where
  "no_save_effect m \<longleftrightarrow> list_all (\<lambda>p. fst p \<notin> set save_types) (dm_effects m)"

lemma no_save_effects:
  "no_save_effect view_model" "no_save_effect common_model" "no_save_effect manage_model" "no_save_effect metadata_model"
  "no_save_effect auth_model" "no_save_effect plugin_model" "no_save_effect (pluginHandle_model jp)"
  "no_save_effect soulDict_model" "no_save_effect global_model"
  unfolding no_save_effect_def save_types_def model_defs by simp_all

lemma no_start:
  assumes "ty \<in> set save_types"
  shows "started_weight (dashboard jp) W ns ty = 0"
proof (cases "dashboard jp ns")
  case None
  then show ?thesis by (simp add: started_weight_def)
next
  case (Some m)
  have "no_save_effect m" using dashboard_cases [OF Some] no_save_effects by auto
  then have "map_of (dm_effects m) ty = None"
    using assms by (auto simp: no_save_effect_def list_all_iff map_of_eq_None_iff)
  then show ?thesis by (simp add: started_weight_def Some)
qed

text \<open>Each entry of a model affords its weight.\<close>

definition ends_entry :: "(js \<Rightarrow> js option) \<Rightarrow> string \<times> (js \<Rightarrow> eff) \<Rightarrow> bool" where
  "ends_entry jp p \<longleftrightarrow> (\<forall>ns t r. spend (dashboard jp) page_weight ns (resumed (snd p t) r) (page_weight (fst p) - 1))"

lemma ends_entryI:
  "(\<And>ns t r. spend (dashboard jp) page_weight ns (resumed (e t) r) (page_weight ty - 1)) \<Longrightarrow> ends_entry jp (ty, e)"
  by (simp add: ends_entry_def)

lemma spend_save:
  "ty \<in> set save_types \<Longrightarrow> spend (dashboard jp) page_weight ns e n \<Longrightarrow> spend (dashboard jp) page_weight ns (Put ty act e) n"
  by (rule spend_put_plain [OF no_start])

lemma saves: "''saveSelector'' \<in> set save_types" "''saveCurrentSelector'' \<in> set save_types" "''saveRule'' \<in> set save_types"
  "''saveUsers'' \<in> set save_types" "''saveAuths'' \<in> set save_types" "''savePlugins'' \<in> set save_types"
  "''updataPlugins'' \<in> set save_types" "''savePluginHandles'' \<in> set save_types" "''saveSoulDicts'' \<in> set save_types"
  "''savePlatform'' \<in> set save_types"
  by (simp_all add: save_types_def)

lemmas spend_saves = saves [THEN spend_save]

lemma ends_fetch_page: "save \<in> set save_types \<Longrightarrow> ends_entry jp (ty, fetch_page v save)"
  unfolding fetch_page_def
  by (rule ends_entryI, intro spend_intros spend_save)

lemma ends_items: "ends_entry jp (ty, fetch_item v)" "ends_entry jp (ty, call_only v)" "ends_entry jp (ty, fetchItemDel)"
  "ends_entry jp (ty, fetchMeta)" "ends_entry jp (ty, asyncAll)" "ends_entry jp (ty, asyncPlugin)"
  "ends_entry jp (ty, fetchByPluginId jq)" "ends_entry jp (ty, fetchByType)"
  unfolding fetch_item_def call_only_def fetchItemDel_def fetchMeta_def asyncAll_def asyncPlugin_def fetchByPluginId_def fetchByType_def
  by (rule ends_entryI, intro spend_intros)+

lemma ends_saving: "ends_entry jp (ty, fetchRule)" "ends_entry jp (ty, changeStatus)" "ends_entry jp (ty, fetchPlatform)"
  "ends_entry jp (ty, fetchPlugins)"
  unfolding fetchRule_def changeStatus_def fetchPlatform_def fetchPlugins_def
  by (rule ends_entryI, intro spend_intros spend_saves)+

lemma ends_change:
  assumes "page_weight next \<le> page_weight ty - 1"
  shows "ends_entry jp (ty, change ok v next)"
  unfolding change_def change_then_def
  by (rule ends_entryI, intro spend_intros spend_put_last assms)

lemma ends_delete: "page_weight ty = 4 \<Longrightarrow> ends_entry jp (ty, delete_list v)"
  unfolding delete_list_def change_then_def
  by (rule ends_entryI, intro spend_intros spend_put_last) (simp add: page_weight_def)

lemma ends_reload:
  assumes "page_weight target \<le> page_weight ty - 1"
  shows "ends_entry jp (ty, reload_with target keys)"
proof (rule ends_entryI)
  fix ns t r
  show "spend (dashboard jp) page_weight ns (resumed (reload_with target keys t) r) (page_weight ty - 1)"
    unfolding reload_with_def
    by (rule resumed_reading) (use started_le [OF assms] in \<open>auto simp: resumed_def split: option.split\<close>)
qed

lemma ends_selectors: "ends_entry jp (''fetchSelector'', fetchSelector)" "ends_entry jp (''deleteSelector'', deleteSelector)"
  "ends_entry jp (''deleteRule'', deleteRule)"
proof -
  show "ends_entry jp (''fetchSelector'', fetchSelector)" unfolding fetchSelector_def
    by (rule ends_entryI, intro spend_intros spend_saves spend_put_last) (simp_all add: page_weight_def)
  show "ends_entry jp (''deleteSelector'', deleteSelector)" unfolding deleteSelector_def
    by (rule ends_entryI, intro spend_intros spend_saves spend_put_last) (simp_all add: page_weight_def)
  show "ends_entry jp (''deleteRule'', deleteRule)" unfolding deleteRule_def
    by (rule ends_entryI, intro spend_intros spend_put_last) (simp add: page_weight_def)
qed

lemma page_weights: "page_weight ''fetch'' = 1" "page_weight ''fetchRule'' = 1" "page_weight ''fetchSelector'' = 2"
  "page_weight ''reloadRule'' = 2" "page_weight ''reload'' = 3" "page_weight ''delete'' = 4" "page_weight ''add'' = 4"
  "page_weight ''update'' = 4" "page_weight ''updateEn'' = 4" "page_weight ''addSelector'' = 4" "page_weight ''addRule'' = 4"
  "page_weight ''updateSelector'' = 4" "page_weight ''updateRule'' = 4" "page_weight ''updateDel'' = 4"
  by (simp_all add: page_weight_def)

lemmas ends_rules = ends_items ends_saving ends_selectors ends_change ends_delete ends_reload ends_fetch_page [OF saves(4)]
  ends_fetch_page [OF saves(5)] ends_fetch_page [OF saves(6)] ends_fetch_page [OF saves(8)] ends_fetch_page [OF saves(9)]

lemma ends_models:
  "list_all (ends_entry jp) (dm_effects view_model)" "list_all (ends_entry jp) (dm_effects common_model)"
  "list_all (ends_entry jp) (dm_effects manage_model)" "list_all (ends_entry jp) (dm_effects metadata_model)"
  "list_all (ends_entry jp) (dm_effects auth_model)" "list_all (ends_entry jp) (dm_effects plugin_model)"
  "list_all (ends_entry jp) (dm_effects (pluginHandle_model jp))" "list_all (ends_entry jp) (dm_effects soulDict_model)"
  "list_all (ends_entry jp) (dm_effects global_model)"
  unfolding model_defs by (simp_all add: ends_rules page_weights)

interpretation pages: dva_bounded "dashboard jp" page_weight 4 for jp
proof
  show "page_weight ty \<le> 4" for ty by (rule page_weight_pos)
  fix ns m ty e act
  assume m: "dashboard jp ns = Some m" and e: "map_of (dm_effects m) ty = Some e"
  have "list_all (ends_entry jp) (dm_effects m)" using dashboard_cases [OF m] ends_models by auto
  then have "ends_entry jp (ty, e)" using map_of_SomeD [OF e] by (auto simp: list_all_iff)
  then show "affords (dashboard jp) page_weight (page_weight ty) (ns, e act)"
    using page_weight_pos(1) [of ty] by (simp add: affords_def ends_entry_def)
qed

text \<open>
  C32: The effects of the pages end. In every schedule of dispatches and answers, at most four resumptions
  per dispatch find work to do, whatever the answers: no action of the pages keeps putting actions
  for ever.
\<close>

theorem effects_end:
  "productive (dashboard jp) evs (dash_init (dashboard jp)) \<le> 4 * dispatches evs"
  using pages.productive_bound [of jp "[]" "dash_init (dashboard jp)" evs] by (simp add: dash_init_def)

subsection \<open>A change is followed by the new list\<close>

lemma list_entries:
  assumes "(ns, k) \<in> set list_namespaces"
  shows "\<exists>m keys v save. dashboard jp ns = Some m \<and> dm_authority m = []
     \<and> map_of (dm_effects m) ''reload'' = Some (reload_with ''fetch'' keys) \<and> map_of (dm_reducers m) ''reload'' = None
     \<and> map_of (dm_effects m) ''fetch'' = Some (fetch_page v save) \<and> map_of (dm_reducers m) ''fetch'' = None
     \<and> map_of (dm_reducers m) save = Some (save_fields [(k, ''dataList''), (''total'', ''total'')]) \<and> map_of (dm_effects m) save = None"
proof -
  consider "ns = ''manage''" "k = ''userList''" | "ns = ''metadata''" "k = ''userList''" | "ns = ''auth''" "k = ''authList''"
    | "ns = ''plugin''" "k = ''pluginList''"
    using assms unfolding list_namespaces_def list.set insert_iff empty_iff prod.inject by blast
  then show ?thesis
  proof cases
    case 1
    show ?thesis unfolding 1 dashboard_lists
      by (intro exI [of _ manage_model] exI [of _ "[''userName'', ''currentPage'', ''pageSize'']"] exI [of _ "''getAllUsers''"]
          exI [of _ "''saveUsers''"]) (simp add: manage_model_def saveUsers_def)
  next
    case 2
    show ?thesis unfolding 2 dashboard_lists
      by (intro exI [of _ metadata_model] exI [of _ "[''appName'', ''currentPage'', ''pageSize'']"] exI [of _ "''getAllMetadata''"]
          exI [of _ "''saveUsers''"]) (simp add: metadata_model_def saveUsers_def)
  next
    case 3
    show ?thesis unfolding 3 dashboard_lists
      by (intro exI [of _ auth_model] exI [of _ "[''name'', ''currentPage'', ''pageSize'']"] exI [of _ "''getAllAuths''"]
          exI [of _ "''saveAuths''"]) (simp add: auth_model_def)
  next
    case 4
    show ?thesis unfolding 4 dashboard_lists
      by (intro exI [of _ plugin_model] exI [of _ "[''name'', ''currentPage'', ''pageSize'']"] exI [of _ "''getAllPlugins''"]
          exI [of _ "''savePlugins''"]) (simp add: plugin_model_def)
  qed
qed

lemma pick_object: "\<exists>u. pick keys (JObj fv) = Some u"
  by (induction keys) auto

lemma dispatch_effect:
  assumes "ms ns = Some m" and "map_of (dm_effects m) ty = Some e" and "map_of (dm_reducers m) ty = None"
  shows "dva_dispatch ms ns ty act st = Some (st\<lparr>ds_tasks := ds_tasks st @ [(ns, e act)]\<rparr>)"
  using assms by (simp add: dva_dispatch_def)

lemma dispatch_save:
  assumes "ms ns = Some m" and "map_of (dm_effects m) ty = None" and "map_of (dm_reducers m) ty = Some f"
    and "ds_store st ns = Some x" and "f x act = Some y" and "dm_authority m = []"
  shows "dva_dispatch ms ns ty act st = Some (st\<lparr>ds_store := (ds_store st)(ns \<mapsto> y)\<rparr>)"
  using assms by (simp add: dva_dispatch_def)

text \<open>
  A change is followed by the new list. When the server accepts a change made on one of the list pages
  and then answers the fetch that the page starts by itself with a page of rows, the page shows exactly
  those rows (with their keys) and their total, the success has been notified and all tasks are done.
\<close>

theorem change_refreshes_list:
  assumes ns: "(ns, k) \<in> set list_namespaces" and m: "dashboard jp ns = Some m"
    and e: "map_of (dm_effects m) ty = Some (change ok v ''reload'')" and f: "map_of (dm_reducers m) ty = None"
    and t: "ds_tasks st = []" and x: "ds_store st ns = Some x" and r: "answer_ok r"
    and rows: "opt_map with_key rows = Some keyed"
  shows "let st' = happenings (dashboard jp)
        [Dispatch ns ty (JObj [(''payload'', p), (''fetchValue'', JObj fv)]), Resume 0 r, Resume 1 q,
         Resume 2 (page_answer n rows)] st
     in (\<exists>y. ds_store st' ns = Some y \<and> js_get y k = Some (JArr keyed) \<and> js_get y ''total'' = Some (JNum n))
        \<and> ds_shown st' = ds_shown st @ [Message ok, Called JUndef] \<and> list_all (\<lambda>(ns, e). e = Done) (ds_tasks st')"
proof -
  let ?ms = "dashboard jp"
  from list_entries [OF ns, of jp] m obtain keys w save where
    au: "dm_authority m = []" and re: "map_of (dm_effects m) ''reload'' = Some (reload_with ''fetch'' keys)"
    "map_of (dm_reducers m) ''reload'' = None"
    and fe: "map_of (dm_effects m) ''fetch'' = Some (fetch_page w save)" "map_of (dm_reducers m) ''fetch'' = None"
    and sa: "map_of (dm_effects m) save = None"
      "map_of (dm_reducers m) save = Some (save_fields [(k, ''dataList''), (''total'', ''total'')])" by auto
  have kt: "k \<noteq> ''total''" using ns by (auto simp: list_namespaces_def)
  obtain u where u: "pick keys (JObj fv) = Some u" using pick_object by blast
  note start = dispatch_effect [where ms = ?ms and ns = ns and m = m]
  let ?ra = "js_obj [(''fetchValue'', JObj fv)]" and ?fa = "js_obj [(''payload'', js_obj u)]"
  obtain k1 where k1: "change ok v ''reload'' (JObj [(''payload'', p), (''fetchValue'', JObj fv)]) = Call v p k1"
    "k1 r = Notify ok (Callback JUndef (Put ''reload'' ?ra Done))"
    using if_ok_simps(1) [OF r] by (simp add: change_def change_then_def)
  have rl: "reload_with ''fetch'' keys ?ra = Put ''fetch'' ?fa Done" using u by (simp add: reload_with_def js_obj_def)
  obtain k2 where k2: "fetch_page w save ?fa = Call w (js_obj u) k2"
    "k2 (page_answer n rows) = Put save (js_obj [(''payload'', js_obj [(''total'', JNum n), (''dataList'', JArr keyed)])]) Done"
    using rows by (simp add: fetch_page_def js_obj_def page_answer_def if_ok_def)
  let ?y = "js_assign x [(k, JArr keyed), (''total'', JNum n)]"
  have sv: "save_fields [(k, ''dataList''), (''total'', ''total'')] x
      (js_obj [(''payload'', js_obj [(''total'', JNum n), (''dataList'', JArr keyed)])]) = Some ?y"
    by (simp add: save_fields_def js_obj_def)
  let ?st2 = "st\<lparr>ds_shown := ds_shown st @ [Message ok, Called JUndef],
      ds_tasks := [(ns, Done), (ns, reload_with ''fetch'' keys ?ra)]\<rparr>"
  let ?st3 = "st\<lparr>ds_shown := ds_shown st @ [Message ok, Called JUndef],
      ds_tasks := [(ns, Done), (ns, Done), (ns, fetch_page w save ?fa)]\<rparr>"
  have s1: "happen ?ms (Dispatch ns ty (JObj [(''payload'', p), (''fetchValue'', JObj fv)])) st
      = st\<lparr>ds_tasks := [(ns, Call v p k1)]\<rparr>"
    using start [OF m e f] t k1(1) by (simp add: happen_def)
  have s2: "resume ?ms 0 r (st\<lparr>ds_tasks := [(ns, Call v p k1)]\<rparr>) = ?st2"
    by (simp add: resume_def k1(2) start [OF m re])
  have s3: "resume ?ms 1 q ?st2 = ?st3"
    by (simp add: resume_def rl start [OF m fe])
  have s4: "resume ?ms 2 (page_answer n rows) ?st3
      = ?st3\<lparr>ds_store := (ds_store st)(ns \<mapsto> ?y), ds_tasks := [(ns, Done), (ns, Done), (ns, Done)]\<rparr>"
    by (simp add: resume_def k2 dispatch_save [where ms = ?ms and ns = ns and m = m, OF m sa(1) sa(2) _ sv au] x)
  have "happenings ?ms [Dispatch ns ty (JObj [(''payload'', p), (''fetchValue'', JObj fv)]), Resume 0 r, Resume 1 q,
         Resume 2 (page_answer n rows)] st
      = ?st3\<lparr>ds_store := (ds_store st)(ns \<mapsto> ?y), ds_tasks := [(ns, Done), (ns, Done), (ns, Done)]\<rparr>"
    unfolding happenings_def fold_simps happen_resume s1 s2 s3 s4 ..
  then show ?thesis using kt by (simp add: js_get_assign)
qed

lemma change_refreshes_list_witness:
  "\<exists>y. ds_store (happenings (dashboard Some)
        [Dispatch ''manage'' ''add'' (JObj [(''payload'', JNull), (''fetchValue'', JObj [])]),
         Resume 0 (JObj [(''code'', JNum 200)]), Resume 1 JUndef, Resume 2 (page_answer 0 [])] (dash_init (dashboard Some))) ''manage'' = Some y
     \<and> js_get y ''userList'' = Some (JArr [])"
proof -
  have e: "map_of (dm_effects manage_model) ''add'' = Some (change Added ''addUser'' ''reload'')"
    "map_of (dm_reducers manage_model) ''add'' = None"
    by (simp_all add: manage_model_def)
  have mem: "(''manage'', ''userList'') \<in> set list_namespaces" by (simp add: list_namespaces_def)
  have ok: "answer_ok (JObj [(''code'', JNum 200)])" by (simp add: answer_ok_def)
  have i: "ds_tasks (dash_init (dashboard Some)) = []" "ds_store (dash_init (dashboard Some)) ''manage'' = Some users_state"
    by (simp_all add: dash_init_def dashboard_lists manage_model_def)
  show ?thesis
    using change_refreshes_list [OF mem dashboard_lists(1) e i ok, where rows = "[]" and keyed = "[]" and p = JNull
        and fv = "[]" and q = JUndef and n = 0 and jp = Some]
    unfolding Let_def opt_map.simps by blast
qed

end
