(* ===== verification/DashServices.thy ===== *)
theory DashServices
  imports DashAuth DashEnding
begin

text \<open>
  The services of the dashboard (module \<open>H/Zg\<close>): which request each one makes, and the routes the
  admin controllers map.
\<close>

subsection \<open>Requests of the services\<close>

text \<open>
  A url is fixed, ends with a field of the argument, or carries the argument as a query; the fields of
  a query, where there are any, decide whether the whole argument is sent or only the page.
\<close>

datatype url = At string | AtField string string | Query string "string list"

datatype body_form = NoBody | Copy | AsIs | EmptyBody | TheList | IdsEnabled | PluginBody | Fields "string list"
  | Narrowed "string list"

definition serviceTable :: "(string \<times> string \<times> url \<times> body_form) list" where
  "serviceTable =
     [(''addUser'', ''POST'', At ''/dashboardUser'', Copy),
      (''deleteUser'', ''DELETE'', At ''/dashboardUser/batch'', TheList),
      (''updateUser'', ''PUT'', AtField ''/dashboardUser/'' ''id'', Fields [''userName'', ''password'', ''role'', ''enabled'']),
      (''getAllMetadata'', ''GET'', Query ''/meta-data/queryList'' [''appName''], NoBody),
      (''findMetadata'', ''GET'', AtField ''/meta-data/'' ''id'', NoBody),
      (''addMetadata'', ''POST'', At ''/meta-data/createOrUpdate'', Copy),
      (''updateMetadata'', ''POST'', At ''/meta-data/createOrUpdate'', Fields [''appName'', ''enabled'', ''id'', ''pathDesc'', ''methodName'', ''parameterTypes'', ''path'', ''rpcExt'', ''rpcType'', ''serviceName'']),
      (''syncData'', ''POST'', At ''/meta-data/syncData'', EmptyBody),
      (''getfetchMetaGroup'', ''GET'', At ''/meta-data/findAllGroup'', NoBody),
      (''deleteMetadata'', ''POST'', At ''/meta-data/batchDeleted'', TheList),
      (''updateEnabled'', ''POST'', At ''/meta-data/batchEnabled'', IdsEnabled),
      (''getAllUsers'', ''GET'', Query ''/dashboardUser'' [''userName''], NoBody),
      (''findUser'', ''GET'', AtField ''/dashboardUser/'' ''id'', NoBody),
      (''addPlugin'', ''POST'', At ''/plugin'', Copy),
      (''deletePlugin'', ''DELETE'', At ''/plugin/batch'', TheList),
      (''updatePlugin'', ''PUT'', AtField ''/plugin/'' ''id'', PluginBody),
      (''getAllPlugins'', ''GET'', Query ''/plugin'' [''name''], NoBody),
      (''findPlugin'', ''GET'', AtField ''/plugin/'' ''id'', NoBody),
      (''updatepluginEnabled'', ''POST'', At ''/plugin/enabled'', IdsEnabled),
      (''addAuth'', ''POST'', At ''/appAuth'', Copy),
      (''deleteAuth'', ''DELETE'', At ''/appAuth/batch'', TheList),
      (''updateAuth'', ''PUT'', AtField ''/appAuth/'' ''id'', Fields [''appKey'', ''appSecret'', ''enabled'']),
      (''getAllAuth'', ''GET'', Query ''/appAuth'' [''appKey''], NoBody),
      (''syncAuthsData'', ''POST'', At ''/appAuth/syncData'', EmptyBody),
      (''getAllAuths'', ''POST'', At ''/appAuth/findPageByQuery'', Narrowed [''appKey'', ''phone'']),
      (''findAuthData'', ''GET'', AtField ''/appAuth/detail?id='' ''id'', NoBody),
      (''findAuthDataDel'', ''GET'', AtField ''/appAuth/detailPath?id='' ''id'', NoBody),
      (''getAllMetadatas'', ''GET'', At ''/meta-data/findAll'', NoBody),
      (''updateAuthData'', ''POST'', At ''/appAuth/updateDetail'', Copy),
      (''updateAuthDel'', ''POST'', At ''/appAuth/updateDetailPath'', AsIs),
      (''addAuthData'', ''POST'', At ''/appAuth/apply'', Copy),
      (''updateAuthEnabled'', ''POST'', At ''/appAuth/batchEnabled'', IdsEnabled),
      (''deleteAuths'', ''POST'', At ''/appAuth/batchDelete'', TheList),
      (''findAuth'', ''GET'', AtField ''/appAuth/'' ''id'', NoBody),
      (''addSelector'', ''POST'', At ''/selector'', Copy),
      (''deleteSelector'', ''DELETE'', At ''/selector/batch'', TheList),
      (''updateSelector'', ''PUT'', AtField ''/selector/'' ''id'', Copy),
      (''getAllSelectors'', ''GET'', Query ''/selector'' [], NoBody),
      (''findSelector'', ''GET'', AtField ''/selector/'' ''id'', NoBody),
      (''getAllRules'', ''GET'', Query ''/rule'' [], NoBody),
      (''addRule'', ''POST'', At ''/rule'', Copy),
      (''deleteRule'', ''DELETE'', At ''/rule/batch'', TheList),
      (''findRule'', ''GET'', AtField ''/rule/'' ''id'', NoBody),
      (''updateRule'', ''PUT'', AtField ''/rule/'' ''id'', Copy),
      (''queryPlatform'', ''GET'', At ''/platform/enum'', NoBody),
      (''queryLogin'', ''GET'', Query ''/platform/login'' [], NoBody),
      (''asyncPlugin'', ''POST'', At ''/plugin/syncPluginAll'', NoBody),
      (''asyncOnePlugin'', ''PUT'', AtField ''/plugin/syncPluginData/'' ''id'', NoBody),
      (''fetchPluginHandles'', ''GET'', Query ''/plugin-handle'' [], NoBody),
      (''addPluginHandle'', ''POST'', At ''/plugin-handle'', Copy),
      (''findPluginHandle'', ''GET'', AtField ''/plugin-handle/'' ''id'', NoBody),
      (''updatePluginHandle'', ''PUT'', AtField ''/plugin-handle/'' ''id'', Copy),
      (''batchDeletePluginHandle'', ''DELETE'', At ''/plugin-handle/batch'', TheList),
      (''fetchPluginHandleByPluginId'', ''GET'', AtField ''/plugin-handle/all/'' ''pluginId'', NoBody),
      (''fetchSoulDicts'', ''GET'', Query ''/soul-dict'' [], NoBody),
      (''addSoulDict'', ''POST'', At ''/soul-dict'', Copy),
      (''findSoulDict'', ''GET'', AtField ''/soul-dict/'' ''id'', NoBody),
      (''updateSoulDict'', ''PUT'', AtField ''/soul-dict/'' ''id'', Copy),
      (''batchDeleteSoulDict'', ''DELETE'', At ''/soul-dict/batch'', TheList),
      (''fetchSoulDictByType'', ''GET'', AtField ''/soul-dict/all/'' ''type'', NoBody),
      (''updateSoulDictEnabled'', ''POST'', At ''/soul-dict/batchEnabled'', IdsEnabled)]"

text \<open>\<open>i = n || r ? t : {currentPage, pageSize}\<close>.\<close>

definition narrowed :: "string list \<Rightarrow> js \<Rightarrow> js option" where
  "narrowed keys t =
     (case opt_map (js_get t) keys of
        None \<Rightarrow> None
      | Some vs \<Rightarrow> if keys = [] \<or> list_ex js_true vs then Some t
                  else map_option js_obj (pick [''currentPage'', ''pageSize''] t))"

text \<open>The elements of an array spread into a new one; any other value is not iterable (texts aside).\<close>

definition spread_list :: "js \<Rightarrow> js option" where
  "spread_list v = (case v of JArr xs \<Rightarrow> Some (JArr xs) | _ \<Rightarrow> None)"

definition body_of :: "body_form \<Rightarrow> js \<Rightarrow> js option option" where
  "body_of b t =
     (case b of
        NoBody \<Rightarrow> Some None
      | Copy \<Rightarrow> Some (Some (js_assign t []))
      | AsIs \<Rightarrow> Some (Some t)
      | EmptyBody \<Rightarrow> Some (Some (JObj []))
      | TheList \<Rightarrow> map_option Some (Option.bind (js_get t ''list'') spread_list)
      | IdsEnabled \<Rightarrow> Option.bind (js_get t ''list'') (\<lambda>l. map_option (\<lambda>e. Some (js_obj [(''ids'', l), (''enabled'', e)]))
            (js_get t ''enabled''))
      | PluginBody \<Rightarrow> Option.bind (js_get t ''id'') (\<lambda>i. map_option (\<lambda>fs. Some (js_obj ((''ids'', JArr [i]) # fs)))
            (pick [''name'', ''role'', ''config'', ''enabled''] t))
      | Fields ks \<Rightarrow> map_option (\<lambda>fs. Some (js_obj fs)) (pick ks t)
      | Narrowed ks \<Rightarrow> map_option (\<lambda>i. Some (js_assign i [])) (narrowed ks t))"

text \<open>\<open>stringify\<close> is the query-string library, \<open>base\<close> the address in the page; \<open>None\<close> is an exception.\<close>

definition url_of :: "(js \<Rightarrow> string) \<Rightarrow> string \<Rightarrow> url \<Rightarrow> js \<Rightarrow> string option" where
  "url_of stringify base u t =
     (case u of
        At p \<Rightarrow> Some (base @ p)
      | AtField p k \<Rightarrow> map_option (\<lambda>v. base @ p @ js_text v) (js_get t k)
      | Query p ks \<Rightarrow> map_option (\<lambda>a. base @ p @ ''?'' @ stringify a) (narrowed ks t))"

definition service_request ::
  "(js \<Rightarrow> string) \<Rightarrow> string \<Rightarrow> string \<Rightarrow> js \<Rightarrow> (string \<times> string \<times> js option) option" where
  "service_request stringify base name t =
     (case map_of serviceTable name of
        None \<Rightarrow> None
      | Some (meth, u, b) \<Rightarrow>
          Option.bind (url_of stringify base u t) (\<lambda>s. map_option (\<lambda>c. (meth, s, c)) (body_of b t)))"

subsection \<open>Routes of the controllers\<close>

text \<open>Method and path of each mapping annotation; \<open>{id}\<close> stands for one path segment.\<close>

definition pluginController_routes :: "(string \<times> string) list" where
  "pluginController_routes = [(''GET'', ''/plugin''), (''GET'', ''/plugin/{id}''), (''POST'', ''/plugin''), (''PUT'', ''/plugin/{id}''), (''DELETE'', ''/plugin/batch''), (''POST'', ''/plugin/enabled''), (''POST'', ''/plugin/syncPluginAll''), (''PUT'', ''/plugin/syncPluginData/{id}'')]"

definition metaDataController_routes :: "(string \<times> string) list" where
  "metaDataController_routes = [(''GET'', ''/meta-data/queryList''), (''GET'', ''/meta-data/findAll''), (''GET'', ''/meta-data/findAllGroup''), (''GET'', ''/meta-data/{id}''), (''POST'', ''/meta-data/createOrUpdate''), (''POST'', ''/meta-data/batchDeleted''), (''POST'', ''/meta-data/batchEnabled''), (''POST'', ''/meta-data/syncData'')]"

definition dashboardUserController_routes :: "(string \<times> string) list" where
  "dashboardUserController_routes = [(''GET'', ''/dashboardUser''), (''GET'', ''/dashboardUser/{id}''), (''POST'', ''/dashboardUser''), (''PUT'', ''/dashboardUser/{id}''), (''DELETE'', ''/dashboardUser/batch'')]"

definition appAuthController_routes :: "(string \<times> string) list" where
  "appAuthController_routes = [(''POST'', ''/appAuth/apply''), (''GET'', ''/appAuth/updateSk''), (''POST'', ''/appAuth/findPageByQuery''), (''GET'', ''/appAuth/detail''), (''POST'', ''/appAuth/updateDetail''), (''GET'', ''/appAuth/detailPath''), (''POST'', ''/appAuth/updateDetailPath''), (''POST'', ''/appAuth/batchDelete''), (''POST'', ''/appAuth/batchEnabled''), (''POST'', ''/appAuth/syncData'')]"

definition soulDictController_routes :: "(string \<times> string) list" where
  "soulDictController_routes = [(''GET'', ''/soul-dict''), (''GET'', ''/soul-dict/all/{type}''), (''GET'', ''/soul-dict/{id}''), (''POST'', ''/soul-dict''), (''PUT'', ''/soul-dict/{id}''), (''DELETE'', ''/soul-dict/batch''), (''POST'', ''/soul-dict/batchEnabled'')]"

definition ruleController_routes :: "(string \<times> string) list" where
  "ruleController_routes = [(''GET'', ''/rule''), (''GET'', ''/rule/{id}''), (''POST'', ''/rule''), (''PUT'', ''/rule/{id}''), (''DELETE'', ''/rule/batch'')]"

definition selectorController_routes :: "(string \<times> string) list" where
  "selectorController_routes = [(''GET'', ''/selector''), (''GET'', ''/selector/{id}''), (''POST'', ''/selector''), (''PUT'', ''/selector/{id}''), (''DELETE'', ''/selector/batch'')]"

definition platformController_routes :: "(string \<times> string) list" where
  "platformController_routes = [(''GET'', ''/platform/login''), (''GET'', ''/platform/enum'')]"

definition pluginHandleController_routes :: "(string \<times> string) list" where
  "pluginHandleController_routes = [(''GET'', ''/plugin-handle''), (''GET'', ''/plugin-handle/all/{pluginId}''), (''GET'', ''/plugin-handle/{id}''), (''POST'', ''/plugin-handle''), (''PUT'', ''/plugin-handle/{id}''), (''DELETE'', ''/plugin-handle/batch'')]"

definition controller_routes :: "(string \<times> string) list" where
  "controller_routes = pluginController_routes @ metaDataController_routes @ dashboardUserController_routes @ appAuthController_routes @ soulDictController_routes @ ruleController_routes @ selectorController_routes @ platformController_routes @ pluginHandleController_routes"

text \<open>The route a service asks for: its path without query, with a variable where a field is appended.\<close>

fun url_route :: "url \<Rightarrow> string" where
  "url_route (At p) = p"
| "url_route (AtField p k) = (if CHR ''?'' \<in> set p then takeWhile (\<lambda>c. c \<noteq> CHR ''?'') p else p @ ''{'' @ k @ ''}'')"
| "url_route (Query p ks) = p"

definition has_route :: "string \<Rightarrow> bool" where
  "has_route name =
     (case map_of serviceTable name of None \<Rightarrow> False | Some (meth, u, b) \<Rightarrow> (meth, url_route u) \<in> set controller_routes)"

subsection \<open>The calls of the effects\<close>

text \<open>All calls an effect makes, after any answers, are to services in \<open>P\<close>.\<close>

primrec asks :: "(string \<Rightarrow> bool) \<Rightarrow> eff \<Rightarrow> bool" where
  "asks P Done = True"
| "asks P Throw = True"
| "asks P (Call s a k) = (P s \<and> (\<forall>r. asks P (k r)))"
| "asks P (Put ty act e) = asks P e"
| "asks P (Notify n e) = asks P e"
| "asks P (Callback v e) = asks P e"
| "asks P (Push r e) = asks P e"
| "asks P (SetAuthority a e) = asks P e"
| "asks P (ReloadAuthorized e) = asks P e"

lemma asks_reading: "(\<And>v. asks P (k v)) \<Longrightarrow> asks P (reading r k)"
  by (cases r) simp_all

lemma asks_if_ok: "asks P a \<Longrightarrow> asks P b \<Longrightarrow> asks P (if_ok r a b)"
  using if_ok_simps [of r a b] by (cases "answer_ok r") auto

lemma asks_case: "asks P a \<Longrightarrow> (\<And>v. asks P (k v)) \<Longrightarrow> asks P (case r of None \<Rightarrow> a | Some v \<Rightarrow> k v)"
  by (cases r) simp_all

lemma asks_simple: "asks P Done" "asks P Throw" "asks P e \<Longrightarrow> asks P (Put ty act e)" "asks P e \<Longrightarrow> asks P (Notify n e)"
  "asks P e \<Longrightarrow> asks P (Callback v e)" "asks P e \<Longrightarrow> asks P (Push r e)" "asks P e \<Longrightarrow> asks P (ReloadAuthorized e)"
  "asks P e \<Longrightarrow> asks P (SetAuthority w e)" "P s \<Longrightarrow> (\<And>r. asks P (k r)) \<Longrightarrow> asks P (Call s x k)"
  "asks P a \<Longrightarrow> asks P b \<Longrightarrow> asks P (if c then a else b)"
  by simp_all

lemmas asks_intros = asks_reading asks_if_ok asks_case asks_simple

lemma asks_shapes:
  "P v \<Longrightarrow> asks P (fetch_page v save t)" "P v \<Longrightarrow> asks P (fetch_item v t)" "P v \<Longrightarrow> asks P (change ok v next t)"
  "P v \<Longrightarrow> asks P (delete_list v t)" "P v \<Longrightarrow> asks P (call_only v t)" "asks P (reload_with target keys t)"
  unfolding fetch_page_def fetch_item_def change_def change_then_def delete_list_def call_only_def reload_with_def
  by (intro asks_intros; assumption)+

lemma asks_others:
  "P ''getAllSelectors'' \<Longrightarrow> asks P (fetchSelector t)" "P ''getAllRules'' \<Longrightarrow> asks P (fetchRule t)"
  "P ''deleteSelector'' \<Longrightarrow> asks P (deleteSelector t)" "P ''deleteRule'' \<Longrightarrow> asks P (deleteRule t)"
  "P ''findAuthDataDel'' \<Longrightarrow> asks P (fetchItemDel t)" "P ''getAllMetadatas'' \<Longrightarrow> asks P (fetchMeta t)"
  "P ''updatePlugin'' \<Longrightarrow> asks P (changeStatus t)" "P ''asyncPlugin'' \<Longrightarrow> asks P (asyncAll t)"
  "P ''fetchPluginHandleByPluginId'' \<Longrightarrow> asks P (fetchByPluginId jp t)" "P ''fetchSoulDictByType'' \<Longrightarrow> asks P (fetchByType t)"
  "P ''queryPlatform'' \<Longrightarrow> asks P (fetchPlatform t)" "P ''getAllPlugins'' \<Longrightarrow> asks P (fetchPlugins t)"
  "P ''asyncOnePlugin'' \<Longrightarrow> asks P (asyncPlugin t)" "P ''queryLogin'' \<Longrightarrow> asks P (login t)" "asks P (logout t)"
  unfolding fetchSelector_def fetchRule_def deleteSelector_def deleteRule_def fetchItemDel_def fetchMeta_def changeStatus_def
    asyncAll_def fetchByPluginId_def fetchByType_def fetchPlatform_def fetchPlugins_def asyncPlugin_def login_def logout_def
  by (intro asks_intros; assumption)+

text \<open>The services the pages and the login call.\<close>

definition called_services :: "string list" where
  "called_services = [''addUser'', ''deleteUser'', ''updateUser'', ''getAllMetadata'', ''findMetadata'', ''addMetadata'', ''updateMetadata'', ''syncData'', ''getfetchMetaGroup'', ''deleteMetadata'', ''updateEnabled'', ''getAllUsers'', ''findUser'', ''addPlugin'', ''deletePlugin'', ''updatePlugin'', ''getAllPlugins'', ''findPlugin'', ''updatepluginEnabled'', ''syncAuthsData'', ''getAllAuths'', ''findAuthData'', ''findAuthDataDel'', ''getAllMetadatas'', ''updateAuthData'', ''updateAuthDel'', ''addAuthData'', ''updateAuthEnabled'', ''deleteAuths'', ''addSelector'', ''deleteSelector'', ''updateSelector'', ''getAllSelectors'', ''findSelector'', ''getAllRules'', ''addRule'', ''deleteRule'', ''findRule'', ''updateRule'', ''queryPlatform'', ''queryLogin'', ''asyncPlugin'', ''asyncOnePlugin'', ''fetchPluginHandles'', ''addPluginHandle'', ''findPluginHandle'', ''updatePluginHandle'', ''batchDeletePluginHandle'', ''fetchPluginHandleByPluginId'', ''fetchSoulDicts'', ''addSoulDict'', ''findSoulDict'', ''updateSoulDict'', ''batchDeleteSoulDict'', ''fetchSoulDictByType'', ''updateSoulDictEnabled'']"

lemma called_routed: "list_all has_route called_services"
  by code_simp

definition called :: "string \<Rightarrow> bool" where
  "called s \<longleftrightarrow> s \<in> set called_services"

definition asks_entry :: "string \<times> (js \<Rightarrow> eff) \<Rightarrow> bool" where
  "asks_entry p \<longleftrightarrow> (\<forall>t. asks called (snd p t))"

lemma asks_entryI: "(\<And>t. asks called (e t)) \<Longrightarrow> asks_entry (ty, e)"
  by (simp add: asks_entry_def)

lemma asks_entries:
  "called v \<Longrightarrow> asks_entry (ty, fetch_page v save)" "called v \<Longrightarrow> asks_entry (ty, fetch_item v)"
  "called v \<Longrightarrow> asks_entry (ty, change ok v next)" "called v \<Longrightarrow> asks_entry (ty, delete_list v)"
  "called v \<Longrightarrow> asks_entry (ty, call_only v)" "asks_entry (ty, reload_with target keys)"
  "asks_entry (ty, fetchSelector)" "asks_entry (ty, fetchRule)" "asks_entry (ty, deleteSelector)"
  "asks_entry (ty, deleteRule)" "asks_entry (ty, fetchItemDel)" "asks_entry (ty, fetchMeta)" "asks_entry (ty, changeStatus)"
  "asks_entry (ty, asyncAll)" "asks_entry (ty, fetchByPluginId jp)" "asks_entry (ty, fetchByType)"
  "asks_entry (ty, fetchPlatform)" "asks_entry (ty, fetchPlugins)" "asks_entry (ty, asyncPlugin)" "asks_entry (ty, login)"
  "asks_entry (ty, logout)"
  by (rule asks_entryI, simp add: asks_shapes asks_others called_def called_services_def)+

lemma asks_models:
  "list_all asks_entry (dm_effects view_model)" "list_all asks_entry (dm_effects common_model)"
  "list_all asks_entry (dm_effects manage_model)" "list_all asks_entry (dm_effects metadata_model)"
  "list_all asks_entry (dm_effects auth_model)" "list_all asks_entry (dm_effects plugin_model)"
  "list_all asks_entry (dm_effects (pluginHandle_model jp))" "list_all asks_entry (dm_effects soulDict_model)"
  "list_all asks_entry (dm_effects global_model)" "list_all asks_entry (dm_effects login_model)"
  unfolding model_defs login_model_def by (simp_all add: asks_entries called_def called_services_def)

lemma asks_page:
  assumes "dva_app jp ns = Some m" and "ns \<noteq> ''error''" and "ns \<noteq> ''user''" and "map_of (dm_effects m) ty = Some e"
  shows "asks called (e t)"
proof -
  have "dashboard jp ns = Some m \<or> m = login_model"
    using assms(1-3) by (auto simp: dva_app_def map_add_def split: option.splits if_splits)
  then have "list_all asks_entry (dm_effects m)"
    using dashboard_cases [of jp ns m] asks_models by auto
  then show ?thesis using map_of_SomeD [OF assms(4)] by (auto simp: list_all_iff asks_entry_def)
qed

lemma asks_mono: "asks P e \<Longrightarrow> (\<And>s. P s \<Longrightarrow> Q s) \<Longrightarrow> asks Q e"
  by (induction e) auto

text \<open>
  Every call of the dashboard has a controller. Whatever answers it gets, an effect of the pages, of
  the global state or of the login calls only services whose method and path one of the admin's
  controllers maps. Five exported services (\<open>addAuth\<close>, \<open>deleteAuth\<close>, \<open>updateAuth\<close>, \<open>getAllAuth\<close>,
  \<open>findAuth\<close>) have no route, and no such effect calls them.
\<close>

theorem calls_have_routes:
  assumes "dva_app jp ns = Some m" and "ns \<noteq> ''error''" and "ns \<noteq> ''user''" and "map_of (dm_effects m) ty = Some e"
  shows "asks (\<lambda>s. has_route s \<and> s \<notin> {''addAuth'', ''deleteAuth'', ''updateAuth'', ''getAllAuth'', ''findAuth''}) (e t)
     \<and> \<not> list_ex has_route [''addAuth'', ''deleteAuth'', ''updateAuth'', ''getAllAuth'', ''findAuth'']"
proof
  have no: "\<not> list_ex has_route [''addAuth'', ''deleteAuth'', ''updateAuth'', ''getAllAuth'', ''findAuth'']"
    by code_simp
  then show "\<not> list_ex has_route [''addAuth'', ''deleteAuth'', ''updateAuth'', ''getAllAuth'', ''findAuth'']" .
  have "has_route s \<and> s \<notin> {''addAuth'', ''deleteAuth'', ''updateAuth'', ''getAllAuth'', ''findAuth''}" if "called s" for s
  proof -
    have "has_route s" using that called_routed by (auto simp: called_def list_all_iff)
    with no show ?thesis by auto
  qed
  with asks_page [OF assms] show "asks (\<lambda>s. has_route s \<and> s \<notin> {''addAuth'', ''deleteAuth'', ''updateAuth'', ''getAllAuth'', ''findAuth''}) (e t)"
    by (rule asks_mono)
qed

lemma calls_have_routes_witness:
  "asks (\<lambda>s. has_route s \<and> s \<notin> {''addAuth'', ''deleteAuth'', ''updateAuth'', ''getAllAuth'', ''findAuth''}) (login (JObj [(''payload'', JNull)]))"
proof -
  have e: "map_of (dm_effects login_model) ''login'' = Some login" by (simp add: login_model_def)
  show ?thesis using calls_have_routes [OF app_login [of Some] _ _ e] by simp
qed

end
