(* ===== verification/AdminData.thy ===== *)
theory AdminData
  imports SoulData
begin

text \<open>
  The admin's side of the configuration: the rows of its tables (\<open>admin/entity\<close>), what the
  controllers receive (\<open>admin/dto\<close>), the statements of the mappers the services use, and the events
  the services publish. A table is the list of its rows; the order of a query's rows is the order of
  that list, which SQL leaves open. Timestamps, and columns no event carries, are left out. Texts are
  compared as they are; the collation of the database is not modelled.
\<close>

subsection \<open>Rows and requests\<close>

record plugin_do =
  pdo_id :: string
  pdo_name :: string
  pdo_config :: "string option"
  pdo_enabled :: bool
  pdo_role :: int

record selector_do =
  sdo_id :: string
  sdo_pluginId :: string
  sdo_name :: string
  sdo_matchMode :: int
  sdo_type :: int
  sdo_sort :: int
  sdo_enabled :: bool
  sdo_loged :: bool
  sdo_continued :: bool
  sdo_handle :: "string option"

record rule_do =
  rdo_id :: string
  rdo_selectorId :: string
  rdo_matchMode :: int
  rdo_name :: string
  rdo_enabled :: bool
  rdo_loged :: bool
  rdo_sort :: int
  rdo_handle :: "string option"

record meta_data_do =
  mdo_id :: string
  mdo_appName :: string
  mdo_path :: string
  mdo_pathDesc :: string
  mdo_rpcType :: string
  mdo_serviceName :: "string option"
  mdo_methodName :: "string option"
  mdo_parameterTypes :: "string option"
  mdo_rpcExt :: "string option"
  mdo_enabled :: bool

record app_auth_do =
  ado_id :: string
  ado_appKey :: string
  ado_appSecret :: string
  ado_enabled :: bool
  ado_userId :: "string option"
  ado_phone :: "string option"
  ado_extInfo :: "string option"

record auth_param_do =
  apo_id :: string
  apo_authId :: string
  apo_appName :: string
  apo_appParam :: "string option"

record auth_path_do =
  aho_id :: string
  aho_authId :: string
  aho_appName :: string
  aho_path :: string
  aho_enabled :: bool

text \<open>Conditions of selectors and rules have the same fields but for the name of their owner's id.\<close>

record condition_do =
  cdo_id :: string
  cdo_owner :: string
  cdo_paramType :: string
  cdo_operator :: string
  cdo_paramName :: string
  cdo_paramValue :: string

record condition_dto =
  cdt_id :: "string option"
  cdt_paramType :: string
  cdt_operator :: string
  cdt_paramName :: string
  cdt_paramValue :: string

record plugin_dto =
  pdt_id :: "string option"
  pdt_name :: string
  pdt_config :: "string option"
  pdt_role :: int
  pdt_enabled :: bool

record selector_dto =
  sdt_id :: "string option"
  sdt_pluginId :: string
  sdt_name :: string
  sdt_matchMode :: int
  sdt_type :: int
  sdt_sort :: int
  sdt_enabled :: bool
  sdt_loged :: bool
  sdt_continued :: bool
  sdt_handle :: "string option"
  sdt_selectorConditions :: "condition_dto list"

record rule_dto =
  rdt_id :: "string option"
  rdt_selectorId :: string
  rdt_matchMode :: int
  rdt_name :: string
  rdt_enabled :: bool
  rdt_loged :: bool
  rdt_sort :: int
  rdt_handle :: "string option"
  rdt_ruleConditions :: "condition_dto list"

subsection \<open>Events\<close>

text \<open>
  The rows of one group: what an event, a message or a fetched configuration carries. A list of
  selectors, rules or meta data may hold null (a row whose owner, or which itself, is gone).
\<close>

datatype config_rows =
    PluginRows "plugin_data list"
  | SelectorRows "selector_data option list"
  | RuleRows "rule_data option list"
  | AuthRows "app_auth_data list"
  | MetaRows "meta_data option list"

fun rows_group :: "config_rows \<Rightarrow> config_group" where
  "rows_group (PluginRows ds) = G_PLUGIN"
| "rows_group (SelectorRows ds) = G_SELECTOR"
| "rows_group (RuleRows ds) = G_RULE"
| "rows_group (AuthRows ds) = G_APP_AUTH"
| "rows_group (MetaRows ds) = G_META_DATA"

datatype data_event = DataChangedEvent (event_type: data_event_type) (event_rows: config_rows)

abbreviation PluginChanged :: "data_event_type \<Rightarrow> plugin_data list \<Rightarrow> data_event" where
  "PluginChanged ty ds \<equiv> DataChangedEvent ty (PluginRows ds)"

abbreviation SelectorChanged :: "data_event_type \<Rightarrow> selector_data option list \<Rightarrow> data_event" where
  "SelectorChanged ty ds \<equiv> DataChangedEvent ty (SelectorRows ds)"

abbreviation RuleChanged :: "data_event_type \<Rightarrow> rule_data option list \<Rightarrow> data_event" where
  "RuleChanged ty ds \<equiv> DataChangedEvent ty (RuleRows ds)"

abbreviation AuthChanged :: "data_event_type \<Rightarrow> app_auth_data list \<Rightarrow> data_event" where
  "AuthChanged ty ds \<equiv> DataChangedEvent ty (AuthRows ds)"

abbreviation MetaChanged :: "data_event_type \<Rightarrow> meta_data option list \<Rightarrow> data_event" where
  "MetaChanged ty ds \<equiv> DataChangedEvent ty (MetaRows ds)"

subsection \<open>The admin's state and its operations\<close>

record tables =
  tb_plugins :: "plugin_do list"
  tb_selectors :: "selector_do list"
  tb_selector_conditions :: "condition_do list"
  tb_rules :: "rule_do list"
  tb_rule_conditions :: "condition_do list"
  tb_metas :: "meta_data_do list"
  tb_auths :: "app_auth_do list"
  tb_auth_params :: "auth_param_do list"
  tb_auth_paths :: "auth_path_do list"

text \<open>
  The tables, the upstreams the admin checks (by selector name), the number of identifiers taken from
  the generator, and the events published so far. \<open>'u\<close> is what an upstream list is.
\<close>

record 'u admin =
  ad_tables :: tables
  ad_upstreams :: "string \<rightharpoonup> 'u"
  ad_next :: nat
  ad_published :: "data_event list"

type_synonym ('u, 'a) svc = "'u admin \<Rightarrow> 'a jres \<times> 'u admin"

definition returns :: "'a \<Rightarrow> ('u, 'a) svc" where
  "returns x s = (Inr x, s)"

definition throws :: "jexn \<Rightarrow> ('u, 'a) svc" where
  "throws e s = (Inl e, s)"

definition andthen :: "('u, 'a) svc \<Rightarrow> ('a \<Rightarrow> ('u, 'b) svc) \<Rightarrow> ('u, 'b) svc" where
  "andthen m f s = (case m s of (Inl e, s') \<Rightarrow> (Inl e, s') | (Inr x, s') \<Rightarrow> f x s')"

fun for_all :: "('x \<Rightarrow> ('u, unit) svc) \<Rightarrow> 'x list \<Rightarrow> ('u, unit) svc" where
  "for_all f [] = returns ()"
| "for_all f (x # xs) = andthen (f x) (\<lambda>_. for_all f xs)"

text \<open>\<open>x.method()\<close> on a reference that may be null.\<close>

definition derefs :: "'a option \<Rightarrow> ('u, 'a) svc" where
  "derefs r = (case r of None \<Rightarrow> throws NullPointer | Some x \<Rightarrow> returns x)"

text \<open>A query; a statement that changes the tables or fails.\<close>

definition query :: "(tables \<Rightarrow> 'a) \<Rightarrow> ('u, 'a) svc" where
  "query q s = (Inr (q (ad_tables s)), s)"

definition execute :: "(tables \<Rightarrow> tables jres) \<Rightarrow> ('u, unit) svc" where
  "execute st s = (case st (ad_tables s) of Inl e \<Rightarrow> (Inl e, s) | Inr t \<Rightarrow> (Inr (), s\<lparr>ad_tables := t\<rparr>))"

definition publishEvent :: "data_event \<Rightarrow> ('u, unit) svc" where
  "publishEvent ev s = (Inr (), s\<lparr>ad_published := ad_published s @ [ev]\<rparr>)"

text \<open>
  \<open>@Transactional\<close>: after an exception the tables are what they were; what was published, checked
  upstreams and identifiers taken are not undone.
\<close>

definition transactional :: "('u, 'a) svc \<Rightarrow> ('u, 'a) svc" where
  "transactional m s = (case m s of (Inl e, s') \<Rightarrow> (Inl e, s'\<lparr>ad_tables := ad_tables s\<rparr>) | r \<Rightarrow> r)"

text \<open>\<open>UUIDUtils.generateShortUuid\<close>: the identifiers it gives, in order, are \<open>uuid 0\<close>, \<open>uuid 1\<close>, ...\<close>

definition generateShortUuid :: "(nat \<Rightarrow> string) \<Rightarrow> ('u, string) svc" where
  "generateShortUuid uuid s = (Inr (uuid (ad_next s)), s\<lparr>ad_next := ad_next s + 1\<rparr>)"

lemma svc_simps [simp]:
  "andthen (returns x) f = f x" "andthen (throws e) f = throws e"
  "andthen (andthen m f) g = andthen m (\<lambda>x. andthen (f x) g)"
  "derefs None = throws NullPointer" "derefs (Some x) = returns x"
  by (auto simp: fun_eq_iff andthen_def returns_def throws_def derefs_def split: prod.splits sum.splits)

lemma svc_run:
  "returns x s = (Inr x, s)" "throws e s = (Inl e, s)"
  "andthen (query q) h s = h (q (ad_tables s)) s"
  "andthen (publishEvent ev) f s = f () (s\<lparr>ad_published := ad_published s @ [ev]\<rparr>)"
  "andthen (generateShortUuid uuid) g s = g (uuid (ad_next s)) (s\<lparr>ad_next := ad_next s + 1\<rparr>)"
  "andthen (execute st) f s = (case st (ad_tables s) of Inl e \<Rightarrow> (Inl e, s) | Inr t \<Rightarrow> f () (s\<lparr>ad_tables := t\<rparr>))"
  by (auto simp: returns_def throws_def andthen_def query_def publishEvent_def generateShortUuid_def execute_def
      split: sum.splits)

lemma svc_run_last:
  "query q s = (Inr (q (ad_tables s)), s)"
  "publishEvent ev s = (Inr (), s\<lparr>ad_published := ad_published s @ [ev]\<rparr>)"
  "execute st s = (case st (ad_tables s) of Inl e \<Rightarrow> (Inl e, s) | Inr t \<Rightarrow> (Inr (), s\<lparr>ad_tables := t\<rparr>))"
  by (simp_all add: query_def publishEvent_def execute_def)

subsection \<open>Statements of the mappers\<close>

definition row_with :: "('r \<Rightarrow> 'k) \<Rightarrow> 'k \<Rightarrow> 'r list \<Rightarrow> 'r option" where
  "row_with key k rows = find (\<lambda>r. key r = k) rows"

definition rows_with :: "('r \<Rightarrow> 'k) \<Rightarrow> 'k \<Rightarrow> 'r list \<Rightarrow> 'r list" where
  "rows_with key k rows = filter (\<lambda>r. key r = k) rows"

definition delete_with :: "('r \<Rightarrow> 'k) \<Rightarrow> 'k \<Rightarrow> 'r list \<Rightarrow> 'r list" where
  "delete_with key k rows = filter (\<lambda>r. key r \<noteq> k) rows"

definition update_with :: "('r \<Rightarrow> 'k) \<Rightarrow> 'k \<Rightarrow> ('r \<Rightarrow> 'r) \<Rightarrow> 'r list \<Rightarrow> 'r list" where
  "update_with key k f rows = map (\<lambda>r. if key r = k then f r else r) rows"

text \<open>A primary key or a unique column that is taken makes the statement fail.\<close>

definition duplicate :: jexn where
  "duplicate = RuntimeExn ''DuplicateKeyException''"

definition insert_row :: "('r \<Rightarrow> 'k) \<Rightarrow> 'r \<Rightarrow> 'r list \<Rightarrow> 'r list jres" where
  "insert_row key r rows = (if key r \<in> key ` set rows then Inl duplicate else Inr (rows @ [r]))"

definition plugin_selectById :: "string \<Rightarrow> tables \<Rightarrow> plugin_do option" where
  "plugin_selectById i t = row_with pdo_id i (tb_plugins t)"

definition plugin_selectByName :: "string \<Rightarrow> tables \<Rightarrow> plugin_do option" where
  "plugin_selectByName n t = row_with pdo_name n (tb_plugins t)"

definition plugin_insertSelective :: "plugin_do \<Rightarrow> tables \<Rightarrow> tables jres" where
  "plugin_insertSelective r t = bindr (insert_row pdo_id r (tb_plugins t)) (\<lambda>rs. Inr (t\<lparr>tb_plugins := rs\<rparr>))"

text \<open>\<open>updateSelective\<close> leaves the columns whose new value is null.\<close>

definition plugin_updateSelective :: "plugin_do \<Rightarrow> tables \<Rightarrow> tables jres" where
  "plugin_updateSelective r t = Inr (t\<lparr>tb_plugins := update_with pdo_id (pdo_id r)
     (\<lambda>old. r\<lparr>pdo_config := (case pdo_config r of None \<Rightarrow> pdo_config old | c \<Rightarrow> c)\<rparr>) (tb_plugins t)\<rparr>)"

definition plugin_updateEnable :: "plugin_do \<Rightarrow> tables \<Rightarrow> tables jres" where
  "plugin_updateEnable r t =
     Inr (t\<lparr>tb_plugins := update_with pdo_id (pdo_id r) (\<lambda>old. old\<lparr>pdo_enabled := pdo_enabled r\<rparr>) (tb_plugins t)\<rparr>)"

definition plugin_deleteRow :: "string \<Rightarrow> tables \<Rightarrow> tables jres" where
  "plugin_deleteRow i t = Inr (t\<lparr>tb_plugins := delete_with pdo_id i (tb_plugins t)\<rparr>)"

definition selector_selectById :: "string \<Rightarrow> tables \<Rightarrow> selector_do option" where
  "selector_selectById i t = row_with sdo_id i (tb_selectors t)"

definition selector_selectByName :: "string \<Rightarrow> tables \<Rightarrow> selector_do option" where
  "selector_selectByName n t = row_with sdo_name n (tb_selectors t)"

definition selector_insertSelective :: "selector_do \<Rightarrow> tables \<Rightarrow> tables jres" where
  "selector_insertSelective r t =
     (if sdo_name r \<in> sdo_name ` set (tb_selectors t) then Inl duplicate
      else bindr (insert_row sdo_id r (tb_selectors t)) (\<lambda>rs. Inr (t\<lparr>tb_selectors := rs\<rparr>)))"

definition selector_updateSelective :: "selector_do \<Rightarrow> tables \<Rightarrow> tables jres" where
  "selector_updateSelective r t =
     (if sdo_id r \<in> sdo_id ` set (tb_selectors t)
         \<and> sdo_name r \<in> sdo_name ` set (delete_with sdo_id (sdo_id r) (tb_selectors t)) then Inl duplicate
      else Inr (t\<lparr>tb_selectors := update_with sdo_id (sdo_id r)
        (\<lambda>old. r\<lparr>sdo_handle := (case sdo_handle r of None \<Rightarrow> sdo_handle old | h \<Rightarrow> h)\<rparr>) (tb_selectors t)\<rparr>))"

definition selector_deleteRow :: "string \<Rightarrow> tables \<Rightarrow> tables jres" where
  "selector_deleteRow i t = Inr (t\<lparr>tb_selectors := delete_with sdo_id i (tb_selectors t)\<rparr>)"

definition rule_selectById :: "string \<Rightarrow> tables \<Rightarrow> rule_do option" where
  "rule_selectById i t = row_with rdo_id i (tb_rules t)"

definition rule_insertSelective :: "rule_do \<Rightarrow> tables \<Rightarrow> tables jres" where
  "rule_insertSelective r t =
     (if rdo_name r \<in> rdo_name ` set (tb_rules t) then Inl duplicate
      else bindr (insert_row rdo_id r (tb_rules t)) (\<lambda>rs. Inr (t\<lparr>tb_rules := rs\<rparr>)))"

definition rule_updateSelective :: "rule_do \<Rightarrow> tables \<Rightarrow> tables jres" where
  "rule_updateSelective r t =
     (if rdo_id r \<in> rdo_id ` set (tb_rules t)
         \<and> rdo_name r \<in> rdo_name ` set (delete_with rdo_id (rdo_id r) (tb_rules t)) then Inl duplicate
      else Inr (t\<lparr>tb_rules := update_with rdo_id (rdo_id r)
        (\<lambda>old. r\<lparr>rdo_handle := (case rdo_handle r of None \<Rightarrow> rdo_handle old | h \<Rightarrow> h)\<rparr>) (tb_rules t)\<rparr>))"

definition rule_deleteRow :: "string \<Rightarrow> tables \<Rightarrow> tables jres" where
  "rule_deleteRow i t = Inr (t\<lparr>tb_rules := delete_with rdo_id i (tb_rules t)\<rparr>)"

definition selector_condition_insert :: "condition_do \<Rightarrow> tables \<Rightarrow> tables jres" where
  "selector_condition_insert r t =
     bindr (insert_row cdo_id r (tb_selector_conditions t)) (\<lambda>rs. Inr (t\<lparr>tb_selector_conditions := rs\<rparr>))"

definition selector_condition_deleteByQuery :: "string \<Rightarrow> tables \<Rightarrow> tables jres" where
  "selector_condition_deleteByQuery i t =
     Inr (t\<lparr>tb_selector_conditions := delete_with cdo_owner i (tb_selector_conditions t)\<rparr>)"

definition rule_condition_insert :: "condition_do \<Rightarrow> tables \<Rightarrow> tables jres" where
  "rule_condition_insert r t =
     bindr (insert_row cdo_id r (tb_rule_conditions t)) (\<lambda>rs. Inr (t\<lparr>tb_rule_conditions := rs\<rparr>))"

definition rule_condition_deleteByQuery :: "string \<Rightarrow> tables \<Rightarrow> tables jres" where
  "rule_condition_deleteByQuery i t =
     Inr (t\<lparr>tb_rule_conditions := delete_with cdo_owner i (tb_rule_conditions t)\<rparr>)"

subsection \<open>Conversions\<close>

definition is_empty_ref :: "string option \<Rightarrow> bool" where
  "is_empty_ref v \<longleftrightarrow> v = None \<or> v = Some ''''"

text \<open>The identifier of a new row is generated, that of an existing one is given.\<close>

definition row_id :: "(nat \<Rightarrow> string) \<Rightarrow> string option \<Rightarrow> ('u, string) svc" where
  "row_id uuid i = (if is_empty_ref i then generateShortUuid uuid else returns (the i))"

definition buildPluginDO :: "(nat \<Rightarrow> string) \<Rightarrow> plugin_dto \<Rightarrow> ('u, plugin_do) svc" where
  "buildPluginDO uuid d = andthen (row_id uuid (pdt_id d)) (\<lambda>i. returns
     \<lparr>pdo_id = i, pdo_name = pdt_name d, pdo_config = pdt_config d, pdo_enabled = pdt_enabled d, pdo_role = pdt_role d\<rparr>)"

definition buildSelectorDO :: "(nat \<Rightarrow> string) \<Rightarrow> selector_dto \<Rightarrow> ('u, selector_do) svc" where
  "buildSelectorDO uuid d = andthen (row_id uuid (sdt_id d)) (\<lambda>i. returns
     \<lparr>sdo_id = i, sdo_pluginId = sdt_pluginId d, sdo_name = sdt_name d,
      sdo_matchMode = (if selector_type_code ST_FULL_FLOW = sdt_type d then match_mode_code MM_AND else sdt_matchMode d),
      sdo_type = sdt_type d, sdo_sort = sdt_sort d, sdo_enabled = sdt_enabled d, sdo_loged = sdt_loged d,
      sdo_continued = sdt_continued d, sdo_handle = sdt_handle d\<rparr>)"

definition buildRuleDO :: "(nat \<Rightarrow> string) \<Rightarrow> rule_dto \<Rightarrow> ('u, rule_do) svc" where
  "buildRuleDO uuid d = andthen (row_id uuid (rdt_id d)) (\<lambda>i. returns
     \<lparr>rdo_id = i, rdo_selectorId = rdt_selectorId d, rdo_matchMode = rdt_matchMode d, rdo_name = rdt_name d,
      rdo_enabled = rdt_enabled d, rdo_loged = rdt_loged d, rdo_sort = rdt_sort d, rdo_handle = rdt_handle d\<rparr>)"

definition buildConditionDO :: "(nat \<Rightarrow> string) \<Rightarrow> string \<Rightarrow> condition_dto \<Rightarrow> ('u, condition_do) svc" where
  "buildConditionDO uuid owner d = andthen (row_id uuid (cdt_id d)) (\<lambda>i. returns
     \<lparr>cdo_id = i, cdo_owner = owner, cdo_paramType = cdt_paramType d, cdo_operator = cdt_operator d,
      cdo_paramName = cdt_paramName d, cdo_paramValue = cdt_paramValue d\<rparr>)"

text \<open>The generated \<open>ConditionTransfer\<close> and \<open>PluginTransfer\<close> copy the fields of the same name.\<close>

definition condition_of_do :: "condition_do \<Rightarrow> condition_data" where
  "condition_of_do r = \<lparr>cd_paramType = cdo_paramType r, cd_operator = cdo_operator r,
     cd_paramName = cdo_paramName r, cd_paramValue = cdo_paramValue r\<rparr>"

definition condition_of_dto :: "condition_dto \<Rightarrow> condition_data" where
  "condition_of_dto d = \<lparr>cd_paramType = cdt_paramType d, cd_operator = cdt_operator d,
     cd_paramName = cdt_paramName d, cd_paramValue = cdt_paramValue d\<rparr>"

definition plugin_mapToData :: "plugin_do \<Rightarrow> plugin_data" where
  "plugin_mapToData r = \<lparr>pd_id = pdo_id r, pd_name = pdo_name r, pd_config = pdo_config r, pd_role = pdo_role r,
     pd_enabled = pdo_enabled r\<rparr>"

definition selector_transFrom :: "selector_do \<Rightarrow> string \<Rightarrow> condition_data list option \<Rightarrow> selector_data" where
  "selector_transFrom r pluginName cs = \<lparr>sd_id = sdo_id r, sd_pluginId = sdo_pluginId r, sd_pluginName = pluginName,
     sd_name = sdo_name r, sd_matchMode = sdo_matchMode r, sd_type = sdo_type r, sd_sort = sdo_sort r,
     sd_enabled = sdo_enabled r, sd_loged = sdo_loged r, sd_continued = sdo_continued r, sd_handle = sdo_handle r,
     sd_conditionList = cs\<rparr>"

definition rule_transFrom :: "rule_do \<Rightarrow> string \<Rightarrow> condition_data list option \<Rightarrow> rule_data" where
  "rule_transFrom r pluginName cs = \<lparr>rd_id = rdo_id r, rd_name = rdo_name r, rd_pluginName = pluginName,
     rd_selectorId = rdo_selectorId r, rd_matchMode = rdo_matchMode r, rd_sort = rdo_sort r, rd_enabled = rdo_enabled r,
     rd_loged = rdo_loged r, rd_handle = rdo_handle r, rd_conditionDataList = cs\<rparr>"

end
