(* ===== verification/AdminServices.thy ===== *)
theory AdminServices
  imports AdminData
begin

text \<open>
  The services behind the dashboard's plugins, selectors and rules (\<open>PluginServiceImpl\<close>,
  \<open>SelectorServiceImpl\<close>, \<open>RuleServiceImpl\<close>): what they do to the tables, what they publish, and what
  they answer. Each runs alone.
\<close>

subsection \<open>\<open>PluginServiceImpl\<close>\<close>

definition PLUGIN_NAME_IS_EXIST :: string where
  "PLUGIN_NAME_IS_EXIST = utf8 [230, 143, 146, 228, 187, 182, 229, 144, 141, 231, 167, 176, 229, 183, 178,
     231, 187, 143, 229, 173, 152, 229, 156, 168, 239, 188, 140, 228, 184, 141, 232, 131, 189, 233, 135, 141,
     229, 164, 141, 230, 183, 187, 229, 138, 160, 33]"

definition PLUGIN_NAME_NOT_EXIST :: string where
  "PLUGIN_NAME_NOT_EXIST = utf8 [230, 143, 146, 228, 187, 182, 229, 144, 141, 231, 167, 176, 229, 183, 178,
     231, 187, 143, 228, 184, 141, 229, 173, 152, 229, 156, 168, 33]"

definition SYS_PLUGIN_NOT_DELETE :: string where
  "SYS_PLUGIN_NOT_DELETE = utf8 [231, 179, 187, 231, 187, 159, 230, 143, 146, 228, 187, 182, 228, 184, 141,
     232, 131, 189, 229, 136, 160, 233, 153, 164, 33]"

definition SYS_PLUGIN_ID_NOT_EXIST :: string where
  "SYS_PLUGIN_ID_NOT_EXIST = utf8 [230, 143, 146, 228, 187, 182, 105, 100, 228, 184, 141, 229, 173, 152, 229,
     156, 168, 239, 188, 129]"

definition plugin_checkData :: "plugin_dto \<Rightarrow> tables \<Rightarrow> string" where
  "plugin_checkData d t =
     (let exist = plugin_selectByName (pdt_name d) t in
      if is_blank (pdt_id d) then (if exist \<noteq> None then PLUGIN_NAME_IS_EXIST else '''')
      else (case exist of
          None \<Rightarrow> PLUGIN_NAME_NOT_EXIST
        | Some p \<Rightarrow> if Some (pdo_id p) \<noteq> pdt_id d then PLUGIN_NAME_NOT_EXIST else ''''))"

definition plugin_createOrUpdate :: "(nat \<Rightarrow> string) \<Rightarrow> plugin_dto \<Rightarrow> ('u, string) svc" where
  "plugin_createOrUpdate uuid d = transactional (andthen (query (plugin_checkData d)) (\<lambda>msg.
     if \<not> is_blank (Some msg) then returns msg
     else andthen (buildPluginDO uuid d) (\<lambda>p.
       if is_blank (pdt_id d)
       then andthen (execute (plugin_insertSelective p)) (\<lambda>_.
            andthen (publishEvent (PluginChanged EV_CREATE [plugin_mapToData p])) (\<lambda>_. returns ''''))
       else andthen (execute (plugin_updateSelective p)) (\<lambda>_.
            andthen (publishEvent (PluginChanged EV_UPDATE [plugin_mapToData p])) (\<lambda>_. returns '''')))))"

text \<open>The rows of a plugin's selectors, their rules and all conditions go with the plugin.\<close>

definition delete_rule_rows :: "rule_do \<Rightarrow> ('u, unit) svc" where
  "delete_rule_rows r = andthen (execute (rule_deleteRow (rdo_id r))) (\<lambda>_. execute (rule_condition_deleteByQuery (rdo_id r)))"

definition delete_selector_rows :: "selector_do \<Rightarrow> ('u, unit) svc" where
  "delete_selector_rows sel =
     andthen (query (\<lambda>t. rows_with rdo_selectorId (sdo_id sel) (tb_rules t))) (\<lambda>rules.
     andthen (for_all delete_rule_rows rules) (\<lambda>_.
     andthen (execute (selector_deleteRow (sdo_id sel))) (\<lambda>_. execute (selector_condition_deleteByQuery (sdo_id sel)))))"

fun plugin_delete_loop :: "string list \<Rightarrow> ('u, string) svc" where
  "plugin_delete_loop [] = returns ''''"
| "plugin_delete_loop (i # ids) = andthen (query (plugin_selectById i)) (\<lambda>r. case r of
       None \<Rightarrow> returns SYS_PLUGIN_ID_NOT_EXIST
     | Some p \<Rightarrow>
         if pdo_role p = plugin_role_code PR_SYS then returns SYS_PLUGIN_NOT_DELETE
         else andthen (execute (plugin_deleteRow i)) (\<lambda>_.
              andthen (query (\<lambda>t. rows_with sdo_pluginId i (tb_selectors t))) (\<lambda>sels.
              andthen (for_all delete_selector_rows sels) (\<lambda>_.
              andthen (publishEvent (PluginChanged EV_DELETE [plugin_mapToData p])) (\<lambda>_.
              plugin_delete_loop ids)))))"

definition plugin_delete :: "string list \<Rightarrow> ('u, string) svc" where
  "plugin_delete ids = transactional (plugin_delete_loop ids)"

fun plugin_enabled :: "string list \<Rightarrow> bool \<Rightarrow> ('u, string) svc" where
  "plugin_enabled [] enabled = returns ''''"
| "plugin_enabled (i # ids) enabled = andthen (query (plugin_selectById i)) (\<lambda>r. case r of
       None \<Rightarrow> returns SYS_PLUGIN_ID_NOT_EXIST
     | Some p \<Rightarrow>
         (let p' = p\<lparr>pdo_enabled := enabled\<rparr>
          in andthen (execute (plugin_updateEnable p')) (\<lambda>_.
             andthen (publishEvent (PluginChanged EV_UPDATE [plugin_mapToData p'])) (\<lambda>_.
             plugin_enabled ids enabled))))"

definition plugin_listAll :: "tables \<Rightarrow> plugin_data list" where
  "plugin_listAll t = map plugin_mapToData (tb_plugins t)"

subsection \<open>\<open>SelectorServiceImpl\<close>\<close>

definition insert_selector_condition :: "(nat \<Rightarrow> string) \<Rightarrow> string \<Rightarrow> condition_dto \<Rightarrow> ('u, unit) svc" where
  "insert_selector_condition uuid owner d =
     andthen (buildConditionDO uuid owner d) (\<lambda>c. execute (selector_condition_insert c))"

definition selector_publish :: "selector_do \<Rightarrow> condition_dto list \<Rightarrow> ('u, unit) svc" where
  "selector_publish r cs =
     andthen (query (plugin_selectById (sdo_pluginId r))) (\<lambda>p. andthen (derefs p) (\<lambda>p.
       publishEvent (SelectorChanged EV_UPDATE
         [Some (selector_transFrom r (pdo_name p) (Some (map condition_of_dto cs)))])))"

definition selector_register :: "(nat \<Rightarrow> string) \<Rightarrow> selector_dto \<Rightarrow> ('u, string) svc" where
  "selector_register uuid d =
     andthen (buildSelectorDO uuid d) (\<lambda>r.
     andthen (if is_empty_ref (sdt_id d)
         then andthen (execute (selector_insertSelective r)) (\<lambda>_.
              for_all (insert_selector_condition uuid (sdo_id r)) (sdt_selectorConditions d))
         else returns ()) (\<lambda>_.
     andthen (selector_publish r (sdt_selectorConditions d)) (\<lambda>_. returns (sdo_id r))))"

text \<open>The count is that of the rows the statement found.\<close>

definition selector_createOrUpdate :: "(nat \<Rightarrow> string) \<Rightarrow> selector_dto \<Rightarrow> ('u, nat) svc" where
  "selector_createOrUpdate uuid d = transactional (
     andthen (buildSelectorDO uuid d) (\<lambda>r.
     andthen (if is_empty_ref (sdt_id d)
         then andthen (execute (selector_insertSelective r)) (\<lambda>_. returns 1)
         else andthen (query (\<lambda>t. length (rows_with sdo_id (sdo_id r) (tb_selectors t)))) (\<lambda>n.
              andthen (execute (selector_updateSelective r)) (\<lambda>_.
              andthen (execute (selector_condition_deleteByQuery (sdo_id r))) (\<lambda>_. returns n)))) (\<lambda>n.
     andthen (for_all (insert_selector_condition uuid (sdo_id r)) (sdt_selectorConditions d)) (\<lambda>_.
     andthen (selector_publish r (sdt_selectorConditions d)) (\<lambda>_. returns n)))))"

definition upstream_removeByKey :: "string \<Rightarrow> ('u, unit) svc" where
  "upstream_removeByKey n s = (Inr (), s\<lparr>ad_upstreams := remove_key n (ad_upstreams s)\<rparr>)"

definition delete_rule_of :: "string \<Rightarrow> rule_do \<Rightarrow> ('u, unit) svc" where
  "delete_rule_of pluginName r =
     andthen (execute (rule_deleteRow (rdo_id r))) (\<lambda>_.
     andthen (execute (rule_condition_deleteByQuery (rdo_id r))) (\<lambda>_.
     publishEvent (RuleChanged EV_DELETE [Some (rule_transFrom r pluginName None)])))"

definition selector_delete_one :: "string \<Rightarrow> ('u, unit) svc" where
  "selector_delete_one i =
     andthen (query (selector_selectById i)) (\<lambda>r. andthen (derefs r) (\<lambda>sel.
     andthen (query (plugin_selectById (sdo_pluginId sel))) (\<lambda>p.
     andthen (execute (selector_deleteRow i)) (\<lambda>_.
     andthen (execute (selector_condition_deleteByQuery i)) (\<lambda>_.
     andthen (derefs p) (\<lambda>p.
     andthen (if plugin_enum_name PE_DIVIDE = pdo_name p then upstream_removeByKey (sdo_name sel) else returns ()) (\<lambda>_.
     andthen (publishEvent (SelectorChanged EV_DELETE [Some (selector_transFrom sel (pdo_name p) None)])) (\<lambda>_.
     andthen (query (\<lambda>t. rows_with rdo_selectorId i (tb_rules t))) (\<lambda>rules.
     for_all (delete_rule_of (pdo_name p)) rules)))))))))"

definition selector_delete :: "string list \<Rightarrow> ('u, nat) svc" where
  "selector_delete ids = transactional (andthen (for_all selector_delete_one ids) (\<lambda>_. returns (length ids)))"

definition buildSelectorData :: "tables \<Rightarrow> selector_do \<Rightarrow> selector_data option" where
  "buildSelectorData t r =
     (case plugin_selectById (sdo_pluginId r) t of
        None \<Rightarrow> None
      | Some p \<Rightarrow> Some (selector_transFrom r (pdo_name p)
          (Some (map condition_of_do (rows_with cdo_owner (sdo_id r) (tb_selector_conditions t))))))"

definition selector_findByPluginId :: "string \<Rightarrow> tables \<Rightarrow> selector_data option list" where
  "selector_findByPluginId i t = map (buildSelectorData t) (rows_with sdo_pluginId i (tb_selectors t))"

definition selector_listAll :: "tables \<Rightarrow> selector_data option list" where
  "selector_listAll t = map (buildSelectorData t) (tb_selectors t)"

definition selector_buildByName :: "string \<Rightarrow> ('u, selector_data option) svc" where
  "selector_buildByName n =
     andthen (query (selector_selectByName n)) (\<lambda>r. andthen (derefs r) (\<lambda>r. query (\<lambda>t. buildSelectorData t r)))"

subsection \<open>\<open>RuleServiceImpl\<close>\<close>

definition insert_rule_condition :: "(nat \<Rightarrow> string) \<Rightarrow> string \<Rightarrow> condition_dto \<Rightarrow> ('u, unit) svc" where
  "insert_rule_condition uuid owner d =
     andthen (buildConditionDO uuid owner d) (\<lambda>c. execute (rule_condition_insert c))"

definition rule_publish :: "rule_do \<Rightarrow> condition_dto list \<Rightarrow> ('u, unit) svc" where
  "rule_publish r cs =
     andthen (query (selector_selectById (rdo_selectorId r))) (\<lambda>sel. andthen (derefs sel) (\<lambda>sel.
     andthen (query (plugin_selectById (sdo_pluginId sel))) (\<lambda>p. andthen (derefs p) (\<lambda>p.
       publishEvent (RuleChanged EV_UPDATE [Some (rule_transFrom r (pdo_name p) (Some (map condition_of_dto cs)))])))))"

definition rule_register :: "(nat \<Rightarrow> string) \<Rightarrow> rule_dto \<Rightarrow> ('u, string) svc" where
  "rule_register uuid d =
     andthen (buildRuleDO uuid d) (\<lambda>r.
     andthen (if is_empty_ref (rdt_id d)
         then andthen (execute (rule_insertSelective r)) (\<lambda>_.
              for_all (insert_rule_condition uuid (rdo_id r)) (rdt_ruleConditions d))
         else returns ()) (\<lambda>_.
     andthen (rule_publish r (rdt_ruleConditions d)) (\<lambda>_. returns (rdo_id r))))"

definition rule_createOrUpdate :: "(nat \<Rightarrow> string) \<Rightarrow> rule_dto \<Rightarrow> ('u, nat) svc" where
  "rule_createOrUpdate uuid d = transactional (
     andthen (buildRuleDO uuid d) (\<lambda>r.
     andthen (if is_empty_ref (rdt_id d)
         then andthen (execute (rule_insertSelective r)) (\<lambda>_. returns 1)
         else andthen (query (\<lambda>t. length (rows_with rdo_id (rdo_id r) (tb_rules t)))) (\<lambda>n.
              andthen (execute (rule_updateSelective r)) (\<lambda>_.
              andthen (execute (rule_condition_deleteByQuery (rdo_id r))) (\<lambda>_. returns n)))) (\<lambda>n.
     andthen (for_all (insert_rule_condition uuid (rdo_id r)) (rdt_ruleConditions d)) (\<lambda>_.
     andthen (rule_publish r (rdt_ruleConditions d)) (\<lambda>_. returns n)))))"

definition rule_delete_one :: "string \<Rightarrow> ('u, unit) svc" where
  "rule_delete_one i =
     andthen (query (rule_selectById i)) (\<lambda>r. andthen (derefs r) (\<lambda>rule.
     andthen (query (selector_selectById (rdo_selectorId rule))) (\<lambda>sel. andthen (derefs sel) (\<lambda>sel.
     andthen (query (plugin_selectById (sdo_pluginId sel))) (\<lambda>p.
     andthen (execute (rule_deleteRow i)) (\<lambda>_.
     andthen (execute (rule_condition_deleteByQuery i)) (\<lambda>_.
     andthen (derefs p) (\<lambda>p.
     publishEvent (RuleChanged EV_DELETE [Some (rule_transFrom rule (pdo_name p) None)])))))))))"

definition rule_delete :: "string list \<Rightarrow> ('u, nat) svc" where
  "rule_delete ids = transactional (andthen (for_all rule_delete_one ids) (\<lambda>_. returns (length ids)))"

definition buildRuleData :: "tables \<Rightarrow> rule_do \<Rightarrow> rule_data option" where
  "buildRuleData t r =
     (case selector_selectById (rdo_selectorId r) t of
        None \<Rightarrow> None
      | Some sel \<Rightarrow>
          (case plugin_selectById (sdo_pluginId sel) t of
             None \<Rightarrow> None
           | Some p \<Rightarrow> Some (rule_transFrom r (pdo_name p)
               (Some (map condition_of_do (rows_with cdo_owner (rdo_id r) (tb_rule_conditions t)))))))"

definition rule_listAll :: "tables \<Rightarrow> rule_data option list" where
  "rule_listAll t = map (buildRuleData t) (tb_rules t)"

definition rule_findBySelectorId :: "string \<Rightarrow> tables \<Rightarrow> rule_data option list" where
  "rule_findBySelectorId i t = map (buildRuleData t) (rows_with rdo_selectorId i (tb_rules t))"

end
