(* ===== verification/AdminAuth.thy ===== *)
theory AdminAuth
  imports AdminServices
begin

text \<open>
  The services behind application keys and meta data (\<open>AppAuthServiceImpl\<close>, \<open>MetaDataServiceImpl\<close>) and
  the full synchronisation (\<open>SyncDataServiceImpl\<close>).
\<close>

subsection \<open>Requests and answers\<close>

record app_auth_dto =
  adt_id :: "string option"
  adt_appKey :: "string option"
  adt_appSecret :: "string option"
  adt_userId :: "string option"
  adt_phone :: "string option"
  adt_extInfo :: "string option"
  adt_enabled :: bool
  adt_authParamDTOList :: "(string \<times> string option) list option"

record auth_apply_dto =
  aat_appKey :: "string option"
  aat_userId :: "string option"
  aat_phone :: "string option"
  aat_appName :: "string option"
  aat_appParam :: "string option"
  aat_extInfo :: "string option"
  aat_pathList :: "string list option"

text \<open>Name of the application and path of each entry.\<close>

record auth_path_warp_dto =
  apt_id :: string
  apt_authPathDTOList :: "(string \<times> string) list option"

record meta_data_dto =
  mdt_id :: "string option"
  mdt_appName :: "string option"
  mdt_contextPath :: "string option"
  mdt_path :: "string option"
  mdt_pathDesc :: string
  mdt_rpcType :: "string option"
  mdt_serviceName :: "string option"
  mdt_methodName :: "string option"
  mdt_parameterTypes :: "string option"
  mdt_rpcExt :: "string option"
  mdt_enabled :: bool

text \<open>\<open>SoulAdminResult\<close> without data: successful or not, with its message.\<close>

datatype admin_result = Success "string option" | Failure string

subsection \<open>\<open>AppAuthServiceImpl\<close>\<close>

text \<open>A list that may be null, where the code asks whether it is null or empty.\<close>

definition the_list :: "'a list option \<Rightarrow> 'a list" where
  "the_list xs = (case xs of None \<Rightarrow> [] | Some ys \<Rightarrow> ys)"

definition PARAMETER_ERROR :: string where "PARAMETER_ERROR = ''parameter error''"
definition CREATE_SUCCESS :: string where "CREATE_SUCCESS = ''create success''"
definition UPDATE_SUCCESS :: string where "UPDATE_SUCCESS = ''update success''"
definition APPKEY_NOT_EXIST_ERROR :: string where "APPKEY_NOT_EXIST_ERROR = ''the appKey passed in does not exist''"

definition ID_NOT_EXIST :: string where
  "ID_NOT_EXIST = utf8 [105, 100, 228, 184, 141, 229, 173, 152, 229, 156, 168, 239, 188, 129]"

definition auth_selectById :: "string \<Rightarrow> tables \<Rightarrow> app_auth_do option" where
  "auth_selectById i t = row_with ado_id i (tb_auths t)"

definition auth_insert :: "app_auth_do \<Rightarrow> tables \<Rightarrow> tables jres" where
  "auth_insert r t = bindr (insert_row ado_id r (tb_auths t)) (\<lambda>rs. Inr (t\<lparr>tb_auths := rs\<rparr>))"

text \<open>\<open>update\<close>, \<open>updateSelective\<close> and \<open>updateEnable\<close> never change the key.\<close>

definition auth_update :: "app_auth_do \<Rightarrow> tables \<Rightarrow> tables jres" where
  "auth_update r t = Inr (t\<lparr>tb_auths := update_with ado_id (ado_id r) (\<lambda>old. old\<lparr>ado_appSecret := ado_appSecret r,
     ado_phone := ado_phone r, ado_extInfo := ado_extInfo r, ado_enabled := ado_enabled r\<rparr>) (tb_auths t)\<rparr>)"

definition auth_updateEnable :: "app_auth_do \<Rightarrow> tables \<Rightarrow> tables jres" where
  "auth_updateEnable r t =
     Inr (t\<lparr>tb_auths := update_with ado_id (ado_id r) (\<lambda>old. old\<lparr>ado_enabled := ado_enabled r\<rparr>) (tb_auths t)\<rparr>)"

definition auth_deleteRow :: "string \<Rightarrow> tables \<Rightarrow> tables jres" where
  "auth_deleteRow i t = Inr (t\<lparr>tb_auths := delete_with ado_id i (tb_auths t)\<rparr>)"

definition auth_param_save :: "auth_param_do \<Rightarrow> tables \<Rightarrow> tables jres" where
  "auth_param_save r t = bindr (insert_row apo_id r (tb_auth_params t)) (\<lambda>rs. Inr (t\<lparr>tb_auth_params := rs\<rparr>))"

definition auth_param_deleteByAuthId :: "string \<Rightarrow> tables \<Rightarrow> tables jres" where
  "auth_param_deleteByAuthId i t = Inr (t\<lparr>tb_auth_params := delete_with apo_authId i (tb_auth_params t)\<rparr>)"

text \<open>One statement: all rows are inserted or none.\<close>

fun insert_rows :: "('r \<Rightarrow> 'k) \<Rightarrow> 'r list \<Rightarrow> 'r list \<Rightarrow> 'r list jres" where
  "insert_rows key [] rows = Inr rows"
| "insert_rows key (r # rs) rows = bindr (insert_row key r rows) (insert_rows key rs)"

definition auth_param_batchSave :: "auth_param_do list \<Rightarrow> tables \<Rightarrow> tables jres" where
  "auth_param_batchSave ps t = bindr (insert_rows apo_id ps (tb_auth_params t)) (\<lambda>rs. Inr (t\<lparr>tb_auth_params := rs\<rparr>))"

definition auth_path_batchSave :: "auth_path_do list \<Rightarrow> tables \<Rightarrow> tables jres" where
  "auth_path_batchSave ps t = bindr (insert_rows aho_id ps (tb_auth_paths t)) (\<lambda>rs. Inr (t\<lparr>tb_auth_paths := rs\<rparr>))"

definition auth_path_deleteByAuthId :: "string \<Rightarrow> tables \<Rightarrow> tables jres" where
  "auth_path_deleteByAuthId i t = Inr (t\<lparr>tb_auth_paths := delete_with aho_authId i (tb_auth_paths t)\<rparr>)"

definition auth_path_deleteByAuthIdAndAppName :: "string \<Rightarrow> string \<Rightarrow> tables \<Rightarrow> tables jres" where
  "auth_path_deleteByAuthIdAndAppName i n t =
     Inr (t\<lparr>tb_auth_paths := filter (\<lambda>r. \<not> (aho_authId r = i \<and> aho_appName r = n)) (tb_auth_paths t)\<rparr>)"

fun svc_map :: "('x \<Rightarrow> ('u, 'y) svc) \<Rightarrow> 'x list \<Rightarrow> ('u, 'y list) svc" where
  "svc_map f [] = returns []"
| "svc_map f (x # xs) = andthen (f x) (\<lambda>y. andthen (svc_map f xs) (\<lambda>ys. returns (y # ys)))"

definition buildAuthParamDO :: "(nat \<Rightarrow> string) \<Rightarrow> string \<Rightarrow> string \<Rightarrow> string option \<Rightarrow> ('u, auth_param_do) svc" where
  "buildAuthParamDO uuid authId appName appParam = andthen (generateShortUuid uuid) (\<lambda>i. returns
     \<lparr>apo_id = i, apo_authId = authId, apo_appName = appName, apo_appParam = appParam\<rparr>)"

definition buildAuthPathDO :: "(nat \<Rightarrow> string) \<Rightarrow> string \<Rightarrow> string \<Rightarrow> string \<Rightarrow> ('u, auth_path_do) svc" where
  "buildAuthPathDO uuid authId appName path = andthen (generateShortUuid uuid) (\<lambda>i. returns
     \<lparr>aho_id = i, aho_authId = authId, aho_appName = appName, aho_path = path, aho_enabled = True\<rparr>)"

text \<open>An empty list of parameters or paths is left null.\<close>

definition non_empty :: "'a list \<Rightarrow> 'a list option" where
  "non_empty xs = (if xs = [] then None else Some xs)"

definition auth_param_data_of :: "auth_param_do \<Rightarrow> auth_param_data" where
  "auth_param_data_of p = \<lparr>ap_appName = apo_appName p, ap_appParam = apo_appParam p\<rparr>"

definition auth_path_data_of :: "auth_path_do \<Rightarrow> auth_path_data" where
  "auth_path_data_of p = \<lparr>ah_appName = aho_appName p, ah_path = aho_path p, ah_enabled = aho_enabled p\<rparr>"

definition buildByEntity :: "tables \<Rightarrow> app_auth_do \<Rightarrow> app_auth_data" where
  "buildByEntity t r =
     \<lparr>aa_appKey = ado_appKey r, aa_appSecret = ado_appSecret r, aa_enabled = ado_enabled r,
      aa_paramDataList = non_empty (map auth_param_data_of (rows_with apo_authId (ado_id r) (tb_auth_params t))),
      aa_pathDataList = non_empty (map auth_path_data_of (rows_with aho_authId (ado_id r) (tb_auth_paths t)))\<rparr>"

text \<open>\<open>generateKey\<close> is random: the keys it gives are those of \<open>key\<close>, by the same count as identifiers.\<close>

definition applyCreate :: "(nat \<Rightarrow> string) \<Rightarrow> (nat \<Rightarrow> string) \<Rightarrow> auth_apply_dto \<Rightarrow> ('u, admin_result) svc" where
  "applyCreate uuid key d = transactional (
     if is_blank (aat_appName d) \<or> the_list (aat_pathList d) = [] then returns (Failure PARAMETER_ERROR)
     else
       andthen (generateShortUuid uuid) (\<lambda>i. andthen (generateShortUuid key) (\<lambda>k. andthen (generateShortUuid key) (\<lambda>sec.
       let r = \<lparr>ado_id = i, ado_appKey = k, ado_appSecret = sec, ado_enabled = True, ado_userId = aat_userId d,
                ado_phone = aat_phone d, ado_extInfo = aat_extInfo d\<rparr>;
           app = the (aat_appName d)
       in andthen (execute (auth_insert r)) (\<lambda>_.
          andthen (buildAuthParamDO uuid i app (aat_appParam d)) (\<lambda>p.
          andthen (execute (auth_param_save p)) (\<lambda>_.
          andthen (svc_map (\<lambda>path. buildAuthPathDO uuid i app path) (the_list (aat_pathList d))) (\<lambda>ps.
          andthen (execute (auth_path_batchSave ps)) (\<lambda>_.
          andthen (publishEvent (AuthChanged EV_CREATE
            [\<lparr>aa_appKey = k, aa_appSecret = sec, aa_enabled = True, aa_paramDataList = Some [auth_param_data_of p],
              aa_pathDataList = Some (map auth_path_data_of ps)\<rparr>])) (\<lambda>_.
          returns (Success (Some CREATE_SUCCESS))))))))))))"

definition applyUpdate :: "(nat \<Rightarrow> string) \<Rightarrow> auth_apply_dto \<Rightarrow> ('u, admin_result) svc" where
  "applyUpdate uuid d =
     (if is_blank (aat_appKey d) \<or> is_blank (aat_appName d) \<or> the_list (aat_pathList d) = [] then returns (Failure PARAMETER_ERROR)
      else andthen (query (\<lambda>t. row_with ado_appKey (the (aat_appKey d)) (tb_auths t))) (\<lambda>r. case r of
          None \<Rightarrow> returns (Failure APPKEY_NOT_EXIST_ERROR)
        | Some r \<Rightarrow>
            (let app = the (aat_appName d) in
             andthen (query (\<lambda>t. find (\<lambda>p. apo_authId p = ado_id r \<and> apo_appName p = app) (tb_auth_params t))) (\<lambda>p.
             andthen (if p = None
                 then andthen (buildAuthParamDO uuid (ado_id r) app (aat_appParam d)) (\<lambda>p. execute (auth_param_save p))
                 else returns ()) (\<lambda>_.
             andthen (query (\<lambda>t. filter (\<lambda>h. aho_authId h = ado_id r \<and> aho_appName h = app) (tb_auth_paths t))) (\<lambda>existList.
             andthen (if existList \<noteq> [] then execute (auth_path_deleteByAuthIdAndAppName (ado_id r) app) else returns ()) (\<lambda>_.
             andthen (svc_map (\<lambda>path. buildAuthPathDO uuid (ado_id r) app path) (the_list (aat_pathList d))) (\<lambda>ps.
             andthen (execute (auth_path_batchSave ps)) (\<lambda>_.
             andthen (query (\<lambda>t. buildByEntity t r)) (\<lambda>data.
             andthen (publishEvent (AuthChanged EV_CREATE [data])) (\<lambda>_. returns (Success (Some UPDATE_SUCCESS)))))))))))))"

definition updateDetail :: "(nat \<Rightarrow> string) \<Rightarrow> app_auth_dto \<Rightarrow> ('u, admin_result) svc" where
  "updateDetail uuid d =
     (if is_blank (adt_appKey d) \<or> is_blank (adt_appSecret d) \<or> is_blank (adt_id d) then returns (Failure PARAMETER_ERROR)
      else
        (let r = \<lparr>ado_id = the (adt_id d), ado_appKey = the (adt_appKey d), ado_appSecret = the (adt_appSecret d),
                  ado_enabled = adt_enabled d, ado_userId = adt_userId d, ado_phone = adt_phone d, ado_extInfo = adt_extInfo d\<rparr>;
             params = the_list (adt_authParamDTOList d)
         in andthen (execute (auth_update r)) (\<lambda>_.
            andthen (if params \<noteq> []
                then andthen (execute (auth_param_deleteByAuthId (ado_id r))) (\<lambda>_.
                     andthen (svc_map (\<lambda>(n, p). buildAuthParamDO uuid (ado_id r) n p) params) (\<lambda>ps.
                     execute (auth_param_batchSave ps)))
                else returns ()) (\<lambda>_.
            andthen (query (\<lambda>t. buildByEntity t r)) (\<lambda>data.
            andthen (publishEvent (AuthChanged EV_UPDATE [data])) (\<lambda>_. returns (Success (Some ''''))))))))"

definition updateDetailPath :: "(nat \<Rightarrow> string) \<Rightarrow> auth_path_warp_dto \<Rightarrow> ('u, admin_result) svc" where
  "updateDetailPath uuid d =
     andthen (query (auth_selectById (apt_id d))) (\<lambda>r. case r of
       None \<Rightarrow> returns (Failure ID_NOT_EXIST)
     | Some r \<Rightarrow>
         (let paths = the_list (apt_authPathDTOList d) in
          andthen (if paths \<noteq> []
              then andthen (execute (auth_path_deleteByAuthId (apt_id d))) (\<lambda>_.
                   andthen (svc_map (\<lambda>(n, p). buildAuthPathDO uuid (ado_id r) n p) paths) (\<lambda>ps.
                   execute (auth_path_batchSave ps)))
              else returns ()) (\<lambda>_.
          andthen (query (\<lambda>t. buildByEntity t r)) (\<lambda>data.
          andthen (publishEvent (AuthChanged EV_UPDATE [data])) (\<lambda>_. returns (Success (Some '''')))))))"

definition auth_syncData :: "('u, admin_result) svc" where
  "auth_syncData =
     andthen (query (\<lambda>t. map (buildByEntity t) (tb_auths t))) (\<lambda>ds.
     andthen (if ds \<noteq> [] then publishEvent (AuthChanged EV_REFRESH ds) else returns ()) (\<lambda>_. returns (Success (Some ''''))))"

text \<open>
  \<open>delete\<close> (not transactional) reads the row after deleting it. \<open>auth_delete_one\<close> is the loop's body; it
  returns how many rows it deleted.
\<close>

definition auth_delete_one :: "string \<Rightarrow> ('u, nat) svc" where
  "auth_delete_one i =
     andthen (query (\<lambda>t. length (rows_with ado_id i (tb_auths t)))) (\<lambda>n.
     andthen (execute (auth_deleteRow i)) (\<lambda>_.
     andthen (execute (auth_param_deleteByAuthId i)) (\<lambda>_.
     andthen (execute (auth_path_deleteByAuthId i)) (\<lambda>_.
     andthen (query (auth_selectById i)) (\<lambda>r. andthen (derefs r) (\<lambda>r.
     andthen (publishEvent (AuthChanged EV_DELETE [\<lparr>aa_appKey = ado_appKey r, aa_appSecret = ado_appSecret r,
        aa_enabled = ado_enabled r, aa_paramDataList = None, aa_pathDataList = None\<rparr>])) (\<lambda>_. returns n)))))))"

definition auth_delete :: "string list \<Rightarrow> ('u, nat) svc" where
  "auth_delete ids = andthen (svc_map auth_delete_one ids) (\<lambda>ns. returns (sum_list ns))"

text \<open>\<open>enabled\<close> publishes at its end, and not at all when an identifier is unknown.\<close>

fun auth_enabled_loop :: "string list \<Rightarrow> bool \<Rightarrow> app_auth_data list \<Rightarrow> ('u, string) svc" where
  "auth_enabled_loop [] enabled ds = andthen (publishEvent (AuthChanged EV_UPDATE ds)) (\<lambda>_. returns '''')"
| "auth_enabled_loop (i # ids) enabled ds = andthen (query (auth_selectById i)) (\<lambda>r. case r of
       None \<Rightarrow> returns ID_NOT_EXIST
     | Some r \<Rightarrow>
         (let r' = r\<lparr>ado_enabled := enabled\<rparr>
          in andthen (execute (auth_updateEnable r')) (\<lambda>_.
             andthen (query (\<lambda>t. buildByEntity t r')) (\<lambda>data. auth_enabled_loop ids enabled (ds @ [data])))))"

definition auth_enabled :: "string list \<Rightarrow> bool \<Rightarrow> ('u, string) svc" where
  "auth_enabled ids enabled = auth_enabled_loop ids enabled []"

text \<open>What a configuration fetch gets: no parameters and no paths.\<close>

definition auth_listAll :: "tables \<Rightarrow> app_auth_data list" where
  "auth_listAll t = map (\<lambda>r. \<lparr>aa_appKey = ado_appKey r, aa_appSecret = ado_appSecret r, aa_enabled = ado_enabled r,
     aa_paramDataList = None, aa_pathDataList = None\<rparr>) (tb_auths t)"

text \<open>\<open>updateAppSecretByAppKey\<close> publishes nothing.\<close>

definition updateAppSecretByAppKey :: "string \<Rightarrow> string \<Rightarrow> ('u, nat) svc" where
  "updateAppSecretByAppKey k sec =
     andthen (query (\<lambda>t. length (rows_with ado_appKey k (tb_auths t)))) (\<lambda>n.
     andthen (execute (\<lambda>t. Inr (t\<lparr>tb_auths := update_with ado_appKey k (\<lambda>r. r\<lparr>ado_appSecret := sec\<rparr>) (tb_auths t)\<rparr>))) (\<lambda>_.
     returns n))"

subsection \<open>\<open>MetaDataServiceImpl\<close>\<close>

definition DATA_PATH_IS_EXIST :: string where
  "DATA_PATH_IS_EXIST = utf8 [232, 183, 175, 229, 190, 132, 229, 183, 178, 231, 187, 143, 229, 173, 152, 229,
     156, 168, 239, 188, 140, 228, 184, 141, 232, 131, 189, 233, 135, 141, 229, 164, 141, 230, 183, 187, 229,
     138, 160, 33]"

definition PARAMS_ERROR :: string where
  "PARAMS_ERROR = utf8 [229, 143, 130, 230, 149, 176, 228, 184, 141, 229, 174, 140, 230, 149, 180, 239, 188,
     129]"

definition meta_selectById :: "string \<Rightarrow> tables \<Rightarrow> meta_data_do option" where
  "meta_selectById i t = row_with mdo_id i (tb_metas t)"

definition meta_insert :: "meta_data_do \<Rightarrow> tables \<Rightarrow> tables jres" where
  "meta_insert r t =
     (if mdo_path r \<in> mdo_path ` set (tb_metas t) then Inl duplicate
      else bindr (insert_row mdo_id r (tb_metas t)) (\<lambda>rs. Inr (t\<lparr>tb_metas := rs\<rparr>)))"

text \<open>\<open>update\<close> writes every column but \<open>enabled\<close>.\<close>

definition meta_update :: "meta_data_do \<Rightarrow> tables \<Rightarrow> tables jres" where
  "meta_update r t =
     (if mdo_id r \<in> mdo_id ` set (tb_metas t)
         \<and> mdo_path r \<in> mdo_path ` set (delete_with mdo_id (mdo_id r) (tb_metas t)) then Inl duplicate
      else Inr (t\<lparr>tb_metas := update_with mdo_id (mdo_id r) (\<lambda>old. r\<lparr>mdo_enabled := mdo_enabled old\<rparr>) (tb_metas t)\<rparr>))"

definition meta_updateEnable :: "meta_data_do \<Rightarrow> tables \<Rightarrow> tables jres" where
  "meta_updateEnable r t =
     Inr (t\<lparr>tb_metas := update_with mdo_id (mdo_id r) (\<lambda>old. old\<lparr>mdo_enabled := mdo_enabled r\<rparr>) (tb_metas t)\<rparr>)"

definition meta_deleteRow :: "string \<Rightarrow> tables \<Rightarrow> tables jres" where
  "meta_deleteRow i t = Inr (t\<lparr>tb_metas := delete_with mdo_id i (tb_metas t)\<rparr>)"

text \<open>A row has no context path.\<close>

definition meta_of_do :: "meta_data_do \<Rightarrow> meta_data" where
  "meta_of_do r = \<lparr>md_id = Some (mdo_id r), md_appName = mdo_appName r, md_contextPath = None, md_path = mdo_path r,
     md_rpcType = mdo_rpcType r, md_serviceName = mdo_serviceName r, md_methodName = mdo_methodName r,
     md_parameterTypes = mdo_parameterTypes r, md_rpcExt = mdo_rpcExt r, md_enabled = mdo_enabled r\<rparr>"

text \<open>Both for a request whose parameters have been checked.\<close>

definition meta_of_dto :: "meta_data_dto \<Rightarrow> meta_data" where
  "meta_of_dto d = \<lparr>md_id = mdt_id d, md_appName = the (mdt_appName d), md_contextPath = mdt_contextPath d,
     md_path = the (mdt_path d), md_rpcType = the (mdt_rpcType d), md_serviceName = mdt_serviceName d,
     md_methodName = mdt_methodName d, md_parameterTypes = mdt_parameterTypes d, md_rpcExt = mdt_rpcExt d,
     md_enabled = mdt_enabled d\<rparr>"

definition meta_mapToEntity :: "string \<Rightarrow> meta_data_dto \<Rightarrow> meta_data_do" where
  "meta_mapToEntity i d = \<lparr>mdo_id = i, mdo_appName = the (mdt_appName d), mdo_path = the (mdt_path d),
     mdo_pathDesc = mdt_pathDesc d, mdo_rpcType = the (mdt_rpcType d), mdo_serviceName = mdt_serviceName d,
     mdo_methodName = mdt_methodName d, mdo_parameterTypes = mdt_parameterTypes d, mdo_rpcExt = mdt_rpcExt d,
     mdo_enabled = mdt_enabled d\<rparr>"

definition meta_checkParam :: "meta_data_dto \<Rightarrow> bool" where
  "meta_checkParam d \<longleftrightarrow> \<not> is_empty_ref (mdt_appName d) \<and> \<not> is_empty_ref (mdt_path d) \<and> \<not> is_empty_ref (mdt_rpcType d)
     \<and> \<not> is_empty_ref (mdt_serviceName d) \<and> \<not> is_empty_ref (mdt_methodName d)"

definition meta_checkData :: "meta_data_dto \<Rightarrow> tables \<Rightarrow> string" where
  "meta_checkData d t =
     (if \<not> meta_checkParam d then PARAMS_ERROR
      else case row_with mdo_path (the (mdt_path d)) (tb_metas t) of
          Some exist \<Rightarrow> if Some (mdo_id exist) \<noteq> mdt_id d then DATA_PATH_IS_EXIST else ''''
        | None \<Rightarrow> '''')"

definition meta_createOrUpdate :: "(nat \<Rightarrow> string) \<Rightarrow> meta_data_dto \<Rightarrow> ('u, string) svc" where
  "meta_createOrUpdate uuid d = andthen (query (meta_checkData d)) (\<lambda>msg.
     if \<not> is_blank (Some msg) then returns msg
     else if is_empty_ref (mdt_id d)
     then andthen (generateShortUuid uuid) (\<lambda>i.
          andthen (execute (meta_insert (meta_mapToEntity i d))) (\<lambda>_.
          andthen (publishEvent (MetaChanged EV_CREATE [Some (meta_of_dto d)])) (\<lambda>_. returns '''')))
     else andthen (query (meta_selectById (the (mdt_id d)))) (\<lambda>m.
          let d' = (case m of Some e \<Rightarrow> d\<lparr>mdt_enabled := mdo_enabled e\<rparr> | None \<Rightarrow> d)
          in andthen (execute (meta_update (meta_mapToEntity (the (mdt_id d)) d))) (\<lambda>_.
             andthen (publishEvent (MetaChanged EV_UPDATE [Some (meta_of_dto d')])) (\<lambda>_. returns ''''))))"

fun meta_delete_loop :: "string list \<Rightarrow> nat \<Rightarrow> meta_data option list \<Rightarrow> ('u, nat) svc" where
  "meta_delete_loop [] count ds = andthen (publishEvent (MetaChanged EV_DELETE ds)) (\<lambda>_. returns count)"
| "meta_delete_loop (i # ids) count ds =
     andthen (query (meta_selectById i)) (\<lambda>r.
     andthen (query (\<lambda>t. length (rows_with mdo_id i (tb_metas t)))) (\<lambda>n.
     andthen (execute (meta_deleteRow i)) (\<lambda>_. meta_delete_loop ids (count + n) (ds @ [map_option meta_of_do r]))))"

definition meta_delete :: "string list \<Rightarrow> ('u, nat) svc" where
  "meta_delete ids = transactional (meta_delete_loop ids 0 [])"

fun meta_enabled_loop :: "string list \<Rightarrow> bool \<Rightarrow> meta_data option list \<Rightarrow> ('u, string) svc" where
  "meta_enabled_loop [] enabled ds = andthen (publishEvent (MetaChanged EV_UPDATE ds)) (\<lambda>_. returns '''')"
| "meta_enabled_loop (i # ids) enabled ds = andthen (query (meta_selectById i)) (\<lambda>r. case r of
       None \<Rightarrow> returns ID_NOT_EXIST
     | Some r \<Rightarrow>
         (let r' = r\<lparr>mdo_enabled := enabled\<rparr>
          in andthen (execute (meta_updateEnable r')) (\<lambda>_. meta_enabled_loop ids enabled (ds @ [Some (meta_of_do r')]))))"

definition meta_enabled :: "string list \<Rightarrow> bool \<Rightarrow> ('u, string) svc" where
  "meta_enabled ids enabled = meta_enabled_loop ids enabled []"

definition meta_syncData :: "('u, unit) svc" where
  "meta_syncData = andthen (query tb_metas) (\<lambda>all.
     if all \<noteq> [] then publishEvent (MetaChanged EV_REFRESH (map (Some \<circ> meta_of_do) all)) else returns ())"

definition meta_listAll :: "tables \<Rightarrow> meta_data option list" where
  "meta_listAll t = map (Some \<circ> meta_of_do) (tb_metas t)"

subsection \<open>\<open>SyncDataServiceImpl\<close>\<close>

definition syncAll :: "data_event_type \<Rightarrow> ('u, bool) svc" where
  "syncAll ty =
     andthen auth_syncData (\<lambda>_.
     andthen (query plugin_listAll) (\<lambda>ps. andthen (publishEvent (PluginChanged ty ps)) (\<lambda>_.
     andthen (query selector_listAll) (\<lambda>ss. andthen (publishEvent (SelectorChanged ty ss)) (\<lambda>_.
     andthen (query rule_listAll) (\<lambda>rs. andthen (publishEvent (RuleChanged ty rs)) (\<lambda>_.
     andthen meta_syncData (\<lambda>_. returns True))))))))"

text \<open>\<open>syncPluginData\<close>; for a plugin that is gone building its view throws, for null among its selectors reading its id.\<close>

definition syncPluginData :: "string \<Rightarrow> ('u, bool) svc" where
  "syncPluginData i =
     andthen (query (plugin_selectById i)) (\<lambda>p. andthen (derefs p) (\<lambda>p.
     andthen (publishEvent (PluginChanged EV_UPDATE [plugin_mapToData p])) (\<lambda>_.
     andthen (query (selector_findByPluginId i)) (\<lambda>ss.
     if ss = [] then returns True
     else andthen (publishEvent (SelectorChanged EV_REFRESH ss)) (\<lambda>_.
          andthen (svc_map (\<lambda>sel. andthen (derefs sel) (\<lambda>sel. query (rule_findBySelectorId (sd_id sel)))) ss) (\<lambda>rss.
          andthen (publishEvent (RuleChanged EV_REFRESH (concat rss))) (\<lambda>_. returns True)))))))"

end
