(* ===== verification/WebsocketSync.thy ===== *)
theory WebsocketSync
  imports AdminAuth GlobalContext Sign
begin

text \<open>
  Synchronisation by websocket: the admin's \<open>WebsocketDataChangedListener\<close> and \<open>WebsocketCollector\<close>, the
  gateway's \<open>SoulWebsocketClient\<close> with the handlers of the five groups, and the link between one
  gateway and the admin as a state machine. A message is taken as the rows it was written from; the
  JSON text in between is Gson's.
\<close>

subsection \<open>The gateway\<close>

text \<open>The subscriber of plugins, selectors and rules, and the caches behind the sign and the global plugin's subscribers.\<close>

record 'h gateway =
  gw_sub :: "'h subscriber_state"
  gw_auths :: auth_cache
  gw_metas :: meta_map

type_synonym 's updates = "'s \<Rightarrow> 's \<times> jexn option"

definition and_then :: "'s updates \<Rightarrow> 's updates \<Rightarrow> 's updates" where
  "and_then f g s = (case f s of (s', None) \<Rightarrow> g s' | r \<Rightarrow> r)"

text \<open>\<open>dataList.forEach(f)\<close>: an exception ends the loop.\<close>

fun each :: "('a \<Rightarrow> 's updates) \<Rightarrow> 'a list \<Rightarrow> 's updates" where
  "each f [] s = (s, None)"
| "each f (x # xs) s = (case f x s of (s', None) \<Rightarrow> each f xs s' | r \<Rightarrow> r)"

definition nullable :: "('a \<Rightarrow> 's updates) \<Rightarrow> 'a option \<Rightarrow> 's updates" where
  "nullable f x s = (case x of None \<Rightarrow> (s, Some NullPointer) | Some y \<Rightarrow> f y s)"

definition on_sub :: "'h subscriber_state updates \<Rightarrow> 'h gateway updates" where
  "on_sub f g = (case f (gw_sub g) of (s, e) \<Rightarrow> (g\<lparr>gw_sub := s\<rparr>, e))"

definition on_cache :: "(base_data_cache \<Rightarrow> base_data_cache) \<Rightarrow> 'h subscriber_state updates" where
  "on_cache f s = (s\<lparr>ss_cache := f (ss_cache s)\<rparr>, None)"

definition auth_sub :: "(app_auth_data \<Rightarrow> auth_cache \<Rightarrow> auth_cache) \<Rightarrow> app_auth_data \<Rightarrow> 'h gateway updates" where
  "auth_sub f d g = (g\<lparr>gw_auths := f d (gw_auths g)\<rparr>, None)"

definition meta_sub :: "(meta_data \<Rightarrow> meta_map \<Rightarrow> meta_map) \<Rightarrow> meta_data \<Rightarrow> 'h gateway updates" where
  "meta_sub f d g = (g\<lparr>gw_metas := f d (gw_metas g)\<rparr>, None)"

subsection \<open>The handlers of the groups\<close>

type_synonym 'h handlers = "string \<rightharpoonup> 'h plugin_data_handler"

text \<open>\<open>AbstractDataHandler.handle\<close>.\<close>

definition handle ::
  "('a list \<Rightarrow> 's updates) \<Rightarrow> ('a list \<Rightarrow> 's updates) \<Rightarrow> ('a list \<Rightarrow> 's updates) \<Rightarrow> 'a list \<Rightarrow> string \<Rightarrow> 's updates" where
  "handle doRefresh doUpdate doDelete ds eventType s =
     (if ds = [] then (s, None)
      else case data_event_type_acquireByName (Some eventType) of
          Inl e \<Rightarrow> (s, Some e)
        | Inr ty \<Rightarrow> (case ty of
            EV_REFRESH \<Rightarrow> doRefresh ds s
          | EV_MYSELF \<Rightarrow> doRefresh ds s
          | EV_UPDATE \<Rightarrow> doUpdate ds s
          | EV_CREATE \<Rightarrow> doUpdate ds s
          | EV_DELETE \<Rightarrow> doDelete ds s))"

text \<open>\<open>refreshPluginDataSelf\<close> and its siblings remove the entries of the list one by one.\<close>

definition plugin_doRefresh :: "'h handlers \<Rightarrow> plugin_data list \<Rightarrow> 'h subscriber_state updates" where
  "plugin_doRefresh hm ds = and_then (\<lambda>s. (refreshPluginDataSelf (Some ds) s, None)) (each (onSubscribe hm) ds)"

definition selector_doRefresh :: "'h handlers \<Rightarrow> selector_data option list \<Rightarrow> 'h subscriber_state updates" where
  "selector_doRefresh hm ds = and_then (each (nullable (\<lambda>d. on_cache (removeSelectData d))) ds)
     (each (nullable (onSelectorSubscribe hm)) ds)"

definition rule_doRefresh :: "'h handlers \<Rightarrow> rule_data option list \<Rightarrow> 'h subscriber_state updates" where
  "rule_doRefresh hm ds = and_then (each (nullable (\<lambda>d. on_cache (removeRuleData d))) ds)
     (each (nullable (onRuleSubscribe hm)) ds)"

text \<open>The subscribers' \<open>refresh\<close> is the empty method of their interfaces.\<close>

definition ws_executor :: "'h handlers \<Rightarrow> config_rows \<Rightarrow> string \<Rightarrow> 'h gateway updates" where
  "ws_executor hm rows eventType =
     (case rows of
        PluginRows ds \<Rightarrow> on_sub (handle (plugin_doRefresh hm) (each (onSubscribe hm)) (each (unSubscribe hm)) ds eventType)
      | SelectorRows ds \<Rightarrow> on_sub (handle (selector_doRefresh hm) (each (nullable (onSelectorSubscribe hm)))
          (each (nullable (unSelectorSubscribe hm))) ds eventType)
      | RuleRows ds \<Rightarrow> on_sub (handle (rule_doRefresh hm) (each (nullable (onRuleSubscribe hm)))
          (each (nullable (unRuleSubscribe hm))) ds eventType)
      | AuthRows ds \<Rightarrow> handle (each (auth_sub auth_onSubscribe)) (each (auth_sub auth_onSubscribe))
          (each (auth_sub auth_unSubscribe)) ds eventType
      | MetaRows ds \<Rightarrow> handle (each (nullable (meta_sub meta_onSubscribe))) (each (nullable (meta_sub meta_onSubscribe)))
          (each (nullable (meta_sub meta_unSubscribe))) ds eventType)"

text \<open>A message: the names of its group and event type, and its rows.\<close>

record websocket_message =
  wm_groupType :: string
  wm_eventType :: string
  wm_data :: config_rows

definition ws_message :: "data_event \<Rightarrow> websocket_message" where
  "ws_message ev = \<lparr>wm_groupType = config_group_name (rows_group (event_rows ev)),
     wm_eventType = data_event_type_name (event_type ev), wm_data = event_rows ev\<rparr>"

definition handleResult :: "'h handlers \<Rightarrow> websocket_message \<Rightarrow> 'h gateway updates" where
  "handleResult hm m g =
     (case config_group_acquireByName (Some (wm_groupType m)) of
        Inl e \<Rightarrow> (g, Some e)
      | Inr _ \<Rightarrow> ws_executor hm (wm_data m) (wm_eventType m) g)"

subsection \<open>The link\<close>

text \<open>
  The admin with the sessions of its collector and the one that asked last (\<open>session\<close>); the
  gateway's client: its open session, whether it has asked for the data, and the gateway.
\<close>

record ('u, 'h) link =
  lk_admin :: "'u admin"
  lk_SESSION_SET :: "nat list"
  lk_session :: "nat option"
  lk_fresh :: nat
  lk_client :: "nat option"
  lk_alreadySync :: bool
  lk_gateway :: "'h gateway"

text \<open>\<open>WebsocketCollector.send\<close>: whom a message goes to.\<close>

definition collector_send :: "nat list \<Rightarrow> nat option \<Rightarrow> data_event_type \<Rightarrow> nat list jres" where
  "collector_send SESSION_SET session ty =
     (if ty = EV_MYSELF then bindr (deref session) (\<lambda>s. Inr [s]) else Inr SESSION_SET)"

definition receives :: "('u, 'h) link \<Rightarrow> data_event \<Rightarrow> bool" where
  "receives st ev =
     (case (lk_client st, collector_send (lk_SESSION_SET st) (lk_session st) (event_type ev)) of
        (Some c, Inr ss) \<Rightarrow> c \<in> set ss
      | _ \<Rightarrow> False)"

definition deliver :: "'h handlers \<Rightarrow> data_event \<Rightarrow> ('u, 'h) link \<Rightarrow> ('u, 'h) link" where
  "deliver hm ev st =
     (if receives st ev then st\<lparr>lk_gateway := fst (handleResult hm (ws_message ev) (lk_gateway st))\<rparr> else st)"

text \<open>Run a service of the admin; what it published is delivered, whether or not it failed.\<close>

definition serve :: "'h handlers \<Rightarrow> ('u, unit) svc \<Rightarrow> ('u, 'h) link \<Rightarrow> ('u, 'h) link" where
  "serve hm m st =
     (let adm' = snd (m (lk_admin st));
          evs = drop (length (ad_published (lk_admin st))) (ad_published adm')
      in fold (deliver hm) evs (st\<lparr>lk_admin := adm'\<rparr>))"

definition quietly :: "('u, 'a) svc \<Rightarrow> ('u, unit) svc" where
  "quietly m = andthen m (\<lambda>_. returns ())"

text \<open>The client's \<open>onOpen\<close> with the collector's \<open>onOpen\<close> and \<open>onMessage\<close>; both sides' \<open>onClose\<close>.\<close>

definition ws_open :: "'h handlers \<Rightarrow> ('u, 'h) link \<Rightarrow> ('u, 'h) link" where
  "ws_open hm st =
     (let n = lk_fresh st;
          st1 = st\<lparr>lk_SESSION_SET := lk_SESSION_SET st @ [n], lk_fresh := n + 1, lk_client := Some n\<rparr>
      in if lk_alreadySync st then st1
         else serve hm (quietly (syncAll EV_MYSELF)) (st1\<lparr>lk_alreadySync := True, lk_session := Some n\<rparr>))"

definition ws_close :: "('u, 'h) link \<Rightarrow> ('u, 'h) link" where
  "ws_close st =
     (case lk_client st of
        None \<Rightarrow> st
      | Some n \<Rightarrow> st\<lparr>lk_SESSION_SET := remove1 n (lk_SESSION_SET st), lk_session := None, lk_client := None\<rparr>)"

text \<open>What the dashboard and the network do.\<close>

datatype admin_request =
    SavePlugin plugin_dto | DeletePlugins "string list" | EnablePlugins "string list" bool
  | SaveSelector selector_dto | DeleteSelectors "string list"
  | SaveRule rule_dto | DeleteRules "string list"
  | SyncAll
  | SyncPlugin string

fun request_svc :: "(nat \<Rightarrow> string) \<Rightarrow> admin_request \<Rightarrow> ('u, unit) svc" where
  "request_svc uuid (SavePlugin d) = quietly (plugin_createOrUpdate uuid d)"
| "request_svc uuid (DeletePlugins ids) = quietly (plugin_delete ids)"
| "request_svc uuid (EnablePlugins ids b) = quietly (plugin_enabled ids b)"
| "request_svc uuid (SaveSelector d) = quietly (selector_createOrUpdate uuid d)"
| "request_svc uuid (DeleteSelectors ids) = quietly (selector_delete ids)"
| "request_svc uuid (SaveRule d) = quietly (rule_createOrUpdate uuid d)"
| "request_svc uuid (DeleteRules ids) = quietly (rule_delete ids)"
| "request_svc uuid SyncAll = quietly (syncAll EV_REFRESH)"
| "request_svc uuid (SyncPlugin i) = quietly (syncPluginData i)"

datatype link_event = Opened | Closed | Requested admin_request

fun link_step :: "'h handlers \<Rightarrow> (nat \<Rightarrow> string) \<Rightarrow> link_event \<Rightarrow> ('u, 'h) link \<Rightarrow> ('u, 'h) link" where
  "link_step hm uuid Opened st = ws_open hm st"
| "link_step hm uuid Closed st = ws_close st"
| "link_step hm uuid (Requested r) st = serve hm (request_svc uuid r) st"

definition link_run :: "'h handlers \<Rightarrow> (nat \<Rightarrow> string) \<Rightarrow> link_event list \<Rightarrow> ('u, 'h) link \<Rightarrow> ('u, 'h) link" where
  "link_run hm uuid evs st = fold (link_step hm uuid) evs st"

end
