(* ===== verification/GatewayFollows.thy ===== *)
theory GatewayFollows
  imports WebsocketSync
begin

text \<open>
  The gateway's caches follow the admin's tables: what each service leaves in the tables and publishes,
  what the delivery of these events does to the caches, and the invariant of the link between them.
\<close>

subsection \<open>Groups that hold a set of rows\<close>

context grouped_cache begin

text \<open>The groups hold exactly the rows of \<open>view\<close>, each in its own group.\<close>

definition holds_rows :: "'s \<Rightarrow> 'd set \<Rightarrow> bool" where
  "holds_rows s view \<longleftrightarrow> (\<forall>k. set (members s k) = {d \<in> view. group d = k})"

lemma holds_rows_add:
  assumes "holds_rows s view" and "\<And>x. x \<in> view \<Longrightarrow> ident x = ident d \<Longrightarrow> group x = group d"
  shows "holds_rows (add d s) (insert d {x \<in> view. ident x \<noteq> ident d})"
  using assms by (auto simp: holds_rows_def members_add set_replace_sorted)

lemma holds_rows_del:
  assumes "holds_rows s view" and "\<And>x. x \<in> view \<Longrightarrow> ident x = ident d \<Longrightarrow> group x = group d"
  shows "holds_rows (del d s) {x \<in> view. ident x \<noteq> ident d}"
  using assms by (auto simp: holds_rows_def members_del)

lemma holds_rows_fold_del:
  assumes "holds_rows s view" and "\<And>d x. d \<in> set ds \<Longrightarrow> x \<in> view \<Longrightarrow> ident x = ident d \<Longrightarrow> group x = group d"
  shows "holds_rows (fold del ds s) {x \<in> view. ident x \<notin> ident ` set ds}"
  using assms by (auto simp: holds_rows_def members_fold_del)

lemma holds_rows_fold_add:
  assumes "holds_rows s view" and "distinct (map ident ds)"
    and "\<And>d x. d \<in> set ds \<Longrightarrow> x \<in> view \<Longrightarrow> ident x \<noteq> ident d"
  shows "holds_rows (fold add ds s) (view \<union> set ds)"
  using assms
proof (induction ds arbitrary: s view)
  case (Cons d ds)
  have "holds_rows (add d s) (insert d {x \<in> view. ident x \<noteq> ident d})"
    using Cons.prems by (intro holds_rows_add) auto
  moreover have "{x \<in> view. ident x \<noteq> ident d} = view" using Cons.prems(3) by auto
  ultimately have s: "holds_rows (add d s) (insert d view)" by simp
  have "holds_rows (fold add ds (add d s)) (insert d view \<union> set ds)"
    using Cons.prems(2,3) by (intro Cons.IH [OF s]) (auto simp: image_iff)
  then show ?case by simp
qed simp

text \<open>Removing the entries of a list and adding them again leaves the list and what it did not mention.\<close>

lemma holds_rows_refresh:
  assumes "holds_rows s view" and "distinct (map ident ds)"
    and "\<And>d x. d \<in> set ds \<Longrightarrow> x \<in> view \<Longrightarrow> ident x = ident d \<Longrightarrow> group x = group d"
  shows "holds_rows (fold add ds (fold del ds s)) ({x \<in> view. ident x \<notin> ident ` set ds} \<union> set ds)"
  using assms by (intro holds_rows_fold_add holds_rows_fold_del) auto

end

subsection \<open>Tables\<close>

lemma row_with_simps:
  "row_with key k [] = None"
  "row_with key k (r # rs) = (if key r = k then Some r else row_with key k rs)"
  "row_with key k (rs @ rs') = (case row_with key k rs of None \<Rightarrow> row_with key k rs' | r \<Rightarrow> r)"
  by (induction rs) (simp_all add: row_with_def split: option.splits)

lemma row_with_Some: "row_with key k rs = Some r \<Longrightarrow> r \<in> set rs \<and> key r = k"
  by (induction rs) (auto simp: row_with_simps split: if_splits)

lemma row_with_None: "row_with key k rs = None \<longleftrightarrow> k \<notin> key ` set rs"
  by (induction rs) (auto simp: row_with_simps)

lemma row_with_exists: "k \<in> key ` set rs \<Longrightarrow> \<exists>r. row_with key k rs = Some r \<and> r \<in> set rs \<and> key r = k"
  by (induction rs) (auto simp: row_with_simps)

lemma row_with_iff: "distinct (map key rs) \<Longrightarrow> row_with key k rs = Some r \<longleftrightarrow> r \<in> set rs \<and> key r = k"
  by (induction rs) (auto simp: row_with_simps image_iff)

lemma row_with_delete: "row_with key k (delete_with key j rs) = (if k = j then None else row_with key k rs)"
  by (induction rs) (auto simp: row_with_simps delete_with_def)

lemma row_with_update:
  "(\<And>r. key r = j \<Longrightarrow> key (f r) = j) \<Longrightarrow>
     row_with key k (update_with key j f rs) = (if k = j then map_option f (row_with key k rs) else row_with key k rs)"
  by (induction rs) (auto simp: row_with_simps update_with_def)

lemma rows_with_simps:
  "rows_with key k (rs @ rs') = rows_with key k rs @ rows_with key k rs'"
  "rows_with key k (delete_with key j rs) = (if k = j then [] else rows_with key k rs)"
  by (auto simp: rows_with_def delete_with_def intro!: filter_cong)

lemma rows_with_all: "(\<And>r. r \<in> set rs \<Longrightarrow> key r = k) \<Longrightarrow> rows_with key k rs = rs"
  by (simp add: rows_with_def)

lemma rows_with_none: "(\<And>r. r \<in> set rs \<Longrightarrow> key r \<noteq> k) \<Longrightarrow> rows_with key k rs = []"
  by (simp add: rows_with_def)

text \<open>Every key is there once and every row has its owner.\<close>

definition tables_ok :: "tables \<Rightarrow> bool" where
  "tables_ok t \<longleftrightarrow> distinct (map pdo_id (tb_plugins t)) \<and> distinct (map pdo_name (tb_plugins t))
     \<and> distinct (map sdo_id (tb_selectors t)) \<and> distinct (map rdo_id (tb_rules t))
     \<and> (\<forall>r\<in>set (tb_selectors t). sdo_pluginId r \<in> pdo_id ` set (tb_plugins t))
     \<and> (\<forall>r\<in>set (tb_rules t). rdo_selectorId r \<in> sdo_id ` set (tb_selectors t))
     \<and> (\<forall>c\<in>set (tb_selector_conditions t). cdo_owner c \<in> sdo_id ` set (tb_selectors t))
     \<and> (\<forall>c\<in>set (tb_rule_conditions t). cdo_owner c \<in> rdo_id ` set (tb_rules t))"

definition selector_view :: "tables \<Rightarrow> selector_data set" where
  "selector_view t = {d. Some d \<in> set (selector_listAll t)}"

definition rule_view :: "tables \<Rightarrow> rule_data set" where
  "rule_view t = {d. Some d \<in> set (rule_listAll t)}"

text \<open>The caches hold what the tables say.\<close>

definition follows :: "tables \<Rightarrow> base_data_cache \<Rightarrow> bool" where
  "follows t c \<longleftrightarrow> (\<forall>n. obtainPluginData c n = map_option plugin_mapToData (plugin_selectByName n t))
     \<and> slc.holds_rows c (selector_view t) \<and> rlc.holds_rows c (rule_view t)"

subsection \<open>What the services do\<close>

lemma row_id_run:
  "row_id uuid i s = (Inr (if is_empty_ref i then uuid (ad_next s) else the i),
     if is_empty_ref i then s\<lparr>ad_next := ad_next s + 1\<rparr> else s)"
  by (simp add: row_id_def generateShortUuid_def returns_def)

lemma andthen_row_id:
  "andthen (row_id uuid i) f s = f (if is_empty_ref i then uuid (ad_next s) else the i)
     (if is_empty_ref i then s\<lparr>ad_next := ad_next s + 1\<rparr> else s)"
  by (simp add: andthen_def row_id_run)

text \<open>Inserting the conditions of a request: all are there afterwards, or the statement that failed threw.\<close>

lemma insert_conditions:
  fixes s :: "'u admin"
  assumes ins: "\<And>r t. ins r t = bindr (insert_row cdo_id r (get t)) (\<lambda>rs. Inr (put rs t))"
    and gp: "\<And>rs t. get (put rs t) = rs" "\<And>rs rs' t. put rs (put rs' t) = put rs t" "\<And>t. put (get t) t = t"
  shows "\<exists>r s'. for_all (\<lambda>d. andthen (buildConditionDO uuid owner d) (\<lambda>c. execute (ins c))) cs s = (r, s')
     \<and> ad_published s' = ad_published s \<and> ad_upstreams s' = ad_upstreams s
     \<and> (r = Inr () \<longrightarrow> (\<exists>rows. ad_tables s' = put (get (ad_tables s) @ rows) (ad_tables s)
          \<and> map condition_of_do rows = map condition_of_dto cs \<and> (\<forall>x\<in>set rows. cdo_owner x = owner)))"
proof (induction cs arbitrary: s)
  case Nil
  show ?case by (auto simp: returns_def gp intro: exI [of _ "[]"])
next
  case (Cons d cs)
  define f :: "condition_dto \<Rightarrow> ('u, unit) svc" where "f = (\<lambda>d. andthen (buildConditionDO uuid owner d) (\<lambda>c. execute (ins c)))"
  note IH = Cons.IH [folded f_def]
  define s1 where "s1 = (if is_empty_ref (cdt_id d) then s\<lparr>ad_next := ad_next s + 1\<rparr> else s)"
  define c where "c = \<lparr>cdo_id = (if is_empty_ref (cdt_id d) then uuid (ad_next s) else the (cdt_id d)), cdo_owner = owner,
      cdo_paramType = cdt_paramType d, cdo_operator = cdt_operator d, cdo_paramName = cdt_paramName d, cdo_paramValue = cdt_paramValue d\<rparr>"
  have s1: "ad_tables s1 = ad_tables s" "ad_published s1 = ad_published s" "ad_upstreams s1 = ad_upstreams s"
    by (simp_all add: s1_def)
  have c: "cdo_owner c = owner" "condition_of_do c = condition_of_dto d"
    by (simp_all add: c_def condition_of_do_def condition_of_dto_def)
  have step: "f d s = execute (ins c) s1"
    by (simp add: f_def buildConditionDO_def andthen_row_id c_def s1_def)
  have run: "for_all f (d # cs) s = (case execute (ins c) s1 of (Inl e, s') \<Rightarrow> (Inl e, s') | (Inr x, s') \<Rightarrow> for_all f cs s')"
    by (simp add: andthen_def step)
  show ?case
  proof (cases "cdo_id c \<in> cdo_id ` set (get (ad_tables s))")
    case True
    then have "execute (ins c) s1 = (Inl duplicate, s1)" by (simp add: svc_run_last s1 ins insert_row_def)
    then show ?thesis using s1 run unfolding f_def [symmetric] by simp
  next
    case False
    define s2 where "s2 = s1\<lparr>ad_tables := put (get (ad_tables s) @ [c]) (ad_tables s)\<rparr>"
    have e: "execute (ins c) s1 = (Inr (), s2)" using False by (simp add: svc_run_last s1 ins insert_row_def s2_def)
    obtain r s' where ih: "for_all f cs s2 = (r, s')" "ad_published s' = ad_published s2" "ad_upstreams s' = ad_upstreams s2"
      "r = Inr () \<longrightarrow> (\<exists>rows. ad_tables s' = put (get (ad_tables s2) @ rows) (ad_tables s2)
          \<and> map condition_of_do rows = map condition_of_dto cs \<and> (\<forall>x\<in>set rows. cdo_owner x = owner))"
      using IH [of s2] by blast
    have "\<exists>rows. ad_tables s' = put (get (ad_tables s) @ rows) (ad_tables s)
          \<and> map condition_of_do rows = map condition_of_dto (d # cs) \<and> (\<forall>x\<in>set rows. cdo_owner x = owner)" if "r = Inr ()"
    proof -
      obtain rows where rows: "ad_tables s' = put (get (ad_tables s2) @ rows) (ad_tables s2)"
        "map condition_of_do rows = map condition_of_dto cs" "\<forall>x\<in>set rows. cdo_owner x = owner"
        using ih(4) \<open>r = Inr ()\<close> by blast
      then show ?thesis using c by (intro exI [of _ "c # rows"]) (simp add: s2_def gp)
    qed
    then show ?thesis unfolding f_def [symmetric] using run e ih(1,2,3) s1 by (simp add: s2_def)
  qed
qed

lemma insert_selector_conditions:
  "\<exists>r s'. for_all (insert_selector_condition uuid owner) cs s = (r, s')
     \<and> ad_published s' = ad_published s \<and> ad_upstreams s' = ad_upstreams s
     \<and> (r = Inr () \<longrightarrow> (\<exists>rows. ad_tables s' = (ad_tables s)\<lparr>tb_selector_conditions := tb_selector_conditions (ad_tables s) @ rows\<rparr>
          \<and> map condition_of_do rows = map condition_of_dto cs \<and> (\<forall>x\<in>set rows. cdo_owner x = owner)))"
  unfolding insert_selector_condition_def
  by (rule insert_conditions [where get = tb_selector_conditions and put = "\<lambda>rs t. t\<lparr>tb_selector_conditions := rs\<rparr>"])
    (simp_all add: selector_condition_insert_def)

lemma insert_rule_conditions:
  "\<exists>r s'. for_all (insert_rule_condition uuid owner) cs s = (r, s')
     \<and> ad_published s' = ad_published s \<and> ad_upstreams s' = ad_upstreams s
     \<and> (r = Inr () \<longrightarrow> (\<exists>rows. ad_tables s' = (ad_tables s)\<lparr>tb_rule_conditions := tb_rule_conditions (ad_tables s) @ rows\<rparr>
          \<and> map condition_of_do rows = map condition_of_dto cs \<and> (\<forall>x\<in>set rows. cdo_owner x = owner)))"
  unfolding insert_rule_condition_def
  by (rule insert_conditions [where get = tb_rule_conditions and put = "\<lambda>rs t. t\<lparr>tb_rule_conditions := rs\<rparr>"])
    (simp_all add: rule_condition_insert_def)

definition selector_row :: "string \<Rightarrow> selector_dto \<Rightarrow> selector_do" where
  "selector_row i d = \<lparr>sdo_id = i, sdo_pluginId = sdt_pluginId d, sdo_name = sdt_name d,
      sdo_matchMode = (if selector_type_code ST_FULL_FLOW = sdt_type d then match_mode_code MM_AND else sdt_matchMode d),
      sdo_type = sdt_type d, sdo_sort = sdt_sort d, sdo_enabled = sdt_enabled d, sdo_loged = sdt_loged d,
      sdo_continued = sdt_continued d, sdo_handle = sdt_handle d\<rparr>"

definition rule_row :: "string \<Rightarrow> rule_dto \<Rightarrow> rule_do" where
  "rule_row i d = \<lparr>rdo_id = i, rdo_selectorId = rdt_selectorId d, rdo_matchMode = rdt_matchMode d, rdo_name = rdt_name d,
      rdo_enabled = rdt_enabled d, rdo_loged = rdt_loged d, rdo_sort = rdt_sort d, rdo_handle = rdt_handle d\<rparr>"

definition selector_merge :: "selector_do \<Rightarrow> selector_do \<Rightarrow> selector_do" where
  "selector_merge row old = row\<lparr>sdo_handle := (case sdo_handle row of None \<Rightarrow> sdo_handle old | h \<Rightarrow> h)\<rparr>"

definition rule_merge :: "rule_do \<Rightarrow> rule_do \<Rightarrow> rule_do" where
  "rule_merge row old = row\<lparr>rdo_handle := (case rdo_handle row of None \<Rightarrow> rdo_handle old | h \<Rightarrow> h)\<rparr>"

lemma row_fields [simp]:
  "sdo_id (selector_row i d) = i" "sdo_pluginId (selector_row i d) = sdt_pluginId d" "sdo_name (selector_row i d) = sdt_name d"
  "sdo_handle (selector_row i d) = sdt_handle d" "rdo_id (rule_row i d') = i" "rdo_selectorId (rule_row i d') = rdt_selectorId d'"
  "rdo_name (rule_row i d') = rdt_name d'" "rdo_handle (rule_row i d') = rdt_handle d'"
  "sdo_id (selector_merge r old) = sdo_id r" "sdo_pluginId (selector_merge r old) = sdo_pluginId r"
  "rdo_id (rule_merge r' old') = rdo_id r'" "rdo_selectorId (rule_merge r' old') = rdo_selectorId r'"
  by (simp_all add: selector_row_def rule_row_def selector_merge_def rule_merge_def)

lemma build_rows:
  "buildSelectorDO uuid d = andthen (row_id uuid (sdt_id d)) (\<lambda>i. returns (selector_row i d))"
  "buildRuleDO uuid d' = andthen (row_id uuid (rdt_id d')) (\<lambda>i. returns (rule_row i d'))"
  by (simp_all add: buildSelectorDO_def buildRuleDO_def selector_row_def rule_row_def)

lemma publish_runs:
  "selector_publish r cs s = (case plugin_selectById (sdo_pluginId r) (ad_tables s) of
      None \<Rightarrow> (Inl NullPointer, s)
    | Some p \<Rightarrow> (Inr (), s\<lparr>ad_published := ad_published s @
        [SelectorChanged EV_UPDATE [Some (selector_transFrom r (pdo_name p) (Some (map condition_of_dto cs)))]]\<rparr>))"
  "rule_publish r' cs s = (case Option.bind (selector_selectById (rdo_selectorId r') (ad_tables s))
        (\<lambda>sel. plugin_selectById (sdo_pluginId sel) (ad_tables s)) of
      None \<Rightarrow> (Inl NullPointer, s)
    | Some p \<Rightarrow> (Inr (), s\<lparr>ad_published := ad_published s @
        [RuleChanged EV_UPDATE [Some (rule_transFrom r' (pdo_name p) (Some (map condition_of_dto cs)))]]\<rparr>))"
proof -
  show "selector_publish r cs s = (case plugin_selectById (sdo_pluginId r) (ad_tables s) of
      None \<Rightarrow> (Inl NullPointer, s)
    | Some p \<Rightarrow> (Inr (), s\<lparr>ad_published := ad_published s @
        [SelectorChanged EV_UPDATE [Some (selector_transFrom r (pdo_name p) (Some (map condition_of_dto cs)))]]\<rparr>))"
    by (simp add: selector_publish_def svc_run svc_run_last split: option.splits)
  show "rule_publish r' cs s = (case Option.bind (selector_selectById (rdo_selectorId r') (ad_tables s))
        (\<lambda>sel. plugin_selectById (sdo_pluginId sel) (ad_tables s)) of
      None \<Rightarrow> (Inl NullPointer, s)
    | Some p \<Rightarrow> (Inr (), s\<lparr>ad_published := ad_published s @
        [RuleChanged EV_UPDATE [Some (rule_transFrom r' (pdo_name p) (Some (map condition_of_dto cs)))]]\<rparr>))"
    by (cases "selector_selectById (rdo_selectorId r') (ad_tables s)")
      (simp_all add: rule_publish_def svc_run svc_run_last split: option.splits)
qed

text \<open>
  The shape of a save: a statement, the conditions, the event. It fails with nothing changed and nothing
  published, or all of it is done.
\<close>

lemma execute_twice:
  "andthen (execute a) (\<lambda>_. andthen (execute (\<lambda>t. Inr (b t))) f) = andthen (execute (\<lambda>t. bindr (a t) (\<lambda>t. Inr (b t)))) f"
  by (auto simp: fun_eq_iff svc_run split: sum.splits)

lemma delete_conditions_total:
  "selector_condition_deleteByQuery i = (\<lambda>t. Inr (t\<lparr>tb_selector_conditions := delete_with cdo_owner i (tb_selector_conditions t)\<rparr>))"
  "rule_condition_deleteByQuery i = (\<lambda>t. Inr (t\<lparr>tb_rule_conditions := delete_with cdo_owner i (tb_rule_conditions t)\<rparr>))"
  by (simp_all add: selector_condition_deleteByQuery_def rule_condition_deleteByQuery_def fun_eq_iff)

lemma save_run:
  fixes s :: "'u admin"
  assumes conds: "\<And>s2 :: 'u admin. \<exists>r s3. conds s2 = (r, s3) \<and> ad_published s3 = ad_published s2
        \<and> (r = Inr () \<longrightarrow> (\<exists>rows. ad_tables s3 = put rows (ad_tables s2) \<and> good rows))"
    and pub: "\<And>s2 :: 'u admin. pub s2 = (case look (ad_tables s2) of
        None \<Rightarrow> (Inl NullPointer, s2) | Some p \<Rightarrow> (Inr (), s2\<lparr>ad_published := ad_published s2 @ [ev p]\<rparr>))"
    and run: "transactional (\<lambda>_. andthen (execute st) (\<lambda>_. andthen conds (\<lambda>_. andthen pub (\<lambda>_. returns n))) s1) s = (r, s')"
    and s1: "ad_tables s1 = ad_tables s" "ad_published s1 = ad_published s"
  shows "(\<exists>e. r = Inl e) \<and> ad_tables s' = ad_tables s \<and> ad_published s' = ad_published s
    \<or> (\<exists>t rows p. st (ad_tables s) = Inr t \<and> good rows \<and> ad_tables s' = put rows t \<and> look (put rows t) = Some p
         \<and> ad_published s' = ad_published s @ [ev p])"
proof (cases "st (ad_tables s)")
  case (Inl e)
  then have "(r, s') = (Inl e, s1\<lparr>ad_tables := ad_tables s\<rparr>)"
    using run unfolding transactional_def by (simp add: svc_run s1)
  then show ?thesis using s1 by simp
next
  case (Inr t)
  obtain r3 s3 where c: "conds (s1\<lparr>ad_tables := t\<rparr>) = (r3, s3)" "ad_published s3 = ad_published s"
    "r3 = Inr () \<longrightarrow> (\<exists>rows. ad_tables s3 = put rows t \<and> good rows)"
    using conds [of "s1\<lparr>ad_tables := t\<rparr>"] s1 by auto
  show ?thesis
  proof (cases r3)
    case (Inl e)
    then have "(r, s') = (Inl e, s3\<lparr>ad_tables := ad_tables s\<rparr>)"
      using run Inr c(1) unfolding transactional_def by (simp add: svc_run s1 andthen_def [of conds])
    then show ?thesis using c(2) by simp
  next
    case inr: (Inr u)
    then obtain rows where rows: "ad_tables s3 = put rows t" "good rows" using c(3) by auto
    show ?thesis
    proof (cases "look (put rows t)")
      case None
      then have "(r, s') = (Inl NullPointer, s3\<lparr>ad_tables := ad_tables s\<rparr>)"
        using run Inr c(1) inr rows(1) unfolding transactional_def
        by (simp add: svc_run s1 andthen_def [of conds] andthen_def [of pub] pub)
      then show ?thesis using c(2) by simp
    next
      case (Some p)
      then have "(r, s') = (Inr n, s3\<lparr>ad_published := ad_published s3 @ [ev p]\<rparr>)"
        using run Inr c(1) inr rows(1) unfolding transactional_def
        by (simp add: svc_run s1 andthen_def [of conds] andthen_def [of pub] pub)
      then show ?thesis using c(2) rows Inr Some by auto
    qed
  qed
qed

text \<open>What a successful save of a selector or a rule leaves in the tables and publishes.\<close>

definition selector_saved :: "selector_dto \<Rightarrow> string \<Rightarrow> tables \<Rightarrow> tables \<Rightarrow> data_event \<Rightarrow> bool" where
  "selector_saved d i t t' ev \<longleftrightarrow> (\<exists>p rows. plugin_selectById (sdt_pluginId d) t = Some p
     \<and> ev = SelectorChanged EV_UPDATE
         [Some (selector_transFrom (selector_row i d) (pdo_name p) (Some (map condition_of_dto (sdt_selectorConditions d))))]
     \<and> map condition_of_do rows = map condition_of_dto (sdt_selectorConditions d) \<and> (\<forall>x\<in>set rows. cdo_owner x = i)
     \<and> (if is_empty_ref (sdt_id d)
        then i \<notin> sdo_id ` set (tb_selectors t)
          \<and> t' = t\<lparr>tb_selectors := tb_selectors t @ [selector_row i d], tb_selector_conditions := tb_selector_conditions t @ rows\<rparr>
        else i = the (sdt_id d)
          \<and> t' = t\<lparr>tb_selectors := update_with sdo_id i (selector_merge (selector_row i d)) (tb_selectors t),
                 tb_selector_conditions := delete_with cdo_owner i (tb_selector_conditions t) @ rows\<rparr>))"

definition rule_saved :: "rule_dto \<Rightarrow> string \<Rightarrow> tables \<Rightarrow> tables \<Rightarrow> data_event \<Rightarrow> bool" where
  "rule_saved d i t t' ev \<longleftrightarrow> (\<exists>sel p rows. selector_selectById (rdt_selectorId d) t = Some sel
     \<and> plugin_selectById (sdo_pluginId sel) t = Some p
     \<and> ev = RuleChanged EV_UPDATE
         [Some (rule_transFrom (rule_row i d) (pdo_name p) (Some (map condition_of_dto (rdt_ruleConditions d))))]
     \<and> map condition_of_do rows = map condition_of_dto (rdt_ruleConditions d) \<and> (\<forall>x\<in>set rows. cdo_owner x = i)
     \<and> (if is_empty_ref (rdt_id d)
        then i \<notin> rdo_id ` set (tb_rules t)
          \<and> t' = t\<lparr>tb_rules := tb_rules t @ [rule_row i d], tb_rule_conditions := tb_rule_conditions t @ rows\<rparr>
        else i = the (rdt_id d)
          \<and> t' = t\<lparr>tb_rules := update_with rdo_id i (rule_merge (rule_row i d)) (tb_rules t),
                 tb_rule_conditions := delete_with cdo_owner i (tb_rule_conditions t) @ rows\<rparr>))"

lemma insert_statements:
  "selector_insertSelective row t = Inr t2 \<Longrightarrow> sdo_id row \<notin> sdo_id ` set (tb_selectors t) \<and> t2 = t\<lparr>tb_selectors := tb_selectors t @ [row]\<rparr>"
  "rule_insertSelective row' t = Inr t2 \<Longrightarrow> rdo_id row' \<notin> rdo_id ` set (tb_rules t) \<and> t2 = t\<lparr>tb_rules := tb_rules t @ [row']\<rparr>"
  by (auto simp: selector_insertSelective_def rule_insertSelective_def insert_row_def split: if_splits)

lemma update_statements:
  "bindr (selector_updateSelective row t) (selector_condition_deleteByQuery i) = Inr t2 \<Longrightarrow>
     t2 = t\<lparr>tb_selectors := update_with sdo_id (sdo_id row) (selector_merge row) (tb_selectors t),
       tb_selector_conditions := delete_with cdo_owner i (tb_selector_conditions t)\<rparr>"
  "bindr (rule_updateSelective row' t) (rule_condition_deleteByQuery i) = Inr t2 \<Longrightarrow>
     t2 = t\<lparr>tb_rules := update_with rdo_id (rdo_id row') (rule_merge row') (tb_rules t),
       tb_rule_conditions := delete_with cdo_owner i (tb_rule_conditions t)\<rparr>"
  by (auto simp: selector_updateSelective_def rule_updateSelective_def selector_condition_deleteByQuery_def
      rule_condition_deleteByQuery_def selector_merge_def [abs_def] rule_merge_def [abs_def] split: if_splits)

lemma select_frames [simp]:
  "plugin_selectById x (t\<lparr>tb_selectors := a\<rparr>) = plugin_selectById x t"
  "plugin_selectById x (t\<lparr>tb_selector_conditions := b\<rparr>) = plugin_selectById x t"
  "plugin_selectById x (t\<lparr>tb_rules := c\<rparr>) = plugin_selectById x t"
  "plugin_selectById x (t\<lparr>tb_rule_conditions := b\<rparr>) = plugin_selectById x t"
  "selector_selectById x (t\<lparr>tb_selector_conditions := b\<rparr>) = selector_selectById x t"
  "selector_selectById x (t\<lparr>tb_rules := c\<rparr>) = selector_selectById x t"
  "selector_selectById x (t\<lparr>tb_rule_conditions := b\<rparr>) = selector_selectById x t"
  by (simp_all add: plugin_selectById_def selector_selectById_def)

lemma selector_save_id:
  assumes run: "selector_createOrUpdate uuid d s = (r, s')"
  shows "(\<exists>e. r = Inl e) \<and> ad_tables s' = ad_tables s \<and> ad_published s' = ad_published s
    \<or> (\<exists>ev. ad_published s' = ad_published s @ [ev]
      \<and> selector_saved d (if is_empty_ref (sdt_id d) then uuid (ad_next s) else the (sdt_id d)) (ad_tables s) (ad_tables s') ev)"
proof -
  let ?cs = "sdt_selectorConditions d" and ?t = "ad_tables s"
  define i where "i = (if is_empty_ref (sdt_id d) then uuid (ad_next s) else the (sdt_id d))"
  define s1 where "s1 = (if is_empty_ref (sdt_id d) then s\<lparr>ad_next := ad_next s + 1\<rparr> else s)"
  have s1: "ad_tables s1 = ?t" "ad_published s1 = ad_published s" by (simp_all add: s1_def)
  define row where "row = selector_row i d"
  define st where "st = (if is_empty_ref (sdt_id d) then selector_insertSelective row
    else (\<lambda>t. bindr (selector_updateSelective row t) (selector_condition_deleteByQuery i)))"
  define n where "n = (if is_empty_ref (sdt_id d) then 1 else length (rows_with sdo_id i (tb_selectors ?t)))"
  have body: "selector_createOrUpdate uuid d s = transactional (\<lambda>_. andthen (execute st) (\<lambda>_.
      andthen (for_all (insert_selector_condition uuid i) ?cs) (\<lambda>_. andthen (selector_publish row ?cs) (\<lambda>_. returns n))) s1) s"
    unfolding selector_createOrUpdate_def transactional_def build_rows svc_simps andthen_row_id i_def [symmetric] s1_def [symmetric]
    by (simp add: row_def svc_run s1 st_def n_def delete_conditions_total execute_twice del: One_nat_def)
  have conds: "\<exists>r s3. for_all (insert_selector_condition uuid i) ?cs s2 = (r, s3) \<and> ad_published s3 = ad_published s2
      \<and> (r = Inr () \<longrightarrow> (\<exists>rows. ad_tables s3 = (ad_tables s2)\<lparr>tb_selector_conditions := tb_selector_conditions (ad_tables s2) @ rows\<rparr>
        \<and> (map condition_of_do rows = map condition_of_dto ?cs \<and> (\<forall>x\<in>set rows. cdo_owner x = i))))" for s2 :: "'a admin"
    using insert_selector_conditions [of uuid i ?cs s2] by blast
  have pub: "selector_publish row ?cs s2 = (case plugin_selectById (sdt_pluginId d) (ad_tables s2) of
      None \<Rightarrow> (Inl NullPointer, s2)
    | Some p \<Rightarrow> (Inr (), s2\<lparr>ad_published := ad_published s2 @
        [SelectorChanged EV_UPDATE [Some (selector_transFrom row (pdo_name p) (Some (map condition_of_dto ?cs)))]]\<rparr>))" for s2 :: "'a admin"
    unfolding publish_runs row_def by simp
  from save_run [OF conds pub run [unfolded body] s1]
  show ?thesis
  proof
    assume "\<exists>t rows p. st ?t = Inr t \<and> (map condition_of_do rows = map condition_of_dto ?cs \<and> (\<forall>x\<in>set rows. cdo_owner x = i))
         \<and> ad_tables s' = t\<lparr>tb_selector_conditions := tb_selector_conditions t @ rows\<rparr>
         \<and> plugin_selectById (sdt_pluginId d) (t\<lparr>tb_selector_conditions := tb_selector_conditions t @ rows\<rparr>) = Some p
         \<and> ad_published s' = ad_published s @ [SelectorChanged EV_UPDATE [Some (selector_transFrom row (pdo_name p) (Some (map condition_of_dto ?cs)))]]"
    then obtain t rows p where g: "st ?t = Inr t" "map condition_of_do rows = map condition_of_dto ?cs" "\<forall>x\<in>set rows. cdo_owner x = i"
      "ad_tables s' = t\<lparr>tb_selector_conditions := tb_selector_conditions t @ rows\<rparr>" "plugin_selectById (sdt_pluginId d) t = Some p"
      "ad_published s' = ad_published s @ [SelectorChanged EV_UPDATE [Some (selector_transFrom row (pdo_name p) (Some (map condition_of_dto ?cs)))]]"
      by auto
    have "selector_saved d i ?t (ad_tables s')
        (SelectorChanged EV_UPDATE [Some (selector_transFrom row (pdo_name p) (Some (map condition_of_dto ?cs)))])"
      unfolding selector_saved_def row_def [symmetric]
      by (rule exI [of _ p], rule exI [of _ rows])
        (use g insert_statements(1) [of row ?t t] update_statements(1) [of row ?t i t] in
          \<open>auto simp: st_def row_def i_def split: if_splits\<close>)
    then show ?thesis using g(6) unfolding i_def by blast
  qed simp
qed


lemma selector_save:
  assumes run: "selector_createOrUpdate uuid d s = (r, s')"
  shows "(\<exists>e. r = Inl e) \<and> ad_tables s' = ad_tables s \<and> ad_published s' = ad_published s
    \<or> (\<exists>i ev. ad_published s' = ad_published s @ [ev] \<and> selector_saved d i (ad_tables s) (ad_tables s') ev)"
  using selector_save_id [OF run] by blast

lemma rule_save_id:
  assumes run: "rule_createOrUpdate uuid d s = (r, s')"
  shows "(\<exists>e. r = Inl e) \<and> ad_tables s' = ad_tables s \<and> ad_published s' = ad_published s
    \<or> (\<exists>ev. ad_published s' = ad_published s @ [ev]
      \<and> rule_saved d (if is_empty_ref (rdt_id d) then uuid (ad_next s) else the (rdt_id d)) (ad_tables s) (ad_tables s') ev)"
proof -
  let ?cs = "rdt_ruleConditions d" and ?t = "ad_tables s"
  define i where "i = (if is_empty_ref (rdt_id d) then uuid (ad_next s) else the (rdt_id d))"
  define s1 where "s1 = (if is_empty_ref (rdt_id d) then s\<lparr>ad_next := ad_next s + 1\<rparr> else s)"
  have s1: "ad_tables s1 = ?t" "ad_published s1 = ad_published s" by (simp_all add: s1_def)
  define row where "row = rule_row i d"
  define st where "st = (if is_empty_ref (rdt_id d) then rule_insertSelective row
    else (\<lambda>t. bindr (rule_updateSelective row t) (rule_condition_deleteByQuery i)))"
  define n where "n = (if is_empty_ref (rdt_id d) then 1 else length (rows_with rdo_id i (tb_rules ?t)))"
  have body: "rule_createOrUpdate uuid d s = transactional (\<lambda>_. andthen (execute st) (\<lambda>_.
      andthen (for_all (insert_rule_condition uuid i) ?cs) (\<lambda>_. andthen (rule_publish row ?cs) (\<lambda>_. returns n))) s1) s"
    unfolding rule_createOrUpdate_def transactional_def build_rows svc_simps andthen_row_id i_def [symmetric] s1_def [symmetric]
    by (simp add: row_def svc_run s1 st_def n_def delete_conditions_total execute_twice del: One_nat_def)
  have conds: "\<exists>r s3. for_all (insert_rule_condition uuid i) ?cs s2 = (r, s3) \<and> ad_published s3 = ad_published s2
      \<and> (r = Inr () \<longrightarrow> (\<exists>rows. ad_tables s3 = (ad_tables s2)\<lparr>tb_rule_conditions := tb_rule_conditions (ad_tables s2) @ rows\<rparr>
        \<and> (map condition_of_do rows = map condition_of_dto ?cs \<and> (\<forall>x\<in>set rows. cdo_owner x = i))))" for s2 :: "'a admin"
    using insert_rule_conditions [of uuid i ?cs s2] by blast
  let ?look = "\<lambda>t. Option.bind (selector_selectById (rdt_selectorId d) t) (\<lambda>sel. plugin_selectById (sdo_pluginId sel) t)"
  have pub: "rule_publish row ?cs s2 = (case ?look (ad_tables s2) of
      None \<Rightarrow> (Inl NullPointer, s2)
    | Some p \<Rightarrow> (Inr (), s2\<lparr>ad_published := ad_published s2 @
        [RuleChanged EV_UPDATE [Some (rule_transFrom row (pdo_name p) (Some (map condition_of_dto ?cs)))]]\<rparr>))" for s2 :: "'a admin"
    unfolding publish_runs row_def by simp
  from save_run [OF conds pub run [unfolded body] s1]
  show ?thesis
  proof
    assume "\<exists>t rows p. st ?t = Inr t \<and> (map condition_of_do rows = map condition_of_dto ?cs \<and> (\<forall>x\<in>set rows. cdo_owner x = i))
         \<and> ad_tables s' = t\<lparr>tb_rule_conditions := tb_rule_conditions t @ rows\<rparr>
         \<and> ?look (t\<lparr>tb_rule_conditions := tb_rule_conditions t @ rows\<rparr>) = Some p
         \<and> ad_published s' = ad_published s @ [RuleChanged EV_UPDATE [Some (rule_transFrom row (pdo_name p) (Some (map condition_of_dto ?cs)))]]"
    then obtain t rows p sel where g: "st ?t = Inr t" "map condition_of_do rows = map condition_of_dto ?cs" "\<forall>x\<in>set rows. cdo_owner x = i"
      "ad_tables s' = t\<lparr>tb_rule_conditions := tb_rule_conditions t @ rows\<rparr>" "selector_selectById (rdt_selectorId d) t = Some sel"
      "plugin_selectById (sdo_pluginId sel) t = Some p"
      "ad_published s' = ad_published s @ [RuleChanged EV_UPDATE [Some (rule_transFrom row (pdo_name p) (Some (map condition_of_dto ?cs)))]]"
      by (auto simp: bind_eq_Some_conv)
    have "rule_saved d i ?t (ad_tables s')
        (RuleChanged EV_UPDATE [Some (rule_transFrom row (pdo_name p) (Some (map condition_of_dto ?cs)))])"
      unfolding rule_saved_def row_def [symmetric]
      by (rule exI [of _ sel], rule exI [of _ p], rule exI [of _ rows])
        (use g insert_statements(2) [of row ?t t] update_statements(2) [of row ?t i t] in
          \<open>auto simp: st_def row_def i_def split: if_splits\<close>)
    then show ?thesis using g(7) unfolding i_def by blast
  qed simp
qed


lemma rule_save:
  assumes run: "rule_createOrUpdate uuid d s = (r, s')"
  shows "(\<exists>e. r = Inl e) \<and> ad_tables s' = ad_tables s \<and> ad_published s' = ad_published s
    \<or> (\<exists>i ev. ad_published s' = ad_published s @ [ev] \<and> rule_saved d i (ad_tables s) (ad_tables s') ev)"
  using rule_save_id [OF run] by blast

text \<open>Deletions.\<close>

lemma delete_rules_run:
  "for_all (delete_rule_of n) rs s = (Inr (), s\<lparr>ad_tables := (ad_tables s)\<lparr>
       tb_rules := filter (\<lambda>r. rdo_id r \<notin> rdo_id ` set rs) (tb_rules (ad_tables s)),
       tb_rule_conditions := filter (\<lambda>c. cdo_owner c \<notin> rdo_id ` set rs) (tb_rule_conditions (ad_tables s))\<rparr>,
     ad_published := ad_published s @ map (\<lambda>r. RuleChanged EV_DELETE [Some (rule_transFrom r n None)]) rs\<rparr>)"
proof (induction rs arbitrary: s)
  case Nil
  show ?case by (simp add: returns_def)
next
  case (Cons r rs)
  have f: "filter P (delete_with key i xs) = filter (\<lambda>x. key x \<noteq> i \<and> P x) xs" for P :: "'b \<Rightarrow> bool" and key :: "'b \<Rightarrow> string" and i xs
    by (auto simp: delete_with_def intro!: filter_cong)
  have "delete_rule_of n r s = (Inr (), s\<lparr>ad_tables := (ad_tables s)\<lparr>tb_rules := delete_with rdo_id (rdo_id r) (tb_rules (ad_tables s)),
       tb_rule_conditions := delete_with cdo_owner (rdo_id r) (tb_rule_conditions (ad_tables s))\<rparr>,
     ad_published := ad_published s @ [RuleChanged EV_DELETE [Some (rule_transFrom r n None)]]\<rparr>)"
    by (simp add: delete_rule_of_def svc_run svc_run_last rule_deleteRow_def rule_condition_deleteByQuery_def)
  then show ?case by (simp add: andthen_def Cons.IH f)
qed

definition without_selector :: "string \<Rightarrow> tables \<Rightarrow> tables" where
  "without_selector i t = (let ids = rdo_id ` set (rows_with rdo_selectorId i (tb_rules t)) in
     t\<lparr>tb_selectors := delete_with sdo_id i (tb_selectors t),
       tb_selector_conditions := delete_with cdo_owner i (tb_selector_conditions t),
       tb_rules := filter (\<lambda>r. rdo_id r \<notin> ids) (tb_rules t),
       tb_rule_conditions := filter (\<lambda>c. cdo_owner c \<notin> ids) (tb_rule_conditions t)\<rparr>)"

definition selector_deleted :: "selector_do \<Rightarrow> string \<Rightarrow> tables \<Rightarrow> data_event list" where
  "selector_deleted sel n t = SelectorChanged EV_DELETE [Some (selector_transFrom sel n None)]
     # map (\<lambda>r. RuleChanged EV_DELETE [Some (rule_transFrom r n None)]) (rows_with rdo_selectorId (sdo_id sel) (tb_rules t))"

lemma selector_delete_run:
  assumes "selector_selectById i (ad_tables s) = Some sel" and "plugin_selectById (sdo_pluginId sel) (ad_tables s) = Some p"
  shows "\<exists>s'. selector_delete_one i s = (Inr (), s') \<and> ad_tables s' = without_selector i (ad_tables s)
     \<and> ad_published s' = ad_published s @ selector_deleted sel (pdo_name p) (ad_tables s)"
proof -
  have i: "sdo_id sel = i" using row_with_Some [OF assms(1) [unfolded selector_selectById_def]] by simp
  define s1 where "s1 = s\<lparr>ad_tables := (ad_tables s)\<lparr>tb_selectors := delete_with sdo_id i (tb_selectors (ad_tables s)),
      tb_selector_conditions := delete_with cdo_owner i (tb_selector_conditions (ad_tables s))\<rparr>,
    ad_upstreams := (if plugin_enum_name PE_DIVIDE = pdo_name p then remove_key (sdo_name sel) (ad_upstreams s) else ad_upstreams s),
    ad_published := ad_published s @ [SelectorChanged EV_DELETE [Some (selector_transFrom sel (pdo_name p) None)]]\<rparr>"
  have "selector_delete_one i s = for_all (delete_rule_of (pdo_name p)) (rows_with rdo_selectorId i (tb_rules (ad_tables s))) s1"
    by (simp add: selector_delete_one_def svc_run svc_run_last assms selector_deleteRow_def selector_condition_deleteByQuery_def
        andthen_def [of "upstream_removeByKey n" for n] upstream_removeByKey_def s1_def)
  then show ?thesis
    by (simp add: delete_rules_run without_selector_def selector_deleted_def s1_def i Let_def)
qed

lemma rule_delete_run:
  assumes "rule_selectById i (ad_tables s) = Some rule" and "selector_selectById (rdo_selectorId rule) (ad_tables s) = Some sel"
    and "plugin_selectById (sdo_pluginId sel) (ad_tables s) = Some p"
  shows "\<exists>s'. rule_delete_one i s = (Inr (), s')
     \<and> ad_tables s' = (ad_tables s)\<lparr>tb_rules := delete_with rdo_id i (tb_rules (ad_tables s)),
          tb_rule_conditions := delete_with cdo_owner i (tb_rule_conditions (ad_tables s))\<rparr>
     \<and> ad_published s' = ad_published s @ [RuleChanged EV_DELETE [Some (rule_transFrom rule (pdo_name p) None)]]"
  using assms by (simp add: rule_delete_one_def svc_run svc_run_last rule_deleteRow_def rule_condition_deleteByQuery_def)

subsection \<open>What the tables say afterwards\<close>

lemma views:
  "selector_view t = {d. \<exists>r\<in>set (tb_selectors t). buildSelectorData t r = Some d}"
  "rule_view t = {d. \<exists>r\<in>set (tb_rules t). buildRuleData t r = Some d}"
  by (auto simp: selector_view_def rule_view_def selector_listAll_def rule_listAll_def image_iff) (metis+)

lemma data_fields:
  "buildSelectorData t r = Some d \<Longrightarrow> sd_id d = sdo_id r \<and>
     (\<exists>p. plugin_selectById (sdo_pluginId r) t = Some p \<and> sd_pluginName d = pdo_name p)"
  "buildRuleData t r' = Some d' \<Longrightarrow> rd_id d' = rdo_id r' \<and> rd_selectorId d' = rdo_selectorId r'"
  by (auto simp: buildSelectorData_def buildRuleData_def selector_transFrom_def rule_transFrom_def split: option.splits)

lemma buildRuleData_bind:
  "buildRuleData t r = map_option (\<lambda>p. rule_transFrom r (pdo_name p)
      (Some (map condition_of_do (rows_with cdo_owner (rdo_id r) (tb_rule_conditions t)))))
    (Option.bind (selector_selectById (rdo_selectorId r) t) (\<lambda>sel. plugin_selectById (sdo_pluginId sel) t))"
  by (simp add: buildRuleData_def split: option.splits)

lemma trans_fields [simp]:
  "sd_id (selector_transFrom r n cs) = sdo_id r" "sd_pluginName (selector_transFrom r n cs) = n"
  "rd_id (rule_transFrom r' n cs) = rdo_id r'" "rd_selectorId (rule_transFrom r' n cs) = rdo_selectorId r'"
  by (simp_all add: selector_transFrom_def rule_transFrom_def)

lemma follows_frames:
  "slc.holds_rows (cacheRuleData rd c) v = slc.holds_rows c v" "slc.holds_rows (removeRuleData rd c) v = slc.holds_rows c v"
  "slc.holds_rows (cachePluginData p c) v = slc.holds_rows c v" "rlc.holds_rows (cachePluginData p c) w = rlc.holds_rows c w"
  "slc.holds_rows (removePluginData p c) v = slc.holds_rows c v" "rlc.holds_rows (removePluginData p c) w = rlc.holds_rows c w"
  "rlc.holds_rows (cacheSelectData sd c) w = rlc.holds_rows c w" "rlc.holds_rows (removeSelectData sd c) w = rlc.holds_rows c w"
  by (simp_all add: slc.holds_rows_def rlc.holds_rows_def slc.members_def rlc.members_def obtainSelectorData_def
      obtainRuleData_def cache_frames)

lemma plugin_frames:
  "obtainPluginData (cacheRuleData rd c) n = obtainPluginData c n" "obtainPluginData (removeRuleData rd c) n = obtainPluginData c n"
  "obtainPluginData (cacheSelectData sd c) n = obtainPluginData c n" "obtainPluginData (removeSelectData sd c) n = obtainPluginData c n"
  by (simp_all add: obtainPluginData_def cache_frames)

lemma set_update_with:
  "(\<And>r. r \<in> set rs \<Longrightarrow> key r = i \<Longrightarrow> f r = new) \<Longrightarrow> i \<in> key ` set rs \<Longrightarrow>
     set (update_with key i f rs) = insert new {r \<in> set rs. key r \<noteq> i}"
  by (auto simp: update_with_def)

lemma map_update_with: "(\<And>r. key r = i \<Longrightarrow> key (f r) = i) \<Longrightarrow> map key (update_with key i f rs) = map key rs"
  by (auto simp: update_with_def)

text \<open>
  A save that fits: a row that is there already keeps its owner, and the request gives its handle (the
  statement leaves a handle that is not given, the event says there is none).
\<close>

definition selector_fits :: "selector_dto \<Rightarrow> tables \<Rightarrow> bool" where
  "selector_fits d t \<longleftrightarrow> is_empty_ref (sdt_id d) \<or>
     (\<exists>old\<in>set (tb_selectors t). Some (sdo_id old) = sdt_id d \<and> sdo_pluginId old = sdt_pluginId d
        \<and> (sdt_handle d = None \<longrightarrow> sdo_handle old = None))"

definition rule_fits :: "rule_dto \<Rightarrow> tables \<Rightarrow> bool" where
  "rule_fits d t \<longleftrightarrow> is_empty_ref (rdt_id d) \<or>
     (\<exists>old\<in>set (tb_rules t). Some (rdo_id old) = rdt_id d \<and> rdo_selectorId old = rdt_selectorId d
        \<and> (rdt_handle d = None \<longrightarrow> rdo_handle old = None))"

lemma distinct_key: "distinct (map key rs) \<Longrightarrow> x \<in> set rs \<Longrightarrow> y \<in> set rs \<Longrightarrow> key x = key y \<Longrightarrow> x = y"
  by (simp add: distinct_map inj_on_def)

lemma merge_fits:
  "(sdo_handle row = None \<longrightarrow> sdo_handle old = None) \<Longrightarrow> selector_merge row old = row"
  "(rdo_handle row' = None \<longrightarrow> rdo_handle old' = None) \<Longrightarrow> rule_merge row' old' = row'"
  by (auto simp: selector_merge_def rule_merge_def split: option.splits)

text \<open>A table, with the conditions its rows own, after a save that fits.\<close>

lemma saved_rows:
  assumes ok: "distinct (map key rs)" "\<forall>c\<in>set cs. cdo_owner c \<in> key ` set rs"
    and shape: "if new then i \<notin> key ` set rs \<and> rs' = rs @ [row] \<and> cs' = cs @ rows
       else rs' = update_with key i merge rs \<and> cs' = delete_with cdo_owner i cs @ rows"
    and rows: "\<forall>x\<in>set rows. cdo_owner x = i"
    and row: "key row = i" "\<And>r. key r = i \<Longrightarrow> key (merge r) = i"
    and fits: "new \<or> (\<exists>old\<in>set rs. key old = i \<and> own old = own row \<and> merge old = row)"
  shows "set rs' = insert row {r \<in> set rs. key r \<noteq> i}" and "distinct (map key rs')"
    and "\<forall>r\<in>set rs. key r = i \<longrightarrow> own r = own row"
    and "rows_with cdo_owner i cs' = rows" and "\<forall>j. j \<noteq> i \<longrightarrow> rows_with cdo_owner j cs' = rows_with cdo_owner j cs"
    and "\<forall>c\<in>set cs'. cdo_owner c \<in> key ` set rs'"
proof -
  have rr: "rows_with cdo_owner i rows = rows" using rows by (intro rows_with_all) simp
  have ro: "rows_with cdo_owner j rows = []" if "j \<noteq> i" for j using rows that by (intro rows_with_none) auto
  have main: "set rs' = insert row {r \<in> set rs. key r \<noteq> i} \<and> distinct (map key rs')
      \<and> (\<forall>r\<in>set rs. key r = i \<longrightarrow> own r = own row) \<and> rows_with cdo_owner i cs' = rows
      \<and> (\<forall>j. j \<noteq> i \<longrightarrow> rows_with cdo_owner j cs' = rows_with cdo_owner j cs)
      \<and> (\<forall>c\<in>set cs'. c \<in> set rows \<or> (c \<in> set cs \<and> cdo_owner c \<noteq> i))"
  proof (cases new)
    case True
    with shape have s: "i \<notin> key ` set rs" "rs' = rs @ [row]" "cs' = cs @ rows" by auto
    have "c \<in> set cs \<Longrightarrow> cdo_owner c \<noteq> i" for c using s(1) ok(2) by auto
    moreover have "\<forall>r\<in>set rs. key r \<noteq> i" using s(1) by auto
    ultimately show ?thesis using ok(1) rr ro row unfolding s(2,3) by (auto simp: rows_with_simps rows_with_none)
  next
    case False
    with shape have s: "rs' = update_with key i merge rs" "cs' = delete_with cdo_owner i cs @ rows" by auto
    obtain old where old: "old \<in> set rs" "key old = i" "own old = own row" "merge old = row" using fits False by blast
    have only: "r = old" if "r \<in> set rs" "key r = i" for r
      using that old by (intro distinct_key [OF ok(1)]) auto
    have "set rs' = insert row {r \<in> set rs. key r \<noteq> i}"
      unfolding s(1) by (rule set_update_with) (use only old in blast)+
    moreover have "map key rs' = map key rs" unfolding s(1) using row(2) by (rule map_update_with)
    then have "distinct (map key rs')" using ok(1) by simp
    moreover have "\<forall>r\<in>set rs. key r = i \<longrightarrow> own r = own row" using only old(3) by blast
    moreover have "rows_with cdo_owner i cs' = rows" unfolding s(2) using rr by (simp add: rows_with_simps)
    moreover have "\<forall>j. j \<noteq> i \<longrightarrow> rows_with cdo_owner j cs' = rows_with cdo_owner j cs"
      unfolding s(2) using ro by (simp add: rows_with_simps)
    moreover have "\<forall>c\<in>set cs'. c \<in> set rows \<or> (c \<in> set cs \<and> cdo_owner c \<noteq> i)"
      unfolding s(2) by (auto simp: delete_with_def)
    ultimately show ?thesis by blast
  qed
  then show "set rs' = insert row {r \<in> set rs. key r \<noteq> i}" "distinct (map key rs')"
    "\<forall>r\<in>set rs. key r = i \<longrightarrow> own r = own row" "rows_with cdo_owner i cs' = rows"
    "\<forall>j. j \<noteq> i \<longrightarrow> rows_with cdo_owner j cs' = rows_with cdo_owner j cs" by blast+
  show "\<forall>c\<in>set cs'. cdo_owner c \<in> key ` set rs'"
  proof
    fix c assume "c \<in> set cs'"
    then have "c \<in> set rows \<or> (c \<in> set cs \<and> cdo_owner c \<noteq> i)" using main by blast
    moreover have "c \<in> set cs \<and> cdo_owner c \<noteq> i \<Longrightarrow> cdo_owner c \<in> key ` {r \<in> set rs. key r \<noteq> i}" using ok(2) by auto
    ultimately show "cdo_owner c \<in> key ` set rs'" using main rows row(1) by auto
  qed
qed

subsection \<open>The caches after the events\<close>

lemma view_insert:
  assumes rows: "set rs' = insert row {r \<in> set rs. key r \<noteq> i}" and new: "build' row = Some data" "ident data = i"
    and same: "\<And>r. r \<in> set rs \<Longrightarrow> key r \<noteq> i \<Longrightarrow> build' r = build r" and ident: "\<And>r x. build r = Some x \<Longrightarrow> ident x = key r"
  shows "{x. \<exists>r\<in>set rs'. build' r = Some x} = insert data {x \<in> {x. \<exists>r\<in>set rs. build r = Some x}. ident x \<noteq> ident data}"
  unfolding rows new(2) using new(1) same ident by fastforce

text \<open>A selector row is new or replaced, its owner the same; the other tables and the conditions of others are as they were.\<close>

lemma follows_selector_row:
  assumes ok: "tables_ok t" and fo: "follows t c" and p: "plugin_selectById (sdo_pluginId row) t = Some p"
    and frames: "tb_plugins t' = tb_plugins t" "tb_rules t' = tb_rules t" "tb_rule_conditions t' = tb_rule_conditions t"
    and g: "set (tb_selectors t') = insert row {r \<in> set (tb_selectors t). sdo_id r \<noteq> sdo_id row}" "distinct (map sdo_id (tb_selectors t'))"
      "\<forall>r\<in>set (tb_selectors t). sdo_id r = sdo_id row \<longrightarrow> sdo_pluginId r = sdo_pluginId row"
      "\<forall>j. j \<noteq> sdo_id row \<longrightarrow> rows_with cdo_owner j (tb_selector_conditions t') = rows_with cdo_owner j (tb_selector_conditions t)"
      "\<forall>c\<in>set (tb_selector_conditions t'). cdo_owner c \<in> sdo_id ` set (tb_selectors t')"
    and data: "data = selector_transFrom row (pdo_name p)
      (Some (map condition_of_do (rows_with cdo_owner (sdo_id row) (tb_selector_conditions t'))))"
  shows "tables_ok t' \<and> follows t' (cacheSelectData data c)"
proof -
  let ?i = "sdo_id row"
  have pl: "plugin_selectById x t' = plugin_selectById x t" for x by (simp add: plugin_selectById_def frames)
  have new: "buildSelectorData t' row = Some data" using p by (simp add: buildSelectorData_def pl data)
  have same: "buildSelectorData t' r = buildSelectorData t r" if "sdo_id r \<noteq> ?i" for r
  proof -
    have "rows_with cdo_owner (sdo_id r) (tb_selector_conditions t') = rows_with cdo_owner (sdo_id r) (tb_selector_conditions t)"
      using that g(4) by blast
    then show ?thesis unfolding buildSelectorData_def pl by (cases "plugin_selectById (sdo_pluginId r) t") simp_all
  qed
  have sview: "selector_view t' = insert data {x \<in> selector_view t. sd_id x \<noteq> sd_id data}"
    unfolding views
    by (rule view_insert [where key = sdo_id and i = ?i and build' = "buildSelectorData t'" and build = "buildSelectorData t"
          and ident = sd_id, OF g(1) new]) (use same data_fields(1) in \<open>auto simp: data\<close>)
  have look: "Option.bind (selector_selectById (rdo_selectorId r) t') (\<lambda>sel. plugin_selectById (sdo_pluginId sel) t')
      = Option.bind (selector_selectById (rdo_selectorId r) t) (\<lambda>sel. plugin_selectById (sdo_pluginId sel) t)"
    if r: "r \<in> set (tb_rules t)" for r
  proof -
    obtain sel where sel: "sel \<in> set (tb_selectors t)" "sdo_id sel = rdo_selectorId r" using ok r by (auto simp: tables_ok_def)
    have 1: "selector_selectById (rdo_selectorId r) t = Some sel"
      using ok sel by (simp add: selector_selectById_def row_with_iff tables_ok_def)
    have 2: "selector_selectById (rdo_selectorId r) t' = Some (if sdo_id sel = ?i then row else sel)"
      using g(1,2) sel by (auto simp: selector_selectById_def row_with_iff)
    show ?thesis unfolding 1 2 using g(3) sel(1) by (auto simp: pl)
  qed
  have rview: "rule_view t' = rule_view t"
  proof -
    have "buildRuleData t' r = buildRuleData t r" if "r \<in> set (tb_rules t)" for r
      unfolding buildRuleData_bind look [OF that] frames ..
    then show ?thesis unfolding views frames by auto
  qed
  have grp: "sd_pluginName x = sd_pluginName data" if x: "x \<in> selector_view t" "sd_id x = sd_id data" for x
  proof -
    obtain r where r: "r \<in> set (tb_selectors t)" "buildSelectorData t r = Some x" using x(1) unfolding views by blast
    then have "sdo_id r = ?i" using x(2) data_fields(1) [OF r(2)] by (simp add: data)
    then have "sdo_pluginId r = sdo_pluginId row" using g(3) r(1) by simp
    then show ?thesis using data_fields(1) [OF r(2)] p by (auto simp: data)
  qed
  have "slc.holds_rows (cacheSelectData data c) (selector_view t')"
    unfolding sview using fo grp by (intro slc.holds_rows_add) (auto simp: follows_def)
  then have "follows t' (cacheSelectData data c)"
    using fo by (simp add: follows_def rview follows_frames plugin_frames plugin_selectByName_def frames)
  moreover have "tables_ok t'"
  proof -
    have "sdo_id ` set (tb_selectors t) \<subseteq> sdo_id ` set (tb_selectors t')" unfolding g(1) by auto
    then have "\<forall>r\<in>set (tb_rules t). rdo_selectorId r \<in> sdo_id ` set (tb_selectors t')" using ok unfolding tables_ok_def by blast
    moreover have "sdo_pluginId row \<in> pdo_id ` set (tb_plugins t)"
      using p row_with_None [of pdo_id "sdo_pluginId row" "tb_plugins t"] by (simp add: plugin_selectById_def)
    then have "\<forall>r\<in>set (tb_selectors t'). sdo_pluginId r \<in> pdo_id ` set (tb_plugins t)"
      using ok unfolding tables_ok_def g(1) by blast
    ultimately show ?thesis using ok g(2,5) unfolding tables_ok_def frames by blast
  qed
  ultimately show ?thesis by blast
qed

lemma follows_selector:
  assumes ok: "tables_ok t" and fo: "follows t c" and sv: "selector_saved d i t t' ev" and fits: "selector_fits d t"
  shows "tables_ok t' \<and> (\<exists>data. ev = SelectorChanged EV_UPDATE [Some data] \<and> follows t' (cacheSelectData data c))"
proof -
  let ?row = "selector_row i d"
  obtain p rows where p: "plugin_selectById (sdt_pluginId d) t = Some p"
    and ev: "ev = SelectorChanged EV_UPDATE [Some (selector_transFrom ?row (pdo_name p) (Some (map condition_of_dto (sdt_selectorConditions d))))]"
    and rows: "map condition_of_do rows = map condition_of_dto (sdt_selectorConditions d)" "\<forall>x\<in>set rows. cdo_owner x = i"
    and shape: "if is_empty_ref (sdt_id d)
        then i \<notin> sdo_id ` set (tb_selectors t)
          \<and> t' = t\<lparr>tb_selectors := tb_selectors t @ [?row], tb_selector_conditions := tb_selector_conditions t @ rows\<rparr>
        else i = the (sdt_id d)
          \<and> t' = t\<lparr>tb_selectors := update_with sdo_id i (selector_merge ?row) (tb_selectors t),
                 tb_selector_conditions := delete_with cdo_owner i (tb_selector_conditions t) @ rows\<rparr>"
    using sv by (auto simp: selector_saved_def)
  have fit: "is_empty_ref (sdt_id d) \<or> (\<exists>old\<in>set (tb_selectors t). sdo_id old = i \<and> sdo_pluginId old = sdo_pluginId ?row
      \<and> selector_merge ?row old = ?row)"
  proof (cases "is_empty_ref (sdt_id d)")
    case False
    then obtain old where "old \<in> set (tb_selectors t)" "Some (sdo_id old) = sdt_id d" "sdo_pluginId old = sdt_pluginId d"
      "sdt_handle d = None \<longrightarrow> sdo_handle old = None" using fits by (auto simp: selector_fits_def)
    moreover have "i = the (sdt_id d)" using shape False by simp
    ultimately show ?thesis using merge_fits(1) [of ?row old] by (metis option.sel row_fields(2,4))
  qed simp
  have "if is_empty_ref (sdt_id d)
      then i \<notin> sdo_id ` set (tb_selectors t) \<and> tb_selectors t' = tb_selectors t @ [?row]
        \<and> tb_selector_conditions t' = tb_selector_conditions t @ rows
      else tb_selectors t' = update_with sdo_id i (selector_merge ?row) (tb_selectors t)
        \<and> tb_selector_conditions t' = delete_with cdo_owner i (tb_selector_conditions t) @ rows"
    using shape by (auto split: if_splits)
  note g = saved_rows [OF _ _ this rows(2) _ _ fit]
  have g: "set (tb_selectors t') = insert ?row {r \<in> set (tb_selectors t). sdo_id r \<noteq> i}" "distinct (map sdo_id (tb_selectors t'))"
    "\<forall>r\<in>set (tb_selectors t). sdo_id r = i \<longrightarrow> sdo_pluginId r = sdo_pluginId ?row"
    "\<forall>j. j \<noteq> i \<longrightarrow> rows_with cdo_owner j (tb_selector_conditions t') = rows_with cdo_owner j (tb_selector_conditions t)"
    "\<forall>c\<in>set (tb_selector_conditions t'). cdo_owner c \<in> sdo_id ` set (tb_selectors t')"
    "rows_with cdo_owner i (tb_selector_conditions t') = rows"
    using ok by (intro g; simp add: tables_ok_def)+
  have "selector_transFrom ?row (pdo_name p) (Some (map condition_of_dto (sdt_selectorConditions d))) =
      selector_transFrom ?row (pdo_name p) (Some (map condition_of_do (rows_with cdo_owner (sdo_id ?row) (tb_selector_conditions t'))))"
    using rows(1) g(6) by simp
  moreover have "tables_ok t' \<and> follows t' (cacheSelectData (selector_transFrom ?row (pdo_name p)
      (Some (map condition_of_do (rows_with cdo_owner (sdo_id ?row) (tb_selector_conditions t'))))) c)"
  proof (rule follows_selector_row [OF ok fo _ _ _ _ _ _ _ _ _ refl])
    show "plugin_selectById (sdo_pluginId ?row) t = Some p" using p by simp
    show "tb_plugins t' = tb_plugins t" "tb_rules t' = tb_rules t" "tb_rule_conditions t' = tb_rule_conditions t"
      using shape by (auto split: if_splits)
  qed (use g in \<open>simp_all only: row_fields\<close>)
  ultimately show ?thesis using ev by auto
qed

text \<open>Rules.\<close>

lemma follows_rule:
  assumes ok: "tables_ok t" and fo: "follows t c" and sv: "rule_saved d i t t' ev" and fits: "rule_fits d t"
  shows "tables_ok t' \<and> (\<exists>data. ev = RuleChanged EV_UPDATE [Some data] \<and> follows t' (cacheRuleData data c))"
proof -
  let ?row = "rule_row i d"
  obtain sel p rows where p: "selector_selectById (rdt_selectorId d) t = Some sel" "plugin_selectById (sdo_pluginId sel) t = Some p"
    and ev: "ev = RuleChanged EV_UPDATE [Some (rule_transFrom ?row (pdo_name p) (Some (map condition_of_dto (rdt_ruleConditions d))))]"
    and rows: "map condition_of_do rows = map condition_of_dto (rdt_ruleConditions d)" "\<forall>x\<in>set rows. cdo_owner x = i"
    and shape: "if is_empty_ref (rdt_id d)
        then i \<notin> rdo_id ` set (tb_rules t)
          \<and> t' = t\<lparr>tb_rules := tb_rules t @ [?row], tb_rule_conditions := tb_rule_conditions t @ rows\<rparr>
        else i = the (rdt_id d)
          \<and> t' = t\<lparr>tb_rules := update_with rdo_id i (rule_merge ?row) (tb_rules t),
                 tb_rule_conditions := delete_with cdo_owner i (tb_rule_conditions t) @ rows\<rparr>"
    using sv by (auto simp: rule_saved_def)
  define data where "data = rule_transFrom ?row (pdo_name p) (Some (map condition_of_dto (rdt_ruleConditions d)))"
  have frames: "tb_plugins t' = tb_plugins t" "tb_selectors t' = tb_selectors t" "tb_selector_conditions t' = tb_selector_conditions t"
    using shape by (auto split: if_splits)
  have fit: "is_empty_ref (rdt_id d) \<or> (\<exists>old\<in>set (tb_rules t). rdo_id old = i \<and> rdo_selectorId old = rdo_selectorId ?row
      \<and> rule_merge ?row old = ?row)"
  proof (cases "is_empty_ref (rdt_id d)")
    case False
    then obtain old where "old \<in> set (tb_rules t)" "Some (rdo_id old) = rdt_id d" "rdo_selectorId old = rdt_selectorId d"
      "rdt_handle d = None \<longrightarrow> rdo_handle old = None" using fits by (auto simp: rule_fits_def)
    moreover have "i = the (rdt_id d)" using shape False by simp
    ultimately show ?thesis using merge_fits(2) [of ?row old] by (metis option.sel row_fields(6,8))
  qed simp
  have "if is_empty_ref (rdt_id d)
      then i \<notin> rdo_id ` set (tb_rules t) \<and> tb_rules t' = tb_rules t @ [?row]
        \<and> tb_rule_conditions t' = tb_rule_conditions t @ rows
      else tb_rules t' = update_with rdo_id i (rule_merge ?row) (tb_rules t)
        \<and> tb_rule_conditions t' = delete_with cdo_owner i (tb_rule_conditions t) @ rows"
    using shape by (auto split: if_splits)
  note g = saved_rows [OF _ _ this rows(2) _ _ fit]
  have g: "set (tb_rules t') = insert ?row {r \<in> set (tb_rules t). rdo_id r \<noteq> i}" "distinct (map rdo_id (tb_rules t'))"
    "\<forall>r\<in>set (tb_rules t). rdo_id r = i \<longrightarrow> rdo_selectorId r = rdo_selectorId ?row"
    "rows_with cdo_owner i (tb_rule_conditions t') = rows"
    "\<forall>j. j \<noteq> i \<longrightarrow> rows_with cdo_owner j (tb_rule_conditions t') = rows_with cdo_owner j (tb_rule_conditions t)"
    "\<forall>c\<in>set (tb_rule_conditions t'). cdo_owner c \<in> rdo_id ` set (tb_rules t')"
    using ok by (intro g; simp add: tables_ok_def)+
  have look: "plugin_selectById x t' = plugin_selectById x t" "selector_selectById x t' = selector_selectById x t" for x
    by (simp_all add: plugin_selectById_def selector_selectById_def frames)
  have new: "buildRuleData t' ?row = Some data"
    using p rows(1) g(4) by (simp add: buildRuleData_def look data_def)
  have same: "buildRuleData t' r = buildRuleData t r" if "rdo_id r \<noteq> i" for r
  proof -
    have "rows_with cdo_owner (rdo_id r) (tb_rule_conditions t') = rows_with cdo_owner (rdo_id r) (tb_rule_conditions t)"
      using that g(5) by blast
    then show ?thesis unfolding buildRuleData_bind look by simp
  qed
  have rview: "rule_view t' = insert data {x \<in> rule_view t. rd_id x \<noteq> rd_id data}"
    unfolding views
    by (rule view_insert [where key = rdo_id and i = i and build' = "buildRuleData t'" and build = "buildRuleData t"
          and ident = rd_id, OF g(1) new]) (use same data_fields(2) in \<open>auto simp: data_def\<close>)
  have sview: "selector_view t' = selector_view t"
    unfolding views frames buildSelectorData_def look ..
  have grp: "rd_selectorId x = rd_selectorId data" if x: "x \<in> rule_view t" "rd_id x = rd_id data" for x
  proof -
    obtain r where r: "r \<in> set (tb_rules t)" "buildRuleData t r = Some x" using x(1) unfolding views by blast
    then have "rdo_id r = i" using x(2) data_fields(2) [OF r(2)] by (simp add: data_def)
    then show ?thesis using g(3) r(1) data_fields(2) [OF r(2)] by (simp add: data_def)
  qed
  have "rlc.holds_rows (cacheRuleData data c) (rule_view t')"
    unfolding rview using fo grp by (intro rlc.holds_rows_add) (auto simp: follows_def)
  then have "follows t' (cacheRuleData data c)"
    using fo by (simp add: follows_def sview follows_frames plugin_frames plugin_selectByName_def frames)
  moreover have "tables_ok t'"
  proof -
    have "rdt_selectorId d \<in> sdo_id ` set (tb_selectors t)"
      using p(1) row_with_None [of sdo_id "rdt_selectorId d" "tb_selectors t"] by (simp add: selector_selectById_def)
    then show ?thesis using ok g(2,6) unfolding tables_ok_def frames by (auto simp: g(1))
  qed
  ultimately show ?thesis using ev by (auto simp: data_def)
qed

text \<open>Deletions of a rule and of a selector with its rules.\<close>

definition without_rule :: "string \<Rightarrow> tables \<Rightarrow> tables" where
  "without_rule i t = t\<lparr>tb_rules := delete_with rdo_id i (tb_rules t),
     tb_rule_conditions := delete_with cdo_owner i (tb_rule_conditions t)\<rparr>"

lemma view_delete:
  assumes rows: "set rs' = {r \<in> set rs. key r \<notin> ids}"
    and same: "\<And>r. r \<in> set rs \<Longrightarrow> key r \<notin> ids \<Longrightarrow> build' r = build r" and ident: "\<And>r x. build r = Some x \<Longrightarrow> ident x = key r"
  shows "{x. \<exists>r\<in>set rs'. build' r = Some x} = {x \<in> {x. \<exists>r\<in>set rs. build r = Some x}. ident x \<notin> ids}"
  unfolding rows using same ident by fastforce

lemma follows_without_rule:
  assumes ok: "tables_ok t" and fo: "follows t c" and rule: "rule \<in> set (tb_rules t)" "rdo_id rule = i"
  shows "tables_ok (without_rule i t) \<and> follows (without_rule i t) (removeRuleData (rule_transFrom rule n cs) c)"
proof -
  let ?t = "without_rule i t"
  have frames: "tb_plugins ?t = tb_plugins t" "tb_selectors ?t = tb_selectors t" "tb_selector_conditions ?t = tb_selector_conditions t"
    by (simp_all add: without_rule_def)
  have look: "plugin_selectById x ?t = plugin_selectById x t" "selector_selectById x ?t = selector_selectById x t" for x
    by (simp_all add: plugin_selectById_def selector_selectById_def frames)
  have rows: "set (tb_rules ?t) = {r \<in> set (tb_rules t). rdo_id r \<notin> {i}}" by (auto simp: without_rule_def delete_with_def)
  have same: "buildRuleData ?t r = buildRuleData t r" if "rdo_id r \<noteq> i" for r
    unfolding buildRuleData_bind look using that by (simp add: without_rule_def rows_with_simps)
  have "rule_view ?t = {x \<in> rule_view t. rd_id x \<notin> {i}}"
    unfolding views
    by (rule view_delete [where key = rdo_id and build' = "buildRuleData ?t" and build = "buildRuleData t", OF rows])
      (use same data_fields(2) in auto)
  then have rview: "rule_view ?t = {x \<in> rule_view t. rd_id x \<noteq> rd_id (rule_transFrom rule n cs)}"
    using rule(2) by simp
  have sview: "selector_view ?t = selector_view t" unfolding views frames buildSelectorData_def look ..
  have grp: "rd_selectorId x = rdo_selectorId rule" if x: "x \<in> rule_view t" "rd_id x = i" for x
  proof -
    obtain r where r: "r \<in> set (tb_rules t)" "buildRuleData t r = Some x" using x(1) unfolding views by blast
    then have "r = rule" using x(2) data_fields(2) [OF r(2)] rule ok
      by (intro distinct_key [of rdo_id "tb_rules t"]) (auto simp: tables_ok_def)
    then show ?thesis using data_fields(2) [OF r(2)] by simp
  qed
  have "rlc.holds_rows (removeRuleData (rule_transFrom rule n cs) c) (rule_view ?t)"
    unfolding rview using fo grp rule(2) by (intro rlc.holds_rows_del) (auto simp: follows_def)
  then have "follows ?t (removeRuleData (rule_transFrom rule n cs) c)"
    using fo by (simp add: follows_def sview follows_frames plugin_frames plugin_selectByName_def frames)
  moreover have "tables_ok ?t"
    using ok by (auto simp: tables_ok_def without_rule_def delete_with_def distinct_map_filter)
  ultimately show ?thesis by simp
qed

lemma follows_without_selector:
  assumes ok: "tables_ok t" and fo: "follows t c" and sel: "sel \<in> set (tb_selectors t)" "sdo_id sel = i"
    and n: "plugin_selectById (sdo_pluginId sel) t = Some p" "pdo_name p = n"
  shows "tables_ok (without_selector i t) \<and> follows (without_selector i t)
    (fold (\<lambda>r. removeRuleData (rule_transFrom r n None)) (rows_with rdo_selectorId i (tb_rules t))
      (removeSelectData (selector_transFrom sel n None) c))"
proof -
  let ?t = "without_selector i t" and ?rs = "rows_with rdo_selectorId i (tb_rules t)" and ?sd = "selector_transFrom sel n None"
  define ids where "ids = rdo_id ` set ?rs"
  have frames: "tb_plugins ?t = tb_plugins t" by (simp add: without_selector_def Let_def)
  have pl: "plugin_selectById x ?t = plugin_selectById x t" for x by (simp add: plugin_selectById_def frames)
  have srows: "set (tb_selectors ?t) = {r \<in> set (tb_selectors t). sdo_id r \<notin> {i}}"
    by (auto simp: without_selector_def delete_with_def Let_def)
  have rrows: "set (tb_rules ?t) = {r \<in> set (tb_rules t). rdo_id r \<notin> ids}"
    by (auto simp: without_selector_def ids_def Let_def)
  have ids: "r \<in> set (tb_rules t) \<Longrightarrow> rdo_id r \<in> ids \<longleftrightarrow> rdo_selectorId r = i" for r
    using ok distinct_key [of rdo_id "tb_rules t" r] by (auto simp: ids_def rows_with_def tables_ok_def image_iff)
  have "buildSelectorData ?t r = buildSelectorData t r" if "sdo_id r \<noteq> i" for r
    using that by (simp add: buildSelectorData_def pl without_selector_def rows_with_simps Let_def cong: option.case_cong)
  then have "selector_view ?t = {x \<in> selector_view t. sd_id x \<notin> {i}}"
    unfolding views
    by (intro view_delete [where key = sdo_id and build' = "buildSelectorData ?t" and build = "buildSelectorData t", OF srows])
      (use data_fields(1) in auto)
  then have sview: "selector_view ?t = {x \<in> selector_view t. sd_id x \<noteq> sd_id ?sd}" using sel(2) by simp
  have "buildRuleData ?t r = buildRuleData t r" if r: "r \<in> set (tb_rules t)" "rdo_id r \<notin> ids" for r
  proof -
    have "selector_selectById (rdo_selectorId r) ?t = selector_selectById (rdo_selectorId r) t"
      using r ids by (simp add: selector_selectById_def without_selector_def row_with_delete Let_def)
    moreover have "rows_with cdo_owner (rdo_id r) (tb_rule_conditions ?t) = rows_with cdo_owner (rdo_id r) (tb_rule_conditions t)"
    proof -
      have "tb_rule_conditions ?t = filter (\<lambda>x. cdo_owner x \<notin> ids) (tb_rule_conditions t)"
        by (simp add: without_selector_def ids_def Let_def)
      then show ?thesis using r(2) by (auto simp: rows_with_def intro!: filter_cong)
    qed
    ultimately show ?thesis unfolding buildRuleData_bind pl by simp
  qed
  then have rview: "rule_view ?t = {x \<in> rule_view t. rd_id x \<notin> ids}"
    unfolding views
    by (intro view_delete [where key = rdo_id and build' = "buildRuleData ?t" and build = "buildRuleData t", OF rrows])
      (use data_fields(2) in auto)
  define ds where "ds = map (\<lambda>r. rule_transFrom r n None) ?rs"
  have fold: "fold (\<lambda>r. removeRuleData (rule_transFrom r n None)) ?rs c' = fold removeRuleData ds c'" for c'
    by (simp add: ds_def fold_map o_def)
  have fr: "slc.holds_rows (fold removeRuleData xs c') v = slc.holds_rows c' v"
    "obtainPluginData (fold removeRuleData xs c') m = obtainPluginData c' m" for xs c' v m
    by (induction xs arbitrary: c') (simp_all add: follows_frames plugin_frames)
  have "sd_pluginName x = n" if x: "x \<in> selector_view t" "sd_id x = i" for x
  proof -
    obtain r where r: "r \<in> set (tb_selectors t)" "buildSelectorData t r = Some x" using x(1) unfolding views by blast
    then have "r = sel" using x(2) data_fields(1) [OF r(2)] sel ok
      by (intro distinct_key [of sdo_id "tb_selectors t"]) (auto simp: tables_ok_def)
    then show ?thesis using data_fields(1) [OF r(2)] n by auto
  qed
  then have s: "slc.holds_rows (removeSelectData ?sd c) (selector_view ?t)"
    unfolding sview using fo sel(2) by (intro slc.holds_rows_del) (auto simp: follows_def)
  have "rd_selectorId x = rd_selectorId d" if x: "d \<in> set ds" "x \<in> rule_view t" "rd_id x = rd_id d" for d x
  proof -
    obtain r where r: "r \<in> set (tb_rules t)" "buildRuleData t r = Some x" using x(2) unfolding views by blast
    obtain r' where r': "r' \<in> set (tb_rules t)" "rdo_selectorId r' = i" "d = rule_transFrom r' n None"
      using x(1) by (auto simp: ds_def rows_with_def)
    have "r = r'" using x(3) data_fields(2) [OF r(2)] r' r(1) ok
      by (intro distinct_key [of rdo_id "tb_rules t"]) (auto simp: tables_ok_def)
    then show ?thesis using data_fields(2) [OF r(2)] r' by simp
  qed
  moreover have "rd_id ` set ds = ids" by (auto simp: ds_def ids_def image_image)
  ultimately have "rlc.holds_rows (fold removeRuleData ds (removeSelectData ?sd c)) (rule_view ?t)"
    using fo rlc.holds_rows_fold_del [of "removeSelectData ?sd c" "rule_view t" ds]
    unfolding rview by (simp add: follows_def follows_frames)
  then have "follows ?t (fold removeRuleData ds (removeSelectData ?sd c))"
    using fo s by (simp add: follows_def fr plugin_frames plugin_selectByName_def frames)
  moreover have "tables_ok ?t"
  proof -
    have "rdo_selectorId r \<in> sdo_id ` {r \<in> set (tb_selectors t). sdo_id r \<noteq> i}" if "r \<in> set (tb_rules t)" "rdo_id r \<notin> ids" for r
      using ok that ids by (auto simp: tables_ok_def)
    moreover have "cdo_owner x \<in> rdo_id ` {r \<in> set (tb_rules t). rdo_id r \<notin> ids}" if "x \<in> set (tb_rule_conditions t)" "cdo_owner x \<notin> ids" for x
      using ok that by (auto simp: tables_ok_def)
    moreover have "tb_rule_conditions ?t = filter (\<lambda>x. cdo_owner x \<notin> ids) (tb_rule_conditions t)"
      "tb_selector_conditions ?t = delete_with cdo_owner i (tb_selector_conditions t)"
      "tb_rules ?t = filter (\<lambda>r. rdo_id r \<notin> ids) (tb_rules t)" "tb_selectors ?t = delete_with sdo_id i (tb_selectors t)"
      by (simp_all add: without_selector_def ids_def Let_def)
    ultimately show ?thesis using ok
      unfolding tables_ok_def frames by (auto simp: delete_with_def distinct_map_filter)
  qed
  ultimately show ?thesis unfolding fold by simp
qed

text \<open>Plugins.\<close>

lemma follows_plugins:
  assumes ok: "tables_ok t" and fo: "follows t c" and t': "t' = t\<lparr>tb_plugins := ps\<rparr>"
    and names: "\<And>r. r \<in> set (tb_selectors t) \<Longrightarrow>
       map_option pdo_name (row_with pdo_id (sdo_pluginId r) ps) = map_option pdo_name (row_with pdo_id (sdo_pluginId r) (tb_plugins t))"
    and distinct: "distinct (map pdo_id ps)" "distinct (map pdo_name ps)"
    and frame: "SELECTOR_MAP c' = SELECTOR_MAP c" "RULE_MAP c' = RULE_MAP c"
    and plugins: "\<And>n. obtainPluginData c' n = map_option plugin_mapToData (row_with pdo_name n ps)"
  shows "tables_ok t' \<and> follows t' c'"
proof -
  have frames: "tb_selectors t' = tb_selectors t" "tb_rules t' = tb_rules t" "tb_selector_conditions t' = tb_selector_conditions t"
    "tb_rule_conditions t' = tb_rule_conditions t" "tb_plugins t' = ps" by (simp_all add: t')
  have nm: "map_option pdo_name (plugin_selectById (sdo_pluginId r) t') = map_option pdo_name (plugin_selectById (sdo_pluginId r) t)"
    if "r \<in> set (tb_selectors t)" for r using names [OF that] by (simp add: plugin_selectById_def frames)
  have bs: "buildSelectorData u r = map_option (\<lambda>n. selector_transFrom r n
      (Some (map condition_of_do (rows_with cdo_owner (sdo_id r) (tb_selector_conditions u)))))
      (map_option pdo_name (plugin_selectById (sdo_pluginId r) u))" for u r
    by (simp add: buildSelectorData_def split: option.splits)
  have br: "buildRuleData u r = map_option (\<lambda>n. rule_transFrom r n
      (Some (map condition_of_do (rows_with cdo_owner (rdo_id r) (tb_rule_conditions u)))))
      (Option.bind (selector_selectById (rdo_selectorId r) u) (\<lambda>sel. map_option pdo_name (plugin_selectById (sdo_pluginId sel) u)))" for u r
    by (simp add: buildRuleData_def split: option.splits)
  have "buildSelectorData t' r = buildSelectorData t r" if "r \<in> set (tb_selectors t)" for r
    unfolding bs frames nm [OF that] ..
  then have sview: "selector_view t' = selector_view t" unfolding views frames by auto
  have "buildRuleData t' r = buildRuleData t r" if "r \<in> set (tb_rules t)" for r
  proof (cases "selector_selectById (rdo_selectorId r) t")
    case None
    then show ?thesis unfolding br by (simp add: selector_selectById_def frames)
  next
    case (Some sel)
    then have "sel \<in> set (tb_selectors t)"
      using row_with_Some [of sdo_id "rdo_selectorId r" "tb_selectors t" sel] by (simp add: selector_selectById_def)
    moreover have "selector_selectById (rdo_selectorId r) t' = Some sel" using Some by (simp add: selector_selectById_def frames)
    ultimately show ?thesis unfolding br frames Some using nm by simp
  qed
  then have rview: "rule_view t' = rule_view t" unfolding views frames by auto
  have holds: "slc.holds_rows c' v = slc.holds_rows c v" "rlc.holds_rows c' w = rlc.holds_rows c w" for v w
    using frame by (simp_all add: slc.holds_rows_def rlc.holds_rows_def slc.members_def rlc.members_def obtainSelectorData_def
      obtainRuleData_def)
  have "sdo_pluginId r \<in> pdo_id ` set ps" if r: "r \<in> set (tb_selectors t)" for r
  proof -
    have "sdo_pluginId r \<in> pdo_id ` set (tb_plugins t)" using ok r by (simp add: tables_ok_def)
    then obtain p where "row_with pdo_id (sdo_pluginId r) (tb_plugins t) = Some p"
      using row_with_exists [of "sdo_pluginId r" pdo_id "tb_plugins t"] by auto
    then obtain q where "row_with pdo_id (sdo_pluginId r) ps = Some q" using names [OF r] by auto
    from row_with_Some [OF this] show ?thesis by (metis imageI)
  qed
  then have "tables_ok t'" using ok distinct by (simp add: tables_ok_def frames)
  moreover have "follows t' c'"
    using fo plugins by (simp add: follows_def sview rview holds plugin_selectByName_def frames)
  ultimately show ?thesis ..
qed

text \<open>A plugin saved under the identifier \<open>i\<close>, new or not, whose name nobody else has.\<close>

lemma row_with_replaced:
  assumes "distinct (map name ps)" and "distinct (map name ps')" and "set ps' = insert new {r \<in> set ps. key r \<noteq> i}"
    and "\<And>r. r \<in> set ps \<Longrightarrow> key r = i \<longleftrightarrow> name r = name new"
  shows "row_with name n ps' = (if n = name new then Some new else row_with name n ps)"
proof (cases "n = name new")
  case True
  then show ?thesis using assms(2,3) by (simp add: row_with_iff)
next
  case False
  then have "row_with name n ps' = Some x \<longleftrightarrow> row_with name n ps = Some x" for x
    using assms by (auto simp: row_with_iff)
  then show ?thesis using False by (metis option.exhaust)
qed

lemma follows_plugin_saved:
  assumes ok: "tables_ok t" and fo: "follows t c" and t': "t' = t\<lparr>tb_plugins := ps\<rparr>"
    and ps: "set ps = insert new {r \<in> set (tb_plugins t). pdo_id r \<noteq> pdo_id new}" "distinct (map pdo_id ps)" "distinct (map pdo_name ps)"
    and who: "\<And>r. r \<in> set (tb_plugins t) \<Longrightarrow> pdo_id r = pdo_id new \<longleftrightarrow> pdo_name r = pdo_name new"
  shows "tables_ok t' \<and> follows t' (cachePluginData (plugin_mapToData new) c)"
proof (rule follows_plugins [OF ok fo t' _ ps(2,3)])
  fix r assume "r \<in> set (tb_selectors t)"
  then have "sdo_pluginId r \<in> pdo_id ` set (tb_plugins t)" using ok by (simp add: tables_ok_def)
  then obtain p where p: "row_with pdo_id (sdo_pluginId r) (tb_plugins t) = Some p" "p \<in> set (tb_plugins t)" "pdo_id p = sdo_pluginId r"
    using row_with_exists [of "sdo_pluginId r" pdo_id "tb_plugins t"] by auto
  have "row_with pdo_id (sdo_pluginId r) ps = Some (if sdo_pluginId r = pdo_id new then new else p)"
    using p ps by (simp add: row_with_iff)
  then show "map_option pdo_name (row_with pdo_id (sdo_pluginId r) ps) = map_option pdo_name (row_with pdo_id (sdo_pluginId r) (tb_plugins t))"
    using p who [OF p(2)] by simp
next
  fix n
  have "row_with pdo_name n ps = (if n = pdo_name new then Some new else row_with pdo_name n (tb_plugins t))"
    using ok ps who by (intro row_with_replaced [where key = pdo_id and i = "pdo_id new"]) (auto simp: tables_ok_def)
  then show "obtainPluginData (cachePluginData (plugin_mapToData new) c) n = map_option plugin_mapToData (row_with pdo_name n ps)"
    using fo by (simp add: follows_def plugin_selectByName_def obtainPluginData_def cachePluginData_def plugin_mapToData_def)
qed (simp_all add: cache_frames)

text \<open>A plugin that owns no selector, deleted.\<close>

lemma follows_plugin_deleted:
  assumes ok: "tables_ok t" and fo: "follows t c" and p: "p \<in> set (tb_plugins t)" "pdo_id p = i"
    and free: "\<And>r. r \<in> set (tb_selectors t) \<Longrightarrow> sdo_pluginId r \<noteq> i"
  shows "tables_ok (t\<lparr>tb_plugins := delete_with pdo_id i (tb_plugins t)\<rparr>)
     \<and> follows (t\<lparr>tb_plugins := delete_with pdo_id i (tb_plugins t)\<rparr>) (removePluginData (plugin_mapToData p) c)"
proof (rule follows_plugins [OF ok fo refl])
  let ?ps = "delete_with pdo_id i (tb_plugins t)"
  show d: "distinct (map pdo_id ?ps)" "distinct (map pdo_name ?ps)"
    using ok by (simp_all add: tables_ok_def delete_with_def distinct_map_filter)
  fix r assume "r \<in> set (tb_selectors t)"
  then show "map_option pdo_name (row_with pdo_id (sdo_pluginId r) ?ps) = map_option pdo_name (row_with pdo_id (sdo_pluginId r) (tb_plugins t))"
    using free by (simp add: row_with_delete)
next
  fix n
  let ?ps = "delete_with pdo_id i (tb_plugins t)"
  have d: "distinct (map pdo_name (tb_plugins t))" "distinct (map pdo_name ?ps)" "distinct (map pdo_id (tb_plugins t))"
    using ok by (simp_all add: tables_ok_def delete_with_def distinct_map_filter)
  have who: "pdo_id r = i \<longleftrightarrow> pdo_name r = pdo_name p" if "r \<in> set (tb_plugins t)" for r
    using that p d(1,3) by (metis distinct_key)
  have "row_with pdo_name n ?ps = (if n = pdo_name p then None else row_with pdo_name n (tb_plugins t))"
  proof (cases "n = pdo_name p")
    case True
    then show ?thesis using who by (auto simp: row_with_None delete_with_def)
  next
    case False
    then have "row_with pdo_name n ?ps = Some x \<longleftrightarrow> row_with pdo_name n (tb_plugins t) = Some x" for x
      using d who by (auto simp: row_with_iff delete_with_def)
    then show ?thesis using False by (metis option.exhaust)
  qed
  then show "obtainPluginData (removePluginData (plugin_mapToData p) c) n = map_option plugin_mapToData (row_with pdo_name n ?ps)"
    using fo by (simp add: follows_def plugin_selectByName_def obtainPluginData_def removePluginData_def plugin_mapToData_def remove_key_def)
qed (simp_all add: cache_frames)

end
