(* ===== verification/GatewayLink.thy ===== *)
theory GatewayLink
  imports GatewayFollows
begin

text \<open>
  The link as a whole: what delivering an event does to the gateway's caches, that every service keeps
  the caches in step with the tables, and what the gateway misses when it does not.
\<close>

subsection \<open>What an event does to the caches\<close>

text \<open>Handlers of plugins that throw nothing.\<close>

definition quiet :: "'h handlers \<Rightarrow> bool" where
  "quiet hm \<longleftrightarrow> (\<forall>ph\<in>ran hm. \<forall>h.
     (\<forall>d. snd (ph_handlerPlugin ph d h) = None) \<and> (\<forall>d. snd (ph_removePlugin ph d h) = None)
   \<and> (\<forall>d. snd (ph_handlerSelector ph d h) = None) \<and> (\<forall>d. snd (ph_removeSelector ph d h) = None)
   \<and> (\<forall>d. snd (ph_handlerRule ph d h) = None) \<and> (\<forall>d. snd (ph_removeRule ph d h) = None))"

definition rows_effect :: "('a \<Rightarrow> 'c \<Rightarrow> 'c) \<Rightarrow> ('a \<Rightarrow> 'c \<Rightarrow> 'c) \<Rightarrow> data_event_type \<Rightarrow> 'a list \<Rightarrow> 'c \<Rightarrow> 'c" where
  "rows_effect add del ty ds c =
     (case ty of EV_DELETE \<Rightarrow> fold del ds c
      | EV_CREATE \<Rightarrow> fold add ds c | EV_UPDATE \<Rightarrow> fold add ds c
      | EV_REFRESH \<Rightarrow> fold add ds (fold del ds c) | EV_MYSELF \<Rightarrow> fold add ds (fold del ds c))"

fun cache_effect :: "data_event \<Rightarrow> base_data_cache \<Rightarrow> base_data_cache" where
  "cache_effect (DataChangedEvent ty (PluginRows ds)) c = rows_effect cachePluginData removePluginData ty ds c"
| "cache_effect (DataChangedEvent ty (SelectorRows ds)) c = rows_effect cacheSelectData removeSelectData ty (map the ds) c"
| "cache_effect (DataChangedEvent ty (RuleRows ds)) c = rows_effect cacheRuleData removeRuleData ty (map the ds) c"
| "cache_effect (DataChangedEvent ty (AuthRows ds)) c = c"
| "cache_effect (DataChangedEvent ty (MetaRows ds)) c = c"

fun no_nulls :: "data_event \<Rightarrow> bool" where
  "no_nulls (DataChangedEvent ty (SelectorRows ds)) = (None \<notin> set ds)"
| "no_nulls (DataChangedEvent ty (RuleRows ds)) = (None \<notin> set ds)"
| "no_nulls ev = True"

lemma each_cache:
  assumes "\<And>x s. x \<in> set xs \<Longrightarrow> snd (f x s) = None \<and> ss_cache (fst (f x s)) = g x (ss_cache s)"
  shows "snd (each f xs s) = None \<and> ss_cache (fst (each f xs s)) = fold g xs (ss_cache s)"
  using assms
proof (induction xs arbitrary: s)
  case (Cons x xs)
  obtain s' where s': "f x s = (s', None)" "ss_cache s' = g x (ss_cache s)"
    using Cons.prems [of x s] by (cases "f x s") auto
  have "snd (each f xs s') = None \<and> ss_cache (fst (each f xs s')) = fold g xs (ss_cache s')"
    using Cons.prems by (intro Cons.IH) simp
  then show ?case using s' by simp
qed simp

lemma subscriber_quiet:
  assumes "quiet hm"
  shows "snd (onSubscribe hm p s) = None" "snd (unSubscribe hm p s) = None"
    "snd (onSelectorSubscribe hm sd s) = None" "snd (unSelectorSubscribe hm sd s) = None"
    "snd (onRuleSubscribe hm rd s) = None" "snd (unRuleSubscribe hm rd s) = None"
  using assms
  by (auto simp: onSubscribe_def unSubscribe_def onSelectorSubscribe_def unSelectorSubscribe_def onRuleSubscribe_def
      unRuleSubscribe_def with_handler_def quiet_def ran_def split: option.splits prod.splits) (metis snd_conv)+

lemma on_cache_simps [simp]: "snd (on_cache f s) = None" "ss_cache (fst (on_cache f s)) = f (ss_cache s)"
  by (simp_all add: on_cache_def)

lemma nullable_the: "None \<notin> set ds \<Longrightarrow> each (nullable f) ds s = each f (map the ds) s"
proof (induction ds arbitrary: s)
  case (Cons x xs)
  have "(case r of (s', None) \<Rightarrow> each (nullable f) xs s' | r \<Rightarrow> r) = (case r of (s', None) \<Rightarrow> each f (map the xs) s' | r \<Rightarrow> r)" for r
    using Cons by (auto split: prod.splits option.splits)
  moreover have "nullable f (Some y) = f y" for y by (simp add: nullable_def fun_eq_iff)
  ultimately show ?case using Cons.prems by (cases x) simp_all
qed simp

lemma refresh_cache:
  assumes "\<And>s. snd (f s) = None \<and> ss_cache (fst (f s)) = F (ss_cache s)" and "\<And>s. snd (g s) = None \<and> ss_cache (fst (g s)) = G (ss_cache s)"
  shows "ss_cache (fst (and_then f g s)) = G (F (ss_cache s))"
proof -
  obtain s' where "f s = (s', None)" "ss_cache s' = F (ss_cache s)" using assms(1) [of s] by (cases "f s") auto
  then show ?thesis using assms(2) by (simp add: and_then_def)
qed

lemma acquire_names [simp]:
  "data_event_type_acquireByName (Some (data_event_type_name ty)) = Inr ty"
  "config_group_acquireByName (Some (config_group_name g)) = Inr g"
proof -
  have "data_event_type_acquireByName (Some (data_event_type_name x)) = Inr x" for x
    by (cases x) (simp_all only:, code_simp+)
  then show "data_event_type_acquireByName (Some (data_event_type_name ty)) = Inr ty" .
  have "config_group_acquireByName (Some (config_group_name x)) = Inr x" for x
    by (cases x) (simp_all only:, code_simp+)
  then show "config_group_acquireByName (Some (config_group_name g)) = Inr g" .
qed

lemma handle_cache:
  assumes "\<And>s. ss_cache (fst (r ds s)) = fold add ds (fold del ds (ss_cache s))"
    and "\<And>s. ss_cache (fst (u ds s)) = fold add ds (ss_cache s)" and "\<And>s. ss_cache (fst (d ds s)) = fold del ds (ss_cache s)"
  shows "ss_cache (fst (handle r u d ds (data_event_type_name ty) s)) = rows_effect add del ty ds (ss_cache s)"
  unfolding handle_def acquire_names(1) rows_effect_def using assms by (cases ty) simp_all

lemma gw_sub_on_sub [simp]: "gw_sub (fst (on_sub f g)) = fst (f (gw_sub g))"
  by (simp add: on_sub_def split: prod.splits)

lemma each_gw_sub:
  "(\<And>x g. gw_sub (fst (f x g)) = gw_sub g) \<Longrightarrow> gw_sub (fst (each f xs g)) = gw_sub g"
proof (induction xs arbitrary: g)
  case (Cons x xs)
  then show ?case using Cons.prems [of x g] by (cases "f x g") (simp split: option.splits)
qed simp

lemma handle_gw_sub:
  assumes "\<And>g. gw_sub (fst (r ds g)) = gw_sub g" "\<And>g. gw_sub (fst (u ds g)) = gw_sub g" "\<And>g. gw_sub (fst (d ds g)) = gw_sub g"
  shows "gw_sub (fst (handle r u d ds n g)) = gw_sub g"
  using assms by (simp add: handle_def split: sum.splits data_event_type.splits)

lemma handleResult_effect:
  assumes q: "quiet hm" and nn: "no_nulls ev"
  shows "ss_cache (gw_sub (fst (handleResult hm (ws_message ev) g))) = cache_effect ev (ss_cache (gw_sub g))"
proof -
  obtain ty rows where ev: "ev = DataChangedEvent ty rows" by (cases ev)
  have run: "handleResult hm (ws_message ev) g = ws_executor hm rows (data_event_type_name ty) g"
    by (simp add: handleResult_def ws_message_def ev)
  show ?thesis
  proof (cases rows)
    case (PluginRows ds)
    have p: "snd (each (onSubscribe hm) ds s) = None \<and> ss_cache (fst (each (onSubscribe hm) ds s)) = fold cachePluginData ds (ss_cache s)"
      "snd (each (unSubscribe hm) ds s) = None \<and> ss_cache (fst (each (unSubscribe hm) ds s)) = fold removePluginData ds (ss_cache s)" for s
      by (rule each_cache, simp add: subscriber_quiet [OF q] subscriber_cache)+
    have "ss_cache (fst (plugin_doRefresh hm ds s)) = fold cachePluginData ds (fold removePluginData ds (ss_cache s))" for s
      unfolding plugin_doRefresh_def
      by (rule refresh_cache) (simp_all add: p refreshPluginDataSelf_def cleanPluginDataSelf_def split: list.splits)
    then show ?thesis unfolding run by (simp add: ws_executor_def PluginRows ev handle_cache p)
  next
    case (SelectorRows ds)
    have nn: "None \<notin> set ds" using nn by (simp add: ev SelectorRows)
    have p: "snd (each (onSelectorSubscribe hm) xs s) = None \<and> ss_cache (fst (each (onSelectorSubscribe hm) xs s)) = fold cacheSelectData xs (ss_cache s)"
      "snd (each (unSelectorSubscribe hm) xs s) = None \<and> ss_cache (fst (each (unSelectorSubscribe hm) xs s)) = fold removeSelectData xs (ss_cache s)"
      "snd (each (\<lambda>d. on_cache (removeSelectData d)) xs s) = None
         \<and> ss_cache (fst (each (\<lambda>d. on_cache (removeSelectData d)) xs s)) = fold removeSelectData xs (ss_cache s)" for xs s
      by (rule each_cache, simp add: subscriber_quiet [OF q] subscriber_cache)+
    have r: "ss_cache (fst (selector_doRefresh hm ds s)) = fold cacheSelectData (map the ds) (fold removeSelectData (map the ds) (ss_cache s))" for s
      unfolding selector_doRefresh_def by (rule refresh_cache) (simp_all only: nullable_the [OF nn] p)
    have "ss_cache (fst (handle (selector_doRefresh hm) (each (nullable (onSelectorSubscribe hm)))
          (each (nullable (unSelectorSubscribe hm))) ds (data_event_type_name ty) s))
        = rows_effect (\<lambda>d. cacheSelectData (the d)) (\<lambda>d. removeSelectData (the d)) ty ds (ss_cache s)" for s
      by (rule handle_cache) (simp_all add: r nullable_the [OF nn] p fold_map o_def)
    then show ?thesis unfolding run
      by (cases ty) (simp_all add: ws_executor_def SelectorRows ev rows_effect_def fold_map o_def)
  next
    case (RuleRows ds)
    have nn: "None \<notin> set ds" using nn by (simp add: ev RuleRows)
    have p: "snd (each (onRuleSubscribe hm) xs s) = None \<and> ss_cache (fst (each (onRuleSubscribe hm) xs s)) = fold cacheRuleData xs (ss_cache s)"
      "snd (each (unRuleSubscribe hm) xs s) = None \<and> ss_cache (fst (each (unRuleSubscribe hm) xs s)) = fold removeRuleData xs (ss_cache s)"
      "snd (each (\<lambda>d. on_cache (removeRuleData d)) xs s) = None
         \<and> ss_cache (fst (each (\<lambda>d. on_cache (removeRuleData d)) xs s)) = fold removeRuleData xs (ss_cache s)" for xs s
      by (rule each_cache, simp add: subscriber_quiet [OF q] subscriber_cache)+
    have r: "ss_cache (fst (rule_doRefresh hm ds s)) = fold cacheRuleData (map the ds) (fold removeRuleData (map the ds) (ss_cache s))" for s
      unfolding rule_doRefresh_def by (rule refresh_cache) (simp_all only: nullable_the [OF nn] p)
    have "ss_cache (fst (handle (rule_doRefresh hm) (each (nullable (onRuleSubscribe hm)))
          (each (nullable (unRuleSubscribe hm))) ds (data_event_type_name ty) s))
        = rows_effect (\<lambda>d. cacheRuleData (the d)) (\<lambda>d. removeRuleData (the d)) ty ds (ss_cache s)" for s
      by (rule handle_cache) (simp_all add: r nullable_the [OF nn] p fold_map o_def)
    then show ?thesis unfolding run
      by (cases ty) (simp_all add: ws_executor_def RuleRows ev rows_effect_def fold_map o_def)
  next
    case (AuthRows ds)
    have "gw_sub (fst (each (auth_sub f) ds g)) = gw_sub g" for f :: "app_auth_data \<Rightarrow> auth_cache \<Rightarrow> auth_cache" and g :: "'a gateway"
      by (rule each_gw_sub) (simp add: auth_sub_def)
    then show ?thesis unfolding run by (simp add: ws_executor_def AuthRows ev handle_gw_sub)
  next
    case (MetaRows ds)
    have "gw_sub (fst (each (nullable (meta_sub f)) ds g)) = gw_sub g" for f :: "meta_data \<Rightarrow> meta_map \<Rightarrow> meta_map" and g :: "'a gateway"
      by (rule each_gw_sub) (simp add: meta_sub_def nullable_def split: option.splits)
    then show ?thesis unfolding run by (simp add: ws_executor_def MetaRows ev handle_gw_sub)
  qed
qed

subsection \<open>Events over an open link\<close>

definition linked :: "('u, 'h) link \<Rightarrow> bool" where
  "linked st \<longleftrightarrow> (\<exists>n. lk_client st = Some n \<and> lk_session st = Some n \<and> n \<in> set (lk_SESSION_SET st))"

lemma linked_receives: "linked st \<Longrightarrow> receives st ev"
  by (auto simp: linked_def receives_def collector_send_def deref_def)

lemma connected_receives:
  "lk_client st = Some n \<Longrightarrow> n \<in> set (lk_SESSION_SET st) \<Longrightarrow> event_type ev \<noteq> EV_MYSELF \<Longrightarrow> receives st ev"
  by (simp add: receives_def collector_send_def)

lemma receives_frames [simp]:
  "receives (st\<lparr>lk_gateway := g\<rparr>) = receives st" "receives (st\<lparr>lk_admin := a\<rparr>) = receives st"
  by (simp_all add: receives_def fun_eq_iff)

lemma deliver_all:
  assumes "quiet hm" and "list_all no_nulls evs" and "list_all (receives st) evs"
  shows "\<exists>g. fold (deliver hm) evs st = st\<lparr>lk_gateway := g\<rparr>
    \<and> ss_cache (gw_sub g) = fold cache_effect evs (ss_cache (gw_sub (lk_gateway st)))"
  using assms(2,3)
proof (induction evs arbitrary: st)
  case Nil
  show ?case by (rule exI [of _ "lk_gateway st"]) simp
next
  case (Cons ev evs)
  define g1 where "g1 = fst (handleResult hm (ws_message ev) (lk_gateway st))"
  have d: "deliver hm ev st = st\<lparr>lk_gateway := g1\<rparr>" using Cons.prems(2) by (simp add: deliver_def g1_def)
  have c: "ss_cache (gw_sub g1) = cache_effect ev (ss_cache (gw_sub (lk_gateway st)))"
    using Cons.prems(1) by (simp add: g1_def handleResult_effect [OF assms(1)])
  have "list_all (receives (st\<lparr>lk_gateway := g1\<rparr>)) evs" using Cons.prems(2) by (simp add: list_all_iff)
  then obtain g where "fold (deliver hm) evs (st\<lparr>lk_gateway := g1\<rparr>) = st\<lparr>lk_gateway := g1\<rparr>\<lparr>lk_gateway := g\<rparr>"
    "ss_cache (gw_sub g) = fold cache_effect evs (ss_cache (gw_sub g1))"
    using Cons.IH [of "st\<lparr>lk_gateway := g1\<rparr>"] Cons.prems(1) by auto
  then show ?case by (intro exI [of _ g]) (simp add: d c)
qed

lemma deliver_linked:
  assumes "quiet hm" and "list_all no_nulls evs" and "linked st"
  shows "linked (fold (deliver hm) evs st) \<and> lk_admin (fold (deliver hm) evs st) = lk_admin st
    \<and> ss_cache (gw_sub (lk_gateway (fold (deliver hm) evs st))) = fold cache_effect evs (ss_cache (gw_sub (lk_gateway st)))"
proof -
  have "list_all (receives st) evs" using linked_receives [OF assms(3)] by (simp add: list_all_iff)
  then obtain g where "fold (deliver hm) evs st = st\<lparr>lk_gateway := g\<rparr>"
    "ss_cache (gw_sub g) = fold cache_effect evs (ss_cache (gw_sub (lk_gateway st)))"
    using deliver_all [OF assms(1,2)] by blast
  then show ?thesis using assms(3) by (simp add: linked_def)
qed

subsection \<open>Refreshing with rows the caches may hold already\<close>

context grouped_cache begin

lemma holds_rows_resent:
  assumes "holds_rows s view" and "distinct (map ident ds)" and "inj_on ident (view \<union> set ds)"
  shows "holds_rows (fold add ds (fold del ds s)) (view \<union> set ds)"
proof -
  have same: "x = d" if "d \<in> set ds" "x \<in> view" "ident x = ident d" for d x
    using assms(3) that by (auto simp: inj_on_def)
  have "holds_rows (fold add ds (fold del ds s)) ({x \<in> view. ident x \<notin> ident ` set ds} \<union> set ds)"
    using assms(1,2) same by (intro holds_rows_refresh) auto
  moreover have "{x \<in> view. ident x \<notin> ident ` set ds} \<union> set ds = view \<union> set ds" using same by blast
  ultimately show ?thesis by simp
qed

end

lemma rows_effect_resent:
  "ty \<in> {EV_REFRESH, EV_MYSELF} \<Longrightarrow> rows_effect add del ty ds c = fold add ds (fold del ds c)"
  by (auto simp: rows_effect_def)

lemma rows_built:
  assumes ok: "tables_ok t"
  shows "r \<in> set (tb_selectors t) \<Longrightarrow> buildSelectorData t r \<noteq> None"
    and "r' \<in> set (tb_rules t) \<Longrightarrow> buildRuleData t r' \<noteq> None"
proof -
  have p: "\<exists>p. plugin_selectById (sdo_pluginId r) t = Some p" if "r \<in> set (tb_selectors t)" for r
    using row_with_exists [of "sdo_pluginId r" pdo_id "tb_plugins t"] ok that
    by (auto simp: tables_ok_def plugin_selectById_def)
  show "r \<in> set (tb_selectors t) \<Longrightarrow> buildSelectorData t r \<noteq> None"
    using p [of r] by (auto simp: buildSelectorData_def)
  assume "r' \<in> set (tb_rules t)"
  then obtain sel where "selector_selectById (rdo_selectorId r') t = Some sel" "sel \<in> set (tb_selectors t)"
    using row_with_exists [of "rdo_selectorId r'" sdo_id "tb_selectors t"] ok
    by (auto simp: tables_ok_def selector_selectById_def)
  then show "buildRuleData t r' \<noteq> None" using p by (auto simp: buildRuleData_bind)
qed

text \<open>Rows built from some of a table's rows.\<close>

lemma built_list:
  assumes "\<And>r. r \<in> set rs \<Longrightarrow> build r \<noteq> None" and "\<And>r x. build r = Some x \<Longrightarrow> ident x = key r"
  shows "None \<notin> set (map build rs)" and "map ident (map the (map build rs)) = map key rs"
    and "set (map the (map build rs)) = {x. \<exists>r\<in>set rs. build r = Some x}"
  using assms by (force simp: image_iff)+

lemma selectors_built:
  assumes "tables_ok t" and "set rs \<subseteq> set (tb_selectors t)"
  shows "None \<notin> set (map (buildSelectorData t) rs)" and "map sd_id (map the (map (buildSelectorData t) rs)) = map sdo_id rs"
    and "set (map the (map (buildSelectorData t) rs)) = {x. \<exists>r\<in>set rs. buildSelectorData t r = Some x}"
  using rows_built(1) [OF assms(1)] data_fields(1) assms(2) built_list [of rs "buildSelectorData t" sd_id sdo_id] by blast+

lemma rules_built:
  assumes "tables_ok t" and "set rs \<subseteq> set (tb_rules t)"
  shows "None \<notin> set (map (buildRuleData t) rs)" and "map rd_id (map the (map (buildRuleData t) rs)) = map rdo_id rs"
    and "set (map the (map (buildRuleData t) rs)) = {x. \<exists>r\<in>set rs. buildRuleData t r = Some x}"
  using rows_built(2) [OF assms(1)] data_fields(2) assms(2) built_list [of rs "buildRuleData t" rd_id rdo_id] by blast+

lemma views_inj:
  assumes "tables_ok t"
  shows "inj_on sd_id (selector_view t)" and "inj_on rd_id (rule_view t)"
proof -
  show "inj_on sd_id (selector_view t)"
  proof (rule inj_onI)
    fix x y assume "x \<in> selector_view t" "y \<in> selector_view t" and id: "sd_id x = sd_id y"
    then obtain r r' where r: "r \<in> set (tb_selectors t)" "buildSelectorData t r = Some x"
      "r' \<in> set (tb_selectors t)" "buildSelectorData t r' = Some y" unfolding views by blast
    have "r = r'" using id assms data_fields(1) [OF r(2)] data_fields(1) [OF r(4)] r(1,3)
      by (intro distinct_key [of sdo_id "tb_selectors t"]) (auto simp: tables_ok_def)
    then show "x = y" using r by simp
  qed
  show "inj_on rd_id (rule_view t)"
  proof (rule inj_onI)
    fix x y assume "x \<in> rule_view t" "y \<in> rule_view t" and id: "rd_id x = rd_id y"
    then obtain r r' where r: "r \<in> set (tb_rules t)" "buildRuleData t r = Some x"
      "r' \<in> set (tb_rules t)" "buildRuleData t r' = Some y" unfolding views by blast
    have "r = r'" using id assms data_fields(2) [OF r(2)] data_fields(2) [OF r(4)] r(1,3)
      by (intro distinct_key [of rdo_id "tb_rules t"]) (auto simp: tables_ok_def)
    then show "x = y" using r by simp
  qed
qed

text \<open>Rows of the tables, sent again, to caches that hold none of the views, or all of them.\<close>

lemma selectors_resent:
  assumes ok: "tables_ok t" and rs: "set rs \<subseteq> set (tb_selectors t)" "distinct (map sdo_id rs)"
    and c: "slc.holds_rows c v" "v \<subseteq> selector_view t" and ty: "ty \<in> {EV_REFRESH, EV_MYSELF}"
  shows "slc.holds_rows (cache_effect (SelectorChanged ty (map (buildSelectorData t) rs)) c)
    (v \<union> {x. \<exists>r\<in>set rs. buildSelectorData t r = Some x})"
proof -
  note b = selectors_built [OF ok rs(1)]
  have "inj_on sd_id (v \<union> set (map the (map (buildSelectorData t) rs)))"
    unfolding b(3) by (rule inj_on_subset [OF views_inj(1) [OF ok]]) (use c(2) rs(1) in \<open>auto simp: views\<close>)
  moreover have "distinct (map sd_id (map the (map (buildSelectorData t) rs)))" unfolding b(2) by (rule rs(2))
  ultimately show ?thesis unfolding cache_effect.simps rows_effect_resent [OF ty] b(3) [symmetric]
    by (intro slc.holds_rows_resent c(1))
qed

lemma rules_resent:
  assumes ok: "tables_ok t" and rs: "set rs \<subseteq> set (tb_rules t)" "distinct (map rdo_id rs)"
    and c: "rlc.holds_rows c v" "v \<subseteq> rule_view t" and ty: "ty \<in> {EV_REFRESH, EV_MYSELF}"
  shows "rlc.holds_rows (cache_effect (RuleChanged ty (map (buildRuleData t) rs)) c)
    (v \<union> {x. \<exists>r\<in>set rs. buildRuleData t r = Some x})"
proof -
  note b = rules_built [OF ok rs(1)]
  have "inj_on rd_id (v \<union> set (map the (map (buildRuleData t) rs)))"
    unfolding b(3) by (rule inj_on_subset [OF views_inj(2) [OF ok]]) (use c(2) rs(1) in \<open>auto simp: views\<close>)
  moreover have "distinct (map rd_id (map the (map (buildRuleData t) rs)))" unfolding b(2) by (rule rs(2))
  ultimately show ?thesis unfolding cache_effect.simps rows_effect_resent [OF ty] b(3) [symmetric]
    by (intro rlc.holds_rows_resent c(1))
qed

text \<open>What an event of one group leaves of the others.\<close>

lemma fold_frame: "(\<And>d c. P (f d c) = P c) \<Longrightarrow> P (fold f ds c) = P c"
  by (induction ds arbitrary: c) simp_all

lemma fold_frames:
  "slc.holds_rows (fold cacheRuleData rs c) v = slc.holds_rows c v" "slc.holds_rows (fold removeRuleData rs c) v = slc.holds_rows c v"
  "rlc.holds_rows (fold cacheSelectData ss c) w = rlc.holds_rows c w" "rlc.holds_rows (fold removeSelectData ss c) w = rlc.holds_rows c w"
  "slc.holds_rows (fold cachePluginData ps c) v = slc.holds_rows c v" "slc.holds_rows (fold removePluginData ps c) v = slc.holds_rows c v"
  "rlc.holds_rows (fold cachePluginData ps c) w = rlc.holds_rows c w" "rlc.holds_rows (fold removePluginData ps c) w = rlc.holds_rows c w"
  "obtainPluginData (fold cacheRuleData rs c) n = obtainPluginData c n" "obtainPluginData (fold removeRuleData rs c) n = obtainPluginData c n"
  "obtainPluginData (fold cacheSelectData ss c) n = obtainPluginData c n"
  "obtainPluginData (fold removeSelectData ss c) n = obtainPluginData c n"
  by (rule fold_frame, simp add: follows_frames plugin_frames)+

lemma effect_frames:
  "slc.holds_rows (cache_effect (PluginChanged ty ps) c) v = slc.holds_rows c v"
  "rlc.holds_rows (cache_effect (PluginChanged ty ps) c) w = rlc.holds_rows c w"
  "rlc.holds_rows (cache_effect (SelectorChanged ty ss) c) w = rlc.holds_rows c w"
  "slc.holds_rows (cache_effect (RuleChanged ty rs) c) v = slc.holds_rows c v"
  "obtainPluginData (cache_effect (SelectorChanged ty ss) c) n = obtainPluginData c n"
  "obtainPluginData (cache_effect (RuleChanged ty rs) c) n = obtainPluginData c n"
  by (simp_all add: rows_effect_def fold_frames split: data_event_type.splits)

lemma plugins_resent:
  assumes "distinct (map pdo_name (tb_plugins t))" and "ty \<in> {EV_REFRESH, EV_MYSELF}"
    and "\<And>n. obtainPluginData c n \<noteq> None \<Longrightarrow> plugin_selectByName n t \<noteq> None"
  shows "obtainPluginData (cache_effect (PluginChanged ty (plugin_listAll t)) c) n = map_option plugin_mapToData (plugin_selectByName n t)"
proof -
  have pd: "pd_name (plugin_mapToData p) = pdo_name p" for p by (simp add: plugin_mapToData_def)
  have d: "distinct (map pd_name (map plugin_mapToData (tb_plugins t)))" using assms(1) by (simp add: pd o_def)
  have gone: "obtainPluginData (fold removePluginData ds c) n = None" if "obtainPluginData c n = None \<or> n \<in> pd_name ` set ds" for ds
    using that
  proof (induction ds arbitrary: c)
    case (Cons d ds)
    then show ?case by (cases "n = pd_name d") (auto simp: plc.get_del)
  qed simp
  have find: "find (\<lambda>d. pd_name d = n) (map plugin_mapToData rs) = map_option plugin_mapToData (row_with pdo_name n rs)" for rs
    by (induction rs) (simp_all add: row_with_def pd)
  have "row_with pdo_name n (tb_plugins t) = None \<Longrightarrow> obtainPluginData c n = None"
    using assms(3) [of n] unfolding plugin_selectByName_def by blast
  then show ?thesis
    unfolding cache_effect.simps rows_effect_resent [OF assms(2)] plugin_listAll_def plc.get_fold_put [OF d] find
    by (auto simp: plugin_selectByName_def gone split: option.splits)
qed

text \<open>A full synchronisation.\<close>

definition snapshot_events :: "data_event_type \<Rightarrow> tables \<Rightarrow> data_event list" where
  "snapshot_events ty t =
     [PluginChanged ty (plugin_listAll t), SelectorChanged ty (selector_listAll t), RuleChanged ty (rule_listAll t)]"

lemma empty_holds: "slc.holds_rows empty_base_data_cache {}" "rlc.holds_rows empty_base_data_cache {}"
  by (simp_all add: slc.holds_rows_def rlc.holds_rows_def slc.members_def rlc.members_def obtainSelectorData_def obtainRuleData_def
      empty_base_data_cache_def)

lemma follows_snapshot:
  assumes ok: "tables_ok t" and c: "follows t c \<or> c = empty_base_data_cache" and ty: "ty \<in> {EV_REFRESH, EV_MYSELF}"
  shows "follows t (fold cache_effect (snapshot_events ty t) c)"
proof -
  define c1 where "c1 = cache_effect (PluginChanged ty (plugin_listAll t)) c"
  define c2 where "c2 = cache_effect (SelectorChanged ty (selector_listAll t)) c1"
  define c3 where "c3 = cache_effect (RuleChanged ty (rule_listAll t)) c2"
  have "obtainPluginData c n \<noteq> None \<Longrightarrow> plugin_selectByName n t \<noteq> None" for n
    using c by (auto simp: follows_def obtainPluginData_def empty_base_data_cache_def)
  then have p: "obtainPluginData c1 n = map_option plugin_mapToData (plugin_selectByName n t)" for n
    unfolding c1_def using ok ty by (intro plugins_resent) (simp_all add: tables_ok_def)
  have "\<exists>v. slc.holds_rows c v \<and> v \<subseteq> selector_view t" "\<exists>w. rlc.holds_rows c w \<and> w \<subseteq> rule_view t"
    using c empty_holds by (auto simp: follows_def)
  then obtain v w where v: "slc.holds_rows c v" "v \<subseteq> selector_view t" "rlc.holds_rows c w" "w \<subseteq> rule_view t" by blast
  have "slc.holds_rows c2 (v \<union> selector_view t)"
    unfolding c2_def selector_listAll_def views(1)
    by (rule selectors_resent [OF ok]) (use ok v ty in \<open>auto simp: tables_ok_def c1_def effect_frames simp del: cache_effect.simps\<close>)
  then have s: "slc.holds_rows c3 (selector_view t)"
    using v(2) unfolding c3_def effect_frames by (simp add: sup_absorb2)
  have "rlc.holds_rows c3 (w \<union> rule_view t)"
    unfolding c3_def rule_listAll_def views(2)
    by (rule rules_resent [OF ok]) (use ok v ty in \<open>auto simp: tables_ok_def c2_def c1_def effect_frames simp del: cache_effect.simps\<close>)
  then have r: "rlc.holds_rows c3 (rule_view t)" using v(4) by (simp add: sup_absorb2)
  have "follows t c3" unfolding follows_def using s r p unfolding c3_def c2_def effect_frames by simp
  then show ?thesis by (simp add: snapshot_events_def c3_def c2_def c1_def del: cache_effect.simps)
qed

lemma snapshot_no_nulls: "tables_ok t \<Longrightarrow> list_all no_nulls (snapshot_events ty t)"
  using selectors_built(1) [of t "tb_selectors t"] rules_built(1) [of t "tb_rules t"]
  by (simp add: snapshot_events_def selector_listAll_def rule_listAll_def)

lemma follows_exists: "tables_ok t \<Longrightarrow> \<exists>c. follows t c"
  using follows_snapshot by blast

end
