(* ===== verification/GatewayInStep.thy ===== *)
theory GatewayInStep
  imports GatewayLink
begin

text \<open>
  Every service of the admin keeps the gateway in step with the tables, for requests that are orderly;
  and what goes wrong for those that are not.
\<close>

subsection \<open>Services that keep the caches in step\<close>

text \<open>Caches that follow the tables before follow them after, when what was published has been delivered.\<close>

definition keeps :: "'u admin \<Rightarrow> 'u admin \<Rightarrow> bool" where
  "keeps s s' \<longleftrightarrow> (\<forall>c. tables_ok (ad_tables s) \<and> follows (ad_tables s) c \<longrightarrow> tables_ok (ad_tables s')
     \<and> (\<exists>evs. ad_published s' = ad_published s @ evs \<and> list_all no_nulls evs
          \<and> follows (ad_tables s') (fold cache_effect evs c)))"

lemma keeps_trans:
  assumes "keeps s s'" and "keeps s' s''"
  shows "keeps s s''"
  unfolding keeps_def
proof (intro allI impI)
  fix c assume "tables_ok (ad_tables s) \<and> follows (ad_tables s) c"
  then obtain evs where 1: "tables_ok (ad_tables s')" "ad_published s' = ad_published s @ evs" "list_all no_nulls evs"
    "follows (ad_tables s') (fold cache_effect evs c)" using assms(1) by (auto simp: keeps_def)
  then obtain evs' where 2: "tables_ok (ad_tables s'')" "ad_published s'' = ad_published s' @ evs'" "list_all no_nulls evs'"
    "follows (ad_tables s'') (fold cache_effect evs' (fold cache_effect evs c))" using assms(2) by (auto simp: keeps_def)
  show "tables_ok (ad_tables s'') \<and> (\<exists>evs. ad_published s'' = ad_published s @ evs \<and> list_all no_nulls evs
      \<and> follows (ad_tables s'') (fold cache_effect evs c))"
    using 1 2 by (intro conjI exI [of _ "evs @ evs'"]) simp_all
qed

lemma keepsI:
  assumes "ad_published s' = ad_published s @ evs"
    and "\<And>c. tables_ok (ad_tables s) \<Longrightarrow> follows (ad_tables s) c \<Longrightarrow>
      tables_ok (ad_tables s') \<and> list_all no_nulls evs \<and> follows (ad_tables s') (fold cache_effect evs c)"
  shows "keeps s s'"
  using assms unfolding keeps_def by blast

lemma keeps_same: "ad_tables s' = ad_tables s \<Longrightarrow> ad_published s' = ad_published s \<Longrightarrow> keeps s s'"
  by (rule keepsI [of _ _ "[]"]) simp_all

lemma keeps_refl: "keeps s s"
  by (rule keeps_same) simp_all

lemma keeps_tables_ok: "keeps s s' \<Longrightarrow> tables_ok (ad_tables s) \<Longrightarrow> tables_ok (ad_tables s')"
  using follows_exists unfolding keeps_def by blast

lemma quietly_state: "snd (quietly m s) = snd (m s)"
  by (simp add: quietly_def andthen_def returns_def split: prod.splits sum.splits)

lemma transactional_Inr: "m s = (Inr x, s') \<Longrightarrow> transactional m s = (Inr x, s')"
  by (simp add: transactional_def)

text \<open>Plugins.\<close>

definition plugin_fits :: "plugin_dto \<Rightarrow> tables \<Rightarrow> bool" where
  "plugin_fits d t \<longleftrightarrow> pdt_config d \<noteq> None \<or> (\<forall>p\<in>set (tb_plugins t). Some (pdo_id p) = pdt_id d \<longrightarrow> pdo_config p = None)"

lemma keeps_plugin_update:
  assumes p: "p \<in> set (tb_plugins (ad_tables s))" "pdo_id p = pdo_id new" "pdo_name p = pdo_name new"
    and f: "f p = new" "\<And>r. pdo_id r = pdo_id new \<Longrightarrow> pdo_id (f r) = pdo_id new"
    and s': "ad_tables s' = (ad_tables s)\<lparr>tb_plugins := update_with pdo_id (pdo_id new) f (tb_plugins (ad_tables s))\<rparr>"
      "ad_published s' = ad_published s @ [PluginChanged EV_UPDATE [plugin_mapToData new]]"
  shows "keeps s s'"
proof (rule keepsI [OF s'(2)])
  fix c assume ok: "tables_ok (ad_tables s)" and fo: "follows (ad_tables s) c"
  let ?ps = "tb_plugins (ad_tables s)" and ?ps' = "update_with pdo_id (pdo_id new) f (tb_plugins (ad_tables s))"
  have d: "distinct (map pdo_id ?ps)" "distinct (map pdo_name ?ps)" using ok by (simp_all add: tables_ok_def)
  have only: "r = p" if "r \<in> set ?ps" "pdo_id r = pdo_id new" for r
    using that p by (intro distinct_key [OF d(1)]) simp_all
  have set: "set ?ps' = insert new {r \<in> set ?ps. pdo_id r \<noteq> pdo_id new}"
  proof (rule set_update_with)
    show "pdo_id new \<in> pdo_id ` set ?ps" using p(1) unfolding p(2) [symmetric] by (rule imageI)
    show "f r = new" if "r \<in> set ?ps" "pdo_id r = pdo_id new" for r using only [OF that] f(1) by simp
  qed
  have "pdo_name (f r) = pdo_name r" if "r \<in> set ?ps" "pdo_id r = pdo_id new" for r
    unfolding only [OF that] f(1) p(3) ..
  then have "map pdo_name ?ps' = map pdo_name ?ps" by (simp add: update_with_def)
  then have "distinct (map pdo_id ?ps')" "distinct (map pdo_name ?ps')"
    using d map_update_with [of pdo_id "pdo_id new" f ?ps] f(2) by simp_all
  moreover have "pdo_id r = pdo_id new \<longleftrightarrow> pdo_name r = pdo_name new" if "r \<in> set ?ps" for r
    using that p distinct_key [OF d(1), of r p] distinct_key [OF d(2), of r p] by auto
  ultimately have "tables_ok (ad_tables s') \<and> follows (ad_tables s') (cachePluginData (plugin_mapToData new) c)"
    using follows_plugin_saved [OF ok fo s'(1) set] by blast
  then show "tables_ok (ad_tables s') \<and> list_all no_nulls [PluginChanged EV_UPDATE [plugin_mapToData new]]
      \<and> follows (ad_tables s') (fold cache_effect [PluginChanged EV_UPDATE [plugin_mapToData new]] c)"
    by (simp add: rows_effect_def)
qed

lemma keeps_plugin_insert:
  assumes new: "pdo_id new \<notin> pdo_id ` set (tb_plugins (ad_tables s))" "plugin_selectByName (pdo_name new) (ad_tables s) = None"
    and s': "ad_tables s' = (ad_tables s)\<lparr>tb_plugins := tb_plugins (ad_tables s) @ [new]\<rparr>"
      "ad_published s' = ad_published s @ [PluginChanged EV_CREATE [plugin_mapToData new]]"
  shows "keeps s s'"
proof (rule keepsI [OF s'(2)])
  fix c assume ok: "tables_ok (ad_tables s)" and fo: "follows (ad_tables s) c"
  let ?ps = "tb_plugins (ad_tables s)"
  have n: "pdo_name new \<notin> pdo_name ` set ?ps" using new(2) by (simp add: plugin_selectByName_def row_with_None)
  have other: "pdo_id r \<noteq> pdo_id new" "pdo_name r \<noteq> pdo_name new" if "r \<in> set ?ps" for r
    using new(1) n imageI [OF that, of pdo_id] imageI [OF that, of pdo_name] by auto
  then have "set (?ps @ [new]) = insert new {r \<in> set ?ps. pdo_id r \<noteq> pdo_id new}" by auto
  moreover have "distinct (map pdo_id (?ps @ [new]))" "distinct (map pdo_name (?ps @ [new]))"
    using ok new(1) n by (simp_all add: tables_ok_def)
  moreover have "pdo_id r = pdo_id new \<longleftrightarrow> pdo_name r = pdo_name new" if "r \<in> set ?ps" for r
    using other [OF that] by simp
  ultimately have "tables_ok (ad_tables s') \<and> follows (ad_tables s') (cachePluginData (plugin_mapToData new) c)"
    using follows_plugin_saved [OF ok fo s'(1)] by blast
  then show "tables_ok (ad_tables s') \<and> list_all no_nulls [PluginChanged EV_CREATE [plugin_mapToData new]]
      \<and> follows (ad_tables s') (fold cache_effect [PluginChanged EV_CREATE [plugin_mapToData new]] c)"
    by (simp add: rows_effect_def)
qed

lemma keeps_save_plugin:
  assumes fits: "plugin_fits d (ad_tables s)"
  shows "keeps s (snd (plugin_createOrUpdate uuid d s))"
proof (cases "is_blank (Some (plugin_checkData d (ad_tables s)))")
  case False
  then have "plugin_createOrUpdate uuid d s = (Inr (plugin_checkData d (ad_tables s)), s)"
    by (simp add: plugin_createOrUpdate_def transactional_def svc_run)
  then show ?thesis by (simp add: keeps_refl)
next
  case blank: True
  define i where "i = (if is_empty_ref (pdt_id d) then uuid (ad_next s) else the (pdt_id d))"
  define s1 where "s1 = (if is_empty_ref (pdt_id d) then s\<lparr>ad_next := ad_next s + 1\<rparr> else s)"
  define new where "new = \<lparr>pdo_id = i, pdo_name = pdt_name d, pdo_config = pdt_config d, pdo_enabled = pdt_enabled d, pdo_role = pdt_role d\<rparr>"
  have s1: "ad_tables s1 = ad_tables s" "ad_published s1 = ad_published s" by (simp_all add: s1_def)
  have nb: "\<not> is_blank (Some PLUGIN_NAME_IS_EXIST)" "\<not> is_blank (Some PLUGIN_NAME_NOT_EXIST)" 
    by (simp_all add: PLUGIN_NAME_IS_EXIST_def PLUGIN_NAME_NOT_EXIST_def utf8_def is_whitespace_def)
  note run = plugin_createOrUpdate_def buildPluginDO_def transactional_def
  show ?thesis
  proof (cases "is_blank (pdt_id d)")
    case True
    then have none: "plugin_selectByName (pdo_name new) (ad_tables s) = None"
      using blank nb by (auto simp: plugin_checkData_def new_def split: if_splits)
    have "plugin_createOrUpdate uuid d s = transactional (\<lambda>_. andthen (execute (plugin_insertSelective new))
        (\<lambda>_. andthen (publishEvent (PluginChanged EV_CREATE [plugin_mapToData new])) (\<lambda>_. returns '''')) s1) s"
      using blank True by (simp add: run svc_run andthen_row_id new_def i_def s1_def)
    then have run: "plugin_createOrUpdate uuid d s = (if pdo_id new \<in> pdo_id ` set (tb_plugins (ad_tables s))
        then (Inl duplicate, s1)
        else (Inr '''', s1\<lparr>ad_tables := (ad_tables s)\<lparr>tb_plugins := tb_plugins (ad_tables s) @ [new]\<rparr>,
          ad_published := ad_published s @ [PluginChanged EV_CREATE [plugin_mapToData new]]\<rparr>))"
      using s1 by (simp add: transactional_def svc_run plugin_insertSelective_def insert_row_def)
    show ?thesis
    proof (cases "pdo_id new \<in> pdo_id ` set (tb_plugins (ad_tables s))")
      case True
      then show ?thesis unfolding run using s1 by (simp add: keeps_same)
    next
      case False
      show ?thesis by (rule keeps_plugin_insert [OF False none]) (simp_all add: run False)
    qed
  next
    case False
    then have ne: "\<not> is_empty_ref (pdt_id d)" by (cases "pdt_id d") (auto simp: is_empty_ref_def is_blank_def)
    obtain p where p: "plugin_selectByName (pdt_name d) (ad_tables s) = Some p" "Some (pdo_id p) = pdt_id d"
      using blank False nb by (auto simp: plugin_checkData_def split: option.splits if_splits)
    then have p': "p \<in> set (tb_plugins (ad_tables s))" "pdo_id p = pdo_id new" "pdo_name p = pdo_name new"
      using row_with_Some [of pdo_name "pdt_name d" "tb_plugins (ad_tables s)" p] ne
      by (auto simp: plugin_selectByName_def new_def i_def) (metis option.sel)
    let ?f = "\<lambda>old. new\<lparr>pdo_config := (case pdo_config new of None \<Rightarrow> pdo_config old | c \<Rightarrow> c)\<rparr>"
    have f: "?f p = new"
      using fits p' p(2) by (auto simp: plugin_fits_def new_def split: option.splits)
    have "plugin_createOrUpdate uuid d s = (Inr '''', s\<lparr>ad_tables := (ad_tables s)\<lparr>tb_plugins := update_with pdo_id (pdo_id new) ?f
        (tb_plugins (ad_tables s))\<rparr>, ad_published := ad_published s @ [PluginChanged EV_UPDATE [plugin_mapToData new]]\<rparr>)"
      using blank False ne by (simp add: run svc_run andthen_row_id new_def i_def s1_def plugin_updateSelective_def)
    then show ?thesis using p' f by (intro keeps_plugin_update [where f = ?f and p = p]) simp_all
  qed
qed

lemma keeps_enable_plugins: "keeps s (snd (plugin_enabled ids b s))"
proof (induction ids arbitrary: s)
  case Nil
  show ?case by (simp add: svc_run keeps_refl)
next
  case (Cons i ids)
  show ?case
  proof (cases "plugin_selectById i (ad_tables s)")
    case None
    then show ?thesis by (simp add: svc_run keeps_refl)
  next
    case (Some p)
    then have p: "p \<in> set (tb_plugins (ad_tables s))" "pdo_id p = i"
      using row_with_Some [of pdo_id i "tb_plugins (ad_tables s)" p] by (simp_all add: plugin_selectById_def)
    define s1 where "s1 = s\<lparr>ad_tables := (ad_tables s)\<lparr>tb_plugins := update_with pdo_id (pdo_id (p\<lparr>pdo_enabled := b\<rparr>))
        (\<lambda>old. old\<lparr>pdo_enabled := pdo_enabled (p\<lparr>pdo_enabled := b\<rparr>)\<rparr>) (tb_plugins (ad_tables s))\<rparr>,
      ad_published := ad_published s @ [PluginChanged EV_UPDATE [plugin_mapToData (p\<lparr>pdo_enabled := b\<rparr>)]]\<rparr>"
    have "keeps s s1"
      by (rule keeps_plugin_update [where p = p and new = "p\<lparr>pdo_enabled := b\<rparr>" and f = "\<lambda>old. old\<lparr>pdo_enabled := b\<rparr>"])
        (simp_all add: p s1_def)
    moreover have "plugin_enabled (i # ids) b s = plugin_enabled ids b s1"
      by (simp add: svc_run Some s1_def plugin_updateEnable_def Let_def)
    ultimately show ?thesis using Cons.IH keeps_trans by metis
  qed
qed

lemma keeps_delete_plugins_loop:
  assumes "\<forall>r\<in>set (tb_selectors (ad_tables s)). sdo_pluginId r \<notin> set ids"
  shows "\<exists>msg s'. plugin_delete_loop ids s = (Inr msg, s') \<and> keeps s s'"
  using assms
proof (induction ids arbitrary: s)
  case Nil
  show ?case by (simp add: svc_run keeps_refl)
next
  case (Cons i ids)
  show ?case
  proof (cases "plugin_selectById i (ad_tables s)")
    case None
    then show ?thesis by (simp add: svc_run keeps_refl)
  next
    case (Some p)
    show ?thesis
    proof (cases "pdo_role p = plugin_role_code PR_SYS")
      case True
      then show ?thesis using Some by (simp add: svc_run keeps_refl)
    next
      case False
      have p: "p \<in> set (tb_plugins (ad_tables s))" "pdo_id p = i"
        using Some row_with_Some [of pdo_id i "tb_plugins (ad_tables s)" p] by (simp_all add: plugin_selectById_def)
      have free: "\<And>r. r \<in> set (tb_selectors (ad_tables s)) \<Longrightarrow> sdo_pluginId r \<noteq> i" using Cons.prems by auto
      define t1 where "t1 = (ad_tables s)\<lparr>tb_plugins := delete_with pdo_id i (tb_plugins (ad_tables s))\<rparr>"
      define s1 where "s1 = s\<lparr>ad_tables := t1, ad_published := ad_published s @ [PluginChanged EV_DELETE [plugin_mapToData p]]\<rparr>"
      have "rows_with sdo_pluginId i (tb_selectors t1) = []" using free by (simp add: rows_with_none t1_def)
      then have run: "plugin_delete_loop (i # ids) s = plugin_delete_loop ids s1"
        using Some False by (simp add: svc_run plugin_deleteRow_def t1_def [symmetric] s1_def)
      have "keeps s s1"
      proof (rule keepsI)
        show "ad_published s1 = ad_published s @ [PluginChanged EV_DELETE [plugin_mapToData p]]" by (simp add: s1_def)
        fix c assume "tables_ok (ad_tables s)" "follows (ad_tables s) c"
        from follows_plugin_deleted [OF this p free]
        show "tables_ok (ad_tables s1) \<and> list_all no_nulls [PluginChanged EV_DELETE [plugin_mapToData p]]
            \<and> follows (ad_tables s1) (fold cache_effect [PluginChanged EV_DELETE [plugin_mapToData p]] c)"
          by (simp add: s1_def t1_def rows_effect_def)
      qed
      moreover obtain msg s' where "plugin_delete_loop ids s1 = (Inr msg, s')" "keeps s1 s'"
        using Cons.IH [of s1] Cons.prems by (auto simp: s1_def t1_def)
      ultimately show ?thesis unfolding run by (blast intro: keeps_trans)
    qed
  qed
qed

text \<open>Selectors and rules, saved and deleted.\<close>

lemma keeps_save_selector:
  assumes fits: "selector_fits d (ad_tables s)"
  shows "keeps s (snd (selector_createOrUpdate uuid d s))"
proof -
  obtain r s' where run: "selector_createOrUpdate uuid d s = (r, s')" by (cases "selector_createOrUpdate uuid d s")
  from selector_save [OF run] have "keeps s s'"
  proof
    assume "\<exists>i ev. ad_published s' = ad_published s @ [ev] \<and> selector_saved d i (ad_tables s) (ad_tables s') ev"
    then obtain i ev where g: "ad_published s' = ad_published s @ [ev]" "selector_saved d i (ad_tables s) (ad_tables s') ev" by blast
    show ?thesis
    proof (rule keepsI [OF g(1)])
      fix c assume "tables_ok (ad_tables s)" "follows (ad_tables s) c"
      then obtain data where "tables_ok (ad_tables s')" "ev = SelectorChanged EV_UPDATE [Some data]"
        "follows (ad_tables s') (cacheSelectData data c)" using follows_selector [OF _ _ g(2) fits] by blast
      then show "tables_ok (ad_tables s') \<and> list_all no_nulls [ev] \<and> follows (ad_tables s') (fold cache_effect [ev] c)"
        by (simp add: rows_effect_def)
    qed
  qed (simp add: keeps_same)
  then show ?thesis by (simp add: run)
qed

lemma keeps_save_rule:
  assumes fits: "rule_fits d (ad_tables s)"
  shows "keeps s (snd (rule_createOrUpdate uuid d s))"
proof -
  obtain r s' where run: "rule_createOrUpdate uuid d s = (r, s')" by (cases "rule_createOrUpdate uuid d s")
  from rule_save [OF run] have "keeps s s'"
  proof
    assume "\<exists>i ev. ad_published s' = ad_published s @ [ev] \<and> rule_saved d i (ad_tables s) (ad_tables s') ev"
    then obtain i ev where g: "ad_published s' = ad_published s @ [ev]" "rule_saved d i (ad_tables s) (ad_tables s') ev" by blast
    show ?thesis
    proof (rule keepsI [OF g(1)])
      fix c assume "tables_ok (ad_tables s)" "follows (ad_tables s) c"
      then obtain data where "tables_ok (ad_tables s')" "ev = RuleChanged EV_UPDATE [Some data]"
        "follows (ad_tables s') (cacheRuleData data c)" using follows_rule [OF _ _ g(2) fits] by blast
      then show "tables_ok (ad_tables s') \<and> list_all no_nulls [ev] \<and> follows (ad_tables s') (fold cache_effect [ev] c)"
        by (simp add: rows_effect_def)
    qed
  qed (simp add: keeps_same)
  then show ?thesis by (simp add: run)
qed

text \<open>A loop that deletes rows one by one, each there and once in the list.\<close>

lemma keeps_delete_loop:
  assumes one: "\<And>i s. tables_ok (ad_tables s) \<Longrightarrow> i \<in> rows s \<Longrightarrow> \<exists>s'. f i s = (Inr (), s') \<and> keeps s s' \<and> rows s' = rows s - {i}"
    and "tables_ok (ad_tables s)" and "distinct ids" and "set ids \<subseteq> rows s"
  shows "\<exists>s'. for_all f ids s = (Inr (), s') \<and> keeps s s'"
  using assms(2-)
proof (induction ids arbitrary: s)
  case Nil
  show ?case by (simp add: svc_run keeps_refl)
next
  case (Cons i ids)
  then obtain s1 where s1: "f i s = (Inr (), s1)" "keeps s s1" "rows s1 = rows s - {i}" using one [of s i] by auto
  moreover obtain s' where "for_all f ids s1 = (Inr (), s')" "keeps s1 s'"
    using Cons.IH [of s1] Cons.prems s1(3) keeps_tables_ok [OF s1(2)] by auto
  ultimately show ?case by (auto simp: andthen_def intro: keeps_trans)
qed

lemma selector_there:
  assumes ok: "tables_ok t" and i: "i \<in> sdo_id ` set (tb_selectors t)"
  shows "\<exists>sel p. sel \<in> set (tb_selectors t) \<and> sdo_id sel = i \<and> selector_selectById i t = Some sel \<and> plugin_selectById (sdo_pluginId sel) t = Some p"
proof -
  obtain sel where sel: "selector_selectById i t = Some sel" "sel \<in> set (tb_selectors t)" "sdo_id sel = i"
    using row_with_exists [OF i] by (auto simp: selector_selectById_def)
  moreover obtain p where "plugin_selectById (sdo_pluginId sel) t = Some p"
    using row_with_exists [of "sdo_pluginId sel" pdo_id "tb_plugins t"] ok sel(2) by (auto simp: tables_ok_def plugin_selectById_def)
  ultimately show ?thesis by blast
qed

lemma fold_deleted_rules:
  "fold cache_effect (map (\<lambda>r. RuleChanged EV_DELETE [Some (rule_transFrom r n None)]) rs) c
     = fold (\<lambda>r. removeRuleData (rule_transFrom r n None)) rs c"
  by (induction rs arbitrary: c) (simp_all add: rows_effect_def)

lemma keeps_delete_selectors:
  assumes ok: "tables_ok (ad_tables s)" and ids: "distinct ids" "set ids \<subseteq> sdo_id ` set (tb_selectors (ad_tables s))"
  shows "keeps s (snd (selector_delete ids s))"
proof -
  have "\<exists>s'. for_all selector_delete_one ids s = (Inr (), s') \<and> keeps s s'"
  proof (rule keeps_delete_loop [where rows = "\<lambda>s. sdo_id ` set (tb_selectors (ad_tables s))", OF _ ok ids])
    fix i and s :: "'a admin" assume ok: "tables_ok (ad_tables s)" and i: "i \<in> sdo_id ` set (tb_selectors (ad_tables s))"
    obtain sel p where sel: "sel \<in> set (tb_selectors (ad_tables s))" "sdo_id sel = i" "selector_selectById i (ad_tables s) = Some sel"
      "plugin_selectById (sdo_pluginId sel) (ad_tables s) = Some p" using selector_there [OF ok i] by blast
    obtain s' where s': "selector_delete_one i s = (Inr (), s')" "ad_tables s' = without_selector i (ad_tables s)"
      "ad_published s' = ad_published s @ selector_deleted sel (pdo_name p) (ad_tables s)"
      using selector_delete_run [OF sel(3,4)] by blast
    have "keeps s s'"
    proof (rule keepsI [OF s'(3)])
      fix c assume "follows (ad_tables s) c"
      from follows_without_selector [OF ok this sel(1,2,4) refl]
      show "tables_ok (ad_tables s') \<and> list_all no_nulls (selector_deleted sel (pdo_name p) (ad_tables s))
          \<and> follows (ad_tables s') (fold cache_effect (selector_deleted sel (pdo_name p) (ad_tables s)) c)"
        unfolding s'(2) by (simp add: selector_deleted_def fold_deleted_rules rows_effect_def list_all_iff sel(2))
    qed
    moreover have "sdo_id ` set (tb_selectors (ad_tables s')) = sdo_id ` set (tb_selectors (ad_tables s)) - {i}"
      unfolding s'(2) by (auto simp: without_selector_def delete_with_def Let_def)
    ultimately show "\<exists>s'. selector_delete_one i s = (Inr (), s') \<and> keeps s s'
        \<and> sdo_id ` set (tb_selectors (ad_tables s')) = sdo_id ` set (tb_selectors (ad_tables s)) - {i}" using s'(1) by blast
  qed
  then show ?thesis by (auto simp: selector_delete_def transactional_def andthen_def returns_def)
qed

lemma keeps_delete_rules:
  assumes ok: "tables_ok (ad_tables s)" and ids: "distinct ids" "set ids \<subseteq> rdo_id ` set (tb_rules (ad_tables s))"
  shows "keeps s (snd (rule_delete ids s))"
proof -
  have "\<exists>s'. for_all rule_delete_one ids s = (Inr (), s') \<and> keeps s s'"
  proof (rule keeps_delete_loop [where rows = "\<lambda>s. rdo_id ` set (tb_rules (ad_tables s))", OF _ ok ids])
    fix i and s :: "'a admin" assume ok: "tables_ok (ad_tables s)" and i: "i \<in> rdo_id ` set (tb_rules (ad_tables s))"
    obtain rule where rule: "rule_selectById i (ad_tables s) = Some rule" "rule \<in> set (tb_rules (ad_tables s))" "rdo_id rule = i"
      using row_with_exists [OF i] by (auto simp: rule_selectById_def)
    obtain sel p where sel: "selector_selectById (rdo_selectorId rule) (ad_tables s) = Some sel"
      "plugin_selectById (sdo_pluginId sel) (ad_tables s) = Some p"
      using selector_there [OF ok, of "rdo_selectorId rule"] ok rule(2) by (auto simp: tables_ok_def)
    obtain s' where s': "rule_delete_one i s = (Inr (), s')" "ad_tables s' = without_rule i (ad_tables s)"
      "ad_published s' = ad_published s @ [RuleChanged EV_DELETE [Some (rule_transFrom rule (pdo_name p) None)]]"
      using rule_delete_run [OF rule(1) sel] unfolding without_rule_def by blast
    have "keeps s s'"
    proof (rule keepsI [OF s'(3)])
      fix c assume "follows (ad_tables s) c"
      from follows_without_rule [OF ok this rule(2,3)]
      show "tables_ok (ad_tables s') \<and> list_all no_nulls [RuleChanged EV_DELETE [Some (rule_transFrom rule (pdo_name p) None)]]
          \<and> follows (ad_tables s') (fold cache_effect [RuleChanged EV_DELETE [Some (rule_transFrom rule (pdo_name p) None)]] c)"
        unfolding s'(2) by (simp add: rows_effect_def)
    qed
    moreover have "rdo_id ` set (tb_rules (ad_tables s')) = rdo_id ` set (tb_rules (ad_tables s)) - {i}"
      unfolding s'(2) by (auto simp: without_rule_def delete_with_def)
    ultimately show "\<exists>s'. rule_delete_one i s = (Inr (), s') \<and> keeps s s'
        \<and> rdo_id ` set (tb_rules (ad_tables s')) = rdo_id ` set (tb_rules (ad_tables s)) - {i}" using s'(1) by blast
  qed
  then show ?thesis by (auto simp: rule_delete_def transactional_def andthen_def returns_def)
qed

text \<open>Synchronisation of everything.\<close>

lemma syncAll_run:
  "\<exists>s' pre post. syncAll ty s = (Inr True, s') \<and> ad_tables s' = ad_tables s
     \<and> ad_published s' = ad_published s @ pre @ snapshot_events ty (ad_tables s) @ post
     \<and> list_all no_nulls (pre @ post) \<and> (\<forall>c. fold cache_effect pre c = c \<and> fold cache_effect post c = c)
     \<and> (\<forall>ev\<in>set (pre @ post). event_type ev = EV_REFRESH)"
proof -
  define pre where "pre = (if tb_auths (ad_tables s) = [] then []
    else [AuthChanged EV_REFRESH (map (buildByEntity (ad_tables s)) (tb_auths (ad_tables s)))])"
  define post where "post = (if tb_metas (ad_tables s) = [] then []
    else [MetaChanged EV_REFRESH (map (Some \<circ> meta_of_do) (tb_metas (ad_tables s)))])"
  have "syncAll ty s = (Inr True, s\<lparr>ad_published := ad_published s @ pre @ snapshot_events ty (ad_tables s) @ post\<rparr>)"
    by (cases "tb_auths (ad_tables s) = []"; cases "tb_metas (ad_tables s) = []")
      (simp_all add: syncAll_def auth_syncData_def meta_syncData_def svc_run pre_def post_def snapshot_events_def)
  then show ?thesis
    by (intro exI [of _ "s\<lparr>ad_published := ad_published s @ pre @ snapshot_events ty (ad_tables s) @ post\<rparr>"]
        exI [of _ pre] exI [of _ post]) (simp add: pre_def post_def)
qed

lemma keeps_syncAll:
  assumes ty: "ty \<in> {EV_REFRESH, EV_MYSELF}"
  shows "keeps s (snd (syncAll ty s))"
proof -
  obtain s' pre post where g: "syncAll ty s = (Inr True, s')" "ad_tables s' = ad_tables s"
     "ad_published s' = ad_published s @ pre @ snapshot_events ty (ad_tables s) @ post"
     "list_all no_nulls (pre @ post)" "\<forall>c. fold cache_effect pre c = c \<and> fold cache_effect post c = c"
    using syncAll_run [of ty s] by blast
  have "keeps s s'"
    by (rule keepsI [OF g(3)]) (use g(2,4,5) ty follows_snapshot snapshot_no_nulls in auto)
  then show ?thesis by (simp add: g(1))
qed

text \<open>Synchronisation of one plugin: its selectors and their rules are sent again.\<close>

lemma svc_map_queries:
  "None \<notin> set ss \<Longrightarrow> svc_map (\<lambda>sel. andthen (derefs sel) (\<lambda>sel. query (g sel))) ss s
     = (Inr (map (\<lambda>sel. g (the sel) (ad_tables s)) ss), s)"
proof (induction ss)
  case (Cons x ss)
  then obtain y where "x = Some y" by (cases x) auto
  then show ?case using Cons by (simp add: svc_run andthen_def [of "svc_map f xs" for f xs])
qed (simp add: svc_run)

lemma distinct_owned:
  "distinct (map key rs) \<Longrightarrow> distinct ks \<Longrightarrow> distinct (map key (concat (map (\<lambda>k. rows_with own k rs) ks)))"
proof (induction ks)
  case (Cons k ks)
  have "key x \<noteq> key y" if "x \<in> set (rows_with own k rs)" "j \<in> set ks" "y \<in> set (rows_with own j rs)" for x y j
    using that Cons.prems distinct_key [OF Cons.prems(1), of x y] by (auto simp: rows_with_def)
  then show ?case using Cons by (auto simp: distinct_map_filter rows_with_def)
qed simp

lemma follows_resent_plugin:
  assumes "tables_ok t" and "follows t c" and "p \<in> set (tb_plugins t)"
  shows "follows t (cachePluginData (plugin_mapToData p) c)"
proof -
  have "plugin_selectByName (pdo_name p) t = Some p"
    using assms by (simp add: plugin_selectByName_def row_with_iff tables_ok_def)
  then show ?thesis using assms(2) by (simp add: follows_def follows_frames plc.get_put plugin_mapToData_def)
qed

lemma keeps_syncPlugin: "keeps s (snd (syncPluginData i s))"
proof (cases "tables_ok (ad_tables s)")
  case False
  then show ?thesis by (simp add: keeps_def)
next
  case ok: True
  let ?t = "ad_tables s"
  show ?thesis
  proof (cases "plugin_selectById i ?t")
    case None
    then show ?thesis by (simp add: syncPluginData_def svc_run keeps_refl)
  next
    case (Some p)
    then have p: "p \<in> set (tb_plugins ?t)" using row_with_Some [of pdo_id i "tb_plugins ?t" p] by (simp add: plugin_selectById_def)
    define sels where "sels = rows_with sdo_pluginId i (tb_selectors ?t)"
    have sels: "set sels \<subseteq> set (tb_selectors ?t)" "distinct (map sdo_id sels)"
      using ok by (auto simp: sels_def rows_with_def tables_ok_def distinct_map_filter)
    define rules where "rules = concat (map (\<lambda>k. rows_with rdo_selectorId k (tb_rules ?t)) (map sdo_id sels))"
    have rules: "set rules \<subseteq> set (tb_rules ?t)" "distinct (map rdo_id rules)"
    proof -
      show "set rules \<subseteq> set (tb_rules ?t)" by (auto simp: rules_def rows_with_def)
      show "distinct (map rdo_id rules)"
        unfolding rules_def using ok sels(2) by (intro distinct_owned) (simp_all add: tables_ok_def)
    qed
    note b = selectors_built [OF ok sels(1)] rules_built [OF ok rules(1)]
    have rss: "concat (map (\<lambda>sel. rule_findBySelectorId (sd_id (the sel)) ?t) (map (buildSelectorData ?t) sels)) = map (buildRuleData ?t) rules"
    proof -
      have "map (\<lambda>sel. rule_findBySelectorId (sd_id (the sel)) ?t) (map (buildSelectorData ?t) sels)
          = map (\<lambda>k. rule_findBySelectorId k ?t) (map sd_id (map the (map (buildSelectorData ?t) sels)))" by simp
      also have "... = map (\<lambda>k. rule_findBySelectorId k ?t) (map sdo_id sels)" unfolding b(2) ..
      finally show ?thesis by (simp only:) (simp add: rules_def rule_findBySelectorId_def map_concat o_def)
    qed
    define evs where "evs = PluginChanged EV_UPDATE [plugin_mapToData p] # (if sels = [] then []
      else [SelectorChanged EV_REFRESH (map (buildSelectorData ?t) sels), RuleChanged EV_REFRESH (map (buildRuleData ?t) rules)])"
    define s' where "s' = s\<lparr>ad_published := ad_published s @ evs\<rparr>"
    have "syncPluginData i s = (Inr True, s')"
      using rss Some
      by (cases "sels = []")
        (simp_all add: syncPluginData_def svc_run selector_findByPluginId_def sels_def [symmetric] s'_def evs_def
          andthen_def [of "svc_map f xs" for f xs] svc_map_queries [OF b(1)] del: map_map)
    moreover have "keeps s s'"
    proof (rule keepsI)
      show "ad_published s' = ad_published s @ evs" by (simp add: s'_def)
      fix c assume fo: "follows ?t c"
      define c1 where "c1 = cachePluginData (plugin_mapToData p) c"
      have c1: "follows ?t c1" unfolding c1_def by (rule follows_resent_plugin [OF ok fo p])
      define c2 where "c2 = cache_effect (SelectorChanged EV_REFRESH (map (buildSelectorData ?t) sels)) c1"
      have "slc.holds_rows c2 (selector_view ?t \<union> {x. \<exists>r\<in>set sels. buildSelectorData ?t r = Some x})"
        unfolding c2_def using c1 by (intro selectors_resent [OF ok sels]) (simp_all add: follows_def)
      moreover have "{x. \<exists>r\<in>set sels. buildSelectorData ?t r = Some x} \<subseteq> selector_view ?t" using sels(1) by (auto simp: views)
      ultimately have "slc.holds_rows c2 (selector_view ?t)" by (simp add: sup_absorb1)
      then have c2: "follows ?t c2" using c1 unfolding follows_def c2_def effect_frames by simp
      define c3 where "c3 = cache_effect (RuleChanged EV_REFRESH (map (buildRuleData ?t) rules)) c2"
      have "rlc.holds_rows c3 (rule_view ?t \<union> {x. \<exists>r\<in>set rules. buildRuleData ?t r = Some x})"
        unfolding c3_def using c2 by (intro rules_resent [OF ok rules]) (simp_all add: follows_def)
      moreover have "{x. \<exists>r\<in>set rules. buildRuleData ?t r = Some x} \<subseteq> rule_view ?t" using rules(1) by (auto simp: views)
      ultimately have "rlc.holds_rows c3 (rule_view ?t)" by (simp add: sup_absorb1)
      then have c3: "follows ?t c3" using c2 unfolding follows_def c3_def effect_frames by simp
      have "fold cache_effect evs c = (if sels = [] then c1 else c3)"
        by (simp add: evs_def c1_def c2_def c3_def rows_effect_def)
      moreover have "list_all no_nulls evs" using b(1,4) by (simp add: evs_def)
      ultimately show "tables_ok (ad_tables s') \<and> list_all no_nulls evs \<and> follows (ad_tables s') (fold cache_effect evs c)"
        using ok c1 c3 by (simp add: s'_def)
    qed
    ultimately show ?thesis by simp
  qed
qed

subsection \<open>The link stays in step\<close>

text \<open>
  Orderly requests: what is updated exists, keeps its owner and, when it has a handle or configuration,
  gives one; what is deleted exists and is named once; a plugin that is deleted owns no selector.
\<close>

fun orderly :: "admin_request \<Rightarrow> tables \<Rightarrow> bool" where
  "orderly (SavePlugin d) t = plugin_fits d t"
| "orderly (DeletePlugins ids) t = (\<forall>r\<in>set (tb_selectors t). sdo_pluginId r \<notin> set ids)"
| "orderly (EnablePlugins ids b) t = True"
| "orderly (SaveSelector d) t = selector_fits d t"
| "orderly (DeleteSelectors ids) t = (distinct ids \<and> set ids \<subseteq> sdo_id ` set (tb_selectors t))"
| "orderly (SaveRule d) t = rule_fits d t"
| "orderly (DeleteRules ids) t = (distinct ids \<and> set ids \<subseteq> rdo_id ` set (tb_rules t))"
| "orderly SyncAll t = True"
| "orderly (SyncPlugin i) t = True"

lemma keeps_request:
  assumes ok: "tables_ok (ad_tables s)" and "orderly r (ad_tables s)"
  shows "keeps s (snd (request_svc uuid r s))"
proof (cases r)
  case (DeletePlugins ids)
  then obtain msg s' where "plugin_delete_loop ids s = (Inr msg, s')" "keeps s s'"
    using keeps_delete_plugins_loop assms(2) by (metis orderly.simps(2))
  then show ?thesis by (simp add: DeletePlugins quietly_state plugin_delete_def transactional_Inr)
next
  case SyncAll
  then show ?thesis using keeps_syncAll [of EV_REFRESH s] by (simp add: quietly_state)
next
  case (DeleteSelectors ids)
  then show ?thesis using keeps_delete_selectors [OF ok] assms(2) by (simp add: quietly_state)
next
  case (DeleteRules ids)
  then show ?thesis using keeps_delete_rules [OF ok] assms(2) by (simp add: quietly_state)
qed (use assms(2) in \<open>simp_all add: quietly_state keeps_save_plugin keeps_enable_plugins keeps_save_selector keeps_save_rule keeps_syncPlugin\<close>)

definition in_step :: "('u, 'h) link \<Rightarrow> bool" where
  "in_step st \<longleftrightarrow> linked st \<and> tables_ok (ad_tables (lk_admin st))
     \<and> follows (ad_tables (lk_admin st)) (ss_cache (gw_sub (lk_gateway st)))"

lemma serve_in_step:
  assumes "quiet hm" and "in_step st" and "keeps (lk_admin st) (snd (m (lk_admin st)))"
  shows "in_step (serve hm m st)"
proof -
  define adm' where "adm' = snd (m (lk_admin st))"
  obtain evs where e: "tables_ok (ad_tables adm')" "ad_published adm' = ad_published (lk_admin st) @ evs" "list_all no_nulls evs"
    "follows (ad_tables adm') (fold cache_effect evs (ss_cache (gw_sub (lk_gateway st))))"
    using assms(2,3) unfolding keeps_def in_step_def adm'_def by blast
  have "linked (st\<lparr>lk_admin := adm'\<rparr>)" using assms(2) by (simp add: in_step_def linked_def)
  from deliver_linked [OF assms(1) e(3) this] show ?thesis
    using e by (simp add: serve_def Let_def adm'_def [symmetric] in_step_def)
qed

text \<open>The first connection: the caches are empty.\<close>

lemma open_in_step:
  assumes "quiet hm" and ok: "tables_ok (ad_tables (lk_admin st))" and empty: "ss_cache (gw_sub (lk_gateway st)) = empty_base_data_cache"
    and fresh: "\<not> lk_alreadySync st"
  shows "in_step (ws_open hm st)"
proof -
  define st1 where "st1 = st\<lparr>lk_SESSION_SET := lk_SESSION_SET st @ [lk_fresh st], lk_fresh := lk_fresh st + 1,
    lk_client := Some (lk_fresh st), lk_alreadySync := True, lk_session := Some (lk_fresh st)\<rparr>"
  obtain s' pre post where g: "syncAll EV_MYSELF (lk_admin st) = (Inr True, s')" "ad_tables s' = ad_tables (lk_admin st)"
     "ad_published s' = ad_published (lk_admin st) @ pre @ snapshot_events EV_MYSELF (ad_tables (lk_admin st)) @ post"
     "list_all no_nulls (pre @ post)" "\<forall>c. fold cache_effect pre c = c \<and> fold cache_effect post c = c"
    using syncAll_run [of EV_MYSELF "lk_admin st"] by blast
  define evs where "evs = pre @ snapshot_events EV_MYSELF (ad_tables (lk_admin st)) @ post"
  have run: "ws_open hm st = fold (deliver hm) evs (st1\<lparr>lk_admin := s'\<rparr>)"
    using fresh g(1,3) by (simp add: ws_open_def Let_def serve_def quietly_state st1_def evs_def)
  have "list_all no_nulls evs" using g(4) snapshot_no_nulls [OF ok] by (simp add: evs_def)
  moreover have "linked (st1\<lparr>lk_admin := s'\<rparr>)" by (simp add: linked_def st1_def)
  moreover have "follows (ad_tables s') (fold cache_effect evs empty_base_data_cache)"
    using follows_snapshot [OF ok, of empty_base_data_cache EV_MYSELF] g(2,5) by (simp add: evs_def)
  ultimately show ?thesis
    using deliver_linked [OF assms(1), of evs "st1\<lparr>lk_admin := s'\<rparr>"] ok empty g(2)
    unfolding run in_step_def by (simp add: st1_def)
qed

fun orderly_run :: "'h handlers \<Rightarrow> (nat \<Rightarrow> string) \<Rightarrow> admin_request list \<Rightarrow> ('u, 'h) link \<Rightarrow> bool" where
  "orderly_run hm uuid [] st = True"
| "orderly_run hm uuid (r # rs) st =
     (orderly r (ad_tables (lk_admin st)) \<and> orderly_run hm uuid rs (link_step hm uuid (Requested r) st))"

lemma requests_in_step:
  "quiet hm \<Longrightarrow> in_step st \<Longrightarrow> orderly_run hm uuid rs st \<Longrightarrow> in_step (link_run hm uuid (map Requested rs) st)"
proof (induction rs arbitrary: st)
  case (Cons r rs)
  have "keeps (lk_admin st) (snd (request_svc uuid r (lk_admin st)))"
    using Cons.prems by (intro keeps_request) (simp_all add: in_step_def)
  then have "in_step (link_step hm uuid (Requested r) st)" using Cons.prems by (simp add: serve_in_step)
  then show ?case using Cons by (simp add: link_run_def)
qed (simp add: link_run_def)


text \<open>A gateway about to connect to an admin that knows one plugin.\<close>

definition sample_plugin :: plugin_do where
  "sample_plugin = \<lparr>pdo_id = ''p'', pdo_name = ''divide'', pdo_config = None, pdo_enabled = True, pdo_role = 0\<rparr>"

definition sample_admin :: "tables \<Rightarrow> unit admin" where
  "sample_admin t = \<lparr>ad_tables = t, ad_upstreams = Map.empty, ad_next = 0, ad_published = []\<rparr>"

definition sample_tables :: tables where
  "sample_tables = \<lparr>tb_plugins = [sample_plugin], tb_selectors = [], tb_selector_conditions = [], tb_rules = [],
     tb_rule_conditions = [], tb_metas = [], tb_auths = [], tb_auth_params = [], tb_auth_paths = []\<rparr>"

definition sample_link :: "(unit, unit) link" where
  "sample_link = \<lparr>lk_admin = sample_admin sample_tables, lk_SESSION_SET = [], lk_session = None, lk_fresh = 0, lk_client = None,
     lk_alreadySync = False, lk_gateway = \<lparr>gw_sub = start_state (), gw_auths = Map.empty, gw_metas = Map.empty\<rparr>\<rparr>"

definition sample_handlers :: "unit handlers" where
  "sample_handlers = [''divide'' \<mapsto> default_handler ''divide'']"

definition sample_uuid :: "nat \<Rightarrow> string" where
  "sample_uuid n = replicate (Suc n) CHR ''u''"

definition sample_condition :: condition_dto where
  "sample_condition = \<lparr>cdt_id = None, cdt_paramType = ''uri'', cdt_operator = ''match'', cdt_paramName = ''/'', cdt_paramValue = ''/http/**''\<rparr>"

definition sample_selector :: "string option \<Rightarrow> int \<Rightarrow> selector_dto" where
  "sample_selector i srt = \<lparr>sdt_id = i, sdt_pluginId = ''p'', sdt_name = ''http'', sdt_matchMode = 0, sdt_type = 1, sdt_sort = srt,
     sdt_enabled = True, sdt_loged = True, sdt_continued = True, sdt_handle = Some ''[]'', sdt_selectorConditions = [sample_condition]\<rparr>"

definition sample_rule_dto :: "string \<Rightarrow> string \<Rightarrow> rule_dto" where
  "sample_rule_dto sel n = \<lparr>rdt_id = None, rdt_selectorId = sel, rdt_matchMode = 0, rdt_name = n, rdt_enabled = True, rdt_loged = True,
     rdt_sort = 1, rdt_handle = Some ''{}'', rdt_ruleConditions = [sample_condition]\<rparr>"

text \<open>Saves of a selector and two rules, a refused save, an update, deletions, and a synchronisation.\<close>

definition sample_requests :: "admin_request list" where
  "sample_requests = [SaveSelector (sample_selector None 1), SaveRule (sample_rule_dto ''u'' ''a''), SaveRule (sample_rule_dto ''u'' ''b''),
     SaveRule (sample_rule_dto ''u'' ''a''), SaveSelector (sample_selector (Some ''u'') 2), DeleteRules [''uuu''],
     EnablePlugins [''p''] False, SyncPlugin ''p'', SyncAll]"

lemma sample_quiet: "quiet sample_handlers"
  by (simp add: quiet_def sample_handlers_def default_handler_def default_call_def)

lemma sample_orderly: "orderly_run sample_handlers sample_uuid sample_requests (ws_open sample_handlers sample_link)"
  by code_simp


end
