(* ===== verification/GatewayGaps.thy ===== *)
theory GatewayGaps
  imports GatewayInStep
begin

text \<open>
  What the gateway misses: reconnections, refreshes that do not remove, and the services that publish too
  little, too much or nothing for what they leave in the tables.
\<close>

subsection \<open>Reconnecting\<close>

lemma not_connected:
  assumes "lk_client st = None"
  shows "lk_client (link_run hm uuid (map Requested rs) st) = None
    \<and> lk_alreadySync (link_run hm uuid (map Requested rs) st) = lk_alreadySync st
    \<and> lk_gateway (link_run hm uuid (map Requested rs) st) = lk_gateway st"
  using assms
proof (induction rs arbitrary: st)
  case (Cons r rs)
  have "fold (deliver hm) evs st' = st'" if "lk_client st' = None" for evs and st' :: "('a, 'b) link"
    using that by (induction evs) (simp_all add: deliver_def receives_def)
  then have "link_step hm uuid (Requested r) st = st\<lparr>lk_admin := snd (request_svc uuid r (lk_admin st))\<rparr>"
    using Cons.prems by (simp add: serve_def Let_def)
  then show ?case using Cons by (simp add: link_run_def)
qed (simp add: link_run_def)

text \<open>
  What the dashboard changes while the gateway is disconnected never reaches it by reconnecting: the
  client asks for the data on its first connection only, so the gateway serves with what it had.
\<close>

theorem reconnect_misses_changes:
  assumes "lk_client st = None" and "lk_alreadySync st"
  shows "lk_gateway (link_run hm uuid (map Requested rs @ [Opened]) st) = lk_gateway st"
proof -
  define st' where "st' = link_run hm uuid (map Requested rs) st"
  have "link_run hm uuid (map Requested rs @ [Opened]) st = ws_open hm st'" by (simp add: link_run_def st'_def)
  then show ?thesis using not_connected [OF assms(1), of hm uuid rs] assms(2) by (simp add: st'_def ws_open_def Let_def)
qed

definition sample_offline :: "(unit, unit) link" where
  "sample_offline = ws_close (ws_open sample_handlers sample_link)"

lemma reconnect_misses_changes_witness:
  "lk_gateway (link_run sample_handlers sample_uuid (map Requested [EnablePlugins [''p''] False] @ [Opened]) sample_offline)
     = lk_gateway sample_offline
   \<and> map pdo_enabled (tb_plugins (ad_tables (lk_admin (link_run sample_handlers sample_uuid
       (map Requested [EnablePlugins [''p''] False] @ [Opened]) sample_offline)))) = [False]
   \<and> map_option pd_enabled (obtainPluginData (ss_cache (gw_sub (lk_gateway sample_offline))) ''divide'') = Some True"
proof (intro conjI)
  have "lk_client sample_offline = None" "lk_alreadySync sample_offline" by code_simp+
  then show "lk_gateway (link_run sample_handlers sample_uuid (map Requested [EnablePlugins [''p''] False] @ [Opened]) sample_offline)
     = lk_gateway sample_offline" by (rule reconnect_misses_changes)
qed code_simp+

subsection \<open>A refresh does not remove\<close>

context grouped_cache begin

lemma member_kept:
  "x \<in> set (members s k) \<Longrightarrow> ident x \<notin> ident ` set ds \<Longrightarrow> x \<in> set (members (fold add ds (fold del ds s)) k)"
proof -
  have add: "x \<in> set (members s k) \<Longrightarrow> ident x \<notin> ident ` set ds \<Longrightarrow> x \<in> set (members (fold add ds s) k)" for ds s
  proof (induction ds arbitrary: s)
    case (Cons d ds)
    have "x \<in> set (members (add d s) k)" using Cons.prems by (auto simp: members_add set_replace_sorted)
    then show ?case using Cons by simp
  qed simp
  show "x \<in> set (members s k) \<Longrightarrow> ident x \<notin> ident ` set ds \<Longrightarrow> x \<in> set (members (fold add ds (fold del ds s)) k)"
    by (rule add) (auto simp: members_fold_del)
qed

end

text \<open>
  A rule the gateway still holds although its row is gone survives every synchronisation from the
  dashboard: a refresh removes and adds only what it names.
\<close>

theorem deleted_rule_survives_sync:
  assumes "quiet hm" and "lk_client st = Some n" and "n \<in> set (lk_SESSION_SET st)" and "tables_ok (ad_tables (lk_admin st))"
    and "x \<in> set (the_group (obtainRuleData (ss_cache (gw_sub (lk_gateway st))) sel))"
    and "rd_id x \<notin> rdo_id ` set (tb_rules (ad_tables (lk_admin st)))"
  shows "x \<in> set (the_group (obtainRuleData (ss_cache (gw_sub (lk_gateway (link_step hm uuid (Requested SyncAll) st)))) sel))"
proof -
  let ?t = "ad_tables (lk_admin st)" and ?c = "ss_cache (gw_sub (lk_gateway st))"
  obtain s' pre post where g: "syncAll EV_REFRESH (lk_admin st) = (Inr True, s')" "ad_tables s' = ?t"
     "ad_published s' = ad_published (lk_admin st) @ pre @ snapshot_events EV_REFRESH ?t @ post"
     "list_all no_nulls (pre @ post)" "\<forall>c. fold cache_effect pre c = c \<and> fold cache_effect post c = c" "\<forall>ev\<in>set (pre @ post). event_type ev = EV_REFRESH"
    using syncAll_run [of EV_REFRESH "lk_admin st"] by blast
  define evs where "evs = pre @ snapshot_events EV_REFRESH ?t @ post"
  have run: "link_step hm uuid (Requested SyncAll) st = fold (deliver hm) evs (st\<lparr>lk_admin := s'\<rparr>)"
    using g(1,3) by (simp add: serve_def Let_def quietly_state evs_def)
  have "list_all no_nulls evs" using g(4) snapshot_no_nulls [OF assms(4)] by (simp add: evs_def)
  moreover have "receives (st\<lparr>lk_admin := s'\<rparr>) ev" if "ev \<in> set evs" for ev
    using that g(6) assms(2,3) by (auto simp: evs_def snapshot_events_def intro!: connected_receives)
  ultimately obtain gw where "fold (deliver hm) evs (st\<lparr>lk_admin := s'\<rparr>) = st\<lparr>lk_admin := s'\<rparr>\<lparr>lk_gateway := gw\<rparr>"
    "ss_cache (gw_sub gw) = fold cache_effect evs ?c"
    using deliver_all [OF assms(1), of evs "st\<lparr>lk_admin := s'\<rparr>"] by (auto simp: list_all_iff)
  then have c: "ss_cache (gw_sub (lk_gateway (link_step hm uuid (Requested SyncAll) st))) = fold cache_effect evs ?c"
    unfolding run by simp
  define c2 where "c2 = cache_effect (SelectorChanged EV_REFRESH (selector_listAll ?t)) (cache_effect (PluginChanged EV_REFRESH (plugin_listAll ?t)) ?c)"
  have "RULE_MAP (fold f ds c) = RULE_MAP c" if "\<And>d c. RULE_MAP (f d c) = RULE_MAP c" for f :: "'x \<Rightarrow> base_data_cache \<Rightarrow> base_data_cache" and ds c
    using that by (rule fold_frame)
  then have frame: "RULE_MAP c2 = RULE_MAP ?c"
    by (simp add: c2_def rows_effect_def fold_frame [where P = RULE_MAP] cache_frames)
  have "rd_id ` set (map the (rule_listAll ?t)) = rdo_id ` set (tb_rules ?t)"
    using arg_cong [where f = set, OF rules_built(2) [OF assms(4) subset_refl]] by (simp add: rule_listAll_def image_image)
  then have "rd_id x \<notin> rd_id ` set (map the (rule_listAll ?t))" using assms(6) by (simp only: simp_thms)
  moreover have "x \<in> set (rlc.members c2 sel)"
    using assms(5) frame by (simp add: rlc.members_def obtainRuleData_def)
  ultimately have "x \<in> set (rlc.members (cache_effect (RuleChanged EV_REFRESH (rule_listAll ?t)) c2) sel)"
    unfolding cache_effect.simps by (simp add: rows_effect_resent rlc.member_kept del: list.set_map)
  then show ?thesis unfolding c using g(5) by (simp add: evs_def snapshot_events_def c2_def rlc.members_def del: cache_effect.simps)
qed

definition sample_stale :: "(unit, unit) link" where
  "sample_stale = link_run sample_handlers sample_uuid
     [Opened, Requested (SaveSelector (sample_selector None 1)), Requested (SaveRule (sample_rule_dto ''u'' ''a'')), Closed,
      Requested (DeleteRules [''uuu'']), Opened] sample_link"

definition stale_rule :: rule_data where
  "stale_rule = \<lparr>rd_id = ''uuu'', rd_name = ''a'', rd_pluginName = ''divide'', rd_selectorId = ''u'', rd_matchMode = 0, rd_sort = 1,
     rd_enabled = True, rd_loged = True, rd_handle = Some ''{}'', rd_conditionDataList = Some [condition_of_dto sample_condition]\<rparr>"

lemma deleted_rule_survives_sync_witness:
  "stale_rule \<in> set (the_group (obtainRuleData (ss_cache (gw_sub (lk_gateway
     (link_step sample_handlers sample_uuid (Requested SyncAll) sample_stale)))) ''u''))"
proof (rule deleted_rule_survives_sync [OF sample_quiet])
  show "lk_client sample_stale = Some 1" by code_simp
  show "1 \<in> set (lk_SESSION_SET sample_stale)" by code_simp
  show "tables_ok (ad_tables (lk_admin sample_stale))" by code_simp
  show "stale_rule \<in> set (the_group (obtainRuleData (ss_cache (gw_sub (lk_gateway sample_stale))) ''u''))" by code_simp
  show "rd_id stale_rule \<notin> rdo_id ` set (tb_rules (ad_tables (lk_admin sample_stale)))" by code_simp
qed

subsection \<open>Keys that are deleted\<close>

text \<open>
  Deleting application keys always fails: the row is read after it has been deleted. The
  first key's row is gone for good, the others' are left, and no event is published, so the
  gateway goes on accepting what is signed with the deleted key.
\<close>

theorem deleted_key_stays_valid:
  "fst (auth_delete (i # ids) (lk_admin st)) = Inl NullPointer
   \<and> tb_auths (ad_tables (lk_admin (serve hm (quietly (auth_delete (i # ids))) st))) = delete_with ado_id i (tb_auths (ad_tables (lk_admin st)))
   \<and> lk_gateway (serve hm (quietly (auth_delete (i # ids))) st) = lk_gateway st"
proof -
  define t' where "t' = (let t = ad_tables (lk_admin st) in t\<lparr>tb_auths := delete_with ado_id i (tb_auths t),
     tb_auth_params := delete_with apo_authId i (tb_auth_params t), tb_auth_paths := delete_with aho_authId i (tb_auth_paths t)\<rparr>)"
  have "auth_selectById i t' = None" by (simp add: t'_def auth_selectById_def row_with_delete Let_def)
  then have run: "auth_delete (i # ids) (lk_admin st) = (Inl NullPointer, (lk_admin st)\<lparr>ad_tables := t'\<rparr>)"
    by (simp add: auth_delete_def auth_delete_one_def svc_run auth_deleteRow_def auth_param_deleteByAuthId_def
        auth_path_deleteByAuthId_def t'_def Let_def)
  then show ?thesis by (simp add: serve_def quietly_state t'_def Let_def)
qed

subsection \<open>Deletions that are rolled back\<close>

text \<open>
  When the dashboard deletes two selectors of which the second is not there, the transaction is rolled
  back and the tables keep the first, but its deletion has been published: the gateway no
  longer routes by a selector the dashboard still shows.
\<close>

theorem rolled_back_deletion_is_published:
  assumes q: "quiet hm" and st: "in_step st" and i: "i \<in> sdo_id ` set (tb_selectors (ad_tables (lk_admin st)))"
    and j: "j \<notin> sdo_id ` set (tb_selectors (ad_tables (lk_admin st)))"
  shows "ad_tables (lk_admin (link_step hm uuid (Requested (DeleteSelectors [i, j])) st)) = ad_tables (lk_admin st)
    \<and> \<not> follows (ad_tables (lk_admin st))
        (ss_cache (gw_sub (lk_gateway (link_step hm uuid (Requested (DeleteSelectors [i, j])) st))))"
proof -
  let ?s = "lk_admin st" and ?t = "ad_tables (lk_admin st)"
  let ?st = "link_step hm uuid (Requested (DeleteSelectors [i, j])) st"
  have ok: "tables_ok ?t" and fo: "follows ?t (ss_cache (gw_sub (lk_gateway st)))" and ln: "linked st"
    using st by (simp_all add: in_step_def)
  obtain sel p where sel: "sel \<in> set (tb_selectors ?t)" "sdo_id sel = i" "selector_selectById i ?t = Some sel"
    "plugin_selectById (sdo_pluginId sel) ?t = Some p" using selector_there [OF ok i] by blast
  obtain s1 where s1: "selector_delete_one i ?s = (Inr (), s1)" "ad_tables s1 = without_selector i ?t"
    "ad_published s1 = ad_published ?s @ selector_deleted sel (pdo_name p) ?t"
    using selector_delete_run [OF sel(3,4)] by blast
  have "selector_selectById j (without_selector i ?t) = None"
    using j by (simp add: selector_selectById_def without_selector_def row_with_delete row_with_None Let_def)
  then have "selector_delete_one j s1 = (Inl NullPointer, s1)"
    by (simp add: selector_delete_one_def svc_run s1(2))
  then have run: "selector_delete [i, j] ?s = (Inl NullPointer, s1\<lparr>ad_tables := ?t\<rparr>)"
    using s1(1) by (simp add: selector_delete_def transactional_def andthen_def)
  define evs where "evs = selector_deleted sel (pdo_name p) ?t"
  have st': "?st = fold (deliver hm) evs (st\<lparr>lk_admin := s1\<lparr>ad_tables := ?t\<rparr>\<rparr>)"
    using s1(3) by (simp add: serve_def Let_def quietly_state run evs_def)
  have nn: "list_all no_nulls evs" by (simp add: evs_def selector_deleted_def list_all_iff)
  have "linked (st\<lparr>lk_admin := s1\<lparr>ad_tables := ?t\<rparr>\<rparr>)" using ln by (simp add: linked_def)
  from deliver_linked [OF q nn this] have d: "lk_admin ?st = s1\<lparr>ad_tables := ?t\<rparr>"
    "ss_cache (gw_sub (lk_gateway ?st)) = fold cache_effect evs (ss_cache (gw_sub (lk_gateway st)))"
    unfolding st' by simp_all
  have w: "follows (without_selector i ?t) (ss_cache (gw_sub (lk_gateway ?st)))"
    using follows_without_selector [OF ok fo sel(1,2,4) refl] unfolding d(2)
    by (simp add: evs_def selector_deleted_def fold_deleted_rules rows_effect_def sel(2))
  obtain data where data: "buildSelectorData ?t sel = Some data" using rows_built(1) [OF ok sel(1)] by auto
  have "\<not> follows ?t (ss_cache (gw_sub (lk_gateway ?st)))"
  proof
    assume "follows ?t (ss_cache (gw_sub (lk_gateway ?st)))"
    moreover have "data \<in> selector_view ?t" using data sel(1) by (auto simp: views)
    ultimately have "data \<in> selector_view (without_selector i ?t)"
      using w by (auto simp: follows_def slc.holds_rows_def)
    then obtain r where r: "r \<in> set (tb_selectors (without_selector i ?t))" "buildSelectorData (without_selector i ?t) r = Some data"
      by (auto simp: views)
    have "sdo_id r = i" using data_fields(1) [OF r(2)] data_fields(1) [OF data] sel(2) by simp
    then show False using r(1) by (simp add: without_selector_def delete_with_def Let_def)
  qed
  then show ?thesis unfolding d(1) by simp
qed

definition sample_served :: "(unit, unit) link" where
  "sample_served = link_run sample_handlers sample_uuid
     [Opened, Requested (SaveSelector (sample_selector None 1)), Requested (SaveRule (sample_rule_dto ''u'' ''a''))] sample_link"

lemma sample_served_in_step: "in_step sample_served"
proof -
  have "in_step (link_run sample_handlers sample_uuid
      (map Requested [SaveSelector (sample_selector None 1), SaveRule (sample_rule_dto ''u'' ''a'')]) (ws_open sample_handlers sample_link))"
    by (intro requests_in_step open_in_step sample_quiet)
      (simp add: sample_link_def sample_admin_def sample_tables_def sample_plugin_def tables_ok_def start_state_def | code_simp)+
  then show ?thesis by (simp add: sample_served_def link_run_def)
qed

lemma rolled_back_deletion_is_published_witness:
  "ad_tables (lk_admin (link_step sample_handlers sample_uuid (Requested (DeleteSelectors [''u'', ''gone''])) sample_served))
     = ad_tables (lk_admin sample_served)
   \<and> \<not> follows (ad_tables (lk_admin sample_served))
        (ss_cache (gw_sub (lk_gateway (link_step sample_handlers sample_uuid (Requested (DeleteSelectors [''u'', ''gone''])) sample_served))))"
  by (rule rolled_back_deletion_is_published [OF sample_quiet sample_served_in_step]; code_simp)

subsection \<open>Plugins that are deleted\<close>

lemma delete_rule_rows_run:
  "\<exists>t'. for_all delete_rule_rows rs s = (Inr (), s\<lparr>ad_tables := t'\<rparr>) \<and> tb_selectors t' = tb_selectors (ad_tables s)"
proof (induction rs arbitrary: s)
  case Nil
  show ?case by (rule exI [of _ "ad_tables s"]) (simp add: svc_run)
next
  case (Cons r rs)
  define t1 where "t1 = (ad_tables s)\<lparr>tb_rules := delete_with rdo_id (rdo_id r) (tb_rules (ad_tables s)),
      tb_rule_conditions := delete_with cdo_owner (rdo_id r) (tb_rule_conditions (ad_tables s))\<rparr>"
  have "delete_rule_rows r s = (Inr (), s\<lparr>ad_tables := t1\<rparr>)"
    by (simp add: delete_rule_rows_def svc_run svc_run_last rule_deleteRow_def rule_condition_deleteByQuery_def t1_def)
  then show ?case using Cons.IH [of "s\<lparr>ad_tables := t1\<rparr>"] by (auto simp: andthen_def t1_def)
qed

lemma delete_selector_rows_run:
  "\<exists>t'. for_all delete_selector_rows sels s = (Inr (), s\<lparr>ad_tables := t'\<rparr>)
     \<and> tb_selectors t' = filter (\<lambda>r. sdo_id r \<notin> sdo_id ` set sels) (tb_selectors (ad_tables s))"
proof (induction sels arbitrary: s)
  case Nil
  show ?case by (rule exI [of _ "ad_tables s"]) (simp add: svc_run)
next
  case (Cons sel sels)
  obtain t1 where t1: "for_all delete_rule_rows (rows_with rdo_selectorId (sdo_id sel) (tb_rules (ad_tables s))) s = (Inr (), s\<lparr>ad_tables := t1\<rparr>)"
    "tb_selectors t1 = tb_selectors (ad_tables s)" using delete_rule_rows_run by blast
  define t2 where "t2 = t1\<lparr>tb_selectors := delete_with sdo_id (sdo_id sel) (tb_selectors t1),
      tb_selector_conditions := delete_with cdo_owner (sdo_id sel) (tb_selector_conditions t1)\<rparr>"
  have "delete_selector_rows sel s = (Inr (), s\<lparr>ad_tables := t2\<rparr>)"
    by (simp add: delete_selector_rows_def svc_run svc_run_last t1 andthen_def [of "for_all f xs" for f xs] selector_deleteRow_def
        selector_condition_deleteByQuery_def t2_def)
  moreover obtain t' where t': "for_all delete_selector_rows sels (s\<lparr>ad_tables := t2\<rparr>) = (Inr (), s\<lparr>ad_tables := t2\<rparr>\<lparr>ad_tables := t'\<rparr>)"
    "tb_selectors t' = filter (\<lambda>r. sdo_id r \<notin> sdo_id ` set sels) (tb_selectors t2)" using Cons.IH [of "s\<lparr>ad_tables := t2\<rparr>"] by auto
  moreover have "tb_selectors t' = filter (\<lambda>r. sdo_id r \<notin> sdo_id ` set (sel # sels)) (tb_selectors (ad_tables s))"
    unfolding t'(2) by (simp add: t2_def t1(2) delete_with_def conj_commute)
  ultimately show ?case by (auto simp: andthen_def)
qed

text \<open>
  Deleting a plugin deletes its selectors and their rules from the tables but publishes only the plugin:
  the gateway forgets the plugin and keeps every selector and rule it has, which serve again as
  soon as a plugin of that name is created.
\<close>

theorem plugin_deletion_leaves_selectors:
  assumes q: "quiet hm" and ln: "linked st" and p: "plugin_selectById i (ad_tables (lk_admin st)) = Some p"
    and role: "pdo_role p \<noteq> plugin_role_code PR_SYS"
  shows "rows_with sdo_pluginId i (tb_selectors (ad_tables (lk_admin (link_step hm uuid (Requested (DeletePlugins [i])) st)))) = []
    \<and> ss_cache (gw_sub (lk_gateway (link_step hm uuid (Requested (DeletePlugins [i])) st)))
        = removePluginData (plugin_mapToData p) (ss_cache (gw_sub (lk_gateway st)))"
proof -
  let ?s = "lk_admin st" and ?t = "ad_tables (lk_admin st)"
  let ?st = "link_step hm uuid (Requested (DeletePlugins [i])) st"
  define t1 where "t1 = ?t\<lparr>tb_plugins := delete_with pdo_id i (tb_plugins ?t)\<rparr>"
  define sels where "sels = rows_with sdo_pluginId i (tb_selectors ?t)"
  obtain t' where t': "for_all delete_selector_rows sels (?s\<lparr>ad_tables := t1\<rparr>) = (Inr (), ?s\<lparr>ad_tables := t1\<rparr>\<lparr>ad_tables := t'\<rparr>)"
    "tb_selectors t' = filter (\<lambda>r. sdo_id r \<notin> sdo_id ` set sels) (tb_selectors t1)"
    using delete_selector_rows_run [of sels "?s\<lparr>ad_tables := t1\<rparr>"] by auto
  have none: "rows_with sdo_pluginId i (tb_selectors t') = []"
    unfolding t'(2) by (auto simp: rows_with_def sels_def t1_def filter_empty_conv)
  define evs where "evs = [PluginChanged EV_DELETE [plugin_mapToData p]]"
  have run: "plugin_delete [i] ?s = (Inr '''', ?s\<lparr>ad_tables := t', ad_published := ad_published ?s @ evs\<rparr>)"
    using p role t'(1)
    by (simp add: plugin_delete_def transactional_def svc_run plugin_deleteRow_def t1_def [symmetric]
        andthen_def [of "for_all f xs" for f xs] evs_def) (simp add: t1_def sels_def svc_run)
  have st': "?st = fold (deliver hm) evs (st\<lparr>lk_admin := ?s\<lparr>ad_tables := t', ad_published := ad_published ?s @ evs\<rparr>\<rparr>)"
    by (simp add: serve_def Let_def quietly_state run)
  have nn: "list_all no_nulls evs" by (simp add: evs_def)
  have "linked (st\<lparr>lk_admin := ?s\<lparr>ad_tables := t', ad_published := ad_published ?s @ evs\<rparr>\<rparr>)" using ln by (simp add: linked_def)
  from deliver_linked [OF q nn this] show ?thesis
    using none unfolding st' by (simp add: evs_def rows_effect_def)
qed

definition sample_custom :: "(unit, unit) link" where
  "sample_custom = link_run sample_handlers sample_uuid
     [Opened, Requested (SavePlugin \<lparr>pdt_id = None, pdt_name = ''mine'', pdt_config = None, pdt_role = 1, pdt_enabled = True\<rparr>)] sample_link"

lemma plugin_deletion_leaves_selectors_witness:
  "rows_with sdo_pluginId ''u'' (tb_selectors (ad_tables (lk_admin
      (link_step sample_handlers sample_uuid (Requested (DeletePlugins [''u''])) sample_custom)))) = []
    \<and> ss_cache (gw_sub (lk_gateway (link_step sample_handlers sample_uuid (Requested (DeletePlugins [''u''])) sample_custom)))
        = removePluginData \<lparr>pd_id = ''u'', pd_name = ''mine'', pd_config = None, pd_role = 1, pd_enabled = True\<rparr>
            (ss_cache (gw_sub (lk_gateway sample_custom)))"
proof -
  define p where "p = \<lparr>pdo_id = ''u'', pdo_name = ''mine'', pdo_config = None, pdo_enabled = True, pdo_role = 1\<rparr>"
  have "linked sample_custom"
    unfolding linked_def by (rule exI [of _ 0]) code_simp
  moreover have "plugin_selectById ''u'' (ad_tables (lk_admin sample_custom)) = Some p"
    unfolding p_def by code_simp
  moreover have "pdo_role p \<noteq> plugin_role_code PR_SYS" by (simp add: p_def)
  ultimately show ?thesis
    using plugin_deletion_leaves_selectors [OF sample_quiet, of sample_custom "''u''" p sample_uuid]
    by (simp add: p_def plugin_mapToData_def)
qed

subsection \<open>Keys that are switched\<close>

lemma auth_enabled_unknown:
  "auth_selectById k (ad_tables s) = None \<Longrightarrow> k \<in> set ids \<Longrightarrow>
     fst (auth_enabled_loop ids b ds s) = Inr ID_NOT_EXIST \<and> ad_published (snd (auth_enabled_loop ids b ds s)) = ad_published s"
proof (induction ids arbitrary: s ds)
  case (Cons i ids)
  show ?case
  proof (cases "auth_selectById i (ad_tables s)")
    case None
    then show ?thesis by (simp add: svc_run)
  next
    case (Some r)
    define t' where "t' = (ad_tables s)\<lparr>tb_auths := update_with ado_id (ado_id r) (\<lambda>old. old\<lparr>ado_enabled := b\<rparr>) (tb_auths (ad_tables s))\<rparr>"
    have run: "auth_enabled_loop (i # ids) b ds s
        = auth_enabled_loop ids b (ds @ [buildByEntity t' (r\<lparr>ado_enabled := b\<rparr>)]) (s\<lparr>ad_tables := t'\<rparr>)"
      by (simp add: svc_run Some auth_updateEnable_def t'_def Let_def)
    have "auth_selectById k t' = None" using Cons.prems(1) by (auto simp: auth_selectById_def t'_def row_with_update)
    moreover have "k \<in> set ids" using Cons.prems Some by auto
    ultimately show ?thesis unfolding run using Cons.IH [of "s\<lparr>ad_tables := t'\<rparr>"] by simp
  qed
qed simp

text \<open>
  Switching several keys on or off of which one is not there answers that it does not exist, after the
  keys before it have been switched in the tables; nothing is published, so the gateway goes on
  with the old switches.
\<close>

theorem unknown_key_hides_the_others:
  assumes "auth_selectById k (ad_tables (lk_admin st)) = None" and "k \<in> set ids"
  shows "fst (auth_enabled ids b (lk_admin st)) = Inr ID_NOT_EXIST
    \<and> lk_gateway (serve hm (quietly (auth_enabled ids b)) st) = lk_gateway st"
  using auth_enabled_unknown [OF assms, of b "[]"] by (simp add: auth_enabled_def serve_def quietly_state Let_def)

definition sample_keys :: "(unit, unit) link" where
  "sample_keys = ws_open sample_handlers (sample_link\<lparr>lk_admin := sample_admin (sample_tables\<lparr>tb_auths :=
     [\<lparr>ado_id = ''1'', ado_appKey = ''key'', ado_appSecret = ''secret'', ado_enabled = True, ado_userId = None, ado_phone = None,
       ado_extInfo = None\<rparr>]\<rparr>)\<rparr>)"

lemma unknown_key_hides_the_others_witness:
  "(fst (auth_enabled [''1'', ''2''] False (lk_admin sample_keys)) = Inr ID_NOT_EXIST
    \<and> lk_gateway (serve sample_handlers (quietly (auth_enabled [''1'', ''2''] False)) sample_keys) = lk_gateway sample_keys)
   \<and> map ado_enabled (tb_auths (ad_tables (lk_admin (serve sample_handlers (quietly (auth_enabled [''1'', ''2''] False)) sample_keys)))) = [False]
   \<and> map_option aa_enabled (obtainAuthData (gw_auths (lk_gateway sample_keys)) ''key'') = Some True"
proof -
  have "auth_selectById ''2'' (ad_tables (lk_admin sample_keys)) = None" by code_simp
  note unknown_key_hides_the_others [OF this, of "[''1'', ''2'']" False sample_handlers]
  moreover have "map ado_enabled (tb_auths (ad_tables (lk_admin (serve sample_handlers (quietly (auth_enabled [''1'', ''2''] False)) sample_keys)))) = [False]"
    by code_simp
  moreover have "map_option aa_enabled (obtainAuthData (gw_auths (lk_gateway sample_keys)) ''key'') = Some True" by code_simp
  ultimately show ?thesis by simp
qed

end
