(* ===== verification/HttpPolling.thy ===== *)
theory HttpPolling
  imports AdminAuth
begin

text \<open>
  Synchronisation over http, the admin's side: the configuration caches of \<open>AbstractDataChangedListener\<close>
  and the long polling of \<open>HttpLongPollingDataChangedListener\<close> as a machine stepped by requests, published
  events, the one scheduler thread and the clock. A cache keeps the rows its JSON text was written
  from; the digest of that text is a parameter.
\<close>

subsection \<open>The caches\<close>

text \<open>\<open>cdc_object\<close> tells the objects apart, which the code compares by reference.\<close>

record config_cache =
  cdc_object :: nat
  cdc_md5 :: string
  cdc_lastModifyTime :: int
  cdc_rows :: config_rows

datatype poll_task = Park nat | Changed config_group | TimeUp nat | RefreshCaches

text \<open>
  The parameter of each group in a request, by the group's name. The outcome of a request: answered with
  groups, or ended by an exception.
\<close>

type_synonym poll_request = "config_group \<Rightarrow> string option"

record poll_server =
  ps_db :: tables
  ps_now :: int
  ps_CACHE :: "config_group \<rightharpoonup> config_cache"
  ps_objects :: nat
  ps_clients :: "nat list"
  ps_tasks :: "(int \<times> poll_task) list"
  ps_requests :: "(poll_request \<times> int) list"
  ps_compared :: "nat list"
  ps_outcomes :: "(nat \<times> config_group list jres \<times> int) list"

fun group_rows :: "config_group \<Rightarrow> tables \<Rightarrow> config_rows" where
  "group_rows G_APP_AUTH t = AuthRows (auth_listAll t)"
| "group_rows G_PLUGIN t = PluginRows (plugin_listAll t)"
| "group_rows G_RULE t = RuleRows (rule_listAll t)"
| "group_rows G_SELECTOR t = SelectorRows (selector_listAll t)"
| "group_rows G_META_DATA t = MetaRows (meta_listAll t)"

type_synonym digest = "config_rows \<Rightarrow> string"

text \<open>\<open>updateCache\<close> with the rows of the group's \<open>listAll\<close>.\<close>

definition updateCache :: "digest \<Rightarrow> config_group \<Rightarrow> poll_server \<Rightarrow> poll_server" where
  "updateCache md5 g s =
     (let rows = group_rows g (ps_db s)
      in s\<lparr>ps_CACHE := (ps_CACHE s)(g \<mapsto> \<lparr>cdc_object = ps_objects s, cdc_md5 = md5 rows, cdc_lastModifyTime = ps_now s, cdc_rows = rows\<rparr>),
           ps_objects := ps_objects s + 1\<rparr>)"

definition refreshLocalCache :: "digest \<Rightarrow> poll_server \<Rightarrow> poll_server" where
  "refreshLocalCache md5 s = fold (updateCache md5) [G_APP_AUTH, G_PLUGIN, G_RULE, G_SELECTOR, G_META_DATA] s"

text \<open>\<open>fetchConfig\<close>.\<close>

definition fetchConfig :: "poll_server \<Rightarrow> config_group \<Rightarrow> config_cache jres" where
  "fetchConfig s g = deref (ps_CACHE s g)"

subsection \<open>The scheduler\<close>

text \<open>Tasks run in the order of their times, those of the same time in the order they were handed over.\<close>

definition schedule :: "int \<Rightarrow> poll_task \<Rightarrow> poll_server \<Rightarrow> poll_server" where
  "schedule due tk s = s\<lparr>ps_tasks := takeWhile (\<lambda>(d, _). d \<le> due) (ps_tasks s) @ (due, tk)
     # dropWhile (\<lambda>(d, _). d \<le> due) (ps_tasks s)\<rparr>"

definition executeTask :: "poll_task \<Rightarrow> poll_server \<Rightarrow> poll_server" where
  "executeTask tk s = schedule (ps_now s) tk s"

definition afterInitialize :: "int \<Rightarrow> poll_server \<Rightarrow> poll_server" where
  "afterInitialize syncInterval s = schedule (ps_now s + syncInterval) RefreshCaches s"

definition afterPropertiesSet :: "digest \<Rightarrow> int \<Rightarrow> poll_server \<Rightarrow> poll_server" where
  "afterPropertiesSet md5 syncInterval s = afterInitialize syncInterval (refreshLocalCache md5 s)"

subsection \<open>Comparing\<close>

text \<open>\<open>NumberUtils.toLong\<close>: zero for what is no number.\<close>

definition toLong :: "string \<Rightarrow> int" where
  "toLong v = (case parse_long v of Inl _ \<Rightarrow> 0 | Inr n \<Rightarrow> n)"

text \<open>
  How waiting for the lock ends. \<open>serverCache\<close> is the entry read before, \<open>s\<close> the state when the wait is over.
\<close>

datatype waited = Interrupted | NotLocked | Locked

definition checkCacheDelayAndUpdate ::
  "digest \<Rightarrow> waited \<Rightarrow> config_group \<Rightarrow> config_cache \<Rightarrow> string \<Rightarrow> int \<Rightarrow> poll_server \<Rightarrow> bool jres \<times> poll_server" where
  "checkCacheDelayAndUpdate md5 w g serverCache clientMd5 clientModifyTime s =
     (if clientMd5 = cdc_md5 serverCache then (Inr False, s)
      else if cdc_lastModifyTime serverCache \<ge> clientModifyTime then (Inr True, s)
      else case w of
          Interrupted \<Rightarrow> (Inr True, s)
        | NotLocked \<Rightarrow> (Inr True, s)
        | Locked \<Rightarrow>
            (case ps_CACHE s g of
               None \<Rightarrow> (Inl NullPointer, s)
             | Some latest \<Rightarrow>
                 if cdc_object latest \<noteq> cdc_object serverCache then (Inr (clientMd5 \<noteq> cdc_md5 latest), s)
                 else let s' = refreshLocalCache md5 s
                      in (bindr (deref (ps_CACHE s' g)) (\<lambda>latest. Inr (clientMd5 \<noteq> cdc_md5 latest)), s')))"

text \<open>A request finds the lock free when it runs alone.\<close>

fun compare_groups :: "digest \<Rightarrow> poll_request \<Rightarrow> config_group list \<Rightarrow> poll_server \<Rightarrow> config_group list jres \<times> poll_server" where
  "compare_groups md5 req [] s = (Inr [], s)"
| "compare_groups md5 req (g # gs) s =
     (case req g of
        None \<Rightarrow> (Inl (SoulException ''group param invalid:null''), s)
      | Some v \<Rightarrow>
          (case split_parts CHR '','' v of
             [clientMd5, time] \<Rightarrow>
               (case ps_CACHE s g of
                  None \<Rightarrow> (Inl NullPointer, s)
                | Some serverCache \<Rightarrow>
                    (case checkCacheDelayAndUpdate md5 Locked g serverCache clientMd5 (toLong time) s of
                       (Inl e, s') \<Rightarrow> (Inl e, s')
                     | (Inr changed, s') \<Rightarrow>
                         (case compare_groups md5 req gs s' of
                            (Inl e, s'') \<Rightarrow> (Inl e, s'')
                          | (Inr rest, s'') \<Rightarrow> (Inr (if changed then g # rest else rest), s''))))
           | _ \<Rightarrow> (Inl (SoulException (''group param invalid:'' @ v)), s)))"

definition compareChangedGroup :: "digest \<Rightarrow> poll_request \<Rightarrow> poll_server \<Rightarrow> config_group list jres \<times> poll_server" where
  "compareChangedGroup md5 req s = compare_groups md5 req config_group_values s"

subsection \<open>Requests, events and tasks\<close>

definition SERVER_MAX_HOLD_TIMEOUT :: int where "SERVER_MAX_HOLD_TIMEOUT = 60000"

definition clients_capacity :: nat where "clients_capacity = 1024"

definition conclude :: "nat \<Rightarrow> config_group list jres \<Rightarrow> poll_server \<Rightarrow> poll_server" where
  "conclude i r s = s\<lparr>ps_outcomes := ps_outcomes s @ [(i, r, ps_now s)]\<rparr>"

text \<open>\<open>sendResponse\<close>: the client's pending timeout is cancelled.\<close>

definition sendResponse :: "nat \<Rightarrow> config_group list \<Rightarrow> poll_server \<Rightarrow> poll_server" where
  "sendResponse i gs s = conclude i (Inr gs) (s\<lparr>ps_tasks := filter (\<lambda>(_, tk). tk \<noteq> TimeUp i) (ps_tasks s)\<rparr>)"

text \<open>
  \<open>doLongPolling\<close> on the request's thread: the comparison, and, when nothing has changed, the hand-over to
  the scheduler. Others may run in between; a request that waits to be handed over is in \<open>ps_compared\<close>.
\<close>

definition poll_compare :: "digest \<Rightarrow> poll_request \<Rightarrow> poll_server \<Rightarrow> poll_server" where
  "poll_compare md5 req s =
     (let i = length (ps_requests s)
      in case compareChangedGroup md5 req (s\<lparr>ps_requests := ps_requests s @ [(req, ps_now s)]\<rparr>) of
          (Inl e, s') \<Rightarrow> conclude i (Inl e) s'
        | (Inr gs, s') \<Rightarrow> if gs \<noteq> [] then conclude i (Inr gs) s' else s'\<lparr>ps_compared := ps_compared s' @ [i]\<rparr>)"

definition poll_enter :: "nat \<Rightarrow> poll_server \<Rightarrow> poll_server" where
  "poll_enter i s = (if i \<in> set (ps_compared s) then executeTask (Park i) (s\<lparr>ps_compared := remove1 i (ps_compared s)\<rparr>) else s)"

definition doLongPolling :: "digest \<Rightarrow> poll_request \<Rightarrow> poll_server \<Rightarrow> poll_server" where
  "doLongPolling md5 req s = poll_enter (length (ps_requests s)) (poll_compare md5 req s)"

text \<open>\<open>onPluginChanged\<close> and its siblings.\<close>

fun rows_empty :: "config_rows \<Rightarrow> bool" where
  "rows_empty (PluginRows ds) = (ds = [])"
| "rows_empty (SelectorRows ds) = (ds = [])"
| "rows_empty (RuleRows ds) = (ds = [])"
| "rows_empty (AuthRows ds) = (ds = [])"
| "rows_empty (MetaRows ds) = (ds = [])"

definition onChanged :: "digest \<Rightarrow> data_event \<Rightarrow> poll_server \<Rightarrow> poll_server" where
  "onChanged md5 ev s =
     (if rows_empty (event_rows ev) then s
      else let g = rows_group (event_rows ev) in executeTask (Changed g) (updateCache md5 g s))"

text \<open>A task ended by an exception is dropped with it; the client it was for gets no answer.\<close>

definition request_of :: "poll_server \<Rightarrow> nat \<Rightarrow> poll_request" where
  "request_of s i = fst (ps_requests s ! i)"

definition change_task :: "config_group \<Rightarrow> poll_server \<Rightarrow> poll_server" where
  "change_task g s = fold (\<lambda>i s. sendResponse i [g] (s\<lparr>ps_clients := remove1 i (ps_clients s)\<rparr>)) (ps_clients s) s"

definition park_task :: "nat \<Rightarrow> poll_server \<Rightarrow> poll_server" where
  "park_task i s =
     (let s1 = schedule (ps_now s + SERVER_MAX_HOLD_TIMEOUT) (TimeUp i) s
      in if length (ps_clients s1) < clients_capacity then s1\<lparr>ps_clients := ps_clients s1 @ [i]\<rparr> else s1)"

definition timeout_task :: "digest \<Rightarrow> nat \<Rightarrow> poll_server \<Rightarrow> poll_server" where
  "timeout_task md5 i s =
     (case compareChangedGroup md5 (request_of s i) (s\<lparr>ps_clients := remove1 i (ps_clients s)\<rparr>) of
        (Inl e, s') \<Rightarrow> conclude i (Inl e) s'
      | (Inr gs, s') \<Rightarrow> sendResponse i gs s')"

definition refresh_task :: "digest \<Rightarrow> int \<Rightarrow> poll_server \<Rightarrow> poll_server" where
  "refresh_task md5 syncInterval s = (let s' = refreshLocalCache md5 s in schedule (ps_now s' + syncInterval) RefreshCaches s')"

fun run_task :: "digest \<Rightarrow> int \<Rightarrow> poll_task \<Rightarrow> poll_server \<Rightarrow> poll_server" where
  "run_task md5 iv (Park i) s = park_task i s"
| "run_task md5 iv (Changed g) s = change_task g s"
| "run_task md5 iv (TimeUp i) s = timeout_task md5 i s"
| "run_task md5 iv RefreshCaches s = refresh_task md5 iv s"

text \<open>The scheduler thread takes the first task if its time has come.\<close>

definition has_due :: "poll_server \<Rightarrow> bool" where
  "has_due s = (case ps_tasks s of [] \<Rightarrow> False | (due, _) # _ \<Rightarrow> due \<le> ps_now s)"

definition work :: "digest \<Rightarrow> int \<Rightarrow> poll_server \<Rightarrow> poll_server" where
  "work md5 iv s = (if has_due s then run_task md5 iv (snd (hd (ps_tasks s))) (s\<lparr>ps_tasks := tl (ps_tasks s)\<rparr>) else s)"

subsection \<open>The machine\<close>

text \<open>
  A request polls at once, or its comparison and its hand-over are steps of their own. \<open>Stored\<close> is a change of
  the tables; it is announced by a step of its own, or never.
\<close>

datatype poll_event =
    Polled poll_request
  | Compared poll_request
  | Entered nat
  | Stored tables
  | Announced data_event
  | Worked
  | Elapsed nat

fun poll_step :: "digest \<Rightarrow> int \<Rightarrow> poll_event \<Rightarrow> poll_server \<Rightarrow> poll_server" where
  "poll_step md5 iv (Polled req) s = doLongPolling md5 req s"
| "poll_step md5 iv (Compared req) s = poll_compare md5 req s"
| "poll_step md5 iv (Entered i) s = poll_enter i s"
| "poll_step md5 iv (Stored t) s = s\<lparr>ps_db := t\<rparr>"
| "poll_step md5 iv (Announced ev) s = onChanged md5 ev s"
| "poll_step md5 iv Worked s = work md5 iv s"
| "poll_step md5 iv (Elapsed n) s = s\<lparr>ps_now := ps_now s + int n\<rparr>"

definition poll_run :: "digest \<Rightarrow> int \<Rightarrow> poll_event list \<Rightarrow> poll_server \<Rightarrow> poll_server" where
  "poll_run md5 iv es s = fold (poll_step md5 iv) es s"

definition started :: "digest \<Rightarrow> int \<Rightarrow> tables \<Rightarrow> int \<Rightarrow> poll_server" where
  "started md5 iv t now = afterPropertiesSet md5 iv \<lparr>ps_db = t, ps_now = now, ps_CACHE = Map.empty, ps_objects = 0,
     ps_clients = [], ps_tasks = [], ps_requests = [], ps_compared = [], ps_outcomes = []\<rparr>"


subsection \<open>What the steps leave alone\<close>

definition caches_only :: "poll_server \<Rightarrow> poll_server \<Rightarrow> bool" where
  "caches_only s s' \<longleftrightarrow> ps_db s' = ps_db s \<and> ps_now s' = ps_now s \<and> ps_clients s' = ps_clients s \<and> ps_tasks s' = ps_tasks s
     \<and> ps_requests s' = ps_requests s \<and> ps_compared s' = ps_compared s \<and> ps_outcomes s' = ps_outcomes s"

lemma caches_only_refl [simp]: "caches_only s s"
  by (simp add: caches_only_def)

lemma caches_only_trans: "caches_only s s' \<Longrightarrow> caches_only s' s'' \<Longrightarrow> caches_only s s''"
  by (simp add: caches_only_def)

lemma updateCache_only [simp]: "caches_only s (updateCache md5 g s)"
  by (simp add: caches_only_def updateCache_def Let_def)

lemma refreshLocalCache_only [simp]: "caches_only s (refreshLocalCache md5 s)"
  by (simp add: caches_only_def updateCache_def refreshLocalCache_def Let_def)

lemma checkCacheDelayAndUpdate_only [simp]:
  "caches_only s (snd (checkCacheDelayAndUpdate md5 w g c m n s))"
  by (simp add: checkCacheDelayAndUpdate_def Let_def split: waited.split option.split)

lemma compare_groups_only: "caches_only s (snd (compare_groups md5 req gs s))"
proof (induction gs arbitrary: s)
  case (Cons g gs)
  have step: "caches_only s s' \<and> caches_only s (snd (compare_groups md5 req gs s'))"
    if "checkCacheDelayAndUpdate md5 Locked g c m n s = (r, s')" for c m n r s'
    using checkCacheDelayAndUpdate_only [of s md5 Locked g c m n] that Cons.IH [of s'] by (auto intro: caches_only_trans)
  show ?case
    using step by (simp split: option.split list.split prod.split sum.split) (metis snd_conv)
qed simp

lemma compareChangedGroup_only: "caches_only s (snd (compareChangedGroup md5 req s))"
  by (simp add: compareChangedGroup_def compare_groups_only)

subsection \<open>Every request has one fate\<close>

text \<open>
  The places a request can be in: waiting to be handed over, a task of the scheduler's, or ended. The
  waiting clients are among those whose timeout is a task.
\<close>

definition answered :: "poll_server \<Rightarrow> nat \<Rightarrow> bool" where
  "answered s i \<longleftrightarrow> i \<in> fst ` set (ps_outcomes s)"

definition places :: "poll_server \<Rightarrow> nat \<Rightarrow> nat" where
  "places s i = count_list (ps_compared s) i + count_list (map snd (ps_tasks s)) (Park i)
     + count_list (map snd (ps_tasks s)) (TimeUp i) + count_list (map fst (ps_outcomes s)) i"

definition booked :: "poll_server \<Rightarrow> bool" where
  "booked s \<longleftrightarrow> (\<forall>i. places s i = (if i < length (ps_requests s) then 1 else 0))
     \<and> distinct (ps_clients s) \<and> (\<forall>i\<in>set (ps_clients s). TimeUp i \<in> snd ` set (ps_tasks s))"

lemma caches_only_places: "caches_only s s' \<Longrightarrow> places s' = places s"
  by (simp add: caches_only_def places_def fun_eq_iff)

lemma count_list_around: "count_list (map snd (takeWhile P ts)) x + count_list (map snd (dropWhile P ts)) x = count_list (map snd ts) x"
  by (metis count_list_append map_append takeWhile_dropWhile_id)

lemma places_schedule:
  "places (schedule due tk s) i = places s i + (if tk = Park i \<or> tk = TimeUp i then 1 else 0)"
  using count_list_around [of "\<lambda>(d, _). d \<le> due" "ps_tasks s" "Park i"]
    count_list_around [of "\<lambda>(d, _). d \<le> due" "ps_tasks s" "TimeUp i"]
  by (auto simp: places_def schedule_def)

lemma schedule_set [simp]: "set (ps_tasks (schedule due tk s)) = insert (due, tk) (set (ps_tasks s))"
  by (simp add: schedule_def) (metis set_append takeWhile_dropWhile_id Un_insert_right)

lemma schedule_frame [simp]:
  "ps_db (schedule due tk s) = ps_db s" "ps_now (schedule due tk s) = ps_now s" "ps_CACHE (schedule due tk s) = ps_CACHE s"
  "ps_clients (schedule due tk s) = ps_clients s" "ps_requests (schedule due tk s) = ps_requests s"
  "ps_compared (schedule due tk s) = ps_compared s" "ps_outcomes (schedule due tk s) = ps_outcomes s"
  by (simp_all add: schedule_def)

lemma conclude_frame [simp]:
  "ps_db (conclude i r s) = ps_db s" "ps_now (conclude i r s) = ps_now s" "ps_CACHE (conclude i r s) = ps_CACHE s"
  "ps_clients (conclude i r s) = ps_clients s" "ps_requests (conclude i r s) = ps_requests s"
  "ps_compared (conclude i r s) = ps_compared s" "ps_tasks (conclude i r s) = ps_tasks s"
  "ps_outcomes (conclude i r s) = ps_outcomes s @ [(i, r, ps_now s)]"
  by (simp_all add: conclude_def)

lemma sendResponse_frame [simp]:
  "ps_db (sendResponse i gs s) = ps_db s" "ps_now (sendResponse i gs s) = ps_now s"
  "ps_clients (sendResponse i gs s) = ps_clients s" "ps_requests (sendResponse i gs s) = ps_requests s"
  "ps_compared (sendResponse i gs s) = ps_compared s"
  "ps_tasks (sendResponse i gs s) = filter (\<lambda>(_, tk). tk \<noteq> TimeUp i) (ps_tasks s)"
  "ps_outcomes (sendResponse i gs s) = ps_outcomes s @ [(i, Inr gs, ps_now s)]"
  by (simp_all add: sendResponse_def)

lemma places_conclude: "places (conclude i r s) j = places s j + (if i = j then 1 else 0)"
  by (simp add: places_def)

lemma count_without_timeout:
  "count_list (map snd (filter (\<lambda>(_, tk). tk \<noteq> TimeUp i) ts)) tk = (if tk = TimeUp i then 0 else count_list (map snd ts) tk)"
  by (induction ts) auto

lemma places_sendResponse:
  "places (sendResponse i gs s) j
     = (if i = j then places s j - count_list (map snd (ps_tasks s)) (TimeUp i) + 1 else places s j)"
  by (simp add: places_def count_without_timeout)

lemma booked_places: "booked s \<Longrightarrow> places s i = (if i < length (ps_requests s) then 1 else 0)"
  by (simp add: booked_def)

lemma booked_waiting:
  assumes "booked s" "i \<in> set (ps_clients s)"
  shows "count_list (map snd (ps_tasks s)) (TimeUp i) = 1" "\<not> answered s i" "i < length (ps_requests s)" "places s i = 1"
proof -
  have "TimeUp i \<in> set (map snd (ps_tasks s))" using assms by (simp add: booked_def)
  then have "count_list (map snd (ps_tasks s)) (TimeUp i) \<noteq> 0" by (simp add: count_list_0_iff)
  then show "count_list (map snd (ps_tasks s)) (TimeUp i) = 1" "i < length (ps_requests s)" "places s i = 1"
    using booked_places [OF assms(1), of i] by (auto simp: places_def split: if_splits)
  then have "count_list (map fst (ps_outcomes s)) i = 0" by (simp add: places_def)
  then show "\<not> answered s i" by (simp add: answered_def count_list_0_iff)
qed

text \<open>Answering one client.\<close>

lemma booked_answer_client:
  assumes "booked s" "i \<in> set (ps_clients s)"
  shows "booked (sendResponse i gs (s\<lparr>ps_clients := remove1 i (ps_clients s)\<rparr>))"
proof -
  let ?s = "s\<lparr>ps_clients := remove1 i (ps_clients s)\<rparr>"
  have p: "places (s\<lparr>ps_clients := cs\<rparr>) j = places s j" for cs j by (simp add: places_def)
  have "places (sendResponse i gs ?s) j = (if j < length (ps_requests s) then 1 else 0)" for j
    using booked_waiting [OF assms] booked_places [OF assms(1), of j] by (auto simp: places_sendResponse p)
  moreover have "\<forall>j\<in>set (remove1 i (ps_clients s)). TimeUp j \<in> snd ` {x \<in> set (ps_tasks s). snd x \<noteq> TimeUp i}"
    using assms(1) by (fastforce simp: booked_def image_iff)
  ultimately show ?thesis
    using assms(1) by (simp add: booked_def case_prod_beta)
qed

lemma booked_caches_only: "booked s \<Longrightarrow> caches_only s s' \<Longrightarrow> booked s'"
  by (simp add: booked_def caches_only_places) (simp add: caches_only_def)

lemma booked_other_task:
  "booked s \<Longrightarrow> \<forall>i. tk \<noteq> Park i \<and> tk \<noteq> TimeUp i \<Longrightarrow> booked (schedule due tk s)"
  by (simp add: booked_def places_schedule)

lemma booked_popped_other:
  assumes "booked s" "ps_tasks s = (due, tk) # ts" "\<forall>i. tk \<noteq> Park i \<and> tk \<noteq> TimeUp i"
  shows "booked (s\<lparr>ps_tasks := ts\<rparr>)"
  using assms by (auto simp: booked_def places_def)

lemma booked_poll_compare: "booked s \<Longrightarrow> booked (poll_compare md5 req s)"
proof -
  assume b: "booked s"
  let ?s = "s\<lparr>ps_requests := ps_requests s @ [(req, ps_now s)]\<rparr>"
  have p: "places (s'\<lparr>ps_compared := ps_compared s' @ [i]\<rparr>) j = places s' j + (if i = j then 1 else 0)" for s' i j
    by (simp add: places_def)
  have q: "places ?s = places s" by (simp add: places_def fun_eq_iff)
  obtain r s' where r: "compareChangedGroup md5 req ?s = (r, s')" by (cases "compareChangedGroup md5 req ?s")
  then have "caches_only ?s s'" using compareChangedGroup_only [of ?s md5 req] by simp
  then have s': "places s' = places s" "ps_clients s' = ps_clients s" "ps_tasks s' = ps_tasks s"
      "length (ps_requests s') = Suc (length (ps_requests s))"
    using caches_only_places [of ?s s'] q by (simp_all add: caches_only_def)
  show ?thesis
    using b r s' by (simp add: poll_compare_def Let_def booked_def places_conclude p split: sum.split)
qed

lemma booked_poll_enter: "booked s \<Longrightarrow> booked (poll_enter i s)"
proof -
  assume b: "booked s"
  show ?thesis
  proof (cases "i \<in> set (ps_compared s)")
    case True
    then have c: "count_list (ps_compared s) i \<noteq> 0" by (simp add: count_list_0_iff)
    have r: "count_list (remove1 i xs) j = count_list xs j - (if i = j then 1 else 0)" for xs j
      by (induction xs) auto
    have "places (executeTask (Park i) (s\<lparr>ps_compared := remove1 i (ps_compared s)\<rparr>)) j = places s j" for j
      using c by (auto simp: executeTask_def places_schedule) (simp_all add: places_def r)
    then show ?thesis using b True by (simp add: poll_enter_def booked_def executeTask_def)
  qed (simp add: poll_enter_def b)
qed

lemma booked_onChanged: "booked s \<Longrightarrow> booked (onChanged md5 ev s)"
  by (simp add: onChanged_def Let_def executeTask_def booked_other_task booked_caches_only [OF _ updateCache_only])

lemma booked_change_task: "booked s \<Longrightarrow> booked (change_task g s)"
proof -
  have "booked (fold (\<lambda>i s. sendResponse i [g] (s\<lparr>ps_clients := remove1 i (ps_clients s)\<rparr>)) cs s)"
    if "booked s" "ps_clients s = cs" for cs s
    using that
  proof (induction cs arbitrary: s)
    case (Cons c cs)
    have "booked (sendResponse c [g] (s\<lparr>ps_clients := remove1 c (ps_clients s)\<rparr>))"
      using Cons.prems by (intro booked_answer_client) simp_all
    then show ?case using Cons.IH Cons.prems(2) by simp
  qed simp
  then show "booked s \<Longrightarrow> ?thesis" by (simp add: change_task_def)
qed

lemma booked_popped_park:
  assumes "booked s" "ps_tasks s = (due, Park i) # ts"
  shows "booked (park_task i (s\<lparr>ps_tasks := ts\<rparr>))"
proof -
  have p: "places (park_task i (s\<lparr>ps_tasks := ts\<rparr>)) j = places s j" for j
    using assms(2) places_schedule [of "ps_now s + SERVER_MAX_HOLD_TIMEOUT" "TimeUp i" "s\<lparr>ps_tasks := ts\<rparr>" j]
    by (auto simp: park_task_def Let_def places_def)
  have "i \<notin> set (ps_clients s)"
    using booked_waiting [OF assms(1), of i] assms(2) by (auto simp: places_def)
  then show ?thesis
    using assms by (simp add: booked_def p) (auto simp: park_task_def Let_def)
qed

lemma booked_popped_timeout:
  assumes "booked s" "ps_tasks s = (due, TimeUp i) # ts"
  shows "booked (timeout_task md5 i (s\<lparr>ps_tasks := ts\<rparr>))"
proof -
  let ?s = "s\<lparr>ps_tasks := ts, ps_clients := remove1 i (ps_clients s)\<rparr>"
  have i: "places s i = 1" "i < length (ps_requests s)"
    using booked_places [OF assms(1), of i] assms(2) by (auto simp: places_def split: if_splits)
  have q: "places ?s j = places s j - (if i = j then 1 else 0)" for j
    using assms(2) by (simp add: places_def)
  have t: "\<forall>j\<in>set (remove1 i (ps_clients s)). TimeUp j \<in> snd ` set ts \<and> j \<noteq> i" "distinct (remove1 i (ps_clients s))"
    using assms by (auto simp: booked_def)
  obtain r s' where r: "compareChangedGroup md5 (request_of s i) ?s = (r, s')"
    by (cases "compareChangedGroup md5 (request_of s i) ?s")
  then have "caches_only ?s s'" using compareChangedGroup_only [of ?s md5 "request_of s i"] by simp
  then have s': "places s' = places ?s" "ps_clients s' = remove1 i (ps_clients s)" "ps_tasks s' = ts" "ps_requests s' = ps_requests s"
    using caches_only_places [of ?s s'] by (simp_all add: caches_only_def)
  have c: "places (conclude i r s') j = places s j" for r j
    using i q [of j] s'(1) by (auto simp: places_conclude)
  have d: "places (sendResponse i gs s') j = places s j" for gs j
  proof -
    have "places s' i = 0" using i q [of i] s'(1) by simp
    then have "count_list (map snd (ps_tasks s')) (TimeUp i) = 0" by (simp add: places_def)
    then show ?thesis using i q [of j] s'(1) by (auto simp: places_sendResponse)
  qed
  show ?thesis
    using assms(1) t r s' by (fastforce simp: timeout_task_def booked_def request_of_def c d image_iff split: sum.split)
qed

lemma booked_refresh_task: "booked s \<Longrightarrow> booked (refresh_task md5 iv s)"
  by (simp add: refresh_task_def Let_def booked_other_task booked_caches_only [OF _ refreshLocalCache_only])

lemma booked_work: "booked s \<Longrightarrow> booked (work md5 iv s)"
proof -
  assume b: "booked s"
  show ?thesis
  proof (cases "has_due s")
    case True
    then obtain due tk ts where t: "ps_tasks s = (due, tk) # ts"
      by (cases "ps_tasks s") (auto simp: has_due_def)
    show ?thesis
      using True t booked_popped_park [OF b] booked_popped_timeout [OF b] booked_popped_other [OF b]
      by (cases tk) (simp_all add: work_def booked_change_task booked_refresh_task)
  qed (simp add: work_def b)
qed

lemma booked_started: "booked (started md5 iv t now)"
  unfolding started_def afterPropertiesSet_def afterInitialize_def
  by (intro booked_other_task booked_caches_only [OF _ refreshLocalCache_only]) (simp_all add: booked_def places_def)

subsection \<open>Invariants of the machine\<close>

text \<open>
  What holds after every run: a start and every part of a step has to keep it, the tasks for refresh
  intervals that fit.
\<close>

lemma poll_run_simps [simp]:
  "poll_run md5 iv [] s = s" "poll_run md5 iv (e # es) s = poll_run md5 iv es (poll_step md5 iv e s)"
  by (simp_all add: poll_run_def)

locale poll_invariant =
  fixes I :: "poll_server \<Rightarrow> bool" and fits :: "int \<Rightarrow> bool"
  assumes start_kept: "I (started md5 iv t now)"
    and compare_kept: "I s \<Longrightarrow> I (poll_compare md5 req s)"
    and enter_kept: "I s \<Longrightarrow> I (poll_enter i s)"
    and stored_kept: "I s \<Longrightarrow> I (s\<lparr>ps_db := t\<rparr>)"
    and announced_kept: "I s \<Longrightarrow> I (onChanged md5 ev s)"
    and work_kept: "fits iv \<Longrightarrow> I s \<Longrightarrow> I (work md5 iv s)"
    and elapsed_kept: "I s \<Longrightarrow> I (s\<lparr>ps_now := n\<rparr>)"
begin

lemma step_kept: "fits iv \<Longrightarrow> I s \<Longrightarrow> I (poll_step md5 iv e s)"
  by (cases e) (simp_all add: doLongPolling_def compare_kept enter_kept stored_kept announced_kept work_kept elapsed_kept)

lemma run_kept: "fits iv \<Longrightarrow> I s \<Longrightarrow> I (poll_run md5 iv es s)"
  by (induction es arbitrary: s) (simp_all add: step_kept)

lemma started_run_kept: "fits iv \<Longrightarrow> I (poll_run md5 iv es (started md5 iv t now))"
  by (intro run_kept start_kept)

end

interpretation bk: poll_invariant booked "\<lambda>_. True"
  by unfold_locales (simp_all add: booked_started booked_poll_compare booked_poll_enter booked_onChanged booked_work,
      simp_all add: booked_def places_def)

end
