(* ===== verification/HttpSync.thy ===== *)
theory HttpSync
  imports HttpPolling GatewayLink
begin

text \<open>
  Synchronisation over http, the gateway's side: \<open>HttpSyncDataService\<close> with \<open>DataRefreshFactory\<close> and
  the \<open>DataRefresh\<close> of each group. What an admin answers is taken as the rows its JSON was written from; the
  network is a parameter.
\<close>

subsection \<open>What the admin answers\<close>

text \<open>\<open>ConfigData\<close> of a group, and what \<open>ConfigController.fetchConfigs\<close> returns.\<close>

record group_data =
  gd_md5 :: string
  gd_lastModifyTime :: int
  gd_data :: config_rows

type_synonym fetched = "config_group \<rightharpoonup> group_data"

definition config_data_of :: "config_cache \<Rightarrow> group_data" where
  "config_data_of c = \<lparr>gd_md5 = cdc_md5 c, gd_lastModifyTime = cdc_lastModifyTime c, gd_data = cdc_rows c\<rparr>"

fun fetch_groups :: "poll_server \<Rightarrow> config_group list \<Rightarrow> fetched \<Rightarrow> fetched jres" where
  "fetch_groups s [] r = Inr r"
| "fetch_groups s (g # gs) r = bindr (fetchConfig s g) (\<lambda>c. fetch_groups s gs (r(g \<mapsto> config_data_of c)))"

definition fetchConfigs :: "poll_server \<Rightarrow> config_group list \<Rightarrow> fetched jres" where
  "fetchConfigs s gs = fetch_groups s gs Map.empty"

subsection \<open>Refreshing the caches\<close>

record 'h http_gateway =
  hg_gateway :: "'h gateway"
  hg_GROUP_CACHE :: fetched

text \<open>\<open>AbstractDataRefresh.updateCacheIfNeed\<close>.\<close>

definition updateCacheIfNeed :: "config_group \<Rightarrow> group_data \<Rightarrow> fetched \<Rightarrow> bool \<times> fetched" where
  "updateCacheIfNeed g newVal c =
     (case c g of
        None \<Rightarrow> (True, c(g \<mapsto> newVal))
      | Some oldVal \<Rightarrow>
          if gd_md5 oldVal \<noteq> gd_md5 newVal \<and> gd_lastModifyTime oldVal < gd_lastModifyTime newVal
          then (True, c(g \<mapsto> newVal)) else (False, c))"

text \<open>
  The groups' own \<open>refresh\<close>. An empty list leaves nothing to take off the handlers; \<open>refresh\<close> of the key and
  meta data subscribers is the empty method of their interfaces.
\<close>

definition plugin_refresh :: "'h handlers \<Rightarrow> plugin_data list \<Rightarrow> 'h subscriber_state updates" where
  "plugin_refresh hm ds = and_then (\<lambda>s. (refreshPluginDataAll s, None)) (each (onSubscribe hm) ds)"

definition selector_refresh :: "'h handlers \<Rightarrow> selector_data option list \<Rightarrow> 'h subscriber_state updates" where
  "selector_refresh hm ds = and_then (\<lambda>s. (refreshSelectorDataAll s, None)) (each (nullable (onSelectorSubscribe hm)) ds)"

definition rule_refresh :: "'h handlers \<Rightarrow> rule_data option list \<Rightarrow> 'h subscriber_state updates" where
  "rule_refresh hm ds = and_then (\<lambda>s. (refreshRuleDataAll s, None)) (each (nullable (onRuleSubscribe hm)) ds)"

definition auth_refresh :: "app_auth_data list \<Rightarrow> 'h gateway updates" where
  "auth_refresh ds = each (auth_sub auth_onSubscribe) ds"

definition meta_refresh :: "meta_data option list \<Rightarrow> 'h gateway updates" where
  "meta_refresh ds = each (nullable (meta_sub meta_onSubscribe)) ds"

fun group_refresh :: "'h handlers \<Rightarrow> config_rows \<Rightarrow> 'h gateway updates" where
  "group_refresh hm (PluginRows ds) = on_sub (plugin_refresh hm ds)"
| "group_refresh hm (SelectorRows ds) = on_sub (selector_refresh hm ds)"
| "group_refresh hm (RuleRows ds) = on_sub (rule_refresh hm ds)"
| "group_refresh hm (AuthRows ds) = auth_refresh ds"
| "group_refresh hm (MetaRows ds) = meta_refresh ds"

text \<open>\<open>AbstractDataRefresh.refresh\<close>: the group's entry is taken over before its rows are.\<close>

definition data_refresh :: "'h handlers \<Rightarrow> fetched \<Rightarrow> config_group \<Rightarrow> 'h http_gateway \<Rightarrow> bool jres \<times> 'h http_gateway" where
  "data_refresh hm data g h =
     (case data g of
        None \<Rightarrow> (Inr False, h)
      | Some result \<Rightarrow>
          (case updateCacheIfNeed g result (hg_GROUP_CACHE h) of
             (False, _) \<Rightarrow> (Inr False, h)
           | (True, c) \<Rightarrow>
               (case group_refresh hm (gd_data result) (hg_gateway h) of
                  (gw, None) \<Rightarrow> (Inr True, \<lparr>hg_gateway = gw, hg_GROUP_CACHE = c\<rparr>)
                | (gw, Some e) \<Rightarrow> (Inl e, \<lparr>hg_gateway = gw, hg_GROUP_CACHE = c\<rparr>))))"

text \<open>
  \<open>DataRefreshFactory.executor\<close>: the groups in the order \<open>ord\<close> in which the parallel stream gets to them,
  each of which writes the result over.
\<close>

fun refresh_groups :: "'h handlers \<Rightarrow> fetched \<Rightarrow> config_group list \<Rightarrow> bool \<Rightarrow> 'h http_gateway \<Rightarrow> bool jres \<times> 'h http_gateway" where
  "refresh_groups hm data [] success h = (Inr success, h)"
| "refresh_groups hm data (g # gs) success h =
     (case data_refresh hm data g h of
        (Inl e, h') \<Rightarrow> (Inl e, h')
      | (Inr updated, h') \<Rightarrow> refresh_groups hm data gs updated h')"

definition refresh_executor :: "'h handlers \<Rightarrow> config_group list \<Rightarrow> fetched \<Rightarrow> 'h http_gateway \<Rightarrow> bool jres \<times> 'h http_gateway" where
  "refresh_executor hm ord data h = refresh_groups hm data ord False h"

definition cacheConfigData :: "'h http_gateway \<Rightarrow> config_group \<Rightarrow> group_data option" where
  "cacheConfigData h g = hg_GROUP_CACHE h g"

subsection \<open>\<open>HttpSyncDataService\<close>\<close>

text \<open>
  \<open>doFetchGroupConfig\<close>: \<open>fetch\<close> is the request to one server, with the exception that ends it. The result tells
  whether anything was updated; when not, the thread sleeps for 30 seconds.
\<close>

definition doFetchGroupConfig ::
  "'h handlers \<Rightarrow> config_group list \<Rightarrow> (config_group list \<Rightarrow> fetched jres) \<Rightarrow> config_group list \<Rightarrow> 'h http_gateway \<Rightarrow> bool jres \<times> 'h http_gateway" where
  "doFetchGroupConfig hm ord fetch groups h =
     (case fetch groups of Inl e \<Rightarrow> (Inl e, h) | Inr data \<Rightarrow> refresh_executor hm ord data h)"

text \<open>\<open>fetchGroupConfig\<close>: the next server is tried after a \<open>SoulException\<close> only.\<close>

fun fetchGroupConfig ::
  "'h handlers \<Rightarrow> config_group list \<Rightarrow> (config_group list \<Rightarrow> fetched jres) list \<Rightarrow> config_group list \<Rightarrow> 'h http_gateway \<Rightarrow> unit jres \<times> 'h http_gateway" where
  "fetchGroupConfig hm ord [] groups h = (Inr (), h)"
| "fetchGroupConfig hm ord (fetch # servers) groups h =
     (case doFetchGroupConfig hm ord fetch groups h of
        (Inr _, h') \<Rightarrow> (Inr (), h')
      | (Inl (SoulException m), h') \<Rightarrow> if servers = [] then (Inl (SoulException m), h') else fetchGroupConfig hm ord servers groups h'
      | (Inl e, h') \<Rightarrow> (Inl e, h'))"

text \<open>The parameters of \<open>doLongPolling\<close>.\<close>

definition poll_params :: "'h http_gateway \<Rightarrow> poll_request jres" where
  "poll_params h =
     (if list_all (\<lambda>g. cacheConfigData h g \<noteq> None) config_group_values
      then Inr (\<lambda>g. map_option (\<lambda>d. join_with '','' [gd_md5 d, show_int (gd_lastModifyTime d)]) (cacheConfigData h g))
      else Inl NullPointer)"

text \<open>\<open>doLongPolling\<close>: \<open>listen\<close> is the request to the listener; no group, or none answered, fetches nothing.\<close>

definition client_doLongPolling ::
  "'h handlers \<Rightarrow> config_group list \<Rightarrow> (poll_request \<Rightarrow> config_group list option jres) \<Rightarrow> (config_group list \<Rightarrow> fetched jres)
     \<Rightarrow> 'h http_gateway \<Rightarrow> bool option jres \<times> 'h http_gateway" where
  "client_doLongPolling hm ord listen fetch h =
     (case bindr (poll_params h) listen of
        Inl e \<Rightarrow> (Inl e, h)
      | Inr None \<Rightarrow> (Inr None, h)
      | Inr (Some []) \<Rightarrow> (Inr None, h)
      | Inr (Some gs) \<Rightarrow> (case doFetchGroupConfig hm ord fetch gs h of (r, h') \<Rightarrow> (bindr r (\<lambda>u. Inr (Some u)), h')))"

text \<open>
  One pass of \<open>HttpLongPollingTask.run\<close>'s loop over \<open>retryTimes\<close> polls, each as it goes at its turn: the seconds the
  thread sleeps after each, the 30 of \<open>doFetchGroupConfig\<close> included. The pass does not end with a poll
  that succeeds.
\<close>

definition retryTimes :: nat where "retryTimes = 3"

definition pause_after :: "nat \<Rightarrow> bool option jres \<Rightarrow> nat" where
  "pause_after time r =
     (case r of
        Inl _ \<Rightarrow> if time < retryTimes then 5 else 5 * 60
      | Inr (Some False) \<Rightarrow> 30
      | Inr _ \<Rightarrow> 0)"

fun poll_pass ::
  "nat \<Rightarrow> ('h http_gateway \<Rightarrow> bool option jres \<times> 'h http_gateway) list \<Rightarrow> 'h http_gateway \<Rightarrow> nat list \<times> 'h http_gateway" where
  "poll_pass time [] h = ([], h)"
| "poll_pass time (poll # polls) h =
     (if time > retryTimes then ([], h)
      else case poll h of
          (r, h') \<Rightarrow> (case poll_pass (time + 1) polls h' of (pauses, h'') \<Rightarrow> (pause_after time r # pauses, h'')))"

definition polling_task ::
  "('h http_gateway \<Rightarrow> bool option jres \<times> 'h http_gateway) list \<Rightarrow> 'h http_gateway \<Rightarrow> nat list \<times> 'h http_gateway" where
  "polling_task polls h = poll_pass 1 polls h"

subsection \<open>What a refresh of a group does\<close>

text \<open>\<open>follows\<close>, group by group.\<close>

fun part_follows :: "config_group \<Rightarrow> tables \<Rightarrow> base_data_cache \<Rightarrow> bool" where
  "part_follows G_PLUGIN t c = (\<forall>n. obtainPluginData c n = map_option plugin_mapToData (plugin_selectByName n t))"
| "part_follows G_SELECTOR t c = slc.holds_rows c (selector_view t)"
| "part_follows G_RULE t c = rlc.holds_rows c (rule_view t)"
| "part_follows G_APP_AUTH t c = True"
| "part_follows G_META_DATA t c = True"

lemma follows_parts: "(\<forall>g. part_follows g t c) \<longleftrightarrow> follows t c"
  unfolding follows_def by (metis part_follows.simps config_group.exhaust)

lemma plugin_by_name: "map_option plugin_mapToData (plugin_selectByName n t) = find (\<lambda>d. pd_name d = n) (plugin_listAll t)"
proof -
  have "map_option plugin_mapToData (row_with pdo_name n rs) = find (\<lambda>d. pd_name d = n) (map plugin_mapToData rs)" for rs
    by (induction rs) (simp_all add: row_with_def plugin_mapToData_def)
  then show ?thesis by (simp add: plugin_selectByName_def plugin_listAll_def)
qed

text \<open>The rows of a group are all that counts.\<close>

lemma part_follows_rows: "group_rows g t = group_rows g t' \<Longrightarrow> part_follows g t c = part_follows g t' c"
  by (cases g) (simp_all add: plugin_by_name selector_view_def rule_view_def)

lemma cleaned:
  "obtainPluginData (cleanPluginData c) n = None"
  "slc.holds_rows (cleanSelectorData c) {}" "rlc.holds_rows (cleanRuleData c) {}"
  "part_follows g t (cleanPluginData c) = part_follows g t c \<or> g = G_PLUGIN"
  "part_follows g t (cleanSelectorData c) = part_follows g t c \<or> g = G_SELECTOR"
  "part_follows g t (cleanRuleData c) = part_follows g t c \<or> g = G_RULE"
  by (cases g, simp_all add: slc.holds_rows_def rlc.holds_rows_def slc.members_def rlc.members_def obtainPluginData_def
      obtainSelectorData_def obtainRuleData_def cleanPluginData_def cleanSelectorData_def cleanRuleData_def)+

lemma folded:
  "part_follows g t (fold cachePluginData ps c) = part_follows g t c \<or> g = G_PLUGIN"
  "part_follows g t (fold cacheSelectData ss c) = part_follows g t c \<or> g = G_SELECTOR"
  "part_follows g t (fold cacheRuleData rs c) = part_follows g t c \<or> g = G_RULE"
  by (cases g, simp_all add: fold_frames)+

text \<open>The caches a group's refresh leaves.\<close>

fun refreshed :: "config_group \<Rightarrow> tables \<Rightarrow> base_data_cache \<Rightarrow> base_data_cache" where
  "refreshed G_PLUGIN t c = fold cachePluginData (plugin_listAll t) (cleanPluginData c)"
| "refreshed G_SELECTOR t c = fold cacheSelectData (map the (selector_listAll t)) (cleanSelectorData c)"
| "refreshed G_RULE t c = fold cacheRuleData (map the (rule_listAll t)) (cleanRuleData c)"
| "refreshed _ t c = c"

lemma refreshed_follows:
  assumes ok: "tables_ok t"
  shows "part_follows g t (refreshed g t c)"
proof (cases g)
  case G_PLUGIN
    have "distinct (map pd_name (plugin_listAll t))" using ok by (simp add: tables_ok_def plugin_listAll_def plugin_mapToData_def o_def)
    from plc.get_fold_put [OF this] show ?thesis
      by (simp add: G_PLUGIN plugin_by_name cleaned split: option.splits)
  next
  case G_SELECTOR
    note b = selectors_built [OF ok subset_refl]
    have d: "distinct (map sd_id (map the (selector_listAll t)))"
      using b(2) ok by (simp only: selector_listAll_def tables_ok_def)
    have "slc.holds_rows (refreshed G_SELECTOR t c) ({} \<union> set (map the (selector_listAll t)))"
      unfolding refreshed.simps by (rule slc.holds_rows_fold_add [OF cleaned(2) d]) simp
    moreover have "set (map the (selector_listAll t)) = selector_view t" by (simp only: views(1) selector_listAll_def b(3))
    ultimately show ?thesis by (simp add: G_SELECTOR)
  next
  case G_RULE
    note b = rules_built [OF ok subset_refl]
    have d: "distinct (map rd_id (map the (rule_listAll t)))"
      using b(2) ok by (simp only: rule_listAll_def tables_ok_def)
    have "rlc.holds_rows (refreshed G_RULE t c) ({} \<union> set (map the (rule_listAll t)))"
      unfolding refreshed.simps by (rule rlc.holds_rows_fold_add [OF cleaned(3) d]) simp
    moreover have "set (map the (rule_listAll t)) = rule_view t" by (simp only: views(2) rule_listAll_def b(3))
    ultimately show ?thesis by (simp add: G_RULE)
qed simp_all

lemma refreshed_others:
  assumes ne: "g' \<noteq> g"
  shows "part_follows g' t' (refreshed g t c) = part_follows g' t' c"
proof (cases g)
  case G_PLUGIN
    then show ?thesis using ne cleaned(4) [of g' t' c] folded(1) [of g' t' "plugin_listAll t" "cleanPluginData c"] by simp
  next
  case G_SELECTOR
    then show ?thesis using ne cleaned(5) [of g' t' c] folded(2) [of g' t' "map the (selector_listAll t)" "cleanSelectorData c"] by simp
  next
  case G_RULE
    then show ?thesis using ne cleaned(6) [of g' t' c] folded(3) [of g' t' "map the (rule_listAll t)" "cleanRuleData c"] by simp
qed simp_all

text \<open>With handlers that throw nothing, a refresh with the rows of sound tables ends without an exception.\<close>

lemma each_total: "(\<And>x s. x \<in> set xs \<Longrightarrow> snd (f x s) = None) \<Longrightarrow> snd (each f xs s) = None"
proof (induction xs arbitrary: s)
  case (Cons x xs)
  obtain s' where "f x s = (s', None)" using Cons.prems [of x s] by (cases "f x s") auto
  then show ?case using Cons by simp
qed simp

lemma and_then_total:
  assumes "snd (f s) = None" and "\<And>s. snd (g s) = None \<and> ss_cache (fst (g s)) = G (ss_cache s)"
  shows "snd (and_then f g s) = None \<and> ss_cache (fst (and_then f g s)) = G (ss_cache (fst (f s)))"
  using assms by (cases "f s") (simp add: and_then_def)

lemma on_sub_result: "snd (on_sub f g) = snd (f (gw_sub g))"
  by (simp add: on_sub_def split: prod.split)

lemma group_refresh_effect:
  assumes q: "quiet hm" and ok: "tables_ok t"
  shows "snd (group_refresh hm (group_rows g t) gw) = None
    \<and> ss_cache (gw_sub (fst (group_refresh hm (group_rows g t) gw))) = refreshed g t (ss_cache (gw_sub gw))"
proof (cases g)
  case G_PLUGIN
  have p: "snd (each (onSubscribe hm) ds s) = None \<and> ss_cache (fst (each (onSubscribe hm) ds s)) = fold cachePluginData ds (ss_cache s)" for ds s
    by (rule each_cache) (simp add: subscriber_quiet [OF q] subscriber_cache)
  have "snd (plugin_refresh hm ds s) = None \<and> ss_cache (fst (plugin_refresh hm ds s)) = fold cachePluginData ds (cleanPluginData (ss_cache s))" for ds s
    using and_then_total [of "\<lambda>s. (refreshPluginDataAll s, None)" s "each (onSubscribe hm) ds", OF _ p]
    by (simp add: plugin_refresh_def refreshPluginDataAll_def)
  then show ?thesis by (simp add: G_PLUGIN on_sub_result)
next
  case G_SELECTOR
  let ?ds = "selector_listAll t"
  have nn: "None \<notin> set ?ds" unfolding selector_listAll_def by (rule selectors_built(1) [OF ok subset_refl])
  have p: "snd (each (onSelectorSubscribe hm) ds s) = None
      \<and> ss_cache (fst (each (onSelectorSubscribe hm) ds s)) = fold cacheSelectData ds (ss_cache s)" for ds s
    by (rule each_cache) (simp add: subscriber_quiet [OF q] subscriber_cache)
  have "snd (selector_refresh hm ?ds s) = None
      \<and> ss_cache (fst (selector_refresh hm ?ds s)) = fold cacheSelectData (map the ?ds) (cleanSelectorData (ss_cache s))" for s
    using and_then_total [of "\<lambda>s. (refreshSelectorDataAll s, None)" s "each (nullable (onSelectorSubscribe hm)) ?ds",
        OF _ p [of "map the ?ds", folded nullable_the [OF nn]]]
    by (simp add: selector_refresh_def refreshSelectorDataAll_def)
  then show ?thesis by (simp add: G_SELECTOR on_sub_result)
next
  case G_RULE
  let ?ds = "rule_listAll t"
  have nn: "None \<notin> set ?ds" unfolding rule_listAll_def by (rule rules_built(1) [OF ok subset_refl])
  have p: "snd (each (onRuleSubscribe hm) ds s) = None
      \<and> ss_cache (fst (each (onRuleSubscribe hm) ds s)) = fold cacheRuleData ds (ss_cache s)" for ds s
    by (rule each_cache) (simp add: subscriber_quiet [OF q] subscriber_cache)
  have "snd (rule_refresh hm ?ds s) = None
      \<and> ss_cache (fst (rule_refresh hm ?ds s)) = fold cacheRuleData (map the ?ds) (cleanRuleData (ss_cache s))" for s
    using and_then_total [of "\<lambda>s. (refreshRuleDataAll s, None)" s "each (nullable (onRuleSubscribe hm)) ?ds",
        OF _ p [of "map the ?ds", folded nullable_the [OF nn]]]
    by (simp add: rule_refresh_def refreshRuleDataAll_def)
  then show ?thesis by (simp add: G_RULE on_sub_result)
next
  case G_APP_AUTH
  have "gw_sub (fst (each (auth_sub auth_onSubscribe) ds gw)) = gw_sub gw" for ds
    by (rule each_gw_sub) (simp add: auth_sub_def)
  moreover have "snd (each (auth_sub auth_onSubscribe) ds gw) = None" for ds by (rule each_total) (simp add: auth_sub_def)
  ultimately show ?thesis by (simp add: G_APP_AUTH auth_refresh_def)
next
  case G_META_DATA
  have "gw_sub (fst (each (nullable (meta_sub meta_onSubscribe)) ds gw)) = gw_sub gw" for ds
    by (rule each_gw_sub) (simp add: meta_sub_def nullable_def split: option.splits)
  moreover have "snd (each (nullable (meta_sub meta_onSubscribe)) (meta_listAll t) gw) = None"
    by (rule each_total) (auto simp: meta_sub_def nullable_def meta_listAll_def)
  ultimately show ?thesis by (simp add: G_META_DATA meta_refresh_def)
qed

end
