(* ===== verification/HttpWaiting.thy ===== *)
theory HttpWaiting
  imports HttpPolling
begin

text \<open>
  How long a request of \<open>HttpLongPollingDataChangedListener\<close> waits: once and not twice answered, within the
  hold timeout when the scheduler is prompt, at once when its group changes - unless the change falls
  between the comparison and the hand-over.
\<close>

subsection \<open>The clock\<close>

text \<open>
  The scheduler is prompt: the clock never passes the time of a task, and the request's thread hands over
  without delay.
\<close>

fun prompt :: "digest \<Rightarrow> int \<Rightarrow> poll_event list \<Rightarrow> poll_server \<Rightarrow> bool" where
  "prompt md5 iv [] s = True"
| "prompt md5 iv (e # es) s =
     ((case e of Elapsed n \<Rightarrow> ps_compared s = [] \<and> list_all (\<lambda>(due, _). ps_now s + int n \<le> due) (ps_tasks s) | _ \<Rightarrow> True)
      \<and> prompt md5 iv es (poll_step md5 iv e s))"

text \<open>What the times of the tasks and of the ends of requests are.\<close>

fun task_timely :: "(poll_request \<times> int) list \<Rightarrow> int \<times> poll_task \<Rightarrow> bool" where
  "task_timely rs (due, Park i) = (i < length rs \<and> due = snd (rs ! i))"
| "task_timely rs (due, TimeUp i) = (i < length rs \<and> due \<le> snd (rs ! i) + SERVER_MAX_HOLD_TIMEOUT)"
| "task_timely rs (due, _) = True"

definition timely :: "poll_server \<Rightarrow> bool" where
  "timely s \<longleftrightarrow> (\<forall>(due, tk)\<in>set (ps_tasks s). ps_now s \<le> due \<and> task_timely (ps_requests s) (due, tk))
     \<and> (\<forall>i\<in>set (ps_compared s). i < length (ps_requests s) \<and> snd (ps_requests s ! i) = ps_now s)
     \<and> (\<forall>(i, _, ended)\<in>set (ps_outcomes s). i < length (ps_requests s)
          \<and> ended \<le> snd (ps_requests s ! i) + SERVER_MAX_HOLD_TIMEOUT)"

lemma hold_positive [simp]: "0 \<le> SERVER_MAX_HOLD_TIMEOUT"
  by (simp add: SERVER_MAX_HOLD_TIMEOUT_def)

lemma timely_caches_only: "timely s \<Longrightarrow> caches_only s s' \<Longrightarrow> timely s'"
  by (simp add: timely_def caches_only_def)

lemma task_timely_more: "task_timely rs x \<Longrightarrow> task_timely (rs @ [r]) x"
  by (cases "(rs, x)" rule: task_timely.cases) (simp_all add: nth_append)

lemma timely_schedule:
  "timely s \<Longrightarrow> ps_now s \<le> due \<Longrightarrow> task_timely (ps_requests s) (due, tk) \<Longrightarrow> timely (schedule due tk s)"
  by (simp add: timely_def)

lemma timely_conclude:
  "timely s \<Longrightarrow> i < length (ps_requests s) \<Longrightarrow> ps_now s \<le> snd (ps_requests s ! i) + SERVER_MAX_HOLD_TIMEOUT
    \<Longrightarrow> timely (conclude i r s)"
  by (simp add: timely_def)

lemma timely_clients [simp]: "timely (s\<lparr>ps_clients := cs\<rparr>) = timely s"
  by (simp add: timely_def)

lemma timely_sendResponse:
  assumes "timely s" "i < length (ps_requests s)" "ps_now s \<le> snd (ps_requests s ! i) + SERVER_MAX_HOLD_TIMEOUT"
  shows "timely (sendResponse i gs s)"
proof -
  have "timely (s\<lparr>ps_tasks := filter (\<lambda>(_, tk). tk \<noteq> TimeUp i) (ps_tasks s)\<rparr>)"
    using assms(1) by (auto simp: timely_def)
  then show ?thesis using assms(2,3) by (simp add: sendResponse_def timely_conclude)
qed

lemma timely_poll_compare: "timely s \<Longrightarrow> timely (poll_compare md5 req s)"
proof -
  assume t: "timely s"
  let ?i = "length (ps_requests s)" and ?s = "s\<lparr>ps_requests := ps_requests s @ [(req, ps_now s)]\<rparr>"
  have "timely ?s" using t by (fastforce simp: timely_def nth_append task_timely_more)
  moreover obtain r s' where r: "compareChangedGroup md5 req ?s = (r, s')" by (cases "compareChangedGroup md5 req ?s")
  moreover from r have c: "caches_only ?s s'" using compareChangedGroup_only [of ?s md5 req] by simp
  ultimately have s': "timely s'" by (blast intro: timely_caches_only)
  moreover have i: "?i < length (ps_requests s')" "snd (ps_requests s' ! ?i) = ps_now s'"
    using c by (simp_all add: caches_only_def)
  moreover have "timely (s'\<lparr>ps_compared := ps_compared s' @ [?i]\<rparr>)"
    using s' i by (simp add: timely_def)
  ultimately show ?thesis
    using r by (auto simp: poll_compare_def Let_def intro!: timely_conclude split: sum.split)
qed

lemma timely_poll_enter: "timely s \<Longrightarrow> timely (poll_enter i s)"
proof -
  assume t: "timely s"
  have "timely (s\<lparr>ps_compared := remove1 i (ps_compared s)\<rparr>)"
    using t set_remove1_subset [of i "ps_compared s"] by (auto simp: timely_def)
  then show ?thesis
    using t by (auto simp: poll_enter_def executeTask_def timely_def)
qed

lemma timely_onChanged: "timely s \<Longrightarrow> timely (onChanged md5 ev s)"
  by (auto simp: onChanged_def Let_def executeTask_def intro!: timely_schedule timely_caches_only [OF _ updateCache_only])

lemma timely_waiting:
  assumes "timely s" "TimeUp i \<in> snd ` set (ps_tasks s)"
  shows "i < length (ps_requests s)" "ps_now s \<le> snd (ps_requests s ! i) + SERVER_MAX_HOLD_TIMEOUT"
  using assms by (fastforce simp: timely_def)+

lemma timely_change_task: "timely s \<Longrightarrow> booked s \<Longrightarrow> timely (change_task g s)"
proof -
  have "timely (fold (\<lambda>i s. sendResponse i [g] (s\<lparr>ps_clients := remove1 i (ps_clients s)\<rparr>)) cs s)"
    if "timely s" "booked s" "ps_clients s = cs" for cs s
    using that
  proof (induction cs arbitrary: s)
    case (Cons c cs)
    let ?s = "sendResponse c [g] (s\<lparr>ps_clients := remove1 c (ps_clients s)\<rparr>)"
    have "TimeUp c \<in> snd ` set (ps_tasks s)" using Cons.prems by (simp add: booked_def)
    then have "timely ?s"
      using Cons.prems(1) timely_waiting [of s c] by (intro timely_sendResponse) simp_all
    moreover have "booked ?s" using Cons.prems by (intro booked_answer_client) simp_all
    ultimately show ?case using Cons.IH Cons.prems(3) by simp
  qed simp
  then show "timely s \<Longrightarrow> booked s \<Longrightarrow> ?thesis" by (simp add: change_task_def)
qed

lemma timely_timeout_task:
  assumes "timely s" "i < length (ps_requests s)" "ps_now s \<le> snd (ps_requests s ! i) + SERVER_MAX_HOLD_TIMEOUT"
  shows "timely (timeout_task md5 i s)"
proof -
  let ?s = "s\<lparr>ps_clients := remove1 i (ps_clients s)\<rparr>"
  obtain r s' where r: "compareChangedGroup md5 (request_of s i) ?s = (r, s')"
    by (cases "compareChangedGroup md5 (request_of s i) ?s")
  then have c: "caches_only ?s s'" using compareChangedGroup_only [of ?s md5 "request_of s i"] by simp
  then have "timely s'" using assms(1) by (intro timely_caches_only [of ?s s']) simp_all
  then show ?thesis
    using r c assms(2,3)
    by (auto simp: timeout_task_def caches_only_def intro!: timely_conclude timely_sendResponse split: sum.split)
qed

lemma timely_work:
  assumes "timely s" "booked s" "0 \<le> iv"
  shows "timely (work md5 iv s)"
proof (cases "has_due s")
  case True
  then obtain due tk ts where t: "ps_tasks s = (due, tk) # ts" "due \<le> ps_now s"
    by (cases "ps_tasks s") (auto simp: has_due_def)
  let ?s = "s\<lparr>ps_tasks := ts\<rparr>"
  have p: "timely ?s" and due: "due = ps_now s" "task_timely (ps_requests s) (due, tk)"
    using assms(1) t by (auto simp: timely_def)
  have "timely (run_task md5 iv tk ?s)"
  proof (cases tk)
    case (Park i)
    then show ?thesis using p due by (auto simp: park_task_def Let_def intro!: timely_schedule)
  next
    case (Changed g)
    then have "booked ?s" using booked_popped_other [OF assms(2) t(1)] by simp
    then show ?thesis using p Changed by (simp add: timely_change_task)
  next
    case (TimeUp i)
    then show ?thesis using p due by (simp add: timely_timeout_task)
  next
    case RefreshCaches
    have "timely (refreshLocalCache md5 ?s)" using p refreshLocalCache_only by (rule timely_caches_only)
    then show ?thesis using RefreshCaches assms(3) by (simp add: refresh_task_def Let_def timely_schedule)
  qed
  then show ?thesis using True t by (simp add: work_def)
qed (simp add: work_def assms(1))

lemma timely_step:
  assumes "timely s" "booked s" "0 \<le> iv" "prompt md5 iv (e # es) s"
  shows "timely (poll_step md5 iv e s)"
proof (cases e)
  case (Elapsed n)
  then show ?thesis using assms(1,4) by (fastforce simp: timely_def list_all_iff)
qed (use assms(1-3) in \<open>simp_all add: doLongPolling_def timely_poll_compare timely_poll_enter timely_onChanged timely_work,
  simp add: timely_def\<close>)

lemma timely_run: "timely s \<Longrightarrow> booked s \<Longrightarrow> 0 \<le> iv \<Longrightarrow> prompt md5 iv es s \<Longrightarrow> timely (poll_run md5 iv es s)"
proof (induction es arbitrary: s)
  case (Cons e es)
  have "timely (poll_step md5 iv e s)" using Cons.prems by (rule timely_step)
  moreover have "booked (poll_step md5 iv e s)" using Cons.prems(2) by (simp add: bk.step_kept)
  ultimately show ?case using Cons.IH Cons.prems(3,4) by simp
qed simp

lemma timely_started: "0 \<le> iv \<Longrightarrow> timely (started md5 iv t now)"
  unfolding started_def afterPropertiesSet_def afterInitialize_def
  by (intro timely_schedule timely_caches_only [OF _ refreshLocalCache_only]) (simp_all add: timely_def)

subsection \<open>Waking the clients of a change\<close>

text \<open>How many tasks are due; working one off leaves one less when the refresh interval is positive.\<close>

definition due_tasks :: "poll_server \<Rightarrow> nat" where
  "due_tasks s = length (filter (\<lambda>(due, _). due \<le> ps_now s) (ps_tasks s))"

definition tasks_sorted :: "poll_server \<Rightarrow> bool" where
  "tasks_sorted s \<longleftrightarrow> sorted (map fst (ps_tasks s))"

lemma sorted_insert_due: "sorted (map fst ts) \<Longrightarrow>
    sorted (map fst (takeWhile (\<lambda>(d, _). d \<le> (due::int)) ts @ (due, tk) # dropWhile (\<lambda>(d, _). d \<le> due) ts))"
  by (induction ts) (auto simp: sorted_append dest: set_takeWhileD, fastforce)

lemma tasks_sorted_schedule: "tasks_sorted s \<Longrightarrow> tasks_sorted (schedule due tk s)"
  unfolding tasks_sorted_def by (simp add: schedule_def sorted_insert_due del: map_append)

lemma due_tasks_schedule: "due_tasks (schedule due tk s) = due_tasks s + (if due \<le> ps_now s then 1 else 0)"
proof -
  have "length (filter P (takeWhile Q ts)) + length (filter P (dropWhile Q ts)) = length (filter P ts)"
    for P Q and ts :: "(int \<times> poll_task) list"
    by (metis filter_append length_append takeWhile_dropWhile_id)
  from this [of "\<lambda>(d, _). d \<le> ps_now s" "\<lambda>(d, _). d \<le> due" "ps_tasks s"]
  show ?thesis by (simp add: due_tasks_def schedule_def)
qed

lemma due_tasks_caches_only: "caches_only s s' \<Longrightarrow> due_tasks s' = due_tasks s"
  by (simp add: due_tasks_def caches_only_def)

lemma tasks_sorted_caches_only: "caches_only s s' \<Longrightarrow> tasks_sorted s' = tasks_sorted s"
  by (simp add: tasks_sorted_def caches_only_def)

lemma due_tasks_sendResponse: "due_tasks (sendResponse i gs s) \<le> due_tasks s"
proof -
  have "length (filter P (filter Q ts)) \<le> length (filter P ts)" for P Q and ts :: "(int \<times> poll_task) list"
    by (induction ts) auto
  then show ?thesis by (simp add: due_tasks_def)
qed

lemma tasks_sorted_sendResponse: "tasks_sorted s \<Longrightarrow> tasks_sorted (sendResponse i gs s)"
  by (simp add: tasks_sorted_def sorted_filter)

lemma clients_due [simp]:
  "due_tasks (s\<lparr>ps_clients := cs\<rparr>) = due_tasks s" "tasks_sorted (s\<lparr>ps_clients := cs\<rparr>) = tasks_sorted s"
  by (simp_all add: due_tasks_def tasks_sorted_def)

text \<open>What every task of the scheduler's leaves: its time, no more due tasks, an order, and who has been answered.\<close>

definition worked :: "poll_server \<Rightarrow> poll_server \<Rightarrow> bool" where
  "worked s s' \<longleftrightarrow> ps_now s' = ps_now s \<and> due_tasks s' \<le> due_tasks s \<and> (tasks_sorted s \<longrightarrow> tasks_sorted s')
     \<and> set (ps_outcomes s) \<subseteq> set (ps_outcomes s')
     \<and> (\<forall>i\<in>set (ps_clients s). i \<in> set (ps_clients s') \<or> (\<exists>r. (i, r, ps_now s) \<in> set (ps_outcomes s')))
     \<and> (\<forall>g due. (due, Changed g) \<in> set (ps_tasks s) \<longrightarrow> (due, Changed g) \<in> set (ps_tasks s'))"

lemma worked_refl [simp]: "worked s s"
  by (simp add: worked_def)

lemma worked_trans: "worked s s' \<Longrightarrow> worked s' s'' \<Longrightarrow> worked s s''"
proof -
  assume w: "worked s s'" and w': "worked s' s''"
  have now: "ps_now s' = ps_now s" using w by (simp add: worked_def)
  have "i \<in> set (ps_clients s'') \<or> (\<exists>r. (i, r, ps_now s) \<in> set (ps_outcomes s''))" if i: "i \<in> set (ps_clients s)" for i
  proof (cases "i \<in> set (ps_clients s')")
    case True
    then show ?thesis using w' now unfolding worked_def by metis
  next
    case False
    then obtain r where "(i, r, ps_now s) \<in> set (ps_outcomes s')" using w i unfolding worked_def by blast
    then show ?thesis using w' by (auto simp: worked_def)
  qed
  then show ?thesis using w w' by (simp add: worked_def) (blast intro: order_trans)
qed

lemma worked_schedule: "ps_now s < due \<Longrightarrow> worked s (schedule due tk s)"
  by (auto simp: worked_def due_tasks_schedule tasks_sorted_schedule)

lemma worked_caches_only: "caches_only s s' \<Longrightarrow> worked s s'"
  using due_tasks_caches_only [of s s'] tasks_sorted_caches_only [of s s'] by (simp add: worked_def) (simp add: caches_only_def)

text \<open>Ending the request of client \<open>i\<close> once it is off the queue.\<close>

lemma worked_end:
  assumes "caches_only (s\<lparr>ps_clients := remove1 i (ps_clients s)\<rparr>) s'"
  shows "worked s (conclude i r s')" "worked s (sendResponse i gs s')"
proof -
  have j: "\<forall>j\<in>set (ps_clients s). j \<in> set (remove1 i (ps_clients s)) \<or> j = i" by (meson in_set_remove1)
  have "due_tasks (sendResponse i gs s') \<le> due_tasks s"
    using due_tasks_sendResponse [of i gs s'] due_tasks_caches_only [OF assms] by simp
  moreover have "tasks_sorted s \<Longrightarrow> tasks_sorted (sendResponse i gs s')"
    using tasks_sorted_caches_only [OF assms] by (simp add: tasks_sorted_sendResponse)
  ultimately show "worked s (sendResponse i gs s')"
    using j assms by (auto simp: worked_def caches_only_def)
  show "worked s (conclude i r s')"
    using j assms by (auto simp: worked_def caches_only_def due_tasks_def tasks_sorted_def)
qed

lemma worked_change_task: "worked s (change_task g s)"
proof -
  have "worked s (fold (\<lambda>i s. sendResponse i [g] (s\<lparr>ps_clients := remove1 i (ps_clients s)\<rparr>)) cs s)" for cs s
  proof (induction cs arbitrary: s)
    case (Cons c cs)
    have "worked s (sendResponse c [g] (s\<lparr>ps_clients := remove1 c (ps_clients s)\<rparr>))"
      by (rule worked_end) simp
    then show ?case using Cons.IH by (auto intro: worked_trans)
  qed simp
  then show ?thesis by (simp add: change_task_def)
qed

lemma worked_timeout_task: "worked s (timeout_task md5 i s)"
proof -
  let ?s = "s\<lparr>ps_clients := remove1 i (ps_clients s)\<rparr>"
  obtain r s' where r: "compareChangedGroup md5 (request_of s i) ?s = (r, s')"
    by (cases "compareChangedGroup md5 (request_of s i) ?s")
  then have "caches_only ?s s'" using compareChangedGroup_only [of ?s md5 "request_of s i"] by simp
  then show ?thesis using r worked_end [of i s s'] by (simp add: timeout_task_def split: sum.split)
qed

lemma worked_run_task: "0 < iv \<Longrightarrow> worked s (run_task md5 iv tk s)"
proof (cases tk)
  case (Park i)
  have "worked s (schedule (ps_now s + SERVER_MAX_HOLD_TIMEOUT) (TimeUp i) s)"
    by (rule worked_schedule) (simp add: SERVER_MAX_HOLD_TIMEOUT_def)
  moreover from this have "worked s (schedule (ps_now s + SERVER_MAX_HOLD_TIMEOUT) (TimeUp i) s\<lparr>ps_clients := ps_clients s @ [i]\<rparr>)"
    by (simp add: worked_def)
  ultimately show ?thesis using Park by (simp add: park_task_def Let_def)
next
  case RefreshCaches
  assume "0 < iv"
  then have "worked (refreshLocalCache md5 s) (schedule (ps_now (refreshLocalCache md5 s) + iv) RefreshCaches (refreshLocalCache md5 s))"
    by (intro worked_schedule) simp
  then show ?thesis
    using RefreshCaches worked_caches_only [OF refreshLocalCache_only] by (auto simp: refresh_task_def Let_def intro: worked_trans)
qed (simp_all add: worked_change_task worked_timeout_task)

text \<open>A change answers all the clients in the queue.\<close>

lemma change_task_answers:
  "i \<in> set (ps_clients s) \<Longrightarrow> (i, Inr [g], ps_now s) \<in> set (ps_outcomes (change_task g s))"
proof -
  let ?step = "\<lambda>i s. sendResponse i [g] (s\<lparr>ps_clients := remove1 i (ps_clients s)\<rparr>)"
  have k: "x \<in> set (ps_outcomes (fold ?step cs s))" if "x \<in> set (ps_outcomes s)" for x cs s
    using that by (induction cs arbitrary: s) simp_all
  have "i \<in> set cs \<Longrightarrow> (i, Inr [g], ps_now s) \<in> set (ps_outcomes (fold ?step cs s))" for cs s
  proof (induction cs arbitrary: s)
    case (Cons c cs)
    show ?case
    proof (cases "i = c")
      case True
      then show ?thesis by (simp, intro k) simp
    next
      case False
      then show ?thesis using Cons.prems Cons.IH [of "?step c s"] by simp
    qed
  qed simp
  then show "i \<in> set (ps_clients s) \<Longrightarrow> ?thesis" by (simp add: change_task_def)
qed

lemma tasks_sorted_poll_compare: "tasks_sorted s \<Longrightarrow> tasks_sorted (poll_compare md5 req s)"
proof -
  let ?s = "s\<lparr>ps_requests := ps_requests s @ [(req, ps_now s)]\<rparr>"
  obtain r s' where r: "compareChangedGroup md5 req ?s = (r, s')" by (cases "compareChangedGroup md5 req ?s")
  then have "caches_only ?s s'" using compareChangedGroup_only [of ?s md5 req] by simp
  then show "tasks_sorted s \<Longrightarrow> ?thesis"
    using r by (simp add: poll_compare_def Let_def tasks_sorted_def caches_only_def split: sum.split)
qed

lemma tasks_sorted_poll_enter: "tasks_sorted s \<Longrightarrow> tasks_sorted (poll_enter i s)"
  using tasks_sorted_schedule [of "s\<lparr>ps_compared := remove1 i (ps_compared s)\<rparr>"]
  by (simp add: poll_enter_def executeTask_def) (simp add: tasks_sorted_def)

lemma tasks_sorted_onChanged: "tasks_sorted s \<Longrightarrow> tasks_sorted (onChanged md5 ev s)"
  by (simp add: onChanged_def Let_def executeTask_def tasks_sorted_schedule tasks_sorted_caches_only [OF updateCache_only])

lemma popped_due:
  assumes "tasks_sorted s" "has_due s"
  obtains due tk ts where "ps_tasks s = (due, tk) # ts" "due \<le> ps_now s" "tasks_sorted (s\<lparr>ps_tasks := ts\<rparr>)"
    "due_tasks s = Suc (due_tasks (s\<lparr>ps_tasks := ts\<rparr>))"
  using assms by (cases "ps_tasks s") (auto simp: has_due_def tasks_sorted_def due_tasks_def)

lemma tasks_sorted_work: "tasks_sorted s \<Longrightarrow> 0 < iv \<Longrightarrow> tasks_sorted (work md5 iv s)"
  using worked_run_task by (cases "has_due s") (auto simp: work_def worked_def elim: popped_due)

lemma tasks_sorted_started: "tasks_sorted (started md5 iv t now)"
  unfolding started_def afterPropertiesSet_def afterInitialize_def
  by (intro tasks_sorted_schedule, subst tasks_sorted_caches_only [OF refreshLocalCache_only]) (simp add: tasks_sorted_def)

interpretation so: poll_invariant tasks_sorted "\<lambda>iv. 0 < iv"
  by unfold_locales (simp_all add: tasks_sorted_started tasks_sorted_poll_compare tasks_sorted_poll_enter tasks_sorted_onChanged
      tasks_sorted_work, simp_all add: tasks_sorted_def)

lemma no_due_tasks: "tasks_sorted s \<Longrightarrow> has_due s \<longleftrightarrow> due_tasks s \<noteq> 0"
  by (cases "ps_tasks s") (auto simp: has_due_def tasks_sorted_def due_tasks_def filter_empty_conv)

text \<open>Answered by now, or waiting with the change of \<open>g\<close> among the due tasks.\<close>

definition answered_now :: "poll_server \<Rightarrow> nat \<Rightarrow> bool" where
  "answered_now s i \<longleftrightarrow> (\<exists>r. (i, r, ps_now s) \<in> set (ps_outcomes s))"

definition to_be_woken :: "config_group \<Rightarrow> nat \<Rightarrow> poll_server \<Rightarrow> bool" where
  "to_be_woken g i s \<longleftrightarrow> i \<in> set (ps_clients s) \<and> (\<exists>due\<le>ps_now s. (due, Changed g) \<in> set (ps_tasks s))"

lemma worked_woken:
  "worked s s' \<Longrightarrow> answered_now s i \<or> to_be_woken g i s \<Longrightarrow> answered_now s' i \<or> to_be_woken g i s'"
proof (elim disjE)
  assume w: "worked s s'" and a: "answered_now s i"
  then show ?thesis by (auto simp: worked_def answered_now_def)
next
  assume w: "worked s s'" and a: "to_be_woken g i s"
  then show ?thesis using w unfolding worked_def answered_now_def to_be_woken_def by metis
qed

lemma work_wakes:
  assumes "tasks_sorted s" "0 < iv" "has_due s" "answered_now s i \<or> to_be_woken g i s"
  shows "tasks_sorted (work md5 iv s)" "due_tasks (work md5 iv s) < due_tasks s" "ps_now (work md5 iv s) = ps_now s"
    "answered_now (work md5 iv s) i \<or> to_be_woken g i (work md5 iv s)"
proof -
  obtain due tk ts where t: "ps_tasks s = (due, tk) # ts" "due \<le> ps_now s" "tasks_sorted (s\<lparr>ps_tasks := ts\<rparr>)"
      "due_tasks s = Suc (due_tasks (s\<lparr>ps_tasks := ts\<rparr>))"
    using popped_due [OF assms(1,3)] by blast
  let ?s = "s\<lparr>ps_tasks := ts\<rparr>"
  have w: "work md5 iv s = run_task md5 iv tk ?s" using assms(3) t(1) by (simp add: work_def)
  have k: "worked ?s (work md5 iv s)" unfolding w by (rule worked_run_task [OF assms(2)])
  show "tasks_sorted (work md5 iv s)" "due_tasks (work md5 iv s) < due_tasks s" "ps_now (work md5 iv s) = ps_now s"
    using k t(3,4) by (auto simp: worked_def)
  show "answered_now (work md5 iv s) i \<or> to_be_woken g i (work md5 iv s)"
  proof (cases "to_be_woken g i s \<and> tk = Changed g")
    case True
    then show ?thesis
      using change_task_answers [of i ?s g] \<open>ps_now (work md5 iv s) = ps_now s\<close> w
      by (auto simp: to_be_woken_def answered_now_def)
  next
    case False
    then have "answered_now ?s i \<or> to_be_woken g i ?s"
      using assms(4) t(1) by (auto simp: answered_now_def to_be_woken_def)
    with k show ?thesis by (rule worked_woken)
  qed
qed

lemma works_wake:
  assumes "tasks_sorted s" "0 < iv" "answered_now s i \<or> to_be_woken g i s" "due_tasks s \<le> k"
  shows "answered_now (poll_run md5 iv (replicate k Worked) s) i \<and> ps_now (poll_run md5 iv (replicate k Worked) s) = ps_now s"
  using assms
proof (induction k arbitrary: s)
  case 0
  then have "\<not> to_be_woken g i s" by (auto simp: to_be_woken_def due_tasks_def filter_empty_conv)
  then show ?case using 0 by simp
next
  case (Suc k)
  show ?case
  proof (cases "has_due s")
    case True
    then show ?thesis using work_wakes [OF Suc.prems(1,2) True Suc.prems(3), of md5] Suc.IH [of "work md5 iv s"] Suc.prems(2,4) by simp
  next
    case False
    then have "due_tasks s \<le> k" using no_due_tasks [OF Suc.prems(1)] by simp
    then show ?thesis using False Suc.IH [of s] Suc.prems by (simp add: work_def)
  qed
qed


lemma updateCache_frame [simp]:
  "ps_clients (updateCache md5 g s) = ps_clients s" "ps_now (updateCache md5 g s) = ps_now s"
  "ps_tasks (updateCache md5 g s) = ps_tasks s" "ps_outcomes (updateCache md5 g s) = ps_outcomes s"
  "ps_requests (updateCache md5 g s) = ps_requests s" "ps_compared (updateCache md5 g s) = ps_compared s"
  using updateCache_only [of s md5 g] by (simp_all add: caches_only_def)

lemma booked_unanswered:
  assumes "booked s" "i < length (ps_requests s)" "\<not> answered s i"
  shows "i \<in> set (ps_compared s) \<or> Park i \<in> snd ` set (ps_tasks s) \<or> TimeUp i \<in> snd ` set (ps_tasks s)"
proof -
  have "count_list (map fst (ps_outcomes s)) i = 0" using assms(3) by (simp add: answered_def count_list_0_iff)
  then have "count_list (ps_compared s) i \<noteq> 0 \<or> count_list (map snd (ps_tasks s)) (Park i) \<noteq> 0
      \<or> count_list (map snd (ps_tasks s)) (TimeUp i) \<noteq> 0"
    using booked_places [OF assms(1), of i] assms(2) by (auto simp: places_def)
  then show ?thesis by (simp add: count_list_0_iff)
qed

subsection \<open>Properties of the long poll\<close>

text \<open>
  C10: Whatever the requests, the changes and the schedule, no request is ended twice, none is lost - until it
  is ended it waits to be handed over or is a task - and the clients in the queue are waiting, unanswered,
  with their timeout scheduled.
\<close>

theorem each_request_ends_once:
  "case poll_run md5 iv es (started md5 iv t now) of s \<Rightarrow>
     count_list (map fst (ps_outcomes s)) i \<le> 1
   \<and> (if i < length (ps_requests s) then answered s i \<or> i \<in> set (ps_compared s)
        \<or> Park i \<in> snd ` set (ps_tasks s) \<or> TimeUp i \<in> snd ` set (ps_tasks s) else \<not> answered s i)
   \<and> (if i \<in> set (ps_clients s) then \<not> answered s i \<and> TimeUp i \<in> snd ` set (ps_tasks s) else True)"
proof -
  let ?s = "poll_run md5 iv es (started md5 iv t now)"
  have b: "booked ?s" by (simp add: bk.started_run_kept)
  have p: "places ?s i = (if i < length (ps_requests ?s) then 1 else 0)" using b by (rule booked_places)
  have "count_list (map fst (ps_outcomes ?s)) i \<le> 1" using p by (simp add: places_def split: if_splits)
  moreover have "if i < length (ps_requests ?s) then answered ?s i \<or> i \<in> set (ps_compared ?s)
      \<or> Park i \<in> snd ` set (ps_tasks ?s) \<or> TimeUp i \<in> snd ` set (ps_tasks ?s) else \<not> answered ?s i"
    using p booked_unanswered [OF b, of i] by (auto simp: places_def answered_def count_list_0_iff split: if_splits)
  moreover have "if i \<in> set (ps_clients ?s) then \<not> answered ?s i \<and> TimeUp i \<in> snd ` set (ps_tasks ?s) else True"
    using booked_waiting(2) [OF b, of i] b by (simp add: booked_def)
  ultimately show ?thesis by simp
qed

text \<open>
  C9: With a prompt scheduler and clock, every request that has been ended was ended within the hold timeout
  of its arrival, and one that is still unanswered arrived no longer ago than that - however full the queue
  is and whatever ran in between.
\<close>

theorem requests_end_within_the_hold:
  assumes "0 \<le> iv" "prompt md5 iv es (started md5 iv t now)"
  shows "case poll_run md5 iv es (started md5 iv t now) of s \<Rightarrow>
       list_all (\<lambda>(i, _, ended). ended \<le> snd (ps_requests s ! i) + SERVER_MAX_HOLD_TIMEOUT) (ps_outcomes s)
     \<and> list_all (\<lambda>i. answered s i \<or> ps_now s \<le> snd (ps_requests s ! i) + SERVER_MAX_HOLD_TIMEOUT) [0..<length (ps_requests s)]"
proof -
  let ?s = "poll_run md5 iv es (started md5 iv t now)"
  have t: "timely ?s" using timely_started [OF assms(1)] booked_started assms by (rule timely_run)
  have b: "booked ?s" by (simp add: bk.started_run_kept)
  have w: "ps_now ?s \<le> snd (ps_requests ?s ! i) + SERVER_MAX_HOLD_TIMEOUT"
    if i: "i < length (ps_requests ?s)" "\<not> answered ?s i" for i
  proof -
    show ?thesis
      using booked_unanswered [OF b i]
    proof (elim disjE)
      assume "i \<in> set (ps_compared ?s)"
      then show ?thesis using t by (simp add: timely_def)
    next
      assume "Park i \<in> snd ` set (ps_tasks ?s)"
      then have "ps_now ?s \<le> snd (ps_requests ?s ! i)" using t by (fastforce simp: timely_def)
      then show ?thesis using hold_positive by linarith
    next
      assume "TimeUp i \<in> snd ` set (ps_tasks ?s)"
      then show ?thesis using timely_waiting [OF t] by simp
    qed
  qed
  have "answered ?s i \<or> ps_now ?s \<le> snd (ps_requests ?s ! i) + SERVER_MAX_HOLD_TIMEOUT" if "i < length (ps_requests ?s)" for i
    using w [OF that] by (cases "answered ?s i") simp_all
  moreover have "\<forall>(i, _, ended)\<in>set (ps_outcomes ?s). ended \<le> snd (ps_requests ?s ! i) + SERVER_MAX_HOLD_TIMEOUT"
    using t by (auto simp: timely_def)
  ultimately show ?thesis by (simp add: list_all_iff)
qed

text \<open>
  C11: A published change of rows answers, at the very time it is published, every client that is in the queue:
  when the scheduler has worked off the tasks that are due and the change's own.
\<close>

theorem change_answers_waiting:
  assumes "0 < iv" "i \<in> set (ps_clients s)" "\<not> rows_empty (event_rows ev)"
    "s = poll_run md5 iv es (started md5 iv t now)"
  shows "case poll_run md5 iv (Announced ev # replicate (Suc (due_tasks s)) Worked) s of s' \<Rightarrow>
     ps_now s' = ps_now s \<and> answered_now s' i"
proof -
  let ?g = "rows_group (event_rows ev)" and ?s = "onChanged md5 ev s"
  have o: "?s = schedule (ps_now s) (Changed ?g) (updateCache md5 ?g s)"
    using assms(3) by (simp add: onChanged_def Let_def executeTask_def)
  have "tasks_sorted s" unfolding assms(4) using assms(1) by (rule so.started_run_kept)
  then have so: "tasks_sorted ?s" by (rule tasks_sorted_onChanged)
  have du: "due_tasks ?s \<le> Suc (due_tasks s)"
    by (simp add: o due_tasks_schedule due_tasks_caches_only [OF updateCache_only])
  have wo: "answered_now ?s i \<or> to_be_woken ?g i ?s" using assms(2) by (auto simp: o to_be_woken_def)
  have "ps_now ?s = ps_now s" by (simp add: o)
  then show ?thesis using works_wake [OF so assms(1) wo du, of md5] by simp
qed

text \<open>
  The change that is missed. A request's comparison finds nothing new; the tables change and the change is
  published and worked off; then the request is handed over. It is queued and unanswered although the
  cache it was compared with already holds the new rows: nothing is due any more, and only its timeout (or
  another change) will end it.
\<close>

theorem change_before_queueing_is_missed:
  assumes "compareChangedGroup md5 req (s\<lparr>ps_requests := ps_requests s @ [(req, ps_now s)]\<rparr>) = (Inr [], s1)"
    "ps_clients s = []" "ps_compared s = []" "ps_tasks s = [(due, RefreshCaches)]" "ps_now s < due"
    "\<not> rows_empty (event_rows ev)"
  shows "case poll_run md5 iv [Compared req, Stored t, Announced ev, Worked, Entered (length (ps_requests s)), Worked] s of s' \<Rightarrow>
     ps_clients s' = [length (ps_requests s)] \<and> ps_outcomes s' = ps_outcomes s \<and> \<not> has_due s'
   \<and> set (ps_tasks s') = {(due, RefreshCaches), (ps_now s' + SERVER_MAX_HOLD_TIMEOUT, TimeUp (length (ps_requests s)))}
   \<and> map_option cdc_rows (ps_CACHE s' (rows_group (event_rows ev))) = Some (group_rows (rows_group (event_rows ev)) t)"
proof -
  let ?i = "length (ps_requests s)" and ?g = "rows_group (event_rows ev)"
  have "caches_only (s\<lparr>ps_requests := ps_requests s @ [(req, ps_now s)]\<rparr>) s1"
    using compareChangedGroup_only [of "s\<lparr>ps_requests := ps_requests s @ [(req, ps_now s)]\<rparr>" md5 req] assms(1) by simp
  then have s1: "ps_clients s1 = []" "ps_compared s1 = []" "ps_tasks s1 = [(due, RefreshCaches)]" "ps_now s1 = ps_now s"
      "ps_outcomes s1 = ps_outcomes s"
    using assms(2-4) by (simp_all add: caches_only_def)
  define s3 where "s3 = s1\<lparr>ps_compared := [?i], ps_db := t\<rparr>"
  have s3: "ps_tasks s3 = [(due, RefreshCaches)]" "ps_now s3 = ps_now s" using s1 by (simp_all add: s3_def)
  define s4 where "s4 = updateCache md5 ?g s3"
  have s4: "ps_clients s4 = []" "ps_compared s4 = [?i]" "ps_tasks s4 = [(due, RefreshCaches)]" "ps_now s4 = ps_now s"
      "ps_outcomes s4 = ps_outcomes s"
      "map_option cdc_rows (ps_CACHE s4 ?g) = Some (group_rows ?g t)"
    using s1 by (simp_all add: s4_def s3_def) (simp add: updateCache_def Let_def)
  have "poll_run md5 iv [Compared req, Stored t, Announced ev, Worked, Entered ?i, Worked] s
      = poll_run md5 iv [Worked, Entered ?i, Worked] (s4\<lparr>ps_tasks := [(ps_now s, Changed ?g), (due, RefreshCaches)]\<rparr>)"
    using assms(1,5,6) s1 s3 s4 by (simp add: poll_compare_def Let_def onChanged_def executeTask_def schedule_def s3_def [symmetric] s4_def [symmetric])
  also have "\<dots> = poll_run md5 iv [Worked] (s4\<lparr>ps_tasks := [(ps_now s, Park ?i), (due, RefreshCaches)], ps_compared := []\<rparr>)"
    using assms(5) s4 by (simp add: work_def has_due_def change_task_def poll_enter_def executeTask_def schedule_def)
  also have "\<dots> = park_task ?i (s4\<lparr>ps_tasks := [(due, RefreshCaches)], ps_compared := []\<rparr>)"
    using s4 by (cases s4) (simp add: work_def has_due_def)
  finally have "poll_run md5 iv [Compared req, Stored t, Announced ev, Worked, Entered ?i, Worked] s
      = park_task ?i (s4\<lparr>ps_tasks := [(due, RefreshCaches)], ps_compared := []\<rparr>)" .
  then show ?thesis
    using assms(5) s4 by (auto simp: park_task_def Let_def clients_capacity_def schedule_def has_due_def SERVER_MAX_HOLD_TIMEOUT_def)
qed

subsection \<open>Samples\<close>

definition no_tables :: tables where
  "no_tables = \<lparr>tb_plugins = [], tb_selectors = [], tb_selector_conditions = [], tb_rules = [], tb_rule_conditions = [],
     tb_metas = [], tb_auths = [], tb_auth_params = [], tb_auth_paths = []\<rparr>"

definition one_key :: tables where
  "one_key = no_tables\<lparr>tb_auths := [\<lparr>ado_id = ''1'', ado_appKey = ''k'', ado_appSecret = ''s'', ado_enabled = True,
     ado_userId = None, ado_phone = None, ado_extInfo = None\<rparr>]\<rparr>"

definition sample_digest :: digest where
  "sample_digest rows = (if rows_empty rows then ''none'' else ''some'')"

definition sample_poll :: poll_request where
  "sample_poll g = Some ''none,1''"

definition sample_change :: data_event where
  "sample_change = DataChangedEvent EV_CREATE (AuthRows (auth_listAll one_key))"

lemmas sample_defs = no_tables_def one_key_def sample_digest_def sample_poll_def sample_change_def


abbreviation sample_server :: "poll_event list \<Rightarrow> poll_server" where
  "sample_server es \<equiv> poll_run sample_digest 300000 es (started sample_digest 300000 no_tables 0)"

theorem requests_end_within_the_hold_witness:
  "case sample_server [Polled sample_poll, Worked, Elapsed 5, Stored one_key, Announced sample_change, Worked] of s \<Rightarrow>
     ps_outcomes s = [(0, Inr [G_APP_AUTH], 5)]
   \<and> list_all (\<lambda>(i, _, ended). ended \<le> snd (ps_requests s ! i) + SERVER_MAX_HOLD_TIMEOUT) (ps_outcomes s)
   \<and> list_all (\<lambda>i. answered s i \<or> ps_now s \<le> snd (ps_requests s ! i) + SERVER_MAX_HOLD_TIMEOUT) [0..<length (ps_requests s)]"
proof -
  have "prompt sample_digest 300000 [Polled sample_poll, Worked, Elapsed 5, Stored one_key, Announced sample_change, Worked] (started sample_digest 300000 no_tables 0)"
    by code_simp
  moreover have "ps_outcomes (sample_server [Polled sample_poll, Worked, Elapsed 5, Stored one_key, Announced sample_change, Worked]) = [(0, Inr [G_APP_AUTH], 5)]"
    by code_simp
  ultimately show ?thesis
    using requests_end_within_the_hold [of 300000 sample_digest "[Polled sample_poll, Worked, Elapsed 5, Stored one_key, Announced sample_change, Worked]" no_tables 0]
    by simp
qed

theorem change_answers_waiting_witness:
  "case sample_server [Polled sample_poll, Worked, Stored one_key] of s \<Rightarrow>
     case poll_run sample_digest 300000 (Announced sample_change # replicate (Suc (due_tasks s)) Worked) s of s' \<Rightarrow>
     ps_now s' = ps_now s \<and> answered_now s' 0"
proof -
  have "0 \<in> set (ps_clients (sample_server [Polled sample_poll, Worked, Stored one_key]))" by code_simp
  moreover have "\<not> rows_empty (event_rows sample_change)" by code_simp
  ultimately show ?thesis
    using change_answers_waiting [of 300000 0 "sample_server [Polled sample_poll, Worked, Stored one_key]" sample_change
        sample_digest "[Polled sample_poll, Worked, Stored one_key]" no_tables 0] by (simp del: poll_run_simps)
qed

theorem change_before_queueing_is_missed_witness:
  "case poll_run sample_digest 300000 [Compared sample_poll, Stored one_key, Announced sample_change, Worked, Entered 0, Worked]
       (started sample_digest 300000 no_tables 0) of s' \<Rightarrow>
     ps_clients s' = [0] \<and> ps_outcomes s' = [] \<and> \<not> has_due s'
   \<and> map_option cdc_md5 (ps_CACHE s' G_APP_AUTH) = Some ''some'' \<and> sample_poll G_APP_AUTH = Some ''none,1''"
proof -
  have "fst (compareChangedGroup sample_digest sample_poll (started sample_digest 300000 no_tables 0\<lparr>ps_requests := [(sample_poll, 0)]\<rparr>)) = Inr []"
    by code_simp
  then obtain s1 where "compareChangedGroup sample_digest sample_poll (started sample_digest 300000 no_tables 0\<lparr>ps_requests := [(sample_poll, 0)]\<rparr>)
      = (Inr [], s1)"
    by (metis prod.collapse)
  moreover have "ps_clients (started sample_digest 300000 no_tables 0) = []" "ps_compared (started sample_digest 300000 no_tables 0) = []"
    "ps_tasks (started sample_digest 300000 no_tables 0) = [(300000, RefreshCaches)]" "ps_now (started sample_digest 300000 no_tables 0) = 0"
    "ps_requests (started sample_digest 300000 no_tables 0) = []" "ps_outcomes (started sample_digest 300000 no_tables 0) = []"
    "\<not> rows_empty (event_rows sample_change)"
    by code_simp+
  moreover have "map_option cdc_md5 (ps_CACHE (poll_run sample_digest 300000 [Compared sample_poll, Stored one_key, Announced sample_change,
      Worked, Entered 0, Worked] (started sample_digest 300000 no_tables 0)) G_APP_AUTH) = Some ''some''"
    by code_simp
  ultimately show ?thesis
    using change_before_queueing_is_missed [of sample_digest sample_poll "started sample_digest 300000 no_tables 0" s1 300000 sample_change
        300000 one_key] by (simp add: sample_poll_def)
qed

end
