(* ===== verification/HttpRounds.thy ===== *)
theory HttpRounds
  imports HttpSync HttpWaiting GatewayInStep
begin

text \<open>
  Rounds of synchronisation over http: the gateway's \<open>HttpSyncDataService\<close> against the admin's caches. The first
  fetch and every later poll bring the gateway's caches up to the admin's tables, if the admin's caches
  are younger; what happens when they are not, and what is lost on the way.
\<close>

subsection \<open>One round of refreshing\<close>

text \<open>
  The gateway is consistent: of every group it has taken over, its caches hold the rows and its entry the
  digest. An admin answers for tables \<open>t\<close> when each of its caches has been filled from them.
\<close>

definition consistent :: "digest \<Rightarrow> 'h http_gateway \<Rightarrow> bool" where
  "consistent md5 h \<longleftrightarrow> (\<forall>g d. hg_GROUP_CACHE h g = Some d \<longrightarrow> gd_md5 d = md5 (gd_data d)
     \<and> (\<exists>t. gd_data d = group_rows g t \<and> part_follows g t (ss_cache (gw_sub (hg_gateway h)))))"

definition answers_for :: "digest \<Rightarrow> tables \<Rightarrow> fetched \<Rightarrow> bool" where
  "answers_for md5 t data \<longleftrightarrow> (\<forall>g d. data g = Some d \<longrightarrow> gd_data d = group_rows g t \<and> gd_md5 d = md5 (group_rows g t))"

text \<open>An entry is taken over exactly when it is the first, or differs and is younger.\<close>

definition taken :: "fetched \<Rightarrow> fetched \<Rightarrow> config_group \<Rightarrow> bool" where
  "taken data c g \<longleftrightarrow> (case data g of None \<Rightarrow> False | Some new \<Rightarrow>
     (case c g of None \<Rightarrow> True | Some old \<Rightarrow> gd_md5 old \<noteq> gd_md5 new \<and> gd_lastModifyTime old < gd_lastModifyTime new))"

lemma taken_cong: "c g = c' g \<Longrightarrow> taken data c g = taken data c' g"
  by (simp add: taken_def cong: option.case_cong)

lemma data_refresh_effect:
  assumes q: "quiet hm" and ok: "tables_ok t" and a: "answers_for md5 t data" and c: "consistent md5 h"
  shows "fst (data_refresh hm data g h) = Inr (taken data (hg_GROUP_CACHE h) g)"
    and "hg_GROUP_CACHE (snd (data_refresh hm data g h)) = (hg_GROUP_CACHE h)(g := if taken data (hg_GROUP_CACHE h) g then data g else hg_GROUP_CACHE h g)"
    and "consistent md5 (snd (data_refresh hm data g h))"
proof -
  have upd: "fst (data_refresh hm data g h) = Inr True
      \<and> snd (data_refresh hm data g h) = \<lparr>hg_gateway = fst (group_refresh hm (group_rows g t) (hg_gateway h)), hg_GROUP_CACHE = (hg_GROUP_CACHE h)(g := data g)\<rparr>"
    if "taken data (hg_GROUP_CACHE h) g"
    using that a group_refresh_effect [OF q ok, of g "hg_gateway h"]
    by (auto simp: data_refresh_def taken_def updateCacheIfNeed_def answers_for_def split: option.splits prod.splits)
  have kept: "data_refresh hm data g h = (Inr False, h)" if "\<not> taken data (hg_GROUP_CACHE h) g"
    using that by (auto simp: data_refresh_def taken_def updateCacheIfNeed_def split: option.splits)
  show "fst (data_refresh hm data g h) = Inr (taken data (hg_GROUP_CACHE h) g)"
    and "hg_GROUP_CACHE (snd (data_refresh hm data g h)) = (hg_GROUP_CACHE h)(g := if taken data (hg_GROUP_CACHE h) g then data g else hg_GROUP_CACHE h g)"
    using upd kept by (cases "taken data (hg_GROUP_CACHE h) g"; simp)+
  show "consistent md5 (snd (data_refresh hm data g h))"
  proof (cases "taken data (hg_GROUP_CACHE h) g")
    case True
    let ?c = "ss_cache (gw_sub (hg_gateway h))"
    have r: "ss_cache (gw_sub (hg_gateway (snd (data_refresh hm data g h)))) = refreshed g t ?c"
      using upd [OF True] group_refresh_effect [OF q ok, of g "hg_gateway h"] by simp
    show ?thesis
      unfolding consistent_def r
    proof (intro allI impI)
      fix g' d
      assume d: "hg_GROUP_CACHE (snd (data_refresh hm data g h)) g' = Some d"
      show "gd_md5 d = md5 (gd_data d) \<and> (\<exists>t'. gd_data d = group_rows g' t' \<and> part_follows g' t' (refreshed g t ?c))"
      proof (cases "g' = g")
        case True
        then have "data g = Some d" using d upd \<open>taken data (hg_GROUP_CACHE h) g\<close> by simp
        then show ?thesis using a True refreshed_follows [OF ok] by (auto simp: answers_for_def)
      next
        case False
        then have "hg_GROUP_CACHE h g' = Some d" using d upd True by simp
        then show ?thesis using c refreshed_others [OF False] by (simp add: consistent_def)
      qed
    qed
  qed (simp add: kept c)
qed

lemma refresh_groups_effect:
  assumes q: "quiet hm" and ok: "tables_ok t" and a: "answers_for md5 t data" and c: "consistent md5 h" and d: "distinct ord"
  shows "fst (refresh_groups hm data ord success h) = Inr (if ord = [] then success else taken data (hg_GROUP_CACHE h) (last ord))
    \<and> hg_GROUP_CACHE (snd (refresh_groups hm data ord success h))
        = (\<lambda>g. if g \<in> set ord \<and> taken data (hg_GROUP_CACHE h) g then data g else hg_GROUP_CACHE h g)
    \<and> consistent md5 (snd (refresh_groups hm data ord success h))"
  using c d
proof (induction ord arbitrary: h success)
  case (Cons g gs)
  note e = data_refresh_effect [OF q ok a Cons.prems(1), of g]
  obtain r h' where r: "data_refresh hm data g h = (r, h')" by (cases "data_refresh hm data g h")
  have h': "r = Inr (taken data (hg_GROUP_CACHE h) g)" "consistent md5 h'"
      "hg_GROUP_CACHE h' = (hg_GROUP_CACHE h)(g := if taken data (hg_GROUP_CACHE h) g then data g else hg_GROUP_CACHE h g)"
    using e unfolding r by simp_all
  have same: "taken data (hg_GROUP_CACHE h') g' = taken data (hg_GROUP_CACHE h) g'" if "g' \<noteq> g" for g'
    by (rule taken_cong) (simp add: h'(3) that)
  let ?u = "taken data (hg_GROUP_CACHE h) g"
  have ih: "fst (refresh_groups hm data gs ?u h') = Inr (if gs = [] then ?u else taken data (hg_GROUP_CACHE h') (last gs))"
    "hg_GROUP_CACHE (snd (refresh_groups hm data gs ?u h'))
       = (\<lambda>x. if x \<in> set gs \<and> taken data (hg_GROUP_CACHE h') x then data x else hg_GROUP_CACHE h' x)"
    "consistent md5 (snd (refresh_groups hm data gs ?u h'))"
    using Cons.IH [OF h'(2), of ?u] Cons.prems(2) by simp_all
  have "gs \<noteq> [] \<Longrightarrow> last gs \<noteq> g" using Cons.prems(2) by (metis distinct.simps(2) last_in_set)
  then have "fst (refresh_groups hm data gs ?u h') = Inr (taken data (hg_GROUP_CACHE h) (last (g # gs)))"
    using same by (simp add: ih(1))
  moreover have "hg_GROUP_CACHE (snd (refresh_groups hm data gs ?u h')) x
      = (if x \<in> set (g # gs) \<and> taken data (hg_GROUP_CACHE h) x then data x else hg_GROUP_CACHE h x)" for x
    using Cons.prems(2) same [of x] by (cases "x = g") (simp_all add: ih(2) h'(3))
  ultimately show ?case using ih(3) by (simp add: r h'(1) fun_eq_iff)
qed simp

lemma all_groups: "g \<in> set config_group_values"
  by (cases g) (simp_all add: config_group_values_def)

lemma executor_effect:
  assumes "quiet hm" "tables_ok t" "answers_for md5 t data" "consistent md5 h" "distinct ord" "set ord = set config_group_values"
  shows "fst (refresh_executor hm ord data h) = Inr (taken data (hg_GROUP_CACHE h) (last ord))"
    and "hg_GROUP_CACHE (snd (refresh_executor hm ord data h))
        = (\<lambda>g. if taken data (hg_GROUP_CACHE h) g then data g else hg_GROUP_CACHE h g)"
    and "consistent md5 (snd (refresh_executor hm ord data h))"
proof -
  have all: "g \<in> set ord" for g unfolding assms(6) by (rule all_groups)
  then have "ord \<noteq> []" by (metis empty_iff list.set(1))
  then show "fst (refresh_executor hm ord data h) = Inr (taken data (hg_GROUP_CACHE h) (last ord))"
    "hg_GROUP_CACHE (snd (refresh_executor hm ord data h))
        = (\<lambda>g. if taken data (hg_GROUP_CACHE h) g then data g else hg_GROUP_CACHE h g)"
    "consistent md5 (snd (refresh_executor hm ord data h))"
    using refresh_groups_effect [OF assms(1-5), of False] all by (simp_all add: refresh_executor_def)
qed

text \<open>Once the entries of all groups are those of \<open>t\<close>, the caches follow \<open>t\<close>.\<close>

lemma consistent_follows:
  assumes "consistent md5 h"
    and "\<And>g. \<exists>d. hg_GROUP_CACHE h g = Some d \<and> gd_data d = group_rows g t"
  shows "follows t (ss_cache (gw_sub (hg_gateway h)))"
proof -
  have "part_follows g t (ss_cache (gw_sub (hg_gateway h)))" for g
  proof -
    obtain d where d: "hg_GROUP_CACHE h g = Some d" "gd_data d = group_rows g t" using assms(2) by blast
    then obtain t' where "gd_data d = group_rows g t'" "part_follows g t' (ss_cache (gw_sub (hg_gateway h)))"
      using assms(1) unfolding consistent_def by blast
    then show ?thesis using d(2) part_follows_rows by metis
  qed
  then show ?thesis using follows_parts by blast
qed

subsection \<open>The admin's side of a round\<close>

definition caches_filled :: "digest \<Rightarrow> tables \<Rightarrow> poll_server \<Rightarrow> bool" where
  "caches_filled md5 t s \<longleftrightarrow> (\<forall>g. \<exists>c. ps_CACHE s g = Some c \<and> cdc_rows c = group_rows g t \<and> cdc_md5 c = md5 (group_rows g t))"

lemma fetch_groups_all:
  "caches_filled md5 t s \<Longrightarrow>
     fetch_groups s gs r = Inr (\<lambda>g. if g \<in> set gs then map_option config_data_of (ps_CACHE s g) else r g)"
proof (induction gs arbitrary: r)
  case (Cons g gs)
  obtain c where "ps_CACHE s g = Some c" using Cons.prems by (meson caches_filled_def)
  then show ?case using Cons by (auto simp: fetchConfig_def deref_def fun_eq_iff)
qed (simp add: fun_eq_iff)

lemma fetchConfigs_all:
  assumes "caches_filled md5 t s"
  shows "fetchConfigs s gs = Inr (\<lambda>g. if g \<in> set gs then map_option config_data_of (ps_CACHE s g) else None)"
    and "answers_for md5 t (\<lambda>g. if g \<in> set gs then map_option config_data_of (ps_CACHE s g) else None)"
proof -
  show "fetchConfigs s gs = Inr (\<lambda>g. if g \<in> set gs then map_option config_data_of (ps_CACHE s g) else None)"
    by (simp add: fetchConfigs_def fetch_groups_all [OF assms])
  have "cdc_rows c = group_rows g t \<and> cdc_md5 c = md5 (group_rows g t)" if "ps_CACHE s g = Some c" for g c
    using assms that unfolding caches_filled_def by (metis option.inject)
  then show "answers_for md5 t (\<lambda>g. if g \<in> set gs then map_option config_data_of (ps_CACHE s g) else None)"
    by (auto simp: answers_for_def config_data_of_def)
qed

lemma refreshLocalCache_fills: "caches_filled md5 (ps_db s) (refreshLocalCache md5 s)"
proof -
  have "ps_db (updateCache md5 g s) = ps_db s" for g s by (simp add: updateCache_def Let_def)
  then show ?thesis
    unfolding caches_filled_def refreshLocalCache_def
    by (intro allI, case_tac g) (simp_all add: updateCache_def Let_def)
qed

text \<open>The digest is hexadecimal: not empty, and without a comma.\<close>

definition proper_digest :: "digest \<Rightarrow> bool" where
  "proper_digest md5 \<longleftrightarrow> (\<forall>rows. md5 rows \<noteq> [] \<and> CHR '','' \<notin> set (md5 rows))"

lemma show_int_part: "CHR '','' \<notin> set (show_int i)" "show_int i \<noteq> []"
proof -
  have "CHR '','' \<notin> set (show_nat n)" for n
    using show_nat_digits [of n] by (auto simp: list_all_iff is_digit_def)
  then show "CHR '','' \<notin> set (show_int i)" "show_int i \<noteq> []"
    using show_nat_digits by (auto simp: show_int_def)
qed

text \<open>What a comparison sends back for parameters made of entries: the groups whose digest is another one.\<close>

definition differing :: "fetched \<Rightarrow> poll_server \<Rightarrow> config_group \<Rightarrow> bool" where
  "differing c s g \<longleftrightarrow> map_option gd_md5 (c g) \<noteq> map_option cdc_md5 (ps_CACHE s g)"

definition entries_comparable :: "fetched \<Rightarrow> poll_server \<Rightarrow> bool" where
  "entries_comparable c s \<longleftrightarrow> (\<forall>g. \<exists>d e. c g = Some d \<and> ps_CACHE s g = Some e \<and> gd_md5 d \<noteq> [] \<and> CHR '','' \<notin> set (gd_md5 d)
     \<and> in_int64 (gd_lastModifyTime d) \<and> (gd_md5 d = cdc_md5 e \<or> gd_lastModifyTime d \<le> cdc_lastModifyTime e))"

lemma compare_entries:
  assumes "entries_comparable (hg_GROUP_CACHE h) s" "poll_params h = Inr req"
  shows "compareChangedGroup md5 req s = (Inr (filter (differing (hg_GROUP_CACHE h) s) config_group_values), s)"
proof -
  have "compare_groups md5 req gs s = (Inr (filter (differing (hg_GROUP_CACHE h) s) gs), s)" for gs
  proof (induction gs)
    case (Cons g gs)
    obtain d e where d: "hg_GROUP_CACHE h g = Some d" "ps_CACHE s g = Some e" "gd_md5 d \<noteq> []" "CHR '','' \<notin> set (gd_md5 d)"
      "in_int64 (gd_lastModifyTime d)" "gd_md5 d = cdc_md5 e \<or> gd_lastModifyTime d \<le> cdc_lastModifyTime e"
      using assms(1) unfolding entries_comparable_def by meson
    have r: "req g = Some (gd_md5 d @ CHR '','' # show_int (gd_lastModifyTime d))"
      using assms(2) d(1) by (auto simp: poll_params_def cacheConfigData_def split: if_splits)
    have sp: "split_parts CHR '','' (gd_md5 d @ CHR '','' # show_int (gd_lastModifyTime d)) = [gd_md5 d, show_int (gd_lastModifyTime d)]"
      using d(3,4) show_int_part by (simp add: split_parts_def split_on_append split_on_atom)
    have "toLong (show_int (gd_lastModifyTime d)) = gd_lastModifyTime d"
      by (simp add: toLong_def parse_long_show_int [OF d(5)])
    then have "checkCacheDelayAndUpdate md5 Locked g e (gd_md5 d) (toLong (show_int (gd_lastModifyTime d))) s = (Inr (gd_md5 d \<noteq> cdc_md5 e), s)"
      using d(6) by (auto simp: checkCacheDelayAndUpdate_def)
    then show ?case by (simp add: r sp d(1,2) Cons.IH differing_def)
  qed simp
  then show ?thesis by (simp add: compareChangedGroup_def)
qed

lemma poll_params_total: "(\<And>g. hg_GROUP_CACHE h g \<noteq> None) \<Longrightarrow> \<exists>req. poll_params h = Inr req"
  by (simp add: poll_params_def cacheConfigData_def list_all_iff)

text \<open>
  The listener's answer to a request: the groups of the comparison, none of them when the request is held
  until its timeout.
\<close>

definition listen_at :: "digest \<Rightarrow> poll_server \<Rightarrow> poll_request \<Rightarrow> config_group list option jres" where
  "listen_at md5 s req = bindr (fst (compareChangedGroup md5 req s)) (\<lambda>gs. Inr (Some gs))"

text \<open>A poll whose entries are comparable, and what is fetched after it.\<close>

definition fetched_changes :: "fetched \<Rightarrow> poll_server \<Rightarrow> fetched" where
  "fetched_changes c s g = (if differing c s g then map_option config_data_of (ps_CACHE s g) else None)"

lemma client_poll:
  assumes "entries_comparable (hg_GROUP_CACHE h) s" "caches_filled md5 t s"
  defines "changed \<equiv> filter (differing (hg_GROUP_CACHE h) s) config_group_values"
  defines "data \<equiv> fetched_changes (hg_GROUP_CACHE h) s"
  shows "client_doLongPolling hm ord (listen_at md5 s) (fetchConfigs s) h
    = (if changed = [] then (Inr None, h)
       else case refresh_executor hm ord data h of (r, h') \<Rightarrow> (bindr r (\<lambda>u. Inr (Some u)), h'))"
proof -
  have "hg_GROUP_CACHE h g \<noteq> None" for g using assms(1) by (auto simp: entries_comparable_def)
  then obtain req where "poll_params h = Inr req" using poll_params_total by blast
  moreover from this have "listen_at md5 s req = Inr (Some changed)"
    by (simp add: listen_at_def compare_entries [OF assms(1)] changed_def)
  moreover have "fetchConfigs s changed = Inr data" 
    by (simp add: data_def fetched_changes_def [abs_def] fetchConfigs_all(1) [OF assms(2)] changed_def all_groups)
  ultimately show ?thesis
    by (cases changed) (simp_all add: client_doLongPolling_def doFetchGroupConfig_def)
qed

subsection \<open>Properties of the synchronisation over http\<close>


text \<open>The gateway's entries against the admin's: of equal digest and equal rows, or older.\<close>

definition older_or_same :: "fetched \<Rightarrow> poll_server \<Rightarrow> bool" where
  "older_or_same c s \<longleftrightarrow> (\<forall>g. \<exists>d e. c g = Some d \<and> ps_CACHE s g = Some e
     \<and> in_int64 (gd_lastModifyTime d) \<and> in_int64 (cdc_lastModifyTime e)
     \<and> (if gd_md5 d = cdc_md5 e then gd_data d = cdc_rows e else gd_lastModifyTime d < cdc_lastModifyTime e))"

lemma older_or_same_comparable:
  assumes "older_or_same (hg_GROUP_CACHE h) s" "consistent md5 h" "proper_digest md5"
  shows "entries_comparable (hg_GROUP_CACHE h) s"
  unfolding entries_comparable_def
proof
  fix g
  obtain d e where d: "hg_GROUP_CACHE h g = Some d" "ps_CACHE s g = Some e" "in_int64 (gd_lastModifyTime d)"
    "if gd_md5 d = cdc_md5 e then gd_data d = cdc_rows e else gd_lastModifyTime d < cdc_lastModifyTime e"
    using assms(1) unfolding older_or_same_def by blast
  then have "gd_md5 d = md5 (gd_data d)" using assms(2) by (simp add: consistent_def)
  then show "\<exists>d e. hg_GROUP_CACHE h g = Some d \<and> ps_CACHE s g = Some e \<and> gd_md5 d \<noteq> [] \<and> CHR '','' \<notin> set (gd_md5 d)
      \<and> in_int64 (gd_lastModifyTime d) \<and> (gd_md5 d = cdc_md5 e \<or> gd_lastModifyTime d \<le> cdc_lastModifyTime e)"
    using d assms(3) by (auto simp: proper_digest_def split: if_splits)
qed

text \<open>Up to date with the admin's caches for \<open>t\<close>: what taking over all the changes leads to.\<close>

definition up_to_date :: "tables \<Rightarrow> fetched \<Rightarrow> poll_server \<Rightarrow> bool" where
  "up_to_date t c s \<longleftrightarrow> (\<forall>g. \<exists>d e. c g = Some d \<and> ps_CACHE s g = Some e \<and> gd_md5 d = cdc_md5 e
     \<and> gd_data d = group_rows g t \<and> cdc_rows e = group_rows g t
     \<and> in_int64 (gd_lastModifyTime d) \<and> in_int64 (cdc_lastModifyTime e))"

lemma up_to_date_same:
  assumes "up_to_date t c s"
  shows "older_or_same c s" "\<not> differing c s g"
proof -
  show "older_or_same c s"
    unfolding older_or_same_def using assms unfolding up_to_date_def by metis
  show "\<not> differing c s g" using assms unfolding up_to_date_def differing_def by (metis option.simps(9))
qed

lemma changes_taken:
  assumes "older_or_same c s" "caches_filled md5 t s"
  shows "up_to_date t (\<lambda>g. if taken (fetched_changes c s) c g then fetched_changes c s g else c g) s"
  unfolding up_to_date_def
proof
  fix g
  obtain d e where d: "c g = Some d" "ps_CACHE s g = Some e" "in_int64 (gd_lastModifyTime d)" "in_int64 (cdc_lastModifyTime e)"
      "if gd_md5 d = cdc_md5 e then gd_data d = cdc_rows e else gd_lastModifyTime d < cdc_lastModifyTime e"
    using assms(1) unfolding older_or_same_def by blast
  have e: "cdc_rows e = group_rows g t" using assms(2) d(2) unfolding caches_filled_def by (metis option.inject)
  show "\<exists>d e. (if taken (fetched_changes c s) c g then fetched_changes c s g else c g) = Some d \<and> ps_CACHE s g = Some e
      \<and> gd_md5 d = cdc_md5 e \<and> gd_data d = group_rows g t \<and> cdc_rows e = group_rows g t
      \<and> in_int64 (gd_lastModifyTime d) \<and> in_int64 (cdc_lastModifyTime e)"
    using d e by (cases "gd_md5 d = cdc_md5 e")
      (simp_all add: taken_def fetched_changes_def differing_def config_data_of_def)
qed

lemma up_to_date_follows:
  assumes "up_to_date t (hg_GROUP_CACHE h) s" "consistent md5 h"
  shows "follows t (ss_cache (gw_sub (hg_gateway h)))"
  using assms(2) by (rule consistent_follows) (use assms(1) in \<open>unfold up_to_date_def, blast\<close>)


text \<open>
  The result that is reported. A poll that found changes reports, of all its updates, whether the group the
  stream came to last was one of them: with the caches brought up to date it tells \<open>False\<close> when that group
  had not changed, and the thread sleeps for 30 seconds as if nothing had been updated.
\<close>

theorem poll_reports_the_last_group:
  assumes "quiet hm" "tables_ok t" "caches_filled md5 t s" "distinct ord" "set ord = set config_group_values"
    "consistent md5 h" "proper_digest md5" "older_or_same (hg_GROUP_CACHE h) s" "differing (hg_GROUP_CACHE h) s g"
  shows "fst (client_doLongPolling hm ord (listen_at md5 s) (fetchConfigs s) h) = Inr (Some (differing (hg_GROUP_CACHE h) s (last ord)))"
proof -
  let ?c = "hg_GROUP_CACHE h" and ?g = "last ord"
  have a: "answers_for md5 t (fetched_changes ?c s)"
    using fetchConfigs_all(2) [OF assms(3), of "filter (differing ?c s) config_group_values"]
    by (simp add: fetched_changes_def [abs_def] all_groups)
  obtain d e where d: "?c ?g = Some d" "ps_CACHE s ?g = Some e"
      "if gd_md5 d = cdc_md5 e then gd_data d = cdc_rows e else gd_lastModifyTime d < cdc_lastModifyTime e"
    using assms(8) unfolding older_or_same_def by blast
  have "taken (fetched_changes ?c s) ?c ?g = differing ?c s ?g"
    using d by (auto simp: taken_def fetched_changes_def differing_def config_data_of_def)
  then have "fst (refresh_executor hm ord (fetched_changes ?c s) h) = Inr (differing ?c s ?g)"
    using executor_effect(1) [OF assms(1,2) a assms(6,4,5)] by simp
  moreover have "filter (differing ?c s) config_group_values \<noteq> []" using assms(9) all_groups by (auto simp: filter_empty_conv)
  ultimately show ?thesis
    unfolding client_poll [OF older_or_same_comparable [OF assms(8,6,7)] assms(3)] by (simp add: case_prod_beta)
qed

text \<open>
  A change within the millisecond of the copy. If every group whose digest differs was filled by the admin
  at the very time of the gateway's copy, the admin reports it changed, the gateway fetches it and takes
  nothing: it is as before the poll and asks again half a minute later, with the same end, for as long as
  the admin does not fill that cache anew.
\<close>

theorem same_millisecond_is_never_taken:
  assumes "caches_filled md5 t s" "entries_comparable (hg_GROUP_CACHE h) s" "set ord = set config_group_values"
    "\<And>g d e. hg_GROUP_CACHE h g = Some d \<Longrightarrow> ps_CACHE s g = Some e \<Longrightarrow> gd_md5 d \<noteq> cdc_md5 e \<Longrightarrow> cdc_lastModifyTime e = gd_lastModifyTime d"
    "differing (hg_GROUP_CACHE h) s g"
  shows "client_doLongPolling hm ord (listen_at md5 s) (fetchConfigs s) h = (Inr (Some False), h)
    \<and> polling_task (replicate n (client_doLongPolling hm ord (listen_at md5 s) (fetchConfigs s))) h = (replicate (min n retryTimes) 30, h)"
proof -
  let ?c = "hg_GROUP_CACHE h" and ?poll = "client_doLongPolling hm ord (listen_at md5 s) (fetchConfigs s)"
  let ?data = "fetched_changes ?c s"
  have no: "data_refresh hm ?data g h = (Inr False, h)" for g
  proof -
    obtain d e where d: "?c g = Some d" "ps_CACHE s g = Some e" using assms(2) unfolding entries_comparable_def by blast
    show ?thesis
      using assms(4) [OF d] d
      by (auto simp: data_refresh_def fetched_changes_def differing_def updateCacheIfNeed_def config_data_of_def)
  qed
  have "refresh_groups hm ?data gs b h = (Inr (if gs = [] then b else False), h)" for gs b
    by (induction gs arbitrary: b) (simp_all add: no)
  moreover have "ord \<noteq> []" using assms(3) by (auto simp: config_group_values_def)
  ultimately have "refresh_executor hm ord ?data h = (Inr False, h)" by (simp add: refresh_executor_def)
  moreover have "filter (differing ?c s) config_group_values \<noteq> []" using assms(5) all_groups by (auto simp: filter_empty_conv)
  ultimately have one: "?poll h = (Inr (Some False), h)" unfolding client_poll [OF assms(2,1)] by simp
  have "poll_pass k (replicate n ?poll) h = (replicate (min n (Suc retryTimes - k)) 30, h)" for k
  proof (induction n arbitrary: k)
    case (Suc n)
    then show ?case by (cases "k > retryTimes") (simp_all add: one pause_after_def Suc_diff_le)
  qed simp
  from this [of 1] show ?thesis by (simp add: one polling_task_def)
qed

definition no_paths :: "auth_cache \<Rightarrow> bool" where
  "no_paths auths \<longleftrightarrow> (\<forall>k app. obtainAuthData auths k = Some app \<longrightarrow> aa_pathDataList app = None)"

lemma each_gw_auths:
  assumes "\<And>x g. x \<in> set xs \<Longrightarrow> P (gw_auths g) \<Longrightarrow> P (gw_auths (fst (f x g)))" "P (gw_auths g)"
  shows "P (gw_auths (fst (each f xs g)))"
  using assms
proof (induction xs arbitrary: g)
  case (Cons x xs)
  have "P (gw_auths (fst (f x g)))" using Cons.prems by simp
  then show ?case using Cons.IH [of "fst (f x g)"] Cons.prems(1) by (cases "f x g") (simp split: option.split)
qed simp

lemma group_refresh_no_paths:
  assumes "no_paths (gw_auths gw)"
  shows "no_paths (gw_auths (fst (group_refresh hm (group_rows g t) gw)))"
proof (cases g)
  case G_APP_AUTH
  have "no_paths (gw_auths (fst (each (auth_sub auth_onSubscribe) (auth_listAll t) gw)))"
    by (rule each_gw_auths [where P = no_paths])
      (use assms in \<open>auto simp: auth_sub_def auth_listAll_def no_paths_def obtainAuthData_def auth_onSubscribe_def cacheAuthData_def\<close>)
  then show ?thesis by (simp add: G_APP_AUTH auth_refresh_def)
next
  case G_META_DATA
  have "no_paths (gw_auths (fst (each (nullable (meta_sub meta_onSubscribe)) (meta_listAll t) gw)))"
    by (rule each_gw_auths [where P = no_paths]) (use assms in \<open>auto simp: meta_sub_def nullable_def split: option.split\<close>)
  then show ?thesis by (simp add: G_META_DATA meta_refresh_def)
qed (use assms in \<open>simp_all add: on_sub_def split: prod.split\<close>)

lemma refresh_groups_no_paths:
  assumes "answers_for md5 t data" "no_paths (gw_auths (hg_gateway h))"
  shows "no_paths (gw_auths (hg_gateway (snd (refresh_groups hm data ord success h))))"
  using assms(2)
proof (induction ord arbitrary: h success)
  case (Cons g gs)
  have "no_paths (gw_auths (hg_gateway (snd (data_refresh hm data g h))))"
    using assms(1) Cons.prems group_refresh_no_paths [OF Cons.prems, of hm g t]
    by (auto simp: data_refresh_def answers_for_def split: option.splits prod.splits bool.splits)
  then show ?case using Cons.IH by (cases "data_refresh hm data g h") (simp split: sum.split)
qed simp

text \<open>
  Keys that come over http. The rows an admin's cache of the keys was filled from carry no paths; a gateway
  whose keys came that way refuses every signed request, whichever groups it fetches and in whatever
  state of the tables.
\<close>

theorem keys_over_http_are_refused:
  assumes "caches_filled md5 t s" "no_paths (gw_auths (hg_gateway h))"
  shows "case doFetchGroupConfig hm ord (fetchConfigs s) gs h of (_, h') \<Rightarrow>
     no_paths (gw_auths (hg_gateway h')) \<and> sign_verify env (gw_auths (hg_gateway h')) ctx \<noteq> Inr (True, m)"
proof -
  define data where "data = (\<lambda>g. if g \<in> set gs then map_option config_data_of (ps_CACHE s g) else None)"
  define h' where "h' = snd (refresh_executor hm ord data h)"
  have "answers_for md5 t data" unfolding data_def by (rule fetchConfigs_all(2) [OF assms(1)])
  then have n: "no_paths (gw_auths (hg_gateway h'))"
    using refresh_groups_no_paths [OF _ assms(2)] by (simp add: h'_def refresh_executor_def)
  then have "\<not> fst (sign_check env (gw_auths (hg_gateway h')) ctx)"
    by (auto simp: sign_check_def no_paths_def the_group_def split: option.split)
  then have "sign_verify env (gw_auths (hg_gateway h')) ctx \<noteq> Inr (True, m)"
    by (auto simp: sign_verify_def bindr_def split: sum.split)
  moreover have "snd (doFetchGroupConfig hm ord (fetchConfigs s) gs h) = h'"
    using fetchConfigs_all(1) [OF assms(1), of gs] by (simp add: doFetchGroupConfig_def h'_def data_def)
  ultimately show ?thesis using n by (simp add: case_prod_beta)
qed

subsection \<open>A gateway and an admin\<close>

text \<open>
  An admin that started with empty tables and has since been filled from those with one plugin and one key,
  \<open>later\<close> milliseconds after; and a gateway with what the admin held at the start.
\<close>

definition sample_later :: tables where
  "sample_later = sample_tables\<lparr>tb_auths := tb_auths one_key\<rparr>"

definition sample_filled :: "int \<Rightarrow> poll_server" where
  "sample_filled later = refreshLocalCache sample_digest (started sample_digest 300000 no_tables 0\<lparr>ps_db := sample_later, ps_now := later\<rparr>)"

definition sample_fetching :: "fetched \<Rightarrow> unit http_gateway" where
  "sample_fetching c = \<lparr>hg_gateway = \<lparr>gw_sub = start_state (), gw_auths = Map.empty, gw_metas = Map.empty\<rparr>, hg_GROUP_CACHE = c\<rparr>"

definition sample_copy :: fetched where
  "sample_copy g = Some \<lparr>gd_md5 = ''none'', gd_lastModifyTime = 0, gd_data = group_rows g no_tables\<rparr>"

lemma sample_tables_ok: "tables_ok sample_later" "tables_ok no_tables"
  by (simp_all add: sample_later_def sample_tables_def sample_plugin_def tables_ok_def no_tables_def)

lemma sample_caches_filled: "caches_filled sample_digest sample_later (sample_filled later)"
  using refreshLocalCache_fills [of sample_digest "started sample_digest 300000 no_tables 0\<lparr>ps_db := sample_later, ps_now := later\<rparr>"]
  by (simp add: sample_filled_def)

lemma sample_filled_cache:
  "map_option cdc_md5 (ps_CACHE (sample_filled later) g) = Some (if g \<in> {G_PLUGIN, G_APP_AUTH} then ''some'' else ''none'')"
  "map_option cdc_rows (ps_CACHE (sample_filled later) g) = Some (group_rows g sample_later)"
  "map_option cdc_lastModifyTime (ps_CACHE (sample_filled later) g) = Some later"
proof -
  have rows: "group_rows G_PLUGIN sample_later = PluginRows [plugin_mapToData sample_plugin]"
    "group_rows G_SELECTOR sample_later = SelectorRows []" "group_rows G_RULE sample_later = RuleRows []"
    "rows_empty (group_rows G_APP_AUTH sample_later) = False" "group_rows G_META_DATA sample_later = MetaRows []"
    by (simp_all add: plugin_listAll_def selector_listAll_def rule_listAll_def meta_listAll_def auth_listAll_def sample_later_def
        sample_tables_def one_key_def)
  show "map_option cdc_md5 (ps_CACHE (sample_filled later) g) = Some (if g \<in> {G_PLUGIN, G_APP_AUTH} then ''some'' else ''none'')"
    "map_option cdc_rows (ps_CACHE (sample_filled later) g) = Some (group_rows g sample_later)"
    "map_option cdc_lastModifyTime (ps_CACHE (sample_filled later) g) = Some later"
    by (cases g, simp_all add: sample_filled_def refreshLocalCache_def updateCache_def Let_def sample_digest_def rows del: group_rows.simps)+
qed

lemma sample_consistent: "consistent sample_digest (sample_fetching sample_copy)"
proof -
  have "part_follows g no_tables empty_base_data_cache" for g
    using empty_holds
    by (cases g) (simp_all add: selector_view_def rule_view_def selector_listAll_def rule_listAll_def no_tables_def
        plugin_selectByName_def row_with_def obtainPluginData_def empty_base_data_cache_def)
  moreover have "sample_digest (group_rows g no_tables) = ''none''" for g
    by (cases g) (simp_all add: sample_digest_def no_tables_def plugin_listAll_def selector_listAll_def rule_listAll_def
        meta_listAll_def auth_listAll_def)
  ultimately show ?thesis
    unfolding consistent_def by (auto simp: sample_fetching_def sample_copy_def start_state_def)
qed

lemma sample_older_or_same: "0 < later \<Longrightarrow> in_int64 later \<Longrightarrow> older_or_same sample_copy (sample_filled later)"
  unfolding older_or_same_def
proof
  fix g
  assume later: "0 < later" "in_int64 later"
  obtain e where e: "ps_CACHE (sample_filled later) g = Some e" "cdc_lastModifyTime e = later" "cdc_rows e = group_rows g sample_later"
    "cdc_md5 e = (if g \<in> {G_PLUGIN, G_APP_AUTH} then ''some'' else ''none'')"
    using sample_filled_cache [of later g] by auto
  have "group_rows g no_tables = group_rows g sample_later" if "g \<notin> {G_PLUGIN, G_APP_AUTH}"
    using that by (cases g) (simp_all add: selector_listAll_def rule_listAll_def meta_listAll_def no_tables_def sample_later_def sample_tables_def)
  then show "\<exists>d e. sample_copy g = Some d \<and> ps_CACHE (sample_filled later) g = Some e \<and> in_int64 (gd_lastModifyTime d)
      \<and> in_int64 (cdc_lastModifyTime e) \<and> (if gd_md5 d = cdc_md5 e then gd_data d = cdc_rows e else gd_lastModifyTime d < cdc_lastModifyTime e)"
    using later e by (auto simp: sample_copy_def in_int64_def)
qed

lemma sample_proper: "proper_digest sample_digest"
  by (simp add: proper_digest_def sample_digest_def)

lemma sample_differing: "differing sample_copy (sample_filled later) g \<longleftrightarrow> g \<in> {G_PLUGIN, G_APP_AUTH}"
  by (simp add: differing_def sample_filled_cache sample_copy_def)

abbreviation sample_poll_of :: "int \<Rightarrow> unit http_gateway \<Rightarrow> bool option jres \<times> unit http_gateway" where
  "sample_poll_of later \<equiv> client_doLongPolling sample_handlers config_group_values (listen_at sample_digest (sample_filled later))
     (fetchConfigs (sample_filled later))"

lemma groups_distinct: "distinct config_group_values"
  by (simp add: config_group_values_def)



theorem poll_reports_the_last_group_witness:
  "fst (sample_poll_of 5 (sample_fetching sample_copy)) = Inr (Some False)"
proof -
  have "fst (sample_poll_of 5 (sample_fetching sample_copy))
      = Inr (Some (differing (hg_GROUP_CACHE (sample_fetching sample_copy)) (sample_filled 5) (last config_group_values)))"
    by (rule poll_reports_the_last_group [OF sample_quiet sample_tables_ok(1) sample_caches_filled groups_distinct refl sample_consistent
        sample_proper, of 5 G_PLUGIN]) (simp_all add: sample_fetching_def sample_older_or_same in_int64_def sample_differing)
  then show ?thesis by (simp add: sample_fetching_def sample_differing config_group_values_def)
qed

lemma sample_comparable: "entries_comparable sample_copy (sample_filled 0)"
  unfolding entries_comparable_def
proof
  fix g
  obtain e where "ps_CACHE (sample_filled 0) g = Some e" "cdc_lastModifyTime e = 0"
    using sample_filled_cache(3) [of 0 g] by auto
  then show "\<exists>d e. sample_copy g = Some d \<and> ps_CACHE (sample_filled 0) g = Some e \<and> gd_md5 d \<noteq> [] \<and> CHR '','' \<notin> set (gd_md5 d)
      \<and> in_int64 (gd_lastModifyTime d) \<and> (gd_md5 d = cdc_md5 e \<or> gd_lastModifyTime d \<le> cdc_lastModifyTime e)"
    by (simp add: sample_copy_def in_int64_def)
qed

theorem same_millisecond_is_never_taken_witness:
  "sample_poll_of 0 (sample_fetching sample_copy) = (Inr (Some False), sample_fetching sample_copy)
    \<and> polling_task (replicate 3 (sample_poll_of 0)) (sample_fetching sample_copy) = (replicate (min 3 retryTimes) 30, sample_fetching sample_copy)"
proof (rule same_millisecond_is_never_taken [OF sample_caches_filled, of _ 0 _ G_PLUGIN])
  show "cdc_lastModifyTime e = gd_lastModifyTime d"
    if "hg_GROUP_CACHE (sample_fetching sample_copy) g = Some d" "ps_CACHE (sample_filled 0) g = Some e" for g d e
    using that sample_filled_cache(3) [of 0 g] by (auto simp: sample_fetching_def sample_copy_def)
qed (simp_all add: sample_fetching_def sample_comparable sample_differing)

theorem keys_over_http_are_refused_witness:
  "case doFetchGroupConfig sample_handlers config_group_values (fetchConfigs (sample_filled 5)) [G_APP_AUTH] (sample_fetching Map.empty) of (_, h') \<Rightarrow>
     no_paths (gw_auths (hg_gateway h')) \<and> sign_verify sample_sign_env (gw_auths (hg_gateway h')) (signed_context ''/a'' ''12'') \<noteq> Inr (True, '''')"
  by (rule keys_over_http_are_refused [OF sample_caches_filled]) (simp add: sample_fetching_def no_paths_def obtainAuthData_def)

end
