(* ===== verification/AdminRegister.thy ===== *)
theory AdminRegister
  imports AdminAuth
begin

text \<open>
  How instances of services get into the admin's tables: \<open>SoulClientRegisterServiceImpl\<close>, which the clients call
  when they start, and \<open>UpstreamCheckService\<close>, which takes out the instances that do not answer. The fields
  a client always sends are not optional.
\<close>

subsection \<open>What is sent and kept\<close>

record spring_mvc_register_dto =
  smr_appName :: string
  smr_context :: string
  smr_path :: string
  smr_pathDesc :: string
  smr_rpcType :: string
  smr_host :: string
  smr_port :: int
  smr_ruleName :: string
  smr_enabled :: bool
  smr_registerMetaData :: bool

record spring_cloud_register_dto =
  scr_appName :: string
  scr_context :: string
  scr_path :: string
  scr_rpcType :: string
  scr_ruleName :: string
  scr_enabled :: bool

text \<open>The handles a registered rule gets: load balance, retries, timeout; or the path.\<close>

datatype registered_handle =
    DubboRuleHandle string int int
  | DivideRuleHandle string int
  | SofaRuleHandle string int int
  | SpringCloudRuleHandle string

text \<open>The generator of identifiers and JSON; a list read from blank text may be null.\<close>

record register_env =
  re_uuid :: "nat \<Rightarrow> string"
  re_toJson :: "divide_upstream list \<Rightarrow> string"
  re_fromList :: "string option \<Rightarrow> divide_upstream list option jres"
  re_handleJson :: "registered_handle \<Rightarrow> string"

type_synonym 'a upstream_svc = "(divide_upstream list, 'a) svc"

subsection \<open>Statements\<close>

definition rule_selectByName :: "string \<Rightarrow> tables \<Rightarrow> rule_do option" where
  "rule_selectByName n t = row_with rdo_name n (tb_rules t)"

definition meta_findByPath :: "string \<Rightarrow> tables \<Rightarrow> meta_data_do option" where
  "meta_findByPath p t = row_with mdo_path p (tb_metas t)"

text \<open>The pair of service and method is not unique; a query for one row that finds more throws.\<close>

definition meta_findByServiceNameAndMethod :: "string option \<Rightarrow> string option \<Rightarrow> tables \<Rightarrow> meta_data_do option jres" where
  "meta_findByServiceNameAndMethod s m t =
     (if s = None \<or> m = None then Inr None
      else case filter (\<lambda>r. mdo_serviceName r = s \<and> mdo_methodName r = m) (tb_metas t) of
          [] \<Rightarrow> Inr None
        | [r] \<Rightarrow> Inr (Some r)
        | _ \<Rightarrow> Inl (RuntimeExn ''TooManyResultsException''))"

definition svc_of :: "'a jres \<Rightarrow> ('u, 'a) svc" where
  "svc_of r = (case r of Inl e \<Rightarrow> throws e | Inr x \<Rightarrow> returns x)"

subsection \<open>\<open>UpstreamCheckService\<close>\<close>

definition upstream_submit :: "string \<Rightarrow> divide_upstream \<Rightarrow> unit upstream_svc" where
  "upstream_submit n u s = (Inr (), s\<lparr>ad_upstreams := (ad_upstreams s)(n \<mapsto>
     (case ad_upstreams s n of Some us \<Rightarrow> us @ [u] | None \<Rightarrow> [u]))\<rparr>)"

definition upstream_put :: "string \<Rightarrow> divide_upstream list \<Rightarrow> unit upstream_svc" where
  "upstream_put n us s = (Inr (), s\<lparr>ad_upstreams := (ad_upstreams s)(n \<mapsto> us)\<rparr>)"

definition upstream_setup :: "register_env \<Rightarrow> unit upstream_svc" where
  "upstream_setup env =
     andthen (query (\<lambda>t. rows_with sdo_pluginId ''5'' (tb_selectors t))) (\<lambda>rs.
     for_all (\<lambda>r. andthen (svc_of (re_fromList env (sdo_handle r))) (\<lambda>us.
       case us of None \<Rightarrow> returns () | Some [] \<Rightarrow> returns () | Some us \<Rightarrow> upstream_put (sdo_name r) us)) rs)"

definition updateSelectorHandler :: "register_env \<Rightarrow> string \<Rightarrow> divide_upstream list option \<Rightarrow> unit upstream_svc" where
  "updateSelectorHandler env n upstreams =
     andthen (query (selector_selectByName n)) (\<lambda>selector.
     case selector of
       None \<Rightarrow> returns ()
     | Some r \<Rightarrow>
         andthen (selector_buildByName n) (\<lambda>selectorData.
         let handler = (case upstreams of None \<Rightarrow> '''' | Some us \<Rightarrow> re_toJson env us)
         in andthen (derefs selectorData) (\<lambda>d.
            andthen (execute (selector_updateSelective (r\<lparr>sdo_handle := Some handler\<rparr>))) (\<lambda>_.
            publishEvent (SelectorChanged EV_UPDATE [Some (d\<lparr>sd_handle := Some handler\<rparr>)])))))"

text \<open>\<open>check\<close>; \<open>checkUrl\<close> tells which urls can be reached.\<close>

definition upstream_check :: "register_env \<Rightarrow> (string \<Rightarrow> bool) \<Rightarrow> string \<Rightarrow> divide_upstream list \<Rightarrow> unit upstream_svc" where
  "upstream_check env checkUrl n upstreamList =
     (let successList = filter (\<lambda>u. checkUrl (du_upstreamUrl u)) upstreamList
      in if length successList = length upstreamList then returns ()
         else if successList \<noteq> [] then andthen (upstream_put n successList) (\<lambda>_. updateSelectorHandler env n (Some successList))
         else andthen (upstream_removeByKey n) (\<lambda>_. updateSelectorHandler env n None))"

text \<open>\<open>scheduled\<close>, over the names of the map in the order it gives them.\<close>

definition upstream_scheduled :: "register_env \<Rightarrow> (string \<Rightarrow> bool) \<Rightarrow> string list \<Rightarrow> unit upstream_svc" where
  "upstream_scheduled env checkUrl names =
     for_all (\<lambda>n s. (case ad_upstreams s n of None \<Rightarrow> returns () | Some us \<Rightarrow> upstream_check env checkUrl n us) s) names"

subsection \<open>Selectors and rules of a registration\<close>

definition buildDivideUpstream :: "string \<Rightarrow> divide_upstream" where
  "buildDivideUpstream uri =
     \<lparr>du_upstreamHost = Some ''localhost'', du_protocol = Some ''http://'', du_upstreamUrl = uri, du_weight = 50\<rparr>"

definition uri_condition_dto :: "operator_enum \<Rightarrow> string \<Rightarrow> condition_dto" where
  "uri_condition_dto op v = \<lparr>cdt_id = None, cdt_paramType = param_type_enum_name PT_URI, cdt_operator = operator_enum_alias op,
     cdt_paramName = ''/'', cdt_paramValue = v\<rparr>"

definition registered_selector :: "string \<Rightarrow> string \<Rightarrow> string option \<Rightarrow> selector_dto" where
  "registered_selector contextPath pluginId handler =
     \<lparr>sdt_id = None, sdt_pluginId = pluginId, sdt_name = contextPath, sdt_matchMode = match_mode_code MM_AND,
      sdt_type = selector_type_code ST_CUSTOM_FLOW, sdt_sort = 1, sdt_enabled = True, sdt_loged = True, sdt_continued = True,
      sdt_handle = handler, sdt_selectorConditions = [uri_condition_dto OP_MATCH (contextPath @ ''/**'')]\<rparr>"

definition registerSelector :: "register_env \<Rightarrow> string \<Rightarrow> string \<Rightarrow> string \<Rightarrow> string \<Rightarrow> string upstream_svc" where
  "registerSelector env contextPath rpcType appName uri =
     (if rpc_type_name RPC_DUBBO = rpcType then selector_register (re_uuid env) (registered_selector contextPath ''6'' None)
      else if rpc_type_name RPC_SPRING_CLOUD = rpcType
        then selector_register (re_uuid env) (registered_selector contextPath ''8'' (Some appName))
      else if rpc_type_name RPC_SOFA = rpcType
        then selector_register (re_uuid env) (registered_selector contextPath ''11'' (Some appName))
      else let u = buildDivideUpstream uri
           in andthen (upstream_submit contextPath u) (\<lambda>_.
              selector_register (re_uuid env) (registered_selector contextPath ''5'' (Some (re_toJson env [u])))))"

definition registered_rule :: "register_env \<Rightarrow> string \<Rightarrow> string \<Rightarrow> string \<Rightarrow> string \<Rightarrow> rule_dto" where
  "registered_rule env selectorId path rpcType ruleName =
     (let star = (case index_of (CHR ''*'') path of Some i \<Rightarrow> 1 < i | None \<Rightarrow> False);
          random = load_balance_name LB_RANDOM;
          h = (if rpcType = rpc_type_name RPC_DUBBO then DubboRuleHandle random 0 3000
               else if rpcType = rpc_type_name RPC_HTTP then DivideRuleHandle random 0
               else if rpcType = rpc_type_name RPC_SOFA then SofaRuleHandle random 0 3000
               else SpringCloudRuleHandle path)
      in \<lparr>rdt_id = None, rdt_selectorId = selectorId, rdt_matchMode = match_mode_code MM_AND, rdt_name = ruleName,
          rdt_enabled = True, rdt_loged = True, rdt_sort = 1, rdt_handle = Some (re_handleJson env h),
          rdt_ruleConditions = [uri_condition_dto (if star then OP_MATCH else OP_EQ) path]\<rparr>)"

definition registerRule :: "register_env \<Rightarrow> string \<Rightarrow> string \<Rightarrow> string \<Rightarrow> string \<Rightarrow> unit upstream_svc" where
  "registerRule env selectorId path rpcType ruleName =
     andthen (rule_register (re_uuid env) (registered_rule env selectorId path rpcType ruleName)) (\<lambda>_. returns ())"

subsection \<open>Http services\<close>

definition saveSpringMvcMetaData :: "register_env \<Rightarrow> spring_mvc_register_dto \<Rightarrow> unit upstream_svc" where
  "saveSpringMvcMetaData env dto =
     andthen (generateShortUuid (re_uuid env)) (\<lambda>i.
     let r = \<lparr>mdo_id = i, mdo_appName = smr_appName dto, mdo_path = smr_path dto, mdo_pathDesc = smr_pathDesc dto,
              mdo_rpcType = smr_rpcType dto, mdo_serviceName = None, mdo_methodName = None, mdo_parameterTypes = None,
              mdo_rpcExt = None, mdo_enabled = smr_enabled dto\<rparr>
     in andthen (execute (meta_insert r)) (\<lambda>_. publishEvent (MetaChanged EV_CREATE [Some (meta_of_do r)])))"

definition mvc_uri :: "spring_mvc_register_dto \<Rightarrow> string" where
  "mvc_uri dto = smr_host dto @ '':'' @ show_int (smr_port dto)"

text \<open>
  \<open>handlerSpringMvcSelector\<close>. The upstream is added to those of the handle, unless it is one of them; a handle
  that reads as null ends in the loop's null pointer.
\<close>

definition handlerSpringMvcSelector :: "register_env \<Rightarrow> spring_mvc_register_dto \<Rightarrow> string upstream_svc" where
  "handlerSpringMvcSelector env dto =
     (let contextPath = smr_context dto;
          uri = mvc_uri dto
      in andthen (query (selector_selectByName contextPath)) (\<lambda>selectorDO.
         case selectorDO of
           None \<Rightarrow> registerSelector env contextPath (smr_rpcType dto) (smr_appName dto) uri
         | Some r \<Rightarrow>
             (let addDivideUpstream = buildDivideUpstream uri
              in andthen (selector_buildByName contextPath) (\<lambda>selectorData.
                 andthen (if is_blank (sdo_handle r) then returns (Some [addDivideUpstream])
                     else andthen (svc_of (re_fromList env (sdo_handle r))) (\<lambda>us. andthen (derefs us) (\<lambda>exist.
                       if uri \<in> du_upstreamUrl ` set exist then returns None
                       else returns (Some (exist @ [addDivideUpstream]))))) (\<lambda>upstreams.
                 case upstreams of
                   None \<Rightarrow> returns (sdo_id r)
                 | Some us \<Rightarrow>
                     (let handleAdd = re_toJson env us
                      in andthen (derefs selectorData) (\<lambda>d.
                         andthen (execute (selector_updateSelective (r\<lparr>sdo_handle := Some handleAdd\<rparr>))) (\<lambda>_.
                         andthen (upstream_submit contextPath addDivideUpstream) (\<lambda>_.
                         andthen (publishEvent (SelectorChanged EV_UPDATE [Some (d\<lparr>sd_handle := Some handleAdd\<rparr>)])) (\<lambda>_.
                         returns (sdo_id r)))))))))))"

definition handlerSpringMvcRule :: "register_env \<Rightarrow> string \<Rightarrow> spring_mvc_register_dto \<Rightarrow> unit upstream_svc" where
  "handlerSpringMvcRule env selectorId dto =
     andthen (query (rule_selectByName (smr_ruleName dto))) (\<lambda>ruleDO.
     if ruleDO = None then registerRule env selectorId (smr_path dto) (smr_rpcType dto) (smr_ruleName dto) else returns ())"

definition registerSpringMvc :: "register_env \<Rightarrow> spring_mvc_register_dto \<Rightarrow> string upstream_svc" where
  "registerSpringMvc env dto = transactional (
     andthen (if smr_registerMetaData dto
         then andthen (query (meta_findByPath (smr_path dto))) (\<lambda>exist.
              if exist = None then saveSpringMvcMetaData env dto else returns ())
         else returns ()) (\<lambda>_.
     andthen (handlerSpringMvcSelector env dto) (\<lambda>selectorId.
     andthen (handlerSpringMvcRule env selectorId dto) (\<lambda>_. returns ''success''))))"

definition saveSpringCloudMetaData :: "register_env \<Rightarrow> spring_cloud_register_dto \<Rightarrow> unit upstream_svc" where
  "saveSpringCloudMetaData env dto =
     andthen (generateShortUuid (re_uuid env)) (\<lambda>i.
     let r = \<lparr>mdo_id = i, mdo_appName = scr_appName dto, mdo_path = scr_context dto @ ''/**'',
              mdo_pathDesc = scr_appName dto @ ''spring cloud meta data info'', mdo_rpcType = scr_rpcType dto,
              mdo_serviceName = Some (scr_appName dto), mdo_methodName = Some (scr_context dto), mdo_parameterTypes = None,
              mdo_rpcExt = None, mdo_enabled = scr_enabled dto\<rparr>
     in andthen (execute (meta_insert r)) (\<lambda>_. publishEvent (MetaChanged EV_CREATE [Some (meta_of_do r)])))"

definition handlerSpringCloudSelector :: "register_env \<Rightarrow> spring_cloud_register_dto \<Rightarrow> string upstream_svc" where
  "handlerSpringCloudSelector env dto =
     andthen (query (selector_selectByName (scr_context dto))) (\<lambda>selectorDO.
     case selectorDO of
       None \<Rightarrow> registerSelector env (scr_context dto) (scr_rpcType dto) (scr_appName dto) ''''
     | Some r \<Rightarrow> returns (sdo_id r))"

definition handlerSpringCloudRule :: "register_env \<Rightarrow> string \<Rightarrow> spring_cloud_register_dto \<Rightarrow> unit upstream_svc" where
  "handlerSpringCloudRule env selectorId dto =
     andthen (query (rule_selectByName (scr_ruleName dto))) (\<lambda>ruleDO.
     if ruleDO = None then registerRule env selectorId (scr_path dto) (scr_rpcType dto) (scr_ruleName dto) else returns ())"

definition registerSpringCloud :: "register_env \<Rightarrow> spring_cloud_register_dto \<Rightarrow> string upstream_svc" where
  "registerSpringCloud env dto = transactional (
     andthen (query (meta_findByPath (scr_context dto @ ''/**''))) (\<lambda>metaDataDO.
     andthen (if metaDataDO = None then saveSpringCloudMetaData env dto else returns ()) (\<lambda>_.
     andthen (handlerSpringCloudSelector env dto) (\<lambda>selectorId.
     andthen (handlerSpringCloudRule env selectorId dto) (\<lambda>_. returns ''success'')))))"

subsection \<open>Dubbo and Sofa services\<close>

text \<open>For requests with the fields the clients set: application, context path, path, type of call, name of the rule.\<close>

record rpc_register_dto = meta_data_dto +
  rrd_ruleName :: string

text \<open>\<open>saveOrUpdateMetaData\<close>; what is published is the request.\<close>

definition saveOrUpdateMetaData :: "register_env \<Rightarrow> meta_data_do option \<Rightarrow> rpc_register_dto \<Rightarrow> unit upstream_svc" where
  "saveOrUpdateMetaData env exist dto =
     (let d = meta_data_dto.truncate dto
      in case exist of
           None \<Rightarrow>
             andthen (generateShortUuid (re_uuid env)) (\<lambda>i.
             andthen (execute (meta_insert (meta_mapToEntity i d))) (\<lambda>_.
             publishEvent (MetaChanged EV_CREATE [Some (meta_of_dto d)])))
         | Some e \<Rightarrow>
             andthen (execute (meta_update (meta_mapToEntity (mdo_id e) d))) (\<lambda>_.
             publishEvent (MetaChanged EV_UPDATE [Some (meta_of_dto d)])))"

definition handlerDubboSelector :: "register_env \<Rightarrow> rpc_register_dto \<Rightarrow> string upstream_svc" where
  "handlerDubboSelector env dto =
     (let contextPath = the (mdt_contextPath dto)
      in andthen (query (selector_selectByName contextPath)) (\<lambda>selectorDO.
         case selectorDO of
           None \<Rightarrow> registerSelector env contextPath (the (mdt_rpcType dto)) (the (mdt_appName dto)) ''''
         | Some r \<Rightarrow> returns (sdo_id r)))"

text \<open>The rule is looked up by the path and saved under its own name.\<close>

definition handlerDubboRule :: "register_env \<Rightarrow> string \<Rightarrow> rpc_register_dto \<Rightarrow> unit upstream_svc" where
  "handlerDubboRule env selectorId dto =
     andthen (query (rule_selectByName (the (mdt_path dto)))) (\<lambda>existRule.
     if existRule = None
     then registerRule env selectorId (the (mdt_path dto)) (the (mdt_rpcType dto)) (rrd_ruleName dto) else returns ())"

definition registerDubbo :: "register_env \<Rightarrow> rpc_register_dto \<Rightarrow> string upstream_svc" where
  "registerDubbo env dto = transactional (
     andthen (query (meta_findByPath (the (mdt_path dto)))) (\<lambda>exist.
     andthen (saveOrUpdateMetaData env exist dto) (\<lambda>_.
     andthen (handlerDubboSelector env dto) (\<lambda>selectorId.
     andthen (handlerDubboRule env selectorId dto) (\<lambda>_. returns ''success'')))))"

definition handlerSofaSelector :: "register_env \<Rightarrow> rpc_register_dto \<Rightarrow> string upstream_svc" where
  "handlerSofaSelector env dto =
     (let contextPath = the (mdt_contextPath dto)
      in andthen (query (selector_selectByName contextPath)) (\<lambda>selectorDO.
         case selectorDO of
           None \<Rightarrow> registerSelector env contextPath (the (mdt_rpcType dto)) (the (mdt_appName dto)) ''''
         | Some r \<Rightarrow> returns (sdo_id r)))"

definition handlerSofaRule :: "register_env \<Rightarrow> string \<Rightarrow> rpc_register_dto \<Rightarrow> meta_data_do option \<Rightarrow> unit upstream_svc" where
  "handlerSofaRule env selectorId dto exist =
     andthen (query (rule_selectByName (the (mdt_path dto)))) (\<lambda>existRule.
     if exist = None \<or> existRule = None
     then registerRule env selectorId (the (mdt_path dto)) (the (mdt_rpcType dto)) (rrd_ruleName dto) else returns ())"

text \<open>
  \<open>registerSofa\<close>, which is not transactional. A path that is taken is refused; when its row has no method or
  no service, as that of an http service has not, comparing throws.
\<close>

definition sofa_path_taken :: "meta_data_do \<Rightarrow> rpc_register_dto \<Rightarrow> bool upstream_svc" where
  "sofa_path_taken byPath dto =
     andthen (derefs (mdo_methodName byPath)) (\<lambda>m.
     if Some m \<noteq> mdt_methodName dto then returns True
     else andthen (derefs (mdo_serviceName byPath)) (\<lambda>sn. returns (Some sn \<noteq> mdt_serviceName dto)))"

definition registerSofa :: "register_env \<Rightarrow> rpc_register_dto \<Rightarrow> string upstream_svc" where
  "registerSofa env dto =
     andthen (query (meta_findByPath (the (mdt_path dto)))) (\<lambda>byPath.
     andthen (case byPath of None \<Rightarrow> returns False | Some r \<Rightarrow> sofa_path_taken r dto) (\<lambda>taken.
     if taken then returns ''you path already exist!''
     else andthen (query (meta_findByServiceNameAndMethod (mdt_serviceName dto) (mdt_methodName dto))) (\<lambda>found.
          andthen (svc_of found) (\<lambda>exist.
          andthen (saveOrUpdateMetaData env exist dto) (\<lambda>_.
          andthen (handlerSofaSelector env dto) (\<lambda>selectorId.
          andthen (handlerSofaRule env selectorId dto exist) (\<lambda>_. returns ''success'')))))))"

end
