(* ===== verification/RegisterFacts.thy ===== *)
theory RegisterFacts
  imports AdminRegister GatewayInStep
begin

text \<open>
  What the registrations of \<open>SoulClientRegisterServiceImpl\<close> and the health check of \<open>UpstreamCheckService\<close>
  leave in the tables and on the gateway.
\<close>

subsection \<open>Runs that succeed\<close>

lemma run_Inr:
  "transactional m s = (Inr x, s') \<longleftrightarrow> m s = (Inr x, s')"
  "andthen m f s = (Inr y, s') \<longleftrightarrow> (\<exists>x s1. m s = (Inr x, s1) \<and> f x s1 = (Inr y, s'))"
  "returns x s = (Inr z, s') \<longleftrightarrow> z = x \<and> s' = s"
  "query q s = (Inr z', s') \<longleftrightarrow> z' = q (ad_tables s) \<and> s' = s"
  "throws e s = (Inr x, s') \<longleftrightarrow> False"
  "derefs r s = (Inr w, s') \<longleftrightarrow> r = Some w \<and> s' = s"
  "svc_of res s = (Inr w', s') \<longleftrightarrow> res = Inr w' \<and> s' = s"
  "execute st s = (Inr u, s') \<longleftrightarrow> (\<exists>t. st (ad_tables s) = Inr t \<and> s' = s\<lparr>ad_tables := t\<rparr>)"
  "publishEvent ev s = (Inr u, s') \<longleftrightarrow> s' = s\<lparr>ad_published := ad_published s @ [ev]\<rparr>"
  "generateShortUuid uuid s = (Inr i, s') \<longleftrightarrow> i = uuid (ad_next s) \<and> s' = s\<lparr>ad_next := ad_next s + 1\<rparr>"
  "upstream_submit n v s2 = (Inr u, s2') \<longleftrightarrow> s2' = snd (upstream_submit n v s2)"
  by (auto simp: transactional_def andthen_def returns_def query_def throws_def derefs_def svc_of_def execute_def publishEvent_def
      generateShortUuid_def upstream_submit_def split: prod.splits sum.splits option.splits)

lemma selector_registers:
  assumes "sdt_id d = None" and "selector_register uuid d s = (Inr i, s')"
  shows "i = uuid (ad_next s) \<and> (\<exists>ev. ad_published s' = ad_published s @ [ev]
    \<and> selector_saved d i (ad_tables s) (ad_tables s') ev)"
proof -
  have "selector_createOrUpdate uuid d s = (Inr 1, s') \<and> i = uuid (ad_next s)"
    using assms by (auto simp: selector_register_def selector_createOrUpdate_def build_rows run_Inr row_id_def is_empty_ref_def)
  then show ?thesis using selector_save_id [of uuid d s "Inr 1" s'] assms(1) by (auto simp: is_empty_ref_def)
qed

lemma rule_registers:
  assumes "rdt_id d = None" and "rule_register uuid d s = (Inr i, s')"
  shows "\<exists>ev. ad_published s' = ad_published s @ [ev] \<and> rule_saved d i (ad_tables s) (ad_tables s') ev"
proof -
  have "rule_createOrUpdate uuid d s = (Inr 1, s') \<and> i = uuid (ad_next s)"
    using assms by (auto simp: rule_register_def rule_createOrUpdate_def build_rows run_Inr row_id_def is_empty_ref_def)
  then show ?thesis using rule_save_id [of uuid d s "Inr 1" s'] assms(1) by (auto simp: is_empty_ref_def)
qed

lemma register_ids [simp]: "sdt_id (registered_selector c p h) = None" "rdt_id (registered_rule env i path ty n) = None"
  by (simp_all add: registered_selector_def registered_rule_def Let_def)

lemma register_fields [simp]:
  "sdt_name (registered_selector c p h) = c" "sdt_handle (registered_selector c p h) = h" "sdt_pluginId (registered_selector c p h) = p"
  "rdt_name (registered_rule env i path ty n) = n" "rdt_selectorId (registered_rule env i path ty n) = i"
  by (simp_all add: registered_selector_def registered_rule_def Let_def)

subsection \<open>Registering an http service\<close>

lemma row_with_append: "row_with key k (rs @ [r]) = (case row_with key k rs of None \<Rightarrow> if key r = k then Some r else None | Some x \<Rightarrow> Some x)"
  by (induction rs) (simp_all add: row_with_def)

text \<open>A selector whose handle offers an upstream.\<close>

definition offers :: "register_env \<Rightarrow> string \<Rightarrow> selector_do \<Rightarrow> bool" where
  "offers env uri r \<longleftrightarrow> \<not> is_blank (sdo_handle r)
     \<and> (\<exists>us. re_fromList env (sdo_handle r) = Inr (Some us) \<and> uri \<in> du_upstreamUrl ` set us)"

text \<open>What the registration relies on of JSON: lists of upstreams are read as they were written.\<close>

definition json_ok :: "register_env \<Rightarrow> bool" where
  "json_ok env \<longleftrightarrow> (\<forall>us. \<not> is_blank (Some (re_toJson env us)) \<and> re_fromList env (Some (re_toJson env us)) = Inr (Some us))"

lemma offers_written: "json_ok env \<Longrightarrow> sdo_handle r = Some (re_toJson env us) \<Longrightarrow> uri \<in> du_upstreamUrl ` set us \<Longrightarrow> offers env uri r"
  by (auto simp: offers_def json_ok_def)

lemma row_with_handle_updated:
  assumes "selector_selectByName n t = Some r" and "selector_updateSelective (r\<lparr>sdo_handle := Some h\<rparr>) t = Inr t'"
  shows "selector_selectByName n t' = Some (r\<lparr>sdo_handle := Some h\<rparr>) \<and> tb_metas t' = tb_metas t \<and> tb_rules t' = tb_rules t"
proof -
  have "row_with sdo_name n rs = Some r \<Longrightarrow>
      row_with sdo_name n (update_with sdo_id (sdo_id r) (\<lambda>old. r\<lparr>sdo_handle := Some h\<rparr>) rs) = Some (r\<lparr>sdo_handle := Some h\<rparr>)" for rs
    by (induction rs) (auto simp: row_with_def update_with_def split: if_splits)
  then show ?thesis using assms by (auto simp: selector_selectByName_def selector_updateSelective_def split: if_splits)
qed

lemma mvc_meta_done:
  assumes "(if smr_registerMetaData dto
         then andthen (query (meta_findByPath (smr_path dto))) (\<lambda>exist.
              if exist = None then saveSpringMvcMetaData env dto else returns ())
         else returns ()) s = (Inr (), s1)"
  shows "smr_registerMetaData dto \<longrightarrow> meta_findByPath (smr_path dto) (ad_tables s1) \<noteq> None"
  using assms
  by (auto simp: run_Inr saveSpringMvcMetaData_def meta_insert_def insert_row_def meta_findByPath_def row_with_append Let_def
      split: if_splits option.splits)

lemma mvc_selector_done:
  assumes "json_ok env" and "smr_rpcType dto = rpc_type_name RPC_HTTP"
    and run: "handlerSpringMvcSelector env dto s = (Inr i, s')"
  shows "\<exists>r. selector_selectByName (smr_context dto) (ad_tables s') = Some r \<and> sdo_id r = i \<and> offers env (mvc_uri dto) r
    \<and> tb_metas (ad_tables s') = tb_metas (ad_tables s)"
proof (cases "selector_selectByName (smr_context dto) (ad_tables s)")
  case None
  have nn: "rpc_type_name RPC_HTTP \<notin> {rpc_type_name RPC_DUBBO, rpc_type_name RPC_SPRING_CLOUD, rpc_type_name RPC_SOFA}"
    by simp
  let ?us = "[buildDivideUpstream (mvc_uri dto)]"
  let ?d = "registered_selector (smr_context dto) ''5'' (Some (re_toJson env ?us))"
  have "\<exists>s0. ad_tables s0 = ad_tables s \<and> selector_register (re_uuid env) ?d s0 = (Inr i, s')"
    using run None assms(2) nn unfolding handlerSpringMvcSelector_def registerSelector_def Let_def run_Inr
    by (auto simp: run_Inr upstream_submit_def) (rule exI, erule conjI [rotated], simp)
  then obtain ev where sv: "selector_saved ?d i (ad_tables s) (ad_tables s') ev"
    using selector_registers [OF register_ids(1)] by metis
  then have "selector_selectByName (smr_context dto) (ad_tables s') = Some (selector_row i ?d)" "tb_metas (ad_tables s') = tb_metas (ad_tables s)"
    using None by (auto simp: selector_saved_def is_empty_ref_def selector_selectByName_def row_with_append)
  moreover have "offers env (mvc_uri dto) (selector_row i ?d)"
    by (rule offers_written [OF assms(1), where us = ?us]) (simp_all add: buildDivideUpstream_def)
  ultimately show ?thesis by simp
next
  case (Some r)
  then obtain sd us where us: "(if is_blank (sdo_handle r) then returns (Some [buildDivideUpstream (mvc_uri dto)])
      else andthen (svc_of (re_fromList env (sdo_handle r))) (\<lambda>us. andthen (derefs us) (\<lambda>exist.
         if mvc_uri dto \<in> du_upstreamUrl ` set exist then returns None
         else returns (Some (exist @ [buildDivideUpstream (mvc_uri dto)]))))) s = (Inr us, s)"
    and rest: "(case us of None \<Rightarrow> i = sdo_id r \<and> s' = s | Some us \<Rightarrow> sd \<noteq> None \<and> i = sdo_id r \<and> 
       (\<exists>t. selector_updateSelective (r\<lparr>sdo_handle := Some (re_toJson env us)\<rparr>) (ad_tables s) = Inr t \<and> ad_tables s' = t))"
    using run unfolding handlerSpringMvcSelector_def Let_def run_Inr
    by (fastforce simp: run_Inr upstream_submit_def selector_buildByName_def split: option.splits if_splits)
  show ?thesis
  proof (cases us)
    case None
    then have "offers env (mvc_uri dto) r" using us by (auto simp: run_Inr offers_def split: if_splits)
    then show ?thesis using None rest Some by auto
  next
    case (Some us')
    then have "mvc_uri dto \<in> du_upstreamUrl ` set us'" using us by (auto simp: run_Inr buildDivideUpstream_def split: if_splits)
    then have "offers env (mvc_uri dto) (r\<lparr>sdo_handle := Some (re_toJson env us')\<rparr>)"
      by (intro offers_written [OF assms(1)]) simp_all
    then show ?thesis
      using row_with_handle_updated [OF \<open>selector_selectByName (smr_context dto) (ad_tables s) = Some r\<close>] rest Some by fastforce
  qed
qed

lemma mvc_rule_done:
  assumes "handlerSpringMvcRule env i dto s = (Inr (), s')"
  shows "rule_selectByName (smr_ruleName dto) (ad_tables s') \<noteq> None
    \<and> tb_selectors (ad_tables s') = tb_selectors (ad_tables s) \<and> tb_metas (ad_tables s') = tb_metas (ad_tables s)"
proof (cases "rule_selectByName (smr_ruleName dto) (ad_tables s)")
  case None
  then obtain j where "rule_register (re_uuid env) (registered_rule env i (smr_path dto) (smr_rpcType dto) (smr_ruleName dto)) s = (Inr j, s')"
    using assms by (auto simp: handlerSpringMvcRule_def registerRule_def run_Inr)
  from rule_registers [OF register_ids(2) this] show ?thesis
    using None by (auto simp: rule_saved_def is_empty_ref_def rule_selectByName_def row_with_append split: option.splits)
next
  case (Some r)
  then show ?thesis using assms by (auto simp: handlerSpringMvcRule_def run_Inr)
qed

text \<open>
  C12: Registering an http service is idempotent. Once a client's registration has succeeded, the same
  registration again succeeds and changes nothing: no row, no identifier, no upstream and no event is added,
  whatever selectors, rules and meta data were there before.
\<close>

theorem mvc_registration_idempotent:
  assumes "json_ok env" and "smr_rpcType dto = rpc_type_name RPC_HTTP"
    and "registerSpringMvc env dto s = (Inr x, s')"
  shows "registerSpringMvc env dto s' = (Inr ''success'', s')"
proof -
  obtain s1 s2 i where run: "(if smr_registerMetaData dto
         then andthen (query (meta_findByPath (smr_path dto))) (\<lambda>exist.
              if exist = None then saveSpringMvcMetaData env dto else returns ())
         else returns ()) s = (Inr (), s1)" "handlerSpringMvcSelector env dto s1 = (Inr i, s2)"
      "handlerSpringMvcRule env i dto s2 = (Inr (), s')"
    using assms(3) unfolding registerSpringMvc_def run_Inr by auto
  obtain r where r: "selector_selectByName (smr_context dto) (ad_tables s') = Some r" "sdo_id r = i" "offers env (mvc_uri dto) r"
    using mvc_selector_done [OF assms(1,2) run(2)] mvc_rule_done [OF run(3)] by (auto simp: selector_selectByName_def)
  have m: "smr_registerMetaData dto \<longrightarrow> meta_findByPath (smr_path dto) (ad_tables s') \<noteq> None"
    using mvc_meta_done [OF run(1)] mvc_selector_done [OF assms(1,2) run(2)] mvc_rule_done [OF run(3)] by (auto simp: meta_findByPath_def)
  obtain us where "\<not> is_blank (sdo_handle r)" "re_fromList env (sdo_handle r) = Inr (Some us)" "mvc_uri dto \<in> du_upstreamUrl ` set us"
    using r(3) by (auto simp: offers_def)
  then have "handlerSpringMvcSelector env dto s' = (Inr i, s')"
    using r(1,2) by (simp add: handlerSpringMvcSelector_def run_Inr selector_buildByName_def Let_def)
  moreover have "handlerSpringMvcRule env i dto s' = (Inr (), s')"
    using mvc_rule_done [OF run(3)] by (auto simp: handlerSpringMvcRule_def run_Inr)
  ultimately show ?thesis using m by (auto simp: registerSpringMvc_def run_Inr)
qed

text \<open>A reading and writing of upstreams that agree; a client and an admin with the divide plugin.\<close>

definition sample_write :: "string \<Rightarrow> string" where
  "sample_write v = replicate (length v) CHR ''1'' @ CHR ''0'' # v"

definition sample_read :: "string \<Rightarrow> string \<times> string" where
  "sample_read w = (let n = length (takeWhile ((=) CHR ''1'') w); v = drop (Suc n) w in (take n v, drop n v))"

lemma sample_read_write [simp]: "sample_read (sample_write v @ w) = (v, w)"
proof -
  have "takeWhile ((=) CHR ''1'') (replicate n CHR ''1'' @ CHR ''0'' # u) = replicate n CHR ''1''" for n u by (induction n) simp_all
  then show ?thesis by (simp add: sample_read_def sample_write_def Let_def)
qed

definition sample_upstream_fields :: "divide_upstream \<Rightarrow> string list" where
  "sample_upstream_fields u = [(case du_upstreamHost u of None \<Rightarrow> '''' | Some h \<Rightarrow> CHR ''s'' # h),
     (case du_protocol u of None \<Rightarrow> '''' | Some h \<Rightarrow> CHR ''s'' # h), du_upstreamUrl u,
     (if du_weight u < 0 then CHR ''-'' else CHR ''+'') # replicate (nat \<bar>du_weight u\<bar>) CHR ''1'']"

fun sample_upstreams :: "string list \<Rightarrow> divide_upstream list" where
  "sample_upstreams (h # p # url # w # rest) =
     \<lparr>du_upstreamHost = (if h = '''' then None else Some (tl h)), du_protocol = (if p = '''' then None else Some (tl p)),
      du_upstreamUrl = url, du_weight = (if hd w = CHR ''-'' then - int (length (tl w)) else int (length (tl w)))\<rparr> # sample_upstreams rest"
| "sample_upstreams _ = []"

fun sample_split :: "nat \<Rightarrow> string \<Rightarrow> string list" where
  "sample_split 0 w = []"
| "sample_split (Suc n) w = (case sample_read w of (v, w') \<Rightarrow> v # sample_split n w')"

definition sample_json :: register_env where
  "sample_json = \<lparr>re_uuid = sample_uuid,
     re_toJson = (\<lambda>us. let vs = concat (map sample_upstream_fields us)
        in sample_write (replicate (length vs) CHR ''1'') @ concat (map sample_write vs)),
     re_fromList = (\<lambda>t. case t of None \<Rightarrow> Inr None
        | Some w \<Rightarrow> (case sample_read w of (n, w') \<Rightarrow> Inr (Some (sample_upstreams (sample_split (length n) w'))))),
     re_handleJson = (\<lambda>h. ''{}'')\<rparr>"

lemma sample_json_ok: "json_ok sample_json"
proof -
  have split: "sample_split (length vs) (concat (map sample_write vs)) = vs" for vs
    by (induction vs) simp_all
  have ups: "sample_upstreams (concat (map sample_upstream_fields us)) = us" for us
    by (induction us) (auto simp: sample_upstream_fields_def split: option.split)
  have "\<not> is_blank (Some (re_toJson sample_json us))" for us
    by (cases us) (simp_all add: sample_json_def sample_write_def is_blank_def is_whitespace_def Let_def sample_upstream_fields_def)
  moreover have "re_fromList sample_json (Some (re_toJson sample_json us)) = Inr (Some us)" for us
    by (simp add: sample_json_def Let_def split ups)
  ultimately show ?thesis by (simp add: json_ok_def)
qed

definition sample_divide :: plugin_do where
  "sample_divide = \<lparr>pdo_id = ''5'', pdo_name = ''divide'', pdo_config = None, pdo_enabled = True, pdo_role = 0\<rparr>"

definition register_tables :: tables where
  "register_tables = sample_tables\<lparr>tb_plugins := [sample_divide, sample_divide\<lparr>pdo_id := ''6'', pdo_name := ''dubbo''\<rparr>]\<rparr>"

definition register_admin :: "divide_upstream list admin" where
  "register_admin = \<lparr>ad_tables = register_tables, ad_upstreams = Map.empty, ad_next = 0, ad_published = []\<rparr>"

definition sample_mvc :: spring_mvc_register_dto where
  "sample_mvc = \<lparr>smr_appName = ''app'', smr_context = ''/http'', smr_path = ''/http/**'', smr_pathDesc = '''', smr_rpcType = ''http'',
     smr_host = ''h'', smr_port = 80, smr_ruleName = ''/http/**'', smr_enabled = True, smr_registerMetaData = True\<rparr>"

lemma sample_mvc_registers: "fst (registerSpringMvc sample_json sample_mvc register_admin) = Inr ''success''"
  by code_simp

lemma mvc_registration_idempotent_witness:
  "registerSpringMvc sample_json sample_mvc (snd (registerSpringMvc sample_json sample_mvc register_admin))
     = (Inr ''success'', snd (registerSpringMvc sample_json sample_mvc register_admin))"
proof -
  have "registerSpringMvc sample_json sample_mvc register_admin
      = (Inr ''success'', snd (registerSpringMvc sample_json sample_mvc register_admin))"
    using sample_mvc_registers by (metis prod.collapse)
  then show ?thesis by (intro mvc_registration_idempotent [OF sample_json_ok]) (simp_all add: sample_mvc_def)
qed

end
