(* ===== verification/RegisterRuns.thy ===== *)
theory RegisterRuns
  imports RegisterFacts
begin

text \<open>
  Registrations of Dubbo services, and the health check of the upstreams against what the dashboard saves.
\<close>

subsection \<open>Registering a Dubbo service\<close>

lemma registerSelector_saved:
  assumes "registerSelector env c ty app uri s = (Inr i, s')"
  shows "\<exists>d ev. sdt_id d = None \<and> sdt_name d = c \<and> ad_published s' = ad_published s @ [ev]
    \<and> selector_saved d i (ad_tables s) (ad_tables s') ev"
proof -
  obtain d s0 where d: "sdt_id d = None" "sdt_name d = c" "selector_register (re_uuid env) d s0 = (Inr i, s')"
    and s0: "ad_tables s0 = ad_tables s" "ad_published s0 = ad_published s"
  proof (cases "ty = rpc_type_name RPC_DUBBO \<or> ty = rpc_type_name RPC_SPRING_CLOUD \<or> ty = rpc_type_name RPC_SOFA")
    case True
    then show ?thesis using assms that [of "registered_selector c _ _" s]
      by (auto simp: registerSelector_def split: if_splits)
  next
    case False
    define s0 where "s0 = snd (upstream_submit c (buildDivideUpstream uri) s)"
    have "ad_tables s0 = ad_tables s" "ad_published s0 = ad_published s" by (simp_all add: s0_def upstream_submit_def)
    then show ?thesis using assms False that [of "registered_selector c ''5'' _" s0]
      by (auto simp: registerSelector_def run_Inr Let_def s0_def [symmetric] split: if_splits)
  qed
  obtain ev where "ad_published s' = ad_published s0 @ [ev]" "selector_saved d i (ad_tables s0) (ad_tables s') ev"
    using selector_registers [OF d(1,3)] by blast
  then show ?thesis using d s0 by auto
qed

lemma registerRule_saved:
  assumes "registerRule env i path ty n s = (Inr (), s')"
  shows "\<exists>d j ev. rdt_id d = None \<and> rdt_name d = n \<and> ad_published s' = ad_published s @ [ev]
    \<and> rule_saved d j (ad_tables s) (ad_tables s') ev"
proof -
  obtain j where "rule_register (re_uuid env) (registered_rule env i path ty n) s = (Inr j, s')"
    using assms by (auto simp: registerRule_def run_Inr)
  from rule_registers [OF register_ids(2) this] show ?thesis
    by (intro exI [of _ "registered_rule env i path ty n"] exI [of _ j]) simp
qed

lemma dubbo_selector_done:
  assumes "handlerDubboSelector env dto s = (Inr i, s')"
  shows "(\<exists>r. selector_selectByName (the (mdt_contextPath dto)) (ad_tables s') = Some r)
    \<and> tb_metas (ad_tables s') = tb_metas (ad_tables s) \<and> tb_rules (ad_tables s') = tb_rules (ad_tables s)
    \<and> (\<exists>evs. ad_published s' = ad_published s @ evs \<and> (\<forall>ev\<in>set evs. rows_group (event_rows ev) = G_SELECTOR))"
proof (cases "selector_selectByName (the (mdt_contextPath dto)) (ad_tables s)")
  case None
  then have "registerSelector env (the (mdt_contextPath dto)) (the (mdt_rpcType dto)) (the (mdt_appName dto)) '''' s = (Inr i, s')"
    using assms by (simp add: handlerDubboSelector_def run_Inr Let_def)
  from registerSelector_saved [OF this] obtain d ev where d: "sdt_id d = None" "sdt_name d = the (mdt_contextPath dto)"
    "ad_published s' = ad_published s @ [ev]" "selector_saved d i (ad_tables s) (ad_tables s') ev" by blast
  have "rows_group (event_rows ev) = G_SELECTOR" using d(4) by (auto simp: selector_saved_def)
  then show ?thesis using None d by (auto simp: selector_saved_def is_empty_ref_def selector_selectByName_def row_with_append)
next
  case (Some r)
  then show ?thesis using assms by (auto simp: handlerDubboSelector_def run_Inr Let_def)
qed

lemma dubbo_rule_done:
  assumes "handlerDubboRule env i dto s = (Inr (), s')"
  shows "(rule_selectByName (the (mdt_path dto)) (ad_tables s') = None \<longrightarrow> rrd_ruleName dto \<in> rdo_name ` set (tb_rules (ad_tables s')))
    \<and> tb_metas (ad_tables s') = tb_metas (ad_tables s) \<and> tb_selectors (ad_tables s') = tb_selectors (ad_tables s)
    \<and> (\<exists>evs. ad_published s' = ad_published s @ evs \<and> (\<forall>ev\<in>set evs. rows_group (event_rows ev) = G_RULE))"
proof (cases "rule_selectByName (the (mdt_path dto)) (ad_tables s)")
  case None
  then have "registerRule env i (the (mdt_path dto)) (the (mdt_rpcType dto)) (rrd_ruleName dto) s = (Inr (), s')"
    using assms by (simp add: handlerDubboRule_def run_Inr)
  from registerRule_saved [OF this] obtain d j ev where d: "rdt_id d = None" "rdt_name d = rrd_ruleName dto"
    "ad_published s' = ad_published s @ [ev]" "rule_saved d j (ad_tables s) (ad_tables s') ev" by blast
  have "rows_group (event_rows ev) = G_RULE" using d(4) by (auto simp: rule_saved_def)
  then show ?thesis using None d by (auto simp: rule_saved_def is_empty_ref_def)
next
  case (Some r)
  then show ?thesis using assms by (auto simp: handlerDubboRule_def run_Inr)
qed

text \<open>The row of the path after its meta data is saved: what was published and that it can be saved again.\<close>

lemma dubbo_meta_done:
  assumes ids: "distinct (map mdo_id (tb_metas (ad_tables s)))"
    and run: "saveOrUpdateMetaData env (meta_findByPath (the (mdt_path dto)) (ad_tables s)) dto s = (Inr (), s')"
  shows "\<exists>e ty. meta_findByPath (the (mdt_path dto)) (ad_tables s') = Some e
    \<and> the (mdt_path dto) \<notin> mdo_path ` set (delete_with mdo_id (mdo_id e) (tb_metas (ad_tables s')))
    \<and> tb_rules (ad_tables s') = tb_rules (ad_tables s)
    \<and> ad_published s' = ad_published s @ [MetaChanged ty [Some (meta_of_dto (meta_data_dto.truncate dto))]] \<and> ty \<in> {EV_CREATE, EV_UPDATE}
    \<and> (\<forall>old. meta_findByPath (the (mdt_path dto)) (ad_tables s) = Some old \<longrightarrow> mdo_enabled e = mdo_enabled old)"
proof (cases "meta_findByPath (the (mdt_path dto)) (ad_tables s)")
  case None
  let ?p = "the (mdt_path dto)" and ?r = "meta_mapToEntity (re_uuid env (ad_next s)) (meta_data_dto.truncate dto)"
  have r: "mdo_path ?r = ?p" by (simp add: meta_mapToEntity_def meta_data_dto.truncate_def)
  have p: "?p \<notin> mdo_path ` set (tb_metas (ad_tables s))" using None by (simp add: meta_findByPath_def row_with_None)
  have s': "ad_tables s' = (ad_tables s)\<lparr>tb_metas := tb_metas (ad_tables s) @ [?r]\<rparr>"
    "ad_published s' = ad_published s @ [MetaChanged EV_CREATE [Some (meta_of_dto (meta_data_dto.truncate dto))]]"
    using run None by (auto simp: saveOrUpdateMetaData_def run_Inr Let_def meta_insert_def insert_row_def split: if_splits)
  show ?thesis
    by (rule exI [of _ ?r], rule exI [of _ EV_CREATE])
      (use None p r in \<open>auto simp: s' meta_findByPath_def row_with_append delete_with_def\<close>)
next
  case (Some old)
  let ?p = "the (mdt_path dto)" and ?r = "meta_mapToEntity (mdo_id old) (meta_data_dto.truncate dto)" and ?rs = "tb_metas (ad_tables s)"
  have r: "mdo_path ?r = ?p" "mdo_id ?r = mdo_id old" by (simp_all add: meta_mapToEntity_def meta_data_dto.truncate_def)
  have old: "old \<in> set ?rs" "mdo_path old = ?p" using row_with_Some Some by (fastforce simp: meta_findByPath_def)+
  have p: "?p \<notin> mdo_path ` set (delete_with mdo_id (mdo_id old) ?rs)" and
    s': "ad_tables s' = (ad_tables s)\<lparr>tb_metas := update_with mdo_id (mdo_id old) (\<lambda>o'. ?r\<lparr>mdo_enabled := mdo_enabled o'\<rparr>) ?rs\<rparr>"
    "ad_published s' = ad_published s @ [MetaChanged EV_UPDATE [Some (meta_of_dto (meta_data_dto.truncate dto))]]"
    using run Some old r by (auto simp: saveOrUpdateMetaData_def run_Inr Let_def meta_update_def split: if_splits)
  define upd where "upd = (\<lambda>o'::meta_data_do. ?r\<lparr>mdo_enabled := mdo_enabled o'\<rparr>)"
  have upd: "mdo_id (upd o') = mdo_id old" "mdo_path (upd o') = ?p" "mdo_enabled (upd o') = mdo_enabled o'" for o'
    by (simp_all add: upd_def r)
  have t': "ad_tables s' = (ad_tables s)\<lparr>tb_metas := update_with mdo_id (mdo_id old) upd ?rs\<rparr>" unfolding upd_def by (rule s'(1))
  have "row_with mdo_path ?p rs = Some old \<Longrightarrow> distinct (map mdo_id rs) \<Longrightarrow>
      row_with mdo_path ?p (update_with mdo_id (mdo_id old) upd rs) = Some (upd old)" for rs
    using row_with_Some [of mdo_path ?p _ old] by (induction rs) (fastforce simp: row_with_def update_with_def upd split: if_splits)+
  then have "meta_findByPath ?p (ad_tables s') = Some (upd old)"
    using Some ids by (simp add: meta_findByPath_def t')
  moreover have "?p \<notin> mdo_path ` set (delete_with mdo_id (mdo_id (upd old)) (tb_metas (ad_tables s')))"
  proof -
    have "delete_with mdo_id (mdo_id old) (update_with mdo_id (mdo_id old) upd rs) = delete_with mdo_id (mdo_id old) rs" for rs
      by (induction rs) (simp_all add: delete_with_def update_with_def upd(1))
    then show ?thesis using p by (simp add: t' upd(1))
  qed
  moreover have "tb_rules (ad_tables s') = tb_rules (ad_tables s)" by (simp add: t')
  moreover have "EV_UPDATE \<in> {EV_CREATE, EV_UPDATE}" by simp
  moreover have "\<forall>o'. meta_findByPath ?p (ad_tables s) = Some o' \<longrightarrow> mdo_enabled (upd old) = mdo_enabled o'"
    using Some by (simp add: upd(3))
  ultimately show ?thesis using s'(2) by blast
qed

lemma registerDubbo_steps:
  assumes "registerDubbo env dto s = (Inr x, s')"
  obtains s1 s2 i where "saveOrUpdateMetaData env (meta_findByPath (the (mdt_path dto)) (ad_tables s)) dto s = (Inr (), s1)"
    "handlerDubboSelector env dto s1 = (Inr i, s2)" "handlerDubboRule env i dto s2 = (Inr (), s')"
  using assms by (auto simp: registerDubbo_def run_Inr)

lemma andthen_runs:
  "m s = (Inl e, s1) \<Longrightarrow> andthen m f s = (Inl e, s1)" "m s = (Inr x, s1) \<Longrightarrow> andthen m f s = f x s1"
  by (simp_all add: andthen_def)

lemma registerRule_taken:
  assumes "n \<in> rdo_name ` set (tb_rules (ad_tables s))"
  shows "registerRule env i path ty n s = (Inl duplicate, s\<lparr>ad_next := ad_next s + 1\<rparr>)"
proof -
  define row where "row = rule_row (re_uuid env (ad_next s)) (registered_rule env i path ty n)"
  have "execute (rule_insertSelective row) (s\<lparr>ad_next := ad_next s + 1\<rparr>) = (Inl duplicate, s\<lparr>ad_next := ad_next s + 1\<rparr>)"
    using assms by (simp add: svc_run_last rule_insertSelective_def row_def)
  note fail = andthen_runs(1) [where m = "execute (rule_insertSelective row)", OF this]
  show ?thesis
    unfolding registerRule_def rule_register_def build_rows svc_simps andthen_row_id
    by (simp add: is_empty_ref_def row_def [symmetric] fail [simplified])
qed

text \<open>
  C34: A Dubbo service whose rule is not named after its path can be registered only once. Its rule is
  looked up by the path, is not found, and is saved again under its name, which is taken: the second
  registration, a restart of the client, fails. The tables are rolled back, but the event with the meta data
  has gone out.
\<close>

theorem dubbo_registers_once:
  assumes "distinct (map mdo_id (tb_metas (ad_tables s)))"
    and run: "registerDubbo env dto s = (Inr x, s')"
    and other: "rule_selectByName (the (mdt_path dto)) (ad_tables s') = None"
  shows "\<exists>s''. registerDubbo env dto s' = (Inl duplicate, s'') \<and> ad_tables s'' = ad_tables s'
    \<and> ad_published s'' = ad_published s' @ [MetaChanged EV_UPDATE [Some (meta_of_dto (meta_data_dto.truncate dto))]]"
proof -
  let ?p = "the (mdt_path dto)"
  obtain s1 s2 i where steps: "saveOrUpdateMetaData env (meta_findByPath ?p (ad_tables s)) dto s = (Inr (), s1)"
    "handlerDubboSelector env dto s1 = (Inr i, s2)" "handlerDubboRule env i dto s2 = (Inr (), s')"
    by (rule registerDubbo_steps [OF run])
  note m = dubbo_meta_done [OF assms(1) steps(1)] and se = dubbo_selector_done [OF steps(2)] and ru = dubbo_rule_done [OF steps(3)]
  have metas: "tb_metas (ad_tables s') = tb_metas (ad_tables s1)" using se ru by simp
  obtain e where e: "meta_findByPath ?p (ad_tables s') = Some e"
    "?p \<notin> mdo_path ` set (delete_with mdo_id (mdo_id e) (tb_metas (ad_tables s')))"
    using m unfolding meta_findByPath_def metas by blast
  obtain r where r: "selector_selectByName (the (mdt_contextPath dto)) (ad_tables s') = Some r"
    using se ru by (auto simp: selector_selectByName_def)
  have name: "rrd_ruleName dto \<in> rdo_name ` set (tb_rules (ad_tables s'))" using ru other by blast
  let ?d = "meta_data_dto.truncate dto"
  define s3 where "s3 = s'\<lparr>ad_tables := (ad_tables s')\<lparr>tb_metas := update_with mdo_id (mdo_id e)
      (\<lambda>o'. (meta_mapToEntity (mdo_id e) ?d)\<lparr>mdo_enabled := mdo_enabled o'\<rparr>) (tb_metas (ad_tables s'))\<rparr>,
    ad_published := ad_published s' @ [MetaChanged EV_UPDATE [Some (meta_of_dto ?d)]]\<rparr>"
  have ids: "mdo_path (meta_mapToEntity (mdo_id e) ?d) = ?p" "mdo_id (meta_mapToEntity (mdo_id e) ?d) = mdo_id e"
    by (simp_all add: meta_mapToEntity_def meta_data_dto.truncate_def)
  have 1: "saveOrUpdateMetaData env (Some e) dto s' = (Inr (), s3)"
    using e(2) by (simp add: saveOrUpdateMetaData_def svc_run svc_run_last meta_update_def ids s3_def Let_def)
  have 2: "handlerDubboSelector env dto s3 = (Inr (sdo_id r), s3)"
    using r by (simp add: handlerDubboSelector_def svc_run s3_def selector_selectByName_def Let_def)
  have 3: "handlerDubboRule env (sdo_id r) dto s3 = (Inl duplicate, s3\<lparr>ad_next := ad_next s3 + 1\<rparr>)"
    using other name by (simp add: handlerDubboRule_def svc_run registerRule_taken s3_def rule_selectByName_def)
  have "registerDubbo env dto s' = (Inl duplicate, s3\<lparr>ad_next := ad_next s3 + 1, ad_tables := ad_tables s'\<rparr>)"
    unfolding registerDubbo_def transactional_def using e(1) 1 2 3 by (simp add: svc_run andthen_def [of "saveOrUpdateMetaData a b c" for a b c]
      andthen_def [of "handlerDubboSelector a b" for a b] andthen_def [of "handlerDubboRule a b c" for a b c])
  then show ?thesis by (simp add: s3_def)
qed

definition sample_dubbo :: rpc_register_dto where
  "sample_dubbo = \<lparr>mdt_id = None, mdt_appName = Some ''app'', mdt_contextPath = Some ''/dubbo'', mdt_path = Some ''/dubbo/get'', mdt_pathDesc = '''',
     mdt_rpcType = Some ''dubbo'', mdt_serviceName = Some ''Service'', mdt_methodName = Some ''get'', mdt_parameterTypes = None, mdt_rpcExt = None,
     mdt_enabled = True, rrd_ruleName = ''get''\<rparr>"

definition sample_dubbo_admin :: "divide_upstream list admin" where
  "sample_dubbo_admin = snd (registerDubbo sample_json sample_dubbo register_admin)"

lemma sample_dubbo_registers: "registerDubbo sample_json sample_dubbo register_admin = (Inr ''success'', sample_dubbo_admin)"
proof -
  have "fst (registerDubbo sample_json sample_dubbo register_admin) = Inr ''success''" by code_simp
  then show ?thesis unfolding sample_dubbo_admin_def by (metis prod.collapse)
qed

lemma dubbo_registers_once_witness:
  "\<exists>s''. registerDubbo sample_json sample_dubbo sample_dubbo_admin = (Inl duplicate, s'') \<and> ad_tables s'' = ad_tables sample_dubbo_admin
    \<and> ad_published s'' = ad_published sample_dubbo_admin @ [MetaChanged EV_UPDATE [Some (meta_of_dto (meta_data_dto.truncate sample_dubbo))]]"
proof (rule dubbo_registers_once [OF _ sample_dubbo_registers])
  show "distinct (map mdo_id (tb_metas (ad_tables register_admin)))"
    by (simp add: register_admin_def register_tables_def sample_tables_def)
  show "rule_selectByName (the (mdt_path sample_dubbo)) (ad_tables sample_dubbo_admin) = None" by code_simp
qed

subsection \<open>What the gateway is told of a Dubbo service\<close>

lemma handleResult_runs: "handleResult hm (ws_message (DataChangedEvent ty rows)) g = ws_executor hm rows (data_event_type_name ty) g"
  by (simp add: handleResult_def ws_message_def)

lemma deliver_metas:
  assumes "rows_group (event_rows ev) \<in> {G_SELECTOR, G_RULE}"
  shows "gw_metas (lk_gateway (deliver hm ev st)) = gw_metas (lk_gateway st)"
proof -
  obtain ty rows where ev: "ev = DataChangedEvent ty rows" by (cases ev)
  have "gw_metas (fst (on_sub f g)) = gw_metas g" for f and g :: "'a gateway" by (simp add: on_sub_def split: prod.split)
  then have "gw_metas (fst (ws_executor hm rows n g)) = gw_metas g" for n g
    using assms ev by (cases rows) (simp_all add: ws_executor_def)
  moreover have "handleResult hm (ws_message ev) g = ws_executor hm rows (data_event_type_name ty) g" for g
    by (simp add: handleResult_runs ev)
  ultimately show ?thesis by (simp add: deliver_def)
qed

lemma deliver_frames [simp]: "lk_admin (deliver hm ev st) = lk_admin st" "linked (deliver hm ev st) = linked st"
  by (simp_all add: deliver_def linked_def)

lemma deliver_frames_all: "lk_admin (fold (deliver hm) evs st) = lk_admin st" "linked (fold (deliver hm) evs st) = linked st"
  by (induction evs arbitrary: st) simp_all

lemma deliver_metas_all:
  "\<forall>ev\<in>set evs. rows_group (event_rows ev) \<in> {G_SELECTOR, G_RULE} \<Longrightarrow>
     gw_metas (lk_gateway (fold (deliver hm) evs st)) = gw_metas (lk_gateway st)"
proof (induction evs arbitrary: st)
  case (Cons ev evs)
  then show ?case using deliver_metas [of ev hm st] by (simp del: One_nat_def)
qed simp

text \<open>
  Registering a Dubbo service again turns its meta data on at the gateway that the dashboard has turned off.
  The update leaves the row as it is, disabled, but the event carries what the client sent, enabled: the
  gateway serves the path again while the dashboard shows it disabled.
\<close>

theorem dubbo_registration_reenables:
  assumes "linked st" and "distinct (map mdo_id (tb_metas (ad_tables (lk_admin st))))"
    and run: "registerDubbo env dto (lk_admin st) = (Inr x, s')"
    and off: "meta_findByPath (the (mdt_path dto)) (ad_tables (lk_admin st)) = Some old" "\<not> mdo_enabled old" and on: "mdt_enabled dto"
  shows "\<exists>row m. meta_findByPath (the (mdt_path dto)) (ad_tables (lk_admin (serve hm (quietly (registerDubbo env dto)) st))) = Some row
    \<and> \<not> mdo_enabled row
    \<and> meta_get (gw_metas (lk_gateway (serve hm (quietly (registerDubbo env dto)) st))) (the (mdt_path dto)) = Some m \<and> md_enabled m"
proof -
  let ?p = "the (mdt_path dto)" and ?m = "meta_of_dto (meta_data_dto.truncate dto)"
  obtain s1 s2 i where steps: "saveOrUpdateMetaData env (meta_findByPath ?p (ad_tables (lk_admin st))) dto (lk_admin st) = (Inr (), s1)"
    "handlerDubboSelector env dto s1 = (Inr i, s2)" "handlerDubboRule env i dto s2 = (Inr (), s')"
    by (rule registerDubbo_steps [OF run])
  note m = dubbo_meta_done [OF assms(2) steps(1)] and se = dubbo_selector_done [OF steps(2)] and ru = dubbo_rule_done [OF steps(3)]
  have "meta_findByPath ?p (ad_tables s') = meta_findByPath ?p (ad_tables s1)" using se ru by (simp add: meta_findByPath_def)
  then obtain row ty where row: "meta_findByPath ?p (ad_tables s') = Some row" "\<not> mdo_enabled row"
    and ty: "ad_published s1 = ad_published (lk_admin st) @ [MetaChanged ty [Some ?m]]" "ty \<in> {EV_CREATE, EV_UPDATE}"
    using m off by auto
  obtain evs where evs: "ad_published s' = ad_published (lk_admin st) @ MetaChanged ty [Some ?m] # evs"
    "\<forall>ev\<in>set evs. rows_group (event_rows ev) \<in> {G_SELECTOR, G_RULE}"
  proof -
    obtain es er where "ad_published s2 = ad_published s1 @ es" "\<forall>ev\<in>set es. rows_group (event_rows ev) = G_SELECTOR"
      "ad_published s' = ad_published s2 @ er" "\<forall>ev\<in>set er. rows_group (event_rows ev) = G_RULE" using se ru by blast
    then show ?thesis using ty(1) that [of "es @ er"] by auto
  qed
  define st1 where "st1 = deliver hm (MetaChanged ty [Some ?m]) (st\<lparr>lk_admin := s'\<rparr>)"
  have st': "serve hm (quietly (registerDubbo env dto)) st = fold (deliver hm) evs st1"
    using run evs(1) by (simp add: serve_def quietly_state Let_def st1_def)
  have "receives (st\<lparr>lk_admin := s'\<rparr>) (MetaChanged ty [Some ?m])" using linked_receives [OF assms(1)] by simp
  then have "gw_metas (lk_gateway st1) = meta_cache ?m (gw_metas (lk_gateway st))"
    using ty(2) by (auto simp: st1_def deliver_def handleResult_runs ws_executor_def handle_def nullable_def meta_sub_def meta_onSubscribe_def)
  then have "meta_get (gw_metas (lk_gateway (fold (deliver hm) evs st1))) ?p = Some ?m"
    unfolding deliver_metas_all [OF evs(2)] by (simp add: meta_get_def meta_cache_def meta_of_dto_def meta_data_dto.truncate_def)
  moreover have "md_enabled ?m" using on by (simp add: meta_of_dto_def meta_data_dto.truncate_def)
  moreover have "ad_tables (lk_admin (fold (deliver hm) evs st1)) = ad_tables s'" by (simp add: deliver_frames_all st1_def)
  ultimately show ?thesis unfolding st' using row by auto
qed

definition sample_client :: "divide_upstream list admin \<Rightarrow> (divide_upstream list, unit) link" where
  "sample_client adm = \<lparr>lk_admin = adm, lk_SESSION_SET = [0], lk_session = Some 0, lk_fresh = 1, lk_client = Some 0,
     lk_alreadySync = True, lk_gateway = \<lparr>gw_sub = start_state (), gw_auths = Map.empty, gw_metas = Map.empty\<rparr>\<rparr>"

definition sample_row :: meta_data_do where
  "sample_row = (meta_mapToEntity ''m'' (meta_data_dto.truncate sample_dubbo))\<lparr>mdo_enabled := False\<rparr>"

definition disabled_admin :: "divide_upstream list admin" where
  "disabled_admin = register_admin\<lparr>ad_tables := register_tables\<lparr>tb_metas := [sample_row]\<rparr>\<rparr>"

lemma dubbo_registration_reenables_witness:
  "\<exists>row m. meta_findByPath ''/dubbo/get'' (ad_tables (lk_admin (serve sample_handlers (quietly (registerDubbo sample_json sample_dubbo))
        (sample_client disabled_admin)))) = Some row \<and> \<not> mdo_enabled row
    \<and> meta_get (gw_metas (lk_gateway (serve sample_handlers (quietly (registerDubbo sample_json sample_dubbo))
        (sample_client disabled_admin)))) ''/dubbo/get'' = Some m \<and> md_enabled m"
proof -
  have "fst (registerDubbo sample_json sample_dubbo (lk_admin (sample_client disabled_admin))) = Inr ''success''" by code_simp
  then obtain s' where run: "registerDubbo sample_json sample_dubbo (lk_admin (sample_client disabled_admin)) = (Inr ''success'', s')"
    by (metis prod.collapse)
  have "\<exists>row m. meta_findByPath (the (mdt_path sample_dubbo)) (ad_tables (lk_admin (serve sample_handlers (quietly (registerDubbo sample_json sample_dubbo))
        (sample_client disabled_admin)))) = Some row \<and> \<not> mdo_enabled row
    \<and> meta_get (gw_metas (lk_gateway (serve sample_handlers (quietly (registerDubbo sample_json sample_dubbo))
        (sample_client disabled_admin)))) (the (mdt_path sample_dubbo)) = Some m \<and> md_enabled m"
  proof (rule dubbo_registration_reenables [OF _ _ run, where old = sample_row])
    show "linked (sample_client disabled_admin)" by (simp add: linked_def sample_client_def)
    show "distinct (map mdo_id (tb_metas (ad_tables (lk_admin (sample_client disabled_admin)))))" by code_simp
    show "meta_findByPath (the (mdt_path sample_dubbo)) (ad_tables (lk_admin (sample_client disabled_admin))) = Some sample_row" by code_simp
    show "\<not> mdo_enabled sample_row" by (simp add: sample_row_def)
    show "mdt_enabled sample_dubbo" by (simp add: sample_dubbo_def)
  qed
  then show ?thesis by (simp add: sample_dubbo_def)
qed

end
