(* ===== verification/RegisterLink.thy ===== *)
theory RegisterLink
  imports RegisterRuns
begin

text \<open>
  The health check of \<open>UpstreamCheckService\<close> against what the dashboard saves, and the gateway after registrations
  and checks.
\<close>

subsection \<open>Handles that are replaced\<close>

definition with_handle :: "selector_do \<Rightarrow> string \<Rightarrow> tables \<Rightarrow> tables" where
  "with_handle r h t = t\<lparr>tb_selectors := update_with sdo_id (sdo_id r) (\<lambda>_. r\<lparr>sdo_handle := Some h\<rparr>) (tb_selectors t)\<rparr>"

lemma update_handle:
  "selector_updateSelective (r\<lparr>sdo_handle := Some h\<rparr>) t = Inl duplicate
   \<or> selector_updateSelective (r\<lparr>sdo_handle := Some h\<rparr>) t = Inr (with_handle r h t)"
  by (simp add: selector_updateSelective_def with_handle_def)

lemma update_handle_unique:
  assumes "distinct (map sdo_name (tb_selectors t))" and "r \<in> set (tb_selectors t)"
  shows "selector_updateSelective (r\<lparr>sdo_handle := Some h\<rparr>) t = Inr (with_handle r h t)"
proof -
  have "sdo_name r \<notin> sdo_name ` set (delete_with sdo_id (sdo_id r) (tb_selectors t))"
    using distinct_key [OF assms(1) assms(2)] by (auto simp: delete_with_def)
  then show ?thesis by (simp add: selector_updateSelective_def with_handle_def)
qed

lemma updateSelectorHandler_run:
  assumes "selector_selectByName n (ad_tables s) = Some r" and "buildSelectorData (ad_tables s) r = Some d"
  shows "updateSelectorHandler env n ups s = (let h = (case ups of None \<Rightarrow> '''' | Some us \<Rightarrow> re_toJson env us)
     in case selector_updateSelective (r\<lparr>sdo_handle := Some h\<rparr>) (ad_tables s) of
          Inl e \<Rightarrow> (Inl e, s)
        | Inr t \<Rightarrow> (Inr (), s\<lparr>ad_tables := t, ad_published := ad_published s @ [SelectorChanged EV_UPDATE [Some (d\<lparr>sd_handle := Some h\<rparr>)]]\<rparr>))"
  using assms by (simp add: updateSelectorHandler_def svc_run svc_run_last selector_buildByName_def Let_def split: sum.split)

lemma save_keeps_upstreams:
  assumes "selector_createOrUpdate uuid d s = (Inr k, s')"
  shows "ad_upstreams s' = ad_upstreams s"
proof -
  have conds: "for_all (insert_selector_condition uuid i) cs s1 = (Inr (), s2) \<Longrightarrow> ad_upstreams s2 = ad_upstreams s1" for i cs and s1 s2 :: "'a admin"
    using insert_selector_conditions [of uuid i cs s1] by auto
  show ?thesis
    using assms unfolding selector_createOrUpdate_def build_rows run_Inr
    by (auto simp: run_Inr row_id_def selector_publish_def split: if_splits dest!: conds)
qed

text \<open>
  C35: The health check undoes what the dashboard saves. It knows only the upstreams that were registered; when
  one of them stops answering, the handle of the selector becomes the others, whatever upstreams
  and weights have been saved for it on the dashboard meanwhile.
\<close>

theorem health_check_undoes_a_save:
  assumes save: "selector_createOrUpdate uuid d s = (Inr k, s1)" and fits: "selector_fits d (ad_tables s)"
    and ok: "tables_ok (ad_tables s)" and names: "distinct (map sdo_name (tb_selectors (ad_tables s1)))"
    and us: "ad_upstreams s (sdt_name d) = Some us"
    and some: "filter (\<lambda>u. checkUrl (du_upstreamUrl u)) us \<noteq> []" "filter (\<lambda>u. checkUrl (du_upstreamUrl u)) us \<noteq> us"
  shows "\<exists>s2 r. upstream_scheduled env checkUrl [sdt_name d] s1 = (Inr (), s2)
    \<and> selector_selectByName (sdt_name d) (ad_tables s2) = Some r
    \<and> sdo_handle r = Some (re_toJson env (filter (\<lambda>u. checkUrl (du_upstreamUrl u)) us))"
proof -
  let ?n = "sdt_name d" and ?alive = "filter (\<lambda>u. checkUrl (du_upstreamUrl u)) us"
  obtain i ev where sv: "selector_saved d i (ad_tables s) (ad_tables s1) ev" using selector_save [OF save] by auto
  have row: "selector_row i d \<in> set (tb_selectors (ad_tables s1))"
  proof (cases "is_empty_ref (sdt_id d)")
    case False
    then obtain old where old: "old \<in> set (tb_selectors (ad_tables s))" "Some (sdo_id old) = sdt_id d" "sdt_handle d = None \<longrightarrow> sdo_handle old = None"
      using fits by (auto simp: selector_fits_def)
    then have "selector_merge (selector_row i d) old = selector_row i d" by (intro merge_fits) simp
    moreover have "the (sdt_id d) = sdo_id old" using old(2) by (metis option.sel)
    then have "sdo_id old = i" using sv False by (auto simp: selector_saved_def)
    ultimately show ?thesis using sv False old(1) by (force simp: selector_saved_def update_with_def)
  qed (use sv in \<open>auto simp: selector_saved_def\<close>)
  have name: "sdo_name (selector_row i d) = ?n" by simp
  have sel: "selector_selectByName ?n (ad_tables s1) = Some (selector_row i d)"
    unfolding selector_selectByName_def using row_with_iff [OF names] row name by blast
  have "tables_ok (ad_tables s1)" using follows_exists [OF ok] follows_selector [OF ok _ sv fits] by blast
  then obtain data where data: "buildSelectorData (ad_tables s1) (selector_row i d) = Some data" using rows_built(1) row by blast
  let ?s = "s1\<lparr>ad_upstreams := (ad_upstreams s1)(?n \<mapsto> ?alive)\<rparr>" and ?h = "re_toJson env ?alive"
  have "length ?alive \<noteq> length us" using some(2) filter_id_conv length_filter_less by (metis less_irrefl)
  moreover have "ad_upstreams s1 ?n = Some us" using save_keeps_upstreams [OF save] us by simp
  ultimately have "upstream_scheduled env checkUrl [?n] s1 = updateSelectorHandler env ?n (Some ?alive) ?s"
    using some(1) by (simp add: upstream_scheduled_def upstream_check_def upstream_put_def andthen_def returns_def Let_def split: sum.split prod.split)
  also have "... = (Inr (), ?s\<lparr>ad_tables := with_handle (selector_row i d) ?h (ad_tables s1),
      ad_published := ad_published s1 @ [SelectorChanged EV_UPDATE [Some (data\<lparr>sd_handle := Some ?h\<rparr>)]]\<rparr>)"
    using updateSelectorHandler_run [of ?n ?s "selector_row i d" data env "Some ?alive"] sel data
    by (simp add: update_handle_unique [OF names row] Let_def)
  finally show ?thesis
    using row_with_handle_updated [OF sel update_handle_unique [OF names row]] by (intro exI conjI) (assumption | simp)+
qed

text \<open>A selector registered by two instances; the dashboard adds a third, the second stops answering.\<close>

definition two_instances :: "divide_upstream list admin" where
  "two_instances = snd (registerSpringMvc sample_json (sample_mvc\<lparr>smr_host := ''g''\<rparr>) (snd (registerSpringMvc sample_json sample_mvc register_admin)))"

definition third_instance :: selector_dto where
  "third_instance = (registered_selector ''/http'' ''5'' (Some (re_toJson sample_json (map buildDivideUpstream [''h:80'', ''g:80'', ''f:80'']))))
     \<lparr>sdt_id := Some ''uu''\<rparr>"

lemma health_check_undoes_a_save_witness:
  "\<exists>s2 r. upstream_scheduled sample_json (\<lambda>url. url \<noteq> ''g:80'') [''/http''] (snd (selector_createOrUpdate sample_uuid third_instance two_instances)) = (Inr (), s2)
    \<and> selector_selectByName ''/http'' (ad_tables s2) = Some r
    \<and> sdo_handle r = Some (re_toJson sample_json [buildDivideUpstream ''h:80''])"
proof -
  have "fst (selector_createOrUpdate sample_uuid third_instance two_instances) = Inr 1" by code_simp
  then have save: "selector_createOrUpdate sample_uuid third_instance two_instances
      = (Inr 1, snd (selector_createOrUpdate sample_uuid third_instance two_instances))" by (metis prod.collapse)
  have n: "sdt_name third_instance = ''/http''" by (simp add: third_instance_def)
  have alive: "filter (\<lambda>u. du_upstreamUrl u \<noteq> ''g:80'') (map buildDivideUpstream [''h:80'', ''g:80'']) = [buildDivideUpstream ''h:80'']"
    by (simp add: buildDivideUpstream_def)
  have "\<exists>s2 r. upstream_scheduled sample_json (\<lambda>url. url \<noteq> ''g:80'') [sdt_name third_instance] (snd (selector_createOrUpdate sample_uuid third_instance two_instances)) = (Inr (), s2)
    \<and> selector_selectByName (sdt_name third_instance) (ad_tables s2) = Some r
    \<and> sdo_handle r = Some (re_toJson sample_json (filter (\<lambda>u. du_upstreamUrl u \<noteq> ''g:80'') (map buildDivideUpstream [''h:80'', ''g:80''])))"
  proof (rule health_check_undoes_a_save [OF save])
    show "selector_fits third_instance (ad_tables two_instances)" by code_simp
    show "tables_ok (ad_tables two_instances)" by code_simp
    show "distinct (map sdo_name (tb_selectors (ad_tables (snd (selector_createOrUpdate sample_uuid third_instance two_instances)))))" by code_simp
    show "ad_upstreams two_instances (sdt_name third_instance) = Some (map buildDivideUpstream [''h:80'', ''g:80''])" by code_simp
    show "filter (\<lambda>u. du_upstreamUrl u \<noteq> ''g:80'') (map buildDivideUpstream [''h:80'', ''g:80'']) \<noteq> []" by (simp add: buildDivideUpstream_def)
    show "filter (\<lambda>u. du_upstreamUrl u \<noteq> ''g:80'') (map buildDivideUpstream [''h:80'', ''g:80'']) \<noteq> map buildDivideUpstream [''h:80'', ''g:80'']"
      by (simp add: buildDivideUpstream_def)
  qed
  then show ?thesis unfolding alive n .
qed

subsection \<open>The gateway after registrations\<close>

text \<open>
  A service is steady when, if it succeeds, caches that followed the tables follow them after the events.
\<close>

definition steady :: "('u, 'a) svc \<Rightarrow> bool" where
  "steady m \<longleftrightarrow> (\<forall>s x s'. m s = (Inr x, s') \<longrightarrow> keeps s s')"

named_theorems steady_intros

lemma steady_andthen [steady_intros]: "steady m \<Longrightarrow> (\<And>x. steady (f x)) \<Longrightarrow> steady (andthen m f)"
  unfolding steady_def run_Inr by (blast intro: keeps_trans)

lemma steady_frames:
  assumes "\<And>s x s'. m s = (Inr x, s') \<Longrightarrow> ad_tables s' = ad_tables s \<and> ad_published s' = ad_published s"
  shows "steady m"
  using assms keeps_same unfolding steady_def by blast

lemma steady_basic [steady_intros]:
  "steady (returns x)" "steady (throws e)" "steady (query q)" "steady (derefs r)" "steady (svc_of v)"
  "steady (generateShortUuid uuid)" "steady (upstream_submit n u)"
  by (rule steady_frames, auto simp: run_Inr upstream_submit_def)+

lemma steady_transactional [steady_intros]: "steady m \<Longrightarrow> steady (transactional m)"
  by (simp add: steady_def run_Inr)

lemma steady_if [steady_intros]: "(b \<Longrightarrow> steady m) \<Longrightarrow> (\<not> b \<Longrightarrow> steady m') \<Longrightarrow> steady (if b then m else m')"
  by simp

lemma steady_option [steady_intros]: "steady m \<Longrightarrow> (\<And>x. steady (f x)) \<Longrightarrow> steady (case v of None \<Rightarrow> m | Some x \<Rightarrow> f x)"
  by (simp split: option.split)

lemma steady_selector_register [steady_intros]:
  assumes "sdt_id d = None"
  shows "steady (selector_register uuid d)"
  unfolding steady_def
proof (intro allI impI)
  fix s s' :: "'a admin" and i assume "selector_register uuid d s = (Inr i, s')"
  then obtain ev where g: "ad_published s' = ad_published s @ [ev]" "selector_saved d i (ad_tables s) (ad_tables s') ev"
    using selector_registers [OF assms] by blast
  show "keeps s s'"
  proof (rule keepsI [OF g(1)])
    fix c assume "tables_ok (ad_tables s)" "follows (ad_tables s) c"
    from follows_selector [OF this g(2)] assms
    show "tables_ok (ad_tables s') \<and> list_all no_nulls [ev] \<and> follows (ad_tables s') (fold cache_effect [ev] c)"
      by (auto simp: selector_fits_def is_empty_ref_def rows_effect_def)
  qed
qed

lemma steady_rule_register [steady_intros]:
  assumes "rdt_id d = None"
  shows "steady (rule_register uuid d)"
  unfolding steady_def
proof (intro allI impI)
  fix s s' :: "'a admin" and i assume "rule_register uuid d s = (Inr i, s')"
  then obtain ev where g: "ad_published s' = ad_published s @ [ev]" "rule_saved d i (ad_tables s) (ad_tables s') ev"
    using rule_registers [OF assms] by blast
  show "keeps s s'"
  proof (rule keepsI [OF g(1)])
    fix c assume "tables_ok (ad_tables s)" "follows (ad_tables s) c"
    from follows_rule [OF this g(2)] assms
    show "tables_ok (ad_tables s') \<and> list_all no_nulls [ev] \<and> follows (ad_tables s') (fold cache_effect [ev] c)"
      by (auto simp: rule_fits_def is_empty_ref_def rows_effect_def)
  qed
qed

text \<open>Meta data is in another table and another cache.\<close>

lemma follows_metas:
  "tables_ok (t\<lparr>tb_metas := ms\<rparr>) = tables_ok t" "follows (t\<lparr>tb_metas := ms\<rparr>) c = follows t c"
proof -
  have "buildSelectorData (t\<lparr>tb_metas := ms\<rparr>) r = buildSelectorData t r" for r
    by (simp add: buildSelectorData_def plugin_selectById_def split: option.split)
  moreover have "buildRuleData (t\<lparr>tb_metas := ms\<rparr>) r = buildRuleData t r" for r
    by (simp add: buildRuleData_def plugin_selectById_def selector_selectById_def split: option.split)
  ultimately show "follows (t\<lparr>tb_metas := ms\<rparr>) c = follows t c"
    by (simp add: follows_def views plugin_selectByName_def)
  show "tables_ok (t\<lparr>tb_metas := ms\<rparr>) = tables_ok t" by (simp add: tables_ok_def)
qed

lemma keeps_metas: "keeps s (s\<lparr>ad_tables := (ad_tables s)\<lparr>tb_metas := ms\<rparr>\<rparr>)"
  by (rule keepsI [of _ _ "[]"]) (simp_all add: follows_metas)

lemma steady_meta [steady_intros]:
  "steady (execute (meta_insert r))" "steady (execute (meta_update r))" "steady (publishEvent (MetaChanged ty [Some m]))"
proof -
  show "steady (execute (meta_insert r))" "steady (execute (meta_update r))"
    by (auto simp: steady_def run_Inr meta_insert_def meta_update_def insert_row_def keeps_metas split: if_splits)
  show "steady (publishEvent (MetaChanged ty [Some m]))"
    unfolding steady_def run_Inr
    by (intro allI impI, rule keepsI [of _ _ "[MetaChanged ty [Some m]]"]) simp_all
qed

text \<open>Replacing a handle, for the selector of that name as it is built from the tables.\<close>

lemma follows_handle:
  assumes ok: "tables_ok t" and fo: "follows t c" and r: "r \<in> set (tb_selectors t)" and d: "buildSelectorData t r = Some d"
  shows "tables_ok (with_handle r h t) \<and> follows (with_handle r h t) (cacheSelectData (d\<lparr>sd_handle := Some h\<rparr>) c)"
proof -
  let ?row = "r\<lparr>sdo_handle := Some h\<rparr>"
  obtain p where p: "plugin_selectById (sdo_pluginId r) t = Some p"
    "d = selector_transFrom r (pdo_name p) (Some (map condition_of_do (rows_with cdo_owner (sdo_id r) (tb_selector_conditions t))))"
    using d by (auto simp: buildSelectorData_def split: option.splits)
  have only: "x = r" if "x \<in> set (tb_selectors t)" "sdo_id x = sdo_id r" for x
    using ok that r by (intro distinct_key [of sdo_id "tb_selectors t"]) (simp_all add: tables_ok_def)
  have set: "set (tb_selectors (with_handle r h t)) = insert ?row {x \<in> set (tb_selectors t). sdo_id x \<noteq> sdo_id r}"
    using r by (simp add: with_handle_def) (rule set_update_with, auto)
  have ids: "map sdo_id (tb_selectors (with_handle r h t)) = map sdo_id (tb_selectors t)"
    by (simp add: with_handle_def map_update_with)
  then have img: "sdo_id ` set (tb_selectors (with_handle r h t)) = sdo_id ` set (tb_selectors t)" by (metis list.set_map)
  show ?thesis
  proof (rule follows_selector_row [OF ok fo])
    show "plugin_selectById (sdo_pluginId ?row) t = Some p" using p(1) by simp
    show "d\<lparr>sd_handle := Some h\<rparr> = selector_transFrom ?row (pdo_name p)
        (Some (map condition_of_do (rows_with cdo_owner (sdo_id ?row) (tb_selector_conditions (with_handle r h t)))))"
      by (simp add: p(2) selector_transFrom_def with_handle_def)
    show "distinct (map sdo_id (tb_selectors (with_handle r h t)))" unfolding ids using ok by (simp add: tables_ok_def)
    show "\<forall>c\<in>set (tb_selector_conditions (with_handle r h t)). cdo_owner c \<in> sdo_id ` set (tb_selectors (with_handle r h t))"
      unfolding img using ok by (simp add: tables_ok_def with_handle_def)
    show "\<forall>x\<in>set (tb_selectors t). sdo_id x = sdo_id ?row \<longrightarrow> sdo_pluginId x = sdo_pluginId ?row" using only by auto
  qed (use set in \<open>simp_all add: with_handle_def\<close>)
qed

lemma keeps_handle:
  assumes "selector_selectByName n (ad_tables s) = Some r" and "buildSelectorData (ad_tables s) r = Some d"
    and "ad_tables s' = with_handle r h (ad_tables s)"
    and "ad_published s' = ad_published s @ [SelectorChanged EV_UPDATE [Some (d\<lparr>sd_handle := Some h\<rparr>)]]"
  shows "keeps s s'"
proof (rule keepsI [OF assms(4)])
  have r: "r \<in> set (tb_selectors (ad_tables s))"
    using assms(1) row_with_Some [of sdo_name n "tb_selectors (ad_tables s)" r] by (simp add: selector_selectByName_def)
  fix c assume "tables_ok (ad_tables s)" "follows (ad_tables s) c"
  from follows_handle [OF this r assms(2)]
  show "tables_ok (ad_tables s') \<and> list_all no_nulls [SelectorChanged EV_UPDATE [Some (d\<lparr>sd_handle := Some h\<rparr>)]]
      \<and> follows (ad_tables s') (fold cache_effect [SelectorChanged EV_UPDATE [Some (d\<lparr>sd_handle := Some h\<rparr>)]] c)"
    by (simp add: assms(3) rows_effect_def)
qed

text \<open>The check of one selector keeps the caches in step even when it fails.\<close>

lemma keeps_updateSelectorHandler: "keeps s (snd (updateSelectorHandler env n ups s))"
proof (cases "selector_selectByName n (ad_tables s)")
  case None
  then show ?thesis by (simp add: updateSelectorHandler_def svc_run keeps_refl)
next
  case r: (Some r)
  show ?thesis
  proof (cases "buildSelectorData (ad_tables s) r")
    case None
    then show ?thesis using r by (simp add: updateSelectorHandler_def svc_run selector_buildByName_def keeps_refl Let_def)
  next
    case (Some d)
    let ?h = "case ups of None \<Rightarrow> '''' | Some us \<Rightarrow> re_toJson env us"
    show ?thesis
      using update_handle [where r = r and h = ?h and t = "ad_tables s"]
    proof
      assume "selector_updateSelective (r\<lparr>sdo_handle := Some ?h\<rparr>) (ad_tables s) = Inl duplicate"
      then show ?thesis by (simp add: updateSelectorHandler_run [OF r Some] Let_def keeps_refl)
    next
      assume "selector_updateSelective (r\<lparr>sdo_handle := Some ?h\<rparr>) (ad_tables s) = Inr (with_handle r ?h (ad_tables s))"
      then show ?thesis by (intro keeps_handle [OF r Some]) (simp_all add: updateSelectorHandler_run [OF r Some] Let_def)
    qed
  qed
qed

lemma keeps_andthen:
  assumes "keeps s (snd (m s))" and "\<And>x s1. keeps s1 (snd (f x s1))"
  shows "keeps s (snd (andthen m f s))"
  using assms keeps_trans by (fastforce simp: andthen_def split: prod.splits sum.splits)

lemma keeps_upstreams:
  "keeps s (snd (upstream_put n us s))" "keeps s (snd (upstream_removeByKey n s))" "keeps s (snd (returns x s))"
  by (simp_all add: upstream_put_def upstream_removeByKey_def returns_def keeps_same)

lemma keeps_check: "keeps s (snd (upstream_check env checkUrl n us s))"
  unfolding upstream_check_def Let_def
  by (auto intro!: keeps_andthen keeps_upstreams keeps_updateSelectorHandler)

lemma keeps_scheduled: "keeps s (snd (upstream_scheduled env checkUrl names s))"
proof -
  have one: "keeps s ((snd ((case ad_upstreams s n of None \<Rightarrow> returns () | Some us \<Rightarrow> upstream_check env checkUrl n us) s)))" for n s
    by (cases "ad_upstreams s n") (simp_all add: keeps_check keeps_upstreams)
  show ?thesis unfolding upstream_scheduled_def
    by (induction names arbitrary: s) (auto intro!: keeps_andthen keeps_upstreams one)
qed

text \<open>Registrations.\<close>

lemma steady_registerSelector [steady_intros]: "steady (registerSelector env c ty app uri)"
  unfolding registerSelector_def Let_def by (intro steady_intros register_ids)

lemma steady_registerRule [steady_intros]: "steady (registerRule env i path ty n)"
  unfolding registerRule_def by (intro steady_intros register_ids)

lemma steady_handlerSpringMvcSelector [steady_intros]: "steady (handlerSpringMvcSelector env dto)"
  unfolding steady_def
proof (intro allI impI)
  fix s s' i assume run: "handlerSpringMvcSelector env dto s = (Inr i, s')"
  show "keeps s s'"
  proof (cases "selector_selectByName (smr_context dto) (ad_tables s)")
    case None
    then have "registerSelector env (smr_context dto) (smr_rpcType dto) (smr_appName dto) (mvc_uri dto) s = (Inr i, s')"
      using run by (simp add: handlerSpringMvcSelector_def run_Inr Let_def)
    then show ?thesis using steady_registerSelector unfolding steady_def by blast
  next
    case (Some r)
    then consider "s' = s" | d h t where "buildSelectorData (ad_tables s) r = Some d"
        "selector_updateSelective (r\<lparr>sdo_handle := Some h\<rparr>) (ad_tables s) = Inr t" "ad_tables s' = t"
        "ad_published s' = ad_published s @ [SelectorChanged EV_UPDATE [Some (d\<lparr>sd_handle := Some h\<rparr>)]]"
      using run unfolding handlerSpringMvcSelector_def Let_def run_Inr
      by (fastforce simp: run_Inr upstream_submit_def selector_buildByName_def split: option.splits if_splits)
    then show ?thesis
    proof cases
      case (2 d h t)
      then show ?thesis using update_handle [where r = r and h = h and t = "ad_tables s"] by (intro keeps_handle [OF Some 2(1)]) auto
    qed (simp add: keeps_refl)
  qed
qed

lemma steady_registrations:
  "steady (registerSpringMvc env mvc)" "steady (registerSpringCloud env cloud)" "steady (registerDubbo env rpc)" "steady (registerSofa env rpc)"
proof -
  show "steady (registerSpringMvc env mvc)"
    unfolding registerSpringMvc_def saveSpringMvcMetaData_def handlerSpringMvcRule_def Let_def by (intro steady_intros)
  show "steady (registerSpringCloud env cloud)"
    unfolding registerSpringCloud_def saveSpringCloudMetaData_def handlerSpringCloudSelector_def handlerSpringCloudRule_def Let_def
    by (intro steady_intros)
  show "steady (registerDubbo env rpc)"
    unfolding registerDubbo_def saveOrUpdateMetaData_def handlerDubboSelector_def handlerDubboRule_def Let_def by (intro steady_intros)
  show "steady (registerSofa env rpc)"
    unfolding registerSofa_def sofa_path_taken_def saveOrUpdateMetaData_def handlerSofaSelector_def handlerSofaRule_def Let_def
    by (intro steady_intros)
qed

subsection \<open>Clients, checks and the dashboard together\<close>

text \<open>What \<open>SoulClientController\<close> receives from the clients, and the scheduled check with the names in its map.\<close>

datatype client_event =
    HttpRegistered spring_mvc_register_dto
  | CloudRegistered spring_cloud_register_dto
  | DubboRegistered rpc_register_dto
  | SofaRegistered rpc_register_dto
  | UpstreamsChecked "string \<Rightarrow> bool" "string list"

fun client_svc :: "register_env \<Rightarrow> client_event \<Rightarrow> unit upstream_svc" where
  "client_svc env (HttpRegistered dto) = quietly (registerSpringMvc env dto)"
| "client_svc env (CloudRegistered dto) = quietly (registerSpringCloud env dto)"
| "client_svc env (DubboRegistered dto) = quietly (registerDubbo env dto)"
| "client_svc env (SofaRegistered dto) = quietly (registerSofa env dto)"
| "client_svc env (UpstreamsChecked checkUrl names) = upstream_scheduled env checkUrl names"

datatype admin_event = FromDashboard admin_request | FromClient client_event

fun event_svc :: "register_env \<Rightarrow> admin_event \<Rightarrow> unit upstream_svc" where
  "event_svc env (FromDashboard r) = request_svc (re_uuid env) r"
| "event_svc env (FromClient e) = client_svc env e"

definition admin_run :: "'h handlers \<Rightarrow> register_env \<Rightarrow> admin_event list \<Rightarrow> (divide_upstream list, 'h) link \<Rightarrow> (divide_upstream list, 'h) link" where
  "admin_run hm env evs st = fold (\<lambda>e. serve hm (event_svc env e)) evs st"

text \<open>A registration has to succeed; a check may fail.\<close>

fun event_orderly :: "register_env \<Rightarrow> admin_event \<Rightarrow> divide_upstream list admin \<Rightarrow> bool" where
  "event_orderly env (FromDashboard r) s = orderly r (ad_tables s)"
| "event_orderly env (FromClient (UpstreamsChecked checkUrl names)) s = True"
| "event_orderly env (FromClient e) s = (fst (client_svc env e s) = Inr ())"

fun admin_orderly :: "'h handlers \<Rightarrow> register_env \<Rightarrow> admin_event list \<Rightarrow> (divide_upstream list, 'h) link \<Rightarrow> bool" where
  "admin_orderly hm env [] st = True"
| "admin_orderly hm env (e # es) st = (event_orderly env e (lk_admin st) \<and> admin_orderly hm env es (serve hm (event_svc env e) st))"

lemma keeps_registration:
  assumes "steady m" and "fst (quietly m s) = Inr ()"
  shows "keeps s (snd (quietly m s))"
proof -
  obtain x s' where "m s = (Inr x, s')"
    using assms(2) by (auto simp: quietly_def andthen_def returns_def split: prod.splits sum.splits)
  then show ?thesis using assms(1) by (auto simp: steady_def quietly_state)
qed

lemma keeps_event:
  assumes "tables_ok (ad_tables s)" and "event_orderly env e s"
  shows "keeps s (snd (event_svc env e s))"
proof (cases e)
  case (FromDashboard r)
  then show ?thesis using assms by (simp add: keeps_request)
next
  case (FromClient c)
  then show ?thesis using assms(2) keeps_registration [OF steady_registrations(1)] keeps_registration [OF steady_registrations(2)]
      keeps_registration [OF steady_registrations(3)] keeps_registration [OF steady_registrations(4)]
    by (cases c) (simp_all add: keeps_scheduled)
qed

lemma run_in_step:
  "quiet hm \<Longrightarrow> in_step st \<Longrightarrow> admin_orderly hm env evs st \<Longrightarrow> in_step (admin_run hm env evs st)"
proof (induction evs arbitrary: st)
  case (Cons e evs)
  have "keeps (lk_admin st) (snd (event_svc env e (lk_admin st)))"
    using Cons.prems by (intro keeps_event) (simp_all add: in_step_def)
  then have "in_step (serve hm (event_svc env e) st)" using Cons.prems by (simp add: serve_in_step)
  then show ?case using Cons by (simp add: admin_run_def)
qed (simp add: admin_run_def)


definition fresh_client :: "(divide_upstream list, unit) link" where
  "fresh_client = ws_open sample_handlers ((sample_client register_admin)
     \<lparr>lk_SESSION_SET := [], lk_session := None, lk_client := None, lk_alreadySync := False\<rparr>)"

definition sample_events :: "admin_event list" where
  "sample_events = [FromClient (HttpRegistered sample_mvc), FromClient (HttpRegistered (sample_mvc\<lparr>smr_host := ''g''\<rparr>)),
     FromClient (DubboRegistered sample_dubbo), FromDashboard (SaveSelector third_instance),
     FromClient (UpstreamsChecked (\<lambda>url. url \<noteq> ''g:80'') [''/http'']), FromDashboard (DeleteSelectors [''uu''])]"

lemma fresh_client_in_step: "in_step fresh_client"
  unfolding fresh_client_def
  by (rule open_in_step [OF sample_quiet])
    (simp_all add: sample_client_def start_state_def register_admin_def register_tables_def sample_tables_def sample_divide_def tables_ok_def)




end
