(* ===== verification/AdminConsole.thy ===== *)
theory AdminConsole
  imports AdminData
begin

text \<open>
  The admin's own tables, which the gateway never sees: users of the dashboard (\<open>DashboardUserServiceImpl\<close>,
  its controller and the login of \<open>PlatformController\<close>), the dictionary (\<open>SoulDictServiceImpl\<close>), the fields of
  plugins' handles (\<open>PluginHandleServiceImpl\<close>) and the paging of their lists. Times are left out; the cipher is a parameter.
\<close>

subsection \<open>Pages\<close>

text \<open>\<open>PageParameter\<close>, on 32 bit integers.\<close>

record page_parameter =
  pp_currentPage :: int
  pp_prePage :: int
  pp_nextPage :: int
  pp_pageSize :: int
  pp_offset :: int
  pp_totalPage :: int
  pp_totalCount :: int

definition DEFAULT_PAGE_SIZE :: int where "DEFAULT_PAGE_SIZE = 10"

definition page_request :: "int option \<Rightarrow> int option \<Rightarrow> page_parameter" where
  "page_request currentPage pageSize =
     (let c = (case currentPage of None \<Rightarrow> 1 | Some v \<Rightarrow> if v \<le> 0 then 1 else v);
          p = (case pageSize of None \<Rightarrow> DEFAULT_PAGE_SIZE | Some v \<Rightarrow> if v \<le> 0 then DEFAULT_PAGE_SIZE else v)
      in \<lparr>pp_currentPage = c, pp_prePage = 0, pp_nextPage = 0, pp_pageSize = p, pp_offset = wrap32 ((c - 1) * p),
          pp_totalPage = 0, pp_totalCount = 0\<rparr>)"

text \<open>
  The constructor with a total; \<open>Math.ceil\<close> of the quotient of the doubles is exact for 32 bit integers. It leaves the
  offset 0.
\<close>

definition page_total :: "int \<Rightarrow> int \<Rightarrow> int \<Rightarrow> page_parameter" where
  "page_total currentPage pageSize totalCount =
     (let totalPage = - ((- totalCount) div pageSize)
      in \<lparr>pp_currentPage = currentPage, pp_prePage = (if currentPage \<le> 1 then 1 else currentPage - 1),
          pp_nextPage = (if totalPage \<le> currentPage then totalPage else currentPage + 1), pp_pageSize = pageSize, pp_offset = 0,
          pp_totalPage = totalPage, pp_totalCount = totalCount\<rparr>)"

text \<open>\<open>PageResultUtils.result\<close>; \<open>limit\<close> with a negative offset is an error of the database.\<close>

definition sql_limit :: "page_parameter \<Rightarrow> 'r list \<Rightarrow> 'r list jres" where
  "sql_limit p rows =
     (if pp_offset p < 0 then Inl (RuntimeExn ''BadSqlGrammarException'')
      else Inr (take (nat (pp_pageSize p)) (drop (nat (pp_offset p)) rows)))"

definition page_result :: "page_parameter \<Rightarrow> int \<Rightarrow> 'r list jres \<Rightarrow> (page_parameter \<times> 'r list) jres" where
  "page_result p count supplier =
     (if count > 0 then bindr supplier (\<lambda>rows. Inr (page_total (pp_currentPage p) (pp_pageSize p) count, rows))
      else Inr (page_total (pp_currentPage p) (pp_pageSize p) 0, []))"

subsection \<open>Users\<close>

record user_do =
  udo_id :: string
  udo_userName :: string
  udo_password :: "string option"
  udo_role :: int
  udo_enabled :: bool

text \<open>A request, and what is built from it for the statements: null means that the column is left.\<close>

record user_dto =
  udt_id :: "string option"
  udt_userName :: "string option"
  udt_password :: "string option"
  udt_role :: "int option"
  udt_enabled :: "bool option"

text \<open>The dictionary and the fields of handles.\<close>

record dict_do =
  ddo_id :: string
  ddo_type :: string
  ddo_dictCode :: string
  ddo_dictName :: string
  ddo_dictValue :: "string option"
  ddo_desc :: "string option"
  ddo_sort :: int
  ddo_enabled :: "bool option"

record dict_dto =
  ddt_id :: "string option"
  ddt_type :: "string option"
  ddt_dictCode :: "string option"
  ddt_dictName :: "string option"
  ddt_dictValue :: "string option"
  ddt_desc :: "string option"
  ddt_sort :: "int option"
  ddt_enabled :: "bool option"

record handle_do =
  hdo_id :: string
  hdo_pluginId :: string
  hdo_field :: string
  hdo_label :: "string option"
  hdo_dataType :: int

record handle_dto =
  hdt_id :: "string option"
  hdt_pluginId :: "string option"
  hdt_field :: "string option"
  hdt_label :: "string option"
  hdt_dataType :: "int option"

record console =
  cs_users :: "user_do list"
  cs_dicts :: "dict_do list"
  cs_handles :: "handle_do list"
  cs_next :: nat

type_synonym 'a console_svc = "console \<Rightarrow> 'a jres \<times> console"

text \<open>A column that has to be there but is not given makes the insert fail.\<close>

definition integrity :: jexn where "integrity = RuntimeExn ''DataIntegrityViolationException''"

definition or_else :: "'a option \<Rightarrow> 'a \<Rightarrow> 'a" where
  "or_else v old = (case v of None \<Rightarrow> old | Some x \<Rightarrow> x)"

definition or_keep :: "'a option \<Rightarrow> 'a option \<Rightarrow> 'a option" where
  "or_keep v old = (case v of None \<Rightarrow> old | Some x \<Rightarrow> Some x)"

definition user_insertSelective :: "string \<Rightarrow> user_dto \<Rightarrow> user_do list \<Rightarrow> user_do list jres" where
  "user_insertSelective i d rows =
     (case (udt_userName d, udt_role d) of
        (Some n, Some r) \<Rightarrow> insert_row udo_id \<lparr>udo_id = i, udo_userName = n, udo_password = udt_password d, udo_role = r, udo_enabled = True\<rparr> rows
      | _ \<Rightarrow> Inl integrity)"

definition user_updateSelective :: "string \<Rightarrow> user_dto \<Rightarrow> user_do list \<Rightarrow> user_do list" where
  "user_updateSelective i d rows = update_with udo_id i (\<lambda>old. \<lparr>udo_id = udo_id old, udo_userName = or_else (udt_userName d) (udo_userName old),
     udo_password = or_keep (udt_password d) (udo_password old), udo_role = or_else (udt_role d) (udo_role old),
     udo_enabled = or_else (udt_enabled d) (udo_enabled old)\<rparr>) rows"

text \<open>The pair of name and password is not unique; a query for one row that finds more throws. Null equals nothing.\<close>

definition user_findByQuery :: "string option \<Rightarrow> string option \<Rightarrow> user_do list \<Rightarrow> user_do option jres" where
  "user_findByQuery n p rows =
     (case filter (\<lambda>r. n = Some (udo_userName r) \<and> p \<noteq> None \<and> p = udo_password r) rows of
        [] \<Rightarrow> Inr None
      | [r] \<Rightarrow> Inr (Some r)
      | _ \<Rightarrow> Inl (RuntimeExn ''TooManyResultsException''))"

definition users_createOrUpdate :: "(nat \<Rightarrow> string) \<Rightarrow> user_dto \<Rightarrow> nat console_svc" where
  "users_createOrUpdate uuid d st =
     (if is_empty_ref (udt_id d) then
        (let st' = st\<lparr>cs_next := cs_next st + 1\<rparr>
         in case user_insertSelective (uuid (cs_next st)) d (cs_users st) of
              Inl e \<Rightarrow> (Inl e, st') | Inr rows \<Rightarrow> (Inr 1, st'\<lparr>cs_users := rows\<rparr>))
      else (Inr (length (rows_with udo_id (the (udt_id d)) (cs_users st))),
            st\<lparr>cs_users := user_updateSelective (the (udt_id d)) d (cs_users st)\<rparr>))"

definition users_delete :: "string list \<Rightarrow> nat console_svc" where
  "users_delete ids st =
     (case fold (\<lambda>i (n, rows). (n + length (rows_with udo_id i rows), delete_with udo_id i rows)) ids (0, cs_users st) of
        (n, rows) \<Rightarrow> (Inr n, st\<lparr>cs_users := rows\<rparr>))"

definition users_selectById :: "string \<Rightarrow> console \<Rightarrow> user_do option" where
  "users_selectById i st = row_with udo_id i (cs_users st)"

definition users_selectByQuery :: "string option \<Rightarrow> user_do list \<Rightarrow> user_do list" where
  "users_selectByQuery n rows = filter (\<lambda>r. udo_enabled r \<and> (n = None \<or> n = Some (udo_userName r))) rows"

definition users_listByPage :: "string option \<Rightarrow> page_parameter \<Rightarrow> console \<Rightarrow> (page_parameter \<times> user_do list) jres" where
  "users_listByPage n p st =
     (let rows = users_selectByQuery n (cs_users st) in page_result p (int (length rows)) (sql_limit p rows))"

text \<open>\<open>AesUtils\<close>: nothing is made of nothing.\<close>

definition aesEncryption :: "(string \<Rightarrow> string) \<Rightarrow> string option \<Rightarrow> string option" where
  "aesEncryption encryptHex src = (if is_empty_ref src then None else map_option encryptHex src)"

definition aesDecryption :: "(string \<Rightarrow> string) \<Rightarrow> string option \<Rightarrow> string option" where
  "aesDecryption decryptStr src = (if is_empty_ref src then None else map_option decryptStr src)"

text \<open>
  \<open>login\<close>. A user whose stored password is the one given is taken for one from before passwords were encrypted, and
  gets the encryption of it.
\<close>

definition users_login :: "(nat \<Rightarrow> string) \<Rightarrow> (string \<Rightarrow> string) \<Rightarrow> string option \<Rightarrow> string option \<Rightarrow> user_do option console_svc" where
  "users_login uuid enc userName password st =
     (case user_findByQuery userName password (cs_users st) of
        Inl e \<Rightarrow> (Inl e, st)
      | Inr (Some u) \<Rightarrow>
          (let d = \<lparr>udt_id = Some (udo_id u), udt_userName = Some (udo_userName u), udt_password = aesEncryption enc (udo_password u),
                    udt_role = Some (udo_role u), udt_enabled = Some (udo_enabled u)\<rparr>
           in case users_createOrUpdate uuid d st of (Inl e, st') \<Rightarrow> (Inl e, st') | (Inr _, st') \<Rightarrow> (Inr (Some u), st'))
      | Inr None \<Rightarrow> (user_findByQuery userName (aesEncryption enc password) (cs_users st), st))"

text \<open>\<open>DashboardUserController\<close>: passwords are encrypted on their way in and decrypted on their way out.\<close>

definition createDashboardUser :: "(nat \<Rightarrow> string) \<Rightarrow> (string \<Rightarrow> string) \<Rightarrow> user_dto \<Rightarrow> nat console_svc" where
  "createDashboardUser uuid enc d = users_createOrUpdate uuid (d\<lparr>udt_password := aesEncryption enc (udt_password d)\<rparr>)"

definition updateDashboardUser :: "(nat \<Rightarrow> string) \<Rightarrow> (string \<Rightarrow> string) \<Rightarrow> string \<Rightarrow> user_dto \<Rightarrow> nat console_svc" where
  "updateDashboardUser uuid enc i d =
     users_createOrUpdate uuid (d\<lparr>udt_id := Some i, udt_password := aesEncryption enc (udt_password d)\<rparr>)"

definition queryDashboardUsers :: "(string \<Rightarrow> string) \<Rightarrow> string option \<Rightarrow> int option \<Rightarrow> int option \<Rightarrow> console \<Rightarrow> (page_parameter \<times> user_do list) option jres" where
  "queryDashboardUsers dec n currentPage pageSize st =
     bindr (users_listByPage n (page_request currentPage pageSize) st) (\<lambda>(p, rows).
       if rows = [] then Inr None
       else Inr (Some (p, map (\<lambda>r. r\<lparr>udo_password := aesDecryption dec (udo_password r)\<rparr>) rows)))"

definition detailDashboardUser :: "(string \<Rightarrow> string) \<Rightarrow> string \<Rightarrow> console \<Rightarrow> user_do option" where
  "detailDashboardUser dec i st =
     map_option (\<lambda>r. r\<lparr>udo_password := aesDecryption dec (udo_password r)\<rparr>) (users_selectById i st)"

subsection \<open>The dictionary\<close>

definition dict_insertSelective :: "string \<Rightarrow> dict_dto \<Rightarrow> dict_do list \<Rightarrow> dict_do list jres" where
  "dict_insertSelective i d rows =
     (case (ddt_type d, ddt_dictCode d, ddt_dictName d, ddt_sort d) of
        (Some ty, Some c, Some n, Some s) \<Rightarrow> insert_row ddo_id \<lparr>ddo_id = i, ddo_type = ty, ddo_dictCode = c, ddo_dictName = n,
           ddo_dictValue = ddt_dictValue d, ddo_desc = ddt_desc d, ddo_sort = s, ddo_enabled = ddt_enabled d\<rparr> rows
      | _ \<Rightarrow> Inl integrity)"

definition dict_updateSelective :: "string \<Rightarrow> dict_dto \<Rightarrow> dict_do list \<Rightarrow> dict_do list" where
  "dict_updateSelective i d rows = update_with ddo_id i (\<lambda>old. \<lparr>ddo_id = ddo_id old, ddo_type = or_else (ddt_type d) (ddo_type old),
     ddo_dictCode = or_else (ddt_dictCode d) (ddo_dictCode old), ddo_dictName = or_else (ddt_dictName d) (ddo_dictName old),
     ddo_dictValue = or_keep (ddt_dictValue d) (ddo_dictValue old), ddo_desc = or_keep (ddt_desc d) (ddo_desc old),
     ddo_sort = or_else (ddt_sort d) (ddo_sort old), ddo_enabled = or_keep (ddt_enabled d) (ddo_enabled old)\<rparr>) rows"

definition dicts_createOrUpdate :: "(nat \<Rightarrow> string) \<Rightarrow> dict_dto \<Rightarrow> nat console_svc" where
  "dicts_createOrUpdate uuid d st =
     (if is_empty_ref (ddt_id d) then
        (let st' = st\<lparr>cs_next := cs_next st + 1\<rparr>
         in case dict_insertSelective (uuid (cs_next st)) d (cs_dicts st) of
              Inl e \<Rightarrow> (Inl e, st') | Inr rows \<Rightarrow> (Inr 1, st'\<lparr>cs_dicts := rows\<rparr>))
      else (Inr (length (rows_with ddo_id (the (ddt_id d)) (cs_dicts st))),
            st\<lparr>cs_dicts := dict_updateSelective (the (ddt_id d)) d (cs_dicts st)\<rparr>))"

definition deleteSoulDicts :: "string list \<Rightarrow> nat console_svc" where
  "deleteSoulDicts ids st =
     (case fold (\<lambda>i (n, rows). (n + length (rows_with ddo_id i rows), delete_with ddo_id i rows)) ids (0, cs_dicts st) of
        (n, rows) \<Rightarrow> (Inr n, st\<lparr>cs_dicts := rows\<rparr>))"

definition dicts_enabled :: "string list option \<Rightarrow> bool option \<Rightarrow> nat console_svc" where
  "dicts_enabled ids b st =
     (case ids of
        None \<Rightarrow> (Inr 0, st)
      | Some [] \<Rightarrow> (Inr 0, st)
      | Some is \<Rightarrow> (Inr (length (filter (\<lambda>r. ddo_id r \<in> set is) (cs_dicts st))),
          st\<lparr>cs_dicts := map (\<lambda>r. if ddo_id r \<in> set is then r\<lparr>ddo_enabled := b\<rparr> else r) (cs_dicts st)\<rparr>))"

text \<open>
  \<open>selectByQuery\<close>: an empty criterion is none; rows are ordered by their types, whose place in the collation \<open>rank\<close>
  gives, and then by their numbers. \<open>findByType\<close> does not sort.
\<close>

definition criterion :: "string option \<Rightarrow> string \<Rightarrow> bool" where
  "criterion c v \<longleftrightarrow> is_empty_ref c \<or> c = Some v"

definition dicts_findByType :: "string \<Rightarrow> dict_do list \<Rightarrow> dict_do list" where
  "dicts_findByType ty rows = rows_with ddo_type ty rows"

definition dicts_selectByQuery :: "(string \<Rightarrow> nat) \<Rightarrow> string option \<Rightarrow> string option \<Rightarrow> string option \<Rightarrow> dict_do list \<Rightarrow> dict_do list" where
  "dicts_selectByQuery rank ty code name rows =
     sort_key (\<lambda>r. rank (ddo_type r)) (sort_key ddo_sort
       (filter (\<lambda>r. criterion ty (ddo_type r) \<and> criterion code (ddo_dictCode r) \<and> criterion name (ddo_dictName r)) rows))"

definition dicts_list :: "(string \<Rightarrow> nat) \<Rightarrow> string option \<Rightarrow> console \<Rightarrow> dict_do list" where
  "dicts_list rank ty st = dicts_selectByQuery rank ty None None (cs_dicts st)"

definition dicts_listByPage :: "(string \<Rightarrow> nat) \<Rightarrow> string option \<Rightarrow> string option \<Rightarrow> string option \<Rightarrow> page_parameter \<Rightarrow> console
    \<Rightarrow> (page_parameter \<times> dict_do list) jres" where
  "dicts_listByPage rank ty code name p st =
     (let rows = dicts_selectByQuery rank ty code name (cs_dicts st) in page_result p (int (length rows)) (sql_limit p rows))"

subsection \<open>The fields of handles\<close>

definition handle_key :: "handle_do \<Rightarrow> string \<times> string" where
  "handle_key r = (hdo_pluginId r, hdo_field r)"

definition handle_insertSelective :: "string \<Rightarrow> handle_dto \<Rightarrow> handle_do list \<Rightarrow> handle_do list jres" where
  "handle_insertSelective i d rows =
     (case (hdt_pluginId d, hdt_field d) of
        (Some p, Some f) \<Rightarrow>
          (let r = \<lparr>hdo_id = i, hdo_pluginId = p, hdo_field = f, hdo_label = hdt_label d, hdo_dataType = or_else (hdt_dataType d) 1\<rparr>
           in if handle_key r \<in> handle_key ` set rows then Inl duplicate else insert_row hdo_id r rows)
      | _ \<Rightarrow> Inl integrity)"

definition handle_updateSelective :: "string \<Rightarrow> handle_dto \<Rightarrow> handle_do list \<Rightarrow> handle_do list jres" where
  "handle_updateSelective i d rows =
     (let f = (\<lambda>old. \<lparr>hdo_id = hdo_id old, hdo_pluginId = or_else (hdt_pluginId d) (hdo_pluginId old),
            hdo_field = or_else (hdt_field d) (hdo_field old), hdo_label = or_keep (hdt_label d) (hdo_label old),
            hdo_dataType = or_else (hdt_dataType d) (hdo_dataType old)\<rparr>)
      in if \<exists>old\<in>set rows. hdo_id old = i \<and> handle_key (f old) \<in> handle_key ` set (delete_with hdo_id i rows) then Inl duplicate
         else Inr (update_with hdo_id i f rows))"

definition handles_createOrUpdate :: "(nat \<Rightarrow> string) \<Rightarrow> handle_dto \<Rightarrow> nat console_svc" where
  "handles_createOrUpdate uuid d st =
     (if is_empty_ref (hdt_id d) then
        (let st' = st\<lparr>cs_next := cs_next st + 1\<rparr>
         in case handle_insertSelective (uuid (cs_next st)) d (cs_handles st) of
              Inl e \<Rightarrow> (Inl e, st') | Inr rows \<Rightarrow> (Inr 1, st'\<lparr>cs_handles := rows\<rparr>))
      else (case handle_updateSelective (the (hdt_id d)) d (cs_handles st) of
              Inl e \<Rightarrow> (Inl e, st)
            | Inr rows \<Rightarrow> (Inr (length (rows_with hdo_id (the (hdt_id d)) (cs_handles st))), st\<lparr>cs_handles := rows\<rparr>)))"

definition deletePluginHandles :: "string list \<Rightarrow> nat console_svc" where
  "deletePluginHandles ids st =
     (case fold (\<lambda>i (n, rows). (n + length (rows_with hdo_id i rows), delete_with hdo_id i rows)) ids (0, cs_handles st) of
        (n, rows) \<Rightarrow> (Inr n, st\<lparr>cs_handles := rows\<rparr>))"

definition SELECT_BOX_DATA_TYPE :: int where "SELECT_BOX_DATA_TYPE = 3"

definition buildPluginHandleVO :: "console \<Rightarrow> handle_do \<Rightarrow> handle_do \<times> dict_do list option" where
  "buildPluginHandleVO st r =
     (r, if hdo_dataType r = SELECT_BOX_DATA_TYPE then Some (dicts_findByType (hdo_field r) (cs_dicts st)) else None)"

definition handles_selectByQuery :: "string option \<Rightarrow> handle_do list \<Rightarrow> handle_do list" where
  "handles_selectByQuery p rows = filter (\<lambda>r. p = None \<or> p = Some (hdo_pluginId r)) rows"

definition handles_list :: "string option \<Rightarrow> console \<Rightarrow> (handle_do \<times> dict_do list option) list" where
  "handles_list p st = map (buildPluginHandleVO st) (handles_selectByQuery p (cs_handles st))"

definition handles_listByPage :: "string option \<Rightarrow> page_parameter \<Rightarrow> console \<Rightarrow> (page_parameter \<times> (handle_do \<times> dict_do list option) list) jres" where
  "handles_listByPage p pg st =
     (let rows = handles_selectByQuery p (cs_handles st)
      in page_result pg (int (length rows)) (bindr (sql_limit pg rows) (\<lambda>rs. Inr (map (buildPluginHandleVO st) rs))))"

subsection \<open>Logging in\<close>

lemma user_found:
  assumes "distinct (map udo_userName rows)" and "u \<in> set rows"
  shows "user_findByQuery (Some (udo_userName u)) (Some p) rows = Inr (if udo_password u = Some p then Some u else None)"
proof -
  have "filter (\<lambda>r. Some (udo_userName u) = Some (udo_userName r) \<and> Some p \<noteq> None \<and> Some p = udo_password r) rows
      = (if udo_password u = Some p then [u] else [])"
    using assms
  proof (induction rows)
    case (Cons r rows)
    show ?case
    proof (cases "u = r")
      case True
      then have "udo_userName u \<notin> udo_userName ` set rows" using Cons.prems(1) by simp
      then have "filter (\<lambda>x. Some (udo_userName u) = Some (udo_userName x) \<and> Some p \<noteq> None \<and> Some p = udo_password x) rows = []"
        by (force simp: filter_empty_conv)
      then show ?thesis using True by auto
    next
      case False
      then have "u \<in> set rows" "udo_userName r \<noteq> udo_userName u" using Cons.prems by force+
      then show ?thesis using Cons by auto
    qed
  qed simp
  then show ?thesis by (simp add: user_findByQuery_def)
qed

text \<open>Who is in the table, encrypted, logs in with the password, enabled or not, and nothing changes.\<close>

lemma login_by_password:
  assumes "distinct (map udo_userName (cs_users st))" and "u \<in> set (cs_users st)" and "p \<noteq> ''''"
    and "udo_password u = Some (enc p)" and "enc p \<noteq> p"
  shows "users_login uuid enc (Some (udo_userName u)) (Some p) st = (Inr (Some u), st)"
  using assms by (simp add: users_login_def user_found aesEncryption_def is_empty_ref_def)

lemma update_one:
  assumes "distinct (map key rows)" and "u \<in> set rows" and "key u = i"
  shows "update_with key i f rows = map (\<lambda>r. if r = u then f u else r) rows"
  using assms unfolding update_with_def by (intro map_cong) (auto simp: distinct_map inj_on_def)

text \<open>
  C36: The stored form of a password is a password too, and using it locks the owner out. Whoever has read the
  encrypted password of a user from the database logs in with it, as if it were a password from before
  they were encrypted; it is then encrypted once more, so that the user's own password is no longer accepted.
  (The encryption, in hexadecimal digits, is longer than the text.)
\<close>

theorem stored_password_logs_in:
  assumes longer: "\<And>x. length x < length (enc x)"
    and table: "distinct (map udo_id (cs_users st))" "distinct (map udo_userName (cs_users st))" "u \<in> set (cs_users st)"
    and id: "udo_id u \<noteq> ''''" and p: "udo_password u = Some (enc p)" "p \<noteq> ''''"
  shows "\<exists>st'. users_login uuid enc (Some (udo_userName u)) (udo_password u) st = (Inr (Some u), st')
    \<and> users_login uuid enc (Some (udo_userName u)) (Some p) st = (Inr (Some u), st)
    \<and> users_login uuid enc (Some (udo_userName u)) (Some p) st' = (Inr None, st')"
proof -
  let ?h = "enc p"
  define u' where "u' = u\<lparr>udo_password := Some (enc ?h)\<rparr>"
  define f where "f = (\<lambda>old::user_do. \<lparr>udo_id = udo_id old, udo_userName = udo_userName u, udo_password = Some (enc ?h), udo_role = udo_role u, udo_enabled = udo_enabled u\<rparr>)"
  have f: "f u = u'" by (simp add: f_def u'_def)
  define rows where "rows = map (\<lambda>r. if r = u then u' else r) (cs_users st)"
  define st' where "st' = st\<lparr>cs_users := rows\<rparr>"
  have ne: "?h \<noteq> ''''" "enc ?h \<noteq> ?h" "enc ?h \<noteq> p" "enc p \<noteq> p"
    using longer [of p] longer [of ?h] by auto
  have "user_updateSelective (udo_id u) \<lparr>udt_id = Some (udo_id u), udt_userName = Some (udo_userName u), udt_password = Some (enc ?h),
      udt_role = Some (udo_role u), udt_enabled = Some (udo_enabled u)\<rparr> (cs_users st) = rows"
    unfolding user_updateSelective_def rows_def f [symmetric]
    by (subst update_one [OF table(1,3) refl]) (simp add: f_def or_else_def or_keep_def)
  then have "users_login uuid enc (Some (udo_userName u)) (Some ?h) st = (Inr (Some u), st')"
    using table p id ne(1) by (simp add: users_login_def user_found users_createOrUpdate_def aesEncryption_def is_empty_ref_def st'_def)
  moreover have "users_login uuid enc (Some (udo_userName u)) (Some p) st = (Inr (Some u), st)"
    by (rule login_by_password [where p = p and enc = enc, OF table(2,3) p(2,1) ne(4)])
  moreover have "users_login uuid enc (Some (udo_userName u)) (Some p) st' = (Inr None, st')"
  proof -
    have "map udo_userName rows = map udo_userName (cs_users st)" by (simp add: rows_def u'_def)
    then have d: "distinct (map udo_userName (cs_users st'))" using table(2) by (simp add: st'_def)
    have "u' \<in> set (cs_users st')" using table(3) by (simp add: st'_def rows_def)
    from user_found [OF d this] have q: "user_findByQuery (Some (udo_userName u)) (Some x) (cs_users st') = Inr (if enc ?h = x then Some u' else None)" for x
      by (simp add: u'_def)
    show ?thesis using p(2) ne by (simp add: users_login_def q aesEncryption_def is_empty_ref_def)
  qed
  ultimately show ?thesis unfolding p(1) by blast
qed

definition sample_login_uuid :: "nat \<Rightarrow> string" where
  "sample_login_uuid n = replicate n CHR ''u''"

definition sample_enc :: "string \<Rightarrow> string" where
  "sample_enc v = v @ ''00''"

definition sample_user :: user_do where
  "sample_user = \<lparr>udo_id = ''1'', udo_userName = ''admin'', udo_password = Some (sample_enc ''123456''), udo_role = 1, udo_enabled = True\<rparr>"

definition sample_console :: console where
  "sample_console = \<lparr>cs_users = [sample_user, sample_user\<lparr>udo_id := ''2'', udo_userName := ''b'', udo_enabled := False\<rparr>,
     sample_user\<lparr>udo_id := ''3'', udo_userName := ''c''\<rparr>], cs_dicts = [], cs_handles = [], cs_next = 0\<rparr>"

lemma stored_password_logs_in_witness:
  "\<exists>st'. users_login sample_login_uuid sample_enc (Some ''admin'') (Some ''12345600'') sample_console = (Inr (Some sample_user), st')
    \<and> users_login sample_login_uuid sample_enc (Some ''admin'') (Some ''123456'') sample_console = (Inr (Some sample_user), sample_console)
    \<and> users_login sample_login_uuid sample_enc (Some ''admin'') (Some ''123456'') st' = (Inr None, st')"
proof -
  have "\<exists>st'. users_login sample_login_uuid sample_enc (Some (udo_userName sample_user)) (udo_password sample_user) sample_console = (Inr (Some sample_user), st')
    \<and> users_login sample_login_uuid sample_enc (Some (udo_userName sample_user)) (Some ''123456'') sample_console = (Inr (Some sample_user), sample_console)
    \<and> users_login sample_login_uuid sample_enc (Some (udo_userName sample_user)) (Some ''123456'') st' = (Inr None, st')"
    by (rule stored_password_logs_in) (simp_all add: sample_enc_def sample_console_def sample_user_def)
  then show ?thesis by (simp add: sample_user_def sample_enc_def)
qed

subsection \<open>Paging\<close>

lemma concat_chunks: "concat (map (\<lambda>k. take n (drop (k * n) xs)) [0..<m]) = take (m * n) xs"
proof (induction m)
  case (Suc m)
  have "take (Suc m * n) xs = take (m * n) xs @ take n (drop (m * n) xs)"
    using take_add [of "m * n" n xs] by (simp add: add.commute)
  then show ?case using Suc by simp
qed simp

text \<open>The pages, from the first to the last that the first announces, hold every row once and in order.\<close>

lemma pages_complete:
  assumes sz: "0 < sz" "sz < 2 ^ 31" and len: "int (length rows) < 2 ^ 31"
    and ask: "\<And>p. ask p = page_result p (int (length rows)) (bindr (sql_limit p rows) (\<lambda>rs. Inr (map f rs)))"
  shows "\<exists>total. (\<forall>k\<in>{1..total}. \<exists>pg us. ask (page_request (Some (int k)) (Some sz)) = Inr (pg, us) \<and> pp_totalPage pg = int total)
      \<and> concat (map (\<lambda>k. case ask (page_request (Some (int k)) (Some sz)) of Inl _ \<Rightarrow> [] | Inr (_, us) \<Rightarrow> us) [1..<Suc total]) = map f rows"
proof -
  define n where "n = nat sz"
  define total where "total = nat (- ((- int (length rows)) div sz))"
  have n: "sz = int n" "0 < n" using sz(1) by (simp_all add: n_def)
  have total: "int total = - ((- int (length rows)) div sz)"
    using sz(1) by (simp add: total_def div_nonpos_pos_le0)
  have "- int (length rows) = ((- int (length rows)) div sz) * sz + (- int (length rows)) mod sz"
    by (simp only: div_mult_mod_eq)
  moreover have "0 \<le> (- int (length rows)) mod sz" "(- int (length rows)) mod sz < sz" using sz(1) by simp_all
  moreover have "((- int (length rows)) div sz) * sz = - (int total * sz)" by (simp add: total)
  ultimately have bounds: "int (length rows) \<le> int total * sz" "int total * sz - sz < int (length rows)" by linarith+
  have page: "ask (page_request (Some (int k)) (Some sz))
      = Inr (page_total (int k) sz (int (length rows)), map f (take n (drop ((k - 1) * n) rows)))" if k: "1 \<le> k" "k \<le> total" for k
  proof -
    have "(int k - 1) * sz \<le> (int total - 1) * sz" using k sz(1) by (intro mult_right_mono) auto
    then have lt: "(int k - 1) * sz < int (length rows)" using bounds(2) by (simp add: algebra_simps)
    have ge: "0 \<le> (int k - 1) * sz" using k sz(1) by simp
    have ne: "rows \<noteq> []" using lt ge by auto
    have ge': "\<not> (int k - 1) * sz < 0" using ge by linarith
    have off: "wrap32 ((int k - 1) * sz) = (int k - 1) * sz"
      using lt ge len by (intro wrap32_id) (simp add: in_int32_def)
    have "nat ((int k - 1) * sz) = (k - 1) * n" using k unfolding n(1) by (simp add: nat_mult_distrib of_nat_diff [symmetric] nat_eq_iff)
    then show ?thesis
      using k ne off ge' sz n by (simp add: ask page_request_def page_result_def sql_limit_def Let_def)
  qed
  have "concat (map (\<lambda>k. case ask (page_request (Some (int k)) (Some sz)) of Inl _ \<Rightarrow> [] | Inr (_, us) \<Rightarrow> us) [1..<Suc total])
      = concat (map (\<lambda>k. map f (take n (drop ((k - 1) * n) rows))) [1..<Suc total])"
    using page by (intro arg_cong [where f = concat] map_cong) auto
  also have "... = concat (map (\<lambda>k. map f (take n (drop (k * n) rows))) [0..<total])"
    by (simp add: map_Suc_upt [symmetric] o_def del: upt_Suc)
  also have "... = map f (concat (map (\<lambda>k. take n (drop (k * n) rows)) [0..<total]))" by (simp add: map_concat o_def)
  also have "... = map f rows" unfolding concat_chunks using bounds(1) n(1) by (simp add: mult.commute flip: of_nat_mult)
  finally show ?thesis
    using page total by (intro exI [of _ total]) (auto simp: page_total_def Let_def)
qed

text \<open>
  C13: The pages of the list of users, from the first to the last that the first announces, hold each enabled user
  once, in the order of the table, and no disabled one, whatever the page size. (So a user that has
  been disabled, who can still log in, is not to be found again on the dashboard.)
\<close>

theorem user_pages_complete:
  assumes sz: "0 < sz" "sz < 2 ^ 31" and count: "int (length (cs_users st)) < 2 ^ 31"
  shows "\<exists>total. (\<forall>k\<in>{1..total}. \<exists>pg us. users_listByPage None (page_request (Some (int k)) (Some sz)) st = Inr (pg, us)
        \<and> pp_totalPage pg = int total)
      \<and> concat (map (\<lambda>k. case users_listByPage None (page_request (Some (int k)) (Some sz)) st of Inl _ \<Rightarrow> [] | Inr (_, us) \<Rightarrow> us)
          [1..<Suc total]) = filter udo_enabled (cs_users st)"
proof -
  have "int (length (filter udo_enabled (cs_users st))) \<le> int (length (cs_users st))" by (simp only: of_nat_le_iff length_filter_le)
  then have len: "int (length (filter udo_enabled (cs_users st))) < 2 ^ 31" using count by linarith
  have "bindr v (\<lambda>rs. Inr (map (\<lambda>u. u) rs)) = v" for v :: "user_do list jres" by (simp add: bindr_def split: sum.split)
  then have "users_listByPage None p st = page_result p (int (length (filter udo_enabled (cs_users st))))
      (bindr (sql_limit p (filter udo_enabled (cs_users st))) (\<lambda>rs. Inr (map (\<lambda>u. u) rs)))" for p
    by (simp add: users_listByPage_def users_selectByQuery_def Let_def)
  from pages_complete [OF sz len, of "\<lambda>p. users_listByPage None p st", OF this] show ?thesis by simp
qed

lemma user_pages_complete_witness:
  "\<exists>total. (\<forall>k\<in>{1..total}. \<exists>pg us. users_listByPage None (page_request (Some (int k)) (Some 1)) sample_console = Inr (pg, us)
        \<and> pp_totalPage pg = int total)
      \<and> concat (map (\<lambda>k. case users_listByPage None (page_request (Some (int k)) (Some 1)) sample_console of Inl _ \<Rightarrow> [] | Inr (_, us) \<Rightarrow> us)
          [1..<Suc total]) = [sample_user, sample_user\<lparr>udo_id := ''3'', udo_userName := ''c''\<rparr>]"
proof -
  have e: "filter udo_enabled (cs_users sample_console) = [sample_user, sample_user\<lparr>udo_id := ''3'', udo_userName := ''c''\<rparr>]"
    by (simp add: sample_console_def sample_user_def)
  show ?thesis unfolding e [symmetric] by (rule user_pages_complete) (simp_all add: sample_console_def)
qed

end
