(* ===== verification/AdminPages.thy ===== *)
theory AdminPages
  imports AdminConsole GatewayInStep
begin

text \<open>
  What the dashboard reads of plugins, selectors, rules, application keys and meta data: the pages of their lists and
  the single rows, in \<open>PluginServiceImpl\<close>, \<open>SelectorServiceImpl\<close>, \<open>RuleServiceImpl\<close>, \<open>AppAuthServiceImpl\<close> and
  \<open>MetaDataServiceImpl\<close>. The view objects add names of codes and formatted times to the rows, which are left out.
\<close>

subsection \<open>Queries\<close>

definition plugins_selectByQuery :: "string option \<Rightarrow> tables \<Rightarrow> plugin_do list" where
  "plugins_selectByQuery n t = sort_key pdo_role (filter (\<lambda>r. n = None \<or> n = Some (pdo_name r)) (tb_plugins t))"

definition selectors_selectByQuery :: "string option \<Rightarrow> tables \<Rightarrow> selector_do list" where
  "selectors_selectByQuery p t = filter (\<lambda>r. p = None \<or> p = Some (sdo_pluginId r)) (tb_selectors t)"

definition rules_selectByQuery :: "string option \<Rightarrow> tables \<Rightarrow> rule_do list" where
  "rules_selectByQuery i t = filter (\<lambda>r. i = None \<or> i = Some (rdo_selectorId r)) (tb_rules t)"

definition auths_selectByQuery :: "string option \<Rightarrow> string option \<Rightarrow> tables \<Rightarrow> app_auth_do list" where
  "auths_selectByQuery k ph t =
     filter (\<lambda>r. (k = None \<or> k = Some (ado_appKey r)) \<and> (ph = None \<or> ph = ado_phone r)) (tb_auths t)"

definition metas_selectByQuery :: "string option \<Rightarrow> tables \<Rightarrow> meta_data_do list" where
  "metas_selectByQuery n t = filter (\<lambda>r. n = None \<or> n = Some (mdo_appName r)) (tb_metas t)"

subsection \<open>Pages\<close>

definition plugin_listByPage :: "string option \<Rightarrow> page_parameter \<Rightarrow> tables \<Rightarrow> (page_parameter \<times> plugin_do list) jres" where
  "plugin_listByPage n p t =
     (let rows = plugins_selectByQuery n t in page_result p (int (length rows)) (sql_limit p rows))"

text \<open>The rows of these lists come without their conditions.\<close>

definition selector_listByPage :: "string option \<Rightarrow> page_parameter \<Rightarrow> tables \<Rightarrow> (page_parameter \<times> (selector_do \<times> condition_do list option) list) jres" where
  "selector_listByPage i p t =
     (let rows = selectors_selectByQuery i t
      in page_result p (int (length rows)) (bindr (sql_limit p rows) (\<lambda>rs. Inr (map (\<lambda>r. (r, None)) rs))))"

definition rule_listByPage :: "string option \<Rightarrow> page_parameter \<Rightarrow> tables \<Rightarrow> (page_parameter \<times> (rule_do \<times> condition_do list option) list) jres" where
  "rule_listByPage i p t =
     (let rows = rules_selectByQuery i t
      in page_result p (int (length rows)) (bindr (sql_limit p rows) (\<lambda>rs. Inr (map (\<lambda>r. (r, None)) rs))))"

definition auth_listByPage :: "string option \<Rightarrow> string option \<Rightarrow> page_parameter \<Rightarrow> tables \<Rightarrow> (page_parameter \<times> app_auth_do list) jres" where
  "auth_listByPage k ph p t =
     (let rows = auths_selectByQuery k ph t in page_result p (int (length rows)) (sql_limit p rows))"

definition meta_listByPage :: "string option \<Rightarrow> page_parameter \<Rightarrow> tables \<Rightarrow> (page_parameter \<times> meta_data_do list) jres" where
  "meta_listByPage n p t =
     (let rows = metas_selectByQuery n t in page_result p (int (length rows)) (sql_limit p rows))"

subsection \<open>Single rows\<close>

text \<open>Reading a selector or a rule that is gone throws, as its fields are read.\<close>

definition selector_findById :: "string \<Rightarrow> tables \<Rightarrow> (selector_do \<times> condition_do list option) jres" where
  "selector_findById i t = bindr (deref (selector_selectById i t)) (\<lambda>r. Inr (r, Some (rows_with cdo_owner i (tb_selector_conditions t))))"

definition rule_findById :: "string \<Rightarrow> tables \<Rightarrow> (rule_do \<times> condition_do list option) jres" where
  "rule_findById i t = bindr (deref (rule_selectById i t)) (\<lambda>r. Inr (r, Some (rows_with cdo_owner i (tb_rule_conditions t))))"

definition plugin_findById :: "string \<Rightarrow> tables \<Rightarrow> plugin_do option" where
  "plugin_findById i t = plugin_selectById i t"

text \<open>The parameters are put into a view that may be null; without parameters their list stays null.\<close>

definition auth_findById :: "string \<Rightarrow> tables \<Rightarrow> (app_auth_do \<times> (string \<times> string option) list option) option jres" where
  "auth_findById i t =
     (let vo = auth_selectById i t; ps = rows_with apo_authId i (tb_auth_params t)
      in if ps = [] then Inr (map_option (\<lambda>r. (r, None)) vo)
         else bindr (deref vo) (\<lambda>r. Inr (Some (r, Some (map (\<lambda>q. (apo_appName q, apo_appParam q)) ps)))))"

definition auth_detailPath :: "string \<Rightarrow> tables \<Rightarrow> auth_path_do list" where
  "auth_detailPath i t = rows_with aho_authId i (tb_auth_paths t)"

text \<open>For a row that is gone there is an empty view.\<close>

definition meta_findById :: "string \<Rightarrow> tables \<Rightarrow> meta_data_do option" where
  "meta_findById i t = meta_selectById i t"

definition meta_findAllGroup :: "tables \<Rightarrow> string \<rightharpoonup> meta_data_do list" where
  "meta_findAllGroup t n = (case rows_with mdo_appName n (tb_metas t) of [] \<Rightarrow> None | rs \<Rightarrow> Some rs)"

subsection \<open>\<open>AppAuthServiceImpl.createOrUpdate\<close>\<close>

text \<open>
  No controller calls it. For a request with a key and, when a row is updated, a secret; the columns for user, phone
  and remarks are not given. What it publishes has neither parameters nor paths.
\<close>

definition auth_updateSelective :: "app_auth_do \<Rightarrow> tables \<Rightarrow> tables jres" where
  "auth_updateSelective r t = Inr (t\<lparr>tb_auths := update_with ado_id (ado_id r)
     (\<lambda>old. old\<lparr>ado_appSecret := ado_appSecret r, ado_enabled := ado_enabled r\<rparr>) (tb_auths t)\<rparr>)"

definition auth_createOrUpdate :: "(nat \<Rightarrow> string) \<Rightarrow> (nat \<Rightarrow> string) \<Rightarrow> app_auth_dto \<Rightarrow> ('u, nat) svc" where
  "auth_createOrUpdate uuid key d =
     (let new = is_empty_ref (adt_id d)
      in andthen (row_id uuid (adt_id d)) (\<lambda>i.
         andthen (if new then generateShortUuid key else returns (the (adt_appSecret d))) (\<lambda>secret.
         let r = \<lparr>ado_id = i, ado_appKey = the (adt_appKey d), ado_appSecret = secret, ado_enabled = adt_enabled d,
                  ado_userId = None, ado_phone = None, ado_extInfo = None\<rparr>
         in andthen (if new then andthen (execute (auth_insert r)) (\<lambda>_. returns 1)
                     else andthen (query (\<lambda>t. length (rows_with ado_id i (tb_auths t)))) (\<lambda>n.
                          andthen (execute (auth_updateSelective r)) (\<lambda>_. returns n))) (\<lambda>n.
            andthen (publishEvent (AuthChanged (if new then EV_CREATE else EV_UPDATE)
              [\<lparr>aa_appKey = ado_appKey r, aa_appSecret = secret, aa_enabled = adt_enabled d, aa_paramDataList = None, aa_pathDataList = None\<rparr>])) (\<lambda>_.
            returns n)))))"

subsection \<open>What is saved is read\<close>

definition saved_id :: "(nat \<Rightarrow> string) \<Rightarrow> string option \<Rightarrow> 'u admin \<Rightarrow> string" where
  "saved_id uuid i s = (if is_empty_ref i then uuid (ad_next s) else the i)"

text \<open>The view published is one of the views of the tables afterwards.\<close>

lemma saved_selector_view:
  assumes ok: "tables_ok t" and sv: "selector_saved d i t t' ev" and fits: "selector_fits d t"
  shows "tables_ok t' \<and> (\<exists>r p. r \<in> set (tb_selectors t') \<and> buildSelectorData t' r
    = Some (selector_transFrom (selector_row i d) p (Some (map condition_of_dto (sdt_selectorConditions d)))))"
proof -
  obtain c where c: "follows t c" using follows_exists [OF ok] by blast
  obtain data where data: "tables_ok t'" "ev = SelectorChanged EV_UPDATE [Some data]" "follows t' (cacheSelectData data c)"
    using follows_selector [OF ok c sv fits] by blast
  obtain p where "data = selector_transFrom (selector_row i d) p (Some (map condition_of_dto (sdt_selectorConditions d)))"
    using sv data(2) by (auto simp: selector_saved_def)
  moreover have "data \<in> set (slc.members (cacheSelectData data c) (sd_pluginName data))"
    by (simp add: slc.members_add set_replace_sorted)
  then have "data \<in> selector_view t'" using data(3) by (auto simp: follows_def slc.holds_rows_def)
  ultimately show ?thesis using data(1) by (auto simp: views)
qed

lemma saved_rule_view:
  assumes ok: "tables_ok t" and sv: "rule_saved d i t t' ev" and fits: "rule_fits d t"
  shows "tables_ok t' \<and> (\<exists>r p. r \<in> set (tb_rules t') \<and> buildRuleData t' r
    = Some (rule_transFrom (rule_row i d) p (Some (map condition_of_dto (rdt_ruleConditions d)))))"
proof -
  obtain c where c: "follows t c" using follows_exists [OF ok] by blast
  obtain data where data: "tables_ok t'" "ev = RuleChanged EV_UPDATE [Some data]" "follows t' (cacheRuleData data c)"
    using follows_rule [OF ok c sv fits] by blast
  obtain p where "data = rule_transFrom (rule_row i d) p (Some (map condition_of_dto (rdt_ruleConditions d)))"
    using sv data(2) by (auto simp: rule_saved_def)
  moreover have "data \<in> set (rlc.members (cacheRuleData data c) (rd_selectorId data))"
    by (simp add: rlc.members_add set_replace_sorted)
  then have "data \<in> rule_view t'" using data(3) by (auto simp: follows_def rlc.holds_rows_def)
  ultimately show ?thesis using data(1) by (auto simp: views)
qed

lemma trans_inj:
  "selector_transFrom r p cs = selector_transFrom r' p' cs' \<Longrightarrow> r = r' \<and> cs = cs'"
  "rule_transFrom u q ds = rule_transFrom u' q' ds' \<Longrightarrow> u = u' \<and> ds = ds'"
  by (simp_all add: selector_transFrom_def rule_transFrom_def)


text \<open>The same of rules.\<close>

lemma saved_rule_is_read_back:
  assumes ok: "tables_ok (ad_tables s)" and save: "rule_createOrUpdate uuid d s = (Inr k, s')" and fits: "rule_fits d (ad_tables s)"
  shows "\<exists>conditions. rule_findById (saved_id uuid (rdt_id d) s) (ad_tables s') = Inr (rule_row (saved_id uuid (rdt_id d) s) d, Some conditions)
    \<and> map condition_of_do conditions = map condition_of_dto (rdt_ruleConditions d)"
proof -
  let ?i = "saved_id uuid (rdt_id d) s" and ?t' = "ad_tables s'"
  obtain ev where "rule_saved d ?i (ad_tables s) ?t' ev" using rule_save_id [OF save] by (auto simp: saved_id_def)
  from saved_rule_view [OF ok this fits] obtain r p where ok': "tables_ok ?t'" and r: "r \<in> set (tb_rules ?t')"
    and v: "buildRuleData ?t' r = Some (rule_transFrom (rule_row ?i d) p (Some (map condition_of_dto (rdt_ruleConditions d))))" by blast
  obtain p' where "rule_transFrom r p' (Some (map condition_of_do (rows_with cdo_owner (rdo_id r) (tb_rule_conditions ?t'))))
      = rule_transFrom (rule_row ?i d) p (Some (map condition_of_dto (rdt_ruleConditions d)))"
    using v by (auto simp: buildRuleData_def split: option.splits)
  from trans_inj(2) [OF this] have row: "r = rule_row ?i d"
    and "map condition_of_do (rows_with cdo_owner (rdo_id r) (tb_rule_conditions ?t')) = map condition_of_dto (rdt_ruleConditions d)" by blast+
  then have conds: "map condition_of_do (rows_with cdo_owner ?i (tb_rule_conditions ?t')) = map condition_of_dto (rdt_ruleConditions d)" by simp
  have "rule_selectById ?i ?t' = Some (rule_row ?i d)"
    using ok' r row by (simp add: rule_selectById_def row_with_iff tables_ok_def)
  then show ?thesis using conds row by (simp add: rule_findById_def deref_def)
qed

text \<open>An update that replaces the conditions.\<close>

definition sample_update :: selector_dto where
  "sample_update = (sample_selector (Some ''u'') 2)\<lparr>sdt_selectorConditions := [sample_condition\<lparr>cdt_paramValue := ''/new/**''\<rparr>]\<rparr>"

definition sample_saved :: "unit admin" where
  "sample_saved = snd (selector_createOrUpdate sample_uuid (sample_selector None 1) (sample_admin sample_tables))"


subsection \<open>Pages of selectors\<close>

text \<open>Walking through the pages of a plugin's selectors shows each of them once.\<close>

lemma selector_pages_complete:
  assumes "0 < sz" and "sz < 2 ^ 31" and count: "int (length (tb_selectors t)) < 2 ^ 31"
  shows "\<exists>total. (\<forall>k\<in>{1..total}. \<exists>pg us. selector_listByPage (Some i) (page_request (Some (int k)) (Some sz)) t = Inr (pg, us)
        \<and> pp_totalPage pg = int total)
      \<and> concat (map (\<lambda>k. case selector_listByPage (Some i) (page_request (Some (int k)) (Some sz)) t of Inl _ \<Rightarrow> [] | Inr (_, us) \<Rightarrow> us)
          [1..<Suc total]) = map (\<lambda>r. (r, None)) (rows_with sdo_pluginId i (tb_selectors t))"
proof -
  let ?rows = "selectors_selectByQuery (Some i) t"
  have "int (length ?rows) \<le> int (length (tb_selectors t))"
    unfolding selectors_selectByQuery_def by (simp only: of_nat_le_iff length_filter_le)
  then have len: "int (length ?rows) < 2 ^ 31" using count by linarith
  have rows: "?rows = rows_with sdo_pluginId i (tb_selectors t)"
    unfolding selectors_selectByQuery_def rows_with_def by (rule filter_cong) auto
  show ?thesis
    using pages_complete [OF assms(1,2) len, of "\<lambda>p. selector_listByPage (Some i) p t" "\<lambda>r. (r, None)"]
    by (simp add: selector_listByPage_def Let_def rows)
qed

end
