(* ===== verification/Waf.thy ===== *)
theory Waf
  imports PluginChain
begin

text \<open>
  The plugins that decide by the handle of a rule alone: \<open>WafPlugin\<close>, which lets a request pass or refuses
  it, with \<open>WafPluginDataHandler\<close>, and \<open>RewritePlugin\<close>, which leaves another path for the plugins after it.
\<close>

subsection \<open>\<open>WafPlugin\<close>\<close>

record waf_config =
  wc_model :: "string option"

text \<open>The fields of the plugin object, which the visits write.\<close>

record waf_state =
  wf_selectorIsNull :: bool
  wf_ruleIsNull :: bool
  wf_handle :: "string option"

definition REJECT_MSG :: string where "REJECT_MSG = '' You are forbidden to visit''"

definition waf_visitSelector :: "selector_data option \<Rightarrow> waf_state \<Rightarrow> waf_state \<times> jexn option" where
  "waf_visitSelector selectorData f = (f\<lparr>wf_selectorIsNull := (selectorData = None)\<rparr>, None)"

definition waf_visitRule :: "rule_data option \<Rightarrow> waf_state \<Rightarrow> waf_state \<times> jexn option" where
  "waf_visitRule rule f =
     (let f' = f\<lparr>wf_ruleIsNull := (rule = None)\<rparr>
      in case rule of None \<Rightarrow> (f', Some NullPointer) | Some rd \<Rightarrow> (f'\<lparr>wf_handle := rd_handle rd\<rparr>, None))"

text \<open>\<open>doExecute\<close>; \<open>wafConfig\<close> is the singleton, null before the plugin's data has come, \<open>parse\<close> is Gson on the handle.\<close>

definition waf_doExecute ::
  "(string option \<Rightarrow> waf_handle option jres) \<Rightarrow> waf_config option \<Rightarrow> exchange \<times> waf_state \<Rightarrow> (exchange \<times> waf_state) action" where
  "waf_doExecute parse wafConfig exf =
     (case exf of (ex, f) \<Rightarrow>
      if wf_selectorIsNull f \<and> wf_ruleIsNull f then
        act_of (ex, f) (deref wafConfig) (\<lambda>c.
          if wc_model c = Some (waf_model_name WM_BLACK) then Next (ex, f)
          else Finish (result_error 403 REJECT_MSG (set_status 403 ex), f))
      else act_of (ex, f) (parse (wf_handle f)) (\<lambda>h.
        case h of
          None \<Rightarrow> Next (ex, f)
        | Some wafHandle \<Rightarrow>
            if is_blank (wh_permission wafHandle) then Next (ex, f)
            else if wh_permission wafHandle = Some (waf_enum_name WE_REJECT) then
              (let ex' = set_status 403 ex
               in act_of (ex', f) (case wh_statusCode wafHandle of None \<Rightarrow> Inl NumberFormat | Some s \<Rightarrow> parse_int s) (\<lambda>code.
                    Finish (result_error code REJECT_MSG ex', f)))
            else Next (ex, f)))"

definition waf_impl :: "(string option \<Rightarrow> waf_handle option jres) \<Rightarrow> waf_config option \<Rightarrow> waf_state plugin_impl" where
  "waf_impl parse wafConfig =
     \<lparr>pi_named = plugin_enum_name PE_WAF, pi_visitSelector = (\<lambda>sd. waf_visitSelector (Some sd)),
      pi_visitRule = (\<lambda>rd. waf_visitRule (Some rd)), pi_doExecute = waf_doExecute parse wafConfig\<rparr>"

text \<open>\<open>WafPluginDataHandler.handlerPlugin\<close>: the map of singletons takes no null.\<close>

definition waf_handlerPlugin ::
  "(string option \<Rightarrow> waf_config option jres) \<Rightarrow> plugin_data \<Rightarrow> waf_config option \<Rightarrow> waf_config option jres" where
  "waf_handlerPlugin parse pd s = bindr (bindr (parse (pd_config pd)) deref) (\<lambda>c. Inr (Some c))"

subsection \<open>\<open>RewritePlugin\<close>\<close>

text \<open>
  The method \<open>doExecute\<close> as written, with the rule as an argument. (The base class calls a method of two
  arguments, which this class does not define.)
\<close>

definition rewrite_doExecute ::
  "(string option \<Rightarrow> rewrite_handle option jres) \<Rightarrow> rule_data \<Rightarrow> exchange \<Rightarrow> exchange action" where
  "rewrite_doExecute parse rule ex =
     act_of ex (parse (rd_handle rule)) (\<lambda>h.
       case h of
         None \<Rightarrow> Next ex
       | Some rewriteHandle \<Rightarrow>
           if is_blank (rw_rewriteURI rewriteHandle) then Next ex
           else Next (ex\<lparr>ex_rewriteUri := rw_rewriteURI rewriteHandle\<rparr>))"

definition rewrite_skip :: "exchange \<Rightarrow> bool jres" where
  "rewrite_skip ex = bindr (deref (ex_context ex)) (\<lambda>body. Inr (ctx_rpcType body = Some (rpc_type_name RPC_DUBBO)))"

subsection \<open>What the waf plugin decides\<close>

lemma waf_impl_fields:
  "pi_named (waf_impl parse cfg) = plugin_enum_name PE_WAF"
  "pi_visitSelector (waf_impl parse cfg) = (\<lambda>sd. waf_visitSelector (Some sd))"
  "pi_visitRule (waf_impl parse cfg) = (\<lambda>rd. waf_visitRule (Some rd))"
  "pi_doExecute (waf_impl parse cfg) = waf_doExecute parse cfg"
  by (simp_all add: waf_impl_def)

lemma waf_prepared:
  assumes "abstract_prepare env c (waf_impl parse cfg) (ex, f) = Ready ex' f'"
  shows "\<not> wf_selectorIsNull f' \<and> \<not> wf_ruleIsNull f'"
  using assms
  by (auto simp: abstract_prepare_def waf_impl_def waf_visitSelector_def waf_visitRule_def Let_def
      split: option.splits if_splits sum.splits)

lemma waf_prepare_model:
  "abstract_prepare env c (waf_impl parse cfg) exf = abstract_prepare env c (waf_impl parse cfg') exf"
  unfolding abstract_prepare_def waf_impl_fields by (rule refl)

text \<open>
  The model of the waf plugin decides nothing: whatever its configuration says, black or mixed or nothing at all,
  every request is treated the same, as the visits leave \<open>selectorIsNull\<close> and \<open>ruleIsNull\<close> false before \<open>doExecute\<close>.
\<close>

theorem waf_model_decides_nothing:
  "abstract_execute env c (waf_impl parse cfg) (ex, f) = abstract_execute env c (waf_impl parse cfg') (ex, f)"
proof -
  have "waf_doExecute parse cfg (ex', f') = waf_doExecute parse cfg' (ex', f')"
    if "abstract_prepare env c (waf_impl parse cfg') (ex, f) = Ready ex' f'" for ex' f'
    using waf_prepared [OF that] by (simp add: waf_doExecute_def)
  then show ?thesis
    unfolding abstract_execute_def waf_prepare_model [of env c parse cfg _ cfg']
    by (auto simp: waf_impl_def split: prepared.split)
qed

text \<open>
  The waf plugin refuses by the rule. When the plugin is enabled, \<open>sd\<close> is the selector matched and \<open>rd\<close> the rule
  chosen, the request ends there exactly when the rule's handle forbids it with a numeric status.
\<close>

theorem waf_refuses_by_rule:
  assumes "obtainPluginData c (plugin_enum_name PE_WAF) = Some pd" "pd_enabled pd"
    "matchSelector env ex sds = Inr (Some sd)" "obtainSelectorData c (plugin_enum_name PE_WAF) = Some sds" "sds \<noteq> []"
    "obtainRuleData c (sd_id sd) = Some rules" "rules \<noteq> []" "choose_rule env ex sd rules = Inr (Some rd)"
  shows "(\<exists>r. abstract_execute env c (waf_impl parse cfg) (ex, f) = Finish r) \<longleftrightarrow>
     (\<exists>h s n. parse (rd_handle rd) = Inr (Some h) \<and> wh_permission h = Some (waf_enum_name WE_REJECT)
        \<and> wh_statusCode h = Some s \<and> parse_int s = Inr n)"
proof -
  let ?f = "\<lparr>wf_selectorIsNull = False, wf_ruleIsNull = False, wf_handle = rd_handle rd\<rparr>"
  have "abstract_prepare env c (waf_impl parse cfg) (ex, f) = Ready ex ?f"
    using assms by (cases f) (simp add: abstract_prepare_def waf_impl_def waf_visitSelector_def waf_visitRule_def the_group_def)
  then have "abstract_execute env c (waf_impl parse cfg) (ex, f) = waf_doExecute parse cfg (ex, ?f)"
    by (simp add: abstract_execute_def) (simp add: waf_impl_def)
  moreover have "\<not> is_blank (Some (waf_enum_name WE_REJECT))" by code_simp
  ultimately show ?thesis
    by (auto simp: waf_doExecute_def act_of_def Let_def split: sum.split option.split)
qed

end
