(* ===== verification/NacosSync.thy ===== *)
theory NacosSync
  imports WebsocketSync "HOL-Library.AList"
begin

text \<open>
  Synchronisation by Nacos: the admin's \<open>NacosDataChangedListener\<close>, which keeps one configuration text per group, and
  the gateway's \<open>NacosCacheHandler\<close> with \<open>NacosSyncDataService\<close>. Nacos itself is what \<open>getConfig\<close> returns (a text, or
  null for a configuration nobody has published) and the text handed to \<open>publishConfig\<close>. Gson is the parameter
  \<open>json_of\<close>. The maps are lists of entries, in an order the concurrent map leaves open.
\<close>

subsection \<open>Texts\<close>

text \<open>
  \<open>toJson\<close> of a map; \<open>fromJson\<close> to a \<open>JsonObject\<close> whose values are then read one by one; \<open>fromList\<close>. The last two
  return null for null.
\<close>

record 'a json_of =
  jo_write :: "(string \<times> 'a) list \<Rightarrow> string"
  jo_object :: "string option \<Rightarrow> (string \<times> 'a) list option jres"
  jo_list :: "string option \<Rightarrow> 'a list option jres"

definition json_parse_exception :: jexn where
  "json_parse_exception = RuntimeExn ''JsonParseException''"

record nacos_json =
  nj_plugins :: "plugin_data json_of"
  nj_selectors :: "selector_data list json_of"
  nj_selector :: "selector_data json_of"
  nj_rules :: "rule_data list json_of"
  nj_rule :: "rule_data json_of"
  nj_auths :: "app_auth_data json_of"
  nj_metas :: "meta_data json_of"

text \<open>What is documented of Gson: null stays null, and the object a map is written as is no list.\<close>

definition no_list :: "('a, 'x) json_of_scheme \<Rightarrow> ('b, 'y) json_of_scheme \<Rightarrow> bool" where
  "no_list W R \<longleftrightarrow> (\<forall>m. jo_list R (Some (jo_write W m)) = Inl json_parse_exception)"

definition gson :: "nacos_json \<Rightarrow> bool" where
  "gson J \<longleftrightarrow> jo_object (nj_plugins J) None = Inr None \<and> jo_object (nj_selectors J) None = Inr None
     \<and> jo_object (nj_rules J) None = Inr None \<and> jo_object (nj_auths J) None = Inr None \<and> jo_object (nj_metas J) None = Inr None
     \<and> jo_list (nj_plugins J) None = Inr None
     \<and> no_list (nj_plugins J) (nj_plugins J) \<and> no_list (nj_selectors J) (nj_selector J) \<and> no_list (nj_rules J) (nj_rule J)
     \<and> no_list (nj_auths J) (nj_auths J) \<and> no_list (nj_metas J) (nj_metas J)"

subsection \<open>The admin's maps\<close>

record nacos_maps =
  nm_PLUGIN_MAP :: "(string \<times> plugin_data) list"
  nm_SELECTOR_MAP :: "(string \<times> selector_data list) list"
  nm_RULE_MAP :: "(string \<times> rule_data list) list"
  nm_AUTH_MAP :: "(string \<times> app_auth_data) list"
  nm_META_DATA :: "(string \<times> meta_data) list"

definition put_all :: "(string \<times> 'a) list \<Rightarrow> (string \<times> 'a) list \<Rightarrow> (string \<times> 'a) list" where
  "put_all es m = fold (\<lambda>(k, v). AList.update k v) es m"

definition remove_all :: "string list \<Rightarrow> (string \<times> 'a) list \<Rightarrow> (string \<times> 'a) list" where
  "remove_all ks m = fold AList.delete ks m"

text \<open>\<open>updatePluginMap\<close> and its siblings: the entries of the text, and no others. The same loop handles a refresh.\<close>

definition update_map :: "(string \<times> 'a) list \<Rightarrow> (string \<times> 'a) list \<Rightarrow> (string \<times> 'a) list" where
  "update_map es m =
     (let gone = filter (\<lambda>k. k \<notin> set (map fst es)) (map fst m) in remove_all gone (put_all es m))"

definition list_at :: "string \<Rightarrow> (string \<times> 'a list) list \<Rightarrow> 'a list" where
  "list_at k m = (case map_of m k of None \<Rightarrow> [] | Some xs \<Rightarrow> xs)"

subsection \<open>The admin's listener\<close>

text \<open>The text that is published, or the exception that ends the handler before it publishes; and the maps.\<close>

definition nacos_change ::
  "'a list option jres \<Rightarrow> ('a list \<Rightarrow> nacos_maps \<Rightarrow> nacos_maps) \<Rightarrow> nacos_maps updates \<Rightarrow> (nacos_maps \<Rightarrow> string) \<Rightarrow>
     nacos_maps \<Rightarrow> string jres \<times> nacos_maps" where
  "nacos_change jo update change write m =
     (case bindr jo deref of
        Inl e \<Rightarrow> (Inl e, m)
      | Inr es \<Rightarrow> (case change (update es m) of (m', Some e) \<Rightarrow> (Inl e, m') | (m', None) \<Rightarrow> (Inr (write m'), m')))"

definition keyed_change :: "('a \<Rightarrow> string) \<Rightarrow> data_event_type \<Rightarrow> 'a list \<Rightarrow> (string \<times> 'a) list \<Rightarrow> (string \<times> 'a) list" where
  "keyed_change key ty ds m =
     (case ty of
        EV_DELETE \<Rightarrow> remove_all (map key ds) m
      | EV_REFRESH \<Rightarrow> update_map (map (\<lambda>d. (key d, d)) ds) m
      | EV_MYSELF \<Rightarrow> update_map (map (\<lambda>d. (key d, d)) ds) m
      | _ \<Rightarrow> put_all (map (\<lambda>d. (key d, d)) ds) m)"

definition nacos_onPluginChanged ::
  "nacos_json \<Rightarrow> string option \<Rightarrow> data_event_type \<Rightarrow> plugin_data list \<Rightarrow> nacos_maps \<Rightarrow> string jres \<times> nacos_maps" where
  "nacos_onPluginChanged J config ty ds =
     nacos_change (jo_object (nj_plugins J) config) (\<lambda>es m. m\<lparr>nm_PLUGIN_MAP := update_map es (nm_PLUGIN_MAP m)\<rparr>)
       (\<lambda>m. (m\<lparr>nm_PLUGIN_MAP := keyed_change pd_name ty ds (nm_PLUGIN_MAP m)\<rparr>, None))
       (\<lambda>m. jo_write (nj_plugins J) (nm_PLUGIN_MAP m))"

definition nacos_onAppAuthChanged ::
  "nacos_json \<Rightarrow> string option \<Rightarrow> data_event_type \<Rightarrow> app_auth_data list \<Rightarrow> nacos_maps \<Rightarrow> string jres \<times> nacos_maps" where
  "nacos_onAppAuthChanged J config ty ds =
     nacos_change (jo_object (nj_auths J) config) (\<lambda>es m. m\<lparr>nm_AUTH_MAP := update_map es (nm_AUTH_MAP m)\<rparr>)
       (\<lambda>m. (m\<lparr>nm_AUTH_MAP := keyed_change aa_appKey ty ds (nm_AUTH_MAP m)\<rparr>, None))
       (\<lambda>m. jo_write (nj_auths J) (nm_AUTH_MAP m))"

text \<open>
  Selectors and rules: one step per row of the event. \<open>kept\<close> says which entries of the list stay; a refresh keeps the
  lists there are and adds nothing to them.
\<close>

definition list_kept :: "('a \<Rightarrow> int) \<Rightarrow> string \<Rightarrow> ('a \<Rightarrow> bool) \<Rightarrow> (string \<times> 'a list) list \<Rightarrow> 'a list" where
  "list_kept srt k kept m = sort_key srt (filter kept (list_at k m))"

definition list_change ::
  "('a \<Rightarrow> string) \<Rightarrow> ('a \<Rightarrow> int) \<Rightarrow> ('a \<Rightarrow> 'a \<Rightarrow> bool) \<Rightarrow> data_event_type \<Rightarrow> 'a option list \<Rightarrow> (string \<times> 'a list) list updates" where
  "list_change grp srt kept ty ds m =
     (case ty of
        EV_DELETE \<Rightarrow> each (nullable (\<lambda>d m. (AList.update (grp d) (list_kept srt (grp d) (kept d) m) m, None))) ds m
      | EV_REFRESH \<Rightarrow> and_then (each (nullable (\<lambda>d m. (AList.update (grp d) (list_kept srt (grp d) (\<lambda>_. True) m) m, None))) ds)
          (\<lambda>m'. (remove_all (filter (\<lambda>k. k \<notin> grp ` the ` set ds) (map fst m)) m', None)) m
      | EV_MYSELF \<Rightarrow> and_then (each (nullable (\<lambda>d m. (AList.update (grp d) (list_kept srt (grp d) (\<lambda>_. True) m) m, None))) ds)
          (\<lambda>m'. (remove_all (filter (\<lambda>k. k \<notin> grp ` the ` set ds) (map fst m)) m', None)) m
      | _ \<Rightarrow> each (nullable (\<lambda>d m. (AList.update (grp d) (list_kept srt (grp d) (kept d) m @ [d]) m, None))) ds m)"

definition nacos_onSelectorChanged ::
  "nacos_json \<Rightarrow> string option \<Rightarrow> data_event_type \<Rightarrow> selector_data option list \<Rightarrow> nacos_maps \<Rightarrow> string jres \<times> nacos_maps" where
  "nacos_onSelectorChanged J config ty ds =
     nacos_change (jo_object (nj_selectors J) config) (\<lambda>es m. m\<lparr>nm_SELECTOR_MAP := update_map es (nm_SELECTOR_MAP m)\<rparr>)
       (\<lambda>m. case list_change sd_pluginName sd_sort (\<lambda>selector s. sd_id s \<noteq> sd_id selector) ty ds (nm_SELECTOR_MAP m) of
            (lm, e) \<Rightarrow> (m\<lparr>nm_SELECTOR_MAP := lm\<rparr>, e))
       (\<lambda>m. jo_write (nj_selectors J) (nm_SELECTOR_MAP m))"

text \<open>The identifiers of the rules in a list are compared with that of their selector.\<close>

definition nacos_onRuleChanged ::
  "nacos_json \<Rightarrow> string option \<Rightarrow> data_event_type \<Rightarrow> rule_data option list \<Rightarrow> nacos_maps \<Rightarrow> string jres \<times> nacos_maps" where
  "nacos_onRuleChanged J config ty ds =
     nacos_change (jo_object (nj_rules J) config) (\<lambda>es m. m\<lparr>nm_RULE_MAP := update_map es (nm_RULE_MAP m)\<rparr>)
       (\<lambda>m. case list_change rd_selectorId rd_sort (\<lambda>rule s. rd_id s \<noteq> rd_selectorId rule) ty ds (nm_RULE_MAP m) of
            (lm, e) \<Rightarrow> (m\<lparr>nm_RULE_MAP := lm\<rparr>, e))
       (\<lambda>m. jo_write (nj_rules J) (nm_RULE_MAP m))"

text \<open>Meta data: a row that is updated leaves the paths its identifier had.\<close>

definition meta_replace :: "meta_data \<Rightarrow> (string \<times> meta_data) list updates" where
  "meta_replace d m = (AList.update (md_path d) d
     (remove_all (map md_path (filter (\<lambda>x. md_id x = md_id d) (map snd m))) m), None)"

definition meta_change :: "data_event_type \<Rightarrow> meta_data option list \<Rightarrow> (string \<times> meta_data) list updates" where
  "meta_change ty ds m =
     (case ty of
        EV_DELETE \<Rightarrow> each (nullable (\<lambda>d m. (AList.delete (md_path d) m, None))) ds m
      | EV_REFRESH \<Rightarrow> and_then (each (nullable (\<lambda>d m. (AList.update (md_path d) d m, None))) ds)
          (\<lambda>m'. (remove_all (filter (\<lambda>k. k \<notin> md_path ` the ` set ds) (map fst m)) m', None)) m
      | EV_MYSELF \<Rightarrow> and_then (each (nullable (\<lambda>d m. (AList.update (md_path d) d m, None))) ds)
          (\<lambda>m'. (remove_all (filter (\<lambda>k. k \<notin> md_path ` the ` set ds) (map fst m)) m', None)) m
      | _ \<Rightarrow> each (nullable meta_replace) ds m)"

definition nacos_onMetaDataChanged ::
  "nacos_json \<Rightarrow> string option \<Rightarrow> data_event_type \<Rightarrow> meta_data option list \<Rightarrow> nacos_maps \<Rightarrow> string jres \<times> nacos_maps" where
  "nacos_onMetaDataChanged J config ty ds =
     nacos_change (jo_object (nj_metas J) config) (\<lambda>es m. m\<lparr>nm_META_DATA := update_map es (nm_META_DATA m)\<rparr>)
       (\<lambda>m. case meta_change ty ds (nm_META_DATA m) of (lm, e) \<Rightarrow> (m\<lparr>nm_META_DATA := lm\<rparr>, e))
       (\<lambda>m. jo_write (nj_metas J) (nm_META_DATA m))"

text \<open>One event, given the text its group has in Nacos.\<close>

fun nacos_listener ::
  "nacos_json \<Rightarrow> data_event \<Rightarrow> string option \<Rightarrow> nacos_maps \<Rightarrow> string jres \<times> nacos_maps" where
  "nacos_listener J (DataChangedEvent ty (PluginRows ds)) c = nacos_onPluginChanged J c ty ds"
| "nacos_listener J (DataChangedEvent ty (SelectorRows ds)) c = nacos_onSelectorChanged J c ty ds"
| "nacos_listener J (DataChangedEvent ty (RuleRows ds)) c = nacos_onRuleChanged J c ty ds"
| "nacos_listener J (DataChangedEvent ty (AuthRows ds)) c = nacos_onAppAuthChanged J c ty ds"
| "nacos_listener J (DataChangedEvent ty (MetaRows ds)) c = nacos_onMetaDataChanged J c ty ds"

subsection \<open>The gateway's handler\<close>

text \<open>\<open>fromList\<close> inside a \<open>try\<close> that catches what Gson throws; null is not caught.\<close>

definition nacos_update :: "'a list option jres \<Rightarrow> ('a \<Rightarrow> 's updates) \<Rightarrow> ('a \<Rightarrow> 's updates) \<Rightarrow> 's updates" where
  "nacos_update parsed off on s =
     (case parsed of
        Inl e \<Rightarrow> (s, if e = json_parse_exception then None else Some e)
      | Inr None \<Rightarrow> (s, Some NullPointer)
      | Inr (Some ds) \<Rightarrow> and_then (each off ds) (each on ds) s)"

definition nacos_updatePluginMap :: "'h handlers \<Rightarrow> nacos_json \<Rightarrow> string option \<Rightarrow> 'h gateway updates" where
  "nacos_updatePluginMap hm J c = on_sub (nacos_update (jo_list (nj_plugins J) c) (unSubscribe hm) (onSubscribe hm))"

definition nacos_updateSelectorMap :: "'h handlers \<Rightarrow> nacos_json \<Rightarrow> string option \<Rightarrow> 'h gateway updates" where
  "nacos_updateSelectorMap hm J c =
     on_sub (nacos_update (jo_list (nj_selector J) c) (unSelectorSubscribe hm) (onSelectorSubscribe hm))"

definition nacos_updateRuleMap :: "'h handlers \<Rightarrow> nacos_json \<Rightarrow> string option \<Rightarrow> 'h gateway updates" where
  "nacos_updateRuleMap hm J c = on_sub (nacos_update (jo_list (nj_rule J) c) (unRuleSubscribe hm) (onRuleSubscribe hm))"

definition nacos_updateMetaDataMap :: "nacos_json \<Rightarrow> string option \<Rightarrow> 'h gateway updates" where
  "nacos_updateMetaDataMap J c = nacos_update (jo_list (nj_metas J) c) (meta_sub meta_unSubscribe) (meta_sub meta_onSubscribe)"

definition nacos_updateAuthMap :: "nacos_json \<Rightarrow> string option \<Rightarrow> 'h gateway updates" where
  "nacos_updateAuthMap J c = nacos_update (jo_list (nj_auths J) c) (auth_sub auth_unSubscribe) (auth_sub auth_onSubscribe)"

fun nacos_receive :: "'h handlers \<Rightarrow> nacos_json \<Rightarrow> config_group \<Rightarrow> string option \<Rightarrow> 'h gateway updates" where
  "nacos_receive hm J G_PLUGIN c = nacos_updatePluginMap hm J c"
| "nacos_receive hm J G_SELECTOR c = nacos_updateSelectorMap hm J c"
| "nacos_receive hm J G_RULE c = nacos_updateRuleMap hm J c"
| "nacos_receive hm J G_META_DATA c = nacos_updateMetaDataMap J c"
| "nacos_receive hm J G_APP_AUTH c = nacos_updateAuthMap J c"

text \<open>\<open>start\<close> reads the five texts in this order; an exception leaves the constructor.\<close>

definition nacos_start :: "'h handlers \<Rightarrow> nacos_json \<Rightarrow> (config_group \<Rightarrow> string option) \<Rightarrow> 'h gateway updates" where
  "nacos_start hm J texts =
     each (\<lambda>g. nacos_receive hm J g (texts g)) [G_PLUGIN, G_SELECTOR, G_RULE, G_META_DATA, G_APP_AUTH]"

subsection \<open>What is published\<close>

lemma map_of_put_all: "map_of (put_all es m) = map_of m ++ map_of (rev es)"
proof (induction es arbitrary: m)
  case (Cons e es)
  obtain k v where e: "e = (k, v)" by (cases e)
  have "map_of (put_all (e # es) m) = (map_of m)(k \<mapsto> v) ++ map_of (rev es)"
    using Cons.IH [of "AList.update k v m"] by (simp add: put_all_def e AList.update_conv' fun_upd_def)
  then show ?case by (simp add: e map_add_def fun_eq_iff split: option.splits)
qed (simp add: put_all_def)

lemma map_of_remove_all: "map_of (remove_all ks m) k = (if k \<in> set ks then None else map_of m k)"
proof (induction ks arbitrary: m)
  case (Cons x ks)
  have "remove_all (x # ks) m = remove_all ks (AList.delete x m)" by (simp add: remove_all_def)
  then show ?case using Cons.IH [of "AList.delete x m"] by (simp add: AList.delete_conv')
qed (simp add: remove_all_def)

lemma map_of_rev:
  assumes "distinct (map fst es)"
  shows "map_of (rev es) = map_of es"
proof -
  have "distinct (map fst (rev es))" using assms by (simp add: rev_map [symmetric])
  then have "map_of (rev es) k = Some v \<longleftrightarrow> map_of es k = Some v" for k v
    using assms by (simp add: map_of_eq_Some_iff)
  then show ?thesis by (metis ext option.exhaust)
qed

text \<open>What the map held before does not matter.\<close>

lemma map_of_update_map: "map_of (update_map es m) = map_of (rev es)"
proof (rule ext)
  fix k
  have es: "map_of (rev es) k = None \<longleftrightarrow> k \<notin> fst ` set es" by (simp add: map_of_eq_None_iff)
  have m: "map_of m k = None \<longleftrightarrow> k \<notin> fst ` set m" by (simp add: map_of_eq_None_iff)
  show "map_of (update_map es m) k = map_of (rev es) k"
  proof (cases "map_of (rev es) k")
    case None
    then have "k \<notin> fst ` set es" using es by simp
    then show ?thesis using None m by (simp add: update_map_def map_of_remove_all map_of_put_all map_add_def)
  next
    case (Some v)
    then have "k \<in> fst ` set es" using es by auto
    then show ?thesis using Some by (simp add: update_map_def map_of_remove_all map_of_put_all map_add_def)
  qed
qed

lemma map_of_keyed: "map_of (rev (map (\<lambda>d. (key d, d)) ds)) k = find (\<lambda>d. key d = k) (rev ds)"
proof -
  have "map_of (map (\<lambda>d. (key d, d)) xs) k = find (\<lambda>d. key d = k) xs" for xs by (induction xs) auto
  then show ?thesis by (simp add: rev_map)
qed

lemma map_of_keyed_change:
  "map_of (keyed_change key ty ds m) k =
     (case ty of
        EV_DELETE \<Rightarrow> if k \<in> key ` set ds then None else map_of m k
      | EV_REFRESH \<Rightarrow> find (\<lambda>d. key d = k) (rev ds)
      | EV_MYSELF \<Rightarrow> find (\<lambda>d. key d = k) (rev ds)
      | _ \<Rightarrow> (case find (\<lambda>d. key d = k) (rev ds) of None \<Rightarrow> map_of m k | Some d \<Rightarrow> Some d))"
  by (simp add: keyed_change_def map_of_remove_all map_of_update_map map_of_put_all map_of_keyed map_add_def
      split: data_event_type.splits)

text \<open>
  C0: What the admin publishes for plugins is the text that is in Nacos with the event applied: a deletion takes
  its plugins away, a refresh leaves exactly its own, and any other event replaces or adds them. What this admin had
  in memory does not matter, so several admins can take turns.
\<close>

theorem nacos_publishes_the_latest:
  assumes there: "jo_object (nj_plugins J) config = Inr (Some es)" and keys: "distinct (map fst es)"
  shows "\<exists>maps'. nacos_listener J (PluginChanged ty ds) config maps = (Inr (jo_write (nj_plugins J) (nm_PLUGIN_MAP maps')), maps')
    \<and> map_of (nm_PLUGIN_MAP maps') = (\<lambda>n. case ty of
          EV_DELETE \<Rightarrow> if n \<in> pd_name ` set ds then None else map_of es n
        | EV_REFRESH \<Rightarrow> find (\<lambda>d. pd_name d = n) (rev ds)
        | EV_MYSELF \<Rightarrow> find (\<lambda>d. pd_name d = n) (rev ds)
        | _ \<Rightarrow> (case find (\<lambda>d. pd_name d = n) (rev ds) of None \<Rightarrow> map_of es n | Some d \<Rightarrow> Some d))"
proof -
  have rev: "map_of (rev es) = map_of es" using keys by (rule map_of_rev)
  show ?thesis
    by (cases ty) (auto simp: nacos_onPluginChanged_def nacos_change_def there fun_eq_iff map_of_keyed_change map_of_update_map rev
        split: option.splits)
qed

definition sample_json :: "(string \<times> 'a) list \<Rightarrow> 'a json_of" where
  "sample_json es = \<lparr>jo_write = (\<lambda>m. ''{'' @ concat (map fst m) @ ''}''), jo_object = (\<lambda>t. Inr (map_option (\<lambda>_. es) t)),
     jo_list = (\<lambda>t. case t of None \<Rightarrow> Inr None | Some _ \<Rightarrow> Inl json_parse_exception)\<rparr>"

definition sample_nacos_plugin :: "string \<Rightarrow> plugin_data" where
  "sample_nacos_plugin n = \<lparr>pd_id = n, pd_name = n, pd_config = None, pd_role = 0, pd_enabled = True\<rparr>"

definition sample_nacos :: nacos_json where
  "sample_nacos = \<lparr>nj_plugins = sample_json [(''waf'', sample_nacos_plugin ''waf''), (''sign'', sample_nacos_plugin ''sign'')],
     nj_selectors = sample_json [], nj_selector = sample_json [], nj_rules = sample_json [], nj_rule = sample_json [],
     nj_auths = sample_json [], nj_metas = sample_json []\<rparr>"

definition no_nacos_maps :: nacos_maps where
  "no_nacos_maps = \<lparr>nm_PLUGIN_MAP = [], nm_SELECTOR_MAP = [], nm_RULE_MAP = [], nm_AUTH_MAP = [], nm_META_DATA = []\<rparr>"

lemma nacos_publishes_the_latest_witness:
  "\<exists>maps'. nacos_listener sample_nacos (PluginChanged EV_DELETE [sample_nacos_plugin ''waf'']) (Some ''{}'') no_nacos_maps
      = (Inr (jo_write (nj_plugins sample_nacos) (nm_PLUGIN_MAP maps')), maps')
    \<and> map_of (nm_PLUGIN_MAP maps') ''waf'' = None \<and> map_of (nm_PLUGIN_MAP maps') ''sign'' = Some (sample_nacos_plugin ''sign'')"
proof -
  have "jo_object (nj_plugins sample_nacos) (Some ''{}'')
      = Inr (Some [(''waf'', sample_nacos_plugin ''waf''), (''sign'', sample_nacos_plugin ''sign'')])"
    by (simp add: sample_nacos_def sample_json_def)
  from nacos_publishes_the_latest [OF this, of EV_DELETE "[sample_nacos_plugin ''waf'']" no_nacos_maps]
  show ?thesis by (fastforce simp: sample_nacos_plugin_def)
qed

subsection \<open>What the gateway takes of it\<close>

lemma update_nothing:
  "on_sub (\<lambda>s. (s, e)) g = (g, e)"
  "nacos_update (Inl json_parse_exception) off on = (\<lambda>s. (s, None))"
  "nacos_update (Inr None) off on = (\<lambda>s. (s, Some NullPointer))"
  by (simp_all add: on_sub_def nacos_update_def fun_eq_iff)

text \<open>
  C40: Nothing the admin publishes over Nacos reaches the gateway's caches. The admin writes each group as an object,
  and the gateway reads a list: Gson refuses it, the handler logs that, and the caches stay as they were. Before
  anybody has published, the admin's own reading of the missing text throws, so that no event publishes anything, and a
  gateway that finds no text does not start.
\<close>

theorem nacos_never_reaches_the_gateway:
  assumes "gson J"
  shows "(\<forall>published. fst (nacos_listener J ev config maps) = Inr published \<longrightarrow>
        nacos_receive hm J (rows_group (event_rows ev)) (Some published) g = (g, None))
    \<and> nacos_listener J ev None maps = (Inl NullPointer, maps)
    \<and> nacos_start hm J (\<lambda>_. None) g = (g, Some NullPointer)"
proof (intro conjI)
  obtain ty rows where ev: "ev = DataChangedEvent ty rows" by (cases ev)
  note receives = update_nothing nacos_updatePluginMap_def nacos_updateSelectorMap_def nacos_updateRuleMap_def
    nacos_updateAuthMap_def nacos_updateMetaDataMap_def
  note handlers = nacos_onPluginChanged_def nacos_onSelectorChanged_def nacos_onRuleChanged_def nacos_onAppAuthChanged_def
    nacos_onMetaDataChanged_def nacos_change_def
  show "\<forall>published. fst (nacos_listener J ev config maps) = Inr published \<longrightarrow>
      nacos_receive hm J (rows_group (event_rows ev)) (Some published) g = (g, None)"
    using assms unfolding ev gson_def no_list_def
    by (cases rows) (auto simp: handlers receives split: sum.splits prod.splits option.splits)
  show "nacos_listener J ev None maps = (Inl NullPointer, maps)"
    using assms unfolding ev gson_def by (cases rows) (simp_all add: handlers)
  show "nacos_start hm J (\<lambda>_. None) g = (g, Some NullPointer)"
    using assms by (simp add: nacos_start_def gson_def receives)
qed

definition sample_nacos_gateway :: "unit gateway" where
  "sample_nacos_gateway = \<lparr>gw_sub = start_state (), gw_auths = Map.empty, gw_metas = Map.empty\<rparr>"

lemma nacos_never_reaches_the_gateway_witness:
  "(\<exists>published. fst (nacos_listener sample_nacos (PluginChanged EV_UPDATE [sample_nacos_plugin ''waf'']) (Some ''{}'') no_nacos_maps) = Inr published
      \<and> nacos_receive Map.empty sample_nacos G_PLUGIN (Some published) sample_nacos_gateway = (sample_nacos_gateway, None))
    \<and> nacos_start Map.empty sample_nacos (\<lambda>_. None) sample_nacos_gateway = (sample_nacos_gateway, Some NullPointer)"
proof -
  let ?ev = "PluginChanged EV_UPDATE [sample_nacos_plugin ''waf'']"
  have "gson sample_nacos" by (simp add: gson_def no_list_def sample_nacos_def sample_json_def)
  note all = nacos_never_reaches_the_gateway [OF this, of ?ev "Some ''{}''" no_nacos_maps Map.empty sample_nacos_gateway]
  obtain published where "fst (nacos_listener sample_nacos ?ev (Some ''{}'') no_nacos_maps) = Inr published"
    by (simp add: nacos_onPluginChanged_def nacos_change_def sample_nacos_def sample_json_def)
  then show ?thesis using all by auto
qed

text \<open>A rule that is deleted stays in the text: its identifier is not that of its selector.\<close>

lemma nacos_keeps_deleted_rules:
  assumes "jo_object (nj_rules J) config = Inr (Some [(rd_selectorId r, [r])])" and "rd_id r \<noteq> rd_selectorId r"
  shows "\<exists>maps'. nacos_listener J (RuleChanged EV_DELETE [Some r]) config no_nacos_maps
    = (Inr (jo_write (nj_rules J) (nm_RULE_MAP maps')), maps') \<and> list_at (rd_selectorId r) (nm_RULE_MAP maps') = [r]"
proof -
  have "update_map [(rd_selectorId r, [r])] [] = [(rd_selectorId r, [r])]" by (simp add: update_map_def put_all_def remove_all_def)
  then show ?thesis using assms
    by (simp add: nacos_onRuleChanged_def nacos_change_def no_nacos_maps_def list_change_def nullable_def list_kept_def list_at_def)
qed

end
