(* ===== verification/ZooPaths.thy ===== *)
theory ZooPaths
  imports Prelude
begin

text \<open>
  The paths of the nodes in ZooKeeper (\<open>ZkPathConstants\<close>), how the gateway reads a node's path back when the node is gone
  (\<open>ZookeeperSyncDataService\<close>), and \<open>URLEncoder\<close> and \<open>URLDecoder\<close>, which keep the path of meta data one segment.
\<close>

subsection \<open>\<open>ZkPathConstants\<close>\<close>

definition PLUGIN_PARENT :: string where "PLUGIN_PARENT = ''/soul/plugin''"
definition SELECTOR_PARENT :: string where "SELECTOR_PARENT = ''/soul/selector''"
definition RULE_PARENT :: string where "RULE_PARENT = ''/soul/rule''"
definition APP_AUTH_PARENT :: string where "APP_AUTH_PARENT = ''/soul/auth''"
definition META_DATA_PARENT :: string where "META_DATA_PARENT = ''/soul/metaData''"
definition SELECTOR_JOIN_RULE :: char where "SELECTOR_JOIN_RULE = CHR ''-''"

text \<open>\<open>buildRealPath(parent, children)\<close>, and every builder of a path.\<close>

definition node_path :: "string \<Rightarrow> string \<Rightarrow> string" where
  "node_path parent child = parent @ ''/'' @ child"

definition buildAppAuthPath :: "string \<Rightarrow> string" where
  "buildAppAuthPath appKey = node_path APP_AUTH_PARENT appKey"

definition buildMetaDataPath :: "string \<Rightarrow> string" where
  "buildMetaDataPath path = node_path META_DATA_PARENT path"

definition buildPluginPath :: "string \<Rightarrow> string" where
  "buildPluginPath pluginName = node_path PLUGIN_PARENT pluginName"

definition buildSelectorParentPath :: "string \<Rightarrow> string" where
  "buildSelectorParentPath pluginName = node_path SELECTOR_PARENT pluginName"

definition buildSelectorRealPath :: "string \<Rightarrow> string \<Rightarrow> string" where
  "buildSelectorRealPath pluginName selectorId = node_path (node_path SELECTOR_PARENT pluginName) selectorId"

definition buildRuleParentPath :: "string \<Rightarrow> string" where
  "buildRuleParentPath pluginName = node_path RULE_PARENT pluginName"

definition buildRulePath :: "string \<Rightarrow> string \<Rightarrow> string \<Rightarrow> string" where
  "buildRulePath pluginName selectorId ruleId =
     node_path (buildRuleParentPath pluginName) (selectorId @ SELECTOR_JOIN_RULE # ruleId)"

subsection \<open>\<open>URLEncoder\<close> and \<open>URLDecoder\<close>\<close>

text \<open>A text is its UTF-8 bytes, so one character here is one byte there.\<close>

definition url_safe :: "char \<Rightarrow> bool" where
  "url_safe c \<longleftrightarrow> (let n = (of_char c :: nat) in (97 \<le> n \<and> n \<le> 122) \<or> (65 \<le> n \<and> n \<le> 90) \<or> (48 \<le> n \<and> n \<le> 57)
     \<or> c = CHR ''.'' \<or> c = CHR ''-'' \<or> c = CHR ''*'' \<or> c = CHR ''_'')"

definition hex_digit :: "nat \<Rightarrow> char" where
  "hex_digit k = char_of (if k < 10 then 48 + k else 55 + k)"

definition hex_value :: "char \<Rightarrow> nat option" where
  "hex_value c = (let n = (of_char c :: nat) in
     if 48 \<le> n \<and> n \<le> 57 then Some (n - 48) else if 65 \<le> n \<and> n \<le> 70 then Some (n - 55)
     else if 97 \<le> n \<and> n \<le> 102 then Some (n - 87) else None)"

definition url_encode_char :: "char \<Rightarrow> string" where
  "url_encode_char c =
     (if url_safe c then [c] else if c = CHR '' '' then ''+''
      else (let n = of_char c in [CHR ''%'', hex_digit (n div 16), hex_digit (n mod 16)]))"

definition url_encode :: "string \<Rightarrow> string" where
  "url_encode s = concat (map url_encode_char s)"

definition bad_escape :: jexn where
  "bad_escape = IllegalArgument ''URLDecoder''"

text \<open>Digits after a percent sign are two hexadecimal digits.\<close>

fun url_decode :: "string \<Rightarrow> string jres" where
  "url_decode [] = Inr []"
| "url_decode (c # cs) =
     (if c = CHR ''%'' then
        (case cs of
           h # l # rest \<Rightarrow>
             (case (hex_value h, hex_value l) of
                (Some a, Some b) \<Rightarrow> bindr (url_decode rest) (\<lambda>s. Inr (char_of (16 * a + b) # s))
              | _ \<Rightarrow> Inl bad_escape)
         | _ \<Rightarrow> Inl bad_escape)
      else bindr (url_decode cs) (\<lambda>s. Inr ((if c = CHR ''+'' then CHR '' '' else c) # s)))"

lemma byte_div: "(of_char c :: nat) div 16 < 16"
  by (rule less_mult_imp_div_less) simp

lemma hex_value_digit: "k < 16 \<Longrightarrow> hex_value (hex_digit k) = Some k"
  by (auto simp: hex_digit_def hex_value_def Let_def of_char_of)

lemma char_of_hex: "char_of (16 * (of_char c div 16) + of_char c mod 16) = (c :: char)"
  by (simp add: mult_div_mod_eq)

lemma url_decode_safe: "url_safe c \<Longrightarrow> c \<noteq> CHR ''%'' \<and> c \<noteq> CHR ''+''"
  by (auto simp: url_safe_def Let_def)

lemma url_decode_char: "url_decode (url_encode_char c @ s) = bindr (url_decode s) (\<lambda>t. Inr (c # t))"
proof (cases "url_safe c")
  case True
  then show ?thesis using url_decode_safe [OF True] by (simp add: url_encode_char_def)
next
  case False
  have lt: "(of_char c :: nat) div 16 < 16" by (rule byte_div)
  show ?thesis using False lt
    by (simp add: url_encode_char_def Let_def hex_value_digit char_of_hex)
qed

lemma url_roundtrip: "url_decode (url_encode s) = Inr s"
proof -
  have "url_decode (url_encode (c # s)) = bindr (url_decode (url_encode s)) (\<lambda>t. Inr (c # t))" for c s
    using url_decode_char [of c "url_encode s"] by (simp add: url_encode_def)
  moreover have "url_decode (url_encode []) = Inr []" by (simp add: url_encode_def)
  ultimately show ?thesis by (induction s) simp_all
qed

lemma hex_digit_no_slash: "k < 16 \<Longrightarrow> hex_digit k \<noteq> CHR ''/''"
  by (auto simp: hex_digit_def dest: arg_cong [where f = "of_char :: char \<Rightarrow> nat"])

lemma url_encode_no_slash: "CHR ''/'' \<notin> set (url_encode s)"
proof -
  have "CHR ''/'' \<notin> set (url_encode_char c)" for c
  proof -
    have "(of_char c :: nat) div 16 < 16" "(of_char c :: nat) mod 16 < 16" by (simp_all add: byte_div)
    note h = this [THEN hex_digit_no_slash]
    show ?thesis using h by (auto simp: url_encode_char_def Let_def url_safe_def)
  qed
  then show ?thesis by (simp add: url_encode_def)
qed

subsection \<open>Reading a path back\<close>

text \<open>The text after the last slash, and what stands between a parent and it, as \<open>unCacheSelectorData\<close> takes them apart.\<close>

definition path_leaf :: "string \<Rightarrow> string" where
  "path_leaf p = (case last_index_of (CHR ''/'') p of None \<Rightarrow> p | Some i \<Rightarrow> drop (i + 1) p)"

definition substring_between :: "string \<Rightarrow> int \<Rightarrow> int \<Rightarrow> string jres" where
  "substring_between s b e =
     (if 0 \<le> b \<and> b \<le> e \<and> e \<le> int (length s) then Inr (take (nat (e - b)) (drop (nat b) s)) else Inl IndexOutOfBounds)"

definition path_owner :: "string \<Rightarrow> string \<Rightarrow> string jres" where
  "path_owner parent p =
     bindr (substring_from p (length parent)) (\<lambda>str.
     substring_between str 1 (int (length str) - int (length (path_leaf p)) - 1))"

definition list_item :: "'a list \<Rightarrow> nat \<Rightarrow> 'a jres" where
  "list_item xs i = (if i < length xs then Inr (xs ! i) else Inl IndexOutOfBounds)"

text \<open>The selector of a node: plugin and identifier. The rule of a node: plugin, selector and identifier.\<close>

definition selector_of_path :: "string \<Rightarrow> (string \<times> string) jres" where
  "selector_of_path p = bindr (path_owner SELECTOR_PARENT p) (\<lambda>n. Inr (n, path_leaf p))"

definition rule_of_path :: "string \<Rightarrow> (string \<times> string \<times> string) jres" where
  "rule_of_path p =
     bindr (path_owner RULE_PARENT p) (\<lambda>n.
     let parts = split_on SELECTOR_JOIN_RULE (path_leaf p)
     in bindr (list_item parts 0) (\<lambda>s. bindr (list_item parts 1) (\<lambda>r. Inr (n, s, r))))"

definition key_of_path :: "string \<Rightarrow> string jres" where
  "key_of_path p = substring_from p (length APP_AUTH_PARENT + 1)"

definition meta_of_path :: "string \<Rightarrow> string jres" where
  "meta_of_path p = bindr (substring_from p (length META_DATA_PARENT + 1)) url_decode"

lemma index_of_first: "c \<notin> set xs \<Longrightarrow> index_of c (xs @ c # ys) = Some (length xs)"
  by (induction xs) auto

lemma path_leaf_node [simp]: "CHR ''/'' \<notin> set n \<Longrightarrow> path_leaf (node_path p n) = n"
  using index_of_first [of "CHR ''/''" "rev n" "rev p"]
  by (simp add: path_leaf_def node_path_def last_index_of_def)

lemma path_owner_node:
  "CHR ''/'' \<notin> set leaf \<Longrightarrow> path_owner parent (node_path (node_path parent n) leaf) = Inr n"
  using path_leaf_node [of leaf "node_path parent n"]
  by (simp add: path_owner_def substring_from_def substring_between_def) (simp add: node_path_def)

text \<open>Identifiers without a slash are read back from the path of their node; those of rules must have no hyphen either.\<close>

lemma selector_path_roundtrip:
  "CHR ''/'' \<notin> set i \<Longrightarrow> selector_of_path (buildSelectorRealPath n i) = Inr (n, i)"
  by (simp add: selector_of_path_def buildSelectorRealPath_def path_owner_node)

lemma rule_path_roundtrip:
  assumes "CHR ''/'' \<notin> set s" "CHR ''/'' \<notin> set r" "SELECTOR_JOIN_RULE \<notin> set s" "SELECTOR_JOIN_RULE \<notin> set r"
  shows "rule_of_path (buildRulePath n s r) = Inr (n, s, r)"
proof -
  have "SELECTOR_JOIN_RULE \<noteq> CHR ''/''" by (simp add: SELECTOR_JOIN_RULE_def)
  then have leaf: "CHR ''/'' \<notin> set (s @ SELECTOR_JOIN_RULE # r)" using assms by auto
  have "split_on SELECTOR_JOIN_RULE (s @ SELECTOR_JOIN_RULE # r) = [s, r]"
    using assms by (simp add: split_on_append split_on_atom)
  then show ?thesis using leaf
    by (simp add: rule_of_path_def buildRulePath_def buildRuleParentPath_def path_owner_node list_item_def)
qed

lemma auth_path_roundtrip: "key_of_path (buildAppAuthPath k) = Inr k"
  by (simp add: key_of_path_def buildAppAuthPath_def node_path_def substring_from_def)

lemma meta_path_roundtrip: "meta_of_path (buildMetaDataPath (url_encode p)) = Inr p"
  by (simp add: meta_of_path_def buildMetaDataPath_def node_path_def substring_from_def url_roundtrip)

end
