(* ===== verification/ZooSync.thy ===== *)
theory ZooSync
  imports ZooPaths WebsocketSync
begin

text \<open>
  Synchronisation by ZooKeeper: the admin's \<open>ZookeeperDataChangedListener\<close> and \<open>ZookeeperDataInit\<close>, which keep one node
  per plugin, selector, rule, key and meta data, and the gateway's \<open>ZookeeperSyncDataService\<close>, which reads the nodes and
  listens to them. \<open>ZkClient\<close> with the server behind it is the parameter \<open>zk\<close> over a state \<open>'z\<close>.
\<close>

subsection \<open>The client\<close>

datatype zk_data =
    ZPlugin plugin_data
  | ZSelector selector_data
  | ZRule rule_data
  | ZAuth app_auth_data
  | ZMeta meta_data

text \<open>\<open>createPersistent(path, true)\<close> creates the parents that are missing; the data of a new node, and of no node, is null.\<close>

record 'z zk_client =
  zk_exists :: "string \<Rightarrow> 'z \<Rightarrow> bool"
  zk_createPersistent :: "string \<Rightarrow> 'z \<Rightarrow> 'z"
  zk_writeData :: "string \<Rightarrow> zk_data \<Rightarrow> 'z \<Rightarrow> 'z"
  zk_delete :: "string \<Rightarrow> 'z \<Rightarrow> 'z"
  zk_deleteRecursive :: "string \<Rightarrow> 'z \<Rightarrow> 'z"
  zk_getChildren :: "string \<Rightarrow> 'z \<Rightarrow> string list"
  zk_readData :: "string \<Rightarrow> 'z \<Rightarrow> zk_data option"

definition below :: "string \<Rightarrow> string \<Rightarrow> bool" where
  "below q p \<longleftrightarrow> prefix (q @ ''/'') p"

text \<open>What is documented of them, for a connection that holds.\<close>

definition zk_documented :: "'z zk_client \<Rightarrow> bool" where
  "zk_documented zk \<longleftrightarrow>
     (\<forall>p q z. zk_exists zk p (zk_createPersistent zk q z) = (zk_exists zk p z \<or> p = q \<or> (p \<noteq> [] \<and> below p q)))
   \<and> (\<forall>p q z. zk_readData zk p (zk_createPersistent zk q z) = zk_readData zk p z)
   \<and> (\<forall>p q d z. zk_exists zk q z \<longrightarrow> zk_exists zk p (zk_writeData zk q d z) = zk_exists zk p z)
   \<and> (\<forall>p q d z. zk_exists zk q z \<longrightarrow> zk_readData zk p (zk_writeData zk q d z) = (if p = q then Some d else zk_readData zk p z))
   \<and> (\<forall>p q z. zk_getChildren zk q z = [] \<longrightarrow> zk_exists zk p (zk_delete zk q z) = (zk_exists zk p z \<and> p \<noteq> q))
   \<and> (\<forall>p q z. zk_getChildren zk q z = [] \<longrightarrow> zk_readData zk p (zk_delete zk q z) = (if p = q then None else zk_readData zk p z))
   \<and> (\<forall>p q z. zk_exists zk p (zk_deleteRecursive zk q z) = (zk_exists zk p z \<and> p \<noteq> q \<and> \<not> below q p))
   \<and> (\<forall>p q z. zk_readData zk p (zk_deleteRecursive zk q z) = (if p = q \<or> below q p then None else zk_readData zk p z))
   \<and> (\<forall>n q z. n \<in> set (zk_getChildren zk q z) \<longleftrightarrow> n \<noteq> [] \<and> CHR ''/'' \<notin> set n \<and> zk_exists zk (node_path q n) z)
   \<and> (\<forall>p z. \<not> zk_exists zk p z \<longrightarrow> zk_readData zk p z = None)"

subsection \<open>The admin's listener\<close>

definition ensure :: "'z zk_client \<Rightarrow> string \<Rightarrow> 'z \<Rightarrow> 'z" where
  "ensure zk p z = (if zk_exists zk p z then z else zk_createPersistent zk p z)"

definition create_or_write :: "'z zk_client \<Rightarrow> string \<Rightarrow> zk_data \<Rightarrow> 'z \<Rightarrow> 'z" where
  "create_or_write zk p d z = zk_writeData zk p d (ensure zk p z)"

definition delete_node :: "'z zk_client \<Rightarrow> string \<Rightarrow> 'z \<Rightarrow> 'z" where
  "delete_node zk p z = (if zk_exists zk p z then zk_delete zk p z else z)"

definition delete_tree :: "'z zk_client \<Rightarrow> string \<Rightarrow> 'z \<Rightarrow> 'z" where
  "delete_tree zk p z = (if zk_exists zk p z then zk_deleteRecursive zk p z else z)"

definition zk_onAppAuthChanged :: "'z zk_client \<Rightarrow> data_event_type \<Rightarrow> app_auth_data list \<Rightarrow> 'z updates" where
  "zk_onAppAuthChanged zk ty = each (\<lambda>d z.
     let appAuthPath = buildAppAuthPath (aa_appKey d)
     in (if ty = EV_DELETE then delete_node zk appAuthPath z else create_or_write zk appAuthPath (ZAuth d) z, None))"

definition zk_onMetaDataChanged :: "'z zk_client \<Rightarrow> data_event_type \<Rightarrow> meta_data option list \<Rightarrow> 'z updates" where
  "zk_onMetaDataChanged zk ty = each (nullable (\<lambda>d z.
     let metaDataPath = buildMetaDataPath (url_encode (md_path d))
     in (if ty = EV_DELETE then delete_node zk metaDataPath z else create_or_write zk metaDataPath (ZMeta d) z, None)))"

definition zk_onPluginChanged :: "'z zk_client \<Rightarrow> data_event_type \<Rightarrow> plugin_data list \<Rightarrow> 'z updates" where
  "zk_onPluginChanged zk ty = each (\<lambda>d z.
     (if ty = EV_DELETE then
        delete_tree zk (buildRuleParentPath (pd_name d))
          (delete_tree zk (buildSelectorParentPath (pd_name d)) (delete_tree zk (buildPluginPath (pd_name d)) z))
      else create_or_write zk (buildPluginPath (pd_name d)) (ZPlugin d) z, None))"

text \<open>A refresh begins by clearing the plugin of the first row: an empty list has no first row.\<close>

definition clear_first :: "'z zk_client \<Rightarrow> (string \<Rightarrow> string) \<Rightarrow> ('d \<Rightarrow> string) \<Rightarrow> data_event_type \<Rightarrow> 'd option list \<Rightarrow> 'z updates" where
  "clear_first zk parentPath plugin ty changed z =
     (if ty = EV_REFRESH then
        (case changed of
           [] \<Rightarrow> (z, Some IndexOutOfBounds)
         | d # _ \<Rightarrow> nullable (\<lambda>d z. (delete_tree zk (parentPath (plugin d)) z, None)) d z)
      else (z, None))"

definition createSelector :: "'z zk_client \<Rightarrow> selector_data \<Rightarrow> 'z \<Rightarrow> 'z" where
  "createSelector zk d z =
     create_or_write zk (buildSelectorRealPath (sd_pluginName d) (sd_id d)) (ZSelector d)
       (ensure zk (buildSelectorParentPath (sd_pluginName d)) z)"

definition zk_deleteSelector :: "'z zk_client \<Rightarrow> selector_data \<Rightarrow> 'z \<Rightarrow> 'z" where
  "zk_deleteSelector zk d z = delete_node zk (buildSelectorRealPath (sd_pluginName d) (sd_id d)) z"

definition zk_onSelectorChanged :: "'z zk_client \<Rightarrow> data_event_type \<Rightarrow> selector_data option list \<Rightarrow> 'z updates" where
  "zk_onSelectorChanged zk ty changed = and_then (clear_first zk buildSelectorParentPath sd_pluginName ty changed)
     (each (nullable (\<lambda>d z. (if ty = EV_DELETE then zk_deleteSelector zk d z else createSelector zk d z, None))) changed)"

definition zk_onRuleChanged :: "'z zk_client \<Rightarrow> data_event_type \<Rightarrow> rule_data option list \<Rightarrow> 'z updates" where
  "zk_onRuleChanged zk ty changed = and_then (clear_first zk buildRuleParentPath rd_pluginName ty changed)
     (each (nullable (\<lambda>d z.
        let rulePath = buildRulePath (rd_pluginName d) (rd_selectorId d) (rd_id d)
        in (if ty = EV_DELETE then delete_node zk rulePath z
            else create_or_write zk rulePath (ZRule d) (ensure zk (buildRuleParentPath (rd_pluginName d)) z), None))) changed)"

fun zk_listener :: "'z zk_client \<Rightarrow> data_event \<Rightarrow> 'z updates" where
  "zk_listener zk (DataChangedEvent ty (PluginRows ds)) = zk_onPluginChanged zk ty ds"
| "zk_listener zk (DataChangedEvent ty (SelectorRows ds)) = zk_onSelectorChanged zk ty ds"
| "zk_listener zk (DataChangedEvent ty (RuleRows ds)) = zk_onRuleChanged zk ty ds"
| "zk_listener zk (DataChangedEvent ty (AuthRows ds)) = zk_onAppAuthChanged zk ty ds"
| "zk_listener zk (DataChangedEvent ty (MetaRows ds)) = zk_onMetaDataChanged zk ty ds"

text \<open>\<open>ZookeeperDataInit.run\<close>: whether everything is published when the admin starts.\<close>

definition zk_init_publishes :: "'z zk_client \<Rightarrow> 'z \<Rightarrow> bool" where
  "zk_init_publishes zk z \<longleftrightarrow>
     \<not> zk_exists zk PLUGIN_PARENT z \<and> \<not> zk_exists zk APP_AUTH_PARENT z \<and> \<not> zk_exists zk META_DATA_PARENT z"

subsection \<open>The gateway's service\<close>

text \<open>
  What the service has registered with the client. A data listener knows the kind of its node, and one of a plugin its
  name. A child listener keeps the children there were when it was made.
\<close>

datatype zk_data_listener =
    PluginNode (dl_path: string) string
  | SelectorNode (dl_path: string)
  | RuleNode (dl_path: string)
  | AuthNode (dl_path: string)
  | MetaNode (dl_path: string)

datatype zk_child_listener =
    PluginNames
  | SelectorIds string "string list"
  | RuleIds string "string list"
  | AuthKeys "string list"
  | MetaPaths "string list"

fun cl_path :: "zk_child_listener \<Rightarrow> string" where
  "cl_path PluginNames = PLUGIN_PARENT"
| "cl_path (SelectorIds p _) = p"
| "cl_path (RuleIds p _) = p"
| "cl_path (AuthKeys _) = APP_AUTH_PARENT"
| "cl_path (MetaPaths _) = META_DATA_PARENT"

record ('z, 'h) zk_link =
  zl_tree :: 'z
  zl_gateway :: "'h gateway"
  zl_data :: "zk_data_listener list"
  zl_children :: "zk_child_listener list"

definition on_gateway :: "'h gateway updates \<Rightarrow> ('z, 'h) zk_link updates" where
  "on_gateway f s = (case f (zl_gateway s) of (g, e) \<Rightarrow> (s\<lparr>zl_gateway := g\<rparr>, e))"

definition on_tree :: "('z \<Rightarrow> 'z) \<Rightarrow> ('z, 'h) zk_link updates" where
  "on_tree f s = (s\<lparr>zl_tree := f (zl_tree s)\<rparr>, None)"

definition subscribeDataChanges :: "zk_data_listener \<Rightarrow> ('z, 'h) zk_link updates" where
  "subscribeDataChanges l s = (s\<lparr>zl_data := zl_data s @ [l]\<rparr>, None)"

definition subscribeChildChanges :: "zk_child_listener \<Rightarrow> ('z, 'h) zk_link updates" where
  "subscribeChildChanges l s = (s\<lparr>zl_children := zl_children s @ [l]\<rparr>, None)"

text \<open>The data of a node is cast to what the listener expects; null is passed over.\<close>

definition class_cast :: jexn where
  "class_cast = RuntimeExn ''ClassCastException''"

definition cachePlugin :: "'h handlers \<Rightarrow> zk_data option \<Rightarrow> 'h gateway updates" where
  "cachePlugin hm v = (case v of None \<Rightarrow> (\<lambda>g. (g, None)) | Some (ZPlugin d) \<Rightarrow> on_sub (onSubscribe hm d)
     | Some _ \<Rightarrow> (\<lambda>g. (g, Some class_cast)))"

definition cacheSelectorData :: "'h handlers \<Rightarrow> zk_data option \<Rightarrow> 'h gateway updates" where
  "cacheSelectorData hm v = (case v of None \<Rightarrow> (\<lambda>g. (g, None)) | Some (ZSelector d) \<Rightarrow> on_sub (onSelectorSubscribe hm d)
     | Some _ \<Rightarrow> (\<lambda>g. (g, Some class_cast)))"

definition zk_cacheRuleData :: "'h handlers \<Rightarrow> zk_data option \<Rightarrow> 'h gateway updates" where
  "zk_cacheRuleData hm v = (case v of None \<Rightarrow> (\<lambda>g. (g, None)) | Some (ZRule d) \<Rightarrow> on_sub (onRuleSubscribe hm d)
     | Some _ \<Rightarrow> (\<lambda>g. (g, Some class_cast)))"

definition zk_cacheAuthData :: "zk_data option \<Rightarrow> 'h gateway updates" where
  "zk_cacheAuthData v = (case v of None \<Rightarrow> (\<lambda>g. (g, None)) | Some (ZAuth d) \<Rightarrow> auth_sub auth_onSubscribe d
     | Some _ \<Rightarrow> (\<lambda>g. (g, Some class_cast)))"

definition cacheMetaData :: "zk_data option \<Rightarrow> 'h gateway updates" where
  "cacheMetaData v = (case v of None \<Rightarrow> (\<lambda>g. (g, None)) | Some (ZMeta d) \<Rightarrow> meta_sub meta_onSubscribe d
     | Some _ \<Rightarrow> (\<lambda>g. (g, Some class_cast)))"

text \<open>
  When a node is gone, a new object with what its path tells is unsubscribed. The object's other fields are null; here
  they are empty.
\<close>

definition plugin_named :: "string \<Rightarrow> plugin_data" where
  "plugin_named n = \<lparr>pd_id = [], pd_name = n, pd_config = None, pd_role = 0, pd_enabled = False\<rparr>"

definition selector_named :: "string \<Rightarrow> string \<Rightarrow> selector_data" where
  "selector_named n i = \<lparr>sd_id = i, sd_pluginId = [], sd_pluginName = n, sd_name = [], sd_matchMode = 0, sd_type = 0, sd_sort = 0,
     sd_enabled = False, sd_loged = False, sd_continued = False, sd_handle = None, sd_conditionList = None\<rparr>"

definition rule_named :: "string \<Rightarrow> string \<Rightarrow> string \<Rightarrow> rule_data" where
  "rule_named n s i = \<lparr>rd_id = i, rd_name = [], rd_pluginName = n, rd_selectorId = s, rd_matchMode = 0, rd_sort = 0,
     rd_enabled = False, rd_loged = False, rd_handle = None, rd_conditionDataList = None\<rparr>"

definition auth_named :: "string \<Rightarrow> app_auth_data" where
  "auth_named k = \<lparr>aa_appKey = k, aa_appSecret = [], aa_enabled = False, aa_paramDataList = None, aa_pathDataList = None\<rparr>"

definition meta_named :: "string \<Rightarrow> meta_data" where
  "meta_named p = \<lparr>md_id = None, md_appName = [], md_contextPath = None, md_path = p, md_rpcType = [], md_serviceName = None,
     md_methodName = None, md_parameterTypes = None, md_rpcExt = None, md_enabled = False\<rparr>"

definition gone :: "'a jres \<Rightarrow> ('a \<Rightarrow> 'h gateway updates) \<Rightarrow> 'h gateway updates" where
  "gone r f g = (case r of Inl e \<Rightarrow> (g, Some e) | Inr x \<Rightarrow> f x g)"

text \<open>\<open>handleDataChange\<close> (\<open>Some v\<close>, with the data the node has) and \<open>handleDataDeleted\<close> (\<open>None\<close>).\<close>

fun handle_data :: "'h handlers \<Rightarrow> zk_data_listener \<Rightarrow> zk_data option option \<Rightarrow> 'h gateway updates" where
  "handle_data hm (PluginNode p n) (Some v) = cachePlugin hm v"
| "handle_data hm (PluginNode p n) None = on_sub (unSubscribe hm (plugin_named n))"
| "handle_data hm (SelectorNode p) (Some v) = cacheSelectorData hm v"
| "handle_data hm (SelectorNode p) None = gone (selector_of_path p) (\<lambda>(n, i). on_sub (unSelectorSubscribe hm (selector_named n i)))"
| "handle_data hm (RuleNode p) (Some v) = zk_cacheRuleData hm v"
| "handle_data hm (RuleNode p) None = gone (rule_of_path p) (\<lambda>(n, s, i). on_sub (unRuleSubscribe hm (rule_named n s i)))"
| "handle_data hm (AuthNode p) (Some v) = zk_cacheAuthData v"
| "handle_data hm (AuthNode p) None = gone (key_of_path p) (\<lambda>k. auth_sub auth_unSubscribe (auth_named k))"
| "handle_data hm (MetaNode p) (Some v) = cacheMetaData v"
| "handle_data hm (MetaNode p) None = gone (meta_of_path p) (\<lambda>m. meta_sub meta_unSubscribe (meta_named m))"

text \<open>Reading the node of a listener and registering it: the loop body of every \<open>watch\<close> method.\<close>

definition read_and_subscribe :: "'h handlers \<Rightarrow> 'z zk_client \<Rightarrow> zk_data_listener \<Rightarrow> ('z, 'h) zk_link updates" where
  "read_and_subscribe hm zk l =
     and_then (\<lambda>s. on_gateway (handle_data hm l (Some (zk_readData zk (dl_path l) (zl_tree s)))) s) (subscribeDataChanges l)"

definition watch_children ::
  "'h handlers \<Rightarrow> 'z zk_client \<Rightarrow> string \<Rightarrow> (string \<Rightarrow> zk_data_listener) \<Rightarrow> (string list \<Rightarrow> zk_child_listener) \<Rightarrow> ('z, 'h) zk_link updates" where
  "watch_children hm zk parent node listener =
     and_then (on_tree (ensure zk parent))
       (\<lambda>s. let childrenList = zk_getChildren zk parent (zl_tree s)
            in and_then (each (\<lambda>child. read_and_subscribe hm zk (node (node_path parent child))) childrenList)
                 (subscribeChildChanges (listener childrenList)) s)"

definition watcherPlugin :: "'h handlers \<Rightarrow> 'z zk_client \<Rightarrow> string \<Rightarrow> ('z, 'h) zk_link updates" where
  "watcherPlugin hm zk pluginName =
     (let pluginPath = buildPluginPath pluginName
      in and_then (on_tree (ensure zk pluginPath)) (read_and_subscribe hm zk (PluginNode pluginPath pluginName)))"

definition watcherSelector :: "'h handlers \<Rightarrow> 'z zk_client \<Rightarrow> string \<Rightarrow> ('z, 'h) zk_link updates" where
  "watcherSelector hm zk pluginName =
     (let selectorParentPath = buildSelectorParentPath pluginName
      in watch_children hm zk selectorParentPath SelectorNode (SelectorIds selectorParentPath))"

definition watcherRule :: "'h handlers \<Rightarrow> 'z zk_client \<Rightarrow> string \<Rightarrow> ('z, 'h) zk_link updates" where
  "watcherRule hm zk pluginName =
     (let ruleParent = buildRuleParentPath pluginName in watch_children hm zk ruleParent RuleNode (RuleIds ruleParent))"

definition watcherAll :: "'h handlers \<Rightarrow> 'z zk_client \<Rightarrow> string \<Rightarrow> ('z, 'h) zk_link updates" where
  "watcherAll hm zk pluginName =
     and_then (watcherPlugin hm zk pluginName) (and_then (watcherSelector hm zk pluginName) (watcherRule hm zk pluginName))"

definition watcherData :: "'h handlers \<Rightarrow> 'z zk_client \<Rightarrow> ('z, 'h) zk_link updates" where
  "watcherData hm zk =
     and_then (on_tree (ensure zk PLUGIN_PARENT))
       (and_then (\<lambda>s. each (watcherAll hm zk) (zk_getChildren zk PLUGIN_PARENT (zl_tree s)) s) (subscribeChildChanges PluginNames))"

definition watchAppAuth :: "'h handlers \<Rightarrow> 'z zk_client \<Rightarrow> ('z, 'h) zk_link updates" where
  "watchAppAuth hm zk = watch_children hm zk APP_AUTH_PARENT AuthNode AuthKeys"

definition watchMetaData :: "'h handlers \<Rightarrow> 'z zk_client \<Rightarrow> ('z, 'h) zk_link updates" where
  "watchMetaData hm zk = watch_children hm zk META_DATA_PARENT MetaNode MetaPaths"

text \<open>The constructor.\<close>

definition zk_start :: "'h handlers \<Rightarrow> 'z zk_client \<Rightarrow> ('z, 'h) zk_link updates" where
  "zk_start hm zk = and_then (watcherData hm zk) (and_then (watchAppAuth hm zk) (watchMetaData hm zk))"

definition zk_addSubscribePath :: "string list \<Rightarrow> string list \<Rightarrow> string list" where
  "zk_addSubscribePath alreadyChildren currentChildren =
     (if alreadyChildren = [] then currentChildren else filter (\<lambda>c. c \<notin> set alreadyChildren) currentChildren)"

definition new_children ::
  "'h handlers \<Rightarrow> 'z zk_client \<Rightarrow> string \<Rightarrow> (string \<Rightarrow> zk_data_listener) \<Rightarrow> string list \<Rightarrow> string list \<Rightarrow> ('z, 'h) zk_link updates" where
  "new_children hm zk parent node childrenList currentChildren =
     each (\<lambda>child. read_and_subscribe hm zk (node (node_path parent child))) (zk_addSubscribePath childrenList currentChildren)"

text \<open>\<open>handleChildChange\<close>; without children there is nothing to do, as with a parent that is gone.\<close>

fun handle_children :: "'h handlers \<Rightarrow> 'z zk_client \<Rightarrow> zk_child_listener \<Rightarrow> string list \<Rightarrow> ('z, 'h) zk_link updates" where
  "handle_children hm zk PluginNames current = each (watcherAll hm zk) current"
| "handle_children hm zk (SelectorIds parent cs) current = new_children hm zk parent SelectorNode cs current"
| "handle_children hm zk (RuleIds parent cs) current = new_children hm zk parent RuleNode cs current"
| "handle_children hm zk (AuthKeys cs) current = new_children hm zk APP_AUTH_PARENT AuthNode cs current"
| "handle_children hm zk (MetaPaths cs) current = new_children hm zk META_DATA_PARENT MetaNode cs current"

subsection \<open>The client's calls\<close>

text \<open>
  How \<open>ZkClient\<close> calls the listeners of a path: it reads the node, or its children, then; a listener that throws does
  not keep it from calling the next.
\<close>

definition quietly_run :: "'s updates \<Rightarrow> 's \<Rightarrow> 's" where
  "quietly_run f s = fst (f s)"

definition zk_data_event :: "'h handlers \<Rightarrow> 'z zk_client \<Rightarrow> string \<Rightarrow> ('z, 'h) zk_link \<Rightarrow> ('z, 'h) zk_link" where
  "zk_data_event hm zk p s =
     fold (\<lambda>l. quietly_run (\<lambda>s. on_gateway (handle_data hm l
         (if zk_exists zk p (zl_tree s) then Some (zk_readData zk p (zl_tree s)) else None)) s))
       (filter (\<lambda>l. dl_path l = p) (zl_data s)) s"

definition zk_child_event :: "'h handlers \<Rightarrow> 'z zk_client \<Rightarrow> string \<Rightarrow> ('z, 'h) zk_link \<Rightarrow> ('z, 'h) zk_link" where
  "zk_child_event hm zk q s =
     fold (\<lambda>l. quietly_run (\<lambda>s. handle_children hm zk l (zk_getChildren zk q (zl_tree s)) s))
       (filter (\<lambda>l. cl_path l = q) (zl_children s)) s"

datatype zk_notification = DataEvent string | ChildEvent string

fun notify :: "'h handlers \<Rightarrow> 'z zk_client \<Rightarrow> zk_notification \<Rightarrow> ('z, 'h) zk_link \<Rightarrow> ('z, 'h) zk_link" where
  "notify hm zk (DataEvent p) s = zk_data_event hm zk p s"
| "notify hm zk (ChildEvent q) s = zk_child_event hm zk q s"

end
