(* ===== verification/ZooCalls.thy ===== *)
theory ZooCalls
  imports ZooSync GatewayLink
begin

text \<open>
  What each call of the gateway's ZooKeeper service does to the caches and the listeners, under a tree whose nodes are
  those the admin writes: no call loses a listener or makes a right entry wrong, and the entry of a node that is read is
  right afterwards.
\<close>

subsection \<open>Keys\<close>

text \<open>What a node is about. A rule's selector decides its plugin, \<open>owner\<close>.\<close>

datatype zk_key = KPlugin string | KSelector string string | KRule string string string | KAuth string | KMeta string

fun listener_of :: "zk_key \<Rightarrow> zk_data_listener" where
  "listener_of (KPlugin n) = PluginNode (buildPluginPath n) n"
| "listener_of (KSelector n i) = SelectorNode (buildSelectorRealPath n i)"
| "listener_of (KRule n s i) = RuleNode (buildRulePath n s i)"
| "listener_of (KAuth k) = AuthNode (buildAppAuthPath k)"
| "listener_of (KMeta p) = MetaNode (buildMetaDataPath (url_encode p))"

definition path_of :: "zk_key \<Rightarrow> string" where
  "path_of k = dl_path (listener_of k)"

fun key_of_data :: "zk_data \<Rightarrow> zk_key" where
  "key_of_data (ZPlugin d) = KPlugin (pd_name d)"
| "key_of_data (ZSelector d) = KSelector (sd_pluginName d) (sd_id d)"
| "key_of_data (ZRule d) = KRule (rd_pluginName d) (rd_selectorId d) (rd_id d)"
| "key_of_data (ZAuth d) = KAuth (aa_appKey d)"
| "key_of_data (ZMeta d) = KMeta (md_path d)"

definition name_ok :: "string \<Rightarrow> bool" where
  "name_ok n \<longleftrightarrow> n \<noteq> [] \<and> CHR ''/'' \<notin> set n"

fun proper :: "(string \<Rightarrow> string) \<Rightarrow> zk_key \<Rightarrow> bool" where
  "proper owner (KPlugin n) = name_ok n"
| "proper owner (KSelector n i) = (name_ok n \<and> name_ok i)"
| "proper owner (KRule n s i) = (n = owner s \<and> name_ok n \<and> CHR ''/'' \<notin> set s \<and> CHR ''/'' \<notin> set i
     \<and> SELECTOR_JOIN_RULE \<notin> set s \<and> SELECTOR_JOIN_RULE \<notin> set i)"
| "proper owner (KAuth k) = name_ok k"
| "proper owner (KMeta p) = (p \<noteq> [])"

text \<open>The parents the gateway watches.\<close>

definition watched :: "string set" where
  "watched = {PLUGIN_PARENT, APP_AUTH_PARENT, META_DATA_PARENT}
     \<union> {buildSelectorParentPath n |n. name_ok n} \<union> {buildRuleParentPath n |n. name_ok n}"

lemmas path_defs = buildPluginPath_def buildSelectorParentPath_def buildSelectorRealPath_def buildRuleParentPath_def buildRulePath_def
  buildAppAuthPath_def buildMetaDataPath_def node_path_def PLUGIN_PARENT_def SELECTOR_PARENT_def RULE_PARENT_def
  APP_AUTH_PARENT_def META_DATA_PARENT_def

lemma split_first: "c \<notin> set a \<Longrightarrow> c \<notin> set b \<Longrightarrow> a @ c # x = b @ c # y \<Longrightarrow> a = b \<and> x = y"
  by (induction a arbitrary: b) (case_tac b; auto)+

lemma split_last:
  assumes "c \<notin> set x" "c \<notin> set y" "a @ c # x = b @ c # y"
  shows "a = b \<and> x = y"
proof -
  have "rev x @ c # rev a = rev y @ c # rev b" using arg_cong [OF assms(3), of rev] by simp
  then have "rev x = rev y \<and> rev a = rev b" using assms(1,2) by (intro split_first [of c]) auto
  then show ?thesis by simp
qed

lemma node_path_inj:
  assumes "CHR ''/'' \<notin> set x" "CHR ''/'' \<notin> set y"
  shows "node_path a x = node_path b y \<longleftrightarrow> a = b \<and> x = y"
proof
  assume "node_path a x = node_path b y"
  then have "a @ CHR ''/'' # x = b @ CHR ''/'' # y" unfolding node_path_def by simp
  from split_last [OF assms this] show "a = b \<and> x = y" .
qed simp

lemma url_encode_inj: "url_encode p = url_encode q \<Longrightarrow> p = q"
  by (metis url_roundtrip sum.inject(2))

text \<open>Every path of a node is a watched parent's with one more segment.\<close>

fun key_parent :: "zk_key \<Rightarrow> string" where
  "key_parent (KPlugin n) = PLUGIN_PARENT"
| "key_parent (KSelector n i) = buildSelectorParentPath n"
| "key_parent (KRule n s i) = buildRuleParentPath n"
| "key_parent (KAuth k) = APP_AUTH_PARENT"
| "key_parent (KMeta p) = META_DATA_PARENT"

fun key_leaf :: "zk_key \<Rightarrow> string" where
  "key_leaf (KPlugin n) = n"
| "key_leaf (KSelector n i) = i"
| "key_leaf (KRule n s i) = s @ SELECTOR_JOIN_RULE # i"
| "key_leaf (KAuth k) = k"
| "key_leaf (KMeta p) = url_encode p"

lemma path_of_node: "path_of k = node_path (key_parent k) (key_leaf k)"
  by (cases k) (simp_all add: path_of_def path_defs)

lemma url_encode_nonempty: "p \<noteq> [] \<Longrightarrow> url_encode p \<noteq> []"
  by (cases p) (simp_all add: url_encode_def url_encode_char_def Let_def)

lemma key_leaf_ok: "proper owner k \<Longrightarrow> name_ok (key_leaf k)"
  by (cases k) (auto simp: name_ok_def SELECTOR_JOIN_RULE_def url_encode_no_slash url_encode_nonempty)

lemma key_parent_watched: "proper owner k \<Longrightarrow> key_parent k \<in> watched"
  by (cases k) (auto simp: watched_def)

lemma parents_distinct:
  "PLUGIN_PARENT \<noteq> APP_AUTH_PARENT" "PLUGIN_PARENT \<noteq> META_DATA_PARENT" "APP_AUTH_PARENT \<noteq> META_DATA_PARENT"
  "PLUGIN_PARENT \<noteq> buildSelectorParentPath n" "PLUGIN_PARENT \<noteq> buildRuleParentPath n"
  "APP_AUTH_PARENT \<noteq> buildSelectorParentPath n" "APP_AUTH_PARENT \<noteq> buildRuleParentPath n"
  "META_DATA_PARENT \<noteq> buildSelectorParentPath n" "META_DATA_PARENT \<noteq> buildRuleParentPath n"
  "buildSelectorParentPath n \<noteq> buildRuleParentPath m"
  "buildSelectorParentPath n = buildSelectorParentPath m \<longleftrightarrow> n = m"
  "buildRuleParentPath n = buildRuleParentPath m \<longleftrightarrow> n = m"
  by (auto simp: path_defs)

lemma path_of_inj:
  assumes "proper owner k" "proper owner k'" "path_of k = path_of k'"
  shows "k = k'"
proof -
  have "CHR ''/'' \<notin> set (key_leaf k)" "CHR ''/'' \<notin> set (key_leaf k')"
    using assms(1,2) [THEN key_leaf_ok] by (simp_all add: name_ok_def)
  then have same: "key_parent k = key_parent k'" "key_leaf k = key_leaf k'"
    using assms(3) unfolding path_of_node by (simp_all add: node_path_inj)
  note d = parents_distinct parents_distinct [symmetric]
  show ?thesis
  proof (cases k)
    case (KRule n s i)
    then obtain s' i' where k': "k' = KRule n s' i'" using same(1) d by (cases k') auto
    show ?thesis using same(2) assms(1,2) split_first [of SELECTOR_JOIN_RULE s s' i i'] unfolding KRule k' by auto
  qed (use same d in \<open>cases k'; auto dest: url_encode_inj\<close>)+
qed

lemma listener_of_inj: "proper owner k \<Longrightarrow> proper owner k' \<Longrightarrow> listener_of k = listener_of k' \<Longrightarrow> k = k'"
  using path_of_inj [of owner k k'] by (simp add: path_of_def)

text \<open>Creating a watched parent creates no node of a key.\<close>

lemma watched_split:
  assumes "e \<in> watched"
  obtains base leaf where "e = node_path base leaf" "base \<notin> watched" "CHR ''/'' \<notin> set leaf" "count_list e (CHR ''/'') \<le> 3"
proof -
  have base: "''/soul'' \<notin> watched" "''/soul/selector'' \<notin> watched" "''/soul/rule'' \<notin> watched"
    by (auto simp: watched_def path_defs)
  have c: "count_list n (CHR ''/'') = 0" if "name_ok n" for n using that by (simp add: name_ok_def count_list_0_iff)
  consider "e = PLUGIN_PARENT" | "e = APP_AUTH_PARENT" | "e = META_DATA_PARENT"
    | n where "e = buildSelectorParentPath n" "name_ok n" | n where "e = buildRuleParentPath n" "name_ok n"
    using assms unfolding watched_def by blast
  then show ?thesis
  proof cases
    case 1
    then show ?thesis using base that [of "''/soul''" "''plugin''"] by (simp add: path_defs)
  next
    case 2
    then show ?thesis using base that [of "''/soul''" "''auth''"] by (simp add: path_defs)
  next
    case 3
    then show ?thesis using base that [of "''/soul''" "''metaData''"] by (simp add: path_defs)
  next
    case 4
    then show ?thesis using base c that [of "''/soul/selector''" n] by (simp add: path_defs name_ok_def)
  next
    case 5
    then show ?thesis using base c that [of "''/soul/rule''" n] by (simp add: path_defs name_ok_def)
  qed
qed

lemma watched_slashes: "q \<in> watched \<Longrightarrow> 2 \<le> count_list q (CHR ''/'')"
  by (auto simp: watched_def path_defs)

lemma watched_apart:
  assumes "q \<in> watched" "e \<in> watched" "CHR ''/'' \<notin> set c"
  shows "node_path q c \<noteq> e" "\<not> below (node_path q c) e"
proof -
  obtain base leaf where e: "e = node_path base leaf" "base \<notin> watched" "CHR ''/'' \<notin> set leaf" "count_list e (CHR ''/'') \<le> 3"
    using watched_split [OF assms(2)] .
  show "node_path q c \<noteq> e" using e(2,3) assms(1,3) unfolding e(1) by (auto simp: node_path_inj)
  show "\<not> below (node_path q c) e"
  proof
    assume "below (node_path q c) e"
    then obtain r where "e = (node_path q c @ ''/'') @ r" unfolding below_def prefix_def by blast
    then have "4 \<le> count_list e (CHR ''/'')" using watched_slashes [OF assms(1)] by (simp add: node_path_def)
    then show False using e(4) by simp
  qed
qed

subsection \<open>What the caches hold of a key\<close>

fun held :: "'h gateway \<Rightarrow> zk_key \<Rightarrow> zk_data set" where
  "held g (KPlugin n) = ZPlugin ` set_option (obtainPluginData (ss_cache (gw_sub g)) n)"
| "held g (KSelector n i) = ZSelector ` {d \<in> set (slc.members (ss_cache (gw_sub g)) n). sd_id d = i}"
| "held g (KRule n s i) = ZRule ` {d \<in> set (rlc.members (ss_cache (gw_sub g)) s). rd_id d = i}"
| "held g (KAuth k) = ZAuth ` set_option (gw_auths g k)"
| "held g (KMeta p) = ZMeta ` set_option (gw_metas g p)"

lemma member_frames:
  "slc.members (cachePluginData p c) n = slc.members c n" "slc.members (removePluginData p c) n = slc.members c n"
  "slc.members (cacheRuleData r c) n = slc.members c n" "slc.members (removeRuleData r c) n = slc.members c n"
  "rlc.members (cachePluginData p c) n = rlc.members c n" "rlc.members (removePluginData p c) n = rlc.members c n"
  "rlc.members (cacheSelectData d c) n = rlc.members c n" "rlc.members (removeSelectData d c) n = rlc.members c n"
  by (simp_all add: slc.members_def rlc.members_def obtainSelectorData_def obtainRuleData_def cache_frames)

lemma on_sub_parts: "fst (on_sub f g) = g\<lparr>gw_sub := fst (f (gw_sub g))\<rparr>" "snd (on_sub f g) = snd (f (gw_sub g))"
  by (simp_all add: on_sub_def split: prod.splits)

lemmas held_simps = on_sub_parts subscriber_cache member_frames plugin_frames plc.get_put plc.get_del slc.members_add slc.members_del
  rlc.members_add rlc.members_del set_replace_sorted auth_sub_def meta_sub_def auth_onSubscribe_def auth_unSubscribe_def
  cacheAuthData_def removeAuthData_def meta_onSubscribe_def meta_unSubscribe_def meta_cache_def meta_remove_def remove_key_def

text \<open>A listener whose node has data, or is gone, makes the caches right about its key and leaves the others alone.\<close>

lemma data_written:
  assumes q: "quiet hm" and k: "proper owner k" and d: "key_of_data d = k"
  shows "snd (handle_data hm (listener_of k) (Some (Some d)) g) = None"
    "held (fst (handle_data hm (listener_of k) (Some (Some d)) g)) k = {d}"
    "proper owner k' \<Longrightarrow> k' \<noteq> k \<Longrightarrow> held (fst (handle_data hm (listener_of k) (Some (Some d)) g)) k' = held g k'"
proof -
  note c = cachePlugin_def cacheSelectorData_def zk_cacheRuleData_def zk_cacheAuthData_def cacheMetaData_def
  show "snd (handle_data hm (listener_of k) (Some (Some d)) g) = None"
    using d by (cases d) (auto simp: c held_simps subscriber_quiet [OF q])
  show "held (fst (handle_data hm (listener_of k) (Some (Some d)) g)) k = {d}"
    using d by (cases d) (auto simp: c held_simps)
  show "held (fst (handle_data hm (listener_of k) (Some (Some d)) g)) k' = held g k'" if "proper owner k'" "k' \<noteq> k"
    using that d k by (cases d; cases k') (auto simp: c held_simps split: if_splits)
qed

lemma gone_simps [simp]: "gone (Inr x) f = f x" "gone (Inl e) f = (\<lambda>g. (g, Some e))"
  by (simp_all add: gone_def fun_eq_iff)

lemma paths_read:
  assumes "proper owner k"
  shows "k = KSelector n i \<Longrightarrow> selector_of_path (dl_path (listener_of k)) = Inr (n, i)"
    "k = KRule n s i \<Longrightarrow> rule_of_path (dl_path (listener_of k)) = Inr (n, s, i)"
    "k = KAuth n \<Longrightarrow> key_of_path (dl_path (listener_of k)) = Inr n"
    "k = KMeta n \<Longrightarrow> meta_of_path (dl_path (listener_of k)) = Inr n"
  using assms by (auto simp: selector_path_roundtrip rule_path_roundtrip auth_path_roundtrip meta_path_roundtrip name_ok_def)

lemma data_gone:
  assumes q: "quiet hm" and k: "proper owner k"
  shows "snd (handle_data hm (listener_of k) None g) = None"
    "held (fst (handle_data hm (listener_of k) None g)) k = {}"
    "proper owner k' \<Longrightarrow> k' \<noteq> k \<Longrightarrow> held (fst (handle_data hm (listener_of k) None g)) k' = held g k'"
proof -
  note p = paths_read [OF k]
  note named = plugin_named_def selector_named_def rule_named_def auth_named_def meta_named_def
  show "snd (handle_data hm (listener_of k) None g) = None"
    using p by (cases k) (auto simp: held_simps subscriber_quiet [OF q])
  show "held (fst (handle_data hm (listener_of k) None g)) k = {}"
    using p by (cases k) (auto simp: held_simps named)
  show "held (fst (handle_data hm (listener_of k) None g)) k' = held g k'" if "proper owner k'" "k' \<noteq> k"
    using that k p by (cases k; cases k') (auto simp: held_simps named split: if_splits)
qed

lemma data_blank: "handle_data hm (listener_of k) (Some None) g = (g, None)"
  by (cases k) (simp_all add: cachePlugin_def cacheSelectorData_def zk_cacheRuleData_def zk_cacheAuthData_def cacheMetaData_def)

subsection \<open>The tree\<close>

text \<open>What listeners are told of a node: nothing there, or its data.\<close>

definition node_value :: "'z zk_client \<Rightarrow> string \<Rightarrow> 'z \<Rightarrow> zk_data option option" where
  "node_value zk p z = (if zk_exists zk p z then Some (zk_readData zk p z) else None)"

text \<open>
  Every node is filed under its data's path and below its parent, has no children of its own, and the children of the
  rules' and the meta data's parents are named as the admin names them.
\<close>

definition tree_ok :: "'z zk_client \<Rightarrow> (string \<Rightarrow> string) \<Rightarrow> 'z \<Rightarrow> bool" where
  "tree_ok zk owner z \<longleftrightarrow>
     (\<forall>p d. zk_readData zk p z = Some d \<longrightarrow> proper owner (key_of_data d) \<and> p = path_of (key_of_data d))
   \<and> (\<forall>k. proper owner k \<and> zk_exists zk (path_of k) z \<longrightarrow> zk_exists zk (key_parent k) z)
   \<and> (\<forall>k. proper owner k \<longrightarrow> set (zk_getChildren zk (path_of k) z) = {})
   \<and> (\<forall>n c. name_ok n \<and> c \<in> set (zk_getChildren zk (buildRuleParentPath n) z) \<longrightarrow>
        (\<exists>s i. c = s @ SELECTOR_JOIN_RULE # i \<and> proper owner (KRule n s i)))
   \<and> (\<forall>c\<in>set (zk_getChildren zk META_DATA_PARENT z). \<exists>p. p \<noteq> [] \<and> c = url_encode p)"

text \<open>The watched parents, and the nodes.\<close>

definition places :: "(string \<Rightarrow> string) \<Rightarrow> string set" where
  "places owner = watched \<union> path_of ` {k. proper owner k}"

definition same_nodes :: "'z zk_client \<Rightarrow> (string \<Rightarrow> string) \<Rightarrow> 'z \<Rightarrow> 'z \<Rightarrow> bool" where
  "same_nodes zk owner z z' \<longleftrightarrow> (\<forall>p. zk_readData zk p z' = zk_readData zk p z)
     \<and> (\<forall>k. proper owner k \<longrightarrow> zk_exists zk (path_of k) z' = zk_exists zk (path_of k) z)
     \<and> (\<forall>q\<in>watched. zk_exists zk q z \<longrightarrow> zk_exists zk q z')
     \<and> (\<forall>q\<in>places owner. set (zk_getChildren zk q z') = set (zk_getChildren zk q z))"

lemma places_intros: "q \<in> watched \<Longrightarrow> q \<in> places owner" "proper owner k \<Longrightarrow> path_of k \<in> places owner"
  by (auto simp: places_def)

lemma same_nodes_refl: "same_nodes zk owner z z"
  by (simp add: same_nodes_def)

lemma same_nodes_trans: "same_nodes zk owner z z' \<Longrightarrow> same_nodes zk owner z' z'' \<Longrightarrow> same_nodes zk owner z z''"
  by (simp add: same_nodes_def)

lemma same_nodes_ok:
  assumes same: "same_nodes zk owner z z'" and ok: "tree_ok zk owner z"
  shows "tree_ok zk owner z'"
proof -
  have "set (zk_getChildren zk (buildRuleParentPath n) z') = set (zk_getChildren zk (buildRuleParentPath n) z)" if "name_ok n" for n
    using same that places_intros(1) unfolding same_nodes_def watched_def by blast
  moreover have "set (zk_getChildren zk META_DATA_PARENT z') = set (zk_getChildren zk META_DATA_PARENT z)"
    using same places_intros(1) unfolding same_nodes_def watched_def by blast
  moreover have "set (zk_getChildren zk (path_of k) z') = {}" if "proper owner k" for k
  proof -
    have "set (zk_getChildren zk (path_of k) z') = set (zk_getChildren zk (path_of k) z)"
      using same places_intros(2) [OF that] unfolding same_nodes_def by blast
    also have "\<dots> = {}" using ok that unfolding tree_ok_def by blast
    finally show ?thesis .
  qed
  moreover have "zk_exists zk (key_parent k) z'" if "proper owner k" "zk_exists zk (path_of k) z'" for k
    using same ok key_parent_watched [OF that(1)] that unfolding same_nodes_def tree_ok_def by blast
  ultimately show ?thesis using same ok unfolding tree_ok_def same_nodes_def by (auto simp del: proper.simps)
qed

lemma documented_children:
  "zk_documented zk \<Longrightarrow> n \<in> set (zk_getChildren zk q z) \<longleftrightarrow> name_ok n \<and> zk_exists zk (node_path q n) z"
  by (simp add: zk_documented_def name_ok_def)

lemma documented_absent: "zk_documented zk \<Longrightarrow> \<not> zk_exists zk p z \<Longrightarrow> zk_readData zk p z = None"
  by (simp add: zk_documented_def)

text \<open>What stands above a node stands above its parent, or is its parent.\<close>

lemma below_node:
  assumes "below p (node_path a c)" "CHR ''/'' \<notin> set c"
  shows "p = a \<or> below p a"
proof -
  obtain r where r: "a @ CHR ''/'' # c = p @ CHR ''/'' # r" using assms(1) by (auto simp: below_def prefix_def node_path_def)
  show ?thesis
  proof (cases "CHR ''/'' \<in> set r")
    case False
    then show ?thesis using split_last [OF assms(2) False r] by simp
  next
    case True
    then obtain r1 r2 where r12: "r = r1 @ CHR ''/'' # r2" "CHR ''/'' \<notin> set r2" by (auto dest: split_list_last)
    then have "a @ CHR ''/'' # c = (p @ CHR ''/'' # r1) @ CHR ''/'' # r2" using r by simp
    from split_last [OF assms(2) r12(2) this] show ?thesis by (auto simp: below_def prefix_def)
  qed
qed

lemma places_slashes: "q \<in> places owner \<Longrightarrow> 2 \<le> count_list q (CHR ''/'')"
proof -
  have "2 \<le> count_list (path_of k) (CHR ''/'')" if "proper owner k" for k
    using watched_slashes [OF key_parent_watched [OF that]] by (simp add: path_of_node node_path_def)
  then show "q \<in> places owner \<Longrightarrow> ?thesis" using watched_slashes by (auto simp: places_def)
qed

lemma place_apart:
  assumes "q \<in> places owner" "e \<in> watched" "CHR ''/'' \<notin> set c"
  shows "node_path q c \<noteq> e" "\<not> below (node_path q c) e"
proof -
  obtain base leaf where e: "e = node_path base leaf" "base \<notin> watched" "CHR ''/'' \<notin> set leaf" "count_list e (CHR ''/'') \<le> 3"
    using watched_split [OF assms(2)] .
  have deep: "\<not> below (node_path q c) e"
  proof
    assume "below (node_path q c) e"
    then obtain r where "e = (node_path q c @ ''/'') @ r" unfolding below_def prefix_def by blast
    then have "4 \<le> count_list e (CHR ''/'')" using places_slashes [OF assms(1)] by (simp add: node_path_def)
    then show False using e(4) by simp
  qed
  then show "\<not> below (node_path q c) e" .
  show "node_path q c \<noteq> e"
  proof (cases "q \<in> watched")
    case True
    then show ?thesis using watched_apart(1) [OF True assms(2,3)] by simp
  next
    case False
    then obtain k where k: "proper owner k" "q = path_of k" using assms(1) by (auto simp: places_def)
    have "4 \<le> count_list (node_path q c) (CHR ''/'')"
      using watched_slashes [OF key_parent_watched [OF k(1)]] unfolding k(2) path_of_node by (simp add: node_path_def)
    then show ?thesis using e(4) by auto
  qed
qed

lemma ensure_same:
  assumes zk: "zk_documented zk" and e: "e \<in> watched"
  shows "same_nodes zk owner z (ensure zk e z)"
proof (cases "zk_exists zk e z")
  case False
  have ex: "zk_exists zk (node_path q c) (zk_createPersistent zk e z) = zk_exists zk (node_path q c) z"
    if "q \<in> places owner" "CHR ''/'' \<notin> set c" for q c
    using zk place_apart [OF that(1) e that(2)] by (simp add: zk_documented_def)
  have "zk_exists zk (path_of k) (zk_createPersistent zk e z) = zk_exists zk (path_of k) z" if "proper owner k" for k
    using key_leaf_ok [OF that] places_intros(1) [OF key_parent_watched [OF that]] by (simp add: path_of_node ex name_ok_def)
  moreover have "set (zk_getChildren zk q (zk_createPersistent zk e z)) = set (zk_getChildren zk q z)" if "q \<in> places owner" for q
    using that by (auto simp: documented_children [OF zk] ex name_ok_def)
  moreover have "zk_readData zk p (zk_createPersistent zk e z) = zk_readData zk p z" for p
    using zk by (simp add: zk_documented_def)
  moreover have "zk_exists zk q z \<Longrightarrow> zk_exists zk q (zk_createPersistent zk e z)" for q
    using zk by (simp add: zk_documented_def)
  ultimately show ?thesis using False by (simp add: same_nodes_def ensure_def)
qed (simp add: ensure_def same_nodes_refl)

lemma child_key:
  assumes zk: "zk_documented zk" and ok: "tree_ok zk owner z" and q: "q \<in> watched" and c: "c \<in> set (zk_getChildren zk q z)"
  shows "\<exists>k. proper owner k \<and> key_parent k = q \<and> key_leaf k = c"
proof -
  have name: "name_ok c" using c documented_children [OF zk] by blast
  consider "q = PLUGIN_PARENT" | "q = APP_AUTH_PARENT" | "q = META_DATA_PARENT"
    | n where "q = buildSelectorParentPath n" "name_ok n" | n where "q = buildRuleParentPath n" "name_ok n"
    using q unfolding watched_def by blast
  then show ?thesis
  proof cases
    case 1
    then show ?thesis using name by (intro exI [of _ "KPlugin c"]) simp
  next
    case 2
    then show ?thesis using name by (intro exI [of _ "KAuth c"]) simp
  next
    case 3
    then obtain p where "p \<noteq> []" "c = url_encode p" using ok c unfolding tree_ok_def by blast
    then show ?thesis using 3 by (intro exI [of _ "KMeta p"]) simp
  next
    case (4 n)
    then show ?thesis using name by (intro exI [of _ "KSelector n c"]) simp
  next
    case (5 n)
    then obtain s i where "c = s @ SELECTOR_JOIN_RULE # i" "proper owner (KRule n s i)" using ok c unfolding tree_ok_def by blast
    then show ?thesis using 5 by (intro exI [of _ "KRule n s i"]) simp
  qed
qed

subsection \<open>Accuracy\<close>

text \<open>A node that exists and has no data yet leaves the caches as they were: the data comes with the next event.\<close>

definition accurate :: "'z zk_client \<Rightarrow> ('z, 'h) zk_link \<Rightarrow> zk_key \<Rightarrow> bool" where
  "accurate zk s k \<longleftrightarrow> node_value zk (path_of k) (zl_tree s) = Some None
     \<or> held (zl_gateway s) k = set_option (zk_readData zk (path_of k) (zl_tree s))"

fun child_ok :: "zk_data_listener set \<Rightarrow> zk_child_listener \<Rightarrow> bool" where
  "child_ok D PluginNames = True"
| "child_ok D (SelectorIds p cs) = (\<exists>n. name_ok n \<and> p = buildSelectorParentPath n \<and> (\<forall>c\<in>set cs. SelectorNode (node_path p c) \<in> D))"
| "child_ok D (RuleIds p cs) = (\<exists>n. name_ok n \<and> p = buildRuleParentPath n \<and> (\<forall>c\<in>set cs. RuleNode (node_path p c) \<in> D))"
| "child_ok D (AuthKeys cs) = (\<forall>c\<in>set cs. AuthNode (node_path APP_AUTH_PARENT c) \<in> D)"
| "child_ok D (MetaPaths cs) = (\<forall>c\<in>set cs. MetaNode (node_path META_DATA_PARENT c) \<in> D)"

definition zk_inv :: "'z zk_client \<Rightarrow> (string \<Rightarrow> string) \<Rightarrow> ('z, 'h) zk_link \<Rightarrow> bool" where
  "zk_inv zk owner s \<longleftrightarrow> tree_ok zk owner (zl_tree s)
     \<and> (\<forall>l\<in>set (zl_data s). \<exists>k. proper owner k \<and> l = listener_of k)
     \<and> (\<forall>k. proper owner k \<and> held (zl_gateway s) k \<noteq> {} \<longrightarrow> listener_of k \<in> set (zl_data s))
     \<and> (\<forall>l\<in>set (zl_children s). child_ok (set (zl_data s)) l)"

text \<open>What every call of the service does: no listener and no accuracy is lost, and what it newly listens to is accurate.\<close>

definition grows :: "'z zk_client \<Rightarrow> (string \<Rightarrow> string) \<Rightarrow> ('z, 'h) zk_link \<Rightarrow> ('z, 'h) zk_link \<Rightarrow> bool" where
  "grows zk owner s s' \<longleftrightarrow> zk_inv zk owner s' \<and> same_nodes zk owner (zl_tree s) (zl_tree s')
     \<and> set (zl_data s) \<subseteq> set (zl_data s') \<and> set (zl_children s) \<subseteq> set (zl_children s')
     \<and> (\<forall>k. proper owner k \<and> accurate zk s k \<longrightarrow> accurate zk s' k)
     \<and> (\<forall>k. proper owner k \<and> listener_of k \<in> set (zl_data s') \<longrightarrow> listener_of k \<in> set (zl_data s) \<or> accurate zk s' k)"

definition carries :: "'z zk_client \<Rightarrow> (string \<Rightarrow> string) \<Rightarrow> ('z, 'h) zk_link updates \<Rightarrow> bool" where
  "carries zk owner f \<longleftrightarrow> (\<forall>s. zk_inv zk owner s \<longrightarrow> snd (f s) = None \<and> grows zk owner s (fst (f s)))"

lemma grows_refl: "zk_inv zk owner s \<Longrightarrow> grows zk owner s s"
  by (simp add: grows_def same_nodes_refl)

lemma grows_trans: "grows zk owner s s' \<Longrightarrow> grows zk owner s' s'' \<Longrightarrow> grows zk owner s s''"
  unfolding grows_def by (meson same_nodes_trans subset_trans subsetD)

lemma grows_inv: "grows zk owner s s' \<Longrightarrow> zk_inv zk owner s'"
  by (simp add: grows_def)

lemma carriesD: "carries zk owner f \<Longrightarrow> zk_inv zk owner s \<Longrightarrow> snd (f s) = None \<and> grows zk owner s (fst (f s))"
  by (simp add: carries_def)

lemma and_then_ok: "snd (f s) = None \<Longrightarrow> and_then f g s = g (fst (f s))"
  by (cases "f s") (simp add: and_then_def)

text \<open>A property that growing keeps and each pass of a loop brings about holds of all when the loop is done.\<close>

definition lasting :: "'z zk_client \<Rightarrow> (string \<Rightarrow> string) \<Rightarrow> (('z, 'h) zk_link \<Rightarrow> bool) \<Rightarrow> bool" where
  "lasting zk owner P \<longleftrightarrow> (\<forall>s s'. grows zk owner s s' \<longrightarrow> P s \<longrightarrow> P s')"

lemma each_grows:
  assumes f: "\<And>x s'. x \<in> set xs \<Longrightarrow> grows zk owner s s' \<Longrightarrow> snd (f x s') = None \<and> grows zk owner s' (fst (f x s'))"
    and s: "zk_inv zk owner s"
  shows "snd (each f xs s) = None \<and> grows zk owner s (fst (each f xs s))"
  using assms
proof (induction xs arbitrary: s)
  case Nil
  then show ?case by (simp add: grows_refl)
next
  case (Cons x xs)
  obtain s' where s': "f x s = (s', None)" "grows zk owner s s'"
    using Cons.prems(1) [of x s] grows_refl [OF Cons.prems(2)] by (cases "f x s") auto
  have "snd (each f xs s') = None \<and> grows zk owner s' (fst (each f xs s'))"
    using Cons.prems(1) grows_trans [OF s'(2)] grows_inv [OF s'(2)] by (intro Cons.IH) auto
  then show ?case using s' grows_trans [OF s'(2)] by simp
qed

lemma each_brings:
  assumes f: "\<And>x s'. x \<in> set xs \<Longrightarrow> grows zk owner s s' \<Longrightarrow> snd (f x s') = None \<and> grows zk owner s' (fst (f x s'))"
    and s: "zk_inv zk owner s" and x: "x \<in> set xs"
    and P: "lasting zk owner P" "\<And>s'. grows zk owner s s' \<Longrightarrow> P (fst (f x s'))"
  shows "P (fst (each f xs s))"
  using f s x P(2)
proof (induction xs arbitrary: s)
  case (Cons y ys)
  obtain s' where s': "f y s = (s', None)" "grows zk owner s s'"
    using Cons.prems(1) [of y s] grows_refl [OF Cons.prems(2)] by (cases "f y s") auto
  have f': "snd (f z s'') = None \<and> grows zk owner s'' (fst (f z s''))" if "z \<in> set ys" "grows zk owner s' s''" for z s''
    using Cons.prems(1) [of z s''] grows_trans [OF s'(2) that(2)] that(1) by simp
  show ?case
  proof (cases "x = y")
    case True
    have "P s'" using Cons.prems(4) [OF grows_refl [OF Cons.prems(2)]] s'(1) True by simp
    moreover have "grows zk owner s' (fst (each f ys s'))" using each_grows [of ys zk owner s' f, OF f' grows_inv [OF s'(2)]] by blast
    ultimately have "P (fst (each f ys s'))" using P(1) unfolding lasting_def by blast
    then show ?thesis using s'(1) by simp
  next
    case False
    have "P (fst (each f ys s'))"
    proof (rule Cons.IH)
      show "x \<in> set ys" using Cons.prems(3) False by simp
      show "P (fst (f x s''))" if "grows zk owner s' s''" for s'' using Cons.prems(4) [OF grows_trans [OF s'(2) that]] .
    qed (use f' grows_inv [OF s'(2)] in auto)
    then show ?thesis using s'(1) by simp
  qed
qed simp

lemma fold_grows:
  assumes "\<And>x s'. x \<in> set xs \<Longrightarrow> grows zk owner s s' \<Longrightarrow> grows zk owner s' (f x s')" and "zk_inv zk owner s"
  shows "grows zk owner s (fold f xs s)"
proof -
  have "fst (each (\<lambda>x s. (f x s, None)) ys t) = fold f ys t" for ys t by (induction ys arbitrary: t) simp_all
  then show ?thesis using each_grows [of xs zk owner s "\<lambda>x s. (f x s, None)"] assms by simp
qed

lemma fold_brings:
  assumes "\<And>x s'. x \<in> set xs \<Longrightarrow> grows zk owner s s' \<Longrightarrow> grows zk owner s' (f x s')" and "zk_inv zk owner s" and "x \<in> set xs"
    and "lasting zk owner P" "\<And>s'. grows zk owner s s' \<Longrightarrow> P (f x s')"
  shows "P (fold f xs s)"
proof -
  have "fst (each (\<lambda>x s. (f x s, None)) ys t) = fold f ys t" for ys t by (induction ys arbitrary: t) simp_all
  then show ?thesis using each_brings [of xs zk owner s "\<lambda>x s. (f x s, None)" x P] assms by simp
qed

subsection \<open>The calls of the service\<close>

lemma on_gateway_parts:
  "fst (on_gateway f s) = s\<lparr>zl_gateway := fst (f (zl_gateway s))\<rparr>" "snd (on_gateway f s) = snd (f (zl_gateway s))"
  by (simp_all add: on_gateway_def split: prod.splits)

text \<open>A listener that is called with what its node has.\<close>

lemma listener_called:
  assumes q: "quiet hm" and zk: "zk_documented zk" and k: "proper owner k" and inv: "zk_inv zk owner s"
    and l: "listener_of k \<in> set (zl_data s)"
  shows "snd (on_gateway (handle_data hm (listener_of k) (node_value zk (path_of k) (zl_tree s))) s) = None"
    and "grows zk owner s (fst (on_gateway (handle_data hm (listener_of k) (node_value zk (path_of k) (zl_tree s))) s))" (is "grows zk owner s ?s'")
    and "accurate zk (fst (on_gateway (handle_data hm (listener_of k) (node_value zk (path_of k) (zl_tree s))) s)) k"
proof -
  let ?v = "node_value zk (path_of k) (zl_tree s)" and ?g = "zl_gateway s"
  let ?g' = "fst (handle_data hm (listener_of k) ?v ?g)"
  have s': "?s' = s\<lparr>zl_gateway := ?g'\<rparr>" by (simp add: on_gateway_parts)
  have ok: "tree_ok zk owner (zl_tree s)" using inv by (simp add: zk_inv_def)
  have step: "snd (handle_data hm (listener_of k) ?v ?g) = None \<and> accurate zk ?s' k
    \<and> (\<forall>k'. proper owner k' \<and> k' \<noteq> k \<longrightarrow> held ?g' k' = held ?g k')"
  proof (cases ?v)
    case None
    then have "zk_readData zk (path_of k) (zl_tree s) = None"
      using documented_absent [OF zk] by (simp add: node_value_def split: if_splits)
    then show ?thesis using None data_gone [OF q k] by (simp add: accurate_def on_gateway_parts)
  next
    case (Some w)
    show ?thesis
    proof (cases w)
      case None
      then show ?thesis using Some data_blank [of hm k ?g] by (simp add: accurate_def on_gateway_parts)
    next
      case (Some d)
      have read: "zk_readData zk (path_of k) (zl_tree s) = Some d" using \<open>?v = Some w\<close> Some by (simp add: node_value_def split: if_splits)
      then have "proper owner (key_of_data d)" "path_of k = path_of (key_of_data d)" using ok unfolding tree_ok_def by blast+
      then have "key_of_data d = k" using path_of_inj [OF k] by simp
      note w = data_written [OF q k this]
      show ?thesis using \<open>?v = Some w\<close> Some w(1,2) w(3) read by (simp add: accurate_def on_gateway_parts)
    qed
  qed
  then show "snd (on_gateway (handle_data hm (listener_of k) ?v) s) = None" "accurate zk ?s' k" by (simp_all add: on_gateway_parts)
  have acc: "accurate zk ?s' k'" if "proper owner k'" "accurate zk s k'" for k'
    using that step by (cases "k' = k") (simp_all add: accurate_def s')
  have "listener_of k' \<in> set (zl_data s)" if "proper owner k'" "held ?g' k' \<noteq> {}" for k'
    using that inv step l unfolding zk_inv_def by (cases "k' = k") auto
  then have "zk_inv zk owner ?s'" using inv unfolding zk_inv_def s' by simp
  then show "grows zk owner s ?s'" using acc unfolding grows_def by (simp add: same_nodes_refl s')
qed

text \<open>Reading a node and listening to it.\<close>

definition covers :: "'z zk_client \<Rightarrow> zk_key \<Rightarrow> ('z, 'h) zk_link \<Rightarrow> bool" where
  "covers zk k s \<longleftrightarrow> listener_of k \<in> set (zl_data s) \<and> accurate zk s k"

lemma lasting_covers: "proper owner k \<Longrightarrow> lasting zk owner (covers zk k)"
  unfolding lasting_def covers_def grows_def by blast

lemma lasting_listens: "lasting zk owner (\<lambda>s. listener_of k \<in> set (zl_data s))"
  unfolding lasting_def grows_def by blast

lemma lasting_children: "lasting zk owner (\<lambda>s. \<exists>cs. listener cs \<in> set (zl_children s))"
  unfolding lasting_def grows_def by blast

lemma child_ok_mono: "child_ok D l \<Longrightarrow> D \<subseteq> D' \<Longrightarrow> child_ok D' l"
  by (cases l) auto

lemma subscribed_data:
  assumes inv: "zk_inv zk owner s" and k: "proper owner k" and new: "listener_of k \<in> set (zl_data s) \<or> accurate zk s k"
  shows "grows zk owner s (fst (subscribeDataChanges (listener_of k) s))"
proof -
  let ?s' = "fst (subscribeDataChanges (listener_of k) s)"
  have s': "?s' = s\<lparr>zl_data := zl_data s @ [listener_of k]\<rparr>" by (simp add: subscribeDataChanges_def)
  have "zk_inv zk owner ?s'" using inv k unfolding zk_inv_def s' by (auto intro: child_ok_mono)
  moreover have "accurate zk ?s' k' = accurate zk s k'" for k' by (simp add: accurate_def s')
  moreover have "k' = k" if "listener_of k' = listener_of k" "proper owner k'" for k' using listener_of_inj [OF that(2) k that(1)] .
  ultimately show ?thesis using new unfolding grows_def by (auto simp: same_nodes_refl s')
qed

lemma read_and_subscribe_carries:
  assumes q: "quiet hm" and zk: "zk_documented zk" and k: "proper owner k"
  shows "carries zk owner (read_and_subscribe hm zk (listener_of k))"
    and "zk_inv zk owner s \<Longrightarrow> zk_exists zk (path_of k) (zl_tree s) \<Longrightarrow> covers zk k (fst (read_and_subscribe hm zk (listener_of k) s))"
proof -
  text \<open>As if the listener were registered first: the order does not show.\<close>
  have swap: "read_and_subscribe hm zk (listener_of k) s
      = on_gateway (handle_data hm (listener_of k) (Some (zk_readData zk (path_of k) (zl_tree s)))) (fst (subscribeDataChanges (listener_of k) s))"
    if none: "snd (handle_data hm (listener_of k) (Some (zk_readData zk (path_of k) (zl_tree s))) (zl_gateway s)) = None" for s
  proof -
    obtain g where "handle_data hm (listener_of k) (Some (zk_readData zk (dl_path (listener_of k)) (zl_tree s))) (zl_gateway s) = (g, None)"
      using none unfolding path_of_def by (metis prod.collapse)
    then show ?thesis by (simp add: read_and_subscribe_def and_then_def on_gateway_def subscribeDataChanges_def path_of_def)
  qed
  have main: "snd (read_and_subscribe hm zk (listener_of k) s) = None \<and> grows zk owner s (fst (read_and_subscribe hm zk (listener_of k) s))
      \<and> (zk_exists zk (path_of k) (zl_tree s) \<longrightarrow> covers zk k (fst (read_and_subscribe hm zk (listener_of k) s)))"
    if inv: "zk_inv zk owner s" for s
  proof -
    let ?r = "zk_readData zk (path_of k) (zl_tree s)" and ?s1 = "fst (subscribeDataChanges (listener_of k) s)"
    have s1: "zl_gateway ?s1 = zl_gateway s" "zl_tree ?s1 = zl_tree s" "listener_of k \<in> set (zl_data ?s1)"
      by (simp_all add: subscribeDataChanges_def)
    show ?thesis
    proof (cases "zk_exists zk (path_of k) (zl_tree s)")
      case True
      then have v: "node_value zk (path_of k) (zl_tree ?s1) = Some ?r" by (simp add: node_value_def s1)
      have i1: "zk_inv zk owner ?s1" using inv k unfolding zk_inv_def subscribeDataChanges_def by (auto intro: child_ok_mono)
      note called = listener_called [OF q zk k i1 s1(3), unfolded v]
      have none: "snd (handle_data hm (listener_of k) (Some ?r) (zl_gateway s)) = None" using called(1) by (simp add: on_gateway_parts s1)
      let ?s2 = "fst (read_and_subscribe hm zk (listener_of k) s)"
      have s2: "?s2 = fst (on_gateway (handle_data hm (listener_of k) (Some ?r)) ?s1)" using swap [OF none] by simp
      have "same_nodes zk owner (zl_tree s) (zl_tree ?s2)" using called(2) unfolding s2 grows_def by (simp add: s1)
      moreover have "accurate zk ?s2 k'" if "proper owner k'" "accurate zk s k'" for k'
      proof -
        have "accurate zk ?s1 k'" using that(2) by (simp add: accurate_def s1)
        then show ?thesis using called(2) that(1) unfolding s2 grows_def by blast
      qed
      moreover have "listener_of k' \<in> set (zl_data s) \<or> accurate zk ?s2 k'" if "proper owner k'" "listener_of k' \<in> set (zl_data ?s2)" for k'
      proof (cases "k' = k")
        case True
        then show ?thesis using called(3) s2 by simp
      next
        case False
        then have "listener_of k' \<noteq> listener_of k" using listener_of_inj [OF that(1) k] by blast
        then show ?thesis using that(2) unfolding s2 by (simp add: on_gateway_parts subscribeDataChanges_def)
      qed
      moreover have "zl_data ?s2 = zl_data s @ [listener_of k]" "zl_children ?s2 = zl_children s"
        unfolding s2 by (simp_all add: on_gateway_parts subscribeDataChanges_def)
      moreover have "zk_inv zk owner ?s2" using called(2) unfolding s2 grows_def by blast
      ultimately have "grows zk owner s ?s2" unfolding grows_def by auto
      then show ?thesis using swap [OF none] called(1,3) s1(3) by (simp add: covers_def on_gateway_parts)
    next
      case False
      then have r: "?r = None" by (rule documented_absent [OF zk])
      have run: "read_and_subscribe hm zk (listener_of k) s = (?s1, None)"
        using swap [of s] r data_blank [of hm k] by (simp add: on_gateway_def)
      have "listener_of k \<in> set (zl_data s) \<or> held (zl_gateway s) k = {}" using inv k unfolding zk_inv_def by blast
      then have "listener_of k \<in> set (zl_data s) \<or> accurate zk s k" by (auto simp: accurate_def r)
      from subscribed_data [OF inv k this] show ?thesis using False run by simp
    qed
  qed
  show "carries zk owner (read_and_subscribe hm zk (listener_of k))" using main unfolding carries_def by blast
  show "zk_inv zk owner s \<Longrightarrow> zk_exists zk (path_of k) (zl_tree s) \<Longrightarrow> covers zk k (fst (read_and_subscribe hm zk (listener_of k) s))"
    using main by blast
qed

text \<open>\<open>node\<close> makes the listeners of a parent's nodes.\<close>

definition node_kind :: "(string \<Rightarrow> string) \<Rightarrow> string \<Rightarrow> (string \<Rightarrow> zk_data_listener) \<Rightarrow> bool" where
  "node_kind owner parent node \<longleftrightarrow> parent \<in> watched \<and> (\<forall>k. proper owner k \<and> key_parent k = parent \<longrightarrow> node (path_of k) = listener_of k)"

lemma node_kinds:
  "name_ok n \<Longrightarrow> node_kind owner (buildSelectorParentPath n) SelectorNode"
  "name_ok n \<Longrightarrow> node_kind owner (buildRuleParentPath n) RuleNode"
  "node_kind owner APP_AUTH_PARENT AuthNode"
  "node_kind owner META_DATA_PARENT MetaNode"
proof -
  note d = parents_distinct parents_distinct [symmetric]
  have eq: "PLUGIN_PARENT \<noteq> buildSelectorParentPath n" "PLUGIN_PARENT \<noteq> buildRuleParentPath n" for n by (rule parents_distinct)+
  have w: "APP_AUTH_PARENT \<in> watched" "META_DATA_PARENT \<in> watched" by (simp_all add: watched_def)
  have ws: "buildSelectorParentPath n \<in> watched" "buildRuleParentPath n \<in> watched" if "name_ok n" for n using that by (auto simp: watched_def)
  show "node_kind owner APP_AUTH_PARENT AuthNode" unfolding node_kind_def
  proof (intro conjI allI impI w)
    fix k assume "proper owner k \<and> key_parent k = APP_AUTH_PARENT"
    then show "AuthNode (path_of k) = listener_of k" using d by (cases k) (auto simp: path_of_def)
  qed
  show "node_kind owner META_DATA_PARENT MetaNode" unfolding node_kind_def
  proof (intro conjI allI impI w)
    fix k assume "proper owner k \<and> key_parent k = META_DATA_PARENT"
    then show "MetaNode (path_of k) = listener_of k" using d by (cases k) (auto simp: path_of_def)
  qed
  show "node_kind owner (buildSelectorParentPath n) SelectorNode" if "name_ok n" unfolding node_kind_def
  proof (intro conjI allI impI ws [OF that])
    fix k assume "proper owner k \<and> key_parent k = buildSelectorParentPath n"
    then show "SelectorNode (path_of k) = listener_of k" using d by (cases k) (auto simp: path_of_def)
  qed
  show "node_kind owner (buildRuleParentPath n) RuleNode" if "name_ok n" unfolding node_kind_def
  proof (intro conjI allI impI ws [OF that])
    fix k assume "proper owner k \<and> key_parent k = buildRuleParentPath n"
    then show "RuleNode (path_of k) = listener_of k" using d by (cases k) (auto simp: path_of_def)
  qed
qed

lemma child_listener:
  assumes zk: "zk_documented zk" and inv: "zk_inv zk owner s" and kind: "node_kind owner parent node"
    and c: "c \<in> set (zk_getChildren zk parent (zl_tree s))"
  obtains k where "proper owner k" "key_parent k = parent" "key_leaf k = c" "node (node_path parent c) = listener_of k"
    "zk_exists zk (path_of k) (zl_tree s)"
proof -
  have "tree_ok zk owner (zl_tree s)" "parent \<in> watched" using inv kind by (simp_all add: zk_inv_def node_kind_def)
  then obtain k where k: "proper owner k" "key_parent k = parent" "key_leaf k = c" using child_key [OF zk _ _ c] by blast
  have "node (node_path parent c) = listener_of k" using kind k path_of_node [of k] unfolding node_kind_def by metis
  moreover have "zk_exists zk (path_of k) (zl_tree s)" using c documented_children [OF zk] k path_of_node [of k] by metis
  ultimately show thesis using that k by blast
qed

lemma existing_child:
  assumes zk: "zk_documented zk" and k: "proper owner k" and ex: "zk_exists zk (path_of k) z"
  shows "key_leaf k \<in> set (zk_getChildren zk (key_parent k) z)"
  using key_leaf_ok [OF k] ex by (simp add: documented_children [OF zk] path_of_node)

text \<open>Reading and listening to some children of a parent.\<close>

lemma children_read:
  assumes q: "quiet hm" and zk: "zk_documented zk" and inv: "zk_inv zk owner s" and kind: "node_kind owner parent node"
    and cs: "set cs \<subseteq> set (zk_getChildren zk parent (zl_tree s))"
  defines "f \<equiv> \<lambda>child. read_and_subscribe hm zk (node (node_path parent child))"
  shows "snd (each f cs s) = None" "grows zk owner s (fst (each f cs s))"
    "\<And>k. proper owner k \<Longrightarrow> key_parent k = parent \<Longrightarrow> key_leaf k \<in> set cs \<Longrightarrow> covers zk k (fst (each f cs s))"
    "\<And>c. c \<in> set cs \<Longrightarrow> node (node_path parent c) \<in> set (zl_data (fst (each f cs s)))"
proof -
  have car: "snd (f c s') = None \<and> grows zk owner s' (fst (f c s'))" if "c \<in> set cs" "grows zk owner s s'" for c s'
  proof -
    have "c \<in> set (zk_getChildren zk parent (zl_tree s))" using that(1) cs by blast
    then obtain k where k: "proper owner k" "node (node_path parent c) = listener_of k" using child_listener [OF zk inv kind] by metis
    show ?thesis unfolding f_def k(2) by (rule carriesD [OF read_and_subscribe_carries(1) [OF q zk k(1)] grows_inv [OF that(2)]])
  qed
  show "snd (each f cs s) = None" "grows zk owner s (fst (each f cs s))" using each_grows [of cs zk owner s f, OF car inv] by blast+
  have cov: "covers zk k (fst (each f cs s))"
    if k: "proper owner k" "key_parent k = parent" "key_leaf k \<in> set cs" for k
  proof (rule each_brings [of cs zk owner s f, OF car inv k(3) lasting_covers [OF k(1)]])
    fix s' assume g: "grows zk owner s s'"
    have "key_leaf k \<in> set (zk_getChildren zk parent (zl_tree s))" using k(3) cs by blast
    then have "zk_exists zk (path_of k) (zl_tree s)" using documented_children [OF zk] k(2) path_of_node [of k] by metis
    then have "zk_exists zk (path_of k) (zl_tree s')" using g k(1) by (simp add: grows_def same_nodes_def)
    moreover have "f (key_leaf k) = read_and_subscribe hm zk (listener_of k)"
      using kind k path_of_node [of k] unfolding node_kind_def f_def by metis
    ultimately show "covers zk k (fst (f (key_leaf k) s'))"
      using read_and_subscribe_carries(2) [OF q zk k(1) grows_inv [OF g]] by simp
  qed
  then show "\<And>k. proper owner k \<Longrightarrow> key_parent k = parent \<Longrightarrow> key_leaf k \<in> set cs \<Longrightarrow> covers zk k (fst (each f cs s))" .
  show "node (node_path parent c) \<in> set (zl_data (fst (each f cs s)))" if "c \<in> set cs" for c
  proof -
    have "c \<in> set (zk_getChildren zk parent (zl_tree s))" using that cs by blast
    then obtain k where "proper owner k" "key_parent k = parent" "key_leaf k = c" "node (node_path parent c) = listener_of k"
      using child_listener [OF zk inv kind] by metis
    then show ?thesis using cov [of k] that by (simp add: covers_def)
  qed
qed

lemma grows_tree:
  assumes inv: "zk_inv zk owner s" and same: "same_nodes zk owner (zl_tree s) z"
  shows "grows zk owner s (s\<lparr>zl_tree := z\<rparr>)"
proof -
  have "accurate zk (s\<lparr>zl_tree := z\<rparr>) k = accurate zk s k" if "proper owner k" for k
    using same that by (simp add: accurate_def node_value_def same_nodes_def)
  moreover have "zk_inv zk owner (s\<lparr>zl_tree := z\<rparr>)" using inv same_nodes_ok [OF same] by (simp add: zk_inv_def)
  ultimately show ?thesis using same by (simp add: grows_def)
qed

lemma ensure_carries:
  "zk_documented zk \<Longrightarrow> e \<in> watched \<Longrightarrow> carries zk owner (on_tree (ensure zk e))"
  by (simp add: carries_def on_tree_def grows_tree ensure_same)

text \<open>A \<open>watch\<close> method.\<close>

lemma watch_children_run:
  assumes q: "quiet hm" and zk: "zk_documented zk" and inv: "zk_inv zk owner s" and kind: "node_kind owner parent node"
    and listener: "\<And>D cs. (\<And>c. c \<in> set cs \<Longrightarrow> node (node_path parent c) \<in> D) \<Longrightarrow> child_ok D (listener cs)"
  shows "snd (watch_children hm zk parent node listener s) = None"
    "grows zk owner s (fst (watch_children hm zk parent node listener s))"
    "\<exists>cs. listener cs \<in> set (zl_children (fst (watch_children hm zk parent node listener s)))"
    "\<And>k. proper owner k \<Longrightarrow> key_parent k = parent \<Longrightarrow> zk_exists zk (path_of k) (zl_tree s)
       \<Longrightarrow> covers zk k (fst (watch_children hm zk parent node listener s))"
proof -
  let ?s1 = "s\<lparr>zl_tree := ensure zk parent (zl_tree s)\<rparr>"
  let ?cs = "zk_getChildren zk parent (ensure zk parent (zl_tree s))"
  let ?s2 = "fst (each (\<lambda>child. read_and_subscribe hm zk (node (node_path parent child))) ?cs ?s1)"
  have w: "parent \<in> watched" using kind by (simp add: node_kind_def)
  have g1: "grows zk owner s ?s1" by (rule grows_tree [OF inv ensure_same [OF zk w]])
  have cs: "set ?cs \<subseteq> set (zk_getChildren zk parent (zl_tree ?s1))" by simp
  note each = children_read [OF q zk grows_inv [OF g1] kind cs]
  let ?s3 = "?s2\<lparr>zl_children := zl_children ?s2 @ [listener ?cs]\<rparr>"
  have run: "watch_children hm zk parent node listener s = (?s3, None)"
    by (simp add: watch_children_def on_tree_def and_then_ok Let_def each(1) subscribeChildChanges_def)
  have "child_ok (set (zl_data ?s2)) (listener ?cs)" by (rule listener) (rule each(4))
  then have "zk_inv zk owner ?s3" using grows_inv [OF each(2)] by (auto simp: zk_inv_def)
  moreover have acc: "accurate zk ?s3 k = accurate zk ?s2 k" for k by (simp add: accurate_def)
  ultimately have g3: "grows zk owner ?s2 ?s3" by (auto simp: grows_def same_nodes_refl)
  show "snd (watch_children hm zk parent node listener s) = None"
    "grows zk owner s (fst (watch_children hm zk parent node listener s))"
    using grows_trans [OF g1 grows_trans [OF each(2) g3]] by (simp_all add: run)
  show "\<exists>cs. listener cs \<in> set (zl_children (fst (watch_children hm zk parent node listener s)))" by (auto simp: run)
  show "covers zk k (fst (watch_children hm zk parent node listener s))"
    if k: "proper owner k" "key_parent k = parent" "zk_exists zk (path_of k) (zl_tree s)" for k
  proof -
    have "zk_exists zk (path_of k) (zl_tree ?s1)" using g1 k(1,3) by (simp add: grows_def same_nodes_def)
    then have "key_leaf k \<in> set ?cs" using existing_child [OF zk k(1)] k(2) by simp
    from each(3) [OF k(1,2) this] show ?thesis by (simp add: run covers_def acc)
  qed
qed

text \<open>What the gateway listens to for a plugin that is there.\<close>

definition attends :: "'z zk_client \<Rightarrow> (string \<Rightarrow> string) \<Rightarrow> string \<Rightarrow> ('z, 'h) zk_link \<Rightarrow> bool" where
  "attends zk owner n s \<longleftrightarrow> listener_of (KPlugin n) \<in> set (zl_data s)
     \<and> (\<exists>cs. SelectorIds (buildSelectorParentPath n) cs \<in> set (zl_children s))
     \<and> (\<exists>cs. RuleIds (buildRuleParentPath n) cs \<in> set (zl_children s))
     \<and> (\<forall>k. proper owner k \<and> key_parent k \<in> {buildSelectorParentPath n, buildRuleParentPath n}
          \<and> zk_exists zk (path_of k) (zl_tree s) \<longrightarrow> listener_of k \<in> set (zl_data s))"

lemma lasting_attends: "lasting zk owner (attends zk owner n)"
  unfolding lasting_def attends_def grows_def same_nodes_def by blast

lemma watcherAll_run:
  assumes q: "quiet hm" and zk: "zk_documented zk" and inv: "zk_inv zk owner s" and n: "name_ok n"
    and ex: "zk_exists zk (path_of (KPlugin n)) (zl_tree s)"
  shows "snd (watcherAll hm zk n s) = None \<and> grows zk owner s (fst (watcherAll hm zk n s)) \<and> attends zk owner n (fst (watcherAll hm zk n s))"
proof -
  have k: "proper owner (KPlugin n)" using n by simp
  let ?s1 = "fst (watcherPlugin hm zk n s)" and ?s2 = "fst (watcherSelector hm zk n (fst (watcherPlugin hm zk n s)))"
  let ?s3 = "fst (watcherRule hm zk n ?s2)"
  have plugin: "watcherPlugin hm zk n s = read_and_subscribe hm zk (listener_of (KPlugin n)) s"
    using ex by (simp add: watcherPlugin_def Let_def and_then_def on_tree_def ensure_def path_of_def)
  have p1: "snd (watcherPlugin hm zk n s) = None" "grows zk owner s ?s1"
    using carriesD [OF read_and_subscribe_carries(1) [OF q zk k] inv] by (simp_all add: plugin)
  have p1': "covers zk (KPlugin n) ?s1" unfolding plugin by (rule read_and_subscribe_carries(2) [OF q zk k inv ex])
  have eqs: "watcherSelector hm zk n = watch_children hm zk (buildSelectorParentPath n) SelectorNode (SelectorIds (buildSelectorParentPath n))"
    "watcherRule hm zk n = watch_children hm zk (buildRuleParentPath n) RuleNode (RuleIds (buildRuleParentPath n))"
    by (simp_all add: watcherSelector_def watcherRule_def Let_def)
  have oks: "(\<And>c. c \<in> set cs \<Longrightarrow> SelectorNode (node_path (buildSelectorParentPath n) c) \<in> D) \<Longrightarrow> child_ok D (SelectorIds (buildSelectorParentPath n) cs)"
    "(\<And>c. c \<in> set cs \<Longrightarrow> RuleNode (node_path (buildRuleParentPath n) c) \<in> D) \<Longrightarrow> child_ok D (RuleIds (buildRuleParentPath n) cs)" for D cs
    using n by auto
  note sel = watch_children_run [where listener = "SelectorIds (buildSelectorParentPath n)",
      OF q zk grows_inv [OF p1(2)] node_kinds(1) [OF n] oks(1), folded eqs, simplified]
  note rule = watch_children_run [where listener = "RuleIds (buildRuleParentPath n)",
      OF q zk grows_inv [OF sel(2)] node_kinds(2) [OF n] oks(2), folded eqs, simplified]
  have run: "watcherAll hm zk n s = (?s3, None)"
    by (simp add: watcherAll_def and_then_ok p1(1) sel(1) prod_eq_iff rule(1))
  note g = grows_trans [OF p1(2) grows_trans [OF sel(2) rule(2)]]
  have "attends zk owner n ?s3" unfolding attends_def
  proof (intro conjI allI impI)
    have "?s1 = ?s1 \<and> grows zk owner ?s1 ?s3" using grows_trans [OF sel(2) rule(2)] by simp
    then show "listener_of (KPlugin n) \<in> set (zl_data ?s3)" using p1' unfolding covers_def grows_def by blast
    show "\<exists>cs. SelectorIds (buildSelectorParentPath n) cs \<in> set (zl_children ?s3)" using sel(3) rule(2) unfolding grows_def by blast
    show "\<exists>cs. RuleIds (buildRuleParentPath n) cs \<in> set (zl_children ?s3)" by (rule rule(3))
    fix k assume k: "proper owner k \<and> key_parent k \<in> {buildSelectorParentPath n, buildRuleParentPath n} \<and> zk_exists zk (path_of k) (zl_tree ?s3)"
    then have ex: "zk_exists zk (path_of k) (zl_tree ?s1)" "zk_exists zk (path_of k) (zl_tree ?s2)"
      using sel(2) rule(2) unfolding grows_def same_nodes_def by blast+
    show "listener_of k \<in> set (zl_data ?s3)"
    proof (cases "key_parent k = buildSelectorParentPath n")
      case True
      then have "listener_of k \<in> set (zl_data ?s2)" using sel(4) [of k] k ex by (simp add: covers_def)
      then show ?thesis using rule(2) unfolding grows_def by blast
    next
      case False
      then show ?thesis using rule(4) [of k] k ex by (simp add: covers_def)
    qed
  qed
  then show ?thesis using g by (simp add: run)
qed

subsection \<open>Notifications\<close>

text \<open>What a child listener has made sure of when it has been called.\<close>

definition heard :: "'z zk_client \<Rightarrow> (string \<Rightarrow> string) \<Rightarrow> zk_child_listener \<Rightarrow> ('z, 'h) zk_link \<Rightarrow> bool" where
  "heard zk owner l s \<longleftrightarrow>
     (if l = PluginNames then \<forall>n. name_ok n \<and> zk_exists zk (path_of (KPlugin n)) (zl_tree s) \<longrightarrow> attends zk owner n s
      else \<forall>k. proper owner k \<and> key_parent k = cl_path l \<and> zk_exists zk (path_of k) (zl_tree s) \<longrightarrow> listener_of k \<in> set (zl_data s))"

lemma lasting_heard: "lasting zk owner (heard zk owner l)"
  unfolding lasting_def
proof (intro allI impI)
  fix s s' assume g: "grows zk owner s s'" and h: "heard zk owner l s"
  show "heard zk owner l s'"
  proof (cases "l = PluginNames")
    case True
    have "zk_exists zk (path_of (KPlugin n)) (zl_tree s')= zk_exists zk (path_of (KPlugin n)) (zl_tree s)" if "name_ok n" for n
      using g that unfolding grows_def same_nodes_def by simp
    moreover have "attends zk owner n s'" if "attends zk owner n s" for n using lasting_attends g that unfolding lasting_def by blast
    ultimately show ?thesis using h True unfolding heard_def by (simp only: if_True simp_thms) blast
  next
    case False
    then show ?thesis using g h unfolding heard_def grows_def same_nodes_def by auto
  qed
qed

lemma new_children_run:
  assumes q: "quiet hm" and zk: "zk_documented zk" and inv: "zk_inv zk owner s" and kind: "node_kind owner parent node"
    and cs: "\<And>c. c \<in> set cs \<Longrightarrow> node (node_path parent c) \<in> set (zl_data s)"
  defines "r \<equiv> new_children hm zk parent node cs (zk_getChildren zk parent (zl_tree s)) s"
  shows "snd r = None" "grows zk owner s (fst r)"
    "\<And>k. proper owner k \<Longrightarrow> key_parent k = parent \<Longrightarrow> zk_exists zk (path_of k) (zl_tree (fst r)) \<Longrightarrow> listener_of k \<in> set (zl_data (fst r))"
proof -
  let ?cs = "zk_addSubscribePath cs (zk_getChildren zk parent (zl_tree s))"
  have sub: "set ?cs \<subseteq> set (zk_getChildren zk parent (zl_tree s))" by (auto simp: zk_addSubscribePath_def)
  have r: "r = each (\<lambda>child. read_and_subscribe hm zk (node (node_path parent child))) ?cs s" by (simp add: r_def new_children_def)
  note read = children_read [OF q zk inv kind sub, folded r]
  show "snd r = None" "grows zk owner s (fst r)" using read(1,2) .
  show "listener_of k \<in> set (zl_data (fst r))"
    if k: "proper owner k" "key_parent k = parent" "zk_exists zk (path_of k) (zl_tree (fst r))" for k
  proof (cases "key_leaf k \<in> set ?cs")
    case True
    then show ?thesis using read(3) [OF k(1,2)] by (simp add: covers_def)
  next
    case False
    have "zk_exists zk (path_of k) (zl_tree s)" using k(1,3) read(2) by (simp add: grows_def same_nodes_def)
    then have "key_leaf k \<in> set (zk_getChildren zk parent (zl_tree s))" using existing_child [OF zk k(1)] k(2) by simp
    then have "key_leaf k \<in> set cs" using False by (auto simp: zk_addSubscribePath_def split: if_splits)
    then have "node (node_path parent (key_leaf k)) \<in> set (zl_data s)" by (rule cs)
    moreover have "node (node_path parent (key_leaf k)) = listener_of k"
      using kind k(1,2) path_of_node [of k] unfolding node_kind_def by metis
    ultimately show ?thesis using read(2) unfolding grows_def by auto
  qed
qed

lemma handle_children_run:
  assumes q: "quiet hm" and zk: "zk_documented zk" and inv: "zk_inv zk owner s" and l: "child_ok (set (zl_data s)) l"
  defines "r \<equiv> handle_children hm zk l (zk_getChildren zk (cl_path l) (zl_tree s)) s"
  shows "grows zk owner s (fst r) \<and> heard zk owner l (fst r)"
proof (cases l)
  case PluginNames
  let ?cs = "zk_getChildren zk PLUGIN_PARENT (zl_tree s)"
  have r: "r = each (watcherAll hm zk) ?cs s" by (simp add: r_def PluginNames)
  have there: "name_ok n \<and> zk_exists zk (path_of (KPlugin n)) (zl_tree s')" if "n \<in> set ?cs" "grows zk owner s s'" for n s'
  proof -
    have "name_ok n" "zk_exists zk (path_of (KPlugin n)) (zl_tree s)"
      using that(1) documented_children [OF zk, of n PLUGIN_PARENT "zl_tree s"] by (simp_all add: path_of_node)
    then show ?thesis using that(2) unfolding grows_def same_nodes_def by simp
  qed
  have run: "snd (watcherAll hm zk n s') = None \<and> grows zk owner s' (fst (watcherAll hm zk n s')) \<and> attends zk owner n (fst (watcherAll hm zk n s'))"
    if "n \<in> set ?cs" "grows zk owner s s'" for n s'
    using watcherAll_run [OF q zk grows_inv [OF that(2)]] there [OF that] by blast
  have g: "grows zk owner s (fst r)" unfolding r using each_grows [of ?cs zk owner s "watcherAll hm zk"] run inv by blast
  have "attends zk owner n (fst r)" if n: "name_ok n" "zk_exists zk (path_of (KPlugin n)) (zl_tree (fst r))" for n
  proof -
    have "zk_exists zk (path_of (KPlugin n)) (zl_tree s)" using g n unfolding grows_def same_nodes_def by simp
    then have "n \<in> set ?cs" using n(1) documented_children [OF zk, of n PLUGIN_PARENT "zl_tree s"] by (simp add: path_of_node)
    moreover have "attends zk owner n (fst (watcherAll hm zk n s'))" if "n \<in> set ?cs" "grows zk owner s s'" for s' using run [OF that] by blast
    moreover have "snd (watcherAll hm zk n s') = None \<and> grows zk owner s' (fst (watcherAll hm zk n s'))"
      if "n \<in> set ?cs" "grows zk owner s s'" for n s' using run [OF that] by blast
    ultimately show ?thesis unfolding r
      by (intro each_brings [of ?cs zk owner s "watcherAll hm zk" n "attends zk owner n", OF _ inv _ lasting_attends])
  qed
  then show ?thesis using g PluginNames by (simp add: heard_def)
next
  case (SelectorIds p cs)
  then obtain n where n: "name_ok n" "p = buildSelectorParentPath n" "\<And>c. c \<in> set cs \<Longrightarrow> SelectorNode (node_path p c) \<in> set (zl_data s)"
    using l by auto
  show ?thesis using new_children_run [OF q zk inv node_kinds(1) [OF n(1)] n(3) [unfolded n(2)]] SelectorIds n(2)
    by (simp add: r_def heard_def)
next
  case (RuleIds p cs)
  then obtain n where n: "name_ok n" "p = buildRuleParentPath n" "\<And>c. c \<in> set cs \<Longrightarrow> RuleNode (node_path p c) \<in> set (zl_data s)"
    using l by auto
  show ?thesis using new_children_run [OF q zk inv node_kinds(2) [OF n(1)] n(3) [unfolded n(2)]] RuleIds n(2)
    by (simp add: r_def heard_def)
next
  case (AuthKeys cs)
  then have "\<And>c. c \<in> set cs \<Longrightarrow> AuthNode (node_path APP_AUTH_PARENT c) \<in> set (zl_data s)" using l by auto
  from new_children_run [OF q zk inv node_kinds(3) this] AuthKeys show ?thesis by (simp add: r_def heard_def)
next
  case (MetaPaths cs)
  then have "\<And>c. c \<in> set cs \<Longrightarrow> MetaNode (node_path META_DATA_PARENT c) \<in> set (zl_data s)" using l by auto
  from new_children_run [OF q zk inv node_kinds(4) this] MetaPaths show ?thesis by (simp add: r_def heard_def)
qed

lemma child_event:
  assumes q: "quiet hm" and zk: "zk_documented zk" and inv: "zk_inv zk owner s"
  shows "grows zk owner s (zk_child_event hm zk p s)"
    "l \<in> set (zl_children s) \<Longrightarrow> cl_path l = p \<Longrightarrow> heard zk owner l (zk_child_event hm zk p s)"
proof -
  let ?ls = "filter (\<lambda>l. cl_path l = p) (zl_children s)"
  have run: "grows zk owner s' (quietly_run (\<lambda>s. handle_children hm zk l (zk_getChildren zk p (zl_tree s)) s) s')
      \<and> heard zk owner l (quietly_run (\<lambda>s. handle_children hm zk l (zk_getChildren zk p (zl_tree s)) s) s')"
    if "l \<in> set ?ls" "grows zk owner s s'" for l s'
  proof -
    have "child_ok (set (zl_data s')) l" using inv that child_ok_mono [of "set (zl_data s)" l] unfolding zk_inv_def grows_def by auto
    from handle_children_run [OF q zk grows_inv [OF that(2)] this] show ?thesis using that(1) by (simp add: quietly_run_def)
  qed
  show "grows zk owner s (zk_child_event hm zk p s)" unfolding zk_child_event_def
    using run by (intro fold_grows inv) blast
  show "heard zk owner l (zk_child_event hm zk p s)" if "l \<in> set (zl_children s)" "cl_path l = p" unfolding zk_child_event_def
    by (rule fold_brings [of ?ls zk owner s _ l, OF _ inv _ lasting_heard]) (use run that in auto)
qed

lemma data_event:
  assumes q: "quiet hm" and zk: "zk_documented zk" and inv: "zk_inv zk owner s"
  shows "grows zk owner s (zk_data_event hm zk p s)"
    "proper owner k \<Longrightarrow> listener_of k \<in> set (zl_data s) \<Longrightarrow> covers zk k (zk_data_event hm zk (path_of k) s)"
proof -
  let ?f = "\<lambda>p l. quietly_run (\<lambda>s. on_gateway (handle_data hm l
      (if zk_exists zk p (zl_tree s) then Some (zk_readData zk p (zl_tree s)) else None)) s)"
  have run: "grows zk owner s' (?f p l s') \<and> (\<forall>k. proper owner k \<and> p = path_of k \<longrightarrow> covers zk k (?f p l s'))"
    if l: "l \<in> set (filter (\<lambda>l. dl_path l = p) (zl_data s))" and g: "grows zk owner s s'" for p l s'
  proof -
    obtain k where k: "proper owner k" "l = listener_of k" using inv l unfolding zk_inv_def by auto
    then have p: "p = path_of k" using l by (simp add: path_of_def)
    have "listener_of k \<in> set (zl_data s')" using g l k(2) unfolding grows_def by auto
    note called = listener_called [OF q zk k(1) grows_inv [OF g] this]
    have f: "?f p l s' = fst (on_gateway (handle_data hm (listener_of k) (node_value zk (path_of k) (zl_tree s'))) s')"
      by (simp add: quietly_run_def node_value_def p k(2))
    have "covers zk k (?f p l s')" using called(3) \<open>listener_of k \<in> set (zl_data s')\<close> unfolding f by (simp add: covers_def on_gateway_parts)
    moreover have "k' = k" if "proper owner k'" "p = path_of k'" for k' using path_of_inj [OF that(1) k(1)] that(2) p by simp
    ultimately show ?thesis using called(2) unfolding f by blast
  qed
  show "grows zk owner s (zk_data_event hm zk p s)" unfolding zk_data_event_def using run by (intro fold_grows inv) blast
  show "covers zk k (zk_data_event hm zk (path_of k) s)" if k: "proper owner k" "listener_of k \<in> set (zl_data s)"
  proof -
    let ?ls = "filter (\<lambda>l. dl_path l = path_of k) (zl_data s)"
    have mem: "listener_of k \<in> set ?ls" using k(2) by (simp add: path_of_def)
    have grow: "grows zk owner s' (?f (path_of k) l s')" if "l \<in> set ?ls" "grows zk owner s s'" for l s' using run [OF that] by blast
    have cov: "covers zk k (?f (path_of k) (listener_of k) s')" if "grows zk owner s s'" for s' using run [OF mem that] k(1) by blast
    show ?thesis unfolding zk_data_event_def
      by (rule fold_brings [of ?ls zk owner s "?f (path_of k)" "listener_of k" "covers zk k",
            OF grow inv mem lasting_covers [OF k(1)] cov])
  qed
qed

end
