(* ===== verification/ZooTree.thy ===== *)
theory ZooTree
  imports ZooSync "HOL-Library.AList"
begin

text \<open>A tree of nodes in memory does what is documented of \<open>ZkClient\<close> and its server.\<close>

type_synonym zk_tree = "(string \<times> zk_data option) list"

definition tree_has :: "string \<Rightarrow> zk_tree \<Rightarrow> bool" where
  "tree_has p t \<longleftrightarrow> p \<in> set (map fst t)"

definition ancestors :: "string \<Rightarrow> string list" where
  "ancestors q = map (\<lambda>i. take i q) (filter (\<lambda>i. q ! i = CHR ''/'') [1..<length q])"

definition tree_create :: "string \<Rightarrow> zk_tree \<Rightarrow> zk_tree" where
  "tree_create q t = t @ map (\<lambda>p. (p, None)) (filter (\<lambda>p. \<not> tree_has p t) (ancestors q @ [q]))"

definition tree_read :: "string \<Rightarrow> zk_tree \<Rightarrow> zk_data option" where
  "tree_read p t = (case map_of t p of Some d \<Rightarrow> d | None \<Rightarrow> None)"

definition tree_children :: "string \<Rightarrow> zk_tree \<Rightarrow> string list" where
  "tree_children q t = remdups (filter (\<lambda>n. n \<noteq> [] \<and> CHR ''/'' \<notin> set n)
     (map (\<lambda>p. drop (length q + 1) p) (filter (\<lambda>p. prefix (q @ ''/'') p) (map fst t))))"

definition tree_client :: "zk_tree zk_client" where
  "tree_client = \<lparr>zk_exists = tree_has, zk_createPersistent = tree_create, zk_writeData = (\<lambda>p d. AList.update p (Some d)),
     zk_delete = (\<lambda>q. filter (\<lambda>n. fst n \<noteq> q)), zk_deleteRecursive = (\<lambda>q. filter (\<lambda>n. fst n \<noteq> q \<and> \<not> below q (fst n))),
     zk_getChildren = tree_children, zk_readData = tree_read\<rparr>"

lemma ancestors_below: "p \<in> set (ancestors q) \<longleftrightarrow> p \<noteq> [] \<and> below p q"
proof
  assume "p \<in> set (ancestors q)"
  then obtain i where i: "1 \<le> i" "i < length q" "q ! i = CHR ''/''" "p = take i q" by (auto simp: ancestors_def)
  then have "q = p @ ''/'' @ drop (Suc i) q" using id_take_nth_drop [OF i(2)] by simp
  then show "p \<noteq> [] \<and> below p q" using i by (auto simp: below_def prefix_def)
next
  assume p: "p \<noteq> [] \<and> below p q"
  then obtain r where "q = p @ CHR ''/'' # r" by (auto simp: below_def prefix_def)
  then have "1 \<le> length p" "length p < length q" "q ! length p = CHR ''/''" "take (length p) q = p"
    using p by (auto simp: Suc_le_eq)
  then show "p \<in> set (ancestors q)" unfolding ancestors_def by force
qed

lemma map_of_filter_fst: "map_of (filter (\<lambda>n. P (fst n)) t) p = (if P p then map_of t p else None)"
  by (induction t) auto

lemma tree_children_set: "n \<in> set (tree_children q t) \<longleftrightarrow> n \<noteq> [] \<and> CHR ''/'' \<notin> set n \<and> tree_has (node_path q n) t"
proof -
  have "n \<in> (\<lambda>p. drop (length q + 1) p) ` {p \<in> fst ` set t. prefix (q @ ''/'') p} \<longleftrightarrow> node_path q n \<in> fst ` set t"
  proof
    assume "n \<in> (\<lambda>p. drop (length q + 1) p) ` {p \<in> fst ` set t. prefix (q @ ''/'') p}"
    then obtain p where p: "p \<in> fst ` set t" "prefix (q @ ''/'') p" "n = drop (length q + 1) p" by blast
    then have "p = node_path q n" by (auto simp: prefix_def node_path_def)
    then show "node_path q n \<in> fst ` set t" using p(1) by simp
  next
    assume "node_path q n \<in> fst ` set t"
    moreover have "prefix (q @ ''/'') (node_path q n)" "n = drop (length q + 1) (node_path q n)" by (simp_all add: node_path_def)
    ultimately show "n \<in> (\<lambda>p. drop (length q + 1) p) ` {p \<in> fst ` set t. prefix (q @ ''/'') p}" by blast
  qed
  then show ?thesis by (auto simp: tree_children_def tree_has_def)
qed

lemma tree_client_documented: "zk_documented tree_client"
proof -
  have create: "tree_has p (tree_create q t) \<longleftrightarrow> tree_has p t \<or> p = q \<or> p \<noteq> [] \<and> below p q" for p q t
    by (auto simp: tree_create_def tree_has_def ancestors_below [symmetric] image_Un)
  have created: "tree_read p (tree_create q t) = tree_read p t" for p q t
  proof -
    have blank: "map_of (map (\<lambda>p. (p, None)) ps) p = Some v \<Longrightarrow> v = None" for ps and v :: "zk_data option" by (auto dest: map_of_SomeD)
    show ?thesis by (auto simp: tree_read_def tree_create_def map_add_def simp del: map_append filter_append split: option.splits dest: blank)
  qed
  have updated: "tree_has p (AList.update q v t) \<longleftrightarrow> tree_has p t \<or> p = q"
    "tree_read p (AList.update q v t) = (if p = q then v else tree_read p t)" for p q v t
    by (auto simp: tree_has_def tree_read_def update_conv' dom_update simp flip: dom_map_of_conv_image_fst)
  have absent: "\<not> tree_has p t \<Longrightarrow> tree_read p t = None" for p t
    using map_of_eq_None_iff [of t p] by (simp add: tree_has_def tree_read_def)
  have deleted: "tree_read p (filter (\<lambda>n. fst n \<noteq> q) t) = (if p = q then None else tree_read p t)"
    "tree_read p (filter (\<lambda>n. fst n \<noteq> q \<and> \<not> below q (fst n)) t) = (if p = q \<or> below q p then None else tree_read p t)" for p q t
    using map_of_filter_fst [of "\<lambda>n. n \<noteq> q" t p] map_of_filter_fst [of "\<lambda>n. n \<noteq> q \<and> \<not> below q n" t p]
    by (simp_all add: tree_read_def)
  show ?thesis unfolding zk_documented_def tree_client_def
    by (auto simp: create created updated absent tree_children_set deleted) (auto simp: tree_has_def)
qed

end
