(* ===== verification/ZooAdmin.thy ===== *)
theory ZooAdmin
  imports ZooCalls ZooTree
begin

text \<open>
  The admin's ZooKeeper listener one operation of the client at a time, so that a gateway can be told of a change between
  any two, and what is in the nodes when an event is through: what the event says.
\<close>

subsection \<open>The operations of an event\<close>

datatype zk_op = Make string | Write string zk_data | Delete string | DeleteTree string

definition write_node :: "'z zk_client \<Rightarrow> string \<Rightarrow> zk_data \<Rightarrow> 'z \<Rightarrow> 'z" where
  "write_node zk p d z = (if zk_exists zk p z then zk_writeData zk p d z else z)"

fun apply_op :: "'z zk_client \<Rightarrow> zk_op \<Rightarrow> 'z \<Rightarrow> 'z" where
  "apply_op zk (Make p) z = ensure zk p z"
| "apply_op zk (Write p d) z = write_node zk p d z"
| "apply_op zk (Delete p) z = delete_node zk p z"
| "apply_op zk (DeleteTree p) z = delete_tree zk p z"

text \<open>The rows of an event, as they go into nodes.\<close>

fun rows_data :: "config_rows \<Rightarrow> zk_data list" where
  "rows_data (PluginRows ds) = map ZPlugin ds"
| "rows_data (SelectorRows ds) = map (\<lambda>d. ZSelector (the d)) ds"
| "rows_data (RuleRows ds) = map (\<lambda>d. ZRule (the d)) ds"
| "rows_data (AuthRows ds) = map ZAuth ds"
| "rows_data (MetaRows ds) = map (\<lambda>d. ZMeta (the d)) ds"

text \<open>An event the listener takes: no null among the rows, and a refresh of selectors or rules has a first row.\<close>

fun acceptable :: "data_event \<Rightarrow> bool" where
  "acceptable (DataChangedEvent ty (SelectorRows ds)) = (None \<notin> set ds \<and> (ty = EV_REFRESH \<longrightarrow> ds \<noteq> []))"
| "acceptable (DataChangedEvent ty (RuleRows ds)) = (None \<notin> set ds \<and> (ty = EV_REFRESH \<longrightarrow> ds \<noteq> []))"
| "acceptable (DataChangedEvent ty (MetaRows ds)) = (None \<notin> set ds)"
| "acceptable (DataChangedEvent ty rows) = True"

definition put_ops :: "zk_data \<Rightarrow> zk_op list" where
  "put_ops d = [Make (path_of (key_of_data d)), Write (path_of (key_of_data d)) d]"

fun row_ops :: "data_event_type \<Rightarrow> zk_data \<Rightarrow> zk_op list" where
  "row_ops ty (ZPlugin d) =
     (if ty = EV_DELETE then [DeleteTree (buildPluginPath (pd_name d)), DeleteTree (buildSelectorParentPath (pd_name d)),
        DeleteTree (buildRuleParentPath (pd_name d))]
      else put_ops (ZPlugin d))"
| "row_ops ty (ZSelector d) =
     (if ty = EV_DELETE then [Delete (path_of (key_of_data (ZSelector d)))]
      else Make (buildSelectorParentPath (sd_pluginName d)) # put_ops (ZSelector d))"
| "row_ops ty (ZRule d) =
     (if ty = EV_DELETE then [Delete (path_of (key_of_data (ZRule d)))]
      else Make (buildRuleParentPath (rd_pluginName d)) # put_ops (ZRule d))"
| "row_ops ty d = (if ty = EV_DELETE then [Delete (path_of (key_of_data d))] else put_ops d)"

fun clear_ops :: "data_event_type \<Rightarrow> zk_data list \<Rightarrow> zk_op list" where
  "clear_ops ty (ZSelector d # ds) = (if ty = EV_REFRESH then [DeleteTree (buildSelectorParentPath (sd_pluginName d))] else [])"
| "clear_ops ty (ZRule d # ds) = (if ty = EV_REFRESH then [DeleteTree (buildRuleParentPath (rd_pluginName d))] else [])"
| "clear_ops ty ds = []"

definition event_ops :: "data_event \<Rightarrow> zk_op list" where
  "event_ops e = (let ds = rows_data (event_rows e)
     in clear_ops (event_type e) ds @ concat (map (row_ops (event_type e)) ds))"

lemma ensured: "zk_documented zk \<Longrightarrow> zk_exists zk p (ensure zk p z)"
  by (simp add: ensure_def zk_documented_def)

lemma create_or_write_ops:
  "zk_documented zk \<Longrightarrow> create_or_write zk (path_of (key_of_data d)) d z = fold (apply_op zk) (put_ops d) z"
  by (simp add: create_or_write_def put_ops_def write_node_def ensured)

lemma each_ops:
  assumes "\<And>x z. x \<in> set xs \<Longrightarrow> f x z = (fold (apply_op zk) (ops x) z, None)"
  shows "each f xs z = (fold (apply_op zk) (concat (map ops xs)) z, None)"
  using assms by (induction xs arbitrary: z) simp_all

lemma path_builders:
  "buildPluginPath (pd_name p) = path_of (key_of_data (ZPlugin p))"
  "buildSelectorRealPath (sd_pluginName s) (sd_id s) = path_of (key_of_data (ZSelector s))"
  "buildRulePath (rd_pluginName r) (rd_selectorId r) (rd_id r) = path_of (key_of_data (ZRule r))"
  "buildAppAuthPath (aa_appKey a) = path_of (key_of_data (ZAuth a))"
  "buildMetaDataPath (url_encode (md_path m)) = path_of (key_of_data (ZMeta m))"
  by (simp_all add: path_of_def)

lemma clear_first_ops:
  assumes "None \<notin> set ds" "ty = EV_REFRESH \<longrightarrow> ds \<noteq> []"
  shows "clear_first zk parentPath plugin ty ds z
    = (if ty = EV_REFRESH then delete_tree zk (parentPath (plugin (the (hd ds)))) z else z, None)"
  using assms by (cases ds; cases "hd ds") (auto simp: clear_first_def nullable_def)

lemma zk_listener_ops:
  assumes zk: "zk_documented zk" and e: "acceptable e"
  shows "zk_listener zk e z = (fold (apply_op zk) (event_ops e) z, None)"
proof -
  obtain ty rows where er: "e = DataChangedEvent ty rows" by (cases e)
  note c = create_or_write_ops [OF zk, where d = "ZPlugin x" for x, simplified] create_or_write_ops [OF zk, where d = "ZSelector x" for x, simplified]
    create_or_write_ops [OF zk, where d = "ZRule x" for x, simplified] create_or_write_ops [OF zk, where d = "ZAuth x" for x, simplified]
    create_or_write_ops [OF zk, where d = "ZMeta x" for x, simplified] path_builders
  have the: "nullable f x z = f (the x) z" if "x \<in> set xs" "None \<notin> set xs" for f :: "'c \<Rightarrow> 'a updates" and x xs z
    using that by (auto simp: nullable_def split: option.splits)
  show ?thesis
  proof (cases rows)
    case (PluginRows ds)
    have "zk_onPluginChanged zk ty ds z = (fold (apply_op zk) (concat (map (\<lambda>d. row_ops ty (ZPlugin d)) ds)) z, None)"
      unfolding zk_onPluginChanged_def by (rule each_ops) (simp add: c)
    then show ?thesis unfolding er PluginRows by (cases ds) (simp_all add: event_ops_def comp_def)
  next
    case (SelectorRows ds)
    then have a: "None \<notin> set ds" "ty = EV_REFRESH \<longrightarrow> ds \<noteq> []" using e er by simp_all
    have rows: "each (nullable (\<lambda>d z. (if ty = EV_DELETE then zk_deleteSelector zk d z else createSelector zk d z, None))) ds z
      = (fold (apply_op zk) (concat (map (\<lambda>d. row_ops ty (ZSelector (the d))) ds)) z, None)" for z
      by (rule each_ops) (simp add: the [OF _ a(1)] zk_deleteSelector_def createSelector_def c)
    have clear: "clear_ops ty (map (\<lambda>d. ZSelector (the d)) ds)
      = (if ty = EV_REFRESH then [DeleteTree (buildSelectorParentPath (sd_pluginName (the (hd ds))))] else [])"
      using a(2) by (cases ds) simp_all
    show ?thesis unfolding er SelectorRows
      by (simp add: zk_onSelectorChanged_def event_ops_def and_then_def clear_first_ops [OF a] rows clear comp_def)
  next
    case (RuleRows ds)
    then have a: "None \<notin> set ds" "ty = EV_REFRESH \<longrightarrow> ds \<noteq> []" using e er by simp_all
    have rows: "each (nullable (\<lambda>d z.
        let rulePath = buildRulePath (rd_pluginName d) (rd_selectorId d) (rd_id d)
        in (if ty = EV_DELETE then delete_node zk rulePath z
            else create_or_write zk rulePath (ZRule d) (ensure zk (buildRuleParentPath (rd_pluginName d)) z), None))) ds z
      = (fold (apply_op zk) (concat (map (\<lambda>d. row_ops ty (ZRule (the d))) ds)) z, None)" for z
      by (rule each_ops) (simp add: the [OF _ a(1)] c Let_def)
    have clear: "clear_ops ty (map (\<lambda>d. ZRule (the d)) ds)
      = (if ty = EV_REFRESH then [DeleteTree (buildRuleParentPath (rd_pluginName (the (hd ds))))] else [])"
      using a(2) by (cases ds) simp_all
    show ?thesis unfolding er RuleRows
      by (simp add: zk_onRuleChanged_def event_ops_def and_then_def clear_first_ops [OF a] rows clear comp_def)
  next
    case (AuthRows ds)
    have "zk_onAppAuthChanged zk ty ds z = (fold (apply_op zk) (concat (map (\<lambda>d. row_ops ty (ZAuth d)) ds)) z, None)"
      unfolding zk_onAppAuthChanged_def by (rule each_ops) (simp add: c Let_def)
    then show ?thesis unfolding er AuthRows by (cases ds) (simp_all add: event_ops_def comp_def)
  next
    case (MetaRows ds)
    then have a: "None \<notin> set ds" using e er by simp
    have "zk_onMetaDataChanged zk ty ds z = (fold (apply_op zk) (concat (map (\<lambda>d. row_ops ty (ZMeta (the d))) ds)) z, None)"
      unfolding zk_onMetaDataChanged_def by (rule each_ops) (simp add: the [OF _ a] c Let_def)
    then show ?thesis unfolding er MetaRows by (cases ds) (simp_all add: event_ops_def comp_def)
  qed
qed

subsection \<open>What an operation does to the nodes\<close>

type_synonym node_values = "zk_key \<Rightarrow> zk_data option option"

definition nodes_hold :: "'z zk_client \<Rightarrow> (string \<Rightarrow> string) \<Rightarrow> 'z \<Rightarrow> node_values \<Rightarrow> bool" where
  "nodes_hold zk owner z v \<longleftrightarrow> tree_ok zk owner z \<and> (\<forall>k. proper owner k \<longrightarrow> node_value zk (path_of k) z = v k)"

fun value_change :: "zk_op \<Rightarrow> node_values \<Rightarrow> node_values" where
  "value_change (Make p) v = (\<lambda>k. if path_of k = p \<and> v k = None then Some None else v k)"
| "value_change (Write p d) v = (\<lambda>k. if path_of k = p \<and> v k \<noteq> None then Some (Some d) else v k)"
| "value_change (Delete p) v = (\<lambda>k. if path_of k = p then None else v k)"
| "value_change (DeleteTree p) v = (\<lambda>k. if path_of k = p \<or> key_parent k = p then None else v k)"

fun op_ok :: "(string \<Rightarrow> string) \<Rightarrow> zk_op \<Rightarrow> bool" where
  "op_ok owner (Make p) = (p \<in> places owner)"
| "op_ok owner (Write p d) = (proper owner (key_of_data d) \<and> p = path_of (key_of_data d))"
| "op_ok owner (Delete p) = (\<exists>k. proper owner k \<and> p = path_of k)"
| "op_ok owner (DeleteTree p) = (p \<in> places owner)"

lemma node_slashes: "proper owner k \<Longrightarrow> 3 \<le> count_list (path_of k) (CHR ''/'')"
  using watched_slashes [OF key_parent_watched [of owner k]] by (simp add: path_of_node node_path_def)

lemma node_not_watched: "proper owner k \<Longrightarrow> e \<in> watched \<Longrightarrow> path_of k \<noteq> e"
  using watched_apart(1) [OF key_parent_watched [of owner k], of e "key_leaf k"] key_leaf_ok [of owner k]
  by (simp add: path_of_node name_ok_def)

text \<open>No place is above a watched parent.\<close>

lemma place_not_above:
  assumes "q \<in> places owner" "e \<in> watched"
  shows "\<not> below q e"
proof
  assume below: "below q e"
  obtain base leaf where e: "e = node_path base leaf" "base \<notin> watched" "CHR ''/'' \<notin> set leaf" "count_list e (CHR ''/'') \<le> 3"
    using watched_split [OF assms(2)] .
  have two: "count_list base (CHR ''/'') \<le> 2" using e(4) unfolding e(1) by (simp add: node_path_def)
  from below_node [OF below [unfolded e(1)] e(3)] show False
  proof
    assume "q = base"
    then show False using e(2) assms(1) node_slashes [of owner] two by (force simp: places_def)
  next
    assume "below q base"
    then obtain r where "base = q @ CHR ''/'' # r" by (auto simp: below_def prefix_def)
    then show False using places_slashes [OF assms(1)] two by simp
  qed
qed

lemma node_below:
  assumes "proper owner k" "q \<in> places owner"
  shows "below q (path_of k) \<longleftrightarrow> key_parent k = q"
proof
  assume "below q (path_of k)"
  then show "key_parent k = q"
    using below_node [of q "key_parent k" "key_leaf k"] key_leaf_ok [OF assms(1)]
      place_not_above [OF assms(2) key_parent_watched [OF assms(1)]] by (auto simp: path_of_node name_ok_def)
qed (auto simp: path_of_node below_def node_path_def)

text \<open>What a new place changes: itself, and the children of its parent.\<close>

lemma place_created:
  assumes zk: "zk_documented zk" and e: "e \<in> places owner"
  shows "proper owner k \<Longrightarrow> zk_exists zk (path_of k) (ensure zk e z) \<longleftrightarrow> zk_exists zk (path_of k) z \<or> path_of k = e"
    "q \<in> places owner \<Longrightarrow> c \<in> set (zk_getChildren zk q (ensure zk e z)) \<longleftrightarrow>
       c \<in> set (zk_getChildren zk q z) \<or> name_ok c \<and> node_path q c = e"
    "zk_exists zk q z \<Longrightarrow> zk_exists zk q (ensure zk e z)"
    "zk_readData zk q (ensure zk e z) = zk_readData zk q z"
    "proper owner k \<Longrightarrow> path_of k = e \<Longrightarrow> \<not> zk_exists zk e z \<Longrightarrow> zk_exists zk (key_parent k) (ensure zk e z)"
proof -
  have ex: "zk_exists zk p (ensure zk e z) \<longleftrightarrow> zk_exists zk p z \<or> p = e" if "\<not> below p e" for p
    using zk that by (auto simp: ensure_def zk_documented_def)
  have leaf: "\<not> below (node_path q c) e" if "q \<in> places owner" "name_ok c" for q c
  proof (cases "e \<in> watched")
    case True
    then show ?thesis using place_apart(2) [OF that(1)] that(2) by (simp add: name_ok_def)
  next
    case False
    then obtain k where k: "proper owner k" "e = path_of k" using e by (auto simp: places_def)
    have c: "CHR ''/'' \<notin> set c" using that(2) by (simp add: name_ok_def)
    have "\<not> below (node_path q c) (key_parent k)" "node_path q c \<noteq> key_parent k"
      using place_apart [OF that(1) key_parent_watched [OF k(1)] c] by simp_all
    then show ?thesis using below_node [of "node_path q c" "key_parent k" "key_leaf k"] key_leaf_ok [OF k(1)]
      by (auto simp: k(2) path_of_node name_ok_def)
  qed
  show "zk_exists zk (path_of k) (ensure zk e z) \<longleftrightarrow> zk_exists zk (path_of k) z \<or> path_of k = e" if "proper owner k"
    using ex leaf [OF places_intros(1) [OF key_parent_watched [OF that]] key_leaf_ok [OF that]] by (simp add: path_of_node)
  show "c \<in> set (zk_getChildren zk q (ensure zk e z)) \<longleftrightarrow> c \<in> set (zk_getChildren zk q z) \<or> name_ok c \<and> node_path q c = e"
    if "q \<in> places owner" using ex leaf [OF that] by (auto simp: documented_children [OF zk])
  show "zk_exists zk q z \<Longrightarrow> zk_exists zk q (ensure zk e z)" "zk_readData zk q (ensure zk e z) = zk_readData zk q z"
    using zk by (simp_all add: ensure_def zk_documented_def)
  show "zk_exists zk (key_parent k) (ensure zk e z)" if "proper owner k" "path_of k = e" "\<not> zk_exists zk e z"
  proof -
    have "key_parent k \<noteq> []" using watched_slashes [OF key_parent_watched [OF that(1)]] by auto
    moreover have "below (key_parent k) e" using that(2) by (auto simp: path_of_node below_def node_path_def)
    ultimately show ?thesis using zk that(3) by (simp add: ensure_def zk_documented_def)
  qed
qed

lemma place_child:
  assumes "e \<in> places owner" "q \<in> places owner" "name_ok c" "node_path q c = e"
  obtains k where "proper owner k" "key_parent k = q" "key_leaf k = c" "e = path_of k"
proof -
  have c: "CHR ''/'' \<notin> set c" using assms(3) by (simp add: name_ok_def)
  have "e \<notin> watched" using place_apart(1) [OF assms(2) _ c] assms(4) by blast
  then obtain k where k: "proper owner k" "e = path_of k" using assms(1) by (auto simp: places_def)
  then have "node_path q c = node_path (key_parent k) (key_leaf k)" "CHR ''/'' \<notin> set (key_leaf k)"
    using assms(4) key_leaf_ok [OF k(1)] by (simp_all add: path_of_node name_ok_def)
  then have "key_parent k = q" "key_leaf k = c" using c by (auto simp: node_path_inj)
  then show thesis using that k by blast
qed

lemma rule_child: "proper owner k \<Longrightarrow> key_parent k = buildRuleParentPath n \<Longrightarrow> \<exists>s i. key_leaf k = s @ SELECTOR_JOIN_RULE # i \<and> proper owner (KRule n s i)"
  using parents_distinct parents_distinct [symmetric] by (cases k) auto

lemma meta_child: "proper owner k \<Longrightarrow> key_parent k = META_DATA_PARENT \<Longrightarrow> \<exists>p. p \<noteq> [] \<and> key_leaf k = url_encode p"
  using parents_distinct parents_distinct [symmetric] by (cases k) auto

lemma tree_ok_facts:
  assumes "tree_ok zk owner z" and "proper owner k"
  shows "zk_exists zk (path_of k) z \<Longrightarrow> zk_exists zk (key_parent k) z" "zk_getChildren zk (path_of k) z = []"
proof -
  have "set (zk_getChildren zk (path_of k) z) = {}" using assms unfolding tree_ok_def by metis
  then show "zk_getChildren zk (path_of k) z = []" by simp
qed (use assms in \<open>simp add: tree_ok_def\<close>)

lemma tree_ok_made:
  assumes zk: "zk_documented zk" and ok: "tree_ok zk owner z" and e: "e \<in> places owner"
  shows "tree_ok zk owner (ensure zk e z)"
proof -
  note made = place_created [OF zk e, where z = z]
  have child: "c \<in> set (zk_getChildren zk q z) \<or> (\<exists>k. proper owner k \<and> key_parent k = q \<and> key_leaf k = c)"
    if "c \<in> set (zk_getChildren zk q (ensure zk e z))" "q \<in> places owner" for c q
    using made(2) [OF that(2)] that place_child [OF e that(2)] by metis
  have "zk_exists zk (key_parent k) (ensure zk e z)" if k: "proper owner k" "zk_exists zk (path_of k) (ensure zk e z)" for k
  proof (cases "zk_exists zk (path_of k) z")
    case True
    then have "zk_exists zk (key_parent k) z" using ok k(1) unfolding tree_ok_def by blast
    then show ?thesis using made(3) by blast
  next
    case False
    then show ?thesis using made(1) [OF k(1)] made(5) [OF k(1)] k(2) by auto
  qed
  moreover have "set (zk_getChildren zk (path_of k) (ensure zk e z)) = {}" if "proper owner k" for k
  proof -
    have "set (zk_getChildren zk (path_of k) z) = {}" using tree_ok_facts(2) [OF ok that] by simp
    moreover have "key_parent k' \<noteq> path_of k" if "proper owner k'" for k'
      using node_not_watched [OF \<open>proper owner k\<close> key_parent_watched [OF that]] by simp
    ultimately show ?thesis using child [OF _ places_intros(2) [OF that]] by (intro equals0I) auto
  qed
  moreover have "\<exists>s i. c = s @ SELECTOR_JOIN_RULE # i \<and> proper owner (KRule n s i)"
    if "name_ok n" "c \<in> set (zk_getChildren zk (buildRuleParentPath n) (ensure zk e z))" for n c
  proof -
    have "buildRuleParentPath n \<in> places owner" using that(1) places_intros(1) by (auto simp: watched_def)
    from child [OF that(2) this] show ?thesis using ok that(1) rule_child unfolding tree_ok_def by metis
  qed
  moreover have "\<exists>p. p \<noteq> [] \<and> c = url_encode p" if "c \<in> set (zk_getChildren zk META_DATA_PARENT (ensure zk e z))" for c
  proof -
    have "META_DATA_PARENT \<in> places owner" using places_intros(1) by (auto simp: watched_def)
    from child [OF that this] show ?thesis using ok meta_child unfolding tree_ok_def by metis
  qed
  ultimately show ?thesis using ok made(4) unfolding tree_ok_def by simp
qed

text \<open>Writing and deleting bring no node about.\<close>

lemma tree_ok_shrunk:
  assumes zk: "zk_documented zk" and ok: "tree_ok zk owner z"
    and ex: "\<And>p. zk_exists zk p z' \<Longrightarrow> zk_exists zk p z"
    and data: "\<And>p d. zk_readData zk p z' = Some d \<Longrightarrow> proper owner (key_of_data d) \<and> p = path_of (key_of_data d)"
    and parents: "\<And>k. proper owner k \<Longrightarrow> zk_exists zk (path_of k) z' \<Longrightarrow> zk_exists zk (key_parent k) z'"
  shows "tree_ok zk owner z'"
proof -
  have child: "c \<in> set (zk_getChildren zk q z)" if "c \<in> set (zk_getChildren zk q z')" for c q
    using that ex by (auto simp: documented_children [OF zk])
  have "set (zk_getChildren zk (path_of k) z') = {}" if "proper owner k" for k
    using tree_ok_facts(2) [OF ok that] child [of _ "path_of k"] by (intro equals0I) auto
  then show ?thesis using ok child data parents unfolding tree_ok_def by blast
qed

lemma write_exists:
  assumes zk: "zk_documented zk"
  shows "zk_exists zk p (write_node zk q d z) = zk_exists zk p z"
    "zk_readData zk p (write_node zk q d z) = (if p = q \<and> zk_exists zk q z then Some d else zk_readData zk p z)"
  using zk by (simp_all add: write_node_def zk_documented_def)

lemma tree_ok_written:
  assumes zk: "zk_documented zk" and ok: "tree_ok zk owner z" and d: "proper owner (key_of_data d)"
  shows "tree_ok zk owner (write_node zk (path_of (key_of_data d)) d z)"
  by (rule tree_ok_shrunk [OF zk ok]) (use d ok in \<open>auto simp: tree_ok_def write_exists [OF zk] split: if_splits\<close>)

lemma delete_exists:
  assumes zk: "zk_documented zk" and ok: "tree_ok zk owner z" and k: "proper owner k"
  shows "zk_exists zk p (delete_node zk (path_of k) z) \<longleftrightarrow> zk_exists zk p z \<and> p \<noteq> path_of k"
    "zk_readData zk p (delete_node zk (path_of k) z) = (if p = path_of k then None else zk_readData zk p z)"
proof -
  have "zk_getChildren zk (path_of k) z = []" by (rule tree_ok_facts(2) [OF ok k])
  then show "zk_exists zk p (delete_node zk (path_of k) z) \<longleftrightarrow> zk_exists zk p z \<and> p \<noteq> path_of k"
    "zk_readData zk p (delete_node zk (path_of k) z) = (if p = path_of k then None else zk_readData zk p z)"
    using zk documented_absent [OF zk, of "path_of k" z] by (auto simp: delete_node_def zk_documented_def)
qed

lemma tree_ok_deleted:
  assumes zk: "zk_documented zk" and ok: "tree_ok zk owner z" and k: "proper owner k"
  shows "tree_ok zk owner (delete_node zk (path_of k) z)"
proof (rule tree_ok_shrunk [OF zk ok])
  note del = delete_exists [OF zk ok k]
  show "zk_exists zk (key_parent k') (delete_node zk (path_of k) z)"
    if "proper owner k'" "zk_exists zk (path_of k') (delete_node zk (path_of k) z)" for k'
    using that ok node_not_watched [OF k key_parent_watched [OF that(1)]] unfolding tree_ok_def del(1) by metis
qed (use delete_exists [OF zk ok k] ok in \<open>auto simp: tree_ok_def split: if_splits\<close>)

lemma delete_tree_exists:
  assumes zk: "zk_documented zk" and ok: "tree_ok zk owner z" and k: "proper owner k" and q: "q \<in> places owner"
  shows "zk_exists zk (path_of k) (delete_tree zk q z) \<longleftrightarrow> zk_exists zk (path_of k) z \<and> path_of k \<noteq> q \<and> key_parent k \<noteq> q"
    "zk_exists zk (path_of k) (delete_tree zk q z) \<Longrightarrow> zk_readData zk (path_of k) (delete_tree zk q z) = zk_readData zk (path_of k) z"
proof -
  have none: "\<not> zk_exists zk q z \<Longrightarrow> key_parent k = q \<Longrightarrow> \<not> zk_exists zk (path_of k) z" using ok k unfolding tree_ok_def by blast
  show "zk_exists zk (path_of k) (delete_tree zk q z) \<longleftrightarrow> zk_exists zk (path_of k) z \<and> path_of k \<noteq> q \<and> key_parent k \<noteq> q"
    using zk none node_below [OF k q] by (auto simp: delete_tree_def zk_documented_def)
  then show "zk_exists zk (path_of k) (delete_tree zk q z) \<Longrightarrow> zk_readData zk (path_of k) (delete_tree zk q z) = zk_readData zk (path_of k) z"
    using zk node_below [OF k q] by (auto simp: delete_tree_def zk_documented_def)
qed

lemma tree_ok_cleared:
  assumes zk: "zk_documented zk" and ok: "tree_ok zk owner z" and q: "q \<in> places owner"
  shows "tree_ok zk owner (delete_tree zk q z)"
proof (cases "zk_exists zk q z")
  case True
  have ex: "zk_exists zk p (zk_deleteRecursive zk q z) \<longleftrightarrow> zk_exists zk p z \<and> p \<noteq> q \<and> \<not> below q p" for p
    using zk by (simp add: zk_documented_def)
  have data: "zk_readData zk p (zk_deleteRecursive zk q z) = (if p = q \<or> below q p then None else zk_readData zk p z)" for p
    using zk by (simp add: zk_documented_def)
  have "tree_ok zk owner (zk_deleteRecursive zk q z)"
  proof (rule tree_ok_shrunk [OF zk ok])
    show "zk_exists zk (key_parent k) (zk_deleteRecursive zk q z)"
      if k: "proper owner k" "zk_exists zk (path_of k) (zk_deleteRecursive zk q z)" for k
    proof -
      have "zk_exists zk (path_of k) z" "\<not> below q (path_of k)" using k(2) unfolding ex by auto
      then have "zk_exists zk (key_parent k) z" "key_parent k \<noteq> q"
        using ok k(1) node_below [OF k(1) q] unfolding tree_ok_def by blast+
      then show ?thesis using place_not_above [OF q key_parent_watched [OF k(1)]] by (simp add: ex)
    qed
  qed (use ex data ok in \<open>auto simp: tree_ok_def split: if_splits\<close>)
  then show ?thesis using True by (simp add: delete_tree_def)
qed (simp add: delete_tree_def ok)

lemma op_nodes:
  assumes zk: "zk_documented zk" and o: "op_ok owner x" and v: "nodes_hold zk owner z v"
  shows "nodes_hold zk owner (apply_op zk x z) (value_change x v)"
proof -
  have ok: "tree_ok zk owner z" and val: "\<And>k. proper owner k \<Longrightarrow> node_value zk (path_of k) z = v k"
    using v by (simp_all add: nodes_hold_def)
  show ?thesis
  proof (cases x)
    case (Make p)
    then have p: "p \<in> places owner" using o by simp
    have "node_value zk (path_of k) (ensure zk p z) = value_change x v k" if "proper owner k" for k
      using place_created(1) [OF zk p that, of z] place_created(4) [OF zk p, of "path_of k" z] documented_absent [OF zk, of "path_of k" z]
        val [OF that] unfolding Make by (auto simp: node_value_def split: if_splits)
    then show ?thesis using tree_ok_made [OF zk ok p] by (simp add: nodes_hold_def Make)
  next
    case (Write p d)
    then have d: "proper owner (key_of_data d)" "p = path_of (key_of_data d)" using o by simp_all
    have "node_value zk (path_of k) (write_node zk p d z) = value_change x v k" if "proper owner k" for k
      unfolding Write by (auto simp: val [OF that, symmetric] node_value_def write_exists [OF zk])
    then show ?thesis using tree_ok_written [OF zk ok d(1)] by (simp add: nodes_hold_def Write d(2))
  next
    case (Delete p)
    then obtain k where k: "proper owner k" "p = path_of k" using o by auto
    have "node_value zk (path_of k') (delete_node zk p z) = value_change x v k'" if "proper owner k'" for k'
      using val [OF that] unfolding Delete k(2) by (simp add: node_value_def delete_exists [OF zk ok k(1)] split: if_splits)
    then show ?thesis using tree_ok_deleted [OF zk ok k(1)] by (simp add: nodes_hold_def Delete k(2))
  next
    case (DeleteTree p)
    then have p: "p \<in> places owner" using o by simp
    have "node_value zk (path_of k) (delete_tree zk p z) = value_change x v k" if "proper owner k" for k
      using val [OF that] delete_tree_exists [OF zk ok that p] unfolding DeleteTree by (auto simp: node_value_def split: if_splits)
    then show ?thesis using tree_ok_cleared [OF zk ok p] by (simp add: nodes_hold_def DeleteTree)
  qed
qed

subsection \<open>What an event says\<close>

type_synonym nodes = "zk_key \<Rightarrow> zk_data option"

fun plugin_of :: "zk_key \<Rightarrow> string option" where
  "plugin_of (KPlugin n) = Some n"
| "plugin_of (KSelector n i) = Some n"
| "plugin_of (KRule n s i) = Some n"
| "plugin_of _ = None"

text \<open>The selectors and rules of a plugin go with it.\<close>

fun goes_with :: "zk_data \<Rightarrow> zk_key \<Rightarrow> bool" where
  "goes_with (ZPlugin d) k = (plugin_of k = Some (pd_name d))"
| "goes_with d k = (k = key_of_data d)"

definition row_says :: "data_event_type \<Rightarrow> zk_data \<Rightarrow> nodes \<Rightarrow> nodes" where
  "row_says ty d m = (if ty = EV_DELETE then (\<lambda>k. if goes_with d k then None else m k) else m(key_of_data d \<mapsto> d))"

text \<open>A refresh begins without the selectors, or rules, of the first row's plugin.\<close>

fun cleared :: "data_event_type \<Rightarrow> zk_data list \<Rightarrow> nodes \<Rightarrow> nodes" where
  "cleared ty (ZSelector d # ds) m = (\<lambda>k. if ty = EV_REFRESH \<and> (\<exists>i. k = KSelector (sd_pluginName d) i) then None else m k)"
| "cleared ty (ZRule d # ds) m = (\<lambda>k. if ty = EV_REFRESH \<and> (\<exists>s i. k = KRule (rd_pluginName d) s i) then None else m k)"
| "cleared ty ds m = m"

definition publish :: "data_event \<Rightarrow> nodes \<Rightarrow> nodes" where
  "publish e m = fold (row_says (event_type e)) (rows_data (event_rows e)) (cleared (event_type e) (rows_data (event_rows e)) m)"

definition publishable :: "(string \<Rightarrow> string) \<Rightarrow> data_event \<Rightarrow> bool" where
  "publishable owner e \<longleftrightarrow> acceptable e \<and> (\<forall>d\<in>set (rows_data (event_rows e)). proper owner (key_of_data d))"

definition full_of :: "(string \<Rightarrow> string) \<Rightarrow> nodes \<Rightarrow> node_values \<Rightarrow> bool" where
  "full_of owner m v \<longleftrightarrow> (\<forall>k. proper owner k \<longrightarrow> v k = map_option Some (m k))"

lemma parent_of_keys:
  "key_parent k = buildSelectorParentPath n \<longleftrightarrow> (\<exists>i. k = KSelector n i)"
  "key_parent k = buildRuleParentPath n \<longleftrightarrow> (\<exists>s i. k = KRule n s i)"
  using parents_distinct parents_distinct [symmetric] by (cases k; auto)+

lemma put_says:
  "proper owner (key_of_data d) \<Longrightarrow> full_of owner m v \<Longrightarrow> full_of owner (m(key_of_data d \<mapsto> d)) (fold value_change (put_ops d) v)"
  using path_of_inj [of owner] by (auto simp: full_of_def put_ops_def)

lemma made_says: "e \<in> watched \<Longrightarrow> full_of owner m v \<Longrightarrow> full_of owner m (value_change (Make e) v)"
  using node_not_watched [of owner _ e] by (simp add: full_of_def)

lemma deleted_says:
  "proper owner k \<Longrightarrow> full_of owner m v \<Longrightarrow> full_of owner (\<lambda>k'. if k' = k then None else m k') (value_change (Delete (path_of k)) v)"
  using path_of_inj [of owner] by (auto simp: full_of_def)

lemma cleared_says:
  "q \<in> watched \<Longrightarrow> full_of owner m v \<Longrightarrow> full_of owner (\<lambda>k. if key_parent k = q then None else m k) (value_change (DeleteTree q) v)"
  using node_not_watched [of owner _ q] by (simp add: full_of_def)

lemma row_watched: "proper owner (key_of_data (ZSelector s)) \<Longrightarrow> buildSelectorParentPath (sd_pluginName s) \<in> watched"
  "proper owner (key_of_data (ZRule r)) \<Longrightarrow> buildRuleParentPath (rd_pluginName r) \<in> watched"
  "proper owner (key_of_data (ZPlugin p)) \<Longrightarrow> buildSelectorParentPath (pd_name p) \<in> watched \<and> buildRuleParentPath (pd_name p) \<in> watched"
  by (auto simp: watched_def)

lemma plugin_gone_says:
  assumes "proper owner (key_of_data (ZPlugin d))" "full_of owner m v"
  shows "full_of owner (\<lambda>k. if goes_with (ZPlugin d) k then None else m k) (fold value_change (row_ops EV_DELETE (ZPlugin d)) v)"
  unfolding full_of_def
proof (intro allI impI)
  fix k assume k: "proper owner k"
  have w: "buildSelectorParentPath (pd_name d) \<in> watched" "buildRuleParentPath (pd_name d) \<in> watched"
    using row_watched(3) [OF assms(1)] by simp_all
  have "key_parent k \<noteq> buildPluginPath (pd_name d)"
    using node_not_watched [OF assms(1) key_parent_watched [OF k]] by (auto simp: path_of_def)
  moreover have "path_of k = buildPluginPath (pd_name d) \<longleftrightarrow> k = KPlugin (pd_name d)"
    using path_of_inj [OF k assms(1)] by (auto simp: path_of_def)
  moreover have "goes_with (ZPlugin d) k \<longleftrightarrow> k = KPlugin (pd_name d) \<or> (\<exists>i. k = KSelector (pd_name d) i) \<or> (\<exists>s i. k = KRule (pd_name d) s i)"
    by (cases k) auto
  ultimately show "fold value_change (row_ops EV_DELETE (ZPlugin d)) v k = map_option Some (if goes_with (ZPlugin d) k then None else m k)"
    using assms(2) k node_not_watched [OF k w(1)] node_not_watched [OF k w(2)] by (simp add: full_of_def parent_of_keys)
qed

lemma row_ops_say:
  assumes "proper owner (key_of_data d)" "full_of owner m v"
  shows "full_of owner (row_says ty d m) (fold value_change (row_ops ty d) v)"
proof (cases "ty = EV_DELETE")
  case True
  then show ?thesis using plugin_gone_says [of owner] deleted_says [OF assms] assms
    by (cases d) (simp_all add: row_says_def del: key_of_data.simps value_change.simps)
next
  case False
  then show ?thesis using put_says [OF assms] put_says [OF assms(1) made_says [OF row_watched(1) assms(2)]]
      put_says [OF assms(1) made_says [OF row_watched(2) assms(2)]] assms(1)
    by (cases d) (simp_all add: row_says_def del: key_of_data.simps value_change.simps)
qed

lemma clear_ops_say:
  assumes "\<forall>d\<in>set ds. proper owner (key_of_data d)" "full_of owner m v"
  shows "full_of owner (cleared ty ds m) (fold value_change (clear_ops ty ds) v)"
proof (cases "(ty, ds, m)" rule: cleared.cases)
  case (1 ty' d ds' m')
  have "buildSelectorParentPath (sd_pluginName d) \<in> watched" by (intro row_watched(1) [of owner d]) (use assms(1) 1 in \<open>simp del: proper.simps key_of_data.simps\<close>)
  from cleared_says [OF this assms(2)] show ?thesis using \<open>(ty, ds, m) = _\<close> assms(2) by (auto simp: parent_of_keys)
next
  case (2 ty' d ds' m')
  have "buildRuleParentPath (rd_pluginName d) \<in> watched" by (intro row_watched(2) [of owner d]) (use assms(1) 2 in \<open>simp del: proper.simps key_of_data.simps\<close>)
  from cleared_says [OF this assms(2)] show ?thesis using \<open>(ty, ds, m) = _\<close> assms(2) by (auto simp: parent_of_keys)
qed (use assms(2) in simp_all)

lemma event_ops_say:
  assumes e: "publishable owner e" and v: "full_of owner m v"
  shows "full_of owner (publish e m) (fold value_change (event_ops e) v)"
proof -
  have "full_of owner (fold (row_says ty) ds m) (fold value_change (concat (map (row_ops ty) ds)) v)"
    if "\<forall>d\<in>set ds. proper owner (key_of_data d)" "full_of owner m v" for ty ds m v
    using that by (induction ds arbitrary: m v) (simp_all add: row_ops_say)
  then show ?thesis using e clear_ops_say [OF _ v] by (simp add: publishable_def event_ops_def publish_def Let_def)
qed

lemma publishable_ops_ok:
  assumes "publishable owner e" and "x \<in> set (event_ops e)"
  shows "op_ok owner x"
proof -
  have w: "q \<in> watched \<Longrightarrow> q \<in> places owner" for q by (rule places_intros(1))
  have node: "proper owner (key_of_data d) \<Longrightarrow> path_of (key_of_data d) \<in> places owner" for d by (rule places_intros(2))
  have put: "x \<in> set (put_ops d) \<Longrightarrow> proper owner (key_of_data d) \<Longrightarrow> op_ok owner x" for d
    using node [of d] by (auto simp: put_ops_def)
  have row: "x \<in> set (row_ops ty d) \<Longrightarrow> proper owner (key_of_data d) \<Longrightarrow> op_ok owner x" for ty d
    using put [of d] node [of d] row_watched [of owner] w path_builders(1)
    by (cases d) (auto simp del: key_of_data.simps split: if_splits)
  have clear: "x \<in> set (clear_ops ty ds) \<Longrightarrow> \<forall>d\<in>set ds. proper owner (key_of_data d) \<Longrightarrow> op_ok owner x" for ty ds
    using row_watched [of owner] w
    by (cases "(ty, ds)" rule: clear_ops.cases) (auto simp del: key_of_data.simps split: if_splits)
  show ?thesis using assms row clear by (auto simp: publishable_def event_ops_def Let_def)
qed

lemma nodes_hold_same:
  assumes "nodes_hold zk owner z v" "same_nodes zk owner z z'"
  shows "nodes_hold zk owner z' v"
proof -
  have "node_value zk (path_of k) z' = node_value zk (path_of k) z" if "proper owner k" for k
    using assms(2) that by (simp add: node_value_def same_nodes_def)
  then show ?thesis using assms(1) same_nodes_ok [OF assms(2)] by (simp add: nodes_hold_def)
qed

lemma events_say:
  "\<forall>e\<in>set es. publishable owner e \<Longrightarrow> full_of owner m v
    \<Longrightarrow> full_of owner (fold publish es m) (fold value_change (concat (map event_ops es)) v)"
  by (induction es arbitrary: m v) (simp_all add: event_ops_say)

subsection \<open>The admin's nodes\<close>

lemma events_nodes:
  assumes "zk_documented zk" and "\<forall>e\<in>set es. publishable owner e" and "nodes_hold zk owner z (\<lambda>k. map_option Some (m k))"
  shows "snd (each (zk_listener zk) es z) = None
    \<and> nodes_hold zk owner (fst (each (zk_listener zk) es z)) (\<lambda>k. map_option Some (fold publish es m k))"
proof -
  have run: "each (zk_listener zk) es z = (fold (apply_op zk) (concat (map event_ops es)) z, None)"
    using assms(2) by (intro each_ops) (auto intro: zk_listener_ops [OF assms(1)] simp: publishable_def)
  have hold: "nodes_hold zk owner (fold (apply_op zk) xs z) (fold value_change xs v)"
    if "\<forall>x\<in>set xs. op_ok owner x" "nodes_hold zk owner z v" for xs z v
    using that by (induction xs arbitrary: z v) (simp_all add: op_nodes [OF assms(1)])
  have "\<forall>x\<in>set (concat (map event_ops es)). op_ok owner x" using assms(2) publishable_ops_ok by auto
  from hold [OF this assms(3)]
  have "nodes_hold zk owner (fst (each (zk_listener zk) es z)) (fold value_change (concat (map event_ops es)) (\<lambda>k. map_option Some (m k)))"
    by (simp add: run)
  moreover have "full_of owner (fold publish es m) (fold value_change (concat (map event_ops es)) (\<lambda>k. map_option Some (m k)))"
    using assms(2) by (rule events_say) (simp add: full_of_def)
  ultimately have "nodes_hold zk owner (fst (each (zk_listener zk) es z)) (\<lambda>k. map_option Some (fold publish es m k))"
    unfolding nodes_hold_def full_of_def by metis
  then show ?thesis by (simp add: run)
qed


definition sample_zk_plugin :: plugin_data where
  "sample_zk_plugin = \<lparr>pd_id = ''1'', pd_name = ''waf'', pd_config = None, pd_role = 0, pd_enabled = True\<rparr>"

definition sample_zk_selector :: selector_data where
  "sample_zk_selector = \<lparr>sd_id = ''9'', sd_pluginId = ''1'', sd_pluginName = ''waf'', sd_name = ''all'', sd_matchMode = 0, sd_type = 0,
     sd_sort = 1, sd_enabled = True, sd_loged = False, sd_continued = True, sd_handle = None, sd_conditionList = None\<rparr>"

definition sample_zk_events :: "data_event list" where
  "sample_zk_events = [PluginChanged EV_CREATE [sample_zk_plugin], SelectorChanged EV_REFRESH [Some sample_zk_selector]]"

definition sample_zk_tree :: zk_tree where
  "sample_zk_tree = fst (each (zk_listener tree_client) sample_zk_events [])"

definition sample_zk_map :: nodes where
  "sample_zk_map = fold publish sample_zk_events Map.empty"

lemma no_nodes: "nodes_hold tree_client owner [] (\<lambda>k. map_option Some (Map.empty k))"
  by (simp add: nodes_hold_def tree_ok_def node_value_def tree_client_def tree_has_def tree_read_def tree_children_def)

lemma sample_publishable: "\<forall>e\<in>set sample_zk_events. publishable (\<lambda>_. ''waf'') e"
  by (simp add: sample_zk_events_def publishable_def sample_zk_plugin_def sample_zk_selector_def name_ok_def)

lemma sample_zk_map_simps: "sample_zk_map (KPlugin ''waf'') = Some (ZPlugin sample_zk_plugin)"
  "sample_zk_map (KSelector ''waf'' ''9'') = Some (ZSelector sample_zk_selector)"
  by (simp_all add: sample_zk_map_def sample_zk_events_def publish_def row_says_def sample_zk_plugin_def sample_zk_selector_def)

lemma sample_nodes: "nodes_hold tree_client (\<lambda>_. ''waf'') sample_zk_tree (\<lambda>k. map_option Some (sample_zk_map k))"
  using events_nodes [OF tree_client_documented sample_publishable no_nodes] by (simp add: sample_zk_tree_def sample_zk_map_def)


end
