(* ===== verification/ZooStarts.thy ===== *)
theory ZooStarts
  imports ZooAdmin
begin

text \<open>
  A gateway that starts over ZooKeeper: what it has read and listens to when its constructor is through.
\<close>

subsection \<open>A gateway that has nothing to wait for\<close>

definition settled :: "'z zk_client \<Rightarrow> (string \<Rightarrow> string) \<Rightarrow> ('z, 'h) zk_link \<Rightarrow> bool" where
  "settled zk owner s \<longleftrightarrow> zk_inv zk owner s
     \<and> (\<forall>k. proper owner k \<and> listener_of k \<in> set (zl_data s) \<longrightarrow> accurate zk s k)
     \<and> (\<forall>n. name_ok n \<and> zk_exists zk (path_of (KPlugin n)) (zl_tree s) \<longrightarrow> attends zk owner n s)
     \<and> PluginNames \<in> set (zl_children s) \<and> (\<exists>cs. AuthKeys cs \<in> set (zl_children s)) \<and> (\<exists>cs. MetaPaths cs \<in> set (zl_children s))
     \<and> (\<forall>k. proper owner k \<and> key_parent k \<in> {APP_AUTH_PARENT, META_DATA_PARENT} \<and> zk_exists zk (path_of k) (zl_tree s)
          \<longrightarrow> listener_of k \<in> set (zl_data s))"

text \<open>Selectors and rules are read when their plugin has a node.\<close>

fun known :: "'z zk_client \<Rightarrow> 'z \<Rightarrow> zk_key \<Rightarrow> bool" where
  "known zk z (KSelector n i) = zk_exists zk (buildPluginPath n) z"
| "known zk z (KRule n s i) = zk_exists zk (buildPluginPath n) z"
| "known zk z k = True"

text \<open>The caches have what the node has, unless the node is there without data.\<close>

definition right :: "'z zk_client \<Rightarrow> 'z \<Rightarrow> 'h gateway \<Rightarrow> zk_key \<Rightarrow> bool" where
  "right zk z g k \<longleftrightarrow> node_value zk (path_of k) z \<noteq> Some None \<longrightarrow> held g k = set_option (zk_readData zk (path_of k) z)"

lemma settled_right:
  assumes zk: "zk_documented zk" and s: "settled zk owner s" and k: "proper owner k" "known zk (zl_tree s) k"
  shows "right zk (zl_tree s) (zl_gateway s) k"
proof (cases "listener_of k \<in> set (zl_data s)")
  case True
  then have "accurate zk s k" using s k(1) by (simp add: settled_def)
  then show ?thesis by (auto simp: accurate_def right_def)
next
  case False
  then have "held (zl_gateway s) k = {}" using s k(1) unfolding settled_def zk_inv_def by blast
  moreover have "\<not> zk_exists zk (path_of k) (zl_tree s)"
  proof
    assume ex: "zk_exists zk (path_of k) (zl_tree s)"
    have att: "attends zk owner n s" if "name_ok n" "zk_exists zk (buildPluginPath n) (zl_tree s)" for n
      using s that by (simp add: settled_def path_of_def)
    have "listener_of k \<in> set (zl_data s)"
    proof (cases k)
      case (KPlugin n)
      then show ?thesis using att [of n] k(1) ex by (simp add: attends_def path_of_def)
    next
      case (KSelector n i)
      then show ?thesis using att [of n] k ex unfolding attends_def by (metis insertCI key_parent.simps(2) known.simps(1) proper.simps(2))
    next
      case (KRule n r i)
      then show ?thesis using att [of n] k ex unfolding attends_def by (metis insertCI key_parent.simps(3) known.simps(2) proper.simps(3))
    next
      case (KAuth n)
      then show ?thesis using s k(1) ex unfolding settled_def by (metis insertCI key_parent.simps(4))
    next
      case (KMeta n)
      then show ?thesis using s k(1) ex unfolding settled_def by (metis insertCI key_parent.simps(5))
    qed
    then show False using False by blast
  qed
  then have "zk_readData zk (path_of k) (zl_tree s) = None" by (rule documented_absent [OF zk])
  ultimately show ?thesis by (simp add: right_def)
qed

subsection \<open>Starting\<close>

lemma subscribe_children:
  assumes "zk_inv zk owner s" "child_ok (set (zl_data s)) l"
  shows "snd (subscribeChildChanges l s) = None" "grows zk owner s (fst (subscribeChildChanges l s))"
    "l \<in> set (zl_children (fst (subscribeChildChanges l s)))"
proof -
  have "zk_inv zk owner (fst (subscribeChildChanges l s))" using assms by (auto simp: zk_inv_def subscribeChildChanges_def)
  moreover have "accurate zk (fst (subscribeChildChanges l s)) k = accurate zk s k" for k
    by (simp add: accurate_def subscribeChildChanges_def)
  ultimately show "grows zk owner s (fst (subscribeChildChanges l s))"
    by (auto simp: grows_def same_nodes_refl subscribeChildChanges_def)
qed (simp_all add: subscribeChildChanges_def)

lemma watcherData_run:
  assumes q: "quiet hm" and zk: "zk_documented zk" and inv: "zk_inv zk owner s"
  defines "r \<equiv> watcherData hm zk s"
  shows "snd r = None" "grows zk owner s (fst r)" "PluginNames \<in> set (zl_children (fst r))"
    "heard zk owner PluginNames (fst r)"
proof -
  let ?s1 = "s\<lparr>zl_tree := ensure zk PLUGIN_PARENT (zl_tree s)\<rparr>"
  let ?r2 = "each (watcherAll hm zk) (zk_getChildren zk PLUGIN_PARENT (zl_tree ?s1)) ?s1"
  have w: "PLUGIN_PARENT \<in> watched" by (simp add: watched_def)
  have g1: "grows zk owner s ?s1" by (rule grows_tree [OF inv ensure_same [OF zk w]])
  note inv1 = grows_inv [OF g1]
  have r2: "grows zk owner ?s1 (fst ?r2) \<and> heard zk owner PluginNames (fst ?r2)"
    using handle_children_run [OF q zk inv1, of PluginNames] by simp
  have none: "snd ?r2 = None"
  proof -
    have "snd (watcherAll hm zk n s') = None \<and> grows zk owner s' (fst (watcherAll hm zk n s'))"
      if "n \<in> set (zk_getChildren zk PLUGIN_PARENT (zl_tree ?s1))" "grows zk owner ?s1 s'" for n s'
    proof -
      have n: "name_ok n" "zk_exists zk (path_of (KPlugin n)) (zl_tree ?s1)"
        using that(1) documented_children [OF zk, of n PLUGIN_PARENT "zl_tree ?s1"] by (simp_all add: path_of_node)
      then have "zk_exists zk (path_of (KPlugin n)) (zl_tree s')" using that(2) unfolding grows_def same_nodes_def by simp
      from watcherAll_run [OF q zk grows_inv [OF that(2)] n(1) this] show ?thesis by blast
    qed
    then show ?thesis using each_grows [of _ zk owner ?s1 "watcherAll hm zk"] inv1 by blast
  qed
  have run: "r = subscribeChildChanges PluginNames (fst ?r2)"
    using none by (simp add: r_def watcherData_def on_tree_def and_then_ok)
  note sub = subscribe_children [OF grows_inv [OF conjunct1 [OF r2]], of PluginNames, folded run]
  show "snd r = None" "PluginNames \<in> set (zl_children (fst r))" using sub by simp_all
  show "grows zk owner s (fst r)" using grows_trans [OF g1 grows_trans [OF conjunct1 [OF r2] sub(2)]] by simp
  show "heard zk owner PluginNames (fst r)" using lasting_heard sub(2) r2 unfolding lasting_def by simp blast
qed

lemma zk_start_settles:
  assumes "quiet hm" and "zk_documented zk" and "tree_ok zk owner (zl_tree s)"
    and "zl_data s = []" and "zl_children s = []" and "\<forall>k. held (zl_gateway s) k = {}"
  shows "snd (zk_start hm zk s) = None \<and> settled zk owner (fst (zk_start hm zk s)) \<and> same_nodes zk owner (zl_tree s) (zl_tree (fst (zk_start hm zk s)))
    \<and> (\<forall>k. proper owner k \<and> known zk (zl_tree s) k \<longrightarrow> right zk (zl_tree s) (zl_gateway (fst (zk_start hm zk s))) k)"
proof -
  have inv: "zk_inv zk owner s" using assms by (simp add: zk_inv_def)
  note d = watcherData_run [OF assms(1,2) inv]
  let ?s1 = "fst (watcherData hm zk s)" and ?s2 = "fst (watchAppAuth hm zk (fst (watcherData hm zk s)))"
  have oks: "(\<And>c. c \<in> set cs \<Longrightarrow> AuthNode (node_path APP_AUTH_PARENT c) \<in> D) \<Longrightarrow> child_ok D (AuthKeys cs)"
    "(\<And>c. c \<in> set cs \<Longrightarrow> MetaNode (node_path META_DATA_PARENT c) \<in> D) \<Longrightarrow> child_ok D (MetaPaths cs)" for D cs by auto
  note a = watch_children_run [where listener = AuthKeys, OF assms(1,2) grows_inv [OF d(2)] node_kinds(3) oks(1), folded watchAppAuth_def, simplified]
  note m = watch_children_run [where listener = MetaPaths, OF assms(1,2) grows_inv [OF a(2)] node_kinds(4) oks(2), folded watchMetaData_def, simplified]
  let ?s' = "fst (watchMetaData hm zk ?s2)"
  have run: "zk_start hm zk s = (?s', None)"
    by (simp add: zk_start_def and_then_ok d(1) a(1) prod_eq_iff m(1))
  note g2 = grows_trans [OF a(2) m(2)]
  note g = grows_trans [OF d(2) g2]
  have same: "same_nodes zk owner (zl_tree s) (zl_tree ?s')" using g by (simp add: grows_def)
  have acc: "accurate zk ?s' k" if "proper owner k" "listener_of k \<in> set (zl_data ?s')" for k
    using g that assms(4) unfolding grows_def by auto
  have "heard zk owner PluginNames ?s'" using lasting_heard g2 d(4) unfolding lasting_def by blast
  then have att: "attends zk owner n ?s'" if "name_ok n" "zk_exists zk (path_of (KPlugin n)) (zl_tree ?s')" for n
    using that by (simp add: heard_def)
  have others: "listener_of k \<in> set (zl_data ?s')"
    if k: "proper owner k" "key_parent k \<in> {APP_AUTH_PARENT, META_DATA_PARENT}" "zk_exists zk (path_of k) (zl_tree ?s')" for k
  proof -
    have ex: "zk_exists zk (path_of k) (zl_tree ?s1)" "zk_exists zk (path_of k) (zl_tree ?s2)"
      using k(1,3) g2 m(2) by (simp_all add: grows_def same_nodes_def)
    show ?thesis
    proof (cases "key_parent k = APP_AUTH_PARENT")
      case True
      then have "listener_of k \<in> set (zl_data ?s2)" using a(4) [OF k(1) True ex(1)] by (simp add: covers_def)
      then show ?thesis using m(2) unfolding grows_def by blast
    next
      case False
      then show ?thesis using m(4) [OF k(1) _ ex(2)] k(2) by (simp add: covers_def)
    qed
  qed
  have "PluginNames \<in> set (zl_children ?s')" "\<exists>cs. AuthKeys cs \<in> set (zl_children ?s')" "\<exists>cs. MetaPaths cs \<in> set (zl_children ?s')"
    using d(3) a(3) m(3) g2 m(2) unfolding grows_def by blast+
  then have settled: "settled zk owner ?s'" unfolding settled_def using grows_inv [OF g] acc att others by blast
  have "right zk (zl_tree s) (zl_gateway ?s') k" if k: "proper owner k" "known zk (zl_tree s) k" for k
  proof -
    have "zk_exists zk (buildPluginPath n) (zl_tree ?s') = zk_exists zk (buildPluginPath n) (zl_tree s)" if "name_ok n" for n
    proof -
      have "proper owner (KPlugin n)" using that by simp
      then have "zk_exists zk (path_of (KPlugin n)) (zl_tree ?s') = zk_exists zk (path_of (KPlugin n)) (zl_tree s)"
        using same unfolding same_nodes_def by blast
      then show ?thesis by (simp add: path_of_def)
    qed
    then have "known zk (zl_tree ?s') k" using k by (cases k) auto
    then have "right zk (zl_tree ?s') (zl_gateway ?s') k" by (rule settled_right [OF assms(2) settled k(1)])
    then show ?thesis using same k(1) by (simp add: right_def node_value_def same_nodes_def)
  qed
  then show ?thesis using settled same by (simp add: run)
qed


definition sample_zk_link :: "(zk_tree, unit) zk_link" where
  "sample_zk_link = \<lparr>zl_tree = sample_zk_tree, zl_gateway = \<lparr>gw_sub = start_state (), gw_auths = Map.empty, gw_metas = Map.empty\<rparr>,
     zl_data = [], zl_children = []\<rparr>"

lemma sample_zk_link_new:
  "quiet Map.empty" "tree_ok tree_client (\<lambda>_. ''waf'') (zl_tree sample_zk_link)" "zl_data sample_zk_link = []"
  "zl_children sample_zk_link = []" "\<forall>k. held (zl_gateway sample_zk_link) k = {}"
proof -
  show "\<forall>k. held (zl_gateway sample_zk_link) k = {}"
  proof
    show "held (zl_gateway sample_zk_link) k = {}" for k by (cases k) (simp_all add: sample_zk_link_def start_state_def empty_base_data_cache_def obtainPluginData_def
        obtainSelectorData_def obtainRuleData_def slc.members_def rlc.members_def)
  qed
qed (use sample_nodes in \<open>simp_all add: quiet_def sample_zk_link_def nodes_hold_def\<close>)


end
