(* ===== verification/ZooFollows.thy ===== *)
theory ZooFollows
  imports ZooStarts
begin

text \<open>
  A gateway over ZooKeeper follows the admin. The admin's operations on the nodes and the calls of the gateway's
  listeners come in any order; what a change calls for is pending until it has been called. When nothing is pending, the
  caches hold what the admin has published.
\<close>

subsection \<open>Runs\<close>

text \<open>A data listener is owed a call when its node's data or existence changes, a child listener when its parent's children do.\<close>

definition news :: "'z zk_client \<Rightarrow> ('z, 'h) zk_link \<Rightarrow> 'z \<Rightarrow> zk_notification set" where
  "news zk s z =
     set (map DataEvent (filter (\<lambda>p. node_value zk p z \<noteq> node_value zk p (zl_tree s)) (map dl_path (zl_data s))))
   \<union> set (map ChildEvent (filter (\<lambda>q. set (zk_getChildren zk q z) \<noteq> set (zk_getChildren zk q (zl_tree s))) (map cl_path (zl_children s))))"

datatype zk_happening = Wrote zk_op | Told zk_notification

fun zk_step :: "'h handlers \<Rightarrow> 'z zk_client \<Rightarrow> zk_happening \<Rightarrow> ('z, 'h) zk_link \<times> zk_notification set \<Rightarrow> ('z, 'h) zk_link \<times> zk_notification set" where
  "zk_step hm zk (Wrote x) (s, P) = (let z = apply_op zk x (zl_tree s) in (s\<lparr>zl_tree := z\<rparr>, P \<union> news zk s z))"
| "zk_step hm zk (Told e) (s, P) = (notify hm zk e s, P - {e})"

definition zk_run :: "'h handlers \<Rightarrow> 'z zk_client \<Rightarrow> zk_happening list \<Rightarrow> ('z, 'h) zk_link \<Rightarrow> ('z, 'h) zk_link \<times> zk_notification set" where
  "zk_run hm zk hs s = fold (zk_step hm zk) hs (s, {})"

definition writes :: "zk_happening list \<Rightarrow> zk_op list" where
  "writes hs = concat (map (\<lambda>h. case h of Wrote x \<Rightarrow> [x] | Told _ \<Rightarrow> []) hs)"

subsection \<open>What is owed\<close>

definition attended :: "'z zk_client \<Rightarrow> (string \<Rightarrow> string) \<Rightarrow> string \<Rightarrow> ('z, 'h) zk_link \<Rightarrow> zk_notification set \<Rightarrow> bool" where
  "attended zk owner n s P \<longleftrightarrow> listener_of (KPlugin n) \<in> set (zl_data s)
     \<and> (\<exists>cs. SelectorIds (buildSelectorParentPath n) cs \<in> set (zl_children s))
     \<and> (\<exists>cs. RuleIds (buildRuleParentPath n) cs \<in> set (zl_children s))
     \<and> (\<forall>k. proper owner k \<and> key_parent k \<in> {buildSelectorParentPath n, buildRuleParentPath n}
          \<and> zk_exists zk (path_of k) (zl_tree s) \<longrightarrow> listener_of k \<in> set (zl_data s) \<or> ChildEvent (key_parent k) \<in> P)"

text \<open>Whatever is not as it should be has a call pending that will set it right.\<close>

definition owed :: "'z zk_client \<Rightarrow> (string \<Rightarrow> string) \<Rightarrow> ('z, 'h) zk_link \<Rightarrow> zk_notification set \<Rightarrow> bool" where
  "owed zk owner s P \<longleftrightarrow> zk_inv zk owner s
     \<and> (\<forall>k. proper owner k \<and> listener_of k \<in> set (zl_data s) \<longrightarrow> accurate zk s k \<or> DataEvent (path_of k) \<in> P)
     \<and> (\<forall>n. name_ok n \<and> zk_exists zk (path_of (KPlugin n)) (zl_tree s) \<longrightarrow> attended zk owner n s P \<or> ChildEvent PLUGIN_PARENT \<in> P)
     \<and> PluginNames \<in> set (zl_children s) \<and> (\<exists>cs. AuthKeys cs \<in> set (zl_children s)) \<and> (\<exists>cs. MetaPaths cs \<in> set (zl_children s))
     \<and> (\<forall>k. proper owner k \<and> key_parent k \<in> {APP_AUTH_PARENT, META_DATA_PARENT} \<and> zk_exists zk (path_of k) (zl_tree s)
          \<longrightarrow> listener_of k \<in> set (zl_data s) \<or> ChildEvent (key_parent k) \<in> P)"

lemma attended_none: "attended zk owner n s {} \<longleftrightarrow> attends zk owner n s"
  by (simp add: attended_def attends_def)

lemma settled_owed: "settled zk owner s \<longleftrightarrow> owed zk owner s {}"
  by (simp add: settled_def owed_def attended_none)

lemma news_data:
  "listener_of k \<in> set (zl_data s) \<Longrightarrow> node_value zk (path_of k) z \<noteq> node_value zk (path_of k) (zl_tree s)
    \<Longrightarrow> DataEvent (path_of k) \<in> news zk s z"
  by (auto simp: news_def path_of_def)

lemma news_child:
  assumes zk: "zk_documented zk" and k: "proper owner k" and l: "l \<in> set (zl_children s)" "cl_path l = key_parent k"
    and ex: "zk_exists zk (path_of k) z" "\<not> zk_exists zk (path_of k) (zl_tree s)"
  shows "ChildEvent (key_parent k) \<in> news zk s z"
proof -
  have "key_leaf k \<in> set (zk_getChildren zk (key_parent k) z)" by (rule existing_child [OF zk k ex(1)])
  moreover have "key_leaf k \<notin> set (zk_getChildren zk (key_parent k) (zl_tree s))"
    using ex(2) path_of_node [of k] documented_children [OF zk] by metis
  ultimately have "set (zk_getChildren zk (key_parent k) z) \<noteq> set (zk_getChildren zk (key_parent k) (zl_tree s))" by blast
  moreover have "key_parent k \<in> cl_path ` set (zl_children s)" using l by force
  ultimately show ?thesis by (auto simp: news_def)
qed

lemma same_value_accurate:
  assumes "zk_documented zk" "node_value zk (path_of k) z = node_value zk (path_of k) (zl_tree s)" "accurate zk s k"
  shows "accurate zk (s\<lparr>zl_tree := z\<rparr>) k"
proof -
  have "zk_readData zk (path_of k) z = zk_readData zk (path_of k) (zl_tree s)"
    using assms(2) documented_absent [OF assms(1)] by (auto simp: node_value_def split: if_splits)
  then show ?thesis using assms(2,3) by (simp add: accurate_def)
qed

lemma owed_change:
  assumes zk: "zk_documented zk" and s: "owed zk owner s P" and z: "tree_ok zk owner z"
  shows "owed zk owner (s\<lparr>zl_tree := z\<rparr>) (P \<union> news zk s z)"
proof -
  let ?s = "s\<lparr>zl_tree := z\<rparr>" and ?P = "P \<union> news zk s z"
  have inv: "zk_inv zk owner ?s" using s z by (simp add: owed_def zk_inv_def)
  have acc: "accurate zk ?s k \<or> DataEvent (path_of k) \<in> ?P" if k: "proper owner k" "listener_of k \<in> set (zl_data s)" for k
    using s k news_data [OF k(2), of zk z] same_value_accurate [OF zk] unfolding owed_def by blast
  have child: "listener_of k \<in> set (zl_data s) \<or> ChildEvent (key_parent k) \<in> ?P"
    if k: "proper owner k" "zk_exists zk (path_of k) z" and l: "l \<in> set (zl_children s)" "cl_path l = key_parent k"
      and before: "zk_exists zk (path_of k) (zl_tree s) \<Longrightarrow> listener_of k \<in> set (zl_data s) \<or> ChildEvent (key_parent k) \<in> P" for k l
    using news_child [OF zk k(1) l k(2)] before by blast
  have att: "attended zk owner n ?s ?P \<or> ChildEvent PLUGIN_PARENT \<in> ?P"
    if n: "name_ok n" "zk_exists zk (path_of (KPlugin n)) z" for n
  proof (cases "zk_exists zk (path_of (KPlugin n)) (zl_tree s)")
    case True
    show ?thesis
    proof (cases "ChildEvent PLUGIN_PARENT \<in> P")
      case False
      then have a: "attended zk owner n s P" using s n(1) True by (simp add: owed_def)
      then obtain cs ds where l: "SelectorIds (buildSelectorParentPath n) cs \<in> set (zl_children s)"
        "RuleIds (buildRuleParentPath n) ds \<in> set (zl_children s)" unfolding attended_def by blast
      have "listener_of k \<in> set (zl_data s) \<or> ChildEvent (key_parent k) \<in> ?P"
        if k: "proper owner k" "key_parent k \<in> {buildSelectorParentPath n, buildRuleParentPath n}" "zk_exists zk (path_of k) z" for k
      proof -
        have before: "listener_of k \<in> set (zl_data s) \<or> ChildEvent (key_parent k) \<in> P" if "zk_exists zk (path_of k) (zl_tree s)"
          using a k(1,2) that unfolding attended_def by blast
        show ?thesis using child [OF k(1,3) l(1) _ before] child [OF k(1,3) l(2) _ before] k(2) by auto
      qed
      then have "attended zk owner n ?s ?P" using a unfolding attended_def by simp
      then show ?thesis ..
    qed simp
  next
    case False
    have "PluginNames \<in> set (zl_children s)" using s by (simp add: owed_def)
    then show ?thesis using news_child [OF zk, of owner "KPlugin n" PluginNames s z] n False by simp
  qed
  obtain cs ds where l: "AuthKeys cs \<in> set (zl_children s)" "MetaPaths ds \<in> set (zl_children s)" using s unfolding owed_def by blast
  have "listener_of k \<in> set (zl_data s) \<or> ChildEvent (key_parent k) \<in> ?P"
    if k: "proper owner k" "key_parent k \<in> {APP_AUTH_PARENT, META_DATA_PARENT}" "zk_exists zk (path_of k) z" for k
  proof -
    have before: "listener_of k \<in> set (zl_data s) \<or> ChildEvent (key_parent k) \<in> P" if "zk_exists zk (path_of k) (zl_tree s)"
      using s k(1,2) that unfolding owed_def by blast
    show ?thesis using child [OF k(1,3) l(1) _ before] child [OF k(1,3) l(2) _ before] k(2) by auto
  qed
  then show ?thesis using inv acc att s unfolding owed_def by simp
qed

lemma notify_grows:
  "quiet hm \<Longrightarrow> zk_documented zk \<Longrightarrow> zk_inv zk owner s \<Longrightarrow> grows zk owner s (notify hm zk e s)"
  by (cases e) (simp_all add: child_event(1) data_event(1))

lemma owed_told:
  assumes q: "quiet hm" and zk: "zk_documented zk" and s: "owed zk owner s P"
  shows "owed zk owner (notify hm zk e s) (P - {e})"
proof -
  let ?s = "notify hm zk e s"
  have inv: "zk_inv zk owner s" using s by (simp add: owed_def)
  have g: "grows zk owner s ?s" by (rule notify_grows [OF q zk inv])
  have ex: "zk_exists zk (path_of k) (zl_tree ?s) = zk_exists zk (path_of k) (zl_tree s)" if "proper owner k" for k
    using g that by (simp add: grows_def same_nodes_def)
  have kept: "l \<in> set (zl_data s) \<Longrightarrow> l \<in> set (zl_data ?s)" "c \<in> set (zl_children s) \<Longrightarrow> c \<in> set (zl_children ?s)" for l c
    using g by (auto simp: grows_def)
  have heard: "heard zk owner l ?s" if "l \<in> set (zl_children s)" "e = ChildEvent (cl_path l)" for l
    using child_event(2) [OF q zk inv that(1) refl] that(2) by simp
  have acc: "accurate zk ?s k \<or> DataEvent (path_of k) \<in> P - {e}" if k: "proper owner k" "listener_of k \<in> set (zl_data ?s)" for k
  proof (cases "listener_of k \<in> set (zl_data s)")
    case True
    have "accurate zk ?s k" if "e = DataEvent (path_of k)"
      using data_event(2) [OF q zk inv k(1) True] that by (simp add: covers_def)
    moreover have "accurate zk s k \<Longrightarrow> accurate zk ?s k" using g k(1) by (simp add: grows_def)
    ultimately show ?thesis using s k(1) True unfolding owed_def by blast
  qed (use g k in \<open>auto simp: grows_def\<close>)
  have child: "listener_of k \<in> set (zl_data ?s) \<or> ChildEvent (key_parent k) \<in> P - {e}"
    if k: "proper owner k" "zk_exists zk (path_of k) (zl_tree ?s)" and l: "l \<in> set (zl_children s)" "l \<noteq> PluginNames" "cl_path l = key_parent k"
      and before: "listener_of k \<in> set (zl_data s) \<or> ChildEvent (key_parent k) \<in> P" for k l
    using heard [OF l(1)] k l before kept(1) unfolding heard_def by auto
  have att: "attended zk owner n ?s (P - {e}) \<or> ChildEvent PLUGIN_PARENT \<in> P - {e}"
    if n: "name_ok n" "zk_exists zk (path_of (KPlugin n)) (zl_tree ?s)" for n
  proof (cases "e = ChildEvent PLUGIN_PARENT")
    case True
    then have "heard zk owner PluginNames ?s" using s heard [of PluginNames] by (simp add: owed_def)
    then have "attends zk owner n ?s" using n by (simp add: heard_def)
    then show ?thesis by (auto simp: attends_def attended_def)
  next
    case False
    show ?thesis
    proof (cases "ChildEvent PLUGIN_PARENT \<in> P")
      case no: False
      then have a: "attended zk owner n s P" using s n ex [of "KPlugin n"] by (simp add: owed_def)
      then obtain cs ds where l: "SelectorIds (buildSelectorParentPath n) cs \<in> set (zl_children s)"
        "RuleIds (buildRuleParentPath n) ds \<in> set (zl_children s)" unfolding attended_def by blast
      have "listener_of k \<in> set (zl_data ?s) \<or> ChildEvent (key_parent k) \<in> P - {e}"
        if k: "proper owner k" "key_parent k \<in> {buildSelectorParentPath n, buildRuleParentPath n}" "zk_exists zk (path_of k) (zl_tree ?s)" for k
      proof -
        have before: "listener_of k \<in> set (zl_data s) \<or> ChildEvent (key_parent k) \<in> P"
          using a k ex [OF k(1)] unfolding attended_def by blast
        show ?thesis using child [OF k(1,3) l(1) _ _ before] child [OF k(1,3) l(2) _ _ before] k(2) by auto
      qed
      then have "attended zk owner n ?s (P - {e})" using a kept unfolding attended_def by blast
      then show ?thesis ..
    qed (use False in simp)
  qed
  obtain cs ds where l: "AuthKeys cs \<in> set (zl_children s)" "MetaPaths ds \<in> set (zl_children s)" using s unfolding owed_def by blast
  have "listener_of k \<in> set (zl_data ?s) \<or> ChildEvent (key_parent k) \<in> P - {e}"
    if k: "proper owner k" "key_parent k \<in> {APP_AUTH_PARENT, META_DATA_PARENT}" "zk_exists zk (path_of k) (zl_tree ?s)" for k
  proof -
    have before: "listener_of k \<in> set (zl_data s) \<or> ChildEvent (key_parent k) \<in> P"
      using s k ex [OF k(1)] unfolding owed_def by blast
    show ?thesis using child [OF k(1,3) l(1) _ _ before] child [OF k(1,3) l(2) _ _ before] k(2) by auto
  qed
  then show ?thesis using grows_inv [OF g] acc att s kept unfolding owed_def by blast
qed

lemma run_owed:
  assumes q: "quiet hm" and zk: "zk_documented zk"
  shows "owed zk owner s P \<Longrightarrow> nodes_hold zk owner (zl_tree s) v \<Longrightarrow> \<forall>x\<in>set (writes hs). op_ok owner x \<Longrightarrow>
    owed zk owner (fst (fold (zk_step hm zk) hs (s, P))) (snd (fold (zk_step hm zk) hs (s, P)))
    \<and> nodes_hold zk owner (zl_tree (fst (fold (zk_step hm zk) hs (s, P)))) (fold value_change (writes hs) v)"
proof (induction hs arbitrary: s P v)
  case (Cons h hs)
  show ?case
  proof (cases h)
    case (Wrote x)
    let ?z = "apply_op zk x (zl_tree s)"
    have x: "op_ok owner x" using Cons.prems(3) by (simp add: writes_def Wrote)
    have v: "nodes_hold zk owner ?z (value_change x v)" by (rule op_nodes [OF zk x Cons.prems(2)])
    then have "tree_ok zk owner ?z" by (simp add: nodes_hold_def)
    then have "owed zk owner (s\<lparr>zl_tree := ?z\<rparr>) (P \<union> news zk s ?z)" by (rule owed_change [OF zk Cons.prems(1)])
    from Cons.IH [OF this, of "value_change x v"] v Cons.prems(3) show ?thesis by (simp add: writes_def Wrote Let_def)
  next
    case (Told e)
    have "same_nodes zk owner (zl_tree s) (zl_tree (notify hm zk e s))"
      using notify_grows [OF q zk, of owner s e] Cons.prems(1) by (simp add: owed_def grows_def)
    then have v: "nodes_hold zk owner (zl_tree (notify hm zk e s)) v" by (rule nodes_hold_same [OF Cons.prems(2)])
    from Cons.IH [OF owed_told [OF q zk Cons.prems(1)] v] Cons.prems(3) show ?thesis by (simp add: writes_def Told)
  qed
qed (simp add: writes_def)

lemma settled_holds:
  assumes zk: "zk_documented zk" and s: "settled zk owner s" and v: "nodes_hold zk owner (zl_tree s) v" "full_of owner m v"
    and k: "proper owner k" "\<forall>n. plugin_of k = Some n \<longrightarrow> m (KPlugin n) \<noteq> None"
  shows "held (zl_gateway s) k = set_option (m k)"
proof -
  have val: "node_value zk (path_of k) (zl_tree s) = map_option Some (m k)" if "proper owner k" for k
    using v that by (simp add: nodes_hold_def full_of_def)
  have there: "zk_exists zk (buildPluginPath n) (zl_tree s)" if "plugin_of k = Some n" for n
  proof -
    have "proper owner (KPlugin n)" using k(1) that by (cases k) auto
    then show ?thesis using val [of "KPlugin n"] k(2) that by (auto simp: node_value_def path_of_def split: if_splits)
  qed
  have "known zk (zl_tree s) k" using there by (cases k) auto
  from settled_right [OF zk s k(1) this] show ?thesis using val [OF k(1)]
    by (cases "m k") (auto simp: right_def node_value_def documented_absent [OF zk] split: if_splits)
qed

subsection \<open>The gateway\<close>


definition sample_zk_started :: "(zk_tree, unit) zk_link" where
  "sample_zk_started = fst (zk_start Map.empty tree_client sample_zk_link)"

definition sample_zk_happenings :: "zk_happening list" where
  "sample_zk_happenings = [Told (ChildEvent PLUGIN_PARENT), Wrote (Delete (buildSelectorRealPath ''waf'' ''9'')),
     Told (ChildEvent (buildSelectorParentPath ''waf'')), Told (DataEvent (buildSelectorRealPath ''waf'' ''9''))]"

lemma sample_zk_run: "snd (zk_run Map.empty tree_client sample_zk_happenings sample_zk_started) = {}"
  by code_simp




end
