(* ===== verification/ZooInit.thy ===== *)
theory ZooInit
  imports ZooFollows GatewayInStep
begin

text \<open>
  \<open>ZookeeperDataInit\<close>, which publishes everything when the admin starts and finds no nodes: what it does when there is no
  selector yet.
\<close>

text \<open>
  \<open>run\<close>. The listener's exception ends \<open>syncAll\<close>, which changes no table: the listener takes the events in the order
  they are published, as far as it gets.
\<close>

definition zk_init_run :: "'z zk_client \<Rightarrow> 'u admin \<Rightarrow> 'z updates" where
  "zk_init_run zk st z =
     (if zk_init_publishes zk z
      then each (zk_listener zk) (drop (length (ad_published st)) (ad_published (snd (syncAll EV_REFRESH st)))) z
      else (z, None))"

lemma syncAll_refresh_events:
  "drop (length (ad_published st)) (ad_published (snd (syncAll EV_REFRESH st))) =
     (if tb_auths (ad_tables st) = [] then [] else [AuthChanged EV_REFRESH (map (buildByEntity (ad_tables st)) (tb_auths (ad_tables st)))])
     @ [PluginChanged EV_REFRESH (plugin_listAll (ad_tables st)), SelectorChanged EV_REFRESH (selector_listAll (ad_tables st)),
        RuleChanged EV_REFRESH (rule_listAll (ad_tables st))]
     @ (if tb_metas (ad_tables st) = [] then [] else [MetaChanged EV_REFRESH (map (Some \<circ> meta_of_do) (tb_metas (ad_tables st)))])"
  by (simp add: syncAll_def auth_syncData_def meta_syncData_def andthen_def query_def publishEvent_def returns_def)

lemma create_or_write_keeps:
  assumes "zk_documented zk"
  shows "zk_exists zk p z \<Longrightarrow> zk_exists zk p (create_or_write zk q d z)"
    "p \<noteq> q \<Longrightarrow> zk_readData zk p (create_or_write zk q d z) = zk_readData zk p z"
    "p \<noteq> [] \<Longrightarrow> below p q \<Longrightarrow> \<not> zk_exists zk q z \<Longrightarrow> zk_exists zk p (create_or_write zk q d z)"
    "zk_exists zk p (create_or_write zk q d z) \<Longrightarrow> zk_exists zk p z \<or> p = q \<or> below p q"
proof -
  have "zk_exists zk q (ensure zk q z)" using assms by (rule ensured)
  then have ex: "zk_exists zk p' (create_or_write zk q d z) = zk_exists zk p' (ensure zk q z)" for p'
    using assms by (simp add: create_or_write_def zk_documented_def)
  show "zk_exists zk p z \<Longrightarrow> zk_exists zk p (create_or_write zk q d z)" unfolding ex using assms by (simp add: ensure_def zk_documented_def)
  show "p \<noteq> q \<Longrightarrow> zk_readData zk p (create_or_write zk q d z) = zk_readData zk p z"
    using assms \<open>zk_exists zk q (ensure zk q z)\<close> by (simp add: create_or_write_def ensure_def zk_documented_def)
  show "p \<noteq> [] \<Longrightarrow> below p q \<Longrightarrow> \<not> zk_exists zk q z \<Longrightarrow> zk_exists zk p (create_or_write zk q d z)"
    unfolding ex using assms by (simp add: ensure_def zk_documented_def)
  show "zk_exists zk p (create_or_write zk q d z) \<Longrightarrow> zk_exists zk p z \<or> p = q \<or> below p q"
    unfolding ex using assms by (auto simp: ensure_def zk_documented_def split: if_splits)
qed

lemma rows_written:
  assumes zk: "zk_documented zk"
    and f: "\<And>d z. f d z = (create_or_write zk (path d) (row d) z, None)"
  shows "snd (each f ds z) = None" "zk_exists zk p z \<Longrightarrow> zk_exists zk p (fst (each f ds z))"
    "zk_exists zk p (fst (each f ds z)) \<Longrightarrow> zk_exists zk p z \<or> (\<exists>d\<in>set ds. p = path d \<or> below p (path d))"
    "p \<notin> path ` set ds \<Longrightarrow> zk_readData zk p (fst (each f ds z)) = zk_readData zk p z"
proof (induction ds arbitrary: z)
  case (Cons d ds)
  case 3
  then show ?case using Cons.IH(3) create_or_write_keeps(4) [OF zk, of p "path d" "row d" z] by (auto simp: f)
qed (simp_all add: f create_or_write_keeps [OF zk])

lemma auth_rows_written:
  assumes "zk_documented zk" "ty \<noteq> EV_DELETE"
  shows "snd (zk_onAppAuthChanged zk ty ds z) = None"
    "zk_readData zk (buildMetaDataPath m) (fst (zk_onAppAuthChanged zk ty ds z)) = zk_readData zk (buildMetaDataPath m) z"
    "zk_exists zk (buildPluginPath n) (fst (zk_onAppAuthChanged zk ty ds z)) \<Longrightarrow> zk_exists zk (buildPluginPath n) z"
proof -
  have f: "(let appAuthPath = buildAppAuthPath (aa_appKey d)
     in (if ty = EV_DELETE then delete_node zk appAuthPath z else create_or_write zk appAuthPath (ZAuth d) z, None))
    = (create_or_write zk (buildAppAuthPath (aa_appKey d)) (ZAuth d) z, None)" for d z using assms(2) by (simp add: Let_def)
  note rows = rows_written [OF assms(1), of _ "\<lambda>d. buildAppAuthPath (aa_appKey d)" ZAuth, OF f, folded zk_onAppAuthChanged_def]
  show "snd (zk_onAppAuthChanged zk ty ds z) = None" by (rule rows(1))
  show "zk_readData zk (buildMetaDataPath m) (fst (zk_onAppAuthChanged zk ty ds z)) = zk_readData zk (buildMetaDataPath m) z"
    by (rule rows(4)) (auto simp: path_defs)
  show "zk_exists zk (buildPluginPath n) (fst (zk_onAppAuthChanged zk ty ds z)) \<Longrightarrow> zk_exists zk (buildPluginPath n) z"
    using rows(3) [of "buildPluginPath n" ds z] by (auto simp: path_defs below_def)
qed

lemma plugin_rows_written:
  assumes "zk_documented zk" "ty \<noteq> EV_DELETE"
  shows "snd (zk_onPluginChanged zk ty ds z) = None" "zk_exists zk p z \<Longrightarrow> zk_exists zk p (fst (zk_onPluginChanged zk ty ds z))"
    "zk_readData zk (buildMetaDataPath m) (fst (zk_onPluginChanged zk ty ds z)) = zk_readData zk (buildMetaDataPath m) z"
proof -
  have f: "(if ty = EV_DELETE then
        delete_tree zk (buildRuleParentPath (pd_name d))
          (delete_tree zk (buildSelectorParentPath (pd_name d)) (delete_tree zk (buildPluginPath (pd_name d)) z))
      else create_or_write zk (buildPluginPath (pd_name d)) (ZPlugin d) z, None)
    = (create_or_write zk (buildPluginPath (pd_name d)) (ZPlugin d) z, None :: jexn option)" for d z using assms(2) by simp
  note rows = rows_written [OF assms(1), of _ "\<lambda>d. buildPluginPath (pd_name d)" ZPlugin, OF f, folded zk_onPluginChanged_def]
  show "snd (zk_onPluginChanged zk ty ds z) = None" by (rule rows(1))
  show "zk_exists zk p z \<Longrightarrow> zk_exists zk p (fst (zk_onPluginChanged zk ty ds z))" by (rule rows(2))
  show "zk_readData zk (buildMetaDataPath m) (fst (zk_onPluginChanged zk ty ds z)) = zk_readData zk (buildMetaDataPath m) z"
    by (rule rows(4)) (auto simp: path_defs)
qed

text \<open>
  C38: The admin's first start over ZooKeeper fails when there is no selector. With no nodes yet,
  \<open>ZookeeperDataInit\<close> publishes everything; the refresh of the empty list of selectors throws \<open>IndexOutOfBoundsException\<close> out of the start,
  after the plugins are written and before the meta data are. The next start finds the plugins and publishes nothing,
  so that the meta data stay unpublished.
\<close>

theorem zookeeper_first_start_fails:
  assumes "zk_documented zk" and "zk_init_publishes zk z" and "\<forall>n. \<not> zk_exists zk (buildPluginPath n) z"
    and "tb_plugins (ad_tables st) \<noteq> []" and "tb_selectors (ad_tables st) = []"
  shows "snd (zk_init_run zk st z) = Some IndexOutOfBounds
    \<and> (\<forall>m. zk_readData zk (buildMetaDataPath m) (fst (zk_init_run zk st z)) = zk_readData zk (buildMetaDataPath m) z)
    \<and> zk_init_run zk st' (fst (zk_init_run zk st z)) = (fst (zk_init_run zk st z), None)"
proof -
  let ?t = "ad_tables st"
  let ?auths = "map (buildByEntity ?t) (tb_auths ?t)" and ?ps = "plugin_listAll ?t"
  let ?r1 = "zk_onAppAuthChanged zk EV_REFRESH ?auths z"
  obtain z1 where z1: "z1 = (if tb_auths ?t = [] then z else fst ?r1)" by blast
  obtain z2 where z2: "zk_onPluginChanged zk EV_REFRESH ?ps z1 = (z2, None)"
    using plugin_rows_written(1) [OF assms(1), of EV_REFRESH ?ps z1] by (metis data_event_type.distinct prod.collapse)
  have auths: "tb_auths ?t \<noteq> [] \<Longrightarrow> ?r1 = (z1, None)"
    using auth_rows_written(1) [OF assms(1), of EV_REFRESH ?auths z] z1 by (simp add: prod_eq_iff)
  have "selector_listAll ?t = []" using assms(5) by (simp add: selector_listAll_def)
  have run: "zk_init_run zk st z = (z2, Some IndexOutOfBounds)"
  proof (cases "tb_auths ?t = []")
    case True
    then show ?thesis using assms(2) z2 z1 \<open>selector_listAll ?t = []\<close>
      by (simp add: zk_init_run_def syncAll_refresh_events zk_onSelectorChanged_def clear_first_def and_then_def)
  next
    case False
    then show ?thesis using assms(2) z2 auths [OF False] \<open>selector_listAll ?t = []\<close>
      by (simp add: zk_init_run_def syncAll_refresh_events zk_onSelectorChanged_def clear_first_def and_then_def)
  qed
  have "zk_exists zk PLUGIN_PARENT z2"
  proof -
    obtain p ps where ps: "?ps = p # ps" using assms(4) by (cases ?ps) (simp_all add: plugin_listAll_def)
    let ?z = "create_or_write zk (buildPluginPath (pd_name p)) (ZPlugin p) z1"
    have "zk_onPluginChanged zk EV_REFRESH ?ps z1 = zk_onPluginChanged zk EV_REFRESH ps ?z" by (simp add: zk_onPluginChanged_def ps)
    moreover have "zk_exists zk PLUGIN_PARENT ?z"
    proof (cases "zk_exists zk (buildPluginPath (pd_name p)) z1")
      case False
      then show ?thesis by (intro create_or_write_keeps(3) [OF assms(1)]) (simp_all add: path_defs below_def)
    next
      case True
      then show ?thesis using auth_rows_written(3) [OF assms(1), of EV_REFRESH "pd_name p" ?auths z] assms(3) z1 by (simp split: if_splits)
    qed
    ultimately show ?thesis using plugin_rows_written(2) [OF assms(1), of EV_REFRESH PLUGIN_PARENT ?z ps] z2 by (metis data_event_type.distinct fst_conv)
  qed
  then have "zk_init_run zk st' z2 = (z2, None)" by (simp add: zk_init_run_def zk_init_publishes_def)
  moreover have "zk_readData zk (buildMetaDataPath m) z2 = zk_readData zk (buildMetaDataPath m) z" for m
    using plugin_rows_written(3) [OF assms(1), of EV_REFRESH m ?ps z1] auth_rows_written(2) [OF assms(1), of EV_REFRESH m ?auths z] z1 z2 by simp
  ultimately show ?thesis by (simp add: run)
qed

lemma zookeeper_first_start_fails_witness:
  "snd (zk_init_run tree_client (sample_admin sample_tables) []) = Some IndexOutOfBounds
    \<and> zk_init_run tree_client (sample_admin sample_tables) (fst (zk_init_run tree_client (sample_admin sample_tables) []))
      = (fst (zk_init_run tree_client (sample_admin sample_tables) []), None)"
proof -
  have "zk_init_publishes tree_client []" "\<forall>n. \<not> zk_exists tree_client (buildPluginPath n) []"
    "tb_plugins (ad_tables (sample_admin sample_tables)) \<noteq> []" "tb_selectors (ad_tables (sample_admin sample_tables)) = []"
    by (simp_all add: zk_init_publishes_def tree_client_def tree_has_def sample_admin_def sample_tables_def)
  from zookeeper_first_start_fails [OF tree_client_documented this] show ?thesis by blast
qed

end
